(* ===== verification/Prelude.thy ===== *)
theory Prelude
  imports Complex_Main "HOL-Library.Char_ord" "HOL-Library.List_Lexorder"
begin

text \<open>
  Shared vocabulary of the development: results (\<open>'e + 'a\<close>, \<open>Inl\<close> for
  \<open>Err\<close>), loops that stop at the first error, \<open>BTreeMap\<close> and \<open>BTreeSet\<close>
  as key-sorted lists, and the few string functions of Rust's standard library the
  code uses.  A \<open>string\<close> is the UTF-8 byte sequence of a Rust string, so the order
  on strings (\<open>List_Lexorder\<close> over \<open>Char_ord\<close>) is the byte order of
  \<open>str::cmp\<close>.

  Theorem collections: \<open>result_simps\<close> (what \<open>= Inr\<close> says about the
  combinators) and \<open>btree_simps\<close> (the laws of the map operations).
\<close>

named_theorems result_simps
named_theorems btree_simps

section \<open>Results\<close>

definition res_bind :: "'e + 'a \<Rightarrow> ('a \<Rightarrow> 'e + 'b) \<Rightarrow> 'e + 'b" where
  "res_bind r f = (case r of Inl e \<Rightarrow> Inl e | Inr a \<Rightarrow> f a)"

definition ok_or :: "'a option \<Rightarrow> 'e \<Rightarrow> 'e + 'a" where
  "ok_or x e = (case x of None \<Rightarrow> Inl e | Some a \<Rightarrow> Inr a)"

definition map_err :: "('e \<Rightarrow> 'f) \<Rightarrow> 'e + 'a \<Rightarrow> 'f + 'a" where
  "map_err f r = (case r of Inl e \<Rightarrow> Inl (f e) | Inr a \<Rightarrow> Inr a)"

definition is_ok :: "'e + 'a \<Rightarrow> bool" where
  "is_ok r = (case r of Inl _ \<Rightarrow> False | Inr _ \<Rightarrow> True)"

lemma res_bind_simps [simp]:
  "res_bind (Inl e) f = Inl e"
  "res_bind (Inr a) f = f a"
  by (simp_all add: res_bind_def)

lemma ok_or_simps [simp]:
  "ok_or None e = Inl e"
  "ok_or (Some a) e = Inr a"
  by (simp_all add: ok_or_def)

lemma map_err_simps [simp]:
  "map_err f (Inl e) = Inl (f e)"
  "map_err f (Inr a) = Inr a"
  by (simp_all add: map_err_def)

lemma is_ok_simps [simp]:
  "is_ok (Inl e) = False"
  "is_ok (Inr a) = True"
  by (simp_all add: is_ok_def)

lemma res_bind_Inr [result_simps]: "res_bind r f = Inr b \<longleftrightarrow> (\<exists>a. r = Inr a \<and> f a = Inr b)"
  by (cases r) auto

lemma ok_or_Inr [result_simps]: "ok_or x e = Inr a \<longleftrightarrow> x = Some a"
  by (cases x) auto

lemma ok_or_Inl [result_simps]: "ok_or x e = Inl e' \<longleftrightarrow> x = None \<and> e' = e"
  by (cases x) auto

lemma map_err_Inr [result_simps]: "map_err f r = Inr a \<longleftrightarrow> r = Inr a"
  by (cases r) auto

lemma is_ok_iff: "is_ok r \<longleftrightarrow> (\<exists>a. r = Inr a)"
  by (cases r) auto

text \<open>A \<open>for\<close> loop whose body only checks, leaving at the first error.\<close>

fun check_all :: "('a \<Rightarrow> 'e + unit) \<Rightarrow> 'a list \<Rightarrow> 'e + unit" where
  "check_all f [] = Inr ()"
| "check_all f (x # xs) = (case f x of Inl e \<Rightarrow> Inl e | Inr _ \<Rightarrow> check_all f xs)"

lemma check_all_Inr [result_simps]: "check_all f xs = Inr u \<longleftrightarrow> (\<forall>x\<in>set xs. f x = Inr ())"
  by (induction xs) (auto split: sum.splits)

lemma check_all_append:
  "check_all f (xs @ ys) = res_bind (check_all f xs) (\<lambda>_. check_all f ys)"
  by (induction xs) (auto split: sum.splits)

text \<open>The error reported is the one of the first element that fails.\<close>

lemma check_all_first_error:
  "check_all f xs = Inl e \<Longrightarrow>
     \<exists>ys x zs. xs = ys @ x # zs \<and> (\<forall>y\<in>set ys. f y = Inr ()) \<and> f x = Inl e"
proof (induction xs)
  case Nil
  then show ?case by simp
next
  case (Cons a xs)
  show ?case
  proof (cases "f a")
    case (Inl e')
    with Cons.prems have "f a = Inl e" by simp
    then show ?thesis by (intro exI [of _ "[]"] exI [of _ a] exI [of _ xs]) simp
  next
    case (Inr u)
    with Cons obtain ys x zs where
      "xs = ys @ x # zs" "\<forall>y\<in>set ys. f y = Inr ()" "f x = Inl e"
      by auto
    with Inr show ?thesis
      by (intro exI [of _ "a # ys"] exI [of _ x] exI [of _ zs]) simp
  qed
qed

lemma check_all_InlD: "check_all f xs = Inl e \<Longrightarrow> \<exists>x\<in>set xs. f x = Inl e"
  using check_all_first_error by fastforce

text \<open>A \<open>for\<close> loop over a state, leaving at the first error.\<close>

fun fold_res :: "('a \<Rightarrow> 's \<Rightarrow> 'e + 's) \<Rightarrow> 'a list \<Rightarrow> 's \<Rightarrow> 'e + 's" where
  "fold_res f [] s = Inr s"
| "fold_res f (x # xs) s = (case f x s of Inl e \<Rightarrow> Inl e | Inr s' \<Rightarrow> fold_res f xs s')"

lemma fold_res_append:
  "fold_res f (xs @ ys) s = res_bind (fold_res f xs s) (fold_res f ys)"
  by (induction xs arbitrary: s) (auto split: sum.splits)

lemma fold_res_invariant:
  assumes "fold_res f xs s = Inr t" and "P s"
    and "\<And>x s s'. x \<in> set xs \<Longrightarrow> P s \<Longrightarrow> f x s = Inr s' \<Longrightarrow> P s'"
  shows "P t"
  using assms
proof (induction xs arbitrary: s)
  case Nil
  then show ?case by simp
next
  case (Cons a xs)
  from Cons.prems(1) obtain s' where s': "f a s = Inr s'" "fold_res f xs s' = Inr t"
    by (auto split: sum.splits)
  have "P s'" by (rule Cons.prems(3) [OF _ Cons.prems(2) s'(1)]) simp
  from s'(2) this show ?case
    by (rule Cons.IH) (use Cons.prems(3) in auto)
qed

section \<open>Lists\<close>

lemma find_Some_iff_mem: "List.find P xs = Some x \<Longrightarrow> x \<in> set xs \<and> P x"
  by (auto simp: find_Some_iff)

lemma map_of_SomeI: "distinct (map fst m) \<Longrightarrow> (k, v) \<in> set m \<Longrightarrow> map_of m k = Some v"
  by (rule map_of_is_SomeI)

text \<open>\<open>Vec::dedup\<close>: one of each run of equal neighbours is kept (the first).\<close>

fun dedup_by :: "('a \<Rightarrow> 'a \<Rightarrow> bool) \<Rightarrow> 'a list \<Rightarrow> 'a list" where
  "dedup_by eq [] = []"
| "dedup_by eq [x] = [x]"
| "dedup_by eq (x # y # zs) =
     (if eq y x then dedup_by eq (x # zs) else x # dedup_by eq (y # zs))"

definition dedup :: "'a list \<Rightarrow> 'a list" where
  "dedup = dedup_by (=)"

lemma set_dedup [simp]: "set (dedup xs) = set xs"
proof -
  have "set (dedup_by (=) xs) = set xs"
    by (induction "(=) :: 'a \<Rightarrow> 'a \<Rightarrow> bool" xs rule: dedup_by.induct) auto
  then show ?thesis by (simp add: dedup_def)
qed

lemma sorted_dedup_strict:
  fixes xs :: "'a::linorder list"
  shows "sorted xs \<Longrightarrow> sorted_wrt (<) (dedup xs)"
proof -
  have "sorted xs \<Longrightarrow> sorted_wrt (<) (dedup_by (=) xs) \<and> set (dedup_by (=) xs) = set xs"
    by (induction "(=) :: 'a \<Rightarrow> 'a \<Rightarrow> bool" xs rule: dedup_by.induct) force+
  then show "sorted xs \<Longrightarrow> sorted_wrt (<) (dedup xs)" by (simp add: dedup_def)
qed

text \<open>\<open>Vec::sort_by\<close> on a key is stable, as \<open>sort_key\<close> is.\<close>

abbreviation sorted_ids :: "string list \<Rightarrow> string list" where
  "sorted_ids xs \<equiv> dedup (sort xs)"

lemma set_sorted_ids [simp]: "set (sorted_ids xs) = set xs"
  by simp

lemma sorted_ids_strict: "sorted_wrt (<) (sorted_ids xs)"
  by (rule sorted_dedup_strict) simp

end
