(* ===== verification/Btree.thy ===== *)
theory Btree
  imports Prelude
begin

text \<open>
  Rust's \<open>BTreeMap\<close> and \<open>BTreeSet\<close> as lists sorted strictly by key, so that
  iteration order, equality and the first element are those of the code.  The locale
  \<open>ordered_map\<close> is the interface the components program against (what a lookup
  returns after an insert or a remove, which keys are iterated and in which order); it
  is interpreted on the operations below.
\<close>

section \<open>BTreeMap\<close>

type_synonym ('k, 'v) btree_map = "('k \<times> 'v) list"

definition bt_wf :: "('k::linorder, 'v) btree_map \<Rightarrow> bool" where
  "bt_wf m \<longleftrightarrow> sorted_wrt (<) (map fst m)"

abbreviation bt_get :: "('k, 'v) btree_map \<Rightarrow> 'k \<Rightarrow> 'v option" where
  "bt_get \<equiv> map_of"

fun bt_insert :: "'k::linorder \<Rightarrow> 'v \<Rightarrow> ('k, 'v) btree_map \<Rightarrow> ('k, 'v) btree_map" where
  "bt_insert k v [] = [(k, v)]"
| "bt_insert k v ((k', v') # m) =
     (if k < k' then (k, v) # (k', v') # m
      else if k = k' then (k, v) # m
      else (k', v') # bt_insert k v m)"

definition bt_remove :: "'k \<Rightarrow> ('k, 'v) btree_map \<Rightarrow> ('k, 'v) btree_map" where
  "bt_remove k m = filter (\<lambda>(k', _). k' \<noteq> k) m"

definition bt_keys :: "('k, 'v) btree_map \<Rightarrow> 'k list" where
  "bt_keys m = map fst m"

definition bt_values :: "('k, 'v) btree_map \<Rightarrow> 'v list" where
  "bt_values m = map snd m"

text \<open>\<open>contains_key\<close>, and \<open>get_mut\<close> followed by an assignment.\<close>

definition bt_contains :: "('k, 'v) btree_map \<Rightarrow> 'k \<Rightarrow> bool" where
  "bt_contains m k = (case bt_get m k of None \<Rightarrow> False | Some _ \<Rightarrow> True)"

definition bt_modify :: "'k \<Rightarrow> ('v \<Rightarrow> 'v) \<Rightarrow> ('k, 'v) btree_map \<Rightarrow> ('k, 'v) btree_map" where
  "bt_modify k f m = map (\<lambda>(k', v). (k', if k' = k then f v else v)) m"

text \<open>\<open>collect()\<close> and \<open>BTreeMap::from\<close>: a later entry replaces an earlier one.\<close>

definition bt_from_list :: "('k::linorder \<times> 'v) list \<Rightarrow> ('k, 'v) btree_map" where
  "bt_from_list xs = fold (\<lambda>(k, v). bt_insert k v) xs []"

subsection \<open>Laws\<close>

lemma map_of_bt_insert [btree_simps, simp]: "map_of (bt_insert k v m) = (map_of m)(k \<mapsto> v)"
  by (induction m) auto

lemma map_of_bt_remove [btree_simps, simp]: "map_of (bt_remove k m) = (map_of m)(k := None)"
  by (induction m) (auto simp: bt_remove_def)

lemma map_of_bt_modify [btree_simps]:
  "map_of (bt_modify k f m) = (map_of m)(k := map_option f (map_of m k))"
  by (induction m) (auto simp: bt_modify_def)

lemma bt_contains_iff [btree_simps]: "bt_contains m k \<longleftrightarrow> k \<in> dom (map_of m)"
  by (auto simp: bt_contains_def split: option.splits)

lemma set_bt_insert_keys [simp]: "fst ` set (bt_insert k v m) = insert k (fst ` set m)"
  by (simp flip: dom_map_of_conv_image_fst)

lemma bt_wf_Nil [simp]: "bt_wf []"
  by (simp add: bt_wf_def)

lemma bt_wf_Cons [simp]:
  "bt_wf ((k, v) # m) \<longleftrightarrow> (\<forall>k'\<in>fst ` set m. k < k') \<and> bt_wf m"
  by (auto simp: bt_wf_def)

lemma bt_wf_insert [simp]: "bt_wf m \<Longrightarrow> bt_wf (bt_insert k v m)"
  by (induction m) fastforce+

lemma bt_wf_remove [simp]: "bt_wf m \<Longrightarrow> bt_wf (bt_remove k m)"
  by (induction m) (auto simp: bt_remove_def)

lemma bt_keys_modify [simp]: "bt_keys (bt_modify k f m) = bt_keys m"
  by (auto simp: bt_keys_def bt_modify_def)

lemma bt_wf_modify [simp]: "bt_wf (bt_modify k f m) = bt_wf m"
  using bt_keys_modify [of k f m] by (simp add: bt_wf_def bt_keys_def)

lemma bt_wf_distinct: "bt_wf m \<Longrightarrow> distinct (map fst m)"
  unfolding bt_wf_def by (metis strict_sorted_iff)

lemma bt_wf_map_of: "bt_wf m \<Longrightarrow> (k, v) \<in> set m \<longleftrightarrow> map_of m k = Some v"
  using bt_wf_distinct map_of_SomeI by (metis map_of_SomeD)

lemma bt_wf_from_list [simp]: "bt_wf (bt_from_list xs)"
proof -
  have "bt_wf m \<Longrightarrow> bt_wf (fold (\<lambda>(k, v). bt_insert k v) xs m)" for m
    by (induction xs arbitrary: m) auto
  then show ?thesis by (simp add: bt_from_list_def)
qed

lemma map_of_bt_from_list: "map_of (bt_from_list xs) = map_of (rev xs)"
proof -
  have "map_of (fold (\<lambda>(k, v). bt_insert k v) xs m) = map_of m ++ map_of (rev xs)" for m
    by (induction xs arbitrary: m) (auto simp: map_add_def fun_eq_iff split: option.splits)
  then show ?thesis by (simp add: bt_from_list_def)
qed

lemma bt_filter_wf [simp]: "bt_wf m \<Longrightarrow> bt_wf (filter P m)"
  by (induction m) auto

lemma alist_of_keys: "distinct (map fst m) \<Longrightarrow> map (\<lambda>k. (k, the (map_of m k))) (map fst m) = m"
  by (auto simp: comp_def intro!: map_idI)

lemma bt_wf_ext:
  assumes "bt_wf m" "bt_wf m'" "map_of m = map_of m'"
  shows "m = m'"
proof -
  have "set (map fst m) = set (map fst m')"
    using assms(3) by (simp flip: dom_map_of_conv_image_fst)
  then have "map fst m = map fst m'"
    using assms(1,2) by (intro strict_sorted_equal) (simp_all add: bt_wf_def)
  then show ?thesis
    using alist_of_keys [of m] alist_of_keys [of m'] assms by (simp add: bt_wf_distinct)
qed

section \<open>The interface of an ordered map\<close>

locale ordered_map =
  fixes empty :: "'m"
    and lookup :: "'m \<Rightarrow> 'k::linorder \<Rightarrow> 'v option"
    and update :: "'k \<Rightarrow> 'v \<Rightarrow> 'm \<Rightarrow> 'm"
    and delete :: "'k \<Rightarrow> 'm \<Rightarrow> 'm"
    and keys :: "'m \<Rightarrow> 'k list"
    and invar :: "'m \<Rightarrow> bool"
  assumes lookup_empty: "lookup empty = (\<lambda>_. None)"
    and lookup_update: "invar m \<Longrightarrow> lookup (update k v m) = (lookup m)(k \<mapsto> v)"
    and lookup_delete: "invar m \<Longrightarrow> lookup (delete k m) = (lookup m)(k := None)"
    and set_keys: "set (keys m) = dom (lookup m)"
    and sorted_keys: "invar m \<Longrightarrow> sorted_wrt (<) (keys m)"
    and invar_empty: "invar empty"
    and invar_update: "invar m \<Longrightarrow> invar (update k v m)"
    and invar_delete: "invar m \<Longrightarrow> invar (delete k m)"
begin

lemma keys_determined:
  assumes "invar m" "invar m'" "dom (lookup m) = dom (lookup m')"
  shows "keys m = keys m'"
proof -
  have "set (keys m) = set (keys m')"
    using assms(3) by (simp add: set_keys)
  moreover have "sorted_wrt (<) (keys m)" "sorted_wrt (<) (keys m')"
    using assms(1,2) by (auto intro: sorted_keys)
  ultimately show ?thesis
    by (simp add: strict_sorted_equal)
qed

lemma distinct_keys: "invar m \<Longrightarrow> distinct (keys m)"
  using sorted_keys strict_sorted_iff by blast

lemma length_keys: "invar m \<Longrightarrow> length (keys m) = card (dom (lookup m))"
  by (metis distinct_card distinct_keys set_keys)

lemma update_overwrites_keys:
  assumes "invar m" "lookup m k \<noteq> None"
  shows "keys (update k v m) = keys m"
  by (rule keys_determined)
     (use assms in \<open>auto simp: lookup_update invar_update\<close>)

end

lemma bt_keys_set: "set (bt_keys m) = dom (map_of m)"
  by (simp add: bt_keys_def dom_map_of_conv_image_fst)

interpretation btm: ordered_map "[]" map_of bt_insert bt_remove bt_keys bt_wf
  by unfold_locales (simp_all add: bt_keys_set, simp add: bt_wf_def bt_keys_def)

section \<open>BTreeSet\<close>

type_synonym 'k btree_set = "'k list"

fun bs_insert :: "'k::linorder \<Rightarrow> 'k btree_set \<Rightarrow> 'k btree_set" where
  "bs_insert k [] = [k]"
| "bs_insert k (k' # s) =
     (if k < k' then k # k' # s else if k = k' then k' # s else k' # bs_insert k s)"

definition bs_from_list :: "'k::linorder list \<Rightarrow> 'k btree_set" where
  "bs_from_list xs = fold bs_insert xs []"

lemma set_bs_insert [simp]: "set (bs_insert k s) = insert k (set s)"
  by (induction s) auto

lemma bs_insert_sorted [simp]: "sorted_wrt (<) s \<Longrightarrow> sorted_wrt (<) (bs_insert k s)"
  by (induction s) fastforce+

lemma set_fold_bs_insert: "set (fold bs_insert xs s) = set xs \<union> set s"
  by (induction xs arbitrary: s) auto

lemma sorted_fold_bs_insert: "sorted_wrt (<) s \<Longrightarrow> sorted_wrt (<) (fold bs_insert xs s)"
  by (induction xs arbitrary: s) auto

lemma set_bs_from_list [simp]: "set (bs_from_list xs) = set xs"
  by (simp add: bs_from_list_def set_fold_bs_insert)

lemma bs_from_list_sorted: "sorted_wrt (<) (bs_from_list xs)"
  by (simp add: bs_from_list_def sorted_fold_bs_insert)

end
