(* ===== verification/Floats.thy ===== *)
theory Floats
  imports Prelude "HOL-Library.Log_Nat"
begin

text \<open>
  IEEE 754 values as the code uses them (\<open>f32\<close> coordinates, \<open>f64\<close> bounds and
  amounts): a finite value is its rational number, the two infinities and NaN are
  constructors.  The sign of zero is not kept (no comparison of the code sees it).
  Arithmetic rounds the exact result to nearest, ties to even, with gradual underflow
  and overflow to infinity.
\<close>

datatype fp = Fin rat | PosInf | NegInf | NaN

type_synonym f32 = fp
type_synonym f64 = fp

fun fp_is_finite :: "fp \<Rightarrow> bool" where
  "fp_is_finite (Fin _) = True"
| "fp_is_finite _ = False"

text \<open>The comparisons of \<open>PartialEq\<close> and \<open>PartialOrd\<close>: false on NaN.\<close>

fun fp_eq :: "fp \<Rightarrow> fp \<Rightarrow> bool" where
  "fp_eq NaN _ = False"
| "fp_eq _ NaN = False"
| "fp_eq a b = (a = b)"

fun fp_lt :: "fp \<Rightarrow> fp \<Rightarrow> bool" where
  "fp_lt NaN _ = False"
| "fp_lt _ NaN = False"
| "fp_lt (Fin a) (Fin b) = (a < b)"
| "fp_lt NegInf b = (b \<noteq> NegInf)"
| "fp_lt a PosInf = (a \<noteq> PosInf)"
| "fp_lt _ _ = False"

definition fp_le :: "fp \<Rightarrow> fp \<Rightarrow> bool" where
  "fp_le a b \<longleftrightarrow> fp_lt a b \<or> fp_eq a b"

section \<open>Rounding\<close>

definition scale2 :: "int \<Rightarrow> rat" where
  "scale2 k = (if 0 \<le> k then 2 ^ nat k else 1 / 2 ^ nat (- k))"

definition round_half_even :: "rat \<Rightarrow> int" where
  "round_half_even q =
     (let f = \<lfloor>q\<rfloor>; r = q - of_int f
      in if r < 1 / 2 then f else if 1 / 2 < r then f + 1 else if even f then f else f + 1)"

text \<open>
  The power of two that scales a positive \<open>q\<close> to a \<open>p\<close>-bit significand, limited by
  the quantum \<open>2 ^ -smax\<close> of the subnormal numbers.
\<close>

definition scale_for :: "nat \<Rightarrow> int \<Rightarrow> rat \<Rightarrow> int" where
  "scale_for p smax q =
     (let (n, d) = quotient_of q;
          e = int p + bitlen d - bitlen n;
          k = (if q * scale2 e < 2 ^ p then e else e - 1)
      in min k smax)"

definition ieee_round :: "nat \<Rightarrow> int \<Rightarrow> nat \<Rightarrow> rat \<Rightarrow> fp" where
  "ieee_round p smax emax q =
     (if q = 0 then Fin 0
      else let a = \<bar>q\<bar>;
               k = scale_for p smax a;
               r = of_int (round_half_even (a * scale2 k)) / scale2 k
           in if 2 ^ emax \<le> r then (if q < 0 then NegInf else PosInf)
              else Fin (if q < 0 then - r else r))"

definition f32_round :: "rat \<Rightarrow> f32" where
  "f32_round = ieee_round 24 149 128"

definition f64_round :: "rat \<Rightarrow> f64" where
  "f64_round = ieee_round 53 1074 1024"

text \<open>The operations on \<open>f32\<close> and \<open>f64\<close> that occur.\<close>

fun fp_neg :: "fp \<Rightarrow> fp" where
  "fp_neg (Fin a) = Fin (- a)"
| "fp_neg PosInf = NegInf"
| "fp_neg NegInf = PosInf"
| "fp_neg NaN = NaN"

fun fp_add :: "(rat \<Rightarrow> fp) \<Rightarrow> fp \<Rightarrow> fp \<Rightarrow> fp" where
  "fp_add rnd NaN _ = NaN"
| "fp_add rnd _ NaN = NaN"
| "fp_add rnd (Fin a) (Fin b) = rnd (a + b)"
| "fp_add rnd PosInf b = (if b = NegInf then NaN else PosInf)"
| "fp_add rnd NegInf b = (if b = PosInf then NaN else NegInf)"
| "fp_add rnd a PosInf = PosInf"
| "fp_add rnd a NegInf = NegInf"

definition f32_sub :: "f32 \<Rightarrow> f32 \<Rightarrow> f32" where
  "f32_sub a b = fp_add f32_round a (fp_neg b)"

definition f64_add :: "f64 \<Rightarrow> f64 \<Rightarrow> f64" where
  "f64_add a b = fp_add f64_round a b"

fun fp_sgn :: "fp \<Rightarrow> rat" where
  "fp_sgn (Fin a) = sgn a"
| "fp_sgn PosInf = 1"
| "fp_sgn NegInf = - 1"
| "fp_sgn NaN = 0"

fun fp_mul :: "(rat \<Rightarrow> fp) \<Rightarrow> fp \<Rightarrow> fp \<Rightarrow> fp" where
  "fp_mul rnd (Fin a) (Fin b) = rnd (a * b)"
| "fp_mul rnd a b =
     (if a = NaN \<or> b = NaN then NaN
      else let s = fp_sgn a * fp_sgn b
           in if s = 0 then NaN else if 0 < s then PosInf else NegInf)"

definition f32_mul :: "f32 \<Rightarrow> f32 \<Rightarrow> f32" where
  "f32_mul = fp_mul f32_round"

text \<open>\<open>n as f32\<close> and \<open>n as f64\<close>.\<close>

definition f32_of_nat :: "nat \<Rightarrow> f32" where
  "f32_of_nat n = f32_round (of_nat n)"

definition f64_of_int :: "int \<Rightarrow> f64" where
  "f64_of_int n = f64_round (of_int n)"

section \<open>Integers that fit the significand are exact\<close>

lemma scale2_pos [simp]: "0 < scale2 k"
  by (simp add: scale2_def)

lemma scale2_nat: "0 \<le> k \<Longrightarrow> scale2 k = of_int (2 ^ nat k)"
  by (simp add: scale2_def)

lemma round_half_even_of_int [simp]: "round_half_even (of_int n) = n"
  by (simp add: round_half_even_def)

lemma scale_for_int:
  assumes "0 < n" "n < 2 ^ p" "int p \<le> smax"
  shows "0 \<le> scale_for p smax (of_int n)"
proof -
  have "bitlen n \<le> int p"
    using assms(2) by (simp add: bitlen_le_iff_power)
  moreover have "bitlen 1 = 1"
    by (simp add: bitlen_alt_def)
  ultimately show ?thesis
    using assms(3) by (simp add: scale_for_def Let_def)
qed

lemma ieee_round_int:
  assumes "\<bar>n\<bar> < 2 ^ p" "int p \<le> smax" "p \<le> emax"
  shows "ieee_round p smax emax (of_int n) = Fin (of_int n)"
proof (cases "n = 0")
  case True
  then show ?thesis by (simp add: ieee_round_def)
next
  case False
  define k where "k = scale_for p smax (of_int \<bar>n\<bar>)"
  have k: "0 \<le> k"
    unfolding k_def using False assms by (intro scale_for_int) auto
  have "of_int \<bar>n\<bar> * scale2 k = (of_int (\<bar>n\<bar> * 2 ^ nat k) :: rat)"
    using k by (simp add: scale2_nat)
  then have "round_half_even (of_int \<bar>n\<bar> * scale2 k) = \<bar>n\<bar> * 2 ^ nat k"
    by (metis round_half_even_of_int)
  then have r: "of_int (round_half_even (of_int \<bar>n\<bar> * scale2 k)) / scale2 k = (of_int \<bar>n\<bar> :: rat)"
    using k by (simp add: scale2_nat)
  have "(2::int) ^ p \<le> 2 ^ emax"
    using assms(3) by simp
  then have "\<bar>n\<bar> < 2 ^ emax"
    using assms(1) by linarith
  then have "\<not> (2 ^ emax \<le> (of_int \<bar>n\<bar> :: rat))"
    by (metis of_int_less_iff of_int_numeral of_int_power not_le)
  moreover have abs: "\<bar>rat_of_int n\<bar> = rat_of_int \<bar>n\<bar>" by simp
  ultimately show ?thesis
    using False unfolding ieee_round_def Let_def abs k_def [symmetric] r by auto
qed

lemma f32_of_nat_exact: "n < 2 ^ 24 \<Longrightarrow> f32_of_nat n = Fin (of_nat n)"
  using ieee_round_int [of "int n" 24 149 128] by (simp add: f32_of_nat_def f32_round_def)

lemma f32_round_int_exact: "\<bar>n\<bar> < 2 ^ 24 \<Longrightarrow> f32_round (of_int n) = Fin (of_int n)"
  using ieee_round_int [of n 24 149 128] by (simp add: f32_round_def)

lemma f64_of_int_exact: "\<bar>n\<bar> < 2 ^ 53 \<Longrightarrow> f64_of_int n = Fin (of_int n)"
  using ieee_round_int [of n 53 1074 1024] by (simp add: f64_of_int_def f64_round_def)

section \<open>Integers beyond the significand stay large\<close>

lemma round_half_even_ge: "of_int m \<le> q \<Longrightarrow> m \<le> round_half_even q"
  using le_floor_iff [of m q] by (auto simp: round_half_even_def Let_def)

lemma scale2_neg: "scale2 (- int k) = 1 / 2 ^ k"
  by (cases k) (simp_all add: scale2_def del: of_nat_Suc)

lemma scale_for_big:
  assumes n: "2 ^ p \<le> n" and p: "0 < p" "int p \<le> smax"
  shows "\<exists>j. scale_for p smax (of_int n) = - int (Suc j) \<and> 2 ^ (p + j) \<le> n"
proof -
  have pos: "0 < n"
    using n by (meson less_le_trans zero_less_numeral zero_less_power)
  have low: "2 ^ nat (bitlen n - 1) \<le> n" and up: "n < 2 ^ nat (bitlen n)"
    using bitlen_bounds [OF pos] by auto
  have "(2::int) ^ p < 2 ^ nat (bitlen n)" using n up by linarith
  then have "p < nat (bitlen n)" by simp
  then obtain j where "nat (bitlen n) = Suc (p + j)"
    using less_iff_Suc_add by blast
  then have j: "bitlen n = int (Suc (p + j))"
    by linarith
  then have "nat (bitlen n - 1) = p + j" by linarith
  with low have low': "2 ^ (p + j) \<le> n" by simp
  then have "(2::rat) ^ p * 2 ^ j \<le> of_int n"
    by (metis of_int_le_iff of_int_numeral of_int_power power_add)
  moreover have e: "int p + 1 - bitlen n = - int j" using j by simp
  ultimately have "\<not> of_int n * scale2 (- int j) < 2 ^ p"
    by (simp add: scale2_neg field_simps not_less)
  then have "scale_for p smax (of_int n) = - int (Suc j)"
    using p e by (simp add: scale_for_def Let_def bitlen_alt_def [of 1])
  with low' show ?thesis by blast
qed

lemma pow_le_scaled:
  assumes "(2::rat) ^ (p - 1) \<le> r" "0 < p"
  shows "2 ^ p \<le> r / (1 / 2 ^ Suc j)"
proof -
  have "(0::rat) \<le> 2 ^ (p - 1)" by simp
  with assms(1) have "0 \<le> r" by (rule order_trans [rotated])
  have "(2::rat) ^ p = 2 ^ (p - 1) * 2" using assms(2) by (cases p) simp_all
  also have "\<dots> \<le> r * 2 ^ Suc j"
    using assms(1) \<open>0 \<le> r\<close> by (intro mult_mono) simp_all
  finally show ?thesis by simp
qed

lemma ieee_round_big:
  assumes n: "2 ^ p \<le> n" and p: "0 < p" "int p \<le> smax"
  shows "ieee_round p smax emax (of_int n) = PosInf \<or>
    (\<exists>r. ieee_round p smax emax (of_int n) = Fin r \<and> 2 ^ p \<le> r)"
proof -
  obtain j where j: "scale_for p smax (of_int n) = - int (Suc j)" and jn: "2 ^ (p + j) \<le> n"
    using scale_for_big [OF assms] by blast
  have pos: "0 < n"
    using n by (meson less_le_trans zero_less_numeral zero_less_power)
  have s2: "scale2 (- int (Suc j)) = 1 / 2 ^ Suc j" by (rule scale2_neg)
  have "(2::rat) ^ (p + j) \<le> of_int n"
    using jn by (metis of_int_le_iff of_int_numeral of_int_power)
  then have "of_int (2 ^ (p - 1)) \<le> of_int n * scale2 (- int (Suc j))"
    unfolding s2 using p(1) by (cases p) (simp_all add: field_simps power_add)
  then have "2 ^ (p - 1) \<le> round_half_even (of_int n * scale2 (- int (Suc j)))"
    by (rule round_half_even_ge)
  then have "(2::rat) ^ (p - 1) \<le> of_int (round_half_even (of_int n * scale2 (- int (Suc j))))"
    by (metis of_int_le_iff of_int_numeral of_int_power)
  then have "2 ^ p \<le> of_int (round_half_even (of_int n * scale2 (- int (Suc j)))) / scale2 (- int (Suc j))"
    unfolding s2 using p(1) by (intro pow_le_scaled)
  then show ?thesis
    using pos by (auto simp: ieee_round_def Let_def j)
qed

lemma f64_of_int_big:
  "2 ^ 53 \<le> n \<Longrightarrow> f64_of_int n = PosInf \<or> (\<exists>r. f64_of_int n = Fin r \<and> 2 ^ 53 \<le> r)"
  using ieee_round_big [of 53 n 1074 1024] by (simp add: f64_of_int_def f64_round_def)

lemma fp_neg_ieee_round: "ieee_round p smax emax (- q) = fp_neg (ieee_round p smax emax q)"
  by (auto simp: ieee_round_def Let_def)

lemma f64_of_int_neg: "f64_of_int (- n) = fp_neg (f64_of_int n)"
  using fp_neg_ieee_round [of 53 1074 1024 "of_int n"] by (simp add: f64_of_int_def f64_round_def)

lemma f64_of_int_small:
  assumes "n \<le> - (2 ^ 53)"
  shows "f64_of_int n = NegInf \<or> (\<exists>r. f64_of_int n = Fin r \<and> r \<le> - (2 ^ 53))"
  using f64_of_int_big [of "- n"] f64_of_int_neg [of "- n"] assms by auto

text \<open>Comparing an integer with a bound that is exact gives the integer comparison.\<close>

lemma f64_lt_bound:
  assumes "\<bar>b\<bar> < 2 ^ 53"
  shows "fp_lt (f64_of_int n) (f64_of_int b) \<longleftrightarrow> n < b"
    and "fp_lt (f64_of_int b) (f64_of_int n) \<longleftrightarrow> b < n"
proof -
  have b: "f64_of_int b = Fin (of_int b)" using assms by (rule f64_of_int_exact)
  have b': "(of_int b :: rat) < 2 ^ 53" "- (2 ^ 53) < (of_int b :: rat)"
    using assms by (auto simp: abs_less_iff)
  consider "\<bar>n\<bar> < 2 ^ 53" | "2 ^ 53 \<le> n" | "n \<le> - (2 ^ 53)" by linarith
  then have "(fp_lt (f64_of_int n) (f64_of_int b) \<longleftrightarrow> n < b) \<and>
      (fp_lt (f64_of_int b) (f64_of_int n) \<longleftrightarrow> b < n)"
  proof cases
    case 1
    then show ?thesis by (simp add: b f64_of_int_exact)
  next
    case 2
    then show ?thesis using f64_of_int_big [of n] assms b b' by auto
  next
    case 3
    then show ?thesis using f64_of_int_small [of n] assms b b' by auto
  qed
  then show "fp_lt (f64_of_int n) (f64_of_int b) \<longleftrightarrow> n < b"
    and "fp_lt (f64_of_int b) (f64_of_int n) \<longleftrightarrow> b < n" by simp_all
qed

end
