(* ===== verification/Json.thy ===== *)
theory Json
  imports Btree Floats "HOL-Library.Word"
begin

text \<open>
  \<open>serde_json::Value\<close>.  A number is one of the three internal forms of
  \<open>serde_json::Number\<close> (never equal across forms); an object is a \<open>BTreeMap\<close>, since
  the crate is built without \<open>preserve_order\<close>.  A \<open>Float\<close> is always finite.
\<close>

type_synonym u64 = "64 word"
type_synonym i64 = "64 word"
type_synonym u32 = "32 word"

datatype number = PosInt u64 | NegInt i64 | Float rat

datatype json =
    JNull
  | JBool bool
  | JNumber number
  | JString string
  | JArray "json list"
  | JObject "(string \<times> json) list"

type_synonym json_map = "(string, json) btree_map"

fun as_object :: "json \<Rightarrow> json_map option" where
  "as_object (JObject m) = Some m"
| "as_object _ = None"

fun as_str :: "json \<Rightarrow> string option" where
  "as_str (JString s) = Some s"
| "as_str _ = None"

fun as_array :: "json \<Rightarrow> json list option" where
  "as_array (JArray vs) = Some vs"
| "as_array _ = None"

fun as_u64 :: "json \<Rightarrow> u64 option" where
  "as_u64 (JNumber (PosInt n)) = Some n"
| "as_u64 _ = None"

fun number_as_i64 :: "number \<Rightarrow> i64 option" where
  "number_as_i64 (PosInt n) = (if n \<le> 9223372036854775807 then Some n else None)"
| "number_as_i64 (NegInt n) = Some n"
| "number_as_i64 (Float _) = None"

fun as_i64 :: "json \<Rightarrow> i64 option" where
  "as_i64 (JNumber n) = number_as_i64 n"
| "as_i64 _ = None"

fun number_as_f64 :: "number \<Rightarrow> f64" where
  "number_as_f64 (PosInt n) = f64_of_int (uint n)"
| "number_as_f64 (NegInt n) = f64_of_int (sint n)"
| "number_as_f64 (Float q) = Fin q"

fun as_f64 :: "json \<Rightarrow> f64 option" where
  "as_f64 (JNumber n) = Some (number_as_f64 n)"
| "as_f64 _ = None"

definition is_string :: "json \<Rightarrow> bool" where
  "is_string v = (case v of JString _ \<Rightarrow> True | _ \<Rightarrow> False)"

definition is_boolean :: "json \<Rightarrow> bool" where
  "is_boolean v = (case v of JBool _ \<Rightarrow> True | _ \<Rightarrow> False)"

definition is_null :: "json \<Rightarrow> bool" where
  "is_null v = (case v of JNull \<Rightarrow> True | _ \<Rightarrow> False)"

definition is_object :: "json \<Rightarrow> bool" where
  "is_object v = (case v of JObject _ \<Rightarrow> True | _ \<Rightarrow> False)"

text \<open>\<open>Value::get\<close> with a string key: \<open>None\<close> on anything but an object.\<close>

definition json_get :: "json \<Rightarrow> string \<Rightarrow> json option" where
  "json_get v k = (case v of JObject m \<Rightarrow> bt_get m k | _ \<Rightarrow> None)"

text \<open>Numbers from an \<open>i64\<close> literal: non-negative values are \<open>PosInt\<close>.\<close>

definition json_of_i64 :: "int \<Rightarrow> json" where
  "json_of_i64 n = JNumber (if 0 \<le> n then PosInt (word_of_int n) else NegInt (word_of_int n))"

text \<open>Objects written with \<open>json!\<close>: the entries, sorted by key.\<close>

definition json_object :: "(string \<times> json) list \<Rightarrow> json" where
  "json_object kvs = JObject (bt_from_list kvs)"

text \<open>Well formed: every object in the value is a sorted map.\<close>

fun json_wf :: "json \<Rightarrow> bool" where
  "json_wf (JArray vs) = (\<forall>v\<in>set vs. json_wf v)"
| "json_wf (JObject m) = (bt_wf m \<and> (\<forall>kv\<in>set m. json_wf (snd kv)))"
| "json_wf _ = True"

lemma is_object_iff: "is_object v \<longleftrightarrow> (\<exists>m. v = JObject m)"
  by (cases v) (auto simp: is_object_def)

lemma as_object_Some: "as_object v = Some m \<longleftrightarrow> v = JObject m"
  by (cases v) auto

lemma as_object_None: "as_object v = None \<longleftrightarrow> \<not> is_object v"
  by (cases v) (auto simp: is_object_def)

lemma as_str_Some: "as_str v = Some s \<longleftrightarrow> v = JString s"
  by (cases v) auto

end
