(* ===== verification/Strings.thy ===== *)
theory Strings
  imports Prelude
begin

text \<open>
  The string operations of Rust's standard library that the code calls, on UTF-8 byte
  strings.  \<open>chars()\<close> is read bytewise: for the ASCII characters this is the Rust
  iteration exactly; a byte of a multi-byte character is never white space, never
  upper case and is kept as it is (Rust would also fold the case of non-ASCII letters
  and treat non-ASCII spaces as white space).
\<close>

definition byte :: "char \<Rightarrow> nat" where
  "byte c = of_char c"

text \<open>\<open>char::is_whitespace\<close> on ASCII: tab, line feed, vertical tab, form feed,
  carriage return, space.\<close>

definition is_whitespace :: "char \<Rightarrow> bool" where
  "is_whitespace c \<longleftrightarrow> (9 \<le> byte c \<and> byte c \<le> 13) \<or> byte c = 32"

definition is_ascii_lowercase :: "char \<Rightarrow> bool" where
  "is_ascii_lowercase c \<longleftrightarrow> 97 \<le> byte c \<and> byte c \<le> 122"

definition is_ascii_uppercase :: "char \<Rightarrow> bool" where
  "is_ascii_uppercase c \<longleftrightarrow> 65 \<le> byte c \<and> byte c \<le> 90"

definition is_ascii_digit :: "char \<Rightarrow> bool" where
  "is_ascii_digit c \<longleftrightarrow> 48 \<le> byte c \<and> byte c \<le> 57"

definition to_lowercase :: "char \<Rightarrow> char" where
  "to_lowercase c = (if is_ascii_uppercase c then char_of (byte c + 32) else c)"

definition trim_end :: "string \<Rightarrow> string" where
  "trim_end s = rev (dropWhile is_whitespace (rev s))"

definition trim :: "string \<Rightarrow> string" where
  "trim s = trim_end (dropWhile is_whitespace s)"

text \<open>\<open>str::starts_with\<close> and \<open>str::contains\<close>.\<close>

definition starts_with :: "string \<Rightarrow> string \<Rightarrow> bool" where
  "starts_with s p \<longleftrightarrow> take (length p) s = p"

fun contains :: "string \<Rightarrow> string \<Rightarrow> bool" where
  "contains [] p = (p = [])"
| "contains (c # s) p = (starts_with (c # s) p \<or> contains s p)"

text \<open>\<open>split_once\<close> on a character: the parts before and after its first occurrence.\<close>

fun split_once :: "char \<Rightarrow> string \<Rightarrow> (string \<times> string) option" where
  "split_once c [] = None"
| "split_once c (x # xs) =
     (if x = c then Some ([], xs)
      else map_option (\<lambda>(a, b). (x # a, b)) (split_once c xs))"

text \<open>Characters of UTF-8: \<open>chars().take(n)\<close> and \<open>chars().count()\<close>, exact on valid
  strings; \<open>to_ascii_lowercase\<close>; \<open>trim_matches\<close> with a predicate that holds of all bytes of
  a longer character.\<close>

definition continuation_byte :: "char \<Rightarrow> bool" where
  "continuation_byte c \<longleftrightarrow> 128 \<le> byte c \<and> byte c < 192"

fun take_chars :: "nat \<Rightarrow> string \<Rightarrow> string" where
  "take_chars 0 s = []"
| "take_chars (Suc n) [] = []"
| "take_chars (Suc n) (c # s) =
     c # takeWhile continuation_byte s @ take_chars n (dropWhile continuation_byte s)"

definition char_count :: "string \<Rightarrow> nat" where
  "char_count s = length (filter (\<lambda>c. \<not> continuation_byte c) s)"

definition to_ascii_lowercase :: "string \<Rightarrow> string" where
  "to_ascii_lowercase s = map to_lowercase s"

definition trim_matches :: "(char \<Rightarrow> bool) \<Rightarrow> string \<Rightarrow> string" where
  "trim_matches P s = rev (dropWhile P (rev (dropWhile P s)))"

text \<open>\<open>split_whitespace\<close> with the white space of Unicode: the length in bytes of the space a string
  begins with, 0 if it begins with something else, and the parts between spaces.\<close>

definition leading_space :: "string \<Rightarrow> nat" where
  "leading_space s = (case map byte (take 3 s) of
     [] \<Rightarrow> 0
   | [a] \<Rightarrow> if (9 \<le> a \<and> a \<le> 13) \<or> a = 0x20 then 1 else 0
   | a # b # r \<Rightarrow>
       if (9 \<le> a \<and> a \<le> 13) \<or> a = 0x20 then 1
       else if a = 0xC2 \<and> (b = 0x85 \<or> b = 0xA0) then 2
       else (case r of [] \<Rightarrow> 0
         | d # _ \<Rightarrow>
             if (a = 0xE1 \<and> b = 0x9A \<and> d = 0x80) \<or>
                (a = 0xE2 \<and> b = 0x80 \<and> ((0x80 \<le> d \<and> d \<le> 0x8A) \<or> d = 0xA8 \<or> d = 0xA9 \<or> d = 0xAF)) \<or>
                (a = 0xE2 \<and> b = 0x81 \<and> d = 0x9F) \<or> (a = 0xE3 \<and> b = 0x80 \<and> d = 0x80)
             then 3 else 0))"

fun split_spaces :: "string \<Rightarrow> string \<Rightarrow> string list" where
  "split_spaces acc [] = (if acc = [] then [] else [rev acc])"
| "split_spaces acc (c # s) =
     (if leading_space (c # s) = 0 then split_spaces (c # acc) s
      else (if acc = [] then [] else [rev acc]) @ split_spaces [] (drop (leading_space (c # s) - 1) s))"

definition split_whitespace :: "string \<Rightarrow> string list" where
  "split_whitespace s = split_spaces [] s"

text \<open>\<open>[String]::join\<close>.\<close>

fun join :: "string \<Rightarrow> string list \<Rightarrow> string" where
  "join sep [] = []"
| "join sep [s] = s"
| "join sep (s # t # ss) = s @ sep @ join sep (t # ss)"

text \<open>\<open>{}\<close> on an unsigned integer.\<close>

definition digit_char :: "nat \<Rightarrow> char" where
  "digit_char d = char_of (48 + d)"

fun show_nat :: "nat \<Rightarrow> string" where
  "show_nat n = (if n < 10 then [digit_char n] else show_nat (n div 10) @ [digit_char (n mod 10)])"

declare show_nat.simps [simp del]

text \<open>\<open>{:?}\<close> on a string and on slices of strings.\<close>

definition hex_digit :: "nat \<Rightarrow> char" where
  "hex_digit d = (if d < 10 then char_of (48 + d) else char_of (87 + d))"

definition escape_debug :: "char \<Rightarrow> string" where
  "escape_debug c =
     (let n = byte c in
      if n = 0 then [CHR 0x5C, CHR ''0'']
      else if n = 9 then [CHR 0x5C, CHR ''t'']
      else if n = 10 then [CHR 0x5C, CHR ''n'']
      else if n = 13 then [CHR 0x5C, CHR ''r'']
      else if n = 34 then [CHR 0x5C, CHR 0x22]
      else if n = 92 then [CHR 0x5C, CHR 0x5C]
      else if n < 16 then [CHR 0x5C, CHR ''u'', CHR ''{'', hex_digit n, CHR ''}'']
      else if n < 32 \<or> n = 127
        then [CHR 0x5C, CHR ''u'', CHR ''{'', hex_digit (n div 16), hex_digit (n mod 16), CHR ''}'']
      else [c])"

definition debug_str :: "string \<Rightarrow> string" where
  "debug_str s = CHR 0x22 # concat (map escape_debug s) @ [CHR 0x22]"

definition debug_list :: "string list \<Rightarrow> string" where
  "debug_list ss = ''['' @ join '', '' (map debug_str ss) @ '']''"

text \<open>A name in back quotes, the shape most messages use.\<close>

definition bq :: "string \<Rightarrow> string" where
  "bq s = CHR 0x60 # s @ [CHR 0x60]"

lemma to_lowercase_idem [simp]: "to_lowercase (to_lowercase c) = to_lowercase c"
proof (cases "is_ascii_uppercase c")
  case True
  then have "65 \<le> byte c" "byte c \<le> 90" by (simp_all add: is_ascii_uppercase_def)
  then have "byte (char_of (byte c + 32)) = byte c + 32"
    by (simp add: byte_def)
  with True show ?thesis
    by (simp add: to_lowercase_def is_ascii_uppercase_def)
qed (simp add: to_lowercase_def)

lemma is_whitespace_lower [simp]: "is_whitespace (to_lowercase c) = is_whitespace c"
proof (cases "is_ascii_uppercase c")
  case True
  then have "65 \<le> byte c" "byte c \<le> 90" by (simp_all add: is_ascii_uppercase_def)
  then have "byte (char_of (byte c + 32)) = byte c + 32"
    by (simp add: byte_def)
  with True show ?thesis
    by (simp add: to_lowercase_def is_ascii_uppercase_def is_whitespace_def)
qed (simp add: to_lowercase_def)

lemma split_once_Some:
  "split_once c s = Some (a, b) \<Longrightarrow> s = a @ c # b \<and> c \<notin> set a"
  by (induction s arbitrary: a b) (auto split: if_splits)

lemma split_once_None: "split_once c s = None \<longleftrightarrow> c \<notin> set s"
  by (induction s) auto

lemma char_count_take_chars: "char_count (take_chars n s) \<le> n"
proof (induction n s rule: take_chars.induct)
  case (3 n c s)
  have "filter (\<lambda>c. \<not> continuation_byte c) (takeWhile continuation_byte s) = []"
    by (induction s) auto
  with 3 show ?case by (auto simp: char_count_def)
qed (simp_all add: char_count_def)

lemma take_chars_prefix: "\<exists>t. s = take_chars n s @ t"
proof (induction n s rule: take_chars.induct)
  case (3 n c s)
  then obtain t where "dropWhile continuation_byte s = take_chars n (dropWhile continuation_byte s) @ t" by blast
  then have "s = takeWhile continuation_byte s @ take_chars n (dropWhile continuation_byte s) @ t"
    by (metis takeWhile_dropWhile_id)
  then show ?case by auto
qed simp_all

end
