(* ===== verification/Registry.thy ===== *)
theory Registry
  imports Json Strings
begin

text \<open>
  The node registry (crates/registry/src/types.rs, error.rs, lib.rs): ports, parameter
  schemas and their validation, node definitions, and the registry as a map from node
  type to definition.  Record fields carry the prefix of their struct (\<open>pd_\<close> port
  definition, \<open>ps_\<close> parameter spec, \<open>sc_\<close> parameter schema, \<open>nd_\<close> node definition).
\<close>

section \<open>Types\<close>

datatype port_type = Text | Image | Video | Audio | Mask | Json

datatype port_cardinality = One | Many

definition allows_fan_in :: "port_cardinality \<Rightarrow> bool" where
  "allows_fan_in c = (case c of One \<Rightarrow> False | Many \<Rightarrow> True)"

record port_definition =
  pd_name :: string
  pd_type :: port_type
  pd_required :: bool
  pd_cardinality :: port_cardinality

datatype param_value_type = PString | PInteger | PNumber | PBoolean

fun value_type_label :: "param_value_type \<Rightarrow> string" where
  "value_type_label PString = ''string''"
| "value_type_label PInteger = ''integer''"
| "value_type_label PNumber = ''number''"
| "value_type_label PBoolean = ''boolean''"

record param_spec =
  ps_value_type :: param_value_type
  ps_enum_values :: "json list"
  ps_minimum :: "f64 option"
  ps_maximum :: "f64 option"

record params_schema =
  sc_required :: "string list"
  sc_properties :: "(string, param_spec) btree_map"
  sc_allow_unknown :: bool

record estimated_cost_ref =
  ec_unit :: string
  ec_catalog_key :: string

record node_definition =
  nd_node_type :: string
  nd_title :: string
  nd_category :: string
  nd_provider :: "string option"
  nd_capability :: "string option"
  nd_description :: string
  nd_inputs :: "port_definition list"
  nd_outputs :: "port_definition list"
  nd_params_schema :: params_schema
  nd_estimated_cost :: "estimated_cost_ref option"

section \<open>Errors\<close>

datatype registry_error =
    RE_DuplicateNodeType string
  | RE_UnknownNodeType string
  | RE_ParamsNotObject string
  | RE_MissingRequiredParam string string
  | RE_UnknownParam string string
  | RE_InvalidParamType string string string
  | RE_ParamOutOfRange string string
  | RE_ParamNotInEnum string string

fun registry_error_display :: "registry_error \<Rightarrow> string" where
  "registry_error_display (RE_DuplicateNodeType t) = ''duplicate node type: '' @ t"
| "registry_error_display (RE_UnknownNodeType t) = ''unknown node type: '' @ t"
| "registry_error_display (RE_ParamsNotObject t) = ''node params must be an object: '' @ t"
| "registry_error_display (RE_MissingRequiredParam t p) =
     ''missing required param '' @ bq p @ '' for node type '' @ bq t"
| "registry_error_display (RE_UnknownParam t p) =
     ''unknown param '' @ bq p @ '' for node type '' @ bq t"
| "registry_error_display (RE_InvalidParamType t p e) =
     ''invalid param '' @ bq p @ '' for node type '' @ bq t @ ''; expected '' @ e"
| "registry_error_display (RE_ParamOutOfRange t p) =
     ''param '' @ bq p @ '' is out of range for node type '' @ bq t"
| "registry_error_display (RE_ParamNotInEnum t p) =
     ''param '' @ bq p @ '' is not allowed for node type '' @ bq t"

section \<open>Parameter specs\<close>

definition param_new :: "param_value_type \<Rightarrow> param_spec" where
  "param_new t = \<lparr>ps_value_type = t, ps_enum_values = [], ps_minimum = None, ps_maximum = None\<rparr>"

definition param_string :: param_spec where
  "param_string = param_new PString"

definition param_integer :: param_spec where
  "param_integer = param_new PInteger"

definition param_boolean :: param_spec where
  "param_boolean = param_new PBoolean"

definition integer_range :: "int \<Rightarrow> int \<Rightarrow> param_spec" where
  "integer_range lo hi =
     param_integer\<lparr>ps_minimum := Some (f64_of_int lo), ps_maximum := Some (f64_of_int hi)\<rparr>"

definition string_enum :: "string list \<Rightarrow> param_spec" where
  "string_enum vs = param_string\<lparr>ps_enum_values := map JString vs\<rparr>"

definition has_value_type :: "param_value_type \<Rightarrow> json \<Rightarrow> bool" where
  "has_value_type t v =
     (case t of PString \<Rightarrow> is_string v
      | PInteger \<Rightarrow> as_i64 v \<noteq> None
      | PNumber \<Rightarrow> as_f64 v \<noteq> None
      | PBoolean \<Rightarrow> is_boolean v)"

definition out_of_range :: "param_spec \<Rightarrow> f64 \<Rightarrow> bool" where
  "out_of_range spec x \<longleftrightarrow>
     (case ps_minimum spec of None \<Rightarrow> False | Some lo \<Rightarrow> fp_lt x lo) \<or>
     (case ps_maximum spec of None \<Rightarrow> False | Some hi \<Rightarrow> fp_lt hi x)"

definition param_validate :: "param_spec \<Rightarrow> string \<Rightarrow> string \<Rightarrow> json \<Rightarrow> registry_error + unit" where
  "param_validate spec node_type param v =
     (if \<not> has_value_type (ps_value_type spec) v
        then Inl (RE_InvalidParamType node_type param (value_type_label (ps_value_type spec)))
      else if ps_enum_values spec \<noteq> [] \<and> v \<notin> set (ps_enum_values spec)
        then Inl (RE_ParamNotInEnum node_type param)
      else case as_f64 v of
          None \<Rightarrow> Inr ()
        | Some x \<Rightarrow> if out_of_range spec x then Inl (RE_ParamOutOfRange node_type param) else Inr ())"

section \<open>Parameter schemas\<close>

definition check_required :: "params_schema \<Rightarrow> string \<Rightarrow> json_map \<Rightarrow> string btree_set \<Rightarrow> registry_error + unit" where
  "check_required sc context m wired =
     check_all (\<lambda>r. if \<not> bt_contains m r \<and> r \<notin> set wired
                    then Inl (RE_MissingRequiredParam context r) else Inr ()) (sc_required sc)"

definition check_properties :: "params_schema \<Rightarrow> string \<Rightarrow> json_map \<Rightarrow> registry_error + unit" where
  "check_properties sc context m =
     check_all (\<lambda>(param, v).
       case bt_get (sc_properties sc) param of
         None \<Rightarrow> if sc_allow_unknown sc then Inr () else Inl (RE_UnknownParam context param)
       | Some spec \<Rightarrow> param_validate spec context param v) m"

definition validate_value_with_wired ::
  "params_schema \<Rightarrow> string \<Rightarrow> json \<Rightarrow> string btree_set \<Rightarrow> registry_error + unit" where
  "validate_value_with_wired sc context params wired =
     (case as_object params of
        None \<Rightarrow> Inl (RE_ParamsNotObject context)
      | Some m \<Rightarrow>
          res_bind (check_required sc context m wired) (\<lambda>_. check_properties sc context m))"

definition validate_value :: "params_schema \<Rightarrow> string \<Rightarrow> json \<Rightarrow> registry_error + unit" where
  "validate_value sc context params = validate_value_with_wired sc context params []"

definition validate_params :: "node_definition \<Rightarrow> json \<Rightarrow> registry_error + unit" where
  "validate_params d params = validate_value (nd_params_schema d) (nd_node_type d) params"

section \<open>The registry\<close>

record node_registry =
  reg_definitions :: "(string, node_definition) btree_map"

definition registry_insert ::
  "node_definition \<Rightarrow> (string, node_definition) btree_map
   \<Rightarrow> registry_error + (string, node_definition) btree_map" where
  "registry_insert d by_type =
     (if bt_contains by_type (nd_node_type d) then Inl (RE_DuplicateNodeType (nd_node_type d))
      else Inr (bt_insert (nd_node_type d) d by_type))"

definition from_definitions :: "node_definition list \<Rightarrow> registry_error + node_registry" where
  "from_definitions ds =
     res_bind (fold_res registry_insert ds []) (\<lambda>m. Inr \<lparr>reg_definitions = m\<rparr>)"

definition registry_definition :: "node_registry \<Rightarrow> string \<Rightarrow> registry_error + node_definition" where
  "registry_definition reg node_type =
     ok_or (bt_get (reg_definitions reg) node_type) (RE_UnknownNodeType node_type)"

definition registry_definitions :: "node_registry \<Rightarrow> node_definition list" where
  "registry_definitions reg = bt_values (reg_definitions reg)"

record registry_catalog =
  rc_schema_version :: u32
  rc_nodes :: "node_definition list"

definition export_catalog :: "node_registry \<Rightarrow> registry_catalog" where
  "export_catalog reg = \<lparr>rc_schema_version = 1, rc_nodes = registry_definitions reg\<rparr>"

definition validate_node_params :: "node_registry \<Rightarrow> string \<Rightarrow> json \<Rightarrow> registry_error + unit" where
  "validate_node_params reg node_type params =
     res_bind (registry_definition reg node_type) (\<lambda>d. validate_params d params)"

section \<open>What validation accepts\<close>

text \<open>The declarative meaning of a parameter spec and of a schema.\<close>

definition spec_admits :: "param_spec \<Rightarrow> json \<Rightarrow> bool" where
  "spec_admits spec v \<longleftrightarrow>
     has_value_type (ps_value_type spec) v \<and>
     (ps_enum_values spec = [] \<or> v \<in> set (ps_enum_values spec)) \<and>
     (\<forall>x. as_f64 v = Some x \<longrightarrow> \<not> out_of_range spec x)"

definition params_conform :: "params_schema \<Rightarrow> json_map \<Rightarrow> string set \<Rightarrow> bool" where
  "params_conform sc m wired \<longleftrightarrow>
     set (sc_required sc) \<subseteq> dom (bt_get m) \<union> wired \<and>
     (\<forall>(k, v) \<in> set m. case bt_get (sc_properties sc) k of
         None \<Rightarrow> sc_allow_unknown sc
       | Some spec \<Rightarrow> spec_admits spec v)"

lemma param_validate_ok [result_simps]:
  "param_validate spec t p v = Inr u \<longleftrightarrow> spec_admits spec v"
  by (auto simp: param_validate_def spec_admits_def split: option.splits)

lemma check_required_ok [result_simps]:
  "check_required sc c m wired = Inr u \<longleftrightarrow>
     set (sc_required sc) \<subseteq> dom (bt_get m) \<union> set wired"
  by (force simp: check_required_def result_simps btree_simps)

lemma check_properties_ok [result_simps]:
  "check_properties sc c m = Inr u \<longleftrightarrow>
     (\<forall>(k, v) \<in> set m. case bt_get (sc_properties sc) k of
         None \<Rightarrow> sc_allow_unknown sc
       | Some spec \<Rightarrow> spec_admits spec v)"
  by (auto simp: check_properties_def result_simps split: option.splits prod.splits if_splits)

lemma validate_with_wired_ok [result_simps]:
  "validate_value_with_wired sc c v wired = Inr u \<longleftrightarrow>
     (\<exists>m. v = JObject m \<and> params_conform sc m (set wired))"
  by (auto simp: validate_value_with_wired_def params_conform_def result_simps as_object_Some
      split: option.splits)

lemma validate_value_ok [result_simps]:
  "validate_value sc c v = Inr u \<longleftrightarrow> (\<exists>m. v = JObject m \<and> params_conform sc m {})"
  by (simp add: validate_value_def result_simps)

lemma params_conform_mono:
  "params_conform sc m W \<Longrightarrow> W \<subseteq> W' \<Longrightarrow> params_conform sc m W'"
  by (auto simp: params_conform_def)

subsection \<open>Integer ranges\<close>

lemma as_i64_f64: "as_i64 v = Some n \<Longrightarrow> as_f64 v = Some (f64_of_int (sint n))"
proof (induction v rule: as_i64.induct)
  case (1 k)
  show ?case
  proof (cases k)
    case (PosInt w)
    with 1 have w: "w \<le> 9223372036854775807" "n = w" by (auto split: if_splits)
    then have "uint w < 2 ^ 63" by (simp add: word_le_def)
    moreover have "- (2 ^ 63) \<le> uint w"
      using uint_ge_0 [of w] by (rule order_trans [rotated]) simp
    ultimately have "sint w = uint w"
      using signed_take_bit_int_eq_self [of 63 "uint w"] by (simp add: sint_uint)
    with PosInt w show ?thesis by simp
  qed (use 1 in auto)
qed auto

lemma integer_range_admits:
  assumes "\<bar>lo\<bar> < 2 ^ 53" "\<bar>hi\<bar> < 2 ^ 53"
  shows "spec_admits (integer_range lo hi) v \<longleftrightarrow>
    (\<exists>n. as_i64 v = Some n \<and> lo \<le> sint n \<and> sint n \<le> hi)"
proof (cases "as_i64 v")
  case None
  then show ?thesis
    by (simp add: spec_admits_def integer_range_def param_integer_def param_new_def has_value_type_def)
next
  case (Some n)
  then show ?thesis
    using f64_lt_bound [OF assms(1)] f64_lt_bound [OF assms(2)]
    by (auto simp: spec_admits_def integer_range_def param_integer_def param_new_def
        has_value_type_def as_i64_f64 out_of_range_def not_less)
qed

lemma string_enum_admits:
  "vs \<noteq> [] \<Longrightarrow> spec_admits (string_enum vs) v \<longleftrightarrow> (\<exists>s\<in>set vs. v = JString s)"
  by (auto simp: spec_admits_def string_enum_def param_string_def param_new_def
      has_value_type_def is_string_def out_of_range_def split: json.splits)

section \<open>The registry map\<close>

lemma registry_insert_ok [result_simps]:
  "registry_insert d m = Inr m' \<longleftrightarrow>
     nd_node_type d \<notin> dom (bt_get m) \<and> m' = bt_insert (nd_node_type d) d m"
  by (auto simp: registry_insert_def btree_simps)

lemma fold_registry_insert_ok:
  "fold_res registry_insert ds m = Inr m' \<Longrightarrow> bt_wf m \<Longrightarrow>
     distinct (map nd_node_type ds) \<and> set (map nd_node_type ds) \<inter> dom (bt_get m) = {} \<and>
     bt_wf m' \<and> bt_get m' = bt_get m ++ map_of (map (\<lambda>d. (nd_node_type d, d)) ds)"
proof (induction ds arbitrary: m)
  case Nil
  then show ?case by simp
next
  case (Cons d ds)
  then obtain m1 where m1: "registry_insert d m = Inr m1" "fold_res registry_insert ds m1 = Inr m'"
    by (auto split: sum.splits)
  then have d: "nd_node_type d \<notin> dom (bt_get m)" "m1 = bt_insert (nd_node_type d) d m"
    by (simp_all add: result_simps)
  have IH: "distinct (map nd_node_type ds)" "set (map nd_node_type ds) \<inter> dom (bt_get m1) = {}"
    "bt_wf m'" "bt_get m' = bt_get m1 ++ map_of (map (\<lambda>d. (nd_node_type d, d)) ds)"
    using Cons.IH [OF m1(2)] Cons.prems(2) unfolding d(2) by (simp_all only: bt_wf_insert)
  have new: "nd_node_type d \<notin> set (map nd_node_type ds)"
    using IH(2) d(2) by auto
  then have none: "map_of (map (\<lambda>d. (nd_node_type d, d)) ds) (nd_node_type d) = None"
    by (auto simp: map_of_eq_None_iff)
  have "bt_get m' t = (bt_get m ++ map_of (map (\<lambda>d. (nd_node_type d, d)) (d # ds))) t" for t
    using none by (simp add: IH(4) d(2) map_add_def split: option.splits)
  then have "bt_get m' = bt_get m ++ map_of (map (\<lambda>d. (nd_node_type d, d)) (d # ds))"
    by (rule ext)
  moreover have "set (map nd_node_type (d # ds)) \<inter> dom (bt_get m) = {}"
    using IH(2) d by auto
  moreover have "distinct (map nd_node_type (d # ds))"
    using IH(1) new by simp
  ultimately show ?case
    using IH(3) by blast
qed

lemma fold_registry_insert_distinct:
  "distinct (map nd_node_type ds) \<Longrightarrow> set (map nd_node_type ds) \<inter> dom (bt_get m) = {} \<Longrightarrow>
     \<exists>m'. fold_res registry_insert ds m = Inr m'"
  by (induction ds arbitrary: m) (auto simp: registry_insert_def btree_simps)

lemma registry_definition_ok [result_simps]:
  "registry_definition reg t = Inr d \<longleftrightarrow> bt_get (reg_definitions reg) t = Some d"
  by (simp add: registry_definition_def result_simps)

lemma from_definitions_lookup:
  assumes "from_definitions ds = Inr reg"
  shows "distinct (map nd_node_type ds)"
    and "bt_wf (reg_definitions reg)"
    and "registry_definition reg t = Inr d \<longleftrightarrow> d \<in> set ds \<and> nd_node_type d = t"
proof -
  from assms obtain m where m: "fold_res registry_insert ds [] = Inr m" "reg_definitions reg = m"
    by (auto simp: from_definitions_def result_simps)
  from fold_registry_insert_ok [OF m(1)] m(2)
  have ds: "distinct (map nd_node_type ds)" "bt_wf (reg_definitions reg)"
    "bt_get (reg_definitions reg) = map_of (map (\<lambda>d. (nd_node_type d, d)) ds)" by auto
  then show "distinct (map nd_node_type ds)" "bt_wf (reg_definitions reg)" by auto
  have "distinct (map fst (map (\<lambda>d. (nd_node_type d, d)) ds))"
    using ds(1) by (simp add: comp_def)
  then show "registry_definition reg t = Inr d \<longleftrightarrow> d \<in> set ds \<and> nd_node_type d = t"
    using ds(3) by (auto simp: result_simps)
qed

text \<open>
  A registry whose entries carry their own key; \<open>from_definitions\<close> builds only such.
\<close>

definition registry_wf :: "node_registry \<Rightarrow> bool" where
  "registry_wf reg \<longleftrightarrow> bt_wf (reg_definitions reg) \<and>
     (\<forall>t d. bt_get (reg_definitions reg) t = Some d \<longrightarrow> nd_node_type d = t)"

lemma from_definitions_wf: "from_definitions ds = Inr reg \<Longrightarrow> registry_wf reg"
  using from_definitions_lookup [of ds reg]
  by (auto simp: registry_wf_def result_simps)

section \<open>Properties\<close>

text \<open>parameters validate exactly when they are an object, every required parameter is present (or
  its input is wired), and every entry is declared and admitted by its spec, or undeclared where the
  schema allows unknown entries.  An admitted value has the declared type, lies in the enumeration
  if there is one, and in the range if it is a number.\<close>

theorem params_validation_exact:
  "validate_value_with_wired sc context v wired = Inr () \<longleftrightarrow>
     (\<exists>m. v = JObject m \<and> set (sc_required sc) \<subseteq> dom (bt_get m) \<union> set wired \<and>
        (\<forall>(k, x)\<in>set m. case bt_get (sc_properties sc) k of
            None \<Rightarrow> sc_allow_unknown sc
          | Some spec \<Rightarrow> has_value_type (ps_value_type spec) x \<and>
              (ps_enum_values spec = [] \<or> x \<in> set (ps_enum_values spec)) \<and>
              (case as_f64 x of None \<Rightarrow> True | Some q \<Rightarrow> \<not> out_of_range spec q)))"
proof -
  have admits: "spec_admits spec x \<longleftrightarrow> has_value_type (ps_value_type spec) x \<and>
      (ps_enum_values spec = [] \<or> x \<in> set (ps_enum_values spec)) \<and>
      (case as_f64 x of None \<Rightarrow> True | Some q \<Rightarrow> \<not> out_of_range spec q)" for spec x
    by (simp add: spec_admits_def split: option.split)
  show ?thesis unfolding validate_with_wired_ok params_conform_def admits ..
qed

lemma params_validation_exact_witness:
  "validate_value_with_wired \<lparr>sc_required = [''n''], sc_properties = [(''n'', integer_range 1 10)],
       sc_allow_unknown = False\<rparr> ''t'' (JObject [(''n'', json_of_i64 3)]) [] = Inr () \<and>
   validate_value_with_wired \<lparr>sc_required = [''n''], sc_properties = [], sc_allow_unknown = True\<rparr>
       ''t'' (JObject []) [] \<noteq> Inr ()"
proof -
  have "spec_admits (integer_range 1 10) (json_of_i64 3)"
    by (simp add: integer_range_admits json_of_i64_def)
  then show ?thesis
    unfolding params_validation_exact spec_admits_def by (simp split: option.split)
qed

text \<open>an \<open>integer_range\<close> spec admits exactly the integers of its range, although the comparison
  is made in 64-bit floating point: for bounds below 2^53 no integer outside is let in and none
  inside is refused, however large the value.\<close>

theorem integer_range_exact:
  assumes "\<bar>lo\<bar> < 2 ^ 53" "\<bar>hi\<bar> < 2 ^ 53"
  shows "param_validate (integer_range lo hi) node_type param v = Inr () \<longleftrightarrow>
     (\<exists>n. as_i64 v = Some n \<and> lo \<le> sint n \<and> sint n \<le> hi)"
  using integer_range_admits [OF assms] by (simp add: param_validate_ok)

lemma integer_range_exact_witness:
  "param_validate (integer_range 1 10) ''t'' ''p'' (json_of_i64 3) = Inr () \<and>
   param_validate (integer_range 1 10) ''t'' ''p'' (json_of_i64 (- 3)) \<noteq> Inr ()"
proof -
  have "sint (3 :: i64) = 3" "sint (- 3 :: i64) = - 3" by simp_all
  then show ?thesis
    using integer_range_exact [of 1 10 "''t''" "''p''" "json_of_i64 3"]
      integer_range_exact [of 1 10 "''t''" "''p''" "json_of_i64 (- 3)"]
    by (simp add: json_of_i64_def)
qed

text \<open>A registry is built exactly from definitions with distinct node types, and then finds each
  definition under its type and nothing else, in a map sorted by type.\<close>

theorem from_definitions_exact:
  "(\<exists>reg. from_definitions ds = Inr reg) = distinct (map nd_node_type ds) \<and>
   (case from_definitions ds of
      Inl e \<Rightarrow> \<not> distinct (map nd_node_type ds)
    | Inr reg \<Rightarrow> registry_wf reg \<and>
        (\<forall>t d. (registry_definition reg t = Inr d) = (d \<in> set ds \<and> nd_node_type d = t)))"
proof -
  have ok: "\<exists>reg. from_definitions ds = Inr reg" if "distinct (map nd_node_type ds)"
    using fold_registry_insert_distinct [OF that, of "[]"] by (auto simp: from_definitions_def)
  show ?thesis
    using ok from_definitions_lookup [of ds] from_definitions_wf [of ds]
    by (cases "from_definitions ds") auto
qed

end
