(* ===== verification/Catalog.thy ===== *)
theory Catalog
  imports Registry
begin

text \<open>
  The capability catalog (crates/registry/src/catalog.rs): capabilities, models,
  connectors, workflow backends and the bindings that make a capability/model pair
  executable, with the snapshot constructor and the lookups.  The hash of the catalog's
  JSON bytes (crates \<open>sha2\<close>, \<open>hex\<close>, \<open>serde_json\<close>) is the parameter \<open>digest\<close>.
\<close>

section \<open>Records\<close>

datatype media_category = CatText | CatImage | CatVideo

record capability_definition =
  cd_capability_id :: string
  cd_node_type :: string
  cd_category :: media_category
  cd_display_name :: string
  cd_description :: string
  cd_inputs :: "port_definition list"
  cd_outputs :: "port_definition list"
  cd_params_schema :: params_schema

datatype model_lifecycle = LifecycleActive | LifecycleDeprecated

record model_definition =
  md_model_id :: string
  md_family_id :: string
  md_display_name :: string
  md_vendor :: string
  md_lifecycle :: model_lifecycle
  md_aliases :: "string list"

datatype connector_kind = KindApi

datatype connector_status = ConnActive | ConnDisabled

record connector_definition =
  cn_connector_id :: string
  cn_provider_id :: string
  cn_kind :: connector_kind
  cn_enabled :: bool
  cn_status :: connector_status

datatype workflow_backend_kind = Comfyui

datatype backend_status = BackendDisabled

record workflow_backend_definition =
  wb_backend_id :: string
  wb_kind :: workflow_backend_kind
  wb_enabled :: bool
  wb_status :: backend_status
  wb_catalog_revision :: string

datatype binding_availability = BindingEnabled | BindingDisabled

datatype implementation_target =
    ApiConnector (it_connector_id: string) (it_operation_id: string)
  | WorkflowTemplate (it_backend_id: string) (it_template_id: string) (it_template_revision: string)

record capability_binding =
  cb_binding_id :: string
  cb_capability_id :: string
  cb_model_id :: string
  cb_implementation :: implementation_target
  cb_mode :: string
  cb_input_schema :: params_schema
  cb_output_schema :: params_schema
  cb_defaults :: json
  cb_availability :: binding_availability
  cb_binding_revision :: string

datatype implementation_selection =
    Pinned (is_requested_model_id: string) (is_binding_id: string)
  | Policy (is_policy_id: string) (is_constraints: json)

record catalog_snapshot =
  cs_catalog_revision :: string
  cs_capabilities :: "capability_definition list"
  cs_models :: "model_definition list"
  cs_bindings :: "capability_binding list"
  cs_connectors :: "connector_definition list"
  cs_workflow_backends :: "workflow_backend_definition list"
  cs_default_bindings :: "(string, string) btree_map"

section \<open>Building a snapshot\<close>

definition compute_revision :: "(catalog_snapshot \<Rightarrow> string) \<Rightarrow> catalog_snapshot \<Rightarrow> string" where
  "compute_revision digest c = ''sha256:'' @ digest (c\<lparr>cs_catalog_revision := ''''\<rparr>)"

definition catalog_build ::
  "(catalog_snapshot \<Rightarrow> string) \<Rightarrow> capability_definition list \<Rightarrow> model_definition list
   \<Rightarrow> capability_binding list \<Rightarrow> connector_definition list
   \<Rightarrow> workflow_backend_definition list \<Rightarrow> (string, string) btree_map \<Rightarrow> catalog_snapshot" where
  "catalog_build digest caps mods binds conns backends defaults =
     (let snapshot = \<lparr>
        cs_catalog_revision = '''',
        cs_capabilities = sort_key cd_capability_id caps,
        cs_models = sort_key md_model_id mods,
        cs_bindings = sort_key cb_binding_id binds,
        cs_connectors = sort_key cn_connector_id conns,
        cs_workflow_backends = sort_key wb_backend_id backends,
        cs_default_bindings = defaults\<rparr>
      in snapshot\<lparr>cs_catalog_revision := compute_revision digest snapshot\<rparr>)"

section \<open>Lookups\<close>

definition catalog_capability :: "catalog_snapshot \<Rightarrow> string \<Rightarrow> capability_definition option" where
  "catalog_capability c k = List.find (\<lambda>x. cd_capability_id x = k) (cs_capabilities c)"

definition catalog_model :: "catalog_snapshot \<Rightarrow> string \<Rightarrow> model_definition option" where
  "catalog_model c k = List.find (\<lambda>x. md_model_id x = k) (cs_models c)"

definition catalog_binding :: "catalog_snapshot \<Rightarrow> string \<Rightarrow> capability_binding option" where
  "catalog_binding c k = List.find (\<lambda>x. cb_binding_id x = k) (cs_bindings c)"

definition catalog_connector :: "catalog_snapshot \<Rightarrow> string \<Rightarrow> connector_definition option" where
  "catalog_connector c k = List.find (\<lambda>x. cn_connector_id x = k) (cs_connectors c)"

definition bindings_for_capability :: "catalog_snapshot \<Rightarrow> string \<Rightarrow> capability_binding list" where
  "bindings_for_capability c k = filter (\<lambda>b. cb_capability_id b = k) (cs_bindings c)"

definition bindings_for_pair :: "catalog_snapshot \<Rightarrow> string \<Rightarrow> string \<Rightarrow> capability_binding list" where
  "bindings_for_pair c k m =
     filter (\<lambda>b. cb_capability_id b = k \<and> cb_model_id b = m) (cs_bindings c)"

definition models_for_capability :: "catalog_snapshot \<Rightarrow> string \<Rightarrow> model_definition list" where
  "models_for_capability c k =
     List.map_filter (catalog_model c)
       (sorted_ids (map cb_model_id (bindings_for_capability c k)))"

definition capabilities_for_model :: "catalog_snapshot \<Rightarrow> string \<Rightarrow> capability_definition list" where
  "capabilities_for_model c m =
     List.map_filter (catalog_capability c)
       (sorted_ids (map cb_capability_id (filter (\<lambda>b. cb_model_id b = m) (cs_bindings c))))"

section \<open>Properties of the lookups\<close>

text \<open>The integrity a catalog is expected to have: ids identify entries.\<close>

definition catalog_wf :: "catalog_snapshot \<Rightarrow> bool" where
  "catalog_wf c \<longleftrightarrow>
     distinct (map cd_capability_id (cs_capabilities c)) \<and>
     distinct (map md_model_id (cs_models c)) \<and>
     distinct (map cb_binding_id (cs_bindings c)) \<and>
     distinct (map cn_connector_id (cs_connectors c))"

lemma find_by_id:
  assumes "distinct (map f xs)"
  shows "List.find (\<lambda>x. f x = k) xs = Some x \<longleftrightarrow> x \<in> set xs \<and> f x = k"
  using assms
  by (induction xs) (auto simp: image_iff)

lemma find_None_id: "List.find (\<lambda>x. f x = k) xs = None \<longleftrightarrow> k \<notin> f ` set xs"
  by (auto simp: find_None_iff)

lemma catalog_bindingD:
  "catalog_binding c k = Some b \<Longrightarrow> b \<in> set (cs_bindings c) \<and> cb_binding_id b = k"
  by (auto simp: catalog_binding_def find_Some_iff)

lemma catalog_capabilityD:
  "catalog_capability c k = Some x \<Longrightarrow> x \<in> set (cs_capabilities c) \<and> cd_capability_id x = k"
  by (auto simp: catalog_capability_def find_Some_iff)

lemma catalog_connectorD:
  "catalog_connector c k = Some x \<Longrightarrow> x \<in> set (cs_connectors c) \<and> cn_connector_id x = k"
  by (auto simp: catalog_connector_def find_Some_iff)

lemma catalog_modelD:
  "catalog_model c k = Some x \<Longrightarrow> x \<in> set (cs_models c) \<and> md_model_id x = k"
  by (auto simp: catalog_model_def find_Some_iff)

lemma catalog_binding_mem:
  "catalog_wf c \<Longrightarrow> b \<in> set (cs_bindings c) \<Longrightarrow> catalog_binding c (cb_binding_id b) = Some b"
  by (simp add: catalog_wf_def catalog_binding_def find_by_id)

lemma catalog_binding_exists:
  "b \<in> set (cs_bindings c) \<Longrightarrow> \<exists>b'. catalog_binding c (cb_binding_id b) = Some b'"
  using find_None_id [of cb_binding_id "cb_binding_id b" "cs_bindings c"]
  by (auto simp: catalog_binding_def)

lemma set_bindings_for_capability [simp]:
  "set (bindings_for_capability c k) = {b \<in> set (cs_bindings c). cb_capability_id b = k}"
  by (auto simp: bindings_for_capability_def)

lemma set_bindings_for_pair [simp]:
  "set (bindings_for_pair c k m) =
     {b \<in> set (cs_bindings c). cb_capability_id b = k \<and> cb_model_id b = m}"
  by (auto simp: bindings_for_pair_def)

text \<open>The revision depends on the sorted content only, not on the order of the input.\<close>

lemma sort_key_perm_eq:
  fixes f :: "'a \<Rightarrow> 'b::linorder"
  assumes "set xs = set ys" "distinct (map f xs)" "distinct (map f ys)"
  shows "sort_key f xs = sort_key f ys"
proof (rule map_sorted_distinct_set_unique [of f])
  show "inj_on f (set (sort_key f xs) \<union> set (sort_key f ys))"
    using assms by (simp add: distinct_map)
  show "distinct (map f (sort_key f xs))" "distinct (map f (sort_key f ys))"
    using assms by (simp_all add: distinct_map)
qed (use assms(1) in simp_all)

lemma catalog_build_wf:
  assumes "distinct (map cd_capability_id caps)" "distinct (map md_model_id mods)"
    "distinct (map cb_binding_id binds)" "distinct (map cn_connector_id conns)"
  shows "catalog_wf (catalog_build digest caps mods binds conns backends defaults)"
  using assms by (simp add: catalog_wf_def catalog_build_def Let_def distinct_map)

text \<open>
  Identical catalog data gives an identical snapshot, revision included, in whatever
  order the entries are listed.  (The hash is a parameter: nothing is assumed of it.)
\<close>

theorem catalog_build_deterministic:
  assumes "set caps = set caps'" "distinct (map cd_capability_id caps)" "distinct (map cd_capability_id caps')"
    and "set mods = set mods'" "distinct (map md_model_id mods)" "distinct (map md_model_id mods')"
    and "set binds = set binds'" "distinct (map cb_binding_id binds)" "distinct (map cb_binding_id binds')"
    and "set conns = set conns'" "distinct (map cn_connector_id conns)" "distinct (map cn_connector_id conns')"
    and "set backs = set backs'" "distinct (map wb_backend_id backs)" "distinct (map wb_backend_id backs')"
  shows "catalog_build digest caps mods binds conns backs defaults =
         catalog_build digest caps' mods' binds' conns' backs' defaults"
  using sort_key_perm_eq [OF assms(1-3)] sort_key_perm_eq [OF assms(4-6)]
    sort_key_perm_eq [OF assms(7-9)] sort_key_perm_eq [OF assms(10-12)]
    sort_key_perm_eq [OF assms(13-15)]
  by (simp add: catalog_build_def)

lemma catalog_build_deterministic_witness:
  "(let b1 = \<lparr>wb_backend_id = ''x'', wb_kind = Comfyui, wb_enabled = False, wb_status = BackendDisabled,
               wb_catalog_revision = ''''\<rparr>;
        b2 = b1\<lparr>wb_backend_id := ''a''\<rparr>
    in catalog_build (\<lambda>_. ''h'') [] [] [] [] [b1, b2] [] = catalog_build (\<lambda>_. ''h'') [] [] [] [] [b2, b1] [])"
proof -
  define b1 where "b1 = \<lparr>wb_backend_id = ''x'', wb_kind = Comfyui, wb_enabled = False,
    wb_status = BackendDisabled, wb_catalog_revision = ''''\<rparr>"
  define b2 where "b2 = b1\<lparr>wb_backend_id := ''a''\<rparr>"
  have "catalog_build (\<lambda>_. ''h'') [] [] [] [] [b1, b2] [] = catalog_build (\<lambda>_. ''h'') [] [] [] [] [b2, b1] []"
    by (rule catalog_build_deterministic) (auto simp: b1_def b2_def)
  then show ?thesis by (simp add: b1_def b2_def Let_def)
qed

end
