(* ===== verification/Catalog_Seed.thy ===== *)
theory Catalog_Seed
  imports Catalog
begin

text \<open>
  The seed data (crates/registry/src/catalog_seed.rs): nine capabilities, four models,
  two connectors, eight bindings and the configured defaults, transcribed entry by entry,
  and the built-in node definitions projected from them (builtin.rs).
\<close>

section \<open>Construction helpers\<close>

definition port :: "string \<Rightarrow> port_type \<Rightarrow> bool \<Rightarrow> port_definition" where
  "port name t required =
     \<lparr>pd_name = name, pd_type = t, pd_required = required, pd_cardinality = One\<rparr>"

definition port_many :: "string \<Rightarrow> port_type \<Rightarrow> bool \<Rightarrow> port_definition" where
  "port_many name t required =
     \<lparr>pd_name = name, pd_type = t, pd_required = required, pd_cardinality = Many\<rparr>"

definition schema :: "string list \<Rightarrow> (string \<times> param_spec) list \<Rightarrow> params_schema" where
  "schema required properties =
     \<lparr>sc_required = required, sc_properties = bt_from_list properties, sc_allow_unknown = False\<rparr>"

definition seed_capability ::
  "string \<Rightarrow> string \<Rightarrow> media_category \<Rightarrow> string \<Rightarrow> string \<Rightarrow> port_definition list
   \<Rightarrow> port_definition list \<Rightarrow> params_schema \<Rightarrow> capability_definition" where
  "seed_capability capability_id node_type category display_name description inputs outputs sc =
     \<lparr>cd_capability_id = capability_id, cd_node_type = node_type, cd_category = category,
      cd_display_name = display_name, cd_description = description, cd_inputs = inputs,
      cd_outputs = outputs, cd_params_schema = sc\<rparr>"

section \<open>Capabilities\<close>

definition seed_cap_prompt_writer :: capability_definition where
  "seed_cap_prompt_writer =
     seed_capability ''prompt_writer'' ''llm.prompt_writer'' CatText
       ''Prompt Writer''
       ''Drafts a generation prompt from source text.''
       [port ''text'' Text True]
       [port ''prompt'' Text True]
       (schema [] [(''style'', string_enum [''cinematic'', ''product'', ''plain''])])"

definition seed_cap_text_to_image :: capability_definition where
  "seed_cap_text_to_image =
     seed_capability ''text_to_image'' ''image.generate'' CatImage
       ''Text To Image''
       ''Generates an image artifact from a prompt.''
       [port ''prompt'' Text True, port_many ''in'' Image False]
       [port ''image'' Image True]
       (schema [''prompt'', ''aspect_ratio''] [(''prompt'', param_string), (''aspect_ratio'',
        string_enum [''1:1'', ''9:16'', ''16:9'']), (''seed'', param_integer)])"

definition seed_cap_image_edit :: capability_definition where
  "seed_cap_image_edit =
     seed_capability ''image_edit'' ''image.edit'' CatImage
       ''Image Edit''
       ''Edits an image artifact from a prompt.''
       [port ''image'' Image True, port ''prompt'' Text True]
       [port ''image'' Image True]
       (schema [''prompt''] [(''prompt'', param_string)])"

definition seed_cap_text_to_video :: capability_definition where
  "seed_cap_text_to_video =
     seed_capability ''text_to_video'' ''video.text_to_video'' CatVideo
       ''Text To Video''
       ''Generates a video artifact from a prompt.''
       [port ''prompt'' Text True]
       [port ''video'' Video True]
       (schema [''prompt'', ''duration_sec'', ''aspect_ratio''] [(''prompt'', param_string),
        (''duration_sec'', integer_range 1 10), (''aspect_ratio'', string_enum [''1:1'',
        ''9:16'', ''16:9'']), (''seed'', param_integer)])"

definition seed_cap_image_to_video :: capability_definition where
  "seed_cap_image_to_video =
     seed_capability ''image_to_video'' ''video.image_to_video'' CatVideo
       ''Image To Video''
       ''Animates an input image into a video artifact.''
       [port_many ''image'' Image True, port_many ''video'' Video False, port_many ''audio''
        Audio False, port ''prompt'' Text False]
       [port ''video'' Video True]
       (schema [''duration_sec''] [(''prompt'', param_string), (''duration_sec'', integer_range
        4 12), (''aspect_ratio'', string_enum [''21:9'', ''16:9'', ''4:3'', ''1:1'', ''3:4'',
        ''9:16'']), (''resolution'', string_enum [''720p'', ''480p'']), (''generate_audio'',
        param_boolean), (''camera_fixed'', param_boolean), (''seed'', param_integer)])"

definition seed_cap_video_extend :: capability_definition where
  "seed_cap_video_extend =
     seed_capability ''video_extend'' ''video.extend'' CatVideo
       ''Video Extend''
       ''Extends an existing video artifact.''
       [port ''video'' Video True]
       [port ''video'' Video True]
       (schema [''duration_sec''] [(''duration_sec'', integer_range 1 10)])"

definition seed_cap_upscale_image :: capability_definition where
  "seed_cap_upscale_image =
     seed_capability ''upscale_image'' ''image.upscale'' CatImage
       ''Upscale Image''
       ''Upscales an image artifact.''
       [port ''image'' Image True]
       [port ''image'' Image True]
       (schema [] [(''scale'', integer_range 2 4)])"

definition seed_cap_upscale_video :: capability_definition where
  "seed_cap_upscale_video =
     seed_capability ''upscale_video'' ''video.upscale'' CatVideo
       ''Upscale Video''
       ''Upscales a video artifact.''
       [port ''video'' Video True]
       [port ''video'' Video True]
       (schema [] [(''scale'', integer_range 2 4)])"

definition seed_cap_image_analyze :: capability_definition where
  "seed_cap_image_analyze =
     seed_capability ''image_analyze'' ''image.analyze'' CatText
       ''Image Analyze''
       ''Analyzes an image and returns text.''
       [port ''image'' Image True]
       [port ''text'' Text True]
       (schema [] [(''prompt'', param_string)])"

definition seed_capabilities :: "capability_definition list" where
  "seed_capabilities = [
     seed_cap_prompt_writer,
     seed_cap_text_to_image,
     seed_cap_image_edit,
     seed_cap_text_to_video,
     seed_cap_image_to_video,
     seed_cap_video_extend,
     seed_cap_upscale_image,
     seed_cap_upscale_video,
     seed_cap_image_analyze]"

section \<open>Models and connectors\<close>

definition seed_models :: "model_definition list" where
  "seed_models = [
     \<lparr>md_model_id = ''google/nano-banana-2'', md_family_id = ''nano-banana'',
       md_display_name = ''Nano Banana 2'', md_vendor = ''google'',
       md_lifecycle = LifecycleActive,
       md_aliases = [''nano banana'', ''nano banana 2'']\<rparr>,
     \<lparr>md_model_id = ''deepseek-ai/DeepSeek-V3-0324'', md_family_id = ''deepseek-v3'',
       md_display_name = ''DeepSeek V3'', md_vendor = ''deepseek-ai'',
       md_lifecycle = LifecycleActive,
       md_aliases = [''deepseek'', ''deepseek v3'']\<rparr>,
     \<lparr>md_model_id = ''bytedance/seedance-v1.5-pro'', md_family_id = ''seedance'',
       md_display_name = ''Seedance 1.5 Pro'', md_vendor = ''bytedance'',
       md_lifecycle = LifecycleActive,
       md_aliases = [''seedance'', ''seedance 1.5'', ''seedance 1.5 pro'']\<rparr>,
     \<lparr>md_model_id = ''bytedance/seedance-2.0-fast'', md_family_id = ''seedance'',
       md_display_name = ''Seedance 2.0 Fast'', md_vendor = ''bytedance'',
       md_lifecycle = LifecycleActive,
       md_aliases = [''seedance 2'', ''seedance 2.0'', ''seedance 2.0 fast'', ''seedance 2 fast'']\<rparr>]"

definition seed_connectors :: "connector_definition list" where
  "seed_connectors = [
     \<lparr>cn_connector_id = ''atlas'', cn_provider_id = ''atlas'', cn_kind = KindApi,
      cn_enabled = True, cn_status = ConnActive\<rparr>,
     \<lparr>cn_connector_id = ''fal'', cn_provider_id = ''fal'', cn_kind = KindApi,
      cn_enabled = True, cn_status = ConnActive\<rparr>]"

section \<open>Bindings\<close>

definition seed_binding_google_nano_banana_2_text_to_image_atlas :: capability_binding where
  "seed_binding_google_nano_banana_2_text_to_image_atlas = \<lparr>
     cb_binding_id = ''google.nano-banana-2.text-to-image.atlas.v1'',
     cb_capability_id = ''text_to_image'',
     cb_model_id = ''google/nano-banana-2'',
     cb_implementation = ApiConnector ''atlas'' ''google/nano-banana-2/text-to-image'',
     cb_mode = ''text_to_image'',
     cb_input_schema = schema [''prompt'', ''aspect_ratio''] [(''prompt'', param_string), (''aspect_ratio'',
       string_enum [''1:1'', ''9:16'', ''16:9'']), (''seed'', param_integer)],
     cb_output_schema = schema [] [(''image'', param_string)],
     cb_defaults = json_object [(''aspect_ratio'', JString ''1:1'')],
     cb_availability = BindingEnabled,
     cb_binding_revision = ''v1''\<rparr>"

definition seed_binding_google_nano_banana_2_image_edit_atlas :: capability_binding where
  "seed_binding_google_nano_banana_2_image_edit_atlas = \<lparr>
     cb_binding_id = ''google.nano-banana-2.image-edit.atlas.v1'',
     cb_capability_id = ''image_edit'',
     cb_model_id = ''google/nano-banana-2'',
     cb_implementation = ApiConnector ''atlas'' ''google/nano-banana-2/edit'',
     cb_mode = ''image_edit'',
     cb_input_schema = schema [''image'', ''prompt''] [(''image'', param_string), (''prompt'', param_string),
       (''aspect_ratio'', string_enum [''1:1'', ''9:16'', ''16:9''])],
     cb_output_schema = schema [] [(''image'', param_string)],
     cb_defaults = json_object [],
     cb_availability = BindingEnabled,
     cb_binding_revision = ''v1''\<rparr>"

definition seed_binding_google_nano_banana_2_text_to_image_fal :: capability_binding where
  "seed_binding_google_nano_banana_2_text_to_image_fal = \<lparr>
     cb_binding_id = ''google.nano-banana-2.text-to-image.fal.v1'',
     cb_capability_id = ''text_to_image'',
     cb_model_id = ''google/nano-banana-2'',
     cb_implementation = ApiConnector ''fal'' ''fal-ai/nano-banana-2'',
     cb_mode = ''text_to_image'',
     cb_input_schema = schema [''prompt''] [(''prompt'', param_string), (''aspect_ratio'', string_enum [''1:1'',
       ''9:16'', ''16:9''])],
     cb_output_schema = schema [] [(''image'', param_string)],
     cb_defaults = json_object [],
     cb_availability = BindingEnabled,
     cb_binding_revision = ''v1''\<rparr>"

definition seed_binding_deepseek_ai_deepseek_v3_prompt_writer_atlas :: capability_binding where
  "seed_binding_deepseek_ai_deepseek_v3_prompt_writer_atlas = \<lparr>
     cb_binding_id = ''deepseek-ai.deepseek-v3.prompt-writer.atlas.v1'',
     cb_capability_id = ''prompt_writer'',
     cb_model_id = ''deepseek-ai/DeepSeek-V3-0324'',
     cb_implementation = ApiConnector ''atlas'' ''deepseek-ai/DeepSeek-V3-0324'',
     cb_mode = ''prompt_writer'',
     cb_input_schema = schema [] [(''prompt'', param_string), (''style'', string_enum [''cinematic'',
       ''product'', ''plain''])],
     cb_output_schema = schema [] [(''prompt'', param_string)],
     cb_defaults = json_object [(''style'', JString ''plain'')],
     cb_availability = BindingEnabled,
     cb_binding_revision = ''v1''\<rparr>"

definition seed_binding_bytedance_seedance_v1_5_pro_text_to_video_atlas :: capability_binding where
  "seed_binding_bytedance_seedance_v1_5_pro_text_to_video_atlas = \<lparr>
     cb_binding_id = ''bytedance.seedance-v1-5-pro.text-to-video.atlas.v1'',
     cb_capability_id = ''text_to_video'',
     cb_model_id = ''bytedance/seedance-v1.5-pro'',
     cb_implementation = ApiConnector ''atlas'' ''bytedance/seedance-v1.5-pro/text-to-video-fast'',
     cb_mode = ''text_to_video'',
     cb_input_schema = schema [''prompt'', ''duration_sec''] [(''prompt'', param_string), (''duration_sec'',
       integer_range 1 10), (''aspect_ratio'', string_enum [''1:1'', ''9:16'', ''16:9''])],
     cb_output_schema = schema [] [(''video'', param_string)],
     cb_defaults = json_object [(''duration_sec'', json_of_i64 5)],
     cb_availability = BindingEnabled,
     cb_binding_revision = ''v1''\<rparr>"

definition seed_binding_bytedance_seedance_v1_5_pro_image_to_video_atlas :: capability_binding where
  "seed_binding_bytedance_seedance_v1_5_pro_image_to_video_atlas = \<lparr>
     cb_binding_id = ''bytedance.seedance-v1-5-pro.image-to-video.atlas.v1'',
     cb_capability_id = ''image_to_video'',
     cb_model_id = ''bytedance/seedance-v1.5-pro'',
     cb_implementation = ApiConnector ''atlas'' ''bytedance/seedance-v1.5-pro/image-to-video'',
     cb_mode = ''image_to_video'',
     cb_input_schema = schema [''image'', ''duration_sec''] [(''image'', param_string), (''prompt'',
       param_string), (''duration_sec'', integer_range 4 12), (''aspect_ratio'', string_enum
       [''21:9'', ''16:9'', ''4:3'', ''1:1'', ''3:4'', ''9:16'']), (''resolution'', string_enum
       [''720p'', ''480p'']), (''generate_audio'', param_boolean), (''camera_fixed'',
       param_boolean), (''seed'', param_integer)],
     cb_output_schema = schema [] [(''video'', param_string)],
     cb_defaults = json_object [(''duration_sec'', json_of_i64 5), (''resolution'', JString ''720p''),
       (''generate_audio'', JBool True), (''camera_fixed'', JBool False), (''seed'', json_of_i64
       (- 1))],
     cb_availability = BindingEnabled,
     cb_binding_revision = ''v1''\<rparr>"

definition seed_binding_bytedance_seedance_2_0_fast_text_to_video_atlas :: capability_binding where
  "seed_binding_bytedance_seedance_2_0_fast_text_to_video_atlas = \<lparr>
     cb_binding_id = ''bytedance.seedance-2-0-fast.text-to-video.atlas.v1'',
     cb_capability_id = ''text_to_video'',
     cb_model_id = ''bytedance/seedance-2.0-fast'',
     cb_implementation = ApiConnector ''atlas'' ''bytedance/seedance-2.0-fast/text-to-video'',
     cb_mode = ''text_to_video'',
     cb_input_schema = schema [''prompt'', ''duration_sec''] [(''prompt'', param_string), (''duration_sec'',
       integer_range 4 15), (''aspect_ratio'', string_enum [''1:1'', ''9:16'', ''16:9''])],
     cb_output_schema = schema [] [(''video'', param_string)],
     cb_defaults = json_object [(''duration_sec'', json_of_i64 5)],
     cb_availability = BindingEnabled,
     cb_binding_revision = ''v1''\<rparr>"

definition seed_binding_bytedance_seedance_2_0_fast_reference_to_video_atlas :: capability_binding where
  "seed_binding_bytedance_seedance_2_0_fast_reference_to_video_atlas = \<lparr>
     cb_binding_id = ''bytedance.seedance-2-0-fast.reference-to-video.atlas.v1'',
     cb_capability_id = ''image_to_video'',
     cb_model_id = ''bytedance/seedance-2.0-fast'',
     cb_implementation = ApiConnector ''atlas'' ''bytedance/seedance-2.0-fast/reference-to-video'',
     cb_mode = ''image_to_video'',
     cb_input_schema = schema [''image'', ''duration_sec''] [(''image'', param_string), (''prompt'',
       param_string), (''duration_sec'', integer_range 4 15), (''aspect_ratio'', string_enum
       [''21:9'', ''16:9'', ''4:3'', ''1:1'', ''3:4'', ''9:16'', ''adaptive'']),
       (''resolution'', string_enum [''480p'', ''720p'']), (''generate_audio'', param_boolean),
       (''camera_fixed'', param_boolean), (''seed'', param_integer)],
     cb_output_schema = schema [] [(''video'', param_string)],
     cb_defaults = json_object [(''duration_sec'', json_of_i64 5), (''resolution'', JString ''720p''),
       (''generate_audio'', JBool True), (''seed'', json_of_i64 (- 1))],
     cb_availability = BindingEnabled,
     cb_binding_revision = ''v1''\<rparr>"

definition seed_bindings :: "capability_binding list" where
  "seed_bindings = [
     seed_binding_google_nano_banana_2_text_to_image_atlas,
     seed_binding_google_nano_banana_2_image_edit_atlas,
     seed_binding_google_nano_banana_2_text_to_image_fal,
     seed_binding_deepseek_ai_deepseek_v3_prompt_writer_atlas,
     seed_binding_bytedance_seedance_v1_5_pro_text_to_video_atlas,
     seed_binding_bytedance_seedance_v1_5_pro_image_to_video_atlas,
     seed_binding_bytedance_seedance_2_0_fast_text_to_video_atlas,
     seed_binding_bytedance_seedance_2_0_fast_reference_to_video_atlas]"

definition seed_default_bindings :: "(string, string) btree_map" where
  "seed_default_bindings = bt_from_list [
     (''prompt_writer'', ''deepseek-ai.deepseek-v3.prompt-writer.atlas.v1''),
     (''text_to_image'', ''google.nano-banana-2.text-to-image.atlas.v1''),
     (''image_edit'', ''google.nano-banana-2.image-edit.atlas.v1''),
     (''text_to_video'', ''bytedance.seedance-v1-5-pro.text-to-video.atlas.v1''),
     (''image_to_video'', ''bytedance.seedance-2-0-fast.reference-to-video.atlas.v1'')]"

definition builtin_catalog :: "(catalog_snapshot \<Rightarrow> string) \<Rightarrow> catalog_snapshot" where
  "builtin_catalog digest =
     catalog_build digest seed_capabilities seed_models seed_bindings seed_connectors []
       seed_default_bindings"

section \<open>Built-in node definitions\<close>

record node_spec =
  sp_node_type :: string
  sp_title :: string
  sp_category :: string
  sp_provider :: "string option"
  sp_capability :: "string option"
  sp_description :: string
  sp_inputs :: "port_definition list"
  sp_outputs :: "port_definition list"
  sp_params_schema :: params_schema

definition builtin_node :: "node_spec \<Rightarrow> node_definition" where
  "builtin_node spec =
     \<lparr>nd_node_type = sp_node_type spec, nd_title = sp_title spec, nd_category = sp_category spec,
      nd_provider = sp_provider spec, nd_capability = sp_capability spec,
      nd_description = sp_description spec, nd_inputs = sp_inputs spec,
      nd_outputs = sp_outputs spec, nd_params_schema = sp_params_schema spec,
      nd_estimated_cost =
        map_option (\<lambda>c. \<lparr>ec_unit = ''call'', ec_catalog_key = c\<rparr>) (sp_capability spec)\<rparr>"

fun category_name :: "media_category \<Rightarrow> string" where
  "category_name CatText = ''text''"
| "category_name CatImage = ''image''"
| "category_name CatVideo = ''video''"

definition capability_node :: "capability_definition \<Rightarrow> node_definition" where
  "capability_node c =
     \<lparr>nd_node_type = cd_node_type c, nd_title = cd_display_name c,
      nd_category = category_name (cd_category c), nd_provider = None,
      nd_capability = Some (cd_capability_id c), nd_description = cd_description c,
      nd_inputs = cd_inputs c, nd_outputs = cd_outputs c,
      nd_params_schema = cd_params_schema c,
      nd_estimated_cost = Some \<lparr>ec_unit = ''call'', ec_catalog_key = cd_capability_id c\<rparr>\<rparr>"

definition builtin_input_nodes :: "node_definition list" where
  "builtin_input_nodes = map builtin_node [
     \<lparr>sp_node_type = ''input.text'', sp_title = ''Text Input'', sp_category = ''input'',
      sp_provider = None, sp_capability = None,
      sp_description = ''A user-provided text value.'',
      sp_inputs = [port_many ''in'' Text False], sp_outputs = [port ''text'' Text True],
      sp_params_schema = schema [''text''] [(''text'', param_string)]\<rparr>,
     \<lparr>sp_node_type = ''input.image'', sp_title = ''Image Input'', sp_category = ''input'',
      sp_provider = None, sp_capability = None,
      sp_description = ''A user-uploaded image artifact.'',
      sp_inputs = [port_many ''in'' Image False], sp_outputs = [port ''image'' Image True],
      sp_params_schema = schema [''storage_uri''] [(''storage_uri'', param_string)]\<rparr>,
     \<lparr>sp_node_type = ''input.video'', sp_title = ''Video Input'', sp_category = ''input'',
      sp_provider = None, sp_capability = None,
      sp_description = ''A user-uploaded video artifact.'',
      sp_inputs = [port_many ''in'' Video False], sp_outputs = [port ''video'' Video True],
      sp_params_schema = schema [''storage_uri''] [(''storage_uri'', param_string)]\<rparr>,
     \<lparr>sp_node_type = ''input.audio'', sp_title = ''Audio Input'', sp_category = ''audio'',
      sp_provider = None, sp_capability = None,
      sp_description = ''A user-uploaded audio artifact.'',
      sp_inputs = [port_many ''in'' Audio False], sp_outputs = [port ''audio'' Audio True],
      sp_params_schema = schema [''storage_uri''] [(''storage_uri'', param_string)]\<rparr>,
     \<lparr>sp_node_type = ''output.save'', sp_title = ''Save Output'', sp_category = ''output'',
      sp_provider = None, sp_capability = None,
      sp_description = ''Marks an upstream artifact as a workflow output.'',
      sp_inputs = [port ''artifact'' Json True], sp_outputs = [],
      sp_params_schema = schema [] []\<rparr>]"

definition builtin_node_definitions :: "(catalog_snapshot \<Rightarrow> string) \<Rightarrow> node_definition list" where
  "builtin_node_definitions digest =
     (let catalog = builtin_catalog digest in
      builtin_input_nodes @
      map capability_node
        (filter (\<lambda>c. \<exists>b\<in>set (cs_bindings catalog).
             cb_capability_id b = cd_capability_id c \<and> cb_availability b = BindingEnabled)
          (cs_capabilities catalog)))"

text \<open>\<open>NodeRegistry::builtin\<close>: an \<open>Inl\<close> would be the panic of its \<open>expect\<close>.\<close>

definition registry_builtin :: "(catalog_snapshot \<Rightarrow> string) \<Rightarrow> registry_error + node_registry" where
  "registry_builtin digest = from_definitions (builtin_node_definitions digest)"

end
