(* ===== verification/Graph.thy ===== *)
theory Graph
  imports Catalog "HOL-Library.Product_Lexorder"
begin

text \<open>
  The workflow graph and its errors (crates/graph/src/lib.rs, the record of
  semantics.rs): nodes keyed by id, typed edges, proposal operations, the execution plan.
  A two-element array of the code is a pair; the order of pairs is lexicographic, as that
  of arrays.
\<close>

section \<open>Graphs\<close>

record node_semantics_entry =
  ns_capability_id :: string
  ns_mode :: string
  ns_implementation :: implementation_selection

record graph_node =
  gn_node_type :: string
  gn_title :: string
  gn_params :: json
  gn_pos :: "f32 \<times> f32"
  gn_size :: "(f32 \<times> f32) option"
  gn_semantics :: "node_semantics_entry option"

record graph_edge =
  ge_from :: "string \<times> string"
  ge_to :: "string \<times> string"
  ge_type :: string

record workflow_graph =
  wg_schema_version :: u32
  wg_catalog_revision :: "string option"
  wg_nodes :: "(string, graph_node) btree_map"
  wg_edges :: "graph_edge list"

section \<open>Proposals\<close>

datatype proposal_kind = KindCreate | KindModify | KindFix | KindSweep

datatype proposal_state =
  StatePending | StateApplied | StateDismissed | StateSuperseded | StateInvalid

datatype proposal_op =
    AddNode string graph_node
  | RemoveNode string
  | SetParam string string "json option" json
  | AddEdge graph_edge
  | RemoveEdge graph_edge
  | MoveNode string "f32 \<times> f32"
  | ResizeNode string "f32 \<times> f32"
  | SetSemantics string "node_semantics_entry option"
  | SpawnNode string graph_node string

record proposal_draft =
  dr_base_version_id :: string
  dr_kind :: proposal_kind
  dr_title :: string
  dr_summary :: string
  dr_ops :: "proposal_op list"
  dr_message_id :: "string option"

record prepared_proposal =
  pp_base_version_id :: string
  pp_kind :: proposal_kind
  pp_title :: string
  pp_summary :: string
  pp_ops :: "proposal_op list"
  pp_diff_summary :: "string list"
  pp_preview_graph :: workflow_graph
  pp_state :: proposal_state
  pp_message_id :: "string option"

section \<open>Execution plans\<close>

record resolved_step_binding =
  rb_capability_id :: string
  rb_requested_model_id :: "string option"
  rb_resolved_model_id :: string
  rb_binding_id :: string
  rb_binding_revision :: string
  rb_connector_id :: string
  rb_operation_id :: string

record execution_step =
  es_node_id :: string
  es_node_type :: string
  es_provider :: "string option"
  es_capability :: "string option"
  es_inputs :: "(string, (string \<times> string) list) btree_map"
  es_params :: json
  es_resolved :: "resolved_step_binding option"

record execution_plan =
  ep_schema_version :: u32
  ep_version_id :: string
  ep_catalog_revision :: "string option"
  ep_steps :: "execution_step list"

section \<open>Errors\<close>

datatype graph_error =
    GE_Registry registry_error
  | GE_UnsupportedSchema u32
  | GE_MissingRequiredInput string string
  | GE_MissingEndpoint string
  | GE_MissingPort string string
  | GE_DuplicateInputConnection string string
  | GE_PortTypeMismatch "string \<times> string" "string \<times> string"
  | GE_CycleDetected
  | GE_DuplicateNode string
  | GE_MissingNode string
  | GE_MissingEdge graph_edge
  | GE_InvalidNodeSize string
  | GE_ParamsNotObject string
  | GE_SetParamConflict string string
  | GE_ProposalSuperseded string string
  | GE_ProposalNotPending
  | GE_DiffSummary string
  | GE_Store string
  | GE_NoLineageConnection string string

definition debug_pair :: "string \<times> string \<Rightarrow> string" where
  "debug_pair p = debug_list [fst p, snd p]"

definition debug_edge :: "graph_edge \<Rightarrow> string" where
  "debug_edge e = ''GraphEdge { from: '' @ debug_pair (ge_from e) @ '', to: '' @ debug_pair (ge_to e)
     @ '', edge_type: '' @ debug_str (ge_type e) @ '' }''"

fun graph_error_display :: "graph_error \<Rightarrow> string" where
  "graph_error_display (GE_Registry err) = registry_error_display err"
| "graph_error_display (GE_UnsupportedSchema v) =
     ''unsupported graph schema version: '' @ show_nat (unat v)"
| "graph_error_display (GE_MissingRequiredInput n p) =
     ''missing required input '' @ bq p @ '' on node '' @ bq n"
| "graph_error_display (GE_MissingEndpoint n) = ''missing edge endpoint node: '' @ n"
| "graph_error_display (GE_MissingPort n p) = ''missing port '' @ bq p @ '' on node '' @ bq n"
| "graph_error_display (GE_DuplicateInputConnection n p) =
     ''duplicate input connection for '' @ bq (n @ ''.'' @ p)"
| "graph_error_display (GE_PortTypeMismatch f t) =
     ''edge port type mismatch from '' @ debug_pair f @ '' to '' @ debug_pair t"
| "graph_error_display GE_CycleDetected = ''graph contains a cycle''"
| "graph_error_display (GE_DuplicateNode n) = ''duplicate node id: '' @ n"
| "graph_error_display (GE_MissingNode n) = ''missing node: '' @ n"
| "graph_error_display (GE_MissingEdge e) = ''missing edge: '' @ debug_edge e"
| "graph_error_display (GE_InvalidNodeSize n) = ''invalid node size: '' @ n"
| "graph_error_display (GE_ParamsNotObject n) = ''node params must be an object: '' @ n"
| "graph_error_display (GE_SetParamConflict n k) = ''set_param conflict on '' @ bq (n @ ''.'' @ k)"
| "graph_error_display (GE_ProposalSuperseded b c) =
     ''proposal base '' @ bq b @ '' is superseded by '' @ bq c"
| "graph_error_display GE_ProposalNotPending = ''proposal is not pending''"
| "graph_error_display (GE_DiffSummary e) = ''graph diff summary: '' @ e"
| "graph_error_display (GE_Store e) = ''store error while applying proposal: '' @ e"
| "graph_error_display (GE_NoLineageConnection f t) =
     ''cannot spawn '' @ bq t @ '' from '' @ bq f @ '': no lineage ports''"

fun port_type_label :: "port_type \<Rightarrow> string" where
  "port_type_label Text = ''text''"
| "port_type_label Image = ''image''"
| "port_type_label Video = ''video''"
| "port_type_label Audio = ''audio''"
| "port_type_label Mask = ''mask''"
| "port_type_label Json = ''json''"

lemma port_type_label_inj [simp]: "port_type_label a = port_type_label b \<longleftrightarrow> a = b"
  by (cases a; cases b) simp_all

abbreviation edge_source :: "graph_edge \<Rightarrow> string" where
  "edge_source e \<equiv> fst (ge_from e)"

abbreviation edge_target :: "graph_edge \<Rightarrow> string" where
  "edge_target e \<equiv> fst (ge_to e)"

text \<open>Ids on which both ends of every edge exist.\<close>

definition endpoints_ok :: "workflow_graph \<Rightarrow> bool" where
  "endpoints_ok g \<longleftrightarrow> (\<forall>e\<in>set (wg_edges g).
     edge_source e \<in> dom (bt_get (wg_nodes g)) \<and> edge_target e \<in> dom (bt_get (wg_nodes g)))"

definition edge_rel :: "workflow_graph \<Rightarrow> (string \<times> string) set" where
  "edge_rel g = (\<lambda>e. (edge_source e, edge_target e)) ` set (wg_edges g)"

end
