(* ===== verification/Topo.thy ===== *)
theory Topo
  imports Graph
begin

text \<open>
  \<open>topological_order\<close> and \<open>has_cycle\<close> (crates/graph/src/lib.rs): Kahn's algorithm with a
  \<open>BTreeSet\<close> of ready nodes.  A counter of incoming edges is an \<open>int\<close>, so that a
  decrement below zero (an overflow panic of \<open>usize\<close>) would be visible; the invariant
  shows that it does not happen.
\<close>

section \<open>The algorithm\<close>

type_synonym counters = "(string, int) btree_map"
type_synonym adjacency = "(string, string list) btree_map"

definition push_entry :: "'k::linorder \<Rightarrow> 'v \<Rightarrow> ('k, 'v list) btree_map \<Rightarrow> ('k, 'v list) btree_map" where
  "push_entry k v m = bt_insert k ((case bt_get m k of None \<Rightarrow> [] | Some vs \<Rightarrow> vs) @ [v]) m"

definition count_edge :: "graph_edge \<Rightarrow> counters \<times> adjacency \<Rightarrow> graph_error + counters \<times> adjacency" where
  "count_edge e s = (case s of (incoming, outgoing) \<Rightarrow>
     if bt_contains incoming (edge_target e)
     then Inr (bt_modify (edge_target e) (\<lambda>c. c + 1) incoming,
               push_entry (edge_source e) (edge_target e) outgoing)
     else Inl (GE_MissingEndpoint (edge_target e)))"

definition relax :: "string \<Rightarrow> string btree_set \<times> counters \<Rightarrow> graph_error + string btree_set \<times> counters" where
  "relax next s = (case s of (ready, incoming) \<Rightarrow>
     (case bt_get incoming next of
        None \<Rightarrow> Inl (GE_MissingEndpoint next)
      | Some count \<Rightarrow>
          Inr (if count - 1 = 0 then bs_insert next ready else ready,
               bt_modify next (\<lambda>c. c - 1) incoming)))"

definition positive_count :: "counters \<Rightarrow> nat" where
  "positive_count m = length (filter (\<lambda>(_, c). 1 \<le> c) m)"

lemma positive_count_simps [simp]:
  "positive_count [] = 0"
  "positive_count (p # m) = (if 1 \<le> snd p then Suc (positive_count m) else positive_count m)"
  by (simp_all add: positive_count_def case_prod_beta)

lemma bt_modify_simps [simp]:
  "bt_modify k f [] = []"
  "bt_modify k f (p # m) = (fst p, if fst p = k then f (snd p) else snd p) # bt_modify k f m"
  by (simp_all add: bt_modify_def case_prod_beta)

lemma positive_count_dec_le: "positive_count (bt_modify k (\<lambda>c. c - 1) m) \<le> positive_count m"
  by (induction m) auto

lemma positive_count_dec_less:
  "bt_get m k = Some 1 \<Longrightarrow> positive_count (bt_modify k (\<lambda>c. c - 1) m) < positive_count m"
proof (induction m)
  case (Cons p m)
  then show ?case
    using positive_count_dec_le [of k m] by (auto simp: less_Suc_eq_le split: if_splits)
qed simp

lemma length_bs_insert: "length (bs_insert k s) \<le> Suc (length s)"
  by (induction s) auto

lemma relax_measure:
  assumes "relax x s = Inr s'"
  shows "length (fst s') + positive_count (snd s') \<le> length (fst s) + positive_count (snd s)"
proof -
  obtain ready incoming where s: "s = (ready, incoming)" by (cases s)
  with assms obtain c where c: "bt_get incoming x = Some c"
    and s': "s' = (if c - 1 = 0 then bs_insert x ready else ready, bt_modify x (\<lambda>c. c - 1) incoming)"
    by (auto simp: relax_def split: option.splits)
  show ?thesis
  proof (cases "c = 1")
    case True
    then show ?thesis
      using positive_count_dec_less [of incoming x] length_bs_insert [of x ready] c
      by (simp add: s s')
  next
    case False
    then show ?thesis
      using positive_count_dec_le [of x incoming] by (simp add: s s')
  qed
qed

lemma relax_all_measure:
  assumes "fold_res relax xs s = Inr s'"
  shows "length (fst s') + positive_count (snd s') \<le> length (fst s) + positive_count (snd s)"
  using assms
proof (induction xs arbitrary: s)
  case (Cons x xs)
  then obtain s1 where s1: "relax x s = Inr s1" "fold_res relax xs s1 = Inr s'"
    by (auto split: sum.splits)
  from relax_measure [OF s1(1)] Cons.IH [OF s1(2)] show ?case by linarith
qed simp

definition successors :: "adjacency \<Rightarrow> string \<Rightarrow> string list" where
  "successors outgoing n = (case bt_get outgoing n of None \<Rightarrow> [] | Some vs \<Rightarrow> vs)"

text \<open>The \<open>while let\<close> loop.  Every round removes one ready node, and a node becomes ready
  only when its counter leaves the positive range, so the loop ends from any state.\<close>

function kahn_loop ::
  "adjacency \<Rightarrow> string btree_set \<Rightarrow> counters \<Rightarrow> string list \<Rightarrow> graph_error + string list" where
  "kahn_loop outgoing [] incoming ordered = Inr ordered"
| "kahn_loop outgoing (node_id # rest) incoming ordered =
     (case fold_res relax (successors outgoing node_id) (rest, incoming) of
        Inl e \<Rightarrow> Inl e
      | Inr (ready', incoming') \<Rightarrow> kahn_loop outgoing ready' incoming' (ordered @ [node_id]))"
  by pat_completeness auto
termination
  by (relation "measure (\<lambda>(out, ready, incoming, ord). length ready + positive_count incoming)")
     (auto dest: relax_all_measure)

definition initial_counters :: "workflow_graph \<Rightarrow> counters" where
  "initial_counters g = map (\<lambda>k. (k, 0)) (bt_keys (wg_nodes g))"

definition topological_order :: "workflow_graph \<Rightarrow> graph_error + string list" where
  "topological_order g =
     res_bind (fold_res count_edge (wg_edges g) (initial_counters g, [])) (\<lambda>(incoming, outgoing).
       let ready = bs_from_list (List.map_filter
             (\<lambda>(node_id, count). if count = 0 then Some node_id else None) incoming)
       in res_bind (kahn_loop outgoing ready incoming []) (\<lambda>ordered.
            if length ordered \<noteq> length (wg_nodes g) then Inl GE_CycleDetected else Inr ordered))"

definition has_cycle :: "workflow_graph \<Rightarrow> bool" where
  "has_cycle g = (\<not> is_ok (topological_order g))"

section \<open>Counting edges\<close>

definition edge_count :: "graph_edge list \<Rightarrow> string list \<Rightarrow> string \<Rightarrow> nat" where
  "edge_count es done k = length (filter (\<lambda>e. edge_target e = k \<and> edge_source e \<notin> set done) es)"

lemma edge_count_0: "edge_count es done k = 0 \<longleftrightarrow>
    (\<forall>e\<in>set es. edge_target e = k \<longrightarrow> edge_source e \<in> set done)"
  by (auto simp: edge_count_def filter_empty_conv)

lemma map_of_push_entry:
  "bt_get (push_entry k v m) n =
     (if n = k then Some ((case bt_get m k of None \<Rightarrow> [] | Some vs \<Rightarrow> vs) @ [v]) else bt_get m n)"
  by (simp add: push_entry_def)

lemma successors_push_entry:
  "successors (push_entry k v m) n = successors m n @ (if n = k then [v] else [])"
  by (auto simp: successors_def map_of_push_entry split: option.splits)

lemma count_edge_Inr:
  "count_edge e (inc, out) = Inr s' \<longleftrightarrow>
     (\<exists>c. bt_get inc (edge_target e) = Some c)
       \<and> s' = (bt_modify (edge_target e) (\<lambda>c. c + 1) inc, push_entry (edge_source e) (edge_target e) out)"
  by (auto simp: count_edge_def bt_contains_iff dom_def)

lemma fold_count_edge:
  assumes "fold_res count_edge es (inc, out) = Inr (inc', out')"
  shows "bt_keys inc' = bt_keys inc"
    and "bt_get inc' k = map_option (\<lambda>c. c + int (edge_count es [] k)) (bt_get inc k)"
    and "successors out' n =
           successors out n @ map edge_target (filter (\<lambda>e. edge_source e = n) es)"
    and "\<forall>e\<in>set es. edge_target e \<in> dom (bt_get inc)"
proof -
  have "bt_keys inc' = bt_keys inc \<and>
     (\<forall>k. bt_get inc' k = map_option (\<lambda>c. c + int (edge_count es [] k)) (bt_get inc k)) \<and>
     (\<forall>n. successors out' n =
           successors out n @ map edge_target (filter (\<lambda>e. edge_source e = n) es)) \<and>
     (\<forall>e\<in>set es. edge_target e \<in> dom (bt_get inc))"
    using assms
  proof (induction es arbitrary: inc out)
    case Nil
    then show ?case by (simp add: edge_count_def option.map_ident)
  next
    case (Cons e es)
    let ?t = "edge_target e"
    from Cons.prems obtain c where c: "bt_get inc ?t = Some c"
      and rest: "fold_res count_edge es
        (bt_modify ?t (\<lambda>c. c + 1) inc, push_entry (edge_source e) ?t out) = Inr (inc', out')"
      by (auto simp: count_edge_Inr split: sum.splits)
    from Cons.IH [OF rest] c show ?case
      by (auto simp: map_of_bt_modify successors_push_entry edge_count_def
            option.map_comp comp_def split: if_splits)
  qed
  then show "bt_keys inc' = bt_keys inc"
    and "bt_get inc' k = map_option (\<lambda>c. c + int (edge_count es [] k)) (bt_get inc k)"
    and "successors out' n =
           successors out n @ map edge_target (filter (\<lambda>e. edge_source e = n) es)"
    and "\<forall>e\<in>set es. edge_target e \<in> dom (bt_get inc)"
    by auto
qed

lemma fold_count_edge_ok:
  assumes "\<forall>e\<in>set es. edge_target e \<in> dom (bt_get inc)"
  shows "\<exists>inc' out'. fold_res count_edge es (inc, out) = Inr (inc', out')"
  using assms
proof (induction es arbitrary: inc out)
  case (Cons e es)
  then have ok: "count_edge e (inc, out) =
      Inr (bt_modify (edge_target e) (\<lambda>c. c + 1) inc, push_entry (edge_source e) (edge_target e) out)"
    by (auto simp: count_edge_Inr dom_def)
  have "\<forall>x\<in>set es. edge_target x \<in> dom (bt_get (bt_modify (edge_target e) (\<lambda>c. c + 1) inc))"
    using Cons.prems by (auto simp: map_of_bt_modify)
  from Cons.IH [OF this] ok show ?case by simp
qed simp

section \<open>Relaxing the successors of a node\<close>

definition dec_list :: "string list \<Rightarrow> counters \<Rightarrow> counters" where
  "dec_list vs inc = fold (\<lambda>v. bt_modify v (\<lambda>c. c - 1)) vs inc"

lemma bt_keys_dec_list [simp]: "bt_keys (dec_list vs inc) = bt_keys inc"
  unfolding dec_list_def by (induction vs arbitrary: inc) simp_all

lemma map_of_dec_list:
  "bt_get (dec_list vs inc) k = map_option (\<lambda>c. c - int (count_list vs k)) (bt_get inc k)"
proof -
  have "bt_get (fold (\<lambda>v. bt_modify v (\<lambda>c. c - 1)) vs inc) k
      = map_option (\<lambda>c. c - int (count_list vs k)) (bt_get inc k)"
    by (induction vs arbitrary: inc)
       (auto simp: map_of_bt_modify option.map_comp comp_def option.map_ident diff_diff_eq)
  then show ?thesis by (simp add: dec_list_def)
qed

text \<open>As long as every counter covers its pending decrements, relaxing the list succeeds, and the
  nodes that become ready are those whose counter reaches zero.\<close>

lemma relax_all:
  assumes "\<forall>v\<in>set vs. \<exists>c. bt_get inc v = Some c \<and> int (count_list vs v) \<le> c"
    and "sorted_wrt (<) ready"
  shows "\<exists>ready'. fold_res relax vs (ready, inc) = Inr (ready', dec_list vs inc)
     \<and> sorted_wrt (<) ready'
     \<and> set ready' = set ready \<union> {k\<in>set vs. bt_get (dec_list vs inc) k = Some 0}"
  using assms
proof (induction vs arbitrary: ready inc)
  case Nil
  then show ?case by (simp add: dec_list_def)
next
  case (Cons v vs)
  from Cons.prems(1) obtain c where c: "bt_get inc v = Some c" "1 + int (count_list vs v) \<le> c"
    by auto
  define inc1 where "inc1 = bt_modify v (\<lambda>c. c - 1) inc"
  define ready1 where "ready1 = (if c - 1 = 0 then bs_insert v ready else ready)"
  have step: "relax v (ready, inc) = Inr (ready1, inc1)"
    by (simp add: relax_def c inc1_def ready1_def)
  have dec: "dec_list (v # vs) inc = dec_list vs inc1"
    by (simp add: dec_list_def inc1_def)
  have "\<forall>w\<in>set vs. \<exists>c. bt_get inc1 w = Some c \<and> int (count_list vs w) \<le> c"
    using Cons.prems(1) c by (fastforce simp: inc1_def map_of_bt_modify split: if_splits)
  moreover have "sorted_wrt (<) ready1"
    using Cons.prems(2) by (simp add: ready1_def)
  ultimately obtain ready' where r: "fold_res relax vs (ready1, inc1) = Inr (ready', dec_list vs inc1)"
    "sorted_wrt (<) ready'"
    "set ready' = set ready1 \<union> {k\<in>set vs. bt_get (dec_list vs inc1) k = Some 0}"
    using Cons.IH by blast
  have v0: "bt_get (dec_list vs inc1) v = Some 0 \<longleftrightarrow> c = 1 + int (count_list vs v)"
    by (auto simp: map_of_dec_list inc1_def map_of_bt_modify c)
  have "set ready1 \<union> {k\<in>set vs. bt_get (dec_list vs inc1) k = Some 0}
      = set ready \<union> {k\<in>set (v # vs). bt_get (dec_list vs inc1) k = Some 0}"
  proof (cases "v \<in> set vs")
    case True
    then have "count_list vs v \<noteq> 0" by (simp add: count_list_0_iff)
    then have "c \<noteq> 1" using c(2) by simp
    then show ?thesis using True by (auto simp: ready1_def)
  next
    case False
    then have "count_list vs v = 0" by (simp add: count_list_0_iff)
    then show ?thesis using v0 by (auto simp: ready1_def)
  qed
  with r step dec show ?case by auto
qed

section \<open>The loop invariant\<close>

definition topo_sorted :: "graph_edge list \<Rightarrow> string list \<Rightarrow> bool" where
  "topo_sorted es xs \<longleftrightarrow> distinct xs \<and>
     (\<forall>ys k zs. xs = ys @ k # zs \<longrightarrow> (\<forall>e\<in>set es. edge_target e = k \<longrightarrow> edge_source e \<in> set ys))"

lemma topo_sorted_Nil [simp]: "topo_sorted es []"
  by (simp add: topo_sorted_def)

lemma topo_sorted_snoc:
  assumes "topo_sorted es xs" "k \<notin> set xs"
    and "\<And>e. e \<in> set es \<Longrightarrow> edge_target e = k \<Longrightarrow> edge_source e \<in> set xs"
  shows "topo_sorted es (xs @ [k])"
  unfolding topo_sorted_def
proof (intro conjI allI impI ballI)
  show "distinct (xs @ [k])"
    using assms(1,2) by (simp add: topo_sorted_def)
next
  fix ys k' zs e
  assume eq: "xs @ [k] = ys @ k' # zs" and e: "e \<in> set es" "edge_target e = k'"
  show "edge_source e \<in> set ys"
  proof (cases zs rule: rev_cases)
    case Nil
    with eq have "ys = xs" "k' = k" by auto
    with assms(3) e show ?thesis by blast
  next
    case (snoc zs' z)
    with eq have "xs = ys @ k' # zs'" by simp
    with assms(1) e show ?thesis unfolding topo_sorted_def by blast
  qed
qed

lemma topo_sorted_closed:
  assumes "topo_sorted es xs" "e \<in> set es" "edge_target e \<in> set xs"
  shows "edge_source e \<in> set xs"
proof -
  from assms(3) obtain ys zs where "xs = ys @ edge_target e # zs"
    by (meson split_list)
  with assms(1,2) show ?thesis unfolding topo_sorted_def by fastforce
qed

definition kahn_inv ::
  "graph_edge list \<Rightarrow> string set \<Rightarrow> string list \<Rightarrow> counters \<Rightarrow> string list \<Rightarrow> bool" where
  "kahn_inv es K ready inc done \<longleftrightarrow>
     topo_sorted es done \<and> set done \<subseteq> K \<and> sorted_wrt (<) ready \<and>
     dom (bt_get inc) = K \<and>
     (\<forall>k\<in>K. bt_get inc k = Some (int (edge_count es done k))) \<and>
     set ready = {k\<in>K. k \<notin> set done \<and> edge_count es done k = 0}"

lemma count_successors:
  "count_list (map edge_target (filter (\<lambda>e. edge_source e = n) es)) k
     = length (filter (\<lambda>e. edge_source e = n \<and> edge_target e = k) es)"
  by (induction es) auto

lemma edge_count_snoc:
  assumes "n \<notin> set done"
  shows "edge_count es done k = edge_count es (done @ [n]) k
     + count_list (map edge_target (filter (\<lambda>e. edge_source e = n) es)) k"
  unfolding count_successors edge_count_def
  using assms by (induction es) auto

lemma kahn_step:
  assumes inv: "kahn_inv es K (n # rest) inc done"
    and succ: "successors out n = map edge_target (filter (\<lambda>e. edge_source e = n) es)"
    and tgt: "\<forall>e\<in>set es. edge_target e \<in> K"
  shows "\<exists>ready' inc'. fold_res relax (successors out n) (rest, inc) = Inr (ready', inc')
     \<and> kahn_inv es K ready' inc' (done @ [n])"
proof -
  let ?vs = "successors out n"
  let ?inc' = "dec_list ?vs inc"
  have ready: "set (n # rest) = {k\<in>K. k \<notin> set done \<and> edge_count es done k = 0}"
    and inc: "\<And>k. k \<in> K \<Longrightarrow> bt_get inc k = Some (int (edge_count es done k))"
    and topo: "topo_sorted es done" and sorted: "sorted_wrt (<) (n # rest)"
    and sub: "set done \<subseteq> K" and dom: "dom (bt_get inc) = K"
    using inv unfolding kahn_inv_def by blast+
  have n: "n \<in> K" "n \<notin> set done" "edge_count es done n = 0"
    using ready by auto
  have split: "edge_count es done k = edge_count es (done @ [n]) k + count_list ?vs k" for k
    using edge_count_snoc [OF n(2)] succ by simp
  have vsK: "set ?vs \<subseteq> K"
    using tgt by (auto simp: succ)
  obtain ready' where r: "fold_res relax ?vs (rest, inc) = Inr (ready', ?inc')"
    "sorted_wrt (<) ready'"
    "set ready' = set rest \<union> {k\<in>set ?vs. bt_get ?inc' k = Some 0}"
    using relax_all [of ?vs inc rest] vsK inc split sorted by fastforce
  have inc': "bt_get ?inc' k = Some (int (edge_count es (done @ [n]) k))" if "k \<in> K" for k
    using that by (simp add: map_of_dec_list inc split)
  have n_src: "edge_source e \<in> set done" if "e \<in> set es" "edge_target e = n" for e
    using n(3) that by (auto simp: edge_count_0)
  have topo': "topo_sorted es (done @ [n])"
    by (rule topo_sorted_snoc) (use topo n n_src in auto)
  have vs_new: "k \<notin> set done \<and> k \<noteq> n" if "k \<in> set ?vs" for k
  proof -
    from that obtain e where e: "e \<in> set es" "edge_source e = n" "edge_target e = k"
      by (auto simp: succ)
    then show ?thesis
      using topo_sorted_closed [OF topo e(1)] n(2) n_src [OF e(1)] by auto
  qed
  have rest: "set rest = {k\<in>K. k \<notin> set (done @ [n]) \<and> edge_count es done k = 0}"
    using ready sorted by auto
  have vs_count: "k \<in> set ?vs" if "edge_count es done k \<noteq> edge_count es (done @ [n]) k" for k
    using that split [of k] by (metis add.right_neutral count_list_0_iff)
  have "set ready' = {k\<in>K. k \<notin> set (done @ [n]) \<and> edge_count es (done @ [n]) k = 0}"
  proof (intro set_eqI iffI)
    fix k
    assume "k \<in> set ready'"
    then consider "k \<in> set rest" | "k \<in> set ?vs" "bt_get ?inc' k = Some 0"
      using r(3) by auto
    then show "k \<in> {k\<in>K. k \<notin> set (done @ [n]) \<and> edge_count es (done @ [n]) k = 0}"
    proof cases
      case 1
      then show ?thesis using rest split [of k] by auto
    next
      case 2
      then show ?thesis using vs_new [of k] vsK inc' [of k] by auto
    qed
  next
    fix k
    assume k: "k \<in> {k\<in>K. k \<notin> set (done @ [n]) \<and> edge_count es (done @ [n]) k = 0}"
    show "k \<in> set ready'"
    proof (cases "edge_count es done k = 0")
      case True
      then show ?thesis using k rest r(3) by auto
    next
      case False
      then show ?thesis using k vs_count [of k] inc' [of k] r(3) by auto
    qed
  qed
  then have "kahn_inv es K ready' ?inc' (done @ [n])"
    unfolding kahn_inv_def
    using topo' n(1) sub r(2) inc' dom bt_keys_set [of ?inc'] bt_keys_set [of inc] by auto
  with r(1) show ?thesis by blast
qed

lemma kahn_loop_inv:
  assumes "kahn_inv es K ready inc done"
    and "\<And>n. successors out n = map edge_target (filter (\<lambda>e. edge_source e = n) es)"
    and "\<forall>e\<in>set es. edge_target e \<in> K"
  shows "\<exists>ord inc'. kahn_loop out ready inc done = Inr ord \<and> kahn_inv es K [] inc' ord"
  using assms(1,2)
proof (induction out ready inc "done" rule: kahn_loop.induct)
  case (1 out inc ord)
  then show ?case by auto
next
  case (2 out n rest inc ord)
  from kahn_step [OF 2(2) 2(3) assms(3)]
  obtain ready' inc' where step: "fold_res relax (successors out n) (rest, inc) = Inr (ready', inc')"
    and inv: "kahn_inv es K ready' inc' (ord @ [n])"
    by blast
  from 2(1) [OF step refl inv 2(3)] show ?case by (simp add: step)
qed

lemma bt_get_initial_counters:
  "bt_get (initial_counters g) k = (if k \<in> dom (bt_get (wg_nodes g)) then Some 0 else None)"
proof -
  have "bt_get (map (\<lambda>k. (k, 0::int)) ks) k = (if k \<in> set ks then Some 0 else None)" for ks
    by (induction ks) auto
  then show ?thesis
    by (simp only: initial_counters_def bt_keys_set)
qed

lemma bt_keys_initial_counters [simp]: "bt_keys (initial_counters g) = bt_keys (wg_nodes g)"
  by (simp add: initial_counters_def bt_keys_def comp_def)

lemma ready_nodes:
  assumes "distinct (bt_keys inc)"
  shows "set (List.map_filter (\<lambda>(node_id, count). if count = 0 then Some node_id else None) inc)
    = {k. bt_get inc k = Some (0::int)}"
  using assms
  by (auto simp: map_filter_def bt_keys_def image_iff split: if_splits intro: map_of_SomeI
      dest!: map_of_SomeD)

text \<open>Everything the loop leaves: the nodes of a maximal topologically sorted prefix.\<close>

lemma topological_order_cases:
  assumes wf: "bt_wf (wg_nodes g)"
    and tgt: "\<forall>e\<in>set (wg_edges g). edge_target e \<in> dom (bt_get (wg_nodes g))"
  shows "\<exists>ord. topo_sorted (wg_edges g) ord \<and> set ord \<subseteq> dom (bt_get (wg_nodes g)) \<and>
     (\<forall>k\<in>dom (bt_get (wg_nodes g)) - set ord. edge_count (wg_edges g) ord k \<noteq> 0) \<and>
     topological_order g =
       (if length ord \<noteq> length (wg_nodes g) then Inl GE_CycleDetected else Inr ord)"
proof -
  let ?es = "wg_edges g" and ?K = "dom (bt_get (wg_nodes g))"
  from fold_count_edge_ok [of ?es "initial_counters g" "[]"] tgt
  obtain inc out where f: "fold_res count_edge ?es (initial_counters g, []) = Inr (inc, out)"
    by (auto simp: bt_get_initial_counters dom_def)
  note keys = fold_count_edge(1) [OF f] and count = fold_count_edge(2) [OF f]
    and succ = fold_count_edge(3) [OF f]
  have dom: "dom (bt_get inc) = ?K"
    using keys bt_keys_set [of inc] bt_keys_set [of "wg_nodes g"] by simp
  have dist: "distinct (bt_keys inc)"
    using keys btm.distinct_keys [OF wf] by simp
  have inc: "bt_get inc k = Some (int (edge_count ?es [] k))" if "k \<in> ?K" for k
    using that by (simp add: count bt_get_initial_counters)
  have zero: "bt_get inc k = Some 0 \<longleftrightarrow> k \<in> ?K \<and> edge_count ?es [] k = 0" for k
    using inc [of k] by (cases "k \<in> ?K") (auto simp flip: dom)
  let ?ready = "bs_from_list (List.map_filter
    (\<lambda>(node_id, count). if count = 0 then Some node_id else None) inc)"
  have "set ?ready = {k\<in>?K. k \<notin> set [] \<and> edge_count ?es [] k = 0}"
    unfolding set_bs_from_list ready_nodes [OF dist] zero by simp
  then have inv: "kahn_inv ?es ?K ?ready inc []"
    unfolding kahn_inv_def using inc dom by (simp add: bs_from_list_sorted)
  have out: "successors out n = map edge_target (filter (\<lambda>e. edge_source e = n) ?es)" for n
    using succ [of n] by (simp add: successors_def [of "[]"])
  from kahn_loop_inv [OF inv out tgt]
  obtain ord inc' where loop: "kahn_loop out ?ready inc [] = Inr ord"
    and final: "kahn_inv ?es ?K [] inc' ord" by blast
  have "topological_order g =
       (if length ord \<noteq> length (wg_nodes g) then Inl GE_CycleDetected else Inr ord)"
    by (simp add: topological_order_def f loop Let_def)
  moreover have "\<forall>k\<in>?K - set ord. edge_count ?es ord k \<noteq> 0"
    using final unfolding kahn_inv_def by auto
  ultimately show ?thesis
    using final unfolding kahn_inv_def by blast
qed

section \<open>What the order promises\<close>

text \<open>The interface the planner and the scheduler rely on: an order that lists every node once,
  every source before its targets.\<close>

definition valid_order :: "workflow_graph \<Rightarrow> string list \<Rightarrow> bool" where
  "valid_order g xs \<longleftrightarrow> topo_sorted (wg_edges g) xs \<and> set xs = dom (bt_get (wg_nodes g))"

lemma valid_order_acyclic:
  assumes "valid_order g xs" "endpoints_ok g"
  shows "acyclic (edge_rel g)"
proof -
  define pos where "pos k = length (takeWhile (\<lambda>x. x \<noteq> k) xs)" for k
  have less: "pos a < pos b" if ab: "(a, b) \<in> edge_rel g" for a b
  proof -
    from ab obtain e where e: "e \<in> set (wg_edges g)" "edge_source e = a" "edge_target e = b"
      by (auto simp: edge_rel_def)
    with assms have "b \<in> set xs"
      by (auto simp: valid_order_def endpoints_ok_def)
    then obtain ys zs where xs: "xs = ys @ b # zs" "b \<notin> set ys"
      by (meson split_list_first)
    with assms(1) e have "a \<in> set ys"
      unfolding valid_order_def topo_sorted_def by blast
    then obtain us vs where ys: "ys = us @ a # vs" "a \<notin> set us"
      by (meson split_list_first)
    have "pos b = length ys" using xs by (simp add: pos_def takeWhile_append)
    moreover have "pos a = length us" using xs ys by (simp add: pos_def takeWhile_append)
    ultimately show ?thesis using ys by simp
  qed
  have "edge_rel g \<subseteq> measure pos" using less by auto
  then show ?thesis
    using wf_acyclic wf_subset wf_measure by blast
qed

lemma topological_order_valid:
  assumes "bt_wf (wg_nodes g)" "endpoints_ok g" "topological_order g = Inr xs"
  shows "valid_order g xs"
proof -
  have tgt: "\<forall>e\<in>set (wg_edges g). edge_target e \<in> dom (bt_get (wg_nodes g))"
    using assms(2) by (simp add: endpoints_ok_def)
  from topological_order_cases [OF assms(1) tgt] assms(3)
  have xs: "topo_sorted (wg_edges g) xs" "set xs \<subseteq> dom (bt_get (wg_nodes g))"
    "length xs = length (wg_nodes g)"
    by (auto split: if_splits)
  have "card (set xs) = card (dom (bt_get (wg_nodes g)))"
    using xs(1,3) btm.length_keys [OF assms(1)]
    by (simp add: topo_sorted_def distinct_card bt_keys_def)
  then show ?thesis
    using xs by (simp add: valid_order_def card_subset_eq finite_dom_map_of)
qed

lemma acyclic_order_exists:
  assumes wf: "bt_wf (wg_nodes g)" and ends: "endpoints_ok g" and acyc: "acyclic (edge_rel g)"
  shows "\<exists>xs. topological_order g = Inr xs"
proof -
  let ?K = "dom (bt_get (wg_nodes g))"
  have tgt: "\<forall>e\<in>set (wg_edges g). edge_target e \<in> ?K"
    using ends by (simp add: endpoints_ok_def)
  from topological_order_cases [OF wf tgt] obtain ord where ord:
    "topo_sorted (wg_edges g) ord" "set ord \<subseteq> ?K"
    "\<forall>k\<in>?K - set ord. edge_count (wg_edges g) ord k \<noteq> 0"
    "topological_order g =
       (if length ord \<noteq> length (wg_nodes g) then Inl GE_CycleDetected else Inr ord)"
    by blast
  have fin: "finite (edge_rel g)" by (simp add: edge_rel_def)
  have "?K - set ord = {}"
  proof (rule ccontr)
    assume "?K - set ord \<noteq> {}"
    then obtain k where k: "k \<in> ?K - set ord" by blast
    from wfE_min [OF finite_acyclic_wf [OF fin acyc] k]
    obtain m where m: "m \<in> ?K - set ord" "\<And>y. (y, m) \<in> edge_rel g \<Longrightarrow> y \<notin> ?K - set ord"
      by blast
    from m(1) ord(3) have "edge_count (wg_edges g) ord m \<noteq> 0" by blast
    then obtain e where e: "e \<in> set (wg_edges g)" "edge_target e = m" "edge_source e \<notin> set ord"
      by (auto simp: edge_count_0)
    moreover have "edge_source e \<in> ?K"
      using ends e(1) by (auto simp: endpoints_ok_def)
    moreover have "(edge_source e, m) \<in> edge_rel g"
      using e by (force simp: edge_rel_def)
    ultimately show False using m(2) by blast
  qed
  with ord(2) have "set ord = ?K" by blast
  then have "length ord = length (wg_nodes g)"
    using ord(1) btm.length_keys [OF wf]
    by (metis bt_keys_def distinct_card length_map topo_sorted_def)
  with ord(4) show ?thesis by simp
qed

subsection \<open>The order as an interface\<close>

text \<open>\<open>compile_plan\<close> and the scheduler use an order only through this contract.\<close>

locale execution_order =
  fixes order :: "workflow_graph \<Rightarrow> graph_error + string list"
  assumes order_valid:
    "bt_wf (wg_nodes g) \<Longrightarrow> endpoints_ok g \<Longrightarrow> order g = Inr xs \<Longrightarrow> valid_order g xs"
    and order_total:
    "bt_wf (wg_nodes g) \<Longrightarrow> endpoints_ok g \<Longrightarrow> acyclic (edge_rel g) \<Longrightarrow> \<exists>xs. order g = Inr xs"
begin

lemma succeeds_iff:
  assumes "bt_wf (wg_nodes g)" "endpoints_ok g"
  shows "is_ok (order g) \<longleftrightarrow> acyclic (edge_rel g)"
  using order_valid [OF assms] order_total [OF assms] valid_order_acyclic [OF _ assms(2)]
  by (auto simp: is_ok_iff)

lemma each_node_once:
  assumes "bt_wf (wg_nodes g)" "endpoints_ok g" "order g = Inr xs"
  shows "distinct xs" "set xs = dom (bt_get (wg_nodes g))"
  using order_valid [OF assms] by (auto simp: valid_order_def topo_sorted_def)

lemma source_first:
  assumes "bt_wf (wg_nodes g)" "endpoints_ok g" "order g = Inr (ys @ k # zs)"
    and "e \<in> set (wg_edges g)" "edge_target e = k"
  shows "edge_source e \<in> set ys"
  using order_valid [OF assms(1-3)] assms(4,5)
  unfolding valid_order_def topo_sorted_def by blast

end

interpretation kahn: execution_order topological_order
  by unfold_locales (auto intro: topological_order_valid acyclic_order_exists)

section \<open>Properties\<close>

definition sample_node :: "string \<Rightarrow> graph_node" where
  "sample_node t = \<lparr>gn_node_type = t, gn_title = t, gn_params = JObject [], gn_pos = (Fin 0, Fin 0),
     gn_size = None, gn_semantics = None\<rparr>"

definition sample_edge :: "string \<Rightarrow> string \<Rightarrow> string \<Rightarrow> string \<Rightarrow> string \<Rightarrow> graph_edge" where
  "sample_edge a p b q t = \<lparr>ge_from = (a, p), ge_to = (b, q), ge_type = t\<rparr>"

definition sample_chain :: workflow_graph where
  "sample_chain = \<lparr>wg_schema_version = 1, wg_catalog_revision = None,
     wg_nodes = [(''a'', sample_node ''text''), (''b'', sample_node ''image'')],
     wg_edges = [sample_edge ''b'' ''out'' ''a'' ''in'' ''image'']\<rparr>"

definition sample_loop :: workflow_graph where
  "sample_loop = sample_chain \<lparr>wg_edges := [sample_edge ''b'' ''out'' ''a'' ''in'' ''image'',
     sample_edge ''a'' ''out'' ''b'' ''in'' ''text'']\<rparr>"

lemmas sample_graph_defs = sample_node_def sample_edge_def sample_chain_def sample_loop_def

text \<open>C2: on a graph whose edges join existing nodes, \<open>topological_order\<close> either lists every node
  exactly once with the source of every edge before its target, or reports
  \<open>CycleDetected\<close> and no other error.\<close>

theorem topological_order_correct:
  assumes "bt_wf (wg_nodes g)" "endpoints_ok g"
  shows "case topological_order g of
      Inl e \<Rightarrow> e = GE_CycleDetected
    | Inr xs \<Rightarrow> distinct xs \<and> set xs = dom (bt_get (wg_nodes g)) \<and>
        (\<forall>ys k zs. xs = ys @ k # zs \<longrightarrow>
           (\<forall>e\<in>set (wg_edges g). edge_target e = k \<longrightarrow> edge_source e \<in> set ys))"
proof (cases "topological_order g")
  case (Inl e)
  have "\<forall>e\<in>set (wg_edges g). edge_target e \<in> dom (bt_get (wg_nodes g))"
    using assms(2) by (simp add: endpoints_ok_def)
  from topological_order_cases [OF assms(1) this] Inl show ?thesis
    by (auto split: if_splits)
next
  case (Inr xs)
  with kahn.order_valid [OF assms Inr] show ?thesis
    by (simp add: valid_order_def topo_sorted_def)
qed

lemma topological_order_correct_witness:
  "(case topological_order sample_chain of
      Inl e \<Rightarrow> e = GE_CycleDetected
    | Inr xs \<Rightarrow> distinct xs \<and> set xs = dom (bt_get (wg_nodes sample_chain)) \<and>
        (\<forall>ys k zs. xs = ys @ k # zs \<longrightarrow>
           (\<forall>e\<in>set (wg_edges sample_chain). edge_target e = k \<longrightarrow> edge_source e \<in> set ys)))
   \<and> topological_order sample_chain = Inr [''b'', ''a'']"
proof
  show "topological_order sample_chain = Inr [''b'', ''a'']"
    by (simp add: sample_graph_defs topological_order_def initial_counters_def bt_keys_def
        count_edge_def bt_contains_def push_entry_def bs_from_list_def map_filter_def
        successors_def relax_def)
qed (rule topological_order_correct; simp add: sample_graph_defs endpoints_ok_def)

text \<open>\<open>has_cycle\<close> decides cyclicity: it holds exactly when some node reaches itself along
  edges.\<close>

theorem has_cycle_iff:
  assumes "bt_wf (wg_nodes g)" "endpoints_ok g"
  shows "has_cycle g \<longleftrightarrow> (\<exists>k. (k, k) \<in> (edge_rel g)\<^sup>+)"
  using kahn.succeeds_iff [OF assms] by (simp add: has_cycle_def acyclic_def)

lemma has_cycle_iff_witness:
  "has_cycle sample_loop \<and> (\<exists>k. (k, k) \<in> (edge_rel sample_loop)\<^sup>+)"
proof -
  have "has_cycle sample_loop \<longleftrightarrow> (\<exists>k. (k, k) \<in> (edge_rel sample_loop)\<^sup>+)"
    by (rule has_cycle_iff; simp add: sample_graph_defs endpoints_ok_def)
  moreover have "has_cycle sample_loop"
    by (simp add: has_cycle_def sample_graph_defs topological_order_def initial_counters_def
        bt_keys_def count_edge_def bt_contains_def push_entry_def bs_from_list_def map_filter_def
        successors_def relax_def)
  ultimately show ?thesis by simp
qed

end
