(* ===== verification/Graph_Service.thy ===== *)
theory Graph_Service
  imports Topo
begin

text \<open>
  \<open>GraphService\<close> (crates/graph/src/lib.rs) and the lineage edge of semantics.rs: validation of a
  graph, the proposal operations, preview and application of a proposal, and the execution plan.
  The structural comparison of two JSON values (crate \<open>palim\<close>) is the parameter \<open>compare\<close>.
\<close>

section \<open>Validation\<close>

definition invalid_size :: "graph_node \<Rightarrow> bool" where
  "invalid_size n = (case gn_size n of
     None \<Rightarrow> False
   | Some (w, h) \<Rightarrow> \<not> fp_is_finite w \<or> \<not> fp_is_finite h \<or> fp_le w (Fin 0) \<or> fp_le h (Fin 0))"

definition input_connected :: "workflow_graph \<Rightarrow> string \<Rightarrow> string \<Rightarrow> bool" where
  "input_connected g node_id port = list_ex (\<lambda>e. ge_to e = (node_id, port)) (wg_edges g)"

definition provided_by_param :: "graph_node \<Rightarrow> string \<Rightarrow> bool" where
  "provided_by_param n port = (case as_object (gn_params n) of
     None \<Rightarrow> False
   | Some m \<Rightarrow> (case bt_get m port of None \<Rightarrow> False | Some v \<Rightarrow> \<not> is_null v))"

definition validate_required_input ::
  "workflow_graph \<Rightarrow> string \<Rightarrow> graph_node \<Rightarrow> port_definition \<Rightarrow> graph_error + unit" where
  "validate_required_input g node_id n input =
     (if \<not> input_connected g node_id (pd_name input) \<and> \<not> provided_by_param n (pd_name input)
      then Inl (GE_MissingRequiredInput node_id (pd_name input)) else Inr ())"

definition validate_node ::
  "node_registry \<Rightarrow> bool \<Rightarrow> workflow_graph \<Rightarrow> string \<times> graph_node \<Rightarrow> graph_error + unit" where
  "validate_node reg allow_unknown g p = (case p of (node_id, n) \<Rightarrow>
     if invalid_size n then Inl (GE_InvalidNodeSize node_id)
     else case registry_definition reg (gn_node_type n) of
         Inl err \<Rightarrow> if allow_unknown then Inr () else Inl (GE_Registry err)
       | Inr d \<Rightarrow>
           res_bind (map_err GE_Registry (validate_node_params reg (gn_node_type n) (gn_params n)))
             (\<lambda>_. check_all (validate_required_input g node_id n) (filter pd_required (nd_inputs d))))"

definition is_reference_input :: "port_definition \<Rightarrow> bool" where
  "is_reference_input p \<longleftrightarrow> pd_name p = ''in'' \<and> \<not> pd_required p \<and> pd_cardinality p = Many"

definition edge_type_matches :: "port_type \<Rightarrow> port_type \<Rightarrow> string \<Rightarrow> bool" where
  "edge_type_matches from to edge_type =
     (if edge_type = ''artifact'' then to = Json
      else from = to \<and> edge_type = port_type_label from)"

definition edge_type_ok :: "port_definition \<Rightarrow> port_definition \<Rightarrow> string \<Rightarrow> bool" where
  "edge_type_ok from_port to_port edge_type =
     (if is_reference_input to_port then edge_type = port_type_label (pd_type from_port)
      else edge_type_matches (pd_type from_port) (pd_type to_port) edge_type)"

definition find_port :: "port_definition list \<Rightarrow> string \<Rightarrow> port_definition option" where
  "find_port ports name = List.find (\<lambda>p. pd_name p = name) ports"

text \<open>The checks of one edge whose end nodes have known types, and then the whole loop body.\<close>

definition validate_ports ::
  "graph_edge \<Rightarrow> node_definition \<Rightarrow> node_definition \<Rightarrow> (string \<times> string) btree_set
   \<Rightarrow> graph_error + (string \<times> string) btree_set" where
  "validate_ports e from_def to_def conns =
     res_bind (ok_or (find_port (nd_outputs from_def) (snd (ge_from e)))
                 (GE_MissingPort (fst (ge_from e)) (snd (ge_from e)))) (\<lambda>from_port.
     res_bind (ok_or (find_port (nd_inputs to_def) (snd (ge_to e)))
                 (GE_MissingPort (fst (ge_to e)) (snd (ge_to e)))) (\<lambda>to_port.
       if pd_cardinality to_port = One \<and> ge_to e \<in> set conns
       then Inl (GE_DuplicateInputConnection (fst (ge_to e)) (snd (ge_to e)))
       else if \<not> edge_type_ok from_port to_port (ge_type e)
       then Inl (GE_PortTypeMismatch (ge_from e) (ge_to e))
       else Inr (if pd_cardinality to_port = One then bs_insert (ge_to e) conns else conns)))"

definition validate_edge ::
  "node_registry \<Rightarrow> bool \<Rightarrow> workflow_graph \<Rightarrow> graph_edge \<Rightarrow> (string \<times> string) btree_set
   \<Rightarrow> graph_error + (string \<times> string) btree_set" where
  "validate_edge reg allow_unknown g e conns =
     res_bind (ok_or (bt_get (wg_nodes g) (edge_source e)) (GE_MissingEndpoint (edge_source e)))
       (\<lambda>from_node.
     res_bind (ok_or (bt_get (wg_nodes g) (edge_target e)) (GE_MissingEndpoint (edge_target e)))
       (\<lambda>to_node.
       case registry_definition reg (gn_node_type from_node) of
         Inl err \<Rightarrow> if allow_unknown then Inr conns else Inl (GE_Registry err)
       | Inr from_def \<Rightarrow>
           (case registry_definition reg (gn_node_type to_node) of
              Inl err \<Rightarrow> if allow_unknown then Inr conns else Inl (GE_Registry err)
            | Inr to_def \<Rightarrow> validate_ports e from_def to_def conns)))"

definition validate_graph_inner ::
  "node_registry \<Rightarrow> workflow_graph \<Rightarrow> bool \<Rightarrow> graph_error + unit" where
  "validate_graph_inner reg g allow_unknown =
     (if wg_schema_version g \<noteq> 1 then Inl (GE_UnsupportedSchema (wg_schema_version g))
      else res_bind (check_all (validate_node reg allow_unknown g) (wg_nodes g)) (\<lambda>_.
           res_bind (fold_res (validate_edge reg allow_unknown g) (wg_edges g) []) (\<lambda>_.
             if has_cycle g then Inl GE_CycleDetected else Inr ())))"

definition validate_graph :: "node_registry \<Rightarrow> workflow_graph \<Rightarrow> graph_error + unit" where
  "validate_graph reg g = validate_graph_inner reg g False"

definition validate_graph_for_migration :: "node_registry \<Rightarrow> workflow_graph \<Rightarrow> graph_error + unit" where
  "validate_graph_for_migration reg g = validate_graph_inner reg g True"

section \<open>Lineage edges\<close>

record lineage_ports =
  lp_source_port :: string
  lp_target_port :: string
  lp_edge_type :: string

definition lineage_ports_of :: "port_definition \<Rightarrow> string \<Rightarrow> lineage_ports" where
  "lineage_ports_of output target_port =
     \<lparr>lp_source_port = pd_name output, lp_target_port = target_port,
      lp_edge_type = port_type_label (pd_type output)\<rparr>"

text \<open>A loop over the outputs that returns at the first one with a partner.\<close>

fun first_match :: "('a \<Rightarrow> 'b option) \<Rightarrow> 'a list \<Rightarrow> 'b option" where
  "first_match f [] = None"
| "first_match f (x # xs) = (case f x of Some y \<Rightarrow> Some y | None \<Rightarrow> first_match f xs)"

definition matching_connection_ports ::
  "node_definition \<Rightarrow> node_definition \<Rightarrow> lineage_ports option" where
  "matching_connection_ports source target =
     (let outputs = nd_outputs source;
          ref_port = List.find (\<lambda>i. pd_name i = ''in'') (nd_inputs target);
          execution_inputs = filter (\<lambda>i. pd_name i \<noteq> ''in'') (nd_inputs target)
      in case first_match (\<lambda>output.
             map_option (\<lambda>i. lineage_ports_of output (pd_name i))
               (List.find (\<lambda>p. pd_type p = pd_type output) execution_inputs)) outputs of
           Some ports \<Rightarrow> Some ports
         | None \<Rightarrow>
             (case first_match (\<lambda>output. case ref_port of
                  None \<Rightarrow> None
                | Some r \<Rightarrow> if pd_type r = pd_type output
                            then Some (lineage_ports_of output (pd_name r)) else None) outputs of
                Some ports \<Rightarrow> Some ports
              | None \<Rightarrow>
                  (case (ref_port, outputs) of
                     (Some r, output # _) \<Rightarrow> Some (lineage_ports_of output (pd_name r))
                   | _ \<Rightarrow> None)))"

definition spawn_derived ::
  "node_registry \<Rightarrow> workflow_graph \<Rightarrow> string \<Rightarrow> graph_node \<Rightarrow> string \<Rightarrow> graph_error + workflow_graph" where
  "spawn_derived reg g node_id n from =
     (if from = node_id then Inl (GE_NoLineageConnection from node_id)
      else res_bind (ok_or (bt_get (wg_nodes g) from) (GE_MissingNode from)) (\<lambda>source.
        if bt_contains (wg_nodes g) node_id then Inl (GE_DuplicateNode node_id)
        else
          res_bind (map_err GE_Registry (registry_definition reg (gn_node_type source))) (\<lambda>source_def.
          res_bind (map_err GE_Registry (registry_definition reg (gn_node_type n))) (\<lambda>target_def.
          res_bind (ok_or (matching_connection_ports source_def target_def)
                      (GE_NoLineageConnection from node_id)) (\<lambda>ports.
            Inr (g\<lparr>wg_nodes := bt_insert node_id n (wg_nodes g),
                   wg_edges := wg_edges g @ [\<lparr>ge_from = (from, lp_source_port ports),
                     ge_to = (node_id, lp_target_port ports), ge_type = lp_edge_type ports\<rparr>]\<rparr>))))))"

section \<open>Proposal operations\<close>

text \<open>\<open>get_mut(id).ok_or(MissingNode)\<close> followed by an update of the node.\<close>

definition update_node ::
  "string \<Rightarrow> (graph_node \<Rightarrow> graph_node) \<Rightarrow> workflow_graph \<Rightarrow> graph_error + workflow_graph" where
  "update_node node_id f g =
     (if bt_contains (wg_nodes g) node_id
      then Inr (g\<lparr>wg_nodes := bt_modify node_id f (wg_nodes g)\<rparr>)
      else Inl (GE_MissingNode node_id))"

definition set_param ::
  "workflow_graph \<Rightarrow> string \<Rightarrow> string \<Rightarrow> json option \<Rightarrow> json \<Rightarrow> graph_error + workflow_graph" where
  "set_param g node_id key prev v =
     res_bind (ok_or (bt_get (wg_nodes g) node_id) (GE_MissingNode node_id)) (\<lambda>n.
     res_bind (ok_or (as_object (gn_params n)) (GE_ParamsNotObject node_id)) (\<lambda>params.
       if prev \<noteq> None \<and> bt_get params key \<noteq> prev then Inl (GE_SetParamConflict node_id key)
       else Inr (g\<lparr>wg_nodes := bt_modify node_id
                (\<lambda>n. n\<lparr>gn_params := JObject (bt_insert key v params)\<rparr>) (wg_nodes g)\<rparr>)))"

text \<open>An operation that fails may leave the candidate changed in the code (\<open>AddNode\<close> has replaced
  the node when it reports a duplicate); callers discard it, so the model keeps the error only.\<close>

fun apply_op_in_place ::
  "node_registry \<Rightarrow> proposal_op \<Rightarrow> workflow_graph \<Rightarrow> graph_error + workflow_graph" where
  "apply_op_in_place reg (AddNode i n) g =
     (if bt_contains (wg_nodes g) i then Inl (GE_DuplicateNode i)
      else Inr (g\<lparr>wg_nodes := bt_insert i n (wg_nodes g)\<rparr>))"
| "apply_op_in_place reg (RemoveNode i) g =
     (if bt_contains (wg_nodes g) i
      then Inr (g\<lparr>wg_nodes := bt_remove i (wg_nodes g),
                  wg_edges := filter (\<lambda>e. edge_source e \<noteq> i \<and> edge_target e \<noteq> i) (wg_edges g)\<rparr>)
      else Inl (GE_MissingNode i))"
| "apply_op_in_place reg (SetParam i key prev v) g = set_param g i key prev v"
| "apply_op_in_place reg (AddEdge e) g = Inr (g\<lparr>wg_edges := wg_edges g @ [e]\<rparr>)"
| "apply_op_in_place reg (RemoveEdge e) g =
     (let kept = filter (\<lambda>candidate. candidate \<noteq> e) (wg_edges g) in
      if length kept = length (wg_edges g) then Inl (GE_MissingEdge e)
      else Inr (g\<lparr>wg_edges := kept\<rparr>))"
| "apply_op_in_place reg (MoveNode i pos) g = update_node i (\<lambda>n. n\<lparr>gn_pos := pos\<rparr>) g"
| "apply_op_in_place reg (ResizeNode i sz) g = update_node i (\<lambda>n. n\<lparr>gn_size := Some sz\<rparr>) g"
| "apply_op_in_place reg (SetSemantics i sem) g = update_node i (\<lambda>n. n\<lparr>gn_semantics := sem\<rparr>) g"
| "apply_op_in_place reg (SpawnNode i n from) g = spawn_derived reg g i n from"

definition apply_ops ::
  "node_registry \<Rightarrow> workflow_graph \<Rightarrow> proposal_op list \<Rightarrow> graph_error + workflow_graph" where
  "apply_ops reg g ops = fold_res (apply_op_in_place reg) ops g"

section \<open>The graph as JSON, and the diff summary\<close>

text \<open>\<open>serde_json::to_value\<close> of an \<open>f32\<close>: a finite value as the \<open>f64\<close> it is, anything else
  as \<open>null\<close>.\<close>

definition json_of_f32 :: "f32 \<Rightarrow> json" where
  "json_of_f32 x = (case x of Fin q \<Rightarrow> JNumber (Float q) | _ \<Rightarrow> JNull)"

definition json_of_point :: "f32 \<times> f32 \<Rightarrow> json" where
  "json_of_point p = JArray [json_of_f32 (fst p), json_of_f32 (snd p)]"

fun implementation_to_json :: "implementation_selection \<Rightarrow> json" where
  "implementation_to_json (Pinned m b) =
     json_object [(''pinned'', json_object [(''requestedModelId'', JString m), (''bindingId'', JString b)])]"
| "implementation_to_json (Policy p c) =
     json_object [(''policy'', json_object [(''policyId'', JString p), (''constraints'', c)])]"

definition semantics_to_json :: "node_semantics_entry \<Rightarrow> json" where
  "semantics_to_json s = json_object
     [(''capabilityId'', JString (ns_capability_id s)), (''mode'', JString (ns_mode s)),
      (''implementation'', implementation_to_json (ns_implementation s))]"

definition node_to_json :: "graph_node \<Rightarrow> json" where
  "node_to_json n = json_object
     ([(''node_type'', JString (gn_node_type n)), (''title'', JString (gn_title n)),
       (''params'', gn_params n), (''pos'', json_of_point (gn_pos n))] @
      (case gn_size n of None \<Rightarrow> [] | Some s \<Rightarrow> [(''size'', json_of_point s)]) @
      (case gn_semantics n of None \<Rightarrow> [] | Some s \<Rightarrow> [(''semantics'', semantics_to_json s)]))"

definition edge_to_json :: "graph_edge \<Rightarrow> json" where
  "edge_to_json e = json_object
     [(''from'', JArray [JString (fst (ge_from e)), JString (snd (ge_from e))]),
      (''to'', JArray [JString (fst (ge_to e)), JString (snd (ge_to e))]),
      (''edge_type'', JString (ge_type e))]"

definition graph_to_json :: "workflow_graph \<Rightarrow> json" where
  "graph_to_json g = json_object
     ([(''schema_version'', JNumber (PosInt (ucast (wg_schema_version g)))),
       (''nodes'', JObject (map (\<lambda>(i, n). (i, node_to_json n)) (wg_nodes g))),
       (''edges'', JArray (map edge_to_json (wg_edges g)))] @
      (case wg_catalog_revision g of None \<Rightarrow> [] | Some r \<Rightarrow> [(''catalog_revision'', JString r)]))"

record json_difference =
  jd_left :: "json option"
  jd_right :: "json option"
  jd_path :: string

type_synonym comparer = "json \<Rightarrow> json \<Rightarrow> string + json_difference list"

definition difference_line :: "json_difference \<Rightarrow> string" where
  "difference_line d =
     [if jd_left d = None then CHR ''+'' else if jd_right d = None then CHR ''-'' else CHR ''~'',
      CHR '' ''] @ jd_path d"

definition summarize_diff ::
  "comparer \<Rightarrow> workflow_graph \<Rightarrow> workflow_graph \<Rightarrow> graph_error + string list" where
  "summarize_diff compare base preview =
     res_bind (map_err GE_DiffSummary (compare (graph_to_json base) (graph_to_json preview)))
       (\<lambda>differences. Inr (map difference_line differences))"

section \<open>Proposals\<close>

definition preview_proposal ::
  "comparer \<Rightarrow> node_registry \<Rightarrow> workflow_graph \<Rightarrow> string \<Rightarrow> proposal_draft
   \<Rightarrow> graph_error + prepared_proposal" where
  "preview_proposal compare reg base current_version_id draft =
     (if dr_base_version_id draft \<noteq> current_version_id
      then Inl (GE_ProposalSuperseded (dr_base_version_id draft) current_version_id)
      else res_bind (apply_ops reg base (dr_ops draft)) (\<lambda>preview.
           res_bind (validate_graph reg preview) (\<lambda>_.
           res_bind (summarize_diff compare base preview) (\<lambda>summary.
             Inr \<lparr>pp_base_version_id = dr_base_version_id draft, pp_kind = dr_kind draft,
                  pp_title = dr_title draft, pp_summary = dr_summary draft, pp_ops = dr_ops draft,
                  pp_diff_summary = summary, pp_preview_graph = preview, pp_state = StatePending,
                  pp_message_id = dr_message_id draft\<rparr>))))"

definition ensure_proposal_applies_to_current ::
  "prepared_proposal \<Rightarrow> string \<Rightarrow> graph_error + unit" where
  "ensure_proposal_applies_to_current p current_version_id =
     (if pp_state p \<noteq> StatePending then Inl GE_ProposalNotPending
      else if pp_base_version_id p \<noteq> current_version_id
      then Inl (GE_ProposalSuperseded (pp_base_version_id p) current_version_id)
      else Inr ())"

definition apply_proposal ::
  "node_registry \<Rightarrow> workflow_graph \<Rightarrow> string \<Rightarrow> prepared_proposal \<Rightarrow> graph_error + workflow_graph" where
  "apply_proposal reg base current_version_id p =
     res_bind (ensure_proposal_applies_to_current p current_version_id) (\<lambda>_.
     res_bind (apply_ops reg base (pp_ops p)) (\<lambda>g.
     res_bind (validate_graph reg g) (\<lambda>_. Inr g)))"

definition dismiss_proposal :: "workflow_graph \<Rightarrow> workflow_graph" where
  "dismiss_proposal base = base"

section \<open>The execution plan\<close>

definition step_inputs :: "workflow_graph \<Rightarrow> string \<Rightarrow> (string, (string \<times> string) list) btree_map" where
  "step_inputs g node_id =
     fold (\<lambda>e. push_entry (snd (ge_to e)) (ge_from e))
       (filter (\<lambda>e. edge_target e = node_id) (wg_edges g)) []"

definition compile_step ::
  "node_registry \<Rightarrow> workflow_graph \<Rightarrow> string \<Rightarrow> string \<Rightarrow> execution_step list
   \<Rightarrow> graph_error + execution_step list" where
  "compile_step reg g provider_id node_id steps =
     res_bind (ok_or (bt_get (wg_nodes g) node_id) (GE_MissingNode node_id)) (\<lambda>n.
     res_bind (map_err GE_Registry (registry_definition reg (gn_node_type n))) (\<lambda>d.
       Inr (steps @ [\<lparr>es_node_id = node_id, es_node_type = gn_node_type n,
         es_provider = map_option (\<lambda>_. provider_id) (nd_capability d),
         es_capability = nd_capability d, es_inputs = step_inputs g node_id,
         es_params = gn_params n, es_resolved = None\<rparr>])))"

definition compile_plan ::
  "node_registry \<Rightarrow> workflow_graph \<Rightarrow> string \<Rightarrow> string \<Rightarrow> graph_error + execution_plan" where
  "compile_plan reg g version_id provider_id =
     res_bind (validate_graph reg g) (\<lambda>_.
     res_bind (topological_order g) (\<lambda>order.
     res_bind (fold_res (compile_step reg g provider_id) order []) (\<lambda>steps.
       Inr \<lparr>ep_schema_version = 1, ep_version_id = version_id, ep_catalog_revision = None,
            ep_steps = steps\<rparr>)))"

text \<open>The older plan JSON: one source per port.\<close>

datatype one_or_many = OneSource "string \<times> string" | ManySources "(string \<times> string) list"

definition step_inputs_of_raw ::
  "(string, one_or_many) btree_map \<Rightarrow> (string, (string \<times> string) list) btree_map" where
  "step_inputs_of_raw raw = bt_from_list (map (\<lambda>(port, v).
     case v of OneSource s \<Rightarrow> (port, [s]) | ManySources ss \<Rightarrow> (port, ss)) raw)"

section \<open>What validation accepts\<close>

definition edge_ports ::
  "node_registry \<Rightarrow> workflow_graph \<Rightarrow> graph_edge \<Rightarrow> (port_definition \<times> port_definition) option" where
  "edge_ports reg g e =
     Option.bind (bt_get (wg_nodes g) (edge_source e)) (\<lambda>s.
     Option.bind (bt_get (wg_nodes g) (edge_target e)) (\<lambda>t.
     Option.bind (bt_get (reg_definitions reg) (gn_node_type s)) (\<lambda>sd.
     Option.bind (bt_get (reg_definitions reg) (gn_node_type t)) (\<lambda>td.
     Option.bind (find_port (nd_outputs sd) (snd (ge_from e))) (\<lambda>from_port.
     Option.bind (find_port (nd_inputs td) (snd (ge_to e))) (\<lambda>to_port.
       Some (from_port, to_port)))))))"

definition edge_well_typed :: "node_registry \<Rightarrow> workflow_graph \<Rightarrow> graph_edge \<Rightarrow> bool" where
  "edge_well_typed reg g e = (case edge_ports reg g e of
     None \<Rightarrow> False | Some (fp, tp) \<Rightarrow> edge_type_ok fp tp (ge_type e))"

definition edge_exclusive :: "node_registry \<Rightarrow> workflow_graph \<Rightarrow> graph_edge \<Rightarrow> bool" where
  "edge_exclusive reg g e = (case edge_ports reg g e of
     None \<Rightarrow> False | Some (_, tp) \<Rightarrow> pd_cardinality tp = One)"

definition exclusive_targets ::
  "node_registry \<Rightarrow> workflow_graph \<Rightarrow> graph_edge list \<Rightarrow> (string \<times> string) list" where
  "exclusive_targets reg g es = map ge_to (filter (edge_exclusive reg g) es)"

definition node_valid :: "node_registry \<Rightarrow> workflow_graph \<Rightarrow> string \<Rightarrow> graph_node \<Rightarrow> bool" where
  "node_valid reg g i n \<longleftrightarrow> \<not> invalid_size n \<and>
     (\<exists>d m. bt_get (reg_definitions reg) (gn_node_type n) = Some d \<and>
        gn_params n = JObject m \<and> params_conform (nd_params_schema d) m {} \<and>
        (\<forall>p\<in>set (nd_inputs d). pd_required p \<longrightarrow>
           input_connected g i (pd_name p) \<or> provided_by_param n (pd_name p)))"

definition graph_valid :: "node_registry \<Rightarrow> workflow_graph \<Rightarrow> bool" where
  "graph_valid reg g \<longleftrightarrow>
     wg_schema_version g = 1 \<and>
     (\<forall>(i, n)\<in>set (wg_nodes g). node_valid reg g i n) \<and>
     (\<forall>e\<in>set (wg_edges g). edge_well_typed reg g e) \<and>
     distinct (exclusive_targets reg g (wg_edges g)) \<and>
     acyclic (edge_rel g)"

lemma validate_node_ok [result_simps]:
  "validate_node reg False g (i, n) = Inr u \<longleftrightarrow> node_valid reg g i n"
proof -
  have "validate_required_input g i n p = Inr () \<longleftrightarrow>
      input_connected g i (pd_name p) \<or> provided_by_param n (pd_name p)" for p
    by (simp add: validate_required_input_def)
  then show ?thesis
    by (cases "bt_get (reg_definitions reg) (gn_node_type n)")
       (auto simp: validate_node_def node_valid_def registry_definition_def validate_node_params_def
         validate_params_def result_simps)
qed

lemma validate_ports_ok [result_simps]:
  "validate_ports e sd td conns = Inr conns' \<longleftrightarrow>
     (\<exists>fp tp. find_port (nd_outputs sd) (snd (ge_from e)) = Some fp \<and>
        find_port (nd_inputs td) (snd (ge_to e)) = Some tp \<and> edge_type_ok fp tp (ge_type e) \<and>
        (pd_cardinality tp = One \<longrightarrow> ge_to e \<notin> set conns) \<and>
        conns' = (if pd_cardinality tp = One then bs_insert (ge_to e) conns else conns))"
  by (auto simp: validate_ports_def result_simps)

lemma validate_edge_ok [result_simps]:
  "validate_edge reg False g e conns = Inr conns' \<longleftrightarrow>
     edge_well_typed reg g e \<and>
     (edge_exclusive reg g e \<longrightarrow> ge_to e \<notin> set conns) \<and>
     conns' = (if edge_exclusive reg g e then bs_insert (ge_to e) conns else conns)"
proof (cases "edge_ports reg g e")
  case None
  have "edge_ports reg g e \<noteq> None" if "validate_edge reg False g e conns = Inr c" for c
    using that
    by (auto simp: validate_edge_def edge_ports_def registry_definition_def ok_or_def
        validate_ports_ok split: option.splits)
  with None show ?thesis by (auto simp: edge_well_typed_def)
next
  case (Some pq)
  obtain fp tp where pq: "pq = (fp, tp)" by (cases pq)
  from Some obtain s t sd td where parts:
    "bt_get (wg_nodes g) (edge_source e) = Some s" "bt_get (wg_nodes g) (edge_target e) = Some t"
    "bt_get (reg_definitions reg) (gn_node_type s) = Some sd"
    "bt_get (reg_definitions reg) (gn_node_type t) = Some td"
    "find_port (nd_outputs sd) (snd (ge_from e)) = Some fp"
    "find_port (nd_inputs td) (snd (ge_to e)) = Some tp"
    by (auto simp: edge_ports_def pq bind_eq_Some_conv)
  then have "validate_edge reg False g e conns = validate_ports e sd td conns"
    by (simp add: validate_edge_def registry_definition_def)
  then show ?thesis
    by (simp add: result_simps parts edge_well_typed_def edge_exclusive_def Some pq)
qed

lemma fold_validate_edge_ok:
  "(\<exists>conns'. fold_res (validate_edge reg False g) es conns = Inr conns') \<longleftrightarrow>
     (\<forall>e\<in>set es. edge_well_typed reg g e) \<and> distinct (exclusive_targets reg g es) \<and>
     set (exclusive_targets reg g es) \<inter> set conns = {}"
proof (induction es arbitrary: conns)
  case Nil
  then show ?case by (simp add: exclusive_targets_def)
next
  case (Cons e es)
  show ?case
  proof (cases "validate_edge reg False g e conns")
    case (Inl err)
    then have "\<not> (edge_well_typed reg g e \<and> (edge_exclusive reg g e \<longrightarrow> ge_to e \<notin> set conns))"
      using validate_edge_ok [of reg g e conns] by auto
    then show ?thesis
      using Inl by (auto simp: exclusive_targets_def)
  next
    case (Inr conns1)
    then have "edge_well_typed reg g e" "edge_exclusive reg g e \<longrightarrow> ge_to e \<notin> set conns"
      "conns1 = (if edge_exclusive reg g e then bs_insert (ge_to e) conns else conns)"
      by (auto simp: result_simps)
    then show ?thesis
      using Cons.IH [of conns1] Inr by (auto simp: exclusive_targets_def)
  qed
qed

lemma edge_well_typed_ends:
  "edge_well_typed reg g e \<Longrightarrow>
     edge_source e \<in> dom (bt_get (wg_nodes g)) \<and> edge_target e \<in> dom (bt_get (wg_nodes g))"
  by (auto simp: edge_well_typed_def edge_ports_def bind_eq_Some_conv split: option.splits)

lemma well_typed_endpoints_ok:
  "\<forall>e\<in>set (wg_edges g). edge_well_typed reg g e \<Longrightarrow> endpoints_ok g"
  using edge_well_typed_ends unfolding endpoints_ok_def by blast

lemma validate_graph_ok:
  assumes "bt_wf (wg_nodes g)"
  shows "validate_graph reg g = Inr u \<longleftrightarrow> graph_valid reg g"
proof (cases "\<forall>e\<in>set (wg_edges g). edge_well_typed reg g e")
  case True
  have cyc: "has_cycle g \<longleftrightarrow> \<not> acyclic (edge_rel g)"
    using kahn.succeeds_iff [OF assms well_typed_endpoints_ok [OF True]] by (simp add: has_cycle_def)
  show ?thesis
    using fold_validate_edge_ok [of reg g "wg_edges g" "[]"] True cyc
    by (auto simp: validate_graph_def validate_graph_inner_def graph_valid_def result_simps
        split: if_splits)
next
  case False
  then show ?thesis
    using fold_validate_edge_ok [of reg g "wg_edges g" "[]"]
    by (auto simp: validate_graph_def validate_graph_inner_def graph_valid_def result_simps
        split: if_splits)
qed

lemma graph_valid_endpoints: "graph_valid reg g \<Longrightarrow> endpoints_ok g"
  using well_typed_endpoints_ok by (auto simp: graph_valid_def)

section \<open>The plan\<close>

definition incoming_sources :: "workflow_graph \<Rightarrow> string \<Rightarrow> string \<Rightarrow> (string \<times> string) list" where
  "incoming_sources g i port = map ge_from (filter (\<lambda>e. ge_to e = (i, port)) (wg_edges g))"

lemma fold_push_entry:
  "bt_get (fold (\<lambda>e. push_entry (k e) (v e)) es m) x =
     (let new = map v (filter (\<lambda>e. k e = x) es) in
      case bt_get m x of None \<Rightarrow> if new = [] then None else Some new | Some old \<Rightarrow> Some (old @ new))"
  by (induction es arbitrary: m) (auto simp: map_of_push_entry Let_def split: option.splits)

lemma step_inputs_lookup:
  "bt_get (step_inputs g i) port =
     (if incoming_sources g i port = [] then None else Some (incoming_sources g i port))"
proof -
  have "filter (\<lambda>e. snd (ge_to e) = port) (filter (\<lambda>e. edge_target e = i) (wg_edges g))
      = filter (\<lambda>e. ge_to e = (i, port)) (wg_edges g)"
    by (auto simp: prod_eq_iff intro: filter_cong)
  then show ?thesis
    by (simp add: step_inputs_def fold_push_entry incoming_sources_def Let_def)
qed

definition plan_step_of :: "workflow_graph \<Rightarrow> string \<Rightarrow> string \<Rightarrow> graph_node \<Rightarrow> node_definition \<Rightarrow> execution_step" where
  "plan_step_of g provider_id i n d =
     \<lparr>es_node_id = i, es_node_type = gn_node_type n,
      es_provider = map_option (\<lambda>_. provider_id) (nd_capability d), es_capability = nd_capability d,
      es_inputs = step_inputs g i, es_params = gn_params n, es_resolved = None\<rparr>"

definition is_plan_step :: "node_registry \<Rightarrow> workflow_graph \<Rightarrow> string \<Rightarrow> string \<Rightarrow> execution_step \<Rightarrow> bool" where
  "is_plan_step reg g provider_id i s \<longleftrightarrow>
     (\<exists>n d. bt_get (wg_nodes g) i = Some n \<and> bt_get (reg_definitions reg) (gn_node_type n) = Some d \<and>
        s = plan_step_of g provider_id i n d)"

lemma compile_step_ok [result_simps]:
  "compile_step reg g p i steps = Inr steps' \<longleftrightarrow>
     (\<exists>s. is_plan_step reg g p i s \<and> steps' = steps @ [s])"
  by (auto simp: compile_step_def is_plan_step_def plan_step_of_def result_simps)

lemma fold_compile_step:
  "fold_res (compile_step reg g p) order steps = Inr steps' \<Longrightarrow>
     \<exists>new. steps' = steps @ new \<and> list_all2 (is_plan_step reg g p) order new"
proof (induction order arbitrary: steps)
  case (Cons i order)
  then obtain steps1 where s1: "compile_step reg g p i steps = Inr steps1"
    "fold_res (compile_step reg g p) order steps1 = Inr steps'"
    by (auto split: sum.splits)
  from Cons.IH [OF s1(2)] s1(1) show ?case by (fastforce simp: result_simps)
qed simp

lemma fold_compile_step_total:
  assumes "\<forall>i\<in>set order. \<exists>s. is_plan_step reg g p i s"
  shows "\<exists>steps'. fold_res (compile_step reg g p) order steps = Inr steps'"
  using assms
proof (induction order arbitrary: steps)
  case (Cons i order)
  then obtain s where "is_plan_step reg g p i s" by auto
  then have "compile_step reg g p i steps = Inr (steps @ [s])"
    by (auto simp: result_simps)
  with Cons.IH [of "steps @ [s]"] Cons.prems show ?case by simp
qed simp

lemma graph_valid_node:
  assumes "bt_wf (wg_nodes g)" "graph_valid reg g" "i \<in> dom (bt_get (wg_nodes g))"
  obtains n d where "bt_get (wg_nodes g) i = Some n"
    "bt_get (reg_definitions reg) (gn_node_type n) = Some d" "node_valid reg g i n"
proof -
  from assms(3) obtain n where n: "bt_get (wg_nodes g) i = Some n" by auto
  then have "node_valid reg g i n"
    using assms(2) map_of_SomeD [OF n] by (auto simp: graph_valid_def)
  with n that show ?thesis by (auto simp: node_valid_def)
qed

lemma is_plan_step_id: "is_plan_step reg g p i s \<Longrightarrow> es_node_id s = i"
  by (auto simp: is_plan_step_def plan_step_of_def)

lemma is_plan_step_fields:
  assumes "is_plan_step reg g p i s"
  obtains n d where "bt_get (wg_nodes g) i = Some n"
    "bt_get (reg_definitions reg) (gn_node_type n) = Some d"
    "es_node_type s = gn_node_type n" "es_params s = gn_params n"
    "es_capability s = nd_capability d" "es_resolved s = None"
    "es_provider s = (if nd_capability d = None then None else Some p)"
    "es_inputs s = step_inputs g i"
  using assms by (auto simp: is_plan_step_def plan_step_of_def)

lemma plan_step_ids: "list_all2 (is_plan_step reg g p) order steps \<Longrightarrow> map es_node_id steps = order"
  by (induction rule: list_all2_induct) (simp_all add: is_plan_step_id)

lemma compile_plan_steps:
  assumes "compile_plan reg g v p = Inr plan"
  shows "validate_graph reg g = Inr ()"
    and "topological_order g = Inr (map es_node_id (ep_steps plan))"
    and "list_all2 (is_plan_step reg g p) (map es_node_id (ep_steps plan)) (ep_steps plan)"
    and "ep_version_id plan = v"
proof -
  from assms obtain order steps where o: "validate_graph reg g = Inr ()"
    "topological_order g = Inr order" "fold_res (compile_step reg g p) order [] = Inr steps"
    "ep_steps plan = steps" "ep_version_id plan = v"
    by (auto simp: compile_plan_def result_simps)
  from fold_compile_step [OF o(3)] o(4) have l: "list_all2 (is_plan_step reg g p) order (ep_steps plan)"
    by auto
  from plan_step_ids [OF l] o l
  show "validate_graph reg g = Inr ()"
    and "topological_order g = Inr (map es_node_id (ep_steps plan))"
    and "list_all2 (is_plan_step reg g p) (map es_node_id (ep_steps plan)) (ep_steps plan)"
    and "ep_version_id plan = v"
    by auto
qed

lemma compile_plan_succeeds:
  assumes wf: "bt_wf (wg_nodes g)"
  shows "is_ok (compile_plan reg g v p) \<longleftrightarrow> graph_valid reg g"
proof
  assume "is_ok (compile_plan reg g v p)"
  then show "graph_valid reg g"
    using compile_plan_steps(1) [of reg g v p] validate_graph_ok [OF wf] by (auto simp: is_ok_iff)
next
  assume valid: "graph_valid reg g"
  then have "validate_graph reg g = Inr ()" by (simp add: validate_graph_ok [OF wf])
  moreover obtain order where order: "topological_order g = Inr order"
    using kahn.order_total [OF wf graph_valid_endpoints [OF valid]] valid by (auto simp: graph_valid_def)
  moreover have "\<forall>i\<in>set order. \<exists>s. is_plan_step reg g p i s"
    using kahn.each_node_once(2) [OF wf graph_valid_endpoints [OF valid] order]
      graph_valid_node [OF wf valid]
    by (metis is_plan_step_def)
  then obtain steps where "fold_res (compile_step reg g p) order [] = Inr steps"
    using fold_compile_step_total by blast
  ultimately show "is_ok (compile_plan reg g v p)"
    by (simp add: compile_plan_def)
qed

section \<open>Operations keep the graph well formed\<close>

lemma update_node_ok [result_simps]:
  "update_node i f g = Inr g' \<longleftrightarrow> i \<in> dom (bt_get (wg_nodes g)) \<and>
     g' = g\<lparr>wg_nodes := bt_modify i f (wg_nodes g)\<rparr>"
  by (auto simp: update_node_def btree_simps)

lemma set_param_ok [result_simps]:
  "set_param g i key prev v = Inr g' \<longleftrightarrow>
     (\<exists>n m. bt_get (wg_nodes g) i = Some n \<and> gn_params n = JObject m \<and>
        (prev = None \<or> bt_get m key = prev) \<and>
        g' = g\<lparr>wg_nodes := bt_modify i (\<lambda>n. n\<lparr>gn_params := JObject (bt_insert key v m)\<rparr>) (wg_nodes g)\<rparr>)"
  by (auto simp: set_param_def result_simps as_object_Some)

lemma spawn_derived_ok [result_simps]:
  "spawn_derived reg g i n from = Inr g' \<longleftrightarrow>
     (\<exists>s sd td ports. from \<noteq> i \<and> bt_get (wg_nodes g) from = Some s \<and>
        i \<notin> dom (bt_get (wg_nodes g)) \<and>
        bt_get (reg_definitions reg) (gn_node_type s) = Some sd \<and>
        bt_get (reg_definitions reg) (gn_node_type n) = Some td \<and>
        matching_connection_ports sd td = Some ports \<and>
        g' = g\<lparr>wg_nodes := bt_insert i n (wg_nodes g),
               wg_edges := wg_edges g @ [\<lparr>ge_from = (from, lp_source_port ports),
                 ge_to = (i, lp_target_port ports), ge_type = lp_edge_type ports\<rparr>]\<rparr>)"
  by (auto simp: spawn_derived_def result_simps btree_simps)

lemma apply_op_wf:
  assumes "apply_op_in_place reg op g = Inr g'" "bt_wf (wg_nodes g)"
  shows "bt_wf (wg_nodes g')"
  using assms
  by (cases op) (auto simp: result_simps Let_def split: if_splits)

lemma apply_ops_wf:
  assumes "apply_ops reg g ops = Inr g'" "bt_wf (wg_nodes g)"
  shows "bt_wf (wg_nodes g')"
  using assms(1) unfolding apply_ops_def
  by (rule fold_res_invariant) (use assms(2) apply_op_wf in auto)

lemma apply_ops_append:
  "apply_ops reg g (xs @ ys) = res_bind (apply_ops reg g xs) (\<lambda>g'. apply_ops reg g' ys)"
  by (simp add: apply_ops_def fold_res_append)

lemma apply_ops_simps [simp]:
  "apply_ops reg g [] = Inr g"
  "apply_ops reg g (op # ops) = res_bind (apply_op_in_place reg op g) (\<lambda>g'. apply_ops reg g' ops)"
  by (simp_all add: apply_ops_def res_bind_def)

text \<open>Every operation but \<open>AddEdge\<close> keeps the edges between existing nodes.\<close>

definition adds_edge :: "proposal_op \<Rightarrow> bool" where
  "adds_edge op = (case op of AddEdge _ \<Rightarrow> True | _ \<Rightarrow> False)"

lemma apply_op_endpoints:
  assumes "apply_op_in_place reg op g = Inr g'" "endpoints_ok g" "\<not> adds_edge op"
  shows "endpoints_ok g'"
proof (cases op)
  case (AddNode i n)
  then show ?thesis using assms by (auto simp: endpoints_ok_def split: if_splits)
next
  case (SetParam i k prev v)
  then show ?thesis
    using assms by (auto simp: endpoints_ok_def result_simps map_of_bt_modify)
next
  case (SpawnNode i n src)
  then show ?thesis
    using assms by (auto simp: endpoints_ok_def result_simps)
next
  case (RemoveEdge e)
  then show ?thesis using assms by (auto simp: endpoints_ok_def Let_def split: if_splits)
qed (use assms in \<open>auto simp: endpoints_ok_def adds_edge_def result_simps map_of_bt_modify
      btree_simps split: if_splits\<close>)

section \<open>Lineage edges fit\<close>

text \<open>What the lineage rule relies on: port names identify ports, and an input called \<open>in\<close> is an
  optional fan-in (a reference input).\<close>

definition ports_named :: "node_definition \<Rightarrow> bool" where
  "ports_named d \<longleftrightarrow> distinct (map pd_name (nd_inputs d)) \<and> distinct (map pd_name (nd_outputs d)) \<and>
     (\<forall>p\<in>set (nd_inputs d). pd_name p = ''in'' \<longrightarrow> is_reference_input p)"

definition lineage_registry :: "node_registry \<Rightarrow> bool" where
  "lineage_registry reg \<longleftrightarrow> (\<forall>t d. bt_get (reg_definitions reg) t = Some d \<longrightarrow> ports_named d)"

lemma first_match_Some: "first_match f xs = Some y \<Longrightarrow> \<exists>x\<in>set xs. f x = Some y"
  by (induction xs) (auto split: option.splits)

lemma find_port_mem:
  "distinct (map pd_name ports) \<Longrightarrow> p \<in> set ports \<Longrightarrow> find_port ports (pd_name p) = Some p"
  by (simp add: find_port_def find_by_id)

lemma port_label_not_artifact [simp]: "port_type_label t \<noteq> ''artifact''"
  by (cases t) simp_all

lemma matching_ports_cases:
  assumes "matching_connection_ports sd td = Some ports"
  shows "\<exists>outp\<in>set (nd_outputs sd). \<exists>input\<in>set (nd_inputs td).
     ports = lineage_ports_of outp (pd_name input) \<and>
     (pd_type input = pd_type outp \<or> pd_name input = ''in'')"
proof -
  let ?exec = "\<lambda>outp. map_option (\<lambda>i. lineage_ports_of outp (pd_name i))
     (List.find (\<lambda>p. pd_type p = pd_type outp) (filter (\<lambda>i. pd_name i \<noteq> ''in'') (nd_inputs td)))"
  let ?ref = "List.find (\<lambda>i. pd_name i = ''in'') (nd_inputs td)"
  let ?same = "\<lambda>outp. case ?ref of None \<Rightarrow> None
     | Some r \<Rightarrow> if pd_type r = pd_type outp then Some (lineage_ports_of outp (pd_name r)) else None"
  from assms consider "first_match ?exec (nd_outputs sd) = Some ports"
    | "first_match ?same (nd_outputs sd) = Some ports"
    | r outp rest where "?ref = Some r" "nd_outputs sd = outp # rest"
        "ports = lineage_ports_of outp (pd_name r)"
    by (auto simp: matching_connection_ports_def Let_def split: option.splits list.splits)
  then show ?thesis
  proof cases
    case 1
    from first_match_Some [OF this] show ?thesis
      by (auto dest!: find_Some_iff_mem) blast
  next
    case 2
    from first_match_Some [OF this] show ?thesis
      by (auto dest!: find_Some_iff_mem split: option.splits if_splits)
  next
    case 3
    then show ?thesis by (auto dest!: find_Some_iff_mem)
  qed
qed

lemma matching_ports_fit:
  assumes "matching_connection_ports sd td = Some ports" "ports_named sd" "ports_named td"
  shows "\<exists>fp tp. find_port (nd_outputs sd) (lp_source_port ports) = Some fp \<and>
     find_port (nd_inputs td) (lp_target_port ports) = Some tp \<and>
     edge_type_ok fp tp (lp_edge_type ports)"
proof -
  from matching_ports_cases [OF assms(1)] obtain outp inp where p:
    "outp \<in> set (nd_outputs sd)" "inp \<in> set (nd_inputs td)"
    "ports = lineage_ports_of outp (pd_name inp)"
    "pd_type inp = pd_type outp \<or> pd_name inp = ''in''" by blast
  have "find_port (nd_outputs sd) (pd_name outp) = Some outp"
    "find_port (nd_inputs td) (pd_name inp) = Some inp"
    using assms(2,3) p(1,2) by (auto simp: ports_named_def intro: find_port_mem)
  moreover have "edge_type_ok outp inp (port_type_label (pd_type outp))"
    using p(2,4) assms(3) by (auto simp: edge_type_ok_def edge_type_matches_def ports_named_def)
  ultimately show ?thesis by (simp add: p(3) lineage_ports_of_def)
qed

lemma edge_ports_old:
  assumes "i \<notin> dom (bt_get (wg_nodes g))" "edge_ports reg g e \<noteq> None"
    and "bt_get (wg_nodes g') = (bt_get (wg_nodes g))(i \<mapsto> n)"
  shows "edge_ports reg g' e = edge_ports reg g e"
proof -
  from assms(2) have "edge_source e \<in> dom (bt_get (wg_nodes g))"
    "edge_target e \<in> dom (bt_get (wg_nodes g))"
    by (auto simp: edge_ports_def bind_eq_None_conv)
  then have "edge_source e \<noteq> i" "edge_target e \<noteq> i"
    using assms(1) by metis+
  then show ?thesis by (simp add: edge_ports_def assms(3))
qed

lemma spawn_acyclic:
  assumes "acyclic (edge_rel g)" "endpoints_ok g" "i \<notin> dom (bt_get (wg_nodes g))" "a \<noteq> i"
  shows "acyclic (insert (a, i) (edge_rel g))"
proof -
  have "(i, y) \<notin> edge_rel g" for y
    using assms(2,3) unfolding edge_rel_def endpoints_ok_def by fastforce
  then have "(i, a) \<notin> (edge_rel g)\<^sup>*"
    using assms(4) by (metis converse_rtranclE)
  with assms(1) show ?thesis by (simp add: acyclic_insert)
qed

lemma spawn_keeps_others:
  assumes g': "wg_nodes g' = bt_insert i n (wg_nodes g)" "wg_edges g' = wg_edges g @ [e]"
    and i: "i \<notin> dom (bt_get (wg_nodes g))" and valid: "graph_valid reg g"
  shows "\<forall>(j, m)\<in>set (wg_nodes g). node_valid reg g' j m"
    and "\<forall>e\<in>set (wg_edges g). edge_ports reg g' e = edge_ports reg g e"
    and "\<forall>e\<in>set (wg_edges g). edge_target e \<noteq> i"
proof -
  show "\<forall>(j, m)\<in>set (wg_nodes g). node_valid reg g' j m"
    using valid by (fastforce simp: graph_valid_def node_valid_def input_connected_def g'(2))
  have "edge_ports reg g x \<noteq> None" if "x \<in> set (wg_edges g)" for x
    using that valid by (auto simp: graph_valid_def edge_well_typed_def split: option.splits)
  then show "\<forall>e\<in>set (wg_edges g). edge_ports reg g' e = edge_ports reg g e"
    using edge_ports_old [OF i, of reg _ g' n] g'(1) by auto
  show "\<forall>e\<in>set (wg_edges g). edge_target e \<noteq> i"
    using graph_valid_endpoints [OF valid] i unfolding endpoints_ok_def by blast
qed

lemma set_bt_insert_new:
  "set (bt_insert k v m) \<subseteq> insert (k, v) (set m)"
  by (induction m) (auto split: if_splits)

lemma exclusive_targets_cong:
  assumes "\<forall>e\<in>set es. edge_ports reg g' e = edge_ports reg g e"
  shows "exclusive_targets reg g' es = exclusive_targets reg g es"
  using assms by (simp add: exclusive_targets_def edge_exclusive_def cong: filter_cong)

lemma exclusive_targets_mem: "t \<in> set (exclusive_targets reg g es) \<Longrightarrow> \<exists>e\<in>set es. ge_to e = t"
  by (auto simp: exclusive_targets_def)

lemma spawn_valid:
  assumes spawn: "spawn_derived reg g i n src = Inr g'"
    and reg: "lineage_registry reg" and valid: "graph_valid reg g" and new: "node_valid reg g' i n"
  shows "graph_valid reg g'"
proof -
  obtain s sd td ports where p: "src \<noteq> i" "bt_get (wg_nodes g) src = Some s"
    "i \<notin> dom (bt_get (wg_nodes g))"
    "bt_get (reg_definitions reg) (gn_node_type s) = Some sd"
    "bt_get (reg_definitions reg) (gn_node_type n) = Some td"
    "matching_connection_ports sd td = Some ports"
    "g' = g\<lparr>wg_nodes := bt_insert i n (wg_nodes g),
            wg_edges := wg_edges g @ [\<lparr>ge_from = (src, lp_source_port ports),
              ge_to = (i, lp_target_port ports), ge_type = lp_edge_type ports\<rparr>]\<rparr>"
    using spawn unfolding spawn_derived_ok by blast
  let ?e = "\<lparr>ge_from = (src, lp_source_port ports),
              ge_to = (i, lp_target_port ports), ge_type = lp_edge_type ports\<rparr>"
  have g': "wg_nodes g' = bt_insert i n (wg_nodes g)" "wg_edges g' = wg_edges g @ [?e]"
    by (simp_all add: p(7))
  note others = spawn_keeps_others [OF g' p(3) valid]
  have named: "ports_named sd" "ports_named td"
    using reg p(4,5) by (auto simp: lineage_registry_def)
  obtain fp tp where port: "edge_ports reg g' ?e = Some (fp, tp)" "edge_type_ok fp tp (lp_edge_type ports)"
    using matching_ports_fit [OF p(6) named] p(1,2,4,5) by (auto simp: edge_ports_def g'(1))
  have typed: "\<forall>e\<in>set (wg_edges g'). edge_well_typed reg g' e"
    using valid port others(2) by (auto simp: g'(2) graph_valid_def edge_well_typed_def)
  have nodes: "\<forall>(j, m)\<in>set (wg_nodes g'). node_valid reg g' j m"
    using others(1) new set_bt_insert_new [of i n "wg_nodes g"] unfolding g'(1) by blast
  have "distinct (exclusive_targets reg g (wg_edges g))"
    using valid by (simp add: graph_valid_def)
  moreover have "(i, q) \<notin> set (exclusive_targets reg g (wg_edges g))" for q
    using others(3) exclusive_targets_mem [of "(i, q)" reg g "wg_edges g"] by fastforce
  ultimately have excl: "distinct (exclusive_targets reg g' (wg_edges g'))"
    using exclusive_targets_cong [OF others(2)] by (simp add: g'(2) exclusive_targets_def)
  have "edge_rel g' = insert (src, i) (edge_rel g)"
    by (simp add: edge_rel_def g'(2))
  then have "acyclic (edge_rel g')"
    using spawn_acyclic [OF _ graph_valid_endpoints [OF valid] p(3,1)] valid
    by (simp add: graph_valid_def)
  then show ?thesis
    using typed nodes excl valid by (simp add: graph_valid_def p(7))
qed

lemma exclusive_single:
  assumes valid: "graph_valid reg g"
    and n: "bt_get (wg_nodes g) i = Some n" "bt_get (reg_definitions reg) (gn_node_type n) = Some d"
    and port: "find_port (nd_inputs d) (pd_name tp) = Some tp" "pd_cardinality tp = One"
  shows "length (incoming_sources g i (pd_name tp)) \<le> 1"
proof -
  let ?P = "\<lambda>e. ge_to e = (i, pd_name tp)"
  have "edge_exclusive reg g e" if "e \<in> set (wg_edges g)" "?P e" for e
    using that valid n port
    by (fastforce simp: graph_valid_def edge_well_typed_def edge_exclusive_def edge_ports_def
        bind_eq_Some_conv split: option.splits)
  then have "filter ?P (filter (edge_exclusive reg g) (wg_edges g)) = filter ?P (wg_edges g)"
    by (auto intro: filter_cong)
  moreover have "distinct (map ge_to (filter (edge_exclusive reg g) (wg_edges g)))"
    using valid by (simp add: graph_valid_def exclusive_targets_def)
  ultimately have "distinct (map ge_to (filter ?P (wg_edges g)))"
    by (metis distinct_map_filter)
  moreover have "set (map ge_to (filter ?P (wg_edges g))) \<subseteq> {(i, pd_name tp)}" by auto
  ultimately have "card (set (map ge_to (filter ?P (wg_edges g)))) \<le> 1"
    "card (set (map ge_to (filter ?P (wg_edges g)))) = length (filter ?P (wg_edges g))"
    using card_mono [of "{(i, pd_name tp)}"] by (simp, metis distinct_card length_map)
  then show ?thesis by (simp add: incoming_sources_def)
qed

section \<open>Properties\<close>

definition sample_type :: "string \<Rightarrow> port_type \<Rightarrow> node_definition" where
  "sample_type t p = \<lparr>nd_node_type = t, nd_title = t, nd_category = ''c'', nd_provider = None,
     nd_capability = Some t, nd_description = ''d'',
     nd_inputs = [\<lparr>pd_name = ''prompt'', pd_type = p, pd_required = False, pd_cardinality = One\<rparr>],
     nd_outputs = [\<lparr>pd_name = ''out'', pd_type = p, pd_required = True, pd_cardinality = One\<rparr>],
     nd_params_schema = \<lparr>sc_required = [], sc_properties = [], sc_allow_unknown = False\<rparr>,
     nd_estimated_cost = None\<rparr>"

definition sample_registry :: node_registry where
  "sample_registry = \<lparr>reg_definitions =
     [(''image'', sample_type ''image'' Image), (''text'', sample_type ''text'' Image)]\<rparr>"

definition sample_graph :: workflow_graph where
  "sample_graph = sample_chain\<lparr>wg_edges := [sample_edge ''b'' ''out'' ''a'' ''prompt'' ''image'']\<rparr>"

lemmas sample_service_defs = sample_type_def sample_registry_def sample_graph_def sample_graph_defs

lemma sample_graph_wf: "bt_wf (wg_nodes sample_graph)"
  by (simp add: sample_service_defs)

lemma sample_graph_checked: "validate_graph sample_registry sample_graph = Inr ()"
  by (simp add: sample_service_defs validate_graph_def validate_graph_inner_def validate_node_def
      invalid_size_def registry_definition_def validate_node_params_def validate_params_def
      validate_value_def validate_value_with_wired_def check_required_def check_properties_def
      validate_edge_def validate_ports_def find_port_def edge_type_ok_def is_reference_input_def
      edge_type_matches_def has_cycle_def topological_order_def initial_counters_def bt_keys_def
      count_edge_def bt_contains_def push_entry_def bs_from_list_def map_filter_def successors_def
      relax_def)

lemma sample_graph_valid: "graph_valid sample_registry sample_graph"
  using sample_graph_checked validate_graph_ok [OF sample_graph_wf] by simp

text \<open>C1: \<open>validate_graph\<close> accepts exactly the valid graphs: schema version 1; every node of a known
  type, with a positive finite size, conforming parameters and every required input wired or given;
  every edge between existing ports of matching types; at most one edge into an input of
  cardinality one; no cycle.\<close>

theorem validate_graph_exact:
  assumes "bt_wf (wg_nodes g)"
  shows "validate_graph reg g = Inr () \<longleftrightarrow>
     wg_schema_version g = 1 \<and>
     (\<forall>(i, n)\<in>set (wg_nodes g). node_valid reg g i n) \<and>
     (\<forall>e\<in>set (wg_edges g). edge_well_typed reg g e) \<and>
     distinct (exclusive_targets reg g (wg_edges g)) \<and>
     acyclic (edge_rel g)"
  using validate_graph_ok [OF assms] by (simp add: graph_valid_def)

lemma validate_graph_exact_witness:
  "edge_well_typed sample_registry sample_graph (sample_edge ''b'' ''out'' ''a'' ''prompt'' ''image'')
     \<and> acyclic (edge_rel sample_graph)"
proof -
  have "sample_edge ''b'' ''out'' ''a'' ''prompt'' ''image'' \<in> set (wg_edges sample_graph)"
    by (simp add: sample_graph_def)
  then show ?thesis
    using validate_graph_exact [OF sample_graph_wf, of sample_registry] sample_graph_checked by simp
qed

text \<open>A plan is compiled exactly for the valid graphs, whatever the version and provider.\<close>

theorem compile_plan_exact:
  assumes "bt_wf (wg_nodes g)"
  shows "is_ok (compile_plan reg g version provider) \<longleftrightarrow> graph_valid reg g"
  by (rule compile_plan_succeeds [OF assms])

lemma compile_plan_exact_witness: "is_ok (compile_plan sample_registry sample_graph ''v1'' ''mock'')"
  using compile_plan_exact [OF sample_graph_wf] sample_graph_valid by blast

text \<open>The steps of a plan are the nodes, each after the steps it reads from.\<close>

lemma compiled_steps_ordered:
  assumes "bt_wf (wg_nodes g)" "compile_plan reg g version provider = Inr plan"
  shows "distinct (map es_node_id (ep_steps plan)) \<and>
     set (map es_node_id (ep_steps plan)) = dom (bt_get (wg_nodes g)) \<and>
     (\<forall>before s after port sources. ep_steps plan = before @ s # after \<longrightarrow>
        bt_get (es_inputs s) port = Some sources \<longrightarrow>
        fst ` set sources \<subseteq> set (map es_node_id before))"
proof -
  note steps = compile_plan_steps [OF assms(2)]
  have ends: "endpoints_ok g"
    using steps(1) validate_graph_ok [OF assms(1)] graph_valid_endpoints by blast
  have src: "fst ` set sources \<subseteq> set (map es_node_id before)"
    if split: "ep_steps plan = before @ s # after"
      and inp: "bt_get (es_inputs s) port = Some sources" for before s after port sources
  proof -
    from steps(3) split have "is_plan_step reg g provider (es_node_id s) s"
      by (auto simp: list_all2_append1 list_all2_Cons1 list_all2_map1 list_all2_same)
    then have "sources = incoming_sources g (es_node_id s) port"
      by (rule is_plan_step_fields) (use inp in \<open>auto simp: step_inputs_lookup split: if_splits\<close>)
    then have "\<forall>q\<in>set sources. \<exists>e\<in>set (wg_edges g). ge_from e = q \<and> edge_target e = es_node_id s"
      by (auto simp: incoming_sources_def)
    moreover have "topological_order g = Inr (map es_node_id before @ es_node_id s # map es_node_id after)"
      using steps(2) split by simp
    note kahn.source_first [OF assms(1) ends this]
    ultimately show ?thesis by fastforce
  qed
  show ?thesis
    using kahn.each_node_once [OF assms(1) ends steps(2)] src by blast
qed

text \<open>C4: the plan has one step per node, and a step runs after the steps that produce its inputs:
  every source listed for a port of a step is the node of an earlier step.\<close>

theorem compile_plan_ordered:
  assumes "bt_wf (wg_nodes g)" "compile_plan reg g version provider = Inr plan"
  shows "distinct (map es_node_id (ep_steps plan)) \<and>
     set (map es_node_id (ep_steps plan)) = dom (bt_get (wg_nodes g)) \<and>
     (\<forall>before s after port sources. ep_steps plan = before @ s # after \<longrightarrow>
        bt_get (es_inputs s) port = Some sources \<longrightarrow>
        fst ` set sources \<subseteq> set (map es_node_id before))"
  using compiled_steps_ordered [OF assms] .

lemma sample_plan:
  obtains plan where "compile_plan sample_registry sample_graph ''v1'' ''mock'' = Inr plan"
  using compile_plan_succeeds [OF sample_graph_wf, of sample_registry "''v1''" "''mock''"]
    sample_graph_valid by (auto simp: is_ok_iff)

lemma compile_plan_ordered_witness:
  "\<exists>plan. compile_plan sample_registry sample_graph ''v1'' ''mock'' = Inr plan \<and>
     set (map es_node_id (ep_steps plan)) = {''a'', ''b''}"
proof -
  obtain plan where p: "compile_plan sample_registry sample_graph ''v1'' ''mock'' = Inr plan"
    by (rule sample_plan)
  from compile_plan_ordered [OF sample_graph_wf p] p show ?thesis
    by (auto simp: sample_service_defs)
qed

text \<open>what a step carries: the node's type and parameters, the capability of its definition, the
  provider only for executable types, and for every input port the sources of its edges in edge
  order; an input of cardinality one never has more than one source.\<close>

theorem compile_plan_steps_exact:
  assumes "bt_wf (wg_nodes g)" "compile_plan reg g version provider = Inr plan"
    and "s \<in> set (ep_steps plan)"
  shows "\<exists>n d. bt_get (wg_nodes g) (es_node_id s) = Some n \<and>
     bt_get (reg_definitions reg) (gn_node_type n) = Some d \<and>
     es_node_type s = gn_node_type n \<and> es_params s = gn_params n \<and>
     es_capability s = nd_capability d \<and> es_resolved s = None \<and>
     es_provider s = (if nd_capability d = None then None else Some provider) \<and>
     (\<forall>port. bt_get (es_inputs s) port =
        (let sources = map ge_from (filter (\<lambda>e. ge_to e = (es_node_id s, port)) (wg_edges g))
         in if sources = [] then None else Some sources)) \<and>
     (\<forall>tp sources. find_port (nd_inputs d) (pd_name tp) = Some tp \<longrightarrow> pd_cardinality tp = One \<longrightarrow>
        bt_get (es_inputs s) (pd_name tp) = Some sources \<longrightarrow> length sources = 1)"
proof -
  note steps = compile_plan_steps [OF assms(2)]
  from steps(3) assms(3) have "is_plan_step reg g provider (es_node_id s) s"
    by (auto simp: list_all2_map1 list_all2_same)
  then obtain n d where nd: "bt_get (wg_nodes g) (es_node_id s) = Some n"
    "bt_get (reg_definitions reg) (gn_node_type n) = Some d"
    and fields: "es_node_type s = gn_node_type n" "es_params s = gn_params n"
    "es_capability s = nd_capability d" "es_resolved s = None"
    "es_provider s = (if nd_capability d = None then None else Some provider)"
    "es_inputs s = step_inputs g (es_node_id s)"
    by (rule is_plan_step_fields)
  have valid: "graph_valid reg g"
    using steps(1) validate_graph_ok [OF assms(1)] by simp
  have one: "length (incoming_sources g (es_node_id s) (pd_name tp)) \<le> 1"
    if "find_port (nd_inputs d) (pd_name tp) = Some tp" "pd_cardinality tp = One" for tp
    using exclusive_single [OF valid nd(1,2) that] .
  show ?thesis
    by (rule exI [of _ n], rule exI [of _ d])
       (use nd(1,2) one in \<open>auto simp: fields step_inputs_lookup Let_def le_Suc_eq
          simp flip: incoming_sources_def split: if_splits\<close>)
qed

lemma compile_plan_steps_exact_witness:
  "\<exists>plan. compile_plan sample_registry sample_graph ''v1'' ''mock'' = Inr plan \<and>
     (\<forall>s\<in>set (ep_steps plan). es_node_id s = ''a'' \<longrightarrow>
        bt_get (es_inputs s) ''prompt'' = Some [(''b'', ''out'')])"
proof -
  obtain plan where p: "compile_plan sample_registry sample_graph ''v1'' ''mock'' = Inr plan"
    by (rule sample_plan)
  have "bt_get (es_inputs s) ''prompt'' = Some [(''b'', ''out'')]"
    if "s \<in> set (ep_steps plan)" "es_node_id s = ''a''" for s
    using compile_plan_steps_exact [OF sample_graph_wf p that(1)] that(2)
    by (auto simp: sample_service_defs Let_def)
  with p show ?thesis by blast
qed

text \<open>spawning a derived node keeps a valid graph valid.  The lineage edge always joins two
  existing ports of fitting types and never closes a cycle or doubles a connection; all that is
  asked is that the new node is itself valid.\<close>

theorem spawn_keeps_valid:
  assumes "lineage_registry reg" "graph_valid reg g"
    and "apply_op_in_place reg (SpawnNode i n src) g = Inr g'" "node_valid reg g' i n"
  shows "graph_valid reg g'"
  using spawn_valid [OF _ assms(1,2,4)] assms(3) by simp

definition sample_spawned :: workflow_graph where
  "sample_spawned = sample_graph\<lparr>
     wg_nodes := bt_insert ''c'' (sample_node ''text'') (wg_nodes sample_graph),
     wg_edges := wg_edges sample_graph @ [sample_edge ''b'' ''out'' ''c'' ''prompt'' ''image'']\<rparr>"

lemma sample_spawn:
  "apply_op_in_place sample_registry (SpawnNode ''c'' (sample_node ''text'') ''b'') sample_graph
     = Inr sample_spawned"
  by (simp add: sample_spawned_def sample_service_defs spawn_derived_def registry_definition_def
      bt_contains_def matching_connection_ports_def lineage_ports_of_def)

lemma spawn_keeps_valid_witness: "graph_valid sample_registry sample_spawned"
proof (rule spawn_keeps_valid [OF _ sample_graph_valid sample_spawn])
  show "lineage_registry sample_registry"
    by (auto simp: lineage_registry_def ports_named_def sample_registry_def sample_type_def
        split: if_splits)
  show "node_valid sample_registry sample_spawned ''c'' (sample_node ''text'')"
    by (simp add: node_valid_def sample_spawned_def sample_service_defs invalid_size_def
        params_conform_def)
qed

text \<open>C9: a previewed proposal applies.  When the base version is still current, applying a prepared
  proposal to the graph it was previewed on yields exactly the previewed graph, which is valid;
  against any other version it is refused as superseded.\<close>

theorem preview_then_apply:
  assumes "bt_wf (wg_nodes base)" "preview_proposal compare reg base current draft = Inr p"
  shows "apply_proposal reg base current p = Inr (pp_preview_graph p) \<and>
     graph_valid reg (pp_preview_graph p) \<and>
     (\<forall>other. other \<noteq> current \<longrightarrow>
        apply_proposal reg base other p = Inl (GE_ProposalSuperseded current other))"
proof -
  from assms(2) obtain preview summary where p: "dr_base_version_id draft = current"
    "apply_ops reg base (dr_ops draft) = Inr preview" "validate_graph reg preview = Inr ()"
    "pp_ops p = dr_ops draft" "pp_preview_graph p = preview" "pp_state p = StatePending"
    "pp_base_version_id p = current"
    by (auto simp: preview_proposal_def result_simps split: if_splits)
  have "graph_valid reg preview"
    using validate_graph_ok [OF apply_ops_wf [OF p(2) assms(1)]] p(3) by simp
  with p show ?thesis
    by (simp add: apply_proposal_def ensure_proposal_applies_to_current_def)
qed

definition sample_draft :: proposal_draft where
  "sample_draft = \<lparr>dr_base_version_id = ''v1'', dr_kind = KindModify, dr_title = ''t'',
     dr_summary = ''s'', dr_ops = [MoveNode ''a'' (Fin 1, Fin 2)], dr_message_id = None\<rparr>"

text \<open>A comparer that reports the whole document as changed, or nothing.\<close>

definition sample_compare :: comparer where
  "sample_compare l r = Inr (if l = r then [] else [\<lparr>jd_left = Some l, jd_right = Some r, jd_path = ''''\<rparr>])"

lemma sample_preview:
  obtains p where "preview_proposal sample_compare sample_registry sample_graph ''v1'' sample_draft = Inr p"
proof -
  let ?g = "sample_graph\<lparr>wg_nodes :=
     bt_modify ''a'' (\<lambda>n. n\<lparr>gn_pos := (Fin 1, Fin 2)\<rparr>) (wg_nodes sample_graph)\<rparr>"
  have ops: "apply_ops sample_registry sample_graph (dr_ops sample_draft) = Inr ?g"
    by (simp add: sample_draft_def update_node_def sample_service_defs bt_contains_def)
  have "validate_graph sample_registry ?g = Inr ()"
    by (simp add: sample_service_defs validate_graph_def validate_graph_inner_def validate_node_def
      invalid_size_def registry_definition_def validate_node_params_def validate_params_def
      validate_value_def validate_value_with_wired_def check_required_def check_properties_def
      validate_edge_def validate_ports_def find_port_def edge_type_ok_def is_reference_input_def
      edge_type_matches_def has_cycle_def topological_order_def initial_counters_def bt_keys_def
      count_edge_def bt_contains_def push_entry_def bs_from_list_def map_filter_def successors_def
      relax_def)
  with ops that show ?thesis
    by (simp add: preview_proposal_def sample_draft_def summarize_diff_def sample_compare_def)
qed

lemma preview_then_apply_witness:
  "\<exists>p. preview_proposal sample_compare sample_registry sample_graph ''v1'' sample_draft = Inr p \<and>
     graph_valid sample_registry (pp_preview_graph p)"
proof -
  obtain p where p: "preview_proposal sample_compare sample_registry sample_graph ''v1'' sample_draft = Inr p"
    by (rule sample_preview)
  with preview_then_apply [OF sample_graph_wf p] show ?thesis by blast
qed

text \<open>removing a node removes every edge that touches it and nothing else, so the other edges
  keep their ends; and adding a fresh node and removing it again is the identity.\<close>

theorem remove_node_clean:
  assumes "bt_wf (wg_nodes g)" "endpoints_ok g"
  shows "(\<forall>i g'. apply_op_in_place reg (RemoveNode i) g = Inr g' \<longrightarrow> endpoints_ok g' \<and>
            bt_get (wg_nodes g') = (bt_get (wg_nodes g))(i := None) \<and>
            wg_edges g' = filter (\<lambda>e. edge_source e \<noteq> i \<and> edge_target e \<noteq> i) (wg_edges g)) \<and>
     (\<forall>i n. i \<notin> dom (bt_get (wg_nodes g)) \<longrightarrow> apply_ops reg g [AddNode i n, RemoveNode i] = Inr g)"
proof (intro conjI allI impI)
  fix i n
  assume i: "i \<notin> dom (bt_get (wg_nodes g))"
  have "bt_remove i (bt_insert i n (wg_nodes g)) = wg_nodes g"
    by (rule bt_wf_ext) (use assms(1) i in \<open>auto simp: fun_eq_iff\<close>)
  moreover have "edge_source e \<noteq> i \<and> edge_target e \<noteq> i" if "e \<in> set (wg_edges g)" for e
    using that assms(2) i unfolding endpoints_ok_def by metis
  then have "filter (\<lambda>e. edge_source e \<noteq> i \<and> edge_target e \<noteq> i) (wg_edges g) = wg_edges g"
    by (simp add: filter_id_conv)
  ultimately show "apply_ops reg g [AddNode i n, RemoveNode i] = Inr g"
    using i by (simp add: btree_simps)
next
  fix i g'
  assume r: "apply_op_in_place reg (RemoveNode i) g = Inr g'"
  then show "endpoints_ok g'"
    using apply_op_endpoints [OF r assms(2)] by (simp add: adds_edge_def)
  from r show "bt_get (wg_nodes g') = (bt_get (wg_nodes g))(i := None)"
    "wg_edges g' = filter (\<lambda>e. edge_source e \<noteq> i \<and> edge_target e \<noteq> i) (wg_edges g)"
    by (auto split: if_splits)
qed

lemma remove_node_clean_witness:
  "apply_ops sample_registry sample_graph [AddNode ''c'' (sample_node ''text''), RemoveNode ''c'']
     = Inr sample_graph"
  using remove_node_clean [OF sample_graph_wf graph_valid_endpoints [OF sample_graph_valid],
      of sample_registry]
  by (simp add: sample_service_defs)

end
