(* ===== verification/Resolver.thy ===== *)
theory Resolver
  imports Catalog
begin

text \<open>
  Capability, model and binding resolution (crates/registry/src/resolver.rs): the fixed
  order capability, model, candidates, preference, default, availability, with every
  failure a typed error.
\<close>

section \<open>Requests, results, errors\<close>

record resolve_request =
  rq_capability_id :: string
  rq_requested_model :: "string option"
  rq_connector_preference :: "string option"

record resolved_implementation =
  ri_capability_id :: string
  ri_requested_model_id :: "string option"
  ri_resolved_model_id :: string
  ri_binding_id :: string
  ri_binding_revision :: string
  ri_target :: implementation_target

type_synonym connector_availability = "(string, bool) btree_map"

datatype resolve_error =
    RS_CapabilityNotFound string
  | RS_ModelNotFound string
  | RS_ModelAmbiguous string "string list"
  | RS_BindingNotFound string "string option"
  | RS_BindingAmbiguous string "string list"
  | RS_BindingUnavailable string "string list"

fun resolve_error_code :: "resolve_error \<Rightarrow> string" where
  "resolve_error_code (RS_CapabilityNotFound _) = ''CAPABILITY_NOT_FOUND''"
| "resolve_error_code (RS_ModelNotFound _) = ''MODEL_NOT_FOUND''"
| "resolve_error_code (RS_ModelAmbiguous _ _) = ''MODEL_AMBIGUOUS''"
| "resolve_error_code (RS_BindingNotFound _ _) = ''BINDING_NOT_FOUND''"
| "resolve_error_code (RS_BindingAmbiguous _ _) = ''BINDING_AMBIGUOUS''"
| "resolve_error_code (RS_BindingUnavailable _ _) = ''BINDING_UNAVAILABLE''"

definition recoverable :: "resolve_error \<Rightarrow> bool" where
  "recoverable e = (case e of
     RS_ModelAmbiguous _ _ \<Rightarrow> True
   | RS_BindingAmbiguous _ _ \<Rightarrow> True
   | RS_BindingUnavailable _ _ \<Rightarrow> True
   | _ \<Rightarrow> False)"

fun resolve_error_display :: "resolve_error \<Rightarrow> string" where
  "resolve_error_display (RS_CapabilityNotFound c) =
     ''capability '' @ bq c @ '' is not in the catalog''"
| "resolve_error_display (RS_ModelNotFound q) = ''no catalog model matches '' @ bq q"
| "resolve_error_display (RS_ModelAmbiguous q cs) =
     ''model name '' @ bq q @ '' matches multiple models: '' @ join '', '' cs"
| "resolve_error_display (RS_BindingNotFound c (Some m)) =
     ''no binding implements capability '' @ bq c @ '' with model '' @ bq m"
| "resolve_error_display (RS_BindingNotFound c None) =
     ''no binding implements capability '' @ bq c"
| "resolve_error_display (RS_BindingAmbiguous c cs) =
     ''multiple bindings for capability '' @ bq c @ '' and no configured default: '' @ join '', '' cs"
| "resolve_error_display (RS_BindingUnavailable c ids) =
     ''all bindings for capability '' @ bq c @ '' are unavailable: '' @ join '', '' ids"

section \<open>Helpers\<close>

definition space_separator :: "char \<Rightarrow> char" where
  "space_separator ch =
     (if ch = CHR ''-'' \<or> ch = CHR ''_'' \<or> ch = CHR ''/'' \<or> ch = CHR ''.'' then CHR '' '' else ch)"

text \<open>The loop of \<open>normalize_name\<close>: what is pushed for the rest of the characters.\<close>

fun normalize_loop :: "bool \<Rightarrow> string \<Rightarrow> string" where
  "normalize_loop last_was_space [] = []"
| "normalize_loop last_was_space (ch # rest) =
     (let c = space_separator ch in
      if is_whitespace c
      then (if last_was_space then normalize_loop True rest else CHR '' '' # normalize_loop True rest)
      else to_lowercase c # normalize_loop False rest)"

definition normalize_name :: "string \<Rightarrow> string" where
  "normalize_name value = trim_end (normalize_loop True value)"

definition binding_connector :: "capability_binding \<Rightarrow> string option" where
  "binding_connector b = (case cb_implementation b of
     ApiConnector connector_id _ \<Rightarrow> Some connector_id
   | WorkflowTemplate _ _ _ \<Rightarrow> None)"

definition binding_ids :: "capability_binding list \<Rightarrow> string list" where
  "binding_ids bs = map cb_binding_id bs"

definition resolved :: "string \<Rightarrow> string option \<Rightarrow> capability_binding \<Rightarrow> resolved_implementation" where
  "resolved capability_id requested b =
     \<lparr>ri_capability_id = capability_id, ri_requested_model_id = requested,
      ri_resolved_model_id = cb_model_id b, ri_binding_id = cb_binding_id b,
      ri_binding_revision = cb_binding_revision b, ri_target = cb_implementation b\<rparr>"

definition binding_available :: "catalog_snapshot \<Rightarrow> capability_binding \<Rightarrow> connector_availability \<Rightarrow> bool" where
  "binding_available c b av =
     (if cb_availability b \<noteq> BindingEnabled then False
      else case cb_implementation b of
          ApiConnector connector_id _ \<Rightarrow>
            (case catalog_connector c connector_id of None \<Rightarrow> False | Some cn \<Rightarrow> cn_enabled cn) \<and>
            (case bt_get av connector_id of None \<Rightarrow> False | Some up \<Rightarrow> up)
        | WorkflowTemplate _ _ _ \<Rightarrow> False)"

text \<open>The names a model answers to, already normalised.\<close>

definition model_names :: "model_definition \<Rightarrow> string list" where
  "model_names m =
     [normalize_name (md_model_id m), normalize_name (md_display_name m)] @
     (case split_once (CHR ''/'') (md_model_id m) of None \<Rightarrow> [] | Some (_, tail) \<Rightarrow> [normalize_name tail]) @
     map normalize_name (md_aliases m)"

definition normalize_model :: "catalog_snapshot \<Rightarrow> string \<Rightarrow> resolve_error + string" where
  "normalize_model c query =
     (let needle = normalize_name query in
      if needle = '''' then Inl (RS_ModelNotFound query)
      else let matches = sorted_ids (map md_model_id
                 (filter (\<lambda>m. needle \<in> set (model_names m)) (cs_models c)))
           in case matches of
                [] \<Rightarrow> Inl (RS_ModelNotFound query)
              | [m] \<Rightarrow> Inr m
              | _ \<Rightarrow> Inl (RS_ModelAmbiguous query matches))"

section \<open>Selection\<close>

definition prefer_connector :: "string option \<Rightarrow> capability_binding list \<Rightarrow> capability_binding list" where
  "prefer_connector preference bs = (case preference of
     None \<Rightarrow> bs
   | Some p \<Rightarrow> filter (\<lambda>b. binding_connector b = Some p) bs)"

definition select_unique ::
  "catalog_snapshot \<Rightarrow> string \<Rightarrow> capability_binding list \<Rightarrow> connector_availability
   \<Rightarrow> resolve_error + capability_binding" where
  "select_unique c capability_id candidates av =
     (let available = filter (\<lambda>b. binding_available c b av) candidates;
          fallback = (case available of
              [b] \<Rightarrow> Inr b
            | _ \<Rightarrow> Inl (RS_BindingAmbiguous capability_id (binding_ids available)))
      in if available = [] then Inl (RS_BindingUnavailable capability_id (binding_ids candidates))
         else case bt_get (cs_default_bindings c) capability_id of
             None \<Rightarrow> fallback
           | Some default_id \<Rightarrow>
               (case List.find (\<lambda>b. cb_binding_id b = default_id) available of
                  Some b \<Rightarrow> Inr b
                | None \<Rightarrow> fallback))"

definition resolve_pinned ::
  "catalog_snapshot \<Rightarrow> string \<Rightarrow> string \<Rightarrow> string option \<Rightarrow> connector_availability
   \<Rightarrow> resolve_error + resolved_implementation" where
  "resolve_pinned c capability_id query preference av =
     res_bind (normalize_model c query) (\<lambda>model_id.
       let candidates = prefer_connector preference (bindings_for_pair c capability_id model_id) in
       if candidates = [] then Inl (RS_BindingNotFound capability_id (Some model_id))
       else res_bind (select_unique c capability_id candidates av) (\<lambda>b.
         Inr (resolved capability_id (Some model_id) b)))"

definition policy_choice ::
  "catalog_snapshot \<Rightarrow> string \<Rightarrow> string option \<Rightarrow> capability_binding list
   \<Rightarrow> resolve_error + capability_binding" where
  "policy_choice c capability_id preference candidates =
     (let default_binding =
            Option.bind (bt_get (cs_default_bindings c) capability_id) (\<lambda>default_id.
              List.find (\<lambda>b. cb_binding_id b = default_id) candidates)
      in case default_binding of
           Some b \<Rightarrow> Inr b
         | None \<Rightarrow>
             if preference \<noteq> None \<and> length candidates = 1 then Inr (hd candidates)
             else Inl (RS_BindingAmbiguous capability_id (binding_ids candidates)))"

definition resolve_policy ::
  "catalog_snapshot \<Rightarrow> string \<Rightarrow> string option \<Rightarrow> connector_availability
   \<Rightarrow> resolve_error + resolved_implementation" where
  "resolve_policy c capability_id preference av =
     (let candidates = prefer_connector preference (bindings_for_capability c capability_id) in
      if candidates = [] then Inl (RS_BindingNotFound capability_id None)
      else res_bind (policy_choice c capability_id preference candidates) (\<lambda>b.
        if \<not> binding_available c b av
        then Inl (RS_BindingUnavailable capability_id [cb_binding_id b])
        else Inr (resolved capability_id None b)))"

definition resolve ::
  "catalog_snapshot \<Rightarrow> resolve_request \<Rightarrow> connector_availability
   \<Rightarrow> resolve_error + resolved_implementation" where
  "resolve c rq av =
     (if catalog_capability c (rq_capability_id rq) = None
      then Inl (RS_CapabilityNotFound (rq_capability_id rq))
      else case rq_requested_model rq of
          Some query \<Rightarrow>
            resolve_pinned c (rq_capability_id rq) query (rq_connector_preference rq) av
        | None \<Rightarrow> resolve_policy c (rq_capability_id rq) (rq_connector_preference rq) av)"

section \<open>Names\<close>

text \<open>
  A normalised name: plain characters, words separated by single spaces, no space first
  (\<open>b = True\<close>).  The loop produces such a string and leaves one as it is.
\<close>

abbreviation separators :: "char set" where
  "separators \<equiv> {CHR ''-'', CHR ''_'', CHR ''/'', CHR ''.''}"

definition plain_char :: "char \<Rightarrow> bool" where
  "plain_char c \<longleftrightarrow> \<not> is_whitespace c \<and> to_lowercase c = c \<and> c \<notin> separators"

fun normal_form :: "bool \<Rightarrow> string \<Rightarrow> bool" where
  "normal_form b [] = True"
| "normal_form b (c # cs) =
     (if c = CHR '' '' then \<not> b \<and> normal_form True cs else plain_char c \<and> normal_form False cs)"

lemma plain_char_lower:
  assumes "c \<notin> separators" "\<not> is_whitespace c"
  shows "plain_char (to_lowercase c)"
proof -
  have "to_lowercase c \<notin> separators"
  proof (cases "is_ascii_uppercase c")
    case True
    then have "97 \<le> byte (to_lowercase c)"
      by (simp add: to_lowercase_def is_ascii_uppercase_def) (simp add: byte_def)
    moreover have "x \<in> separators \<Longrightarrow> byte x \<le> 95" for x
      by (auto simp: byte_def)
    ultimately show ?thesis by fastforce
  qed (use assms in \<open>simp add: to_lowercase_def\<close>)
  then show ?thesis using assms(2) by (simp add: plain_char_def)
qed

lemma space_facts [simp]: "is_whitespace (CHR '' '')" "\<not> plain_char (CHR '' '')"
  by (simp_all add: plain_char_def is_whitespace_def byte_def)

lemma space_separator_not_separator: "space_separator c \<notin> separators"
  by (simp add: space_separator_def)

lemma space_separator_plain: "plain_char c \<Longrightarrow> space_separator c = c"
  by (simp add: space_separator_def plain_char_def)

lemma normal_form_loop: "normal_form b (normalize_loop b s)"
proof (induction b s rule: normalize_loop.induct)
  case (2 b ch rest)
  show ?case
  proof (cases "is_whitespace (space_separator ch)")
    case True
    then show ?thesis using 2(1,2) by (simp add: Let_def)
  next
    case False
    then have "plain_char (to_lowercase (space_separator ch))"
      by (intro plain_char_lower space_separator_not_separator)
    moreover from this have "to_lowercase (space_separator ch) \<noteq> CHR '' ''" by auto
    ultimately show ?thesis
      using 2(3) [OF refl False] False by (simp add: Let_def)
  qed
qed simp

lemma normalize_loop_normal_form: "normal_form b s \<Longrightarrow> normalize_loop b s = s"
  by (induction b s rule: normal_form.induct)
     (auto simp: Let_def space_separator_plain plain_char_def space_separator_def split: if_splits)

lemma normal_form_prefix: "normal_form b (xs @ ys) \<Longrightarrow> normal_form b xs"
  by (induction b xs rule: normal_form.induct) (auto split: if_splits)

lemma trim_end_prefix: "\<exists>ys. s = trim_end s @ ys"
proof -
  have "s = rev (dropWhile is_whitespace (rev s)) @ rev (takeWhile is_whitespace (rev s))"
    by (metis rev_append rev_rev_ident takeWhile_dropWhile_id)
  then show ?thesis unfolding trim_end_def by blast
qed

lemma trim_end_idem [simp]: "trim_end (trim_end s) = trim_end s"
  by (simp add: trim_end_def)

lemma normal_form_normalize_name: "normal_form True (normalize_name s)"
  unfolding normalize_name_def
  by (metis normal_form_loop normal_form_prefix trim_end_prefix)

lemma normalize_name_idem [simp]: "normalize_name (normalize_name s) = normalize_name s"
proof -
  have "normalize_loop True (normalize_name s) = normalize_name s"
    by (rule normalize_loop_normal_form) (rule normal_form_normalize_name)
  then have "normalize_name (normalize_name s) = trim_end (normalize_name s)"
    by (simp add: normalize_name_def [of "normalize_name s"])
  then show ?thesis by (simp add: normalize_name_def)
qed

text \<open>The models a query can mean.\<close>

definition models_named :: "catalog_snapshot \<Rightarrow> string \<Rightarrow> string set" where
  "models_named c query =
     md_model_id ` {m \<in> set (cs_models c). normalize_name query \<in> set (model_names m)}"

lemma normalize_model_ok:
  "normalize_model c query = Inr m \<longleftrightarrow>
     normalize_name query \<noteq> '''' \<and> models_named c query = {m}"
proof -
  define ids where "ids = sorted_ids (map md_model_id
      (filter (\<lambda>m. normalize_name query \<in> set (model_names m)) (cs_models c)))"
  have set_ids: "set ids = models_named c query"
    by (auto simp: ids_def models_named_def)
  have sorted: "sorted_wrt (<) ids"
    unfolding ids_def by (rule sorted_ids_strict)
  have "ids = [m] \<longleftrightarrow> set ids = {m}"
  proof
    assume "set ids = {m}"
    moreover have "sorted_wrt (<) [m]" by simp
    ultimately show "ids = [m]"
      using sorted by (intro strict_sorted_equal) simp_all
  qed simp
  then show ?thesis
    unfolding set_ids [symmetric]
    by (auto simp: normalize_model_def Let_def ids_def [symmetric] split: list.splits)
qed

lemma normalize_model_ambiguous:
  assumes "normalize_model c query = Inl (RS_ModelAmbiguous q cands)"
  shows "q = query \<and> set cands = models_named c query \<and> 2 \<le> card (models_named c query)
    \<and> sorted_wrt (<) cands"
proof -
  define ids where "ids = sorted_ids (map md_model_id
      (filter (\<lambda>m. normalize_name query \<in> set (model_names m)) (cs_models c)))"
  have set_ids: "set ids = models_named c query"
    by (auto simp: ids_def models_named_def)
  have sorted: "sorted_wrt (<) ids"
    unfolding ids_def by (rule sorted_ids_strict)
  have "q = query \<and> cands = ids \<and> 2 \<le> length ids"
    using assms by (auto simp: normalize_model_def Let_def ids_def [symmetric]
        split: list.splits if_splits)
  moreover have "card (set ids) = length ids"
    using sorted by (simp add: distinct_card strict_sorted_iff)
  ultimately show ?thesis
    using sorted by (auto simp: set_ids [symmetric])
qed

section \<open>Selection\<close>

lemma set_prefer_connector [simp]:
  "set (prefer_connector p bs) = {b \<in> set bs. \<forall>k. p = Some k \<longrightarrow> binding_connector b = Some k}"
  by (auto simp: prefer_connector_def split: option.splits)

lemma select_unique_ok:
  assumes "select_unique c k cands av = Inr b"
  shows "b \<in> set cands" and "binding_available c b av"
    and "bt_get (cs_default_bindings c) k = Some (cb_binding_id b) \<or>
         {b' \<in> set cands. binding_available c b' av} = {b}"
proof -
  let ?av = "filter (\<lambda>b. binding_available c b av) cands"
  have "(b \<in> set ?av \<and> bt_get (cs_default_bindings c) k = Some (cb_binding_id b)) \<or> ?av = [b]"
    using assms
    by (auto simp: select_unique_def Let_def dest!: find_Some_iff_mem
        split: if_splits option.splits list.splits)
  then have "b \<in> set ?av \<and>
      (bt_get (cs_default_bindings c) k = Some (cb_binding_id b) \<or> set ?av = {b})"
  proof
    assume one: "?av = [b]"
    show ?thesis unfolding one by simp
  qed blast
  moreover have "set ?av = {b' \<in> set cands. binding_available c b' av}"
    by auto
  ultimately show "b \<in> set cands" "binding_available c b av"
    "bt_get (cs_default_bindings c) k = Some (cb_binding_id b) \<or>
         {b' \<in> set cands. binding_available c b' av} = {b}"
    by simp_all
qed

lemma policy_choice_ok:
  assumes "policy_choice c k p cands = Inr b" "cands \<noteq> []"
  shows "b \<in> set cands \<and>
    (bt_get (cs_default_bindings c) k = Some (cb_binding_id b) \<or> (p \<noteq> None \<and> cands = [b]))"
  using assms
  by (auto simp: policy_choice_def Let_def bind_eq_Some_conv length_Suc_conv
      dest!: find_Some_iff_mem split: option.splits if_splits)

lemma resolve_pinned_ok:
  assumes "resolve_pinned c k q p av = Inr r"
  shows "\<exists>m b. normalize_model c q = Inr m \<and> r = resolved k (Some m) b \<and>
    b \<in> set (cs_bindings c) \<and> cb_capability_id b = k \<and> cb_model_id b = m \<and>
    (\<forall>x. p = Some x \<longrightarrow> binding_connector b = Some x) \<and> binding_available c b av"
  using assms select_unique_ok(1,2)
  by (fastforce simp: resolve_pinned_def result_simps Let_def split: if_splits)

lemma resolve_policy_ok:
  assumes "resolve_policy c k p av = Inr r"
  shows "\<exists>b. r = resolved k None b \<and>
    b \<in> set (cs_bindings c) \<and> cb_capability_id b = k \<and>
    (\<forall>x. p = Some x \<longrightarrow> binding_connector b = Some x) \<and> binding_available c b av \<and>
    (bt_get (cs_default_bindings c) k = Some (cb_binding_id b) \<or>
     (p \<noteq> None \<and> prefer_connector p (bindings_for_capability c k) = [b]))"
proof -
  let ?cands = "prefer_connector p (bindings_for_capability c k)"
  from assms obtain b where b: "?cands \<noteq> []" "policy_choice c k p ?cands = Inr b"
    "binding_available c b av" "r = resolved k None b"
    by (auto simp: resolve_policy_def result_simps Let_def split: if_splits)
  from policy_choice_ok [OF b(2,1)] b(3,4) show ?thesis by auto
qed

text \<open>What any successful resolution promises.\<close>

lemma resolve_ok:
  assumes "resolve c rq av = Inr r"
  shows "\<exists>b req. r = resolved (rq_capability_id rq) req b \<and> b \<in> set (cs_bindings c) \<and>
    cb_capability_id b = rq_capability_id rq \<and> binding_available c b av \<and>
    (\<forall>x. rq_connector_preference rq = Some x \<longrightarrow> binding_connector b = Some x) \<and>
    catalog_capability c (rq_capability_id rq) \<noteq> None"
  using assms
  by (auto simp: resolve_def split: if_splits option.splits
      dest!: resolve_pinned_ok resolve_policy_ok)

section \<open>The contract the compiler and the migration rely on\<close>

locale capability_resolution =
  fixes resolver :: "'cat \<Rightarrow> resolve_request \<Rightarrow> connector_availability \<Rightarrow> 'err + resolved_implementation"
    and lookup_binding :: "'cat \<Rightarrow> string \<Rightarrow> capability_binding option"
    and lookup_capability :: "'cat \<Rightarrow> string \<Rightarrow> capability_definition option"
    and usable :: "'cat \<Rightarrow> capability_binding \<Rightarrow> connector_availability \<Rightarrow> bool"
    and integrity :: "'cat \<Rightarrow> bool"
  assumes resolver_capability:
      "resolver c rq av = Inr r \<Longrightarrow>
         ri_capability_id r = rq_capability_id rq \<and> lookup_capability c (rq_capability_id rq) \<noteq> None"
    and resolver_binding_exists: "resolver c rq av = Inr r \<Longrightarrow> lookup_binding c (ri_binding_id r) \<noteq> None"
    and resolver_binding:
      "integrity c \<Longrightarrow> resolver c rq av = Inr r \<Longrightarrow> \<exists>b. lookup_binding c (ri_binding_id r) = Some b \<and>
         cb_capability_id b = ri_capability_id r \<and> cb_model_id b = ri_resolved_model_id r \<and>
         cb_binding_revision b = ri_binding_revision r \<and> cb_implementation b = ri_target r \<and>
         usable c b av"
begin

text \<open>The two \<open>expect\<close>/\<open>ok_or\<close> lookups a caller makes with a resolved result succeed.\<close>

lemma capability_of_result:
  assumes "resolver c rq av = Inr r"
  obtains d where "lookup_capability c (ri_capability_id r) = Some d"
  using resolver_capability [OF assms] by auto

lemma binding_of_result:
  assumes "resolver c rq av = Inr r"
  obtains b where "lookup_binding c (ri_binding_id r) = Some b"
  using resolver_binding_exists [OF assms] by auto

lemma binding_of_result_matches:
  assumes "integrity c" "resolver c rq av = Inr r" "lookup_binding c (ri_binding_id r) = Some b"
  shows "cb_capability_id b = rq_capability_id rq" "cb_model_id b = ri_resolved_model_id r"
    "usable c b av"
  using resolver_binding [OF assms(1,2)] resolver_capability [OF assms(2)] assms(3) by auto

end

interpretation res: capability_resolution resolve catalog_binding catalog_capability
  binding_available catalog_wf
proof unfold_locales
  fix c rq av r
  assume r: "resolve c rq av = Inr r"
  from resolve_ok [OF r] show
    "ri_capability_id r = rq_capability_id rq \<and> catalog_capability c (rq_capability_id rq) \<noteq> None"
    by (auto simp: resolved_def)
  from resolve_ok [OF r] show "catalog_binding c (ri_binding_id r) \<noteq> None"
    using catalog_binding_exists by (fastforce simp: resolved_def)
  assume "catalog_wf c"
  then show "\<exists>b. catalog_binding c (ri_binding_id r) = Some b \<and>
      cb_capability_id b = ri_capability_id r \<and> cb_model_id b = ri_resolved_model_id r \<and>
      cb_binding_revision b = ri_binding_revision r \<and> cb_implementation b = ri_target r \<and>
      binding_available c b av"
    using resolve_ok [OF r] catalog_binding_mem by (fastforce simp: resolved_def)
qed

section \<open>Properties\<close>

text \<open>
  C3: a successful resolution names a binding of the catalog that implements the requested
  capability, is enabled, sits on a declared, enabled connector the caller reported
  available, and honours the connector preference.  There is no silent fallback.
\<close>

theorem resolve_sound:
  assumes "resolve c rq av = Inr r"
  shows "\<exists>b k cn. b \<in> set (cs_bindings c) \<and>
    ri_binding_id r = cb_binding_id b \<and> ri_resolved_model_id r = cb_model_id b \<and>
    ri_capability_id r = rq_capability_id rq \<and> cb_capability_id b = rq_capability_id rq \<and>
    cb_availability b = BindingEnabled \<and> binding_connector b = Some k \<and>
    catalog_connector c k = Some cn \<and> cn_enabled cn \<and> bt_get av k = Some True \<and>
    (\<forall>p. rq_connector_preference rq = Some p \<longrightarrow> k = p)"
  using resolve_ok [OF assms]
  by (auto simp: resolved_def binding_available_def binding_connector_def
      split: implementation_target.splits option.splits if_splits)

text \<open>
  a pinned request runs exactly the model it names.  The result's model is the only
  model of the catalog whose id, id tail, display name or alias normalises like the query;
  an ambiguous or unknown name never resolves.
\<close>

theorem resolve_pinned_exact:
  assumes "rq_requested_model rq = Some q" "resolve c rq av = Inr r"
  shows "models_named c q = {ri_resolved_model_id r} \<and>
    ri_requested_model_id r = Some (ri_resolved_model_id r)"
proof -
  from assms have "resolve_pinned c (rq_capability_id rq) q (rq_connector_preference rq) av = Inr r"
    by (auto simp: resolve_def split: if_splits)
  from resolve_pinned_ok [OF this] show ?thesis
    by (auto simp: resolved_def normalize_model_ok)
qed

text \<open>
  a policy request without a connector preference runs the configured default binding
  of the capability and nothing else.
\<close>

theorem resolve_policy_default:
  assumes "rq_requested_model rq = None" "rq_connector_preference rq = None"
    and "resolve c rq av = Inr r"
  shows "bt_get (cs_default_bindings c) (rq_capability_id rq) = Some (ri_binding_id r) \<and>
    ri_requested_model_id r = None"
proof -
  from assms have "resolve_policy c (rq_capability_id rq) None av = Inr r"
    by (auto simp: resolve_def split: if_splits)
  from resolve_policy_ok [OF this] show ?thesis
    by (auto simp: resolved_def)
qed

text \<open>
  Name normalisation is stable: normalising twice is normalising once, and a query
  resolves to a model exactly when its normal form is not empty and names one model.
\<close>

theorem normalize_model_exact:
  "normalize_name (normalize_name q) = normalize_name q \<and>
   (normalize_model c q = Inr m \<longleftrightarrow> normalize_name q \<noteq> '''' \<and> models_named c q = {m})"
  by (simp add: normalize_model_ok)

subsection \<open>A concrete catalog for the witnesses\<close>

definition sample_binding :: capability_binding where
  "sample_binding = \<lparr>
     cb_binding_id = ''b1'', cb_capability_id = ''text_to_image'', cb_model_id = ''google/nano'',
     cb_implementation = ApiConnector ''atlas'' ''op'', cb_mode = ''text_to_image'',
     cb_input_schema = \<lparr>sc_required = [], sc_properties = [], sc_allow_unknown = False\<rparr>,
     cb_output_schema = \<lparr>sc_required = [], sc_properties = [], sc_allow_unknown = False\<rparr>,
     cb_defaults = JObject [], cb_availability = BindingEnabled, cb_binding_revision = ''v1''\<rparr>"

definition sample_catalog :: catalog_snapshot where
  "sample_catalog = \<lparr>
     cs_catalog_revision = ''r1'',
     cs_capabilities = [\<lparr>cd_capability_id = ''text_to_image'', cd_node_type = ''image.generate'',
       cd_category = CatImage, cd_display_name = ''Text To Image'', cd_description = ''d'',
       cd_inputs = [], cd_outputs = [],
       cd_params_schema = \<lparr>sc_required = [], sc_properties = [], sc_allow_unknown = False\<rparr>\<rparr>],
     cs_models = [\<lparr>md_model_id = ''google/nano'', md_family_id = ''nano'', md_display_name = ''Nano'',
       md_vendor = ''google'', md_lifecycle = LifecycleActive, md_aliases = []\<rparr>],
     cs_bindings = [sample_binding],
     cs_connectors = [\<lparr>cn_connector_id = ''atlas'', cn_provider_id = ''atlas'', cn_kind = KindApi,
       cn_enabled = True, cn_status = ConnActive\<rparr>],
     cs_workflow_backends = [],
     cs_default_bindings = [(''text_to_image'', ''b1'')]\<rparr>"

definition sample_pinned :: resolve_request where
  "sample_pinned = \<lparr>rq_capability_id = ''text_to_image'', rq_requested_model = Some ''NANO-'',
     rq_connector_preference = Some ''atlas''\<rparr>"

definition sample_policy :: resolve_request where
  "sample_policy = \<lparr>rq_capability_id = ''text_to_image'', rq_requested_model = None,
     rq_connector_preference = None\<rparr>"

lemmas sample_defs = sample_binding_def sample_catalog_def sample_pinned_def sample_policy_def

lemmas resolve_defs = resolve_def resolve_pinned_def resolve_policy_def policy_choice_def
  select_unique_def prefer_connector_def bindings_for_pair_def bindings_for_capability_def
  catalog_capability_def catalog_connector_def catalog_binding_def catalog_model_def
  binding_available_def binding_connector_def normalize_model_def model_names_def
  normalize_name_def space_separator_def trim_end_def is_whitespace_def to_lowercase_def
  is_ascii_uppercase_def byte_def dedup_def binding_ids_def resolved_def
  Let_def char_of_def bit_0

lemma sample_resolve_pinned:
  "resolve sample_catalog sample_pinned [(''atlas'', True)] =
     Inr (resolved ''text_to_image'' (Some ''google/nano'') sample_binding)"
  by (simp add: sample_defs resolve_defs)

lemma sample_resolve_policy:
  "resolve sample_catalog sample_policy [(''atlas'', True)] =
     Inr (resolved ''text_to_image'' None sample_binding)"
  by (simp add: sample_defs resolve_defs)

theorem resolve_sound_witness:
  "\<exists>b k cn. b \<in> set (cs_bindings sample_catalog) \<and>
    ''b1'' = cb_binding_id b \<and> ''google/nano'' = cb_model_id b \<and>
    cb_capability_id b = ''text_to_image'' \<and>
    cb_availability b = BindingEnabled \<and> binding_connector b = Some k \<and>
    catalog_connector sample_catalog k = Some cn \<and> cn_enabled cn \<and> k = ''atlas''"
  using resolve_sound [OF sample_resolve_pinned]
  by (auto simp: sample_pinned_def resolved_def sample_binding_def)

theorem resolve_pinned_exact_witness: "models_named sample_catalog ''NANO-'' = {''google/nano''}"
  using resolve_pinned_exact [OF _ sample_resolve_pinned, of "''NANO-''"]
  by (simp add: sample_pinned_def resolved_def sample_binding_def)

theorem resolve_policy_default_witness:
  "bt_get (cs_default_bindings sample_catalog) ''text_to_image'' = Some ''b1''"
  using resolve_policy_default [OF _ _ sample_resolve_policy]
  by (simp add: sample_policy_def resolved_def sample_binding_def)

end
