(* ===== verification/Semantics.thy ===== *)
theory Semantics
  imports Graph_Service Resolver
begin

text \<open>
  The node-embedded semantic layer (crates/graph/src/semantics.rs): validation of the catalog
  pinned entries of a graph, and the migration of legacy graphs.
\<close>

section \<open>Errors\<close>

datatype semantics_error =
    SE_CatalogRevisionMissing
  | SE_CatalogRevisionStale string string
  | SE_StructuralInvalid string
  | SE_MissingSemantics string
  | SE_UnexpectedSemantics string
  | SE_CapabilityNotFound string string
  | SE_CapabilityMismatch string string string
  | SE_BindingNotFound string string
  | SE_BindingMismatch string string string
  | SE_PinnedModelMismatch string string string
  | SE_PolicyDefaultMissing string string
  | SE_ParamsInvalid string string

fun semantics_error_code :: "semantics_error \<Rightarrow> string" where
  "semantics_error_code SE_CatalogRevisionMissing = ''CATALOG_REVISION_MISSING''"
| "semantics_error_code (SE_CatalogRevisionStale _ _) = ''CATALOG_REVISION_STALE''"
| "semantics_error_code (SE_StructuralInvalid _) = ''STRUCTURAL_INVALID''"
| "semantics_error_code (SE_MissingSemantics _) = ''MISSING_SEMANTICS''"
| "semantics_error_code (SE_UnexpectedSemantics _) = ''UNEXPECTED_SEMANTICS''"
| "semantics_error_code (SE_CapabilityNotFound _ _) = ''CAPABILITY_NOT_FOUND''"
| "semantics_error_code (SE_CapabilityMismatch _ _ _) = ''MODEL_CAPABILITY_MISMATCH''"
| "semantics_error_code (SE_BindingNotFound _ _) = ''BINDING_NOT_FOUND''"
| "semantics_error_code (SE_BindingMismatch _ _ _) = ''BINDING_NOT_FOUND''"
| "semantics_error_code (SE_PinnedModelMismatch _ _ _) = ''PINNED_MODEL_MISMATCH''"
| "semantics_error_code (SE_PolicyDefaultMissing _ _) = ''BINDING_AMBIGUOUS''"
| "semantics_error_code (SE_ParamsInvalid _ _) = ''REQUIRED_INPUT_MISSING''"

fun semantics_error_display :: "semantics_error \<Rightarrow> string" where
  "semantics_error_display SE_CatalogRevisionMissing =
     ''graph carries node semantics but no catalog revision''"
| "semantics_error_display (SE_CatalogRevisionStale g c) =
     ''graph catalog revision '' @ bq g @ '' does not match catalog '' @ bq c"
| "semantics_error_display (SE_StructuralInvalid m) = ''structural validation failed: '' @ m"
| "semantics_error_display (SE_MissingSemantics n) =
     ''executable node '' @ bq n @ '' has no semantics entry''"
| "semantics_error_display (SE_UnexpectedSemantics n) =
     ''semantics entry on non-executable node '' @ bq n"
| "semantics_error_display (SE_CapabilityNotFound n c) =
     ''node '' @ bq n @ '' references capability '' @ bq c @ '' not in catalog''"
| "semantics_error_display (SE_CapabilityMismatch n t c) =
     ''node '' @ bq n @ '' of type '' @ bq t @ '' cannot carry capability '' @ bq c"
| "semantics_error_display (SE_BindingNotFound n b) =
     ''node '' @ bq n @ '' references unknown binding '' @ bq b"
| "semantics_error_display (SE_BindingMismatch n b r) =
     ''node '' @ bq n @ '' binding '' @ bq b @ '' is inconsistent: '' @ r"
| "semantics_error_display (SE_PinnedModelMismatch n q b) =
     ''node '' @ bq n @ '' pinned '' @ bq q @ '' but binding executes '' @ bq b"
| "semantics_error_display (SE_PolicyDefaultMissing n c) =
     ''node '' @ bq n @ '' uses policy selection but capability '' @ bq c
     @ '' has no configured default binding''"
| "semantics_error_display (SE_ParamsInvalid n m) =
     ''node '' @ bq n @ '' params do not satisfy the binding schema: '' @ m"

section \<open>Validation\<close>

definition collected_semantics :: "workflow_graph \<Rightarrow> (string, node_semantics_entry) btree_map" where
  "collected_semantics g = List.map_filter
     (\<lambda>(i, n). map_option (\<lambda>entry. (i, entry)) (gn_semantics n)) (wg_nodes g)"

definition validate_pinned ::
  "string \<Rightarrow> json \<Rightarrow> string btree_set \<Rightarrow> node_semantics_entry \<Rightarrow> string \<Rightarrow> string
   \<Rightarrow> catalog_snapshot \<Rightarrow> semantics_error + unit" where
  "validate_pinned node_id params wired entry requested_model_id binding_id c =
     (case catalog_binding c binding_id of
        None \<Rightarrow> Inl (SE_BindingNotFound node_id binding_id)
      | Some b \<Rightarrow>
          if cb_capability_id b \<noteq> ns_capability_id entry
          then Inl (SE_BindingMismatch node_id binding_id
            (''binding implements '' @ bq (cb_capability_id b) @ '', node declares ''
             @ bq (ns_capability_id entry)))
          else if cb_model_id b \<noteq> requested_model_id
          then Inl (SE_PinnedModelMismatch node_id requested_model_id (cb_model_id b))
          else if cb_mode b \<noteq> ns_mode entry
          then Inl (SE_BindingMismatch node_id binding_id
            (''binding mode '' @ bq (cb_mode b) @ '' does not match node mode '' @ bq (ns_mode entry)))
          else map_err (\<lambda>err. SE_ParamsInvalid node_id (registry_error_display err))
            (validate_value_with_wired (cb_input_schema b) binding_id params wired))"

definition validate_entry ::
  "string \<Rightarrow> string \<Rightarrow> json \<Rightarrow> string btree_set \<Rightarrow> string \<Rightarrow> node_semantics_entry
   \<Rightarrow> catalog_snapshot \<Rightarrow> semantics_error + unit" where
  "validate_entry node_id node_type params wired expected_capability entry c =
     (if ns_capability_id entry \<noteq> expected_capability
      then Inl (SE_CapabilityMismatch node_id node_type (ns_capability_id entry))
      else if catalog_capability c (ns_capability_id entry) = None
      then Inl (SE_CapabilityNotFound node_id (ns_capability_id entry))
      else case ns_implementation entry of
          Pinned requested_model_id binding_id \<Rightarrow>
            validate_pinned node_id params wired entry requested_model_id binding_id c
        | Policy _ _ \<Rightarrow>
            (case bt_get (cs_default_bindings c) (ns_capability_id entry) of
               None \<Rightarrow> Inl (SE_PolicyDefaultMissing node_id (ns_capability_id entry))
             | Some default_id \<Rightarrow>
                 if catalog_binding c default_id = None
                 then Inl (SE_BindingNotFound node_id default_id) else Inr ()))"

definition wired_ports :: "workflow_graph \<Rightarrow> string \<Rightarrow> string btree_set" where
  "wired_ports g node_id =
     bs_from_list (map (\<lambda>e. snd (ge_to e)) (filter (\<lambda>e. edge_target e = node_id) (wg_edges g)))"

definition validate_node_semantics ::
  "node_registry \<Rightarrow> catalog_snapshot \<Rightarrow> workflow_graph \<Rightarrow> string \<times> graph_node \<Rightarrow> semantics_error + unit" where
  "validate_node_semantics reg c g p = (case p of (node_id, n) \<Rightarrow>
     res_bind (map_err (\<lambda>err. SE_StructuralInvalid (registry_error_display err))
                 (registry_definition reg (gn_node_type n))) (\<lambda>d.
       case nd_capability d of
         Some capability \<Rightarrow>
           (case gn_semantics n of
              None \<Rightarrow> Inl (SE_MissingSemantics node_id)
            | Some entry \<Rightarrow>
                validate_entry node_id (gn_node_type n) (gn_params n) (wired_ports g node_id)
                  capability entry c)
       | None \<Rightarrow>
           if gn_semantics n \<noteq> None then Inl (SE_UnexpectedSemantics node_id) else Inr ()))"

definition validate_semantics ::
  "node_registry \<Rightarrow> catalog_snapshot \<Rightarrow> workflow_graph \<Rightarrow> semantics_error + unit" where
  "validate_semantics reg c g =
     (case wg_catalog_revision g of
        None \<Rightarrow> Inl SE_CatalogRevisionMissing
      | Some graph_revision \<Rightarrow>
          if graph_revision \<noteq> cs_catalog_revision c
          then Inl (SE_CatalogRevisionStale graph_revision (cs_catalog_revision c))
          else res_bind (map_err (\<lambda>err. SE_StructuralInvalid (graph_error_display err))
                           (validate_graph reg g)) (\<lambda>_.
               check_all (validate_node_semantics reg c g) (wg_nodes g)))"

section \<open>Migration\<close>

datatype migration_reason_code =
    MC_UnknownNodeType | MC_CapabilityNotFound | MC_ModelNotFound | MC_ModelAmbiguous
  | MC_ModelCapabilityMismatch | MC_BindingNotFound | MC_BindingAmbiguous
  | MC_DefaultBindingMissing | MC_WorkspaceConnectorIncompatible

datatype migration_action =
    Structural
  | MappedPolicy string
  | MappedPinned string string string
  | NeedsResolution migration_reason_code string
  | NeedsUserChoice migration_reason_code "string list"

record node_migration =
  nm_node_id :: string
  nm_action :: migration_action

record migration_report =
  mr_migration_version :: string
  mr_source_schema_version :: u32
  mr_catalog_revision :: string
  mr_nodes :: "node_migration list"
  mr_resolvable :: bool

definition all_connectors_available :: "catalog_snapshot \<Rightarrow> connector_availability" where
  "all_connectors_available c = bt_from_list (map (\<lambda>k. (cn_connector_id k, True)) (cs_connectors c))"

definition connector_blocked :: "resolve_error \<Rightarrow> bool" where
  "connector_blocked e = (case e of
     RS_BindingNotFound _ _ \<Rightarrow> True | RS_BindingUnavailable _ _ \<Rightarrow> True | _ \<Rightarrow> False)"

definition resolve_error_reason :: "resolve_error \<Rightarrow> bool \<Rightarrow> migration_action" where
  "resolve_error_reason e pinned = (case e of
     RS_ModelAmbiguous _ candidates \<Rightarrow> NeedsUserChoice MC_ModelAmbiguous (sorted_ids candidates)
   | RS_CapabilityNotFound _ \<Rightarrow>
       NeedsResolution MC_CapabilityNotFound ''node capability is not present in the catalog''
   | RS_ModelNotFound _ \<Rightarrow>
       NeedsResolution MC_ModelNotFound ''declared model is not present in the catalog''
   | RS_BindingNotFound _ _ \<Rightarrow>
       if pinned
       then NeedsResolution MC_ModelCapabilityMismatch
              ''declared model does not implement the node capability''
       else NeedsResolution MC_BindingNotFound
              ''no usable catalog binding implements the node capability''
   | RS_BindingUnavailable _ _ \<Rightarrow>
       NeedsResolution MC_BindingNotFound ''no usable catalog binding implements the node capability''
   | RS_BindingAmbiguous _ _ \<Rightarrow>
       NeedsResolution MC_BindingAmbiguous ''multiple catalog bindings match the node capability'')"

definition resolve_error_action ::
  "resolve_error \<Rightarrow> resolve_request \<Rightarrow> catalog_snapshot \<Rightarrow> bool \<Rightarrow> string option \<Rightarrow> migration_action" where
  "resolve_error_action e rq c pinned workspace_connector_id =
     (if workspace_connector_id \<noteq> None \<and> connector_blocked e \<and>
         is_ok (resolve c (rq\<lparr>rq_connector_preference := None\<rparr>) (all_connectors_available c))
      then NeedsResolution MC_WorkspaceConnectorIncompatible
             ''no compatible binding exists for the workspace connector''
      else resolve_error_reason e pinned)"

definition migrate_executable_node ::
  "string \<Rightarrow> string option \<Rightarrow> connector_availability \<Rightarrow> catalog_snapshot \<Rightarrow> string option
   \<Rightarrow> migration_action + node_semantics_entry \<times> migration_action" where
  "migrate_executable_node capability_id legacy_model available c workspace_connector_id =
     (if catalog_capability c capability_id = None
      then Inl (NeedsResolution MC_CapabilityNotFound
                  (''capability '' @ bq capability_id @ '' is not in the catalog''))
      else case legacy_model of
        Some model \<Rightarrow>
          (let rq = \<lparr>rq_capability_id = capability_id, rq_requested_model = Some model,
                     rq_connector_preference = workspace_connector_id\<rparr>
           in case resolve c rq available of
                Inr r \<Rightarrow> Inr (\<lparr>ns_capability_id = capability_id, ns_mode = capability_id,
                    ns_implementation = Pinned (ri_resolved_model_id r) (ri_binding_id r)\<rparr>,
                  MappedPinned capability_id (ri_resolved_model_id r) (ri_binding_id r))
              | Inl e \<Rightarrow> Inl (resolve_error_action e rq c True workspace_connector_id))
      | None \<Rightarrow>
          (let rq = \<lparr>rq_capability_id = capability_id, rq_requested_model = None,
                     rq_connector_preference = workspace_connector_id\<rparr>
           in if \<not> bt_contains (cs_default_bindings c) capability_id
              then Inl (NeedsResolution MC_DefaultBindingMissing
                (''no declared model and capability '' @ bq capability_id
                 @ '' has no configured default binding''))
              else case resolve c rq available of
                Inl e \<Rightarrow> Inl (resolve_error_action e rq c False workspace_connector_id)
              | Inr _ \<Rightarrow> Inr (\<lparr>ns_capability_id = capability_id, ns_mode = capability_id,
                    ns_implementation = Policy ''capability_default'' (JObject [])\<rparr>,
                  MappedPolicy capability_id)))"

text \<open>The effect of a mapped node on the migrated copy: the declared model leaves the parameters.\<close>

definition embed_entry :: "string option \<Rightarrow> node_semantics_entry \<Rightarrow> graph_node \<Rightarrow> graph_node" where
  "embed_entry legacy_model entry n =
     n\<lparr>gn_params := (case (legacy_model, gn_params n) of
          (Some _, JObject m) \<Rightarrow> JObject (bt_remove ''model'' m)
        | _ \<Rightarrow> gn_params n),
       gn_semantics := Some entry\<rparr>"

definition legacy_model_of :: "graph_node \<Rightarrow> string option" where
  "legacy_model_of n = Option.bind (json_get (gn_params n) ''model'') as_str"

record migration_state =
  mg_migrated :: workflow_graph
  mg_nodes :: "node_migration list"
  mg_resolvable :: bool

definition migrate_node ::
  "node_registry \<Rightarrow> catalog_snapshot \<Rightarrow> connector_availability \<Rightarrow> string option
   \<Rightarrow> string \<times> graph_node \<Rightarrow> migration_state \<Rightarrow> migration_state" where
  "migrate_node reg c available workspace_connector_id p s = (case p of (node_id, n) \<Rightarrow>
     (let record_action = (\<lambda>action st. st\<lparr>mg_nodes := mg_nodes st @
            [\<lparr>nm_node_id = node_id, nm_action = action\<rparr>]\<rparr>)
      in case registry_definition reg (gn_node_type n) of
        Inl err \<Rightarrow> record_action (NeedsResolution MC_UnknownNodeType
            (''unknown node type: '' @ registry_error_display err)) (s\<lparr>mg_resolvable := False\<rparr>)
      | Inr d \<Rightarrow>
        (case nd_capability d of
           None \<Rightarrow> record_action Structural s
         | Some capability_id \<Rightarrow>
             (case migrate_executable_node capability_id (legacy_model_of n) available c
                     workspace_connector_id of
                Inr (entry, action) \<Rightarrow> record_action action
                  (s\<lparr>mg_migrated := (mg_migrated s)\<lparr>wg_nodes :=
                     bt_modify node_id (embed_entry (legacy_model_of n) entry)
                       (wg_nodes (mg_migrated s))\<rparr>\<rparr>)
              | Inl action \<Rightarrow> record_action action (s\<lparr>mg_resolvable := False\<rparr>)))))"

definition migrate_v1_with_connector ::
  "workflow_graph \<Rightarrow> node_registry \<Rightarrow> catalog_snapshot \<Rightarrow> string option
   \<Rightarrow> workflow_graph option \<times> migration_report" where
  "migrate_v1_with_connector g reg c workspace_connector_id =
     (let available = (case workspace_connector_id of
            Some connector_id \<Rightarrow> bt_from_list [(connector_id, True)]
          | None \<Rightarrow> all_connectors_available c);
          s = fold (migrate_node reg c available workspace_connector_id) (wg_nodes g)
                \<lparr>mg_migrated = g, mg_nodes = [], mg_resolvable = True\<rparr>
      in (if mg_resolvable s
          then Some ((mg_migrated s)\<lparr>wg_catalog_revision := Some (cs_catalog_revision c)\<rparr>) else None,
          \<lparr>mr_migration_version = ''1'', mr_source_schema_version = wg_schema_version g,
           mr_catalog_revision = cs_catalog_revision c, mr_nodes = mg_nodes s,
           mr_resolvable = mg_resolvable s\<rparr>))"

definition migrate_v1 ::
  "workflow_graph \<Rightarrow> node_registry \<Rightarrow> catalog_snapshot \<Rightarrow> workflow_graph option \<times> migration_report" where
  "migrate_v1 g reg c = migrate_v1_with_connector g reg c None"

definition migrate_v1_for_connector ::
  "workflow_graph \<Rightarrow> node_registry \<Rightarrow> catalog_snapshot \<Rightarrow> string
   \<Rightarrow> workflow_graph option \<times> migration_report" where
  "migrate_v1_for_connector g reg c connector_id = migrate_v1_with_connector g reg c (Some connector_id)"

section \<open>What validation accepts\<close>

definition entry_consistent ::
  "catalog_snapshot \<Rightarrow> json \<Rightarrow> string set \<Rightarrow> string \<Rightarrow> node_semantics_entry \<Rightarrow> bool" where
  "entry_consistent c params wired capability entry \<longleftrightarrow>
     ns_capability_id entry = capability \<and> catalog_capability c capability \<noteq> None \<and>
     (case ns_implementation entry of
        Pinned model binding_id \<Rightarrow>
          (\<exists>b m. catalog_binding c binding_id = Some b \<and> cb_capability_id b = capability \<and>
             cb_model_id b = model \<and> cb_mode b = ns_mode entry \<and>
             params = JObject m \<and> params_conform (cb_input_schema b) m wired)
      | Policy _ _ \<Rightarrow>
          (\<exists>default_id. bt_get (cs_default_bindings c) capability = Some default_id \<and>
             catalog_binding c default_id \<noteq> None))"

definition node_semantics_ok ::
  "node_registry \<Rightarrow> catalog_snapshot \<Rightarrow> workflow_graph \<Rightarrow> string \<Rightarrow> graph_node \<Rightarrow> bool" where
  "node_semantics_ok reg c g i n \<longleftrightarrow>
     (case bt_get (reg_definitions reg) (gn_node_type n) of
        None \<Rightarrow> False
      | Some d \<Rightarrow>
          (case (nd_capability d, gn_semantics n) of
             (Some capability, Some entry) \<Rightarrow>
               entry_consistent c (gn_params n)
                 {port. \<exists>e\<in>set (wg_edges g). ge_to e = (i, port)} capability entry
           | (None, None) \<Rightarrow> True
           | _ \<Rightarrow> False))"

lemma set_wired_ports: "set (wired_ports g i) = {port. \<exists>e\<in>set (wg_edges g). ge_to e = (i, port)}"
  by (force simp: wired_ports_def)

lemma validate_pinned_ok [result_simps]:
  "validate_pinned i params wired entry q b c = Inr u \<longleftrightarrow>
     (\<exists>bd m. catalog_binding c b = Some bd \<and> cb_capability_id bd = ns_capability_id entry \<and>
        cb_model_id bd = q \<and> cb_mode bd = ns_mode entry \<and>
        params = JObject m \<and> params_conform (cb_input_schema bd) m (set wired))"
  by (auto simp: validate_pinned_def result_simps split: option.splits)

lemma validate_entry_ok [result_simps]:
  "validate_entry i t params wired capability entry c = Inr u \<longleftrightarrow>
     entry_consistent c params (set wired) capability entry"
  by (auto simp: validate_entry_def entry_consistent_def result_simps
      split: implementation_selection.splits option.splits)

lemma validate_node_semantics_ok [result_simps]:
  "validate_node_semantics reg c g (i, n) = Inr u \<longleftrightarrow> node_semantics_ok reg c g i n"
  by (auto simp: validate_node_semantics_def node_semantics_ok_def registry_definition_def
      result_simps set_wired_ports split: option.splits)

lemma validate_semantics_ok:
  assumes "bt_wf (wg_nodes g)"
  shows "validate_semantics reg c g = Inr u \<longleftrightarrow>
     wg_catalog_revision g = Some (cs_catalog_revision c) \<and> graph_valid reg g \<and>
     (\<forall>(i, n)\<in>set (wg_nodes g). node_semantics_ok reg c g i n)"
proof -
  have "validate_node_semantics reg c g x = Inr () \<longleftrightarrow>
      (case x of (i, n) \<Rightarrow> node_semantics_ok reg c g i n)" for x
    by (cases x) (simp add: result_simps)
  then show ?thesis
    by (auto simp: validate_semantics_def result_simps validate_graph_ok [OF assms]
        split: option.splits if_splits)
qed

section \<open>What migration does to a graph\<close>

text \<open>The outcome of one node, independent of the loop: its action and its migrated form.\<close>

definition node_outcome ::
  "node_registry \<Rightarrow> catalog_snapshot \<Rightarrow> connector_availability \<Rightarrow> string option
   \<Rightarrow> graph_node \<Rightarrow> migration_action \<times> graph_node" where
  "node_outcome reg c available k n =
     (case registry_definition reg (gn_node_type n) of
        Inl err \<Rightarrow> (NeedsResolution MC_UnknownNodeType
            (''unknown node type: '' @ registry_error_display err), n)
      | Inr d \<Rightarrow>
        (case nd_capability d of
           None \<Rightarrow> (Structural, n)
         | Some capability_id \<Rightarrow>
             (case migrate_executable_node capability_id (legacy_model_of n) available c k of
                Inr (entry, action) \<Rightarrow> (action, embed_entry (legacy_model_of n) entry n)
              | Inl action \<Rightarrow> (action, n))))"

definition is_mapped :: "migration_action \<Rightarrow> bool" where
  "is_mapped a = (case a of
     Structural \<Rightarrow> True | MappedPolicy _ \<Rightarrow> True | MappedPinned _ _ _ \<Rightarrow> True | _ \<Rightarrow> False)"

lemma resolve_error_action_unmapped: "\<not> is_mapped (resolve_error_action e rq c pinned k)"
  by (simp add: resolve_error_action_def resolve_error_reason_def is_mapped_def
      split: resolve_error.splits)

lemma migrate_executable_mapped:
  "migrate_executable_node k m av c w = Inr (entry, action) \<Longrightarrow> is_mapped action"
  "migrate_executable_node k m av c w = Inl action \<Longrightarrow> \<not> is_mapped action"
  by (auto simp: migrate_executable_node_def Let_def resolve_error_action_unmapped
      split: if_splits option.splits sum.splits) (simp_all add: is_mapped_def)

lemma bt_modify_middle:
  assumes "distinct (map fst (xs @ (i, n) # ys))"
  shows "bt_modify i f (xs @ (i, n) # ys) = xs @ (i, f n) # ys"
proof -
  have "bt_modify i f zs = zs" if "i \<notin> fst ` set zs" for zs
    using that by (induction zs) auto
  then show ?thesis using assms by (auto simp: bt_modify_def)
qed

lemma migrate_node_step:
  assumes "wg_nodes (mg_migrated s) = xs @ (i, n) # ys" "distinct (map fst (xs @ (i, n) # ys))"
  shows "migrate_node reg c av k (i, n) s = s\<lparr>
     mg_migrated := (mg_migrated s)\<lparr>wg_nodes := xs @ (i, snd (node_outcome reg c av k n)) # ys\<rparr>,
     mg_nodes := mg_nodes s @ [\<lparr>nm_node_id = i, nm_action = fst (node_outcome reg c av k n)\<rparr>],
     mg_resolvable := mg_resolvable s \<and> is_mapped (fst (node_outcome reg c av k n))\<rparr>"
proof -
  have same: "(mg_migrated s)\<lparr>wg_nodes := xs @ (i, n) # ys\<rparr> = mg_migrated s"
    by (simp flip: assms(1))
  show ?thesis
  proof (cases "registry_definition reg (gn_node_type n)")
    case (Inl err)
    then show ?thesis
      by (simp add: migrate_node_def node_outcome_def same is_mapped_def)
  next
    case (Inr d)
    show ?thesis
    proof (cases "nd_capability d")
      case None
      then show ?thesis
        using Inr by (simp add: migrate_node_def node_outcome_def same is_mapped_def)
    next
      case (Some cap)
      show ?thesis
      proof (cases "migrate_executable_node cap (legacy_model_of n) av c k")
        case (Inl a)
        then show ?thesis
          using Inr Some migrate_executable_mapped(2) [OF Inl]
          by (simp add: migrate_node_def node_outcome_def same)
      next
        case r: (Inr ea)
        obtain entry a where ea: "ea = (entry, a)" by (cases ea)
        then show ?thesis
          using Inr Some r migrate_executable_mapped(1) [OF r [unfolded ea]] assms
          by (simp add: migrate_node_def node_outcome_def bt_modify_middle)
      qed
    qed
  qed
qed

lemma migrate_fold:
  assumes "wg_nodes (mg_migrated s) = xs @ ps" "distinct (map fst (xs @ ps))"
  shows "fold (migrate_node reg c av k) ps s = s\<lparr>
     mg_migrated := (mg_migrated s)\<lparr>wg_nodes :=
        xs @ map (\<lambda>(i, n). (i, snd (node_outcome reg c av k n))) ps\<rparr>,
     mg_nodes := mg_nodes s @
        map (\<lambda>(i, n). \<lparr>nm_node_id = i, nm_action = fst (node_outcome reg c av k n)\<rparr>) ps,
     mg_resolvable := mg_resolvable s \<and>
        (\<forall>(i, n)\<in>set ps. is_mapped (fst (node_outcome reg c av k n)))\<rparr>"
  using assms
proof (induction ps arbitrary: xs s)
  case Nil
  then have "(mg_migrated s)\<lparr>wg_nodes := xs\<rparr> = mg_migrated s" by simp
  then show ?case by simp
next
  case (Cons p ps)
  obtain i n where p: "p = (i, n)" by (cases p)
  define s1 where "s1 = migrate_node reg c av k (i, n) s"
  note step = migrate_node_step [OF Cons.prems [unfolded p], of reg c av k]
  have "wg_nodes (mg_migrated s1) = (xs @ [(i, snd (node_outcome reg c av k n))]) @ ps"
    by (simp add: s1_def step)
  moreover have "distinct (map fst ((xs @ [(i, snd (node_outcome reg c av k n))]) @ ps))"
    using Cons.prems(2) by (simp add: p)
  ultimately have "fold (migrate_node reg c av k) ps s1 = s1\<lparr>
     mg_migrated := (mg_migrated s1)\<lparr>wg_nodes :=
        (xs @ [(i, snd (node_outcome reg c av k n))]) @
           map (\<lambda>(i, n). (i, snd (node_outcome reg c av k n))) ps\<rparr>,
     mg_nodes := mg_nodes s1 @
        map (\<lambda>(i, n). \<lparr>nm_node_id = i, nm_action = fst (node_outcome reg c av k n)\<rparr>) ps,
     mg_resolvable := mg_resolvable s1 \<and>
        (\<forall>(i, n)\<in>set ps. is_mapped (fst (node_outcome reg c av k n)))\<rparr>"
    by (rule Cons.IH)
  then show ?case by (simp add: p step s1_def)
qed

text \<open>The connectors the migration treats as up.\<close>

definition migration_availability :: "catalog_snapshot \<Rightarrow> string option \<Rightarrow> connector_availability" where
  "migration_availability c k = (case k of
     Some connector_id \<Rightarrow> bt_from_list [(connector_id, True)] | None \<Rightarrow> all_connectors_available c)"

lemma migrate_v1_result:
  assumes "bt_wf (wg_nodes g)" "migrate_v1_with_connector g reg c k = (out, report)"
  shows "mr_nodes report = map (\<lambda>(i, n). \<lparr>nm_node_id = i,
           nm_action = fst (node_outcome reg c (migration_availability c k) k n)\<rparr>) (wg_nodes g)"
    and "mr_resolvable report \<longleftrightarrow> (\<forall>m\<in>set (mr_nodes report). is_mapped (nm_action m))"
    and "out = (if mr_resolvable report then Some (g\<lparr>
           wg_nodes := map (\<lambda>(i, n). (i, snd (node_outcome reg c (migration_availability c k) k n))) (wg_nodes g),
           wg_catalog_revision := Some (cs_catalog_revision c)\<rparr>) else None)"
proof -
  let ?av = "migration_availability c k"
  note run = migrate_fold [of "\<lparr>mg_migrated = g, mg_nodes = [], mg_resolvable = True\<rparr>" "[]"
      "wg_nodes g" reg c ?av k, simplified, OF bt_wf_distinct [OF assms(1)]]
  have result: "(out, report) =
     (if \<forall>(i, n)\<in>set (wg_nodes g). is_mapped (fst (node_outcome reg c ?av k n))
      then Some (g\<lparr>wg_nodes := map (\<lambda>(i, n). (i, snd (node_outcome reg c ?av k n))) (wg_nodes g),
                   wg_catalog_revision := Some (cs_catalog_revision c)\<rparr>) else None,
      \<lparr>mr_migration_version = ''1'', mr_source_schema_version = wg_schema_version g,
       mr_catalog_revision = cs_catalog_revision c,
       mr_nodes = map (\<lambda>(i, n). \<lparr>nm_node_id = i, nm_action = fst (node_outcome reg c ?av k n)\<rparr>) (wg_nodes g),
       mr_resolvable = (\<forall>(i, n)\<in>set (wg_nodes g). is_mapped (fst (node_outcome reg c ?av k n)))\<rparr>)"
    unfolding assms(2) [symmetric] migrate_v1_with_connector_def
    by (simp add: run Let_def flip: migration_availability_def)
  then show "mr_nodes report = map (\<lambda>(i, n). \<lparr>nm_node_id = i,
           nm_action = fst (node_outcome reg c ?av k n)\<rparr>) (wg_nodes g)"
    and "out = (if mr_resolvable report then Some (g\<lparr>
           wg_nodes := map (\<lambda>(i, n). (i, snd (node_outcome reg c ?av k n))) (wg_nodes g),
           wg_catalog_revision := Some (cs_catalog_revision c)\<rparr>) else None)"
    by simp_all
  from result show "mr_resolvable report \<longleftrightarrow> (\<forall>m\<in>set (mr_nodes report). is_mapped (nm_action m))"
    by auto
qed

text \<open>What the entry embedded in an executable node promises: a declared model pinned to a binding
  that executes exactly that model, or the configured default policy.\<close>

definition declared_entry ::
  "catalog_snapshot \<Rightarrow> string \<Rightarrow> string option \<Rightarrow> node_semantics_entry \<Rightarrow> bool" where
  "declared_entry c cap legacy entry \<longleftrightarrow>
     ns_capability_id entry = cap \<and> ns_mode entry = cap \<and> catalog_capability c cap \<noteq> None \<and>
     (case legacy of
        Some q \<Rightarrow> \<exists>model b bd. ns_implementation entry = Pinned model b \<and>
          models_named c q = {model} \<and> catalog_binding c b = Some bd \<and>
          cb_capability_id bd = cap \<and> cb_model_id bd = model
      | None \<Rightarrow> ns_implementation entry = Policy ''capability_default'' (JObject []) \<and>
          bt_get (cs_default_bindings c) cap \<noteq> None)"

lemma migrate_executable_entry:
  assumes wf: "catalog_wf c" and "migrate_executable_node cap legacy av c k = Inr (entry, action)"
  shows "declared_entry c cap legacy entry"
proof (cases legacy)
  case None
  with assms(2) show ?thesis
    by (auto simp: declared_entry_def migrate_executable_node_def Let_def btree_simps
        split: if_splits sum.splits)
next
  case (Some q)
  let ?rq = "\<lparr>rq_capability_id = cap, rq_requested_model = Some q, rq_connector_preference = k\<rparr>"
  from assms(2) Some obtain r where r: "resolve c ?rq av = Inr r"
    "entry = \<lparr>ns_capability_id = cap, ns_mode = cap,
       ns_implementation = Pinned (ri_resolved_model_id r) (ri_binding_id r)\<rparr>"
    "catalog_capability c cap \<noteq> None"
    by (auto simp: migrate_executable_node_def Let_def split: if_splits sum.splits)
  from r(1) have "models_named c q = {ri_resolved_model_id r}"
    by (auto simp: resolve_def resolved_def normalize_model_ok dest!: resolve_pinned_ok split: if_splits)
  moreover obtain bd where "catalog_binding c (ri_binding_id r) = Some bd"
    by (rule res.binding_of_result [OF r(1)])
  ultimately show ?thesis
    using r(2,3) Some res.binding_of_result_matches [OF wf r(1)]
    by (auto simp: declared_entry_def)
qed

lemma node_outcome_mapped:
  assumes "catalog_wf c" "is_mapped (fst (node_outcome reg c av k n))"
  shows "\<exists>d. bt_get (reg_definitions reg) (gn_node_type n) = Some d \<and>
      (case nd_capability d of
         None \<Rightarrow> snd (node_outcome reg c av k n) = n
       | Some cap \<Rightarrow> \<exists>entry. declared_entry c cap (legacy_model_of n) entry \<and>
           snd (node_outcome reg c av k n) = embed_entry (legacy_model_of n) entry n)"
proof (cases "bt_get (reg_definitions reg) (gn_node_type n)")
  case None
  then show ?thesis
    using assms(2) by (simp add: node_outcome_def registry_definition_def is_mapped_def)
next
  case (Some d)
  show ?thesis
  proof (cases "nd_capability d")
    case None
    then show ?thesis using Some by (simp add: node_outcome_def registry_definition_def)
  next
    case cap: (Some cap)
    show ?thesis
    proof (cases "migrate_executable_node cap (legacy_model_of n) av c k")
      case (Inl a)
      then show ?thesis
        using assms(2) migrate_executable_mapped(2) [OF Inl] Some cap
        by (simp add: node_outcome_def registry_definition_def)
    next
      case (Inr ea)
      then show ?thesis
        using Some cap
        by (cases ea) (auto simp: node_outcome_def registry_definition_def
            dest: migrate_executable_entry [OF assms(1)])
    qed
  qed
qed

section \<open>Properties\<close>

text \<open>C7: the semantic layer is accepted exactly when the graph names the catalog's revision, is
  structurally valid, every executable node carries an entry for the capability of its type, pinned
  to an existing binding of that capability, model and mode whose schema its parameters satisfy (a
  wired input counts as given), or on a policy with an existing default binding, and no other node
  carries an entry.\<close>

theorem validate_semantics_exact:
  assumes "bt_wf (wg_nodes g)"
  shows "validate_semantics reg c g = Inr () \<longleftrightarrow>
     wg_catalog_revision g = Some (cs_catalog_revision c) \<and> graph_valid reg g \<and>
     (\<forall>(i, n)\<in>set (wg_nodes g). node_semantics_ok reg c g i n)"
  by (rule validate_semantics_ok [OF assms])

definition semantic_graph :: workflow_graph where
  "semantic_graph = sample_graph\<lparr>wg_catalog_revision := Some ''r1'',
     wg_nodes := [(''a'', (sample_node ''text_to_image'')\<lparr>gn_semantics := Some
        \<lparr>ns_capability_id = ''text_to_image'', ns_mode = ''text_to_image'',
         ns_implementation = Pinned ''google/nano'' ''b1''\<rparr>\<rparr>)], wg_edges := []\<rparr>"

definition semantic_registry :: node_registry where
  "semantic_registry = \<lparr>reg_definitions =
     [(''text_to_image'', sample_type ''text_to_image'' Image)]\<rparr>"

lemma validate_semantics_exact_witness:
  "validate_semantics semantic_registry sample_catalog semantic_graph = Inr ()"
proof -
  have wf: "bt_wf (wg_nodes semantic_graph)" by (simp add: semantic_graph_def)
  have "node_valid semantic_registry semantic_graph ''a'' n"
    if "bt_get (wg_nodes semantic_graph) ''a'' = Some n" for n
    using that by (auto simp: node_valid_def semantic_graph_def sample_service_defs invalid_size_def
        semantic_registry_def params_conform_def)
  then have "graph_valid semantic_registry semantic_graph"
    by (simp add: graph_valid_def semantic_graph_def exclusive_targets_def edge_rel_def
        sample_service_defs acyclic_def)
  moreover have "\<forall>(i, n)\<in>set (wg_nodes semantic_graph).
      node_semantics_ok semantic_registry sample_catalog semantic_graph i n"
    by (simp add: node_semantics_ok_def semantic_graph_def semantic_registry_def sample_service_defs
        entry_consistent_def catalog_capability_def catalog_binding_def sample_defs params_conform_def)
  ultimately show ?thesis
    using validate_semantics_exact [OF wf, of semantic_registry sample_catalog]
    by (simp add: semantic_graph_def sample_catalog_def)
qed

text \<open>Migration is a dry run unless it is total.  The report lists every node once, in id order,
  and is resolvable exactly when every node is structural or mapped; a graph is produced exactly
  then.\<close>

theorem migration_all_or_nothing:
  assumes "bt_wf (wg_nodes g)" "migrate_v1_with_connector g reg c k = (out, report)"
  shows "map nm_node_id (mr_nodes report) = bt_keys (wg_nodes g) \<and>
     (mr_resolvable report \<longleftrightarrow> (\<forall>m\<in>set (mr_nodes report). is_mapped (nm_action m))) \<and>
     (out \<noteq> None \<longleftrightarrow> mr_resolvable report)"
  using migrate_v1_result [OF assms] by (auto simp: bt_keys_def comp_def case_prod_beta)

lemma migration_all_or_nothing_witness:
  "map nm_node_id (mr_nodes (snd (migrate_v1 (semantic_graph\<lparr>wg_nodes := [(''a'', sample_node ''nope'')]\<rparr>)
      semantic_registry sample_catalog))) = [''a'']"
proof -
  let ?g = "semantic_graph\<lparr>wg_nodes := [(''a'', sample_node ''nope'')]\<rparr>"
  have "bt_wf (wg_nodes ?g)" by simp
  from migration_all_or_nothing [OF this, of semantic_registry sample_catalog None]
  show ?thesis by (cases "migrate_v1 ?g semantic_registry sample_catalog")
      (auto simp: migrate_v1_def bt_keys_def)
qed

text \<open>C8: a migrated graph keeps every edge, node id, type, title, position and size; it names the
  catalog revision; nodes without a capability are untouched; an executable node gets an entry for
  the capability of its type: the model its parameters declared, pinned to a binding that executes
  exactly that model (the declaration leaves the parameters), or, with no declared model, the
  configured default policy.  No model is ever inferred.\<close>

theorem migration_faithful:
  assumes "bt_wf (wg_nodes g)" "catalog_wf c" "migrate_v1_with_connector g reg c k = (Some g', report)"
  shows "wg_edges g' = wg_edges g \<and> wg_schema_version g' = wg_schema_version g \<and>
     wg_catalog_revision g' = Some (cs_catalog_revision c) \<and> bt_keys (wg_nodes g') = bt_keys (wg_nodes g) \<and>
     (\<forall>i n. bt_get (wg_nodes g) i = Some n \<longrightarrow>
        (\<exists>d. bt_get (reg_definitions reg) (gn_node_type n) = Some d \<and>
          (case nd_capability d of
             None \<Rightarrow> bt_get (wg_nodes g') i = Some n
           | Some cap \<Rightarrow> \<exists>entry. declared_entry c cap (legacy_model_of n) entry \<and>
               bt_get (wg_nodes g') i = Some (embed_entry (legacy_model_of n) entry n))))"
proof -
  let ?av = "migration_availability c k"
  note result = migrate_v1_result [OF assms(1,3)]
  from result(3) have res: "mr_resolvable report"
    and g': "g' = g\<lparr>wg_nodes := map (\<lambda>(i, n). (i, snd (node_outcome reg c ?av k n))) (wg_nodes g),
                    wg_catalog_revision := Some (cs_catalog_revision c)\<rparr>"
    by (auto split: if_splits)
  have node: "bt_get (wg_nodes g') i = Some (snd (node_outcome reg c ?av k n)) \<and>
      is_mapped (fst (node_outcome reg c ?av k n))" if "bt_get (wg_nodes g) i = Some n" for i n
  proof
    from that show "bt_get (wg_nodes g') i = Some (snd (node_outcome reg c ?av k n))"
      by (simp add: g' map_of_map)
    from result(2) res map_of_SomeD [OF that]
    show "is_mapped (fst (node_outcome reg c ?av k n))"
      unfolding result(1) by fastforce
  qed
  show ?thesis
  proof (intro conjI allI impI)
    fix i n
    assume n: "bt_get (wg_nodes g) i = Some n"
    from node_outcome_mapped [OF assms(2) conjunct2 [OF node [OF n]]]
    obtain d where d: "bt_get (reg_definitions reg) (gn_node_type n) = Some d"
      and out: "case nd_capability d of
         None \<Rightarrow> snd (node_outcome reg c ?av k n) = n
       | Some cap \<Rightarrow> \<exists>entry. declared_entry c cap (legacy_model_of n) entry \<and>
           snd (node_outcome reg c ?av k n) = embed_entry (legacy_model_of n) entry n"
      by blast
    show "\<exists>d. bt_get (reg_definitions reg) (gn_node_type n) = Some d \<and>
          (case nd_capability d of
             None \<Rightarrow> bt_get (wg_nodes g') i = Some n
           | Some cap \<Rightarrow> \<exists>entry. declared_entry c cap (legacy_model_of n) entry \<and>
               bt_get (wg_nodes g') i = Some (embed_entry (legacy_model_of n) entry n))"
      using d out conjunct1 [OF node [OF n]]
      by (intro exI [of _ d] conjI) (cases "nd_capability d"; auto)+
  qed (simp_all add: g' bt_keys_def comp_def case_prod_beta)
qed

lemma migration_faithful_witness:
  "\<exists>g'. fst (migrate_v1 (semantic_graph\<lparr>wg_nodes := [(''a'', sample_node ''text_to_image'')]\<rparr>)
       semantic_registry sample_catalog) = Some g' \<and> wg_catalog_revision g' = Some ''r1''"
proof -
  let ?g = "semantic_graph\<lparr>wg_nodes := [(''a'', sample_node ''text_to_image'')]\<rparr>"
  obtain g' r where m: "migrate_v1_with_connector ?g semantic_registry sample_catalog None = (Some g', r)"
    by (simp add: migrate_v1_with_connector_def all_connectors_available_def migrate_node_def
        semantic_registry_def sample_service_defs registry_definition_def legacy_model_of_def json_get_def
        migrate_executable_node_def resolve_defs sample_defs bt_contains_def bt_from_list_def)
  have "catalog_wf sample_catalog" by (simp add: catalog_wf_def sample_defs)
  from migration_faithful [OF _ this m] m show ?thesis
    by (simp add: migrate_v1_def sample_catalog_def)
qed

end
