(* ===== verification/Builtin.thy ===== *)
theory Builtin
  imports Catalog_Seed Semantics
begin

text \<open>
  The seeded catalog and the built-in registry (crates/registry/src/catalog_seed.rs, builtin.rs)
  meet what the rest of the system asks of a catalog and a registry.  The catalog digest stays a
  parameter: nothing here depends on it.
\<close>

lemmas seed_cap_defs = seed_capabilities_def seed_cap_prompt_writer_def seed_cap_text_to_image_def
  seed_cap_image_edit_def seed_cap_text_to_video_def seed_cap_image_to_video_def
  seed_cap_video_extend_def seed_cap_upscale_image_def seed_cap_upscale_video_def
  seed_cap_image_analyze_def seed_capability_def

lemmas seed_binding_defs = seed_bindings_def
  seed_binding_google_nano_banana_2_text_to_image_atlas_def
  seed_binding_google_nano_banana_2_image_edit_atlas_def
  seed_binding_google_nano_banana_2_text_to_image_fal_def
  seed_binding_deepseek_ai_deepseek_v3_prompt_writer_atlas_def
  seed_binding_bytedance_seedance_v1_5_pro_text_to_video_atlas_def
  seed_binding_bytedance_seedance_v1_5_pro_image_to_video_atlas_def
  seed_binding_bytedance_seedance_2_0_fast_text_to_video_atlas_def
  seed_binding_bytedance_seedance_2_0_fast_reference_to_video_atlas_def

lemma builtin_sets:
  "set (cs_capabilities (builtin_catalog digest)) = set seed_capabilities"
  "set (cs_models (builtin_catalog digest)) = set seed_models"
  "set (cs_bindings (builtin_catalog digest)) = set seed_bindings"
  "set (cs_connectors (builtin_catalog digest)) = set seed_connectors"
  "cs_default_bindings (builtin_catalog digest) = seed_default_bindings"
  by (simp_all add: builtin_catalog_def catalog_build_def Let_def)

lemma builtin_catalog_wf: "catalog_wf (builtin_catalog digest)"
  unfolding builtin_catalog_def
  by (rule catalog_build_wf)
     (simp_all add: seed_cap_defs seed_binding_defs seed_models_def seed_connectors_def)

definition binding_closed :: "catalog_snapshot \<Rightarrow> capability_binding \<Rightarrow> bool" where
  "binding_closed c b \<longleftrightarrow>
     cb_capability_id b \<in> cd_capability_id ` set (cs_capabilities c) \<and>
     cb_model_id b \<in> md_model_id ` set (cs_models c) \<and>
     (case cb_implementation b of
        ApiConnector k _ \<Rightarrow> k \<in> cn_connector_id ` set (cs_connectors c)
      | WorkflowTemplate k _ _ \<Rightarrow> k \<in> wb_backend_id ` set (cs_workflow_backends c)) \<and>
     cb_mode b = cb_capability_id b"

lemma seed_bindings_closed: "\<forall>b\<in>set seed_bindings. binding_closed (builtin_catalog digest) b"
  unfolding binding_closed_def builtin_sets
  by (simp add: seed_binding_defs seed_cap_defs seed_models_def seed_connectors_def)

lemma seed_defaults_closed:
  "\<forall>(k, i)\<in>set seed_default_bindings. \<exists>b\<in>set seed_bindings. cb_binding_id b = i \<and>
     cb_capability_id b = k \<and> cb_availability b = BindingEnabled \<and> binding_connector b = Some ''atlas''"
  by (simp add: seed_default_bindings_def bt_from_list_def seed_binding_defs binding_connector_def)

section \<open>Properties\<close>

text \<open>The seeded catalog is closed: ids identify its entries, every binding names a declared
  capability, model and connector and has its capability's mode, and every configured default is an
  enabled binding of its capability.\<close>

theorem builtin_catalog_closed:
  "catalog_wf (builtin_catalog digest) \<and>
   list_all (binding_closed (builtin_catalog digest)) (cs_bindings (builtin_catalog digest)) \<and>
   list_all (\<lambda>(k, i). case catalog_binding (builtin_catalog digest) i of
       None \<Rightarrow> False
     | Some b \<Rightarrow> cb_capability_id b = k \<and> cb_availability b = BindingEnabled)
     (cs_default_bindings (builtin_catalog digest))"
proof -
  have "case catalog_binding (builtin_catalog digest) i of None \<Rightarrow> False
     | Some b \<Rightarrow> cb_capability_id b = k \<and> cb_availability b = BindingEnabled"
    if "(k, i) \<in> set seed_default_bindings" for k i
  proof -
    from bspec [OF seed_defaults_closed that] obtain b where b: "b \<in> set seed_bindings"
      "cb_binding_id b = i" "cb_capability_id b = k" "cb_availability b = BindingEnabled"
      by (simp only: prod.case) blast
    have "b \<in> set (cs_bindings (builtin_catalog digest))" by (simp add: builtin_sets b(1))
    from catalog_binding_mem [OF builtin_catalog_wf this] b show ?thesis by simp
  qed
  then have "list_all (\<lambda>(k, i). case catalog_binding (builtin_catalog digest) i of
       None \<Rightarrow> False
     | Some b \<Rightarrow> cb_capability_id b = k \<and> cb_availability b = BindingEnabled) seed_default_bindings"
    by (simp only: list_all_iff split_paired_all prod.case ball_simps) blast
  then show ?thesis
    using builtin_catalog_wf [of digest] seed_bindings_closed [of digest]
    unfolding builtin_sets list_all_iff by blast
qed

lemma builtin_types:
  "distinct (map nd_node_type (builtin_node_definitions digest))"
proof -
  have "set (map nd_node_type builtin_input_nodes) \<inter> cd_node_type ` set seed_capabilities = {}"
    by (simp add: builtin_input_nodes_def builtin_node_def seed_cap_defs)
  moreover have "distinct (map nd_node_type builtin_input_nodes)"
    by (simp add: builtin_input_nodes_def builtin_node_def)
  moreover have "distinct (map cd_node_type (cs_capabilities (builtin_catalog digest)))"
  proof -
    have "distinct (map cd_node_type seed_capabilities)" by (simp add: seed_cap_defs)
    then show ?thesis
      by (simp add: builtin_catalog_def catalog_build_def Let_def distinct_map)
  qed
  ultimately show ?thesis
    using builtin_sets(1) [of digest]
    by (auto simp: builtin_node_definitions_def Let_def capability_node_def comp_def distinct_map
        inj_on_def)
qed

lemma builtin_ports: "\<forall>d\<in>set (builtin_node_definitions digest). ports_named d"
proof -
  have "\<forall>d\<in>set builtin_input_nodes. ports_named d"
    by (simp add: builtin_input_nodes_def builtin_node_def ports_named_def port_def port_many_def
        is_reference_input_def)
  moreover have "\<forall>c\<in>set seed_capabilities. ports_named (capability_node c)"
    by (simp add: seed_cap_defs capability_node_def ports_named_def port_def port_many_def
        is_reference_input_def)
  ultimately show ?thesis
    using builtin_sets(1) [of digest] by (auto simp: builtin_node_definitions_def Let_def)
qed

text \<open>the built-in registry exists: its definitions have distinct node types, so the
  \<open>expect\<close> of its construction never fails; and its ports meet the lineage rule (port names
  identify ports and every input named \<open>in\<close> is an optional fan-in), so a spawned lineage edge
  always fits.\<close>

theorem builtin_registry_exists:
  "\<exists>reg. registry_builtin digest = Inr reg \<and> registry_wf reg \<and> lineage_registry reg"
proof -
  obtain reg where reg: "registry_builtin digest = Inr reg"
    using fold_registry_insert_distinct [OF builtin_types, of digest "[]"]
    by (auto simp: registry_builtin_def from_definitions_def)
  then have "lineage_registry reg"
    using from_definitions_lookup(3) [of "builtin_node_definitions digest" reg] builtin_ports [of digest]
    by (auto simp: registry_builtin_def lineage_registry_def result_simps)
  with reg from_definitions_wf show ?thesis by (auto simp: registry_builtin_def)
qed


text \<open>The names a seeded model answers to, computed.\<close>

lemma seed_names:
  "map (\<lambda>m. (md_model_id m, model_names m)) seed_models = [
     (''google/nano-banana-2'', [''google nano banana 2'', ''nano banana 2'', ''nano banana 2'',
        ''nano banana'', ''nano banana 2'']),
     (''deepseek-ai/DeepSeek-V3-0324'', [''deepseek ai deepseek v3 0324'', ''deepseek v3'',
        ''deepseek v3 0324'', ''deepseek'', ''deepseek v3'']),
     (''bytedance/seedance-v1.5-pro'', [''bytedance seedance v1 5 pro'', ''seedance 1 5 pro'',
        ''seedance v1 5 pro'', ''seedance'', ''seedance 1 5'', ''seedance 1 5 pro'']),
     (''bytedance/seedance-2.0-fast'', [''bytedance seedance 2 0 fast'', ''seedance 2 0 fast'',
        ''seedance 2 0 fast'', ''seedance 2'', ''seedance 2 0'', ''seedance 2 0 fast'',
        ''seedance 2 fast''])]"
  by (simp add: seed_models_def model_names_def normalize_name_def space_separator_def trim_end_def
      is_whitespace_def to_lowercase_def is_ascii_uppercase_def byte_def Let_def char_of_def bit_0)

lemma names_disjoint:
  assumes "m \<in> set seed_models" "m' \<in> set seed_models" "x \<in> set (model_names m)" "x \<in> set (model_names m')"
  shows "md_model_id m = md_model_id m'"
proof -
  let ?L = "map (\<lambda>m. (md_model_id m, model_names m)) seed_models"
  have "\<forall>p\<in>set ?L. \<forall>q\<in>set ?L. fst p \<noteq> fst q \<longrightarrow> set (snd p) \<inter> set (snd q) = {}"
    unfolding seed_names by simp
  then show ?thesis using assms by fastforce
qed

lemma names_not_empty: "m \<in> set seed_models \<Longrightarrow> '''' \<notin> set (model_names m)"
proof -
  have "\<forall>p\<in>set (map (\<lambda>m. (md_model_id m, model_names m)) seed_models). '''' \<notin> set (snd p)"
    unfolding seed_names by simp
  then show "m \<in> set seed_models \<Longrightarrow> '''' \<notin> set (model_names m)" by simp
qed

text \<open>Every seeded model is found by its id, its display name and each of its aliases; no two
  models share a name, so none of these queries is ambiguous.\<close>

theorem builtin_names_resolve:
  "list_all (\<lambda>m. list_all (\<lambda>q. normalize_model (builtin_catalog digest) q = Inr (md_model_id m))
     (md_model_id m # md_display_name m # md_aliases m)) seed_models"
proof -
  have "normalize_model (builtin_catalog digest) q = Inr (md_model_id m)"
    if m: "m \<in> set seed_models" and q: "q \<in> set (md_model_id m # md_display_name m # md_aliases m)" for m q
  proof -
    have n: "normalize_name q \<in> set (model_names m)"
      using q by (auto simp: model_names_def)
    have "models_named (builtin_catalog digest) q = {md_model_id m}"
      unfolding models_named_def builtin_sets
    proof (intro equalityI subsetI)
      fix x
      assume "x \<in> md_model_id ` {m \<in> set seed_models. normalize_name q \<in> set (model_names m)}"
      then obtain m' where "m' \<in> set seed_models" "normalize_name q \<in> set (model_names m')"
        "x = md_model_id m'" by blast
      then show "x \<in> {md_model_id m}" using names_disjoint [OF m _ n] by simp
    next
      fix x
      assume "x \<in> {md_model_id m}"
      then show "x \<in> md_model_id ` {m \<in> set seed_models. normalize_name q \<in> set (model_names m)}"
        using m n by simp
    qed
    moreover have "normalize_name q \<noteq> ''''" using n names_not_empty [OF m] by metis
    ultimately show ?thesis by (simp add: normalize_model_ok)
  qed
  then show ?thesis by (simp only: list_all_iff) blast
qed

lemma resolve_policy_complete:
  assumes "catalog_wf c" "catalog_capability c k \<noteq> None"
    and "bt_get (cs_default_bindings c) k = Some i" "catalog_binding c i = Some b"
    and "cb_capability_id b = k" "binding_available c b av"
  shows "resolve c \<lparr>rq_capability_id = k, rq_requested_model = None, rq_connector_preference = None\<rparr> av
     = Inr (resolved k None b)"
proof -
  have b: "b \<in> set (cs_bindings c)" "cb_binding_id b = i"
    using catalog_bindingD [OF assms(4)] by auto
  have "distinct (map cb_binding_id (bindings_for_capability c k))"
    using assms(1) by (simp add: bindings_for_capability_def catalog_wf_def distinct_map_filter)
  then have find: "List.find (\<lambda>b. cb_binding_id b = i) (bindings_for_capability c k) = Some b"
    using b assms(5) by (simp add: find_by_id)
  then have "bindings_for_capability c k \<noteq> []" by auto
  then show ?thesis
    using assms(2,3,6) find
    by (simp add: resolve_def resolve_policy_def prefer_connector_def policy_choice_def Let_def)
qed

text \<open>with the \<open>atlas\<close> connector up, a policy request for any capability that has a configured
  default resolves to that default.\<close>

theorem builtin_defaults_resolve:
  assumes "(k, i) \<in> set (cs_default_bindings (builtin_catalog digest))" "bt_get av ''atlas'' = Some True"
  shows "\<exists>r. resolve (builtin_catalog digest)
       \<lparr>rq_capability_id = k, rq_requested_model = None, rq_connector_preference = None\<rparr> av = Inr r \<and>
     ri_binding_id r = i"
proof -
  let ?c = "builtin_catalog digest"
  have ki: "(k, i) \<in> set seed_default_bindings" using assms(1) by (simp only: builtin_sets)
  from bspec [OF seed_defaults_closed ki] obtain b where b: "b \<in> set seed_bindings"
    "cb_binding_id b = i" "cb_capability_id b = k" "cb_availability b = BindingEnabled"
    "binding_connector b = Some ''atlas''"
    by (simp only: prod.case) blast
  have mem: "b \<in> set (cs_bindings ?c)" by (simp only: builtin_sets b(1))
  have bind: "catalog_binding ?c i = Some b"
    using catalog_binding_mem [OF builtin_catalog_wf mem] b(2) by simp
  have cap: "catalog_capability ?c k \<noteq> None"
    using bspec [OF seed_bindings_closed b(1), of digest] b(3)
    by (auto simp: binding_closed_def catalog_capability_def find_None_iff)
  have "bt_wf seed_default_bindings" by (simp add: seed_default_bindings_def)
  then have dflt: "bt_get (cs_default_bindings ?c) k = Some i"
    using ki by (simp add: builtin_sets bt_wf_map_of)
  have "catalog_connector ?c ''atlas'' = Some \<lparr>cn_connector_id = ''atlas'', cn_provider_id = ''atlas'',
      cn_kind = KindApi, cn_enabled = True, cn_status = ConnActive\<rparr>"
    by (simp add: catalog_connector_def builtin_catalog_def catalog_build_def Let_def seed_connectors_def)
  then have "binding_available ?c b av"
    using b(4,5) assms(2) by (auto simp: binding_available_def binding_connector_def
        split: implementation_target.splits)
  from resolve_policy_complete [OF builtin_catalog_wf cap dflt bind b(3) this] b(2)
  show ?thesis by (simp add: resolved_def)
qed

lemma builtin_defaults_resolve_witness:
  "\<exists>r. resolve (builtin_catalog (\<lambda>_. ''h''))
       \<lparr>rq_capability_id = ''text_to_image'', rq_requested_model = None, rq_connector_preference = None\<rparr>
       [(''atlas'', True)] = Inr r \<and> ri_binding_id r = ''google.nano-banana-2.text-to-image.atlas.v1''"
  by (rule builtin_defaults_resolve)
     (simp_all add: builtin_sets seed_default_bindings_def bt_from_list_def)

end
