(* ===== verification/Intent.thy ===== *)
theory Intent
  imports Semantics
begin

text \<open>
  The intent contract of the compiler (crates/compiler/src/intent.rs, errors.rs): stages that
  reference earlier stages, their validation, and the outcomes of compilation.
\<close>

section \<open>Plans\<close>

datatype topology_intent = Linear | Parallel

record stage_input_ref =
  sr_stage_id :: string
  sr_output :: string

record stage_intent =
  st_stage_id :: string
  st_capability_id :: string
  st_requested_model :: "string option"
  st_input_from :: "stage_input_ref list"
  st_params :: json

record intent_plan =
  in_intent_version :: string
  in_topology :: topology_intent
  in_stages :: "stage_intent list"
  in_output_stage_ids :: "string list"
  in_assumptions :: "string list"

section \<open>Outcomes\<close>

datatype compile_error =
    CE_IntentInvalid string
  | CE_Topology string
  | CE_Resolve resolve_error
  | CE_PortTypeMismatch string string string string
  | CE_UnmappedCapability string
  | CE_GraphInvalid string string

fun compile_error_code :: "compile_error \<Rightarrow> string" where
  "compile_error_code (CE_IntentInvalid _) = ''INTENT_INVALID''"
| "compile_error_code (CE_Topology _) = ''TOPOLOGY_CONFLICT''"
| "compile_error_code (CE_Resolve e) = resolve_error_code e"
| "compile_error_code (CE_PortTypeMismatch _ _ _ _) = ''PORT_TYPE_MISMATCH''"
| "compile_error_code (CE_UnmappedCapability _) = ''CAPABILITY_NOT_FOUND''"
| "compile_error_code (CE_GraphInvalid code _) = code"

fun compile_error_display :: "compile_error \<Rightarrow> string" where
  "compile_error_display (CE_IntentInvalid r) = ''invalid intent: '' @ r"
| "compile_error_display (CE_Topology r) = ''topology conflict: '' @ r"
| "compile_error_display (CE_Resolve e) = resolve_error_display e"
| "compile_error_display (CE_PortTypeMismatch stage source output_port r) =
     ''stage '' @ bq stage @ '' cannot consume '' @ bq (source @ ''.'' @ output_port) @ '': '' @ r"
| "compile_error_display (CE_UnmappedCapability c) =
     ''capability '' @ bq c @ '' has no executable node mapping''"
| "compile_error_display (CE_GraphInvalid _ m) = ''compiled graph failed validation: '' @ m"

record clarify_first =
  cf_route :: string
  cf_reason_code :: string
  cf_missing_fields :: "string list"
  cf_safe_context :: json
  cf_next_action :: string

definition clarify_new :: "string \<Rightarrow> string list \<Rightarrow> json \<Rightarrow> string \<Rightarrow> clarify_first" where
  "clarify_new reason_code missing_fields safe_context next_action =
     \<lparr>cf_route = ''clarify_first'', cf_reason_code = reason_code, cf_missing_fields = missing_fields,
      cf_safe_context = safe_context, cf_next_action = next_action\<rparr>"

section \<open>Validation\<close>

definition valid_stage_id :: "string \<Rightarrow> bool" where
  "valid_stage_id s = (case s of
     [] \<Rightarrow> False
   | first # rest \<Rightarrow> is_ascii_lowercase first \<and> length s \<le> 64 \<and>
       list_all (\<lambda>ch. is_ascii_lowercase ch \<or> is_ascii_digit ch \<or> ch = CHR ''_'' \<or> ch = CHR ''-'') rest)"

definition check_input_ref :: "string \<Rightarrow> string list \<Rightarrow> stage_input_ref \<Rightarrow> compile_error + unit" where
  "check_input_ref stage_id seen r =
     (if sr_stage_id r \<notin> set seen
      then Inl (CE_Topology (''stage '' @ bq stage_id @ '' references '' @ bq (sr_stage_id r)
                 @ '' which is not an earlier stage''))
      else Inr ())"

definition validate_stage :: "stage_intent \<Rightarrow> string list \<Rightarrow> compile_error + string list" where
  "validate_stage stage seen =
     (if \<not> valid_stage_id (st_stage_id stage)
      then Inl (CE_IntentInvalid (''invalid stageId '' @ bq (st_stage_id stage)))
      else if st_stage_id stage \<in> set seen
      then Inl (CE_IntentInvalid (''duplicate stageId '' @ bq (st_stage_id stage)))
      else if \<not> is_object (st_params stage)
      then Inl (CE_IntentInvalid (''stage '' @ bq (st_stage_id stage) @ '' params must be an object''))
      else res_bind (check_all (check_input_ref (st_stage_id stage) seen) (st_input_from stage))
             (\<lambda>_. Inr (seen @ [st_stage_id stage])))"

definition check_linear_stage :: "stage_intent list \<Rightarrow> nat \<times> stage_intent \<Rightarrow> compile_error + unit" where
  "check_linear_stage stages p = (case p of (index, stage) \<Rightarrow>
     if index = 0
     then (if st_input_from stage \<noteq> []
           then Inl (CE_Topology (''linear intent: first stage '' @ bq (st_stage_id stage)
                      @ '' cannot consume another stage''))
           else Inr ())
     else (let previous = st_stage_id (stages ! (index - 1)) in
           if st_input_from stage = [] \<or>
              list_ex (\<lambda>r. sr_stage_id r \<noteq> previous) (st_input_from stage)
           then Inl (CE_Topology (''linear intent: stage '' @ bq (st_stage_id stage)
                      @ '' must consume exactly the previous stage '' @ bq previous))
           else Inr ()))"

definition referenced_stages :: "intent_plan \<Rightarrow> string list" where
  "referenced_stages p = map sr_stage_id (concat (map st_input_from (in_stages p)))"

definition sink_stages :: "intent_plan \<Rightarrow> string list" where
  "sink_stages p =
     filter (\<lambda>i. i \<notin> set (referenced_stages p)) (map st_stage_id (in_stages p))"

definition validate_topology :: "intent_plan \<Rightarrow> compile_error + unit" where
  "validate_topology p =
     (let sinks = sink_stages p;
          declared = sorted_ids (in_output_stage_ids p);
          actual = sort sinks
      in if declared \<noteq> actual
         then Inl (CE_Topology (''outputStageIds '' @ debug_list declared
                    @ '' do not match the terminal stages '' @ debug_list actual))
         else if in_topology p = Linear
         then res_bind (check_all (check_linear_stage (in_stages p)) (enumerate 0 (in_stages p))) (\<lambda>_.
                if length sinks \<noteq> 1
                then Inl (CE_Topology (''linear intent must end in exactly one stage, found ''
                           @ debug_list sinks))
                else Inr ())
         else Inr ())"

definition validate_intent :: "intent_plan \<Rightarrow> compile_error + unit" where
  "validate_intent p =
     (if in_intent_version p \<noteq> ''1''
      then Inl (CE_IntentInvalid (''unsupported intentVersion '' @ bq (in_intent_version p)))
      else if in_stages p = [] then Inl (CE_IntentInvalid ''intent has no stages'')
      else if in_output_stage_ids p = []
      then Inl (CE_IntentInvalid ''intent declares no output stages'')
      else res_bind (fold_res validate_stage (in_stages p) []) (\<lambda>seen.
           res_bind (check_all (\<lambda>output_id.
               if output_id \<notin> set seen
               then Inl (CE_IntentInvalid (''outputStageIds references unknown stage '' @ bq output_id))
               else Inr ()) (in_output_stage_ids p)) (\<lambda>_.
             validate_topology p)))"

section \<open>What validation accepts\<close>

text \<open>Every reference points at an earlier stage.\<close>

definition refs_earlier :: "stage_intent list \<Rightarrow> bool" where
  "refs_earlier stages \<longleftrightarrow> (\<forall>before s after. stages = before @ s # after \<longrightarrow>
     sr_stage_id ` set (st_input_from s) \<subseteq> st_stage_id ` set before)"

definition stages_ok :: "stage_intent list \<Rightarrow> bool" where
  "stages_ok stages \<longleftrightarrow>
     (\<forall>s\<in>set stages. valid_stage_id (st_stage_id s) \<and> is_object (st_params s)) \<and>
     distinct (map st_stage_id stages) \<and> refs_earlier stages"

text \<open>A chain: the first stage consumes nothing, each other one exactly its predecessor.\<close>

definition linear_chain :: "stage_intent list \<Rightarrow> bool" where
  "linear_chain stages \<longleftrightarrow>
     (\<forall>n < length stages. if n = 0 then st_input_from (stages ! 0) = []
        else sr_stage_id ` set (st_input_from (stages ! n)) = {st_stage_id (stages ! (n - 1))})"

definition intent_ok :: "intent_plan \<Rightarrow> bool" where
  "intent_ok p \<longleftrightarrow>
     in_intent_version p = ''1'' \<and> in_stages p \<noteq> [] \<and> stages_ok (in_stages p) \<and>
     set (in_output_stage_ids p) =
       st_stage_id ` set (in_stages p) - sr_stage_id ` (\<Union>s\<in>set (in_stages p). set (st_input_from s)) \<and>
     (in_topology p = Linear \<longrightarrow> linear_chain (in_stages p))"

lemma validate_stage_ok [result_simps]:
  "validate_stage s seen = Inr seen' \<longleftrightarrow>
     valid_stage_id (st_stage_id s) \<and> st_stage_id s \<notin> set seen \<and> is_object (st_params s) \<and>
     sr_stage_id ` set (st_input_from s) \<subseteq> set seen \<and> seen' = seen @ [st_stage_id s]"
  by (auto simp: validate_stage_def result_simps check_input_ref_def split: if_splits)

lemma refs_earlier_Nil [simp]: "refs_earlier []"
  by (simp add: refs_earlier_def)

lemma refs_earlierD:
  "refs_earlier (before @ s # after) \<Longrightarrow>
     sr_stage_id ` set (st_input_from s) \<subseteq> st_stage_id ` set before"
  unfolding refs_earlier_def by blast

lemma refs_earlier_snoc:
  "refs_earlier (xs @ [s]) \<longleftrightarrow>
     refs_earlier xs \<and> sr_stage_id ` set (st_input_from s) \<subseteq> st_stage_id ` set xs"
proof
  assume r: "refs_earlier (xs @ [s])"
  then show "refs_earlier xs \<and> sr_stage_id ` set (st_input_from s) \<subseteq> st_stage_id ` set xs"
    unfolding refs_earlier_def by (metis append.assoc append_Cons)
next
  assume r: "refs_earlier xs \<and> sr_stage_id ` set (st_input_from s) \<subseteq> st_stage_id ` set xs"
  show "refs_earlier (xs @ [s])"
    unfolding refs_earlier_def
  proof (intro allI impI)
    fix before t after
    assume eq: "xs @ [s] = before @ t # after"
    show "sr_stage_id ` set (st_input_from t) \<subseteq> st_stage_id ` set before"
    proof (cases after rule: rev_cases)
      case Nil
      with eq r show ?thesis by simp
    next
      case (snoc after' z)
      with eq have "xs = before @ t # after'" by simp
      with r show ?thesis unfolding refs_earlier_def by blast
    qed
  qed
qed

lemma fold_res_single: "fold_res f [x] = f x"
  by (rule ext) (simp split: sum.split)

lemma fold_validate_stage:
  "fold_res validate_stage stages [] = Inr seen \<longleftrightarrow> stages_ok stages \<and> seen = map st_stage_id stages"
proof (induction stages arbitrary: seen rule: rev_induct)
  case Nil
  then show ?case by (auto simp: stages_ok_def)
next
  case (snoc s stages)
  have "fold_res validate_stage (stages @ [s]) [] = Inr seen \<longleftrightarrow>
      stages_ok stages \<and> validate_stage s (map st_stage_id stages) = Inr seen"
    unfolding fold_res_append fold_res_single res_bind_Inr snoc.IH by auto
  then show ?case
    by (auto simp: stages_ok_def refs_earlier_snoc result_simps)
qed


lemma check_linear_stage_ok:
  assumes "n < length stages"
  shows "check_linear_stage stages (n, stages ! n) = Inr () \<longleftrightarrow>
     (if n = 0 then st_input_from (stages ! 0) = []
      else sr_stage_id ` set (st_input_from (stages ! n)) = {st_stage_id (stages ! (n - 1))})"
proof -
  have "f ` A = {x} \<longleftrightarrow> A \<noteq> {} \<and> (\<forall>a\<in>A. f a = x)" for f :: "stage_input_ref \<Rightarrow> string" and A x
    by auto
  then show ?thesis
    by (auto simp: check_linear_stage_def Let_def list_ex_iff)
qed

lemma check_linear_all:
  "check_all (check_linear_stage stages) (enumerate 0 stages) = Inr () \<longleftrightarrow> linear_chain stages"
proof -
  have "set (enumerate 0 stages) = {(n, stages ! n) |n. n < length stages}"
    by (force simp: enumerate_eq_zip set_zip)
  then show ?thesis
    using check_linear_stage_ok [of _ stages] by (auto simp: result_simps linear_chain_def)
qed

lemma set_referenced_stages:
  "set (referenced_stages p) = sr_stage_id ` (\<Union>s\<in>set (in_stages p). set (st_input_from s))"
  by (auto simp: referenced_stages_def)

lemma set_sink_stages:
  "set (sink_stages p) = st_stage_id ` set (in_stages p)
     - sr_stage_id ` (\<Union>s\<in>set (in_stages p). set (st_input_from s))"
  by (auto simp: sink_stages_def set_referenced_stages)

lemma last_is_sink:
  assumes "stages_ok (in_stages p)" "in_stages p \<noteq> []"
  shows "st_stage_id (last (in_stages p)) \<in> set (sink_stages p)"
proof -
  let ?ss = "in_stages p"
  have "st_stage_id (last ?ss) \<notin> sr_stage_id ` set (st_input_from s)" if s: "s \<in> set ?ss" for s
  proof
    assume ref: "st_stage_id (last ?ss) \<in> sr_stage_id ` set (st_input_from s)"
    from s obtain before after where split: "?ss = before @ s # after" by (meson split_list)
    with ref assms(1) have "st_stage_id (last ?ss) \<in> st_stage_id ` set before"
      unfolding stages_ok_def refs_earlier_def by blast
    moreover have "last ?ss \<in> set (s # after)"
      using split by (metis last_appendR last_in_set list.distinct(1))
    moreover have "distinct (map st_stage_id (before @ s # after))"
      using assms(1) split by (simp add: stages_ok_def)
    ultimately show False by auto
  qed
  then show ?thesis using assms(2) by (auto simp: set_sink_stages)
qed

text \<open>In a chain only the last stage is not consumed.\<close>

lemma linear_chain_sinks:
  assumes "linear_chain (in_stages p)" "stages_ok (in_stages p)" "in_stages p \<noteq> []"
  shows "sink_stages p = [st_stage_id (last (in_stages p))]"
proof -
  let ?ss = "in_stages p"
  have only: "i = st_stage_id (last ?ss)" if i: "i \<in> set (sink_stages p)" for i
  proof -
    from i obtain n where n: "n < length ?ss" "i = st_stage_id (?ss ! n)"
      by (auto simp: set_sink_stages in_set_conv_nth)
    have "\<not> Suc n < length ?ss"
    proof
      assume "Suc n < length ?ss"
      then have "sr_stage_id ` set (st_input_from (?ss ! Suc n)) = {i}" "?ss ! Suc n \<in> set ?ss"
        using assms(1) n by (auto simp: linear_chain_def)
      then show False using i by (auto simp: set_sink_stages)
    qed
    then have "n = length ?ss - 1" using n(1) by linarith
    then show ?thesis using n assms(3) by (simp add: last_conv_nth)
  qed
  have sinks: "set (sink_stages p) = {st_stage_id (last ?ss)}"
    using only last_is_sink [OF assms(2,3)] by blast
  have "distinct (sink_stages p)"
    using assms(2) by (simp add: sink_stages_def stages_ok_def)
  then have "length (sink_stages p) = 1"
    using sinks distinct_card [of "sink_stages p"] by simp
  then obtain x where "sink_stages p = [x]" by (auto simp: length_Suc_conv)
  with sinks show ?thesis by simp
qed

lemma declared_actual:
  assumes "distinct (map st_stage_id (in_stages p))"
  shows "sorted_ids (in_output_stage_ids p) = sort (sink_stages p) \<longleftrightarrow>
     set (in_output_stage_ids p) = set (sink_stages p)"
proof
  assume "sorted_ids (in_output_stage_ids p) = sort (sink_stages p)"
  then show "set (in_output_stage_ids p) = set (sink_stages p)"
    by (metis set_sort set_sorted_ids)
next
  assume eq: "set (in_output_stage_ids p) = set (sink_stages p)"
  have "distinct (sink_stages p)" using assms by (simp add: sink_stages_def)
  then have "sorted_wrt (<) (sort (sink_stages p))" by (simp add: strict_sorted_iff)
  with eq sorted_ids_strict show "sorted_ids (in_output_stage_ids p) = sort (sink_stages p)"
    by (intro strict_sorted_equal) simp_all
qed

lemma validate_topology_ok:
  assumes "stages_ok (in_stages p)" "in_stages p \<noteq> []"
  shows "validate_topology p = Inr () \<longleftrightarrow>
     set (in_output_stage_ids p) = set (sink_stages p) \<and>
     (in_topology p = Linear \<longrightarrow> linear_chain (in_stages p))"
proof -
  have "distinct (map st_stage_id (in_stages p))"
    using assms(1) by (simp add: stages_ok_def)
  then show ?thesis
    using linear_chain_sinks [OF _ assms] check_linear_all [of "in_stages p"]
    by (auto simp: validate_topology_def Let_def declared_actual result_simps)
qed

lemma validate_intent_ok:
  "validate_intent p = Inr () \<longleftrightarrow> intent_ok p"
proof (cases "in_stages p \<noteq> [] \<and> stages_ok (in_stages p)")
  case True
  have fold: "fold_res validate_stage (in_stages p) [] = Inr (map st_stage_id (in_stages p))"
    using fold_validate_stage True by blast
  have "set (sink_stages p) \<noteq> {}" using last_is_sink [of p] True by auto
  then show ?thesis
    using True validate_topology_ok [of p] fold
    by (auto simp: validate_intent_def intent_ok_def result_simps set_sink_stages)
next
  case False
  then show ?thesis
    using fold_validate_stage [of "in_stages p"]
    by (auto simp: validate_intent_def intent_ok_def result_simps)
qed

section \<open>Properties\<close>

text \<open>an intent is accepted exactly when its version is 1, its stages have valid distinct ids and
  object parameters, every reference points at an earlier stage, the declared outputs are the stages
  no other stage consumes, and, for a linear intent, every stage consumes exactly its predecessor.
  (The final check of the code, that a linear intent has one terminal stage, never fails.)\<close>

theorem validate_intent_exact:
  "validate_intent p = Inr () \<longleftrightarrow>
     in_intent_version p = ''1'' \<and> in_stages p \<noteq> [] \<and> stages_ok (in_stages p) \<and>
     set (in_output_stage_ids p) =
       st_stage_id ` set (in_stages p) - sr_stage_id ` (\<Union>s\<in>set (in_stages p). set (st_input_from s)) \<and>
     (if in_topology p = Linear then linear_chain (in_stages p) else True)"
  unfolding validate_intent_ok intent_ok_def by simp

text \<open>An accepted linear intent has exactly one output, its last stage.\<close>

theorem linear_intent_output:
  assumes "validate_intent p = Inr ()" "in_topology p = Linear"
  shows "set (in_output_stage_ids p) = {st_stage_id (last (in_stages p))}"
proof -
  from assms have ok: "stages_ok (in_stages p)" "in_stages p \<noteq> []" "linear_chain (in_stages p)"
    "set (in_output_stage_ids p) = set (sink_stages p)"
    by (auto simp: validate_intent_ok intent_ok_def set_sink_stages)
  then show ?thesis using linear_chain_sinks [OF ok(3,1,2)] by simp
qed

definition sample_stage :: "string \<Rightarrow> stage_input_ref list \<Rightarrow> stage_intent" where
  "sample_stage i refs = \<lparr>st_stage_id = i, st_capability_id = ''text_to_image'',
     st_requested_model = Some ''nano'', st_input_from = refs, st_params = JObject []\<rparr>"

definition sample_linear :: intent_plan where
  "sample_linear = \<lparr>in_intent_version = ''1'', in_topology = Linear,
     in_stages = [sample_stage ''s1'' [],
       sample_stage ''s2'' [\<lparr>sr_stage_id = ''s1'', sr_output = ''image''\<rparr>]],
     in_output_stage_ids = [''s2''], in_assumptions = []\<rparr>"

lemma sample_linear_valid: "validate_intent sample_linear = Inr ()"
  by (simp add: sample_linear_def sample_stage_def validate_intent_def validate_stage_def
      valid_stage_id_def is_ascii_lowercase_def is_ascii_digit_def byte_def is_object_def
      check_input_ref_def validate_topology_def sink_stages_def referenced_stages_def dedup_def
      check_linear_stage_def Let_def)

lemma linear_intent_output_witness:
  "set (in_output_stage_ids sample_linear) = {''s2''}"
  using linear_intent_output [OF sample_linear_valid]
  by (simp add: sample_linear_def sample_stage_def)

end
