(* ===== verification/Graph_Builder.thy ===== *)
theory Graph_Builder
  imports Intent
begin

text \<open>
  Deterministic construction of the target graph of an intent
  (crates/compiler/src/graph_builder.rs).  A stage step returns the new state or the reason to stop:
  an error, a clarification for the user, or a panic of one of the code's two \<open>expect\<close> calls (the
  properties show that neither happens).
\<close>

section \<open>State and stops\<close>

definition COLUMN_WIDTH :: f32 where
  "COLUMN_WIDTH = Fin 240"

definition ROW_HEIGHT :: f32 where
  "ROW_HEIGHT = Fin 180"

record resolved_stage =
  rs_stage_id :: string
  rs_node_id :: string
  rs_capability_id :: string
  rs_requested_model_id :: "string option"
  rs_resolved_model_id :: string
  rs_binding_id :: string
  rs_binding_revision :: string

record layout_hint =
  lh_node_id :: string
  lh_pos :: "f32 \<times> f32"

record built_graph =
  bg_target :: workflow_graph
  bg_resolved_stages :: "resolved_stage list"
  bg_layout_hints :: "layout_hint list"
  bg_diagnostics :: "string list"

datatype build_stop = StopError compile_error | StopClarify clarify_first | StopPanic string

record build_state =
  bs_nodes :: "(string, graph_node) btree_map"
  bs_edges :: "graph_edge list"
  bs_resolved :: "resolved_stage list"
  bs_diagnostics :: "string list"
  bs_synthesized :: "(string \<times> string) list"

section \<open>Resolving a stage\<close>

definition json_opt_string :: "string option \<Rightarrow> json" where
  "json_opt_string x = (case x of None \<Rightarrow> JNull | Some s \<Rightarrow> JString s)"

text \<open>The UTF-8 bytes of the code's literal.\<close>

definition binding_not_found_action :: string where
  "binding_not_found_action = map char_of ([
     0xE8, 0xAF, 0xB7, 0xE9, 0x80, 0x89, 0xE6, 0x8B, 0xA9, 0xE4, 0xB8, 0x80, 0xE4, 0xB8, 0xAA, 0xE5,
     0xB7, 0xB2, 0xE9, 0xAA, 0x8C, 0xE8, 0xAF, 0x81, 0xE6, 0x94, 0xAF, 0xE6, 0x8C, 0x81, 0xE8, 0xAF,
     0xA5, 0xE8, 0x83, 0xBD, 0xE5, 0x8A, 0x9B, 0xE7, 0x9A, 0x84, 0xE6, 0xA8, 0xA1, 0xE5, 0x9E, 0x8B,
     0xEF, 0xBC, 0x8C, 0xE6, 0x88, 0x96, 0xE5, 0x85, 0x88, 0xE9, 0x85, 0x8D, 0xE7, 0xBD, 0xAE, 0xE7,
     0x9B, 0xB8, 0xE5, 0xBA, 0x94, 0xE7, 0x9A, 0x84] :: nat list) @ '' Provider binding''"

definition binding_not_found_clarification ::
  "stage_intent \<Rightarrow> catalog_snapshot \<Rightarrow> string \<Rightarrow> string option \<Rightarrow> clarify_first" where
  "binding_not_found_clarification stage c capability_id model_id =
     (let capability_name = (case catalog_capability c capability_id of
            None \<Rightarrow> capability_id | Some cap \<Rightarrow> cd_display_name cap);
          available_models = dedup_by (\<lambda>l r. md_model_id l = md_model_id r)
            (sort_key md_model_id (List.map_filter (\<lambda>b. catalog_model c (cb_model_id b))
              (filter (\<lambda>b. cb_availability b = BindingEnabled)
                (bindings_for_capability c capability_id))));
          requested_model = Option.bind model_id (catalog_model c);
          requested_model_capabilities = (case model_id of
            None \<Rightarrow> []
          | Some i \<Rightarrow> dedup_by (\<lambda>l r. cd_capability_id l = cd_capability_id r)
              (sort_key cd_capability_id (List.map_filter (\<lambda>b. catalog_capability c (cb_capability_id b))
                (filter (\<lambda>b. cb_model_id b = i \<and> cb_availability b = BindingEnabled) (cs_bindings c)))))
      in clarify_new ''BINDING_NOT_FOUND'' [st_stage_id stage @ ''.model'']
           (json_object
             [(''stageId'', JString (st_stage_id stage)), (''capabilityId'', JString capability_id),
              (''capabilityName'', JString capability_name),
              (''requestedModelId'', json_opt_string model_id),
              (''requestedModelName'', json_opt_string (map_option md_display_name requested_model)),
              (''availableModels'', JArray (map (\<lambda>m. json_object
                 [(''modelId'', JString (md_model_id m)), (''displayName'', JString (md_display_name m))])
                 available_models)),
              (''requestedModelCapabilities'', JArray (map (\<lambda>cap. json_object
                 [(''capabilityId'', JString (cd_capability_id cap)),
                  (''displayName'', JString (cd_display_name cap))]) requested_model_capabilities))])
           binding_not_found_action)"

definition stage_request :: "string option \<Rightarrow> stage_intent \<Rightarrow> resolve_request" where
  "stage_request connector_preference stage =
     \<lparr>rq_capability_id = st_capability_id stage, rq_requested_model = st_requested_model stage,
      rq_connector_preference = connector_preference\<rparr>"

definition resolve_stage ::
  "catalog_snapshot \<Rightarrow> connector_availability \<Rightarrow> string option \<Rightarrow> stage_intent
   \<Rightarrow> build_stop + resolved_implementation" where
  "resolve_stage c availability connector_preference stage =
     (case resolve c (stage_request connector_preference stage) availability of
        Inr r \<Rightarrow> Inr r
      | Inl (RS_BindingNotFound capability_id model_id) \<Rightarrow>
          Inl (StopClarify (binding_not_found_clarification stage c capability_id model_id))
      | Inl err \<Rightarrow>
          if recoverable err
          then Inl (StopClarify (clarify_new (resolve_error_code err)
                 [st_stage_id stage @ ''.model'']
                 (json_object [(''stageId'', JString (st_stage_id stage)),
                    (''detail'', JString (resolve_error_display err))])
                 ''ask the user to pick a specific model or enable a connector''))
          else Inl (StopError (CE_Resolve err)))"

definition definition_of_type :: "node_registry \<Rightarrow> string \<Rightarrow> build_stop + node_definition" where
  "definition_of_type reg node_type =
     map_err (\<lambda>err. StopError (CE_GraphInvalid ''CAPABILITY_NOT_FOUND'' (registry_error_display err)))
       (registry_definition reg node_type)"

definition node_type_of_capability :: "catalog_snapshot \<Rightarrow> string \<Rightarrow> build_stop + string" where
  "node_type_of_capability c capability_id =
     ok_or (map_option cd_node_type (catalog_capability c capability_id))
       (StopError (CE_UnmappedCapability capability_id))"

definition node_type_for_stage :: "stage_intent \<Rightarrow> catalog_snapshot \<Rightarrow> build_stop + string" where
  "node_type_for_stage stage c = node_type_of_capability c (st_capability_id stage)"

section \<open>Wiring\<close>

fun debug_port_type :: "port_type \<Rightarrow> string" where
  "debug_port_type Text = ''Text''"
| "debug_port_type Image = ''Image''"
| "debug_port_type Video = ''Video''"
| "debug_port_type Audio = ''Audio''"
| "debug_port_type Mask = ''Mask''"
| "debug_port_type Json = ''Json''"

definition wire_input ::
  "node_registry \<Rightarrow> catalog_snapshot \<Rightarrow> stage_intent list \<Rightarrow> stage_intent \<Rightarrow> node_definition
   \<Rightarrow> stage_input_ref \<Rightarrow> graph_edge list \<Rightarrow> build_stop + graph_edge list" where
  "wire_input reg c stages stage d r edges =
     (case List.find (\<lambda>s. st_stage_id s = sr_stage_id r) stages of
        None \<Rightarrow> Inl (StopPanic ''validated earlier'')
      | Some source_stage \<Rightarrow>
          res_bind (node_type_for_stage source_stage c) (\<lambda>source_type.
          res_bind (definition_of_type reg source_type) (\<lambda>source_def.
            case find_port (nd_outputs source_def) (sr_output r) of
              None \<Rightarrow> Inl (StopError (CE_PortTypeMismatch (st_stage_id stage) (sr_stage_id r)
                        (sr_output r) ''source stage has no such output''))
            | Some source_port \<Rightarrow>
                (case List.find (\<lambda>p. pd_name p = sr_output r \<and> pd_type p = pd_type source_port)
                       (nd_inputs d) of
                   None \<Rightarrow> Inl (StopError (CE_PortTypeMismatch (st_stage_id stage) (sr_stage_id r)
                     (sr_output r) (''no '' @ bq (sr_output r) @ '' input of type ''
                       @ debug_port_type (pd_type source_port) @ '' on '' @ bq (st_capability_id stage))))
                 | Some target_port \<Rightarrow>
                     Inr (edges @ [\<lparr>ge_from = (sr_stage_id r, pd_name source_port),
                       ge_to = (st_stage_id stage, pd_name target_port),
                       ge_type = port_type_label (pd_type source_port)\<rparr>])))))"

section \<open>Parameters\<close>

definition insert_params :: "json \<Rightarrow> json_map \<Rightarrow> json_map" where
  "insert_params v m = (case as_object v of
     None \<Rightarrow> m | Some kvs \<Rightarrow> fold (\<lambda>(k, x). bt_insert k x) kvs m)"

definition merge_params :: "capability_binding \<Rightarrow> stage_intent \<Rightarrow> json_map" where
  "merge_params b stage = insert_params (st_params stage) (insert_params (cb_defaults b) [])"

definition edge_into :: "graph_edge list \<Rightarrow> string \<Rightarrow> string \<Rightarrow> bool" where
  "edge_into edges node_id port = list_ex (\<lambda>e. ge_to e = (node_id, port)) edges"

text \<open>A required text input given as a literal becomes an \<open>input.text\<close> node.\<close>

definition materialize_input ::
  "stage_intent \<Rightarrow> node_definition \<Rightarrow> port_definition \<Rightarrow> build_state \<times> json_map \<Rightarrow> build_state \<times> json_map" where
  "materialize_input stage d port sp = (case sp of (s, params) \<Rightarrow>
     if edge_into (bs_edges s) (st_stage_id stage) (pd_name port) \<or>
        bt_contains (sc_properties (nd_params_schema d)) (pd_name port)
     then (s, params)
     else case bt_get params (pd_name port) of
         None \<Rightarrow> (s, params)
       | Some v \<Rightarrow>
           (let input_id = st_stage_id stage @ ''-'' @ pd_name port @ ''-input'' in
            (s\<lparr>bs_nodes := bt_insert input_id
                 \<lparr>gn_node_type = ''input.text'', gn_title = ''Text Input'',
                  gn_params = json_object [(''text'', v)], gn_pos = (Fin 0, Fin 0),
                  gn_size = None, gn_semantics = None\<rparr> (bs_nodes s),
               bs_edges := bs_edges s @ [\<lparr>ge_from = (input_id, ''text''),
                  ge_to = (st_stage_id stage, pd_name port), ge_type = ''text''\<rparr>],
               bs_synthesized := bs_synthesized s @ [(input_id, st_stage_id stage)],
               bs_diagnostics := bs_diagnostics s @ [st_stage_id stage @ '': materialized ''
                  @ bq ''input.text'' @ '' node for required '' @ bq (pd_name port) @ '' input'']\<rparr>,
             bt_remove (pd_name port) params)))"

definition missing_inputs :: "stage_intent \<Rightarrow> node_definition \<Rightarrow> string list \<Rightarrow> json_map \<Rightarrow> string list" where
  "missing_inputs stage d wired params =
     map (\<lambda>p. st_stage_id stage @ ''.'' @ pd_name p)
       (filter (\<lambda>p. pd_required p \<and> \<not> (pd_name p \<in> set wired \<or>
          (case bt_get params (pd_name p) of None \<Rightarrow> False | Some v \<Rightarrow> \<not> is_null v))) (nd_inputs d))"

text \<open>The loop over the schema's required parameters: placeholders for wired ones.\<close>

definition require_param ::
  "stage_intent \<Rightarrow> string list \<Rightarrow> string \<Rightarrow> json_map \<times> string list \<times> string list
   \<Rightarrow> json_map \<times> string list \<times> string list" where
  "require_param stage wired required st = (case st of (params, diagnostics, missing) \<Rightarrow>
     if bt_contains params required then (params, diagnostics, missing)
     else if required \<in> set wired
     then (bt_insert required (JString '''') params,
           diagnostics @ [st_stage_id stage @ '': filled placeholder param '' @ bq required
             @ '' (value arrives over the wire)''],
           missing)
     else (params, diagnostics, missing @ [st_stage_id stage @ ''.'' @ required]))"

section \<open>One stage\<close>

definition stage_implementation :: "stage_intent \<Rightarrow> resolved_implementation \<Rightarrow> implementation_selection" where
  "stage_implementation stage r = (case st_requested_model stage of
     Some _ \<Rightarrow> Pinned (ri_resolved_model_id r) (ri_binding_id r)
   | None \<Rightarrow> Policy ''capability_default'' (JObject []))"

definition stage_node ::
  "nat \<Rightarrow> stage_intent \<Rightarrow> resolved_implementation \<Rightarrow> capability_binding \<Rightarrow> string
   \<Rightarrow> node_definition \<Rightarrow> json_map \<Rightarrow> graph_node" where
  "stage_node index stage r b node_type d params =
     \<lparr>gn_node_type = node_type, gn_title = nd_title d, gn_params = JObject params,
      gn_pos = (f32_mul (f32_of_nat index) COLUMN_WIDTH, Fin 0), gn_size = None,
      gn_semantics = Some \<lparr>ns_capability_id = ri_capability_id r, ns_mode = cb_mode b,
        ns_implementation = stage_implementation stage r\<rparr>\<rparr>"

definition resolved_stage_of :: "stage_intent \<Rightarrow> resolved_implementation \<Rightarrow> resolved_stage" where
  "resolved_stage_of stage r =
     \<lparr>rs_stage_id = st_stage_id stage, rs_node_id = st_stage_id stage,
      rs_capability_id = ri_capability_id r, rs_requested_model_id = ri_requested_model_id r,
      rs_resolved_model_id = ri_resolved_model_id r, rs_binding_id = ri_binding_id r,
      rs_binding_revision = ri_binding_revision r\<rparr>"

text \<open>The tail of the loop body: materialised inputs, required inputs, and the stage's node.\<close>

definition finish_stage ::
  "nat \<Rightarrow> stage_intent \<Rightarrow> resolved_implementation \<Rightarrow> capability_binding \<Rightarrow> string
   \<Rightarrow> node_definition \<Rightarrow> build_state \<Rightarrow> build_stop + build_state" where
  "finish_stage index stage r b node_type d s0 =
     (case fold (materialize_input stage d)
            (filter (\<lambda>p. pd_required p \<and> pd_type p = Text) (nd_inputs d))
            (s0, merge_params b stage) of (s, params) \<Rightarrow>
      let wired = map (\<lambda>e. snd (ge_to e))
            (filter (\<lambda>e. edge_target e = st_stage_id stage) (bs_edges s))
      in case fold (require_param stage wired) (sc_required (nd_params_schema d))
                (params, bs_diagnostics s, missing_inputs stage d wired params) of
           (params', diagnostics', missing) \<Rightarrow>
             if missing \<noteq> []
             then Inl (StopClarify (clarify_new ''REQUIRED_INPUT_MISSING'' (sorted_ids missing)
                    (json_object [(''stageId'', JString (st_stage_id stage))])
                    ''ask the user to provide the missing input or connect an upstream stage''))
             else Inr (s\<lparr>bs_nodes := bt_insert (st_stage_id stage)
                           (stage_node index stage r b node_type d params') (bs_nodes s),
                         bs_resolved := bs_resolved s @ [resolved_stage_of stage r],
                         bs_diagnostics := diagnostics'\<rparr>))"

definition build_stage ::
  "node_registry \<Rightarrow> catalog_snapshot \<Rightarrow> connector_availability \<Rightarrow> string option
   \<Rightarrow> stage_intent list \<Rightarrow> nat \<times> stage_intent \<Rightarrow> build_state \<Rightarrow> build_stop + build_state" where
  "build_stage reg c availability connector_preference stages p s = (case p of (index, stage) \<Rightarrow>
     res_bind (resolve_stage c availability connector_preference stage) (\<lambda>r.
     res_bind (node_type_of_capability c (ri_capability_id r)) (\<lambda>node_type.
     res_bind (definition_of_type reg node_type) (\<lambda>d.
     res_bind (fold_res (wire_input reg c stages stage d) (st_input_from stage) (bs_edges s)) (\<lambda>edges.
       case catalog_binding c (ri_binding_id r) of
         None \<Rightarrow> Inl (StopPanic ''resolver returned an existing binding'')
       | Some b \<Rightarrow> finish_stage index stage r b node_type d (s\<lparr>bs_edges := edges\<rparr>))))))"

section \<open>Layout\<close>

record layout_state =
  ly_branch_of :: "(string, nat) btree_map"
  ly_depth_of :: "(string, nat) btree_map"
  ly_next_branch :: nat
  ly_nodes :: "(string, graph_node) btree_map"
  ly_hints :: "layout_hint list"

text \<open>The branch and depth of a stage, and the next free branch.\<close>

definition place_input :: "layout_state \<Rightarrow> stage_input_ref \<Rightarrow> nat \<times> nat \<Rightarrow> nat \<times> nat" where
  "place_input s r bd = (case bd of (branch, depth) \<Rightarrow>
     (case bt_get (ly_branch_of s) (sr_stage_id r) of None \<Rightarrow> branch | Some u \<Rightarrow> max branch u,
      case bt_get (ly_depth_of s) (sr_stage_id r) of None \<Rightarrow> depth | Some u \<Rightarrow> max depth (u + 1)))"

definition place_stage :: "topology_intent \<Rightarrow> stage_intent \<Rightarrow> layout_state \<Rightarrow> nat \<times> nat \<times> nat" where
  "place_stage topology stage s =
     (if st_input_from stage = []
      then (if topology = Parallel then (ly_next_branch s, 0, ly_next_branch s + 1)
            else (0, 0, ly_next_branch s))
      else (case fold (place_input s) (st_input_from stage) (0, 0) of
              (branch, depth) \<Rightarrow> (branch, depth, ly_next_branch s)))"

definition grid_pos :: "nat \<Rightarrow> nat \<Rightarrow> f32 \<times> f32" where
  "grid_pos depth branch =
     (f32_mul (f32_of_nat depth) COLUMN_WIDTH, f32_mul (f32_of_nat branch) ROW_HEIGHT)"

definition layout_stage :: "topology_intent \<Rightarrow> stage_intent \<Rightarrow> layout_state \<Rightarrow> layout_state" where
  "layout_stage topology stage s = (case place_stage topology stage s of (branch, depth, next_branch) \<Rightarrow>
     \<lparr>ly_branch_of = bt_insert (st_stage_id stage) branch (ly_branch_of s),
      ly_depth_of = bt_insert (st_stage_id stage) depth (ly_depth_of s),
      ly_next_branch = next_branch,
      ly_nodes = bt_modify (st_stage_id stage) (\<lambda>n. n\<lparr>gn_pos := grid_pos depth branch\<rparr>) (ly_nodes s),
      ly_hints = ly_hints s @ [\<lparr>lh_node_id = st_stage_id stage, lh_pos = grid_pos depth branch\<rparr>]\<rparr>)"

definition apply_layout ::
  "intent_plan \<Rightarrow> (string, graph_node) btree_map \<Rightarrow> (string, graph_node) btree_map \<times> layout_hint list" where
  "apply_layout p nodes =
     (let s = fold (layout_stage (in_topology p)) (in_stages p)
            \<lparr>ly_branch_of = [], ly_depth_of = [], ly_next_branch = 0, ly_nodes = nodes, ly_hints = []\<rparr>
      in (ly_nodes s, ly_hints s))"

text \<open>A materialised input sits one column left of its consumer.\<close>

definition place_synthesized ::
  "string \<times> string \<Rightarrow> (string, graph_node) btree_map \<times> layout_hint list
   \<Rightarrow> (string, graph_node) btree_map \<times> layout_hint list" where
  "place_synthesized ic nh = (case ic of (input_id, consumer_id) \<Rightarrow> (case nh of (nodes, hints) \<Rightarrow>
     let consumer_pos = (case bt_get nodes consumer_id of None \<Rightarrow> (Fin 0, Fin 0) | Some n \<Rightarrow> gn_pos n);
         pos = (f32_sub (fst consumer_pos) COLUMN_WIDTH, snd consumer_pos)
     in (bt_modify input_id (\<lambda>n. n\<lparr>gn_pos := pos\<rparr>) nodes,
         hints @ [\<lparr>lh_node_id = input_id, lh_pos = pos\<rparr>])))"

section \<open>The whole graph\<close>

definition empty_build :: build_state where
  "empty_build = \<lparr>bs_nodes = [], bs_edges = [], bs_resolved = [], bs_diagnostics = [],
     bs_synthesized = []\<rparr>"

definition assemble :: "intent_plan \<Rightarrow> catalog_snapshot \<Rightarrow> build_state \<Rightarrow> built_graph" where
  "assemble p c s =
     (case fold place_synthesized (bs_synthesized s) (apply_layout p (bs_nodes s)) of
        (nodes, hints) \<Rightarrow>
          \<lparr>bg_target = \<lparr>wg_schema_version = 1, wg_catalog_revision = Some (cs_catalog_revision c),
             wg_nodes = nodes, wg_edges = bs_edges s\<rparr>,
           bg_resolved_stages = bs_resolved s, bg_layout_hints = hints,
           bg_diagnostics = bs_diagnostics s\<rparr>)"

definition build_stages ::
  "intent_plan \<Rightarrow> node_registry \<Rightarrow> catalog_snapshot \<Rightarrow> connector_availability \<Rightarrow> string option
   \<Rightarrow> build_stop + build_state" where
  "build_stages p reg c availability connector_preference =
     fold_res (build_stage reg c availability connector_preference (in_stages p))
       (enumerate 0 (in_stages p)) empty_build"

definition build ::
  "intent_plan \<Rightarrow> node_registry \<Rightarrow> catalog_snapshot \<Rightarrow> connector_availability \<Rightarrow> string option
   \<Rightarrow> build_stop + built_graph" where
  "build p reg c availability connector_preference =
     res_bind (build_stages p reg c availability connector_preference) (\<lambda>s.
       let built = assemble p c s in
       res_bind (map_err (\<lambda>err. StopError (CE_GraphInvalid (semantics_error_code err)
                    (semantics_error_display err))) (validate_semantics reg c (bg_target built)))
         (\<lambda>_. Inr built))"

section \<open>The steps\<close>

lemma resolve_stage_ok [result_simps]:
  "resolve_stage c av k stage = Inr r \<longleftrightarrow> resolve c (stage_request k stage) av = Inr r"
  by (auto simp: resolve_stage_def split: sum.splits resolve_error.splits)

lemma resolve_stage_no_panic: "resolve_stage c av k stage \<noteq> Inl (StopPanic m)"
  by (auto simp: resolve_stage_def split: sum.splits resolve_error.splits)

lemma wire_input_ok [result_simps]:
  "wire_input reg c stages stage d r edges = Inr edges' \<longleftrightarrow>
     (\<exists>src t sd sp tp. List.find (\<lambda>s. st_stage_id s = sr_stage_id r) stages = Some src \<and>
        map_option cd_node_type (catalog_capability c (st_capability_id src)) = Some t \<and>
        bt_get (reg_definitions reg) t = Some sd \<and>
        find_port (nd_outputs sd) (sr_output r) = Some sp \<and>
        List.find (\<lambda>p. pd_name p = sr_output r \<and> pd_type p = pd_type sp) (nd_inputs d) = Some tp \<and>
        edges' = edges @ [\<lparr>ge_from = (sr_stage_id r, pd_name sp),
          ge_to = (st_stage_id stage, pd_name tp), ge_type = port_type_label (pd_type sp)\<rparr>])"
  unfolding wire_input_def node_type_for_stage_def node_type_of_capability_def definition_of_type_def
    registry_definition_def ok_or_def
  by (auto split: option.splits)

lemma wire_input_no_panic:
  assumes "sr_stage_id r \<in> st_stage_id ` set stages"
  shows "wire_input reg c stages stage d r edges \<noteq> Inl (StopPanic m)"
proof -
  have "List.find (\<lambda>s. st_stage_id s = sr_stage_id r) stages \<noteq> None"
    using assms by (auto simp: find_None_iff)
  then show ?thesis
    by (auto simp: wire_input_def node_type_for_stage_def node_type_of_capability_def
        definition_of_type_def registry_definition_def res_bind_def ok_or_def map_err_def
        split: option.splits sum.splits)
qed

lemma fold_res_InlD: "fold_res f xs s = Inl e \<Longrightarrow> \<exists>x\<in>set xs. \<exists>t. f x t = Inl e"
  by (induction xs arbitrary: s) (auto split: sum.splits)

lemma finish_stage_no_panic: "finish_stage n stage r b t d s \<noteq> Inl (StopPanic m)"
  by (simp add: finish_stage_def Let_def split: prod.splits)

lemma build_stage_no_panic:
  assumes "sr_stage_id ` set (st_input_from stage) \<subseteq> st_stage_id ` set stages"
  shows "build_stage reg c av k stages (n, stage) s \<noteq> Inl (StopPanic m)"
proof
  assume panic: "build_stage reg c av k stages (n, stage) s = Inl (StopPanic m)"
  then obtain r where r: "resolve c (stage_request k stage) av = Inr r"
    using resolve_stage_no_panic
    by (cases "resolve_stage c av k stage") (auto simp: build_stage_def result_simps)
  then have rs: "resolve_stage c av k stage = Inr r" by (simp add: result_simps)
  obtain b where b: "catalog_binding c (ri_binding_id r) = Some b"
    by (rule res.binding_of_result [OF r])
  obtain t where t: "node_type_of_capability c (ri_capability_id r) = Inr t"
    using panic rs
    by (cases "node_type_of_capability c (ri_capability_id r)")
       (auto simp: build_stage_def node_type_of_capability_def result_simps)
  obtain d where d: "definition_of_type reg t = Inr d"
    using panic rs t
    by (cases "definition_of_type reg t")
       (auto simp: build_stage_def definition_of_type_def registry_definition_def ok_or_def
         split: option.splits)
  show False
  proof (cases "fold_res (wire_input reg c stages stage d) (st_input_from stage) (bs_edges s)")
    case (Inl e)
    with panic rs t d have "e = StopPanic m" by (simp add: build_stage_def)
    with fold_res_InlD [OF Inl] obtain x u where "x \<in> set (st_input_from stage)"
      and
      wire: "wire_input reg c stages stage d x u = Inl (StopPanic m)" by blast
    then have "sr_stage_id x \<in> st_stage_id ` set stages" using assms by auto
    from wire_input_no_panic [OF this] wire show False by simp
  next
    case (Inr edges)
    have "build_stage reg c av k stages (n, stage) s = finish_stage n stage r b t d (s\<lparr>bs_edges := edges\<rparr>)"
      by (simp add: build_stage_def rs t d Inr b)
    with panic show False by (simp only: finish_stage_no_panic)
  qed
qed

section \<open>Invariants of the construction\<close>

lemma materialize_wf:
  assumes "bt_wf (bs_nodes (fst sp))"
  shows "bt_wf (bs_nodes (fst (materialize_input stage d port sp)))"
    and "fst ` set (bs_nodes (fst sp)) \<subseteq> fst ` set (bs_nodes (fst (materialize_input stage d port sp)))"
    and "bs_resolved (fst (materialize_input stage d port sp)) = bs_resolved (fst sp)"
  using assms
  by (auto simp: materialize_input_def Let_def split: prod.splits option.splits)

lemma fold_materialize:
  assumes "bt_wf (bs_nodes (fst sp))" "fold (materialize_input stage d) ports sp = sp'"
  shows "bt_wf (bs_nodes (fst sp')) \<and> fst ` set (bs_nodes (fst sp)) \<subseteq> fst ` set (bs_nodes (fst sp'))
     \<and> bs_resolved (fst sp') = bs_resolved (fst sp)"
  using assms
proof (induction ports arbitrary: sp)
  case (Cons port ports)
  note step = materialize_wf [OF Cons.prems(1), of stage d port]
  have "fold (materialize_input stage d) ports (materialize_input stage d port sp) = sp'"
    using Cons.prems(2) by simp
  note ih = Cons.IH [OF step(1) this]
  show ?case using ih step(3) order_trans [OF step(2)] by simp
qed auto

lemma finish_stage_ok:
  assumes "finish_stage n stage r b t d s = Inr s'" "bt_wf (bs_nodes s)"
  shows "bt_wf (bs_nodes s') \<and>
     insert (st_stage_id stage) (fst ` set (bs_nodes s)) \<subseteq> fst ` set (bs_nodes s') \<and>
     bs_resolved s' = bs_resolved s @ [resolved_stage_of stage r]"
proof -
  let ?ports = "filter (\<lambda>p. pd_required p \<and> pd_type p = Text) (nd_inputs d)"
  obtain s1 params where f: "fold (materialize_input stage d) ?ports (s, merge_params b stage) = (s1, params)"
    by (cases "fold (materialize_input stage d) ?ports (s, merge_params b stage)")
  have inv: "bt_wf (bs_nodes s1)" "fst ` set (bs_nodes s) \<subseteq> fst ` set (bs_nodes s1)"
    "bs_resolved s1 = bs_resolved s"
    using fold_materialize [OF _ f] assms(2) by simp_all
  obtain params' diagnostics' where "s' = s1\<lparr>
       bs_nodes := bt_insert (st_stage_id stage) (stage_node n stage r b t d params') (bs_nodes s1),
       bs_resolved := bs_resolved s1 @ [resolved_stage_of stage r],
       bs_diagnostics := diagnostics'\<rparr>"
    using assms(1) unfolding finish_stage_def Let_def f
    by (auto split: prod.splits if_splits)
  then show ?thesis using inv by auto
qed

text \<open>What each step of the loop adds: the stage's node, and the record of its resolution.\<close>

definition stage_resolves ::
  "catalog_snapshot \<Rightarrow> connector_availability \<Rightarrow> string option \<Rightarrow> stage_intent \<Rightarrow> resolved_stage \<Rightarrow> bool" where
  "stage_resolves c av k stage rs \<longleftrightarrow>
     (\<exists>r. resolve c (stage_request k stage) av = Inr r \<and> rs = resolved_stage_of stage r)"

lemma build_stage_ok:
  assumes "build_stage reg c av k stages (n, stage) s = Inr s'" "bt_wf (bs_nodes s)"
  shows "bt_wf (bs_nodes s') \<and>
     insert (st_stage_id stage) (fst ` set (bs_nodes s)) \<subseteq> fst ` set (bs_nodes s') \<and>
     (\<exists>rs. bs_resolved s' = bs_resolved s @ [rs] \<and> stage_resolves c av k stage rs)"
proof -
  obtain r t d edges b where r: "resolve c (stage_request k stage) av = Inr r"
    and fin: "finish_stage n stage r b t d (s\<lparr>bs_edges := edges\<rparr>) = Inr s'"
    using assms(1) by (auto simp: build_stage_def result_simps split: option.splits)
  from finish_stage_ok [OF fin] assms(2) have fin':
    "bt_wf (bs_nodes s')" "insert (st_stage_id stage) (fst ` set (bs_nodes s)) \<subseteq> fst ` set (bs_nodes s')"
    "bs_resolved s' = bs_resolved s @ [resolved_stage_of stage r]" by auto
  have "stage_resolves c av k stage (resolved_stage_of stage r)"
    using r by (auto simp: stage_resolves_def)
  with fin' show ?thesis by blast
qed

lemma fold_build_stage:
  assumes "fold_res (build_stage reg c av k stages) (enumerate n todo) s = Inr s'" "bt_wf (bs_nodes s)"
  shows "bt_wf (bs_nodes s') \<and>
     st_stage_id ` set todo \<union> fst ` set (bs_nodes s) \<subseteq> fst ` set (bs_nodes s') \<and>
     (\<exists>new. bs_resolved s' = bs_resolved s @ new \<and> list_all2 (stage_resolves c av k) todo new)"
  using assms
proof (induction todo arbitrary: n s)
  case Nil
  then show ?case by simp
next
  case (Cons stage todo)
  then obtain s1 where s1: "build_stage reg c av k stages (n, stage) s = Inr s1"
    "fold_res (build_stage reg c av k stages) (enumerate (Suc n) todo) s1 = Inr s'"
    by (auto split: sum.splits)
  note step = build_stage_ok [OF s1(1) Cons.prems(2)]
  then obtain rs where rs: "bs_resolved s1 = bs_resolved s @ [rs]" "stage_resolves c av k stage rs"
    by blast
  from Cons.IH [OF s1(2)] step obtain new where new: "bs_resolved s' = bs_resolved s1 @ new"
    "list_all2 (stage_resolves c av k) todo new" "bt_wf (bs_nodes s')"
    "st_stage_id ` set todo \<union> fst ` set (bs_nodes s1) \<subseteq> fst ` set (bs_nodes s')"
    by blast
  have "bs_resolved s' = bs_resolved s @ rs # new" using new(1) rs(1) by simp
  moreover have "list_all2 (stage_resolves c av k) (stage # todo) (rs # new)"
    using rs(2) new(2) by simp
  moreover have "st_stage_id ` set (stage # todo) \<union> fst ` set (bs_nodes s) \<subseteq> fst ` set (bs_nodes s')"
    using step new(4) by (simp add: subset_trans [of "fst ` set (bs_nodes s)"] subset_iff)
  ultimately show ?case using new(3) by blast
qed

lemma layout_stage_keys:
  "bt_keys (ly_nodes (layout_stage t stage s)) = bt_keys (ly_nodes s)"
  by (simp add: layout_stage_def split: prod.splits)

lemma fold_layout_keys:
  "bt_keys (ly_nodes (fold (layout_stage t) stages s)) = bt_keys (ly_nodes s)"
  by (induction stages arbitrary: s) (simp_all add: layout_stage_keys)

lemma apply_layout_keys: "bt_keys (fst (apply_layout p nodes)) = bt_keys nodes"
  by (simp add: apply_layout_def Let_def fold_layout_keys)

lemma place_synthesized_keys: "bt_keys (fst (place_synthesized ic nh)) = bt_keys (fst nh)"
  by (simp add: place_synthesized_def Let_def split: prod.splits)

lemma fold_synthesized_keys: "bt_keys (fst (fold place_synthesized ics nh)) = bt_keys (fst nh)"
  by (induction ics arbitrary: nh) (simp_all add: place_synthesized_keys)

lemma assemble_keys: "bt_keys (wg_nodes (bg_target (assemble p c s))) = bt_keys (bs_nodes s)"
  using fold_synthesized_keys [of "bs_synthesized s" "apply_layout p (bs_nodes s)"]
  by (cases "fold place_synthesized (bs_synthesized s) (apply_layout p (bs_nodes s))")
     (simp add: assemble_def apply_layout_keys)

lemma bt_wf_keys: "bt_wf m \<longleftrightarrow> sorted_wrt (<) (bt_keys m)"
  by (simp add: bt_wf_def bt_keys_def)

lemma assemble_fields:
  "wg_catalog_revision (bg_target (assemble p c s)) = Some (cs_catalog_revision c)"
  "bg_resolved_stages (assemble p c s) = bs_resolved s"
  "wg_schema_version (bg_target (assemble p c s)) = 1"
  by (simp_all add: assemble_def split: prod.splits)

lemma build_ok:
  assumes "build p reg c av k = Inr built"
  shows "bt_wf (wg_nodes (bg_target built))"
    and "validate_semantics reg c (bg_target built) = Inr ()"
    and "wg_catalog_revision (bg_target built) = Some (cs_catalog_revision c)"
    and "st_stage_id ` set (in_stages p) \<subseteq> dom (bt_get (wg_nodes (bg_target built)))"
    and "list_all2 (stage_resolves c av k) (in_stages p) (bg_resolved_stages built)"
proof -
  from assms obtain s where s: "build_stages p reg c av k = Inr s" "built = assemble p c s"
    "validate_semantics reg c (bg_target built) = Inr ()"
    by (auto simp: build_def result_simps Let_def)
  from fold_build_stage [OF s(1) [unfolded build_stages_def]]
  have inv: "bt_wf (bs_nodes s)" "st_stage_id ` set (in_stages p) \<subseteq> set (bt_keys (bs_nodes s))"
    "list_all2 (stage_resolves c av k) (in_stages p) (bs_resolved s)"
    by (auto simp: empty_build_def bt_keys_def)
  show "bt_wf (wg_nodes (bg_target built))"
    using inv(1) by (simp add: bt_wf_keys s(2) assemble_keys)
  show "st_stage_id ` set (in_stages p) \<subseteq> dom (bt_get (wg_nodes (bg_target built)))"
    using inv(2) bt_keys_set [of "wg_nodes (bg_target built)"] by (simp add: s(2) assemble_keys)
  show "wg_catalog_revision (bg_target built) = Some (cs_catalog_revision c)"
    "list_all2 (stage_resolves c av k) (in_stages p) (bg_resolved_stages built)"
    using inv(3) by (simp_all add: s(2) assemble_fields)
  show "validate_semantics reg c (bg_target built) = Inr ()" by (rule s(3))
qed

lemma build_no_panic:
  assumes "stages_ok (in_stages p)"
  shows "build p reg c av k \<noteq> Inl (StopPanic m)"
proof
  assume panic: "build p reg c av k = Inl (StopPanic m)"
  have "build_stages p reg c av k \<noteq> Inl (StopPanic m)"
  proof
    assume "build_stages p reg c av k = Inl (StopPanic m)"
    then obtain n stage s where x: "(n, stage) \<in> set (enumerate 0 (in_stages p))"
      "build_stage reg c av k (in_stages p) (n, stage) s = Inl (StopPanic m)"
      unfolding build_stages_def using fold_res_InlD by fast
    from x(1) have "stage \<in> set (in_stages p)"
      unfolding enumerate_eq_zip by (rule set_zip_rightD)
    then obtain before after where split: "in_stages p = before @ stage # after" by (meson split_list)
    have "sr_stage_id ` set (st_input_from stage) \<subseteq> st_stage_id ` set before"
      using assms by (intro refs_earlierD [of before stage after]) (simp add: stages_ok_def split)
    then have "sr_stage_id ` set (st_input_from stage) \<subseteq> st_stage_id ` set (in_stages p)"
      by (auto simp: split)
    from build_stage_no_panic [OF this] x(2) show False by simp
  qed
  with panic show False
    by (auto simp: build_def res_bind_def map_err_def Let_def split: sum.splits)
qed

section \<open>Linear layout\<close>

lemma grid_pos_exact:
  assumes "240 * n < 2 ^ 24"
  shows "grid_pos n 0 = (Fin (of_nat (240 * n)), Fin 0)"
proof -
  have "f32_of_nat n = Fin (of_nat n)" "f32_of_nat 0 = Fin 0"
    using f32_of_nat_exact [of n] f32_of_nat_exact [of 0] assms by simp_all
  moreover have "f32_round (of_int (int (240 * n))) = Fin (of_int (int (240 * n)))"
    by (rule f32_round_int_exact) (use assms in simp)
  moreover have "f32_round (of_int 0) = Fin (of_int 0)"
    by (rule f32_round_int_exact) simp
  ultimately show ?thesis
    by (simp add: grid_pos_def f32_mul_def COLUMN_WIDTH_def ROW_HEIGHT_def mult.commute)
qed

lemma fold_place_input:
  assumes "refs \<noteq> []" "\<forall>r\<in>set refs. sr_stage_id r = q"
    and "bt_get (ly_branch_of s) q = Some 0" "bt_get (ly_depth_of s) q = Some m"
  shows "fold (place_input s) refs (0, 0) = (0, Suc m)"
proof -
  have "fold (place_input s) refs (0, d) = (0, if refs = [] then d else max d (Suc m))" for d
    using assms(2-) by (induction refs arbitrary: d) (auto simp: place_input_def)
  then show ?thesis using assms(1) by simp
qed

definition linear_hint :: "stage_intent list \<Rightarrow> nat \<Rightarrow> layout_hint" where
  "linear_hint stages n = \<lparr>lh_node_id = st_stage_id (stages ! n), lh_pos = grid_pos n 0\<rparr>"

lemma layout_linear:
  assumes chain: "linear_chain stages" and dist: "distinct (map st_stage_id stages)"
    and "n \<le> length stages"
    and "s = fold (layout_stage Linear) (take n stages)
           \<lparr>ly_branch_of = [], ly_depth_of = [], ly_next_branch = 0, ly_nodes = nodes, ly_hints = []\<rparr>"
  shows "ly_hints s = map (linear_hint stages) [0..<n] \<and>
     (\<forall>i<n. bt_get (ly_branch_of s) (st_stage_id (stages ! i)) = Some 0 \<and>
             bt_get (ly_depth_of s) (st_stage_id (stages ! i)) = Some i)"
  using assms(3,4)
proof (induction n arbitrary: s)
  case 0
  then show ?case by simp
next
  case (Suc n)
  define s0 where "s0 = fold (layout_stage Linear) (take n stages)
           \<lparr>ly_branch_of = [], ly_depth_of = [], ly_next_branch = 0, ly_nodes = nodes, ly_hints = []\<rparr>"
  let ?st = "stages ! n"
  have s: "s = layout_stage Linear ?st s0"
    using Suc.prems by (simp add: take_Suc_conv_app_nth s0_def)
  have IH: "ly_hints s0 = map (linear_hint stages) [0..<n]"
    "\<And>i. i < n \<Longrightarrow> bt_get (ly_branch_of s0) (st_stage_id (stages ! i)) = Some 0"
    "\<And>i. i < n \<Longrightarrow> bt_get (ly_depth_of s0) (st_stage_id (stages ! i)) = Some i"
    using Suc.IH [OF _ s0_def] Suc.prems(1) by auto
  have place: "place_stage Linear ?st s0 = (0, n, ly_next_branch s0)"
  proof (cases n)
    case 0
    have "0 < length stages" using Suc.prems(1) by linarith
    then have "st_input_from (stages ! 0) = []"
      using chain unfolding linear_chain_def by presburger
    then show ?thesis using 0 by (simp add: place_stage_def)
  next
    case (Suc m)
    have img: "sr_stage_id ` set (st_input_from ?st) = {st_stage_id (stages ! m)}"
      using chain Suc Suc.prems(1) unfolding linear_chain_def by (metis Suc_le_lessD diff_Suc_1 nat.distinct(1))
    then have refs: "st_input_from ?st \<noteq> []"
      "\<forall>r\<in>set (st_input_from ?st). sr_stage_id r = st_stage_id (stages ! m)" by auto
    have "fold (place_input s0) (st_input_from ?st) (0, 0) = (0, Suc m)"
      by (rule fold_place_input [OF refs]) (simp_all add: IH Suc)
    then show ?thesis using refs(1) Suc by (simp add: place_stage_def)
  qed
  have new: "st_stage_id (stages ! i) \<noteq> st_stage_id ?st" if "i < n" for i
    using that dist Suc.prems(1) nth_eq_iff_index_eq [OF dist, of i n] by simp
  show ?case
    using IH new by (auto simp: s layout_stage_def place linear_hint_def less_Suc_eq)
qed

text \<open>A linear intent is laid out on one row, stage \<open>n\<close> exactly at \<open>(240 n, 0)\<close>: the 32-bit
  arithmetic is exact as long as \<open>240 n < 2^24\<close>.\<close>

theorem linear_layout_exact:
  assumes "validate_intent p = Inr ()" "in_topology p = Linear" "240 * length (in_stages p) < 2 ^ 24"
  shows "snd (apply_layout p nodes) = map (\<lambda>n.
     \<lparr>lh_node_id = st_stage_id (in_stages p ! n), lh_pos = (Fin (of_nat (240 * n)), Fin 0)\<rparr>)
     [0..<length (in_stages p)]"
proof -
  have ok: "linear_chain (in_stages p)" "distinct (map st_stage_id (in_stages p))"
    using assms(1,2) by (auto simp: validate_intent_ok intent_ok_def stages_ok_def)
  have "snd (apply_layout p nodes) = map (linear_hint (in_stages p)) [0..<length (in_stages p)]"
    using layout_linear [OF ok order_refl refl, of nodes] assms(2)
    by (simp add: apply_layout_def Let_def)
  moreover have "linear_hint (in_stages p) n =
      \<lparr>lh_node_id = st_stage_id (in_stages p ! n), lh_pos = (Fin (of_nat (240 * n)), Fin 0)\<rparr>"
    if "n < length (in_stages p)" for n
    using that assms(3) grid_pos_exact [of n] by (simp add: linear_hint_def)
  ultimately show ?thesis by simp
qed

lemma linear_layout_exact_witness:
  "snd (apply_layout sample_linear []) =
     [\<lparr>lh_node_id = ''s1'', lh_pos = (Fin 0, Fin 0)\<rparr>, \<lparr>lh_node_id = ''s2'', lh_pos = (Fin 240, Fin 0)\<rparr>]"
  using linear_layout_exact [OF sample_linear_valid, of "[]"]
  by (simp add: sample_linear_def sample_stage_def upt_rec)

end
