(* ===== verification/Proposal_Diff.thy ===== *)
theory Proposal_Diff
  imports Graph_Builder
begin

text \<open>
  The difference between the current graph and a compiled target
  (crates/compiler/src/proposal_diff.rs), and the compiler's entry points (lib.rs).
\<close>

section \<open>The difference\<close>

definition edge_key :: "graph_edge \<Rightarrow> (string \<times> string) \<times> string \<times> string" where
  "edge_key e = (ge_from e, ge_to e)"

definition edges_missing_in :: "workflow_graph \<Rightarrow> workflow_graph \<Rightarrow> graph_edge list" where
  "edges_missing_in a b =
     sort_key edge_key (filter (\<lambda>e. e \<notin> set (wg_edges b)) (wg_edges a))"

text \<open>\<open>!=\<close> on positions is the comparison of floats.\<close>

definition pos_eq :: "f32 \<times> f32 \<Rightarrow> f32 \<times> f32 \<Rightarrow> bool" where
  "pos_eq p q \<longleftrightarrow> fp_eq (fst p) (fst q) \<and> fp_eq (snd p) (snd q)"

definition diff_params :: "string \<Rightarrow> json \<Rightarrow> json \<Rightarrow> proposal_op list" where
  "diff_params i target_value current_value =
     (case (as_object target_value, as_object current_value) of
        (Some target_params, Some current_params) \<Rightarrow>
          List.map_filter (\<lambda>(k, v). if bt_get current_params k \<noteq> Some v
            then Some (SetParam i k (bt_get current_params k) v) else None) target_params
      | _ \<Rightarrow> [])"

definition diff_node :: "workflow_graph \<Rightarrow> string \<times> graph_node \<Rightarrow> proposal_op list" where
  "diff_node current p = (case p of (i, n) \<Rightarrow>
     (case bt_get (wg_nodes current) i of
        None \<Rightarrow> [AddNode i n]
      | Some existing \<Rightarrow>
          if gn_node_type existing \<noteq> gn_node_type n then [RemoveNode i, AddNode i n]
          else diff_params i (gn_params n) (gn_params existing) @
            (if pos_eq (gn_pos existing) (gn_pos n) then [] else [MoveNode i (gn_pos n)]) @
            (if gn_semantics existing = gn_semantics n then [] else [SetSemantics i (gn_semantics n)])))"

definition diff :: "workflow_graph \<Rightarrow> workflow_graph \<Rightarrow> proposal_op list" where
  "diff current target =
     map RemoveEdge (edges_missing_in current target) @
     map RemoveNode (filter (\<lambda>i. \<not> bt_contains (wg_nodes target) i) (bt_keys (wg_nodes current))) @
     concat (map (diff_node current) (wg_nodes target)) @
     map AddEdge (edges_missing_in target current)"

section \<open>Compilation\<close>

record compiled_proposal =
  cp_graph_schema_version :: u32
  cp_catalog_revision :: string
  cp_ops :: "proposal_op list"
  cp_resolved_stages :: "resolved_stage list"
  cp_target :: workflow_graph
  cp_layout_hints :: "layout_hint list"
  cp_diagnostics :: "string list"

datatype compile_outcome = Compiled compiled_proposal | Clarify clarify_first

datatype compile_failure = CompileFailed compile_error | CompilePanicked string

definition compile_for_connector ::
  "intent_plan \<Rightarrow> workflow_graph \<Rightarrow> node_registry \<Rightarrow> catalog_snapshot \<Rightarrow> connector_availability
   \<Rightarrow> string option \<Rightarrow> compile_failure + compile_outcome" where
  "compile_for_connector p current reg c availability connector_preference =
     res_bind (map_err CompileFailed (validate_intent p)) (\<lambda>_.
       case build p reg c availability connector_preference of
         Inl (StopError err) \<Rightarrow> Inl (CompileFailed err)
       | Inl (StopPanic msg) \<Rightarrow> Inl (CompilePanicked msg)
       | Inl (StopClarify clarify) \<Rightarrow> Inr (Clarify clarify)
       | Inr built \<Rightarrow>
           (case wg_catalog_revision (bg_target built) of
              None \<Rightarrow> Inl (CompilePanicked ''compiled target always carries a catalog revision'')
            | Some revision \<Rightarrow> Inr (Compiled
                \<lparr>cp_graph_schema_version = wg_schema_version (bg_target built),
                 cp_catalog_revision = revision,
                 cp_ops = diff current (bg_target built),
                 cp_resolved_stages = bg_resolved_stages built,
                 cp_target = bg_target built,
                 cp_layout_hints = bg_layout_hints built,
                 cp_diagnostics = bg_diagnostics built\<rparr>)))"

definition compile ::
  "intent_plan \<Rightarrow> workflow_graph \<Rightarrow> node_registry \<Rightarrow> catalog_snapshot \<Rightarrow> connector_availability
   \<Rightarrow> compile_failure + compile_outcome" where
  "compile p current reg c availability = compile_for_connector p current reg c availability None"

section \<open>What compilation promises\<close>

lemma compile_cases:
  assumes "compile_for_connector p current reg c av k = Inr (Compiled cp)"
  obtains built where "validate_intent p = Inr ()" "build p reg c av k = Inr built"
    "cp_target cp = bg_target built" "cp_ops cp = diff current (bg_target built)"
    "cp_resolved_stages cp = bg_resolved_stages built"
    "wg_catalog_revision (bg_target built) = Some (cp_catalog_revision cp)"
  using assms
  by (auto simp: compile_for_connector_def result_simps split: sum.splits build_stop.splits option.splits)

section \<open>Properties of compilation\<close>

text \<open>C10: compilation never reaches a panic: the \<open>expect\<close> calls on the source stage of a reference,
  on the binding of a resolution and on the catalog revision of the target always find a value.\<close>

theorem compile_never_panics:
  "compile_for_connector p current reg c av k \<noteq> Inl (CompilePanicked m)"
proof
  assume panic: "compile_for_connector p current reg c av k = Inl (CompilePanicked m)"
  then have v: "validate_intent p = Inr ()"
    by (auto simp: compile_for_connector_def res_bind_def map_err_def split: sum.splits)
  then have ok: "stages_ok (in_stages p)" by (simp add: validate_intent_ok intent_ok_def)
  show False
  proof (cases "build p reg c av k")
    case (Inl stop)
    then show ?thesis
      using panic v build_no_panic [OF ok, of reg c av k m]
      by (cases stop) (auto simp: compile_for_connector_def)
  next
    case (Inr built)
    then show ?thesis
      using panic v build_ok(3) [OF Inr] by (simp add: compile_for_connector_def)
  qed
qed

text \<open>C5: a compiled target is a valid graph: it validates structurally and semantically against the
  catalog whose revision it names, and every stage of the intent is a node of it.\<close>

theorem compiled_target_valid:
  assumes "compile_for_connector p current reg c av k = Inr (Compiled cp)"
  shows "validate_intent p = Inr () \<and> cp_catalog_revision cp = cs_catalog_revision c \<and>
     bt_wf (wg_nodes (cp_target cp)) \<and> graph_valid reg (cp_target cp) \<and>
     wg_catalog_revision (cp_target cp) = Some (cs_catalog_revision c) \<and>
     (\<forall>(i, n)\<in>set (wg_nodes (cp_target cp)). node_semantics_ok reg c (cp_target cp) i n) \<and>
     st_stage_id ` set (in_stages p) \<subseteq> dom (bt_get (wg_nodes (cp_target cp)))"
proof -
  obtain built where b: "validate_intent p = Inr ()" "build p reg c av k = Inr built"
    "cp_target cp = bg_target built"
    "wg_catalog_revision (bg_target built) = Some (cp_catalog_revision cp)"
    by (rule compile_cases [OF assms])
  note ok = build_ok [OF b(2)]
  show ?thesis
    using ok(3,4) b(1,4) validate_semantics_ok [OF ok(1)] ok(1,2) unfolding b(3) by auto
qed

text \<open>The stages of a compiled proposal are resolved one for one, in order, without substitution:
  a stage that names a model runs the only catalog model of that name, a stage that names none and
  has no preferred connector runs the configured default binding, and every binding exists in the
  catalog, implements the stage's capability and is enabled.\<close>

theorem compiled_stages_pinned:
  assumes "compile_for_connector p current reg c av k = Inr (Compiled cp)"
  shows "list_all2 (\<lambda>stage rs.
     rs_stage_id rs = st_stage_id stage \<and> rs_capability_id rs = st_capability_id stage \<and>
     (\<forall>q. st_requested_model stage = Some q \<longrightarrow> models_named c q = {rs_resolved_model_id rs}) \<and>
     (st_requested_model stage = None \<longrightarrow> k = None \<longrightarrow>
        bt_get (cs_default_bindings c) (st_capability_id stage) = Some (rs_binding_id rs)) \<and>
     (\<exists>b\<in>set (cs_bindings c). cb_binding_id b = rs_binding_id rs \<and>
        cb_capability_id b = st_capability_id stage \<and> cb_model_id b = rs_resolved_model_id rs \<and>
        cb_availability b = BindingEnabled))
     (in_stages p) (cp_resolved_stages cp)"
proof -
  obtain built where b: "build p reg c av k = Inr built"
    "cp_resolved_stages cp = bg_resolved_stages built"
    by (rule compile_cases [OF assms])
  show ?thesis
    unfolding b(2) using build_ok(5) [OF b(1)]
  proof (rule list_all2_mono)
    fix stage rs
    assume "stage_resolves c av k stage rs"
    then obtain r where r: "resolve c (stage_request k stage) av = Inr r"
      "rs = resolved_stage_of stage r" by (auto simp: stage_resolves_def)
    have "\<exists>b\<in>set (cs_bindings c). cb_binding_id b = ri_binding_id r \<and>
        cb_capability_id b = st_capability_id stage \<and> cb_model_id b = ri_resolved_model_id r \<and>
        cb_availability b = BindingEnabled"
      using resolve_ok [OF r(1)]
      by (auto simp: resolved_def stage_request_def binding_available_def split: if_splits)
    moreover have "ri_capability_id r = st_capability_id stage"
      using resolve_ok [OF r(1)] by (auto simp: resolved_def stage_request_def)
    moreover have "models_named c q = {ri_resolved_model_id r}" if "st_requested_model stage = Some q" for q
      using r(1) that
      by (auto simp: resolve_def stage_request_def resolved_def normalize_model_ok
          dest!: resolve_pinned_ok split: if_splits)
    moreover have "bt_get (cs_default_bindings c) (st_capability_id stage) = Some (ri_binding_id r)"
      if "st_requested_model stage = None" "k = None"
      using r(1) that
      by (auto simp: resolve_def stage_request_def resolved_def dest!: resolve_policy_ok split: if_splits)
    ultimately show "rs_stage_id rs = st_stage_id stage \<and> rs_capability_id rs = st_capability_id stage \<and>
       (\<forall>q. st_requested_model stage = Some q \<longrightarrow> models_named c q = {rs_resolved_model_id rs}) \<and>
       (st_requested_model stage = None \<longrightarrow> k = None \<longrightarrow>
          bt_get (cs_default_bindings c) (st_capability_id stage) = Some (rs_binding_id rs)) \<and>
       (\<exists>b\<in>set (cs_bindings c). cb_binding_id b = rs_binding_id rs \<and>
          cb_capability_id b = st_capability_id stage \<and> cb_model_id b = rs_resolved_model_id rs \<and>
          cb_availability b = BindingEnabled)"
      by (simp add: r(2) resolved_stage_of_def)
  qed
qed

subsection \<open>A compiled intent for the witnesses\<close>

definition compile_registry :: node_registry where
  "compile_registry = \<lparr>reg_definitions = [(''image.generate'',
     \<lparr>nd_node_type = ''image.generate'', nd_title = ''Image'', nd_category = ''c'', nd_provider = None,
      nd_capability = Some ''text_to_image'', nd_description = ''d'',
      nd_inputs = [\<lparr>pd_name = ''image'', pd_type = Image, pd_required = False, pd_cardinality = One\<rparr>],
      nd_outputs = [\<lparr>pd_name = ''image'', pd_type = Image, pd_required = True, pd_cardinality = One\<rparr>],
      nd_params_schema = \<lparr>sc_required = [], sc_properties = [], sc_allow_unknown = False\<rparr>,
      nd_estimated_cost = None\<rparr>)]\<rparr>"

definition empty_graph :: workflow_graph where
  "empty_graph = \<lparr>wg_schema_version = 1, wg_catalog_revision = None, wg_nodes = [], wg_edges = []\<rparr>"

definition sample_request :: resolve_request where
  "sample_request = \<lparr>rq_capability_id = ''text_to_image'', rq_requested_model = Some ''nano'',
     rq_connector_preference = None\<rparr>"

lemma sample_resolve_nano:
  "resolve sample_catalog sample_request [(''atlas'', True)] =
     Inr (resolved ''text_to_image'' (Some ''google/nano'') sample_binding)"
  by (simp add: sample_request_def sample_defs resolve_defs)

lemma sample_request_eq:
  "stage_request None (sample_stage i refs) = sample_request"
  by (simp add: stage_request_def sample_stage_def sample_request_def)

lemmas build_defs = finish_stage_def materialize_input_def
  merge_params_def insert_params_def missing_inputs_def require_param_def stage_node_def
  stage_implementation_def resolved_stage_of_def resolved_def catalog_capability_def
  catalog_binding_def node_type_of_capability_def definition_of_type_def registry_definition_def
  wire_input_def node_type_for_stage_def find_port_def

definition built_stage_node :: "nat \<Rightarrow> graph_node" where
  "built_stage_node n = \<lparr>gn_node_type = ''image.generate'', gn_title = ''Image'',
     gn_params = JObject [], gn_pos = (f32_mul (f32_of_nat n) COLUMN_WIDTH, Fin 0), gn_size = None,
     gn_semantics = Some \<lparr>ns_capability_id = ''text_to_image'', ns_mode = ''text_to_image'',
       ns_implementation = Pinned ''google/nano'' ''b1''\<rparr>\<rparr>"

definition built_edge :: graph_edge where
  "built_edge = sample_edge ''s1'' ''image'' ''s2'' ''image'' ''image''"

lemma sample_resolve_stage:
  "resolve_stage sample_catalog [(''atlas'', True)] None (sample_stage i refs) =
     Inr (resolved ''text_to_image'' (Some ''google/nano'') sample_binding)"
  by (simp add: resolve_stage_def sample_request_eq sample_resolve_nano)

definition sample_resolved :: "string \<Rightarrow> resolved_stage" where
  "sample_resolved i = resolved_stage_of (sample_stage i [])
     (resolved ''text_to_image'' (Some ''google/nano'') sample_binding)"

abbreviation (input) sample_state :: "(string \<times> graph_node) list \<Rightarrow> graph_edge list \<Rightarrow> resolved_stage list \<Rightarrow> build_state" where
  "sample_state nodes edges rs \<equiv>
     \<lparr>bs_nodes = nodes, bs_edges = edges, bs_resolved = rs, bs_diagnostics = [], bs_synthesized = []\<rparr>"

lemmas sample_stage_facts = sample_stage_def sample_defs compile_registry_def built_stage_node_def
  built_edge_def sample_edge_def sample_resolved_def Let_def build_defs

lemma sample_first_stage:
  "build_stage compile_registry sample_catalog [(''atlas'', True)] None stages
     (0, sample_stage ''s1'' []) (sample_state [] [] [])
   = Inr (sample_state [(''s1'', built_stage_node 0)] [] [sample_resolved ''s1''])"
  by (simp add: build_stage_def sample_resolve_stage, simp add: sample_stage_facts)

lemma sample_second_stage:
  "build_stage compile_registry sample_catalog [(''atlas'', True)] None (in_stages sample_linear)
     (1, sample_stage ''s2'' [\<lparr>sr_stage_id = ''s1'', sr_output = ''image''\<rparr>])
     (sample_state [(''s1'', built_stage_node 0)] [] [sample_resolved ''s1''])
   = Inr (sample_state [(''s1'', built_stage_node 0), (''s2'', built_stage_node 1)] [built_edge]
       [sample_resolved ''s1'', sample_resolved ''s2''])"
  by (simp add: build_stage_def sample_resolve_stage, simp add: sample_linear_def sample_stage_facts)

lemma sample_build_stages:
  "build_stages sample_linear compile_registry sample_catalog [(''atlas'', True)] None = Inr
     (sample_state [(''s1'', built_stage_node 0), (''s2'', built_stage_node 1)] [built_edge]
       [sample_resolved ''s1'', sample_resolved ''s2''])"
  using sample_first_stage [of "in_stages sample_linear"] sample_second_stage
  by (simp add: build_stages_def empty_build_def) (simp add: sample_linear_def)

definition placed_stage_node :: "rat \<Rightarrow> graph_node" where
  "placed_stage_node x = (built_stage_node 0)\<lparr>gn_pos := (Fin x, Fin 0)\<rparr>"

definition sample_target :: workflow_graph where
  "sample_target = \<lparr>wg_schema_version = 1, wg_catalog_revision = Some ''r1'',
     wg_nodes = [(''s1'', placed_stage_node 0), (''s2'', placed_stage_node 240)],
     wg_edges = [built_edge]\<rparr>"

lemma sample_assemble:
  "bg_target (assemble sample_linear sample_catalog
     (sample_state [(''s1'', built_stage_node 0), (''s2'', built_stage_node 1)] [built_edge] rs)) = sample_target"
  using grid_pos_exact [of 0] grid_pos_exact [of 1]
  by (simp add: assemble_def apply_layout_def sample_linear_def sample_stage_def layout_stage_def
      place_stage_def place_input_def Let_def sample_target_def placed_stage_node_def
      built_stage_node_def sample_catalog_def)

lemma sample_target_semantics:
  "validate_semantics compile_registry sample_catalog sample_target = Inr ()"
proof -
  have wf: "bt_wf (wg_nodes sample_target)" by (simp add: sample_target_def)
  have "acyclic {(''s1'', ''s2'')}"
    by (simp add: acyclic_insert) (simp add: acyclic_def)
  then have "graph_valid compile_registry sample_target"
    by (simp add: graph_valid_def sample_target_def node_valid_def placed_stage_node_def
        built_stage_node_def invalid_size_def compile_registry_def params_conform_def
        edge_well_typed_def edge_ports_def built_edge_def sample_edge_def find_port_def
        edge_type_ok_def is_reference_input_def edge_type_matches_def exclusive_targets_def
        edge_exclusive_def edge_rel_def)
  moreover have "\<forall>(i, n)\<in>set (wg_nodes sample_target).
      node_semantics_ok compile_registry sample_catalog sample_target i n"
    by (simp add: sample_target_def node_semantics_ok_def placed_stage_node_def built_stage_node_def
        compile_registry_def entry_consistent_def catalog_capability_def catalog_binding_def
        sample_defs params_conform_def)
  ultimately show ?thesis
    using validate_semantics_ok [OF wf] by (simp add: sample_target_def sample_catalog_def)
qed

lemma sample_compiled:
  obtains cp where
    "compile_for_connector sample_linear empty_graph compile_registry sample_catalog
       [(''atlas'', True)] None = Inr (Compiled cp)"
    "cp_target cp = sample_target" "cp_ops cp = diff empty_graph sample_target"
proof -
  let ?s = "sample_state [(''s1'', built_stage_node 0), (''s2'', built_stage_node 1)] [built_edge]
       [sample_resolved ''s1'', sample_resolved ''s2'']"
  have "build sample_linear compile_registry sample_catalog [(''atlas'', True)] None
      = Inr (assemble sample_linear sample_catalog ?s)"
    by (simp add: build_def sample_build_stages Let_def sample_assemble sample_target_semantics
        del: One_nat_def)
  moreover have "wg_catalog_revision sample_target = Some ''r1''" by (simp add: sample_target_def)
  ultimately show ?thesis
    using that by (simp add: compile_for_connector_def sample_linear_valid assemble_fields sample_assemble
        del: One_nat_def)
qed

lemma compiled_target_valid_witness:
  "validate_semantics compile_registry sample_catalog sample_target = Inr () \<and>
     ''s2'' \<in> dom (bt_get (wg_nodes sample_target))"
proof -
  obtain cp where cp: "compile_for_connector sample_linear empty_graph compile_registry sample_catalog
       [(''atlas'', True)] None = Inr (Compiled cp)" "cp_target cp = sample_target"
    by (rule sample_compiled)
  from compiled_target_valid [OF cp(1)] show ?thesis
    by (simp add: cp(2) sample_target_semantics sample_linear_def sample_stage_def)
qed

lemma compiled_stages_pinned_witness: "models_named sample_catalog ''nano'' = {''google/nano''}"
proof -
  obtain cp where cp: "compile_for_connector sample_linear empty_graph compile_registry sample_catalog
       [(''atlas'', True)] None = Inr (Compiled cp)"
    by (rule sample_compiled)
  from compiled_stages_pinned [OF cp] obtain m where "models_named sample_catalog ''nano'' = {m}"
    by (auto simp: sample_linear_def sample_stage_def list_all2_Cons1)
  moreover have "normalize_model sample_catalog ''nano'' = Inr ''google/nano''"
    by (simp add: sample_defs resolve_defs)
  ultimately show ?thesis by (simp add: normalize_model_ok)
qed

end
