(* ===== verification/Diff_Convergence.thy ===== *)
theory Diff_Convergence
  imports Proposal_Diff
begin

text \<open>
  Applying the difference: \<open>diff current target\<close>, run by \<open>apply_ops\<close> on the current graph,
  converges to the target when no kept node changes its type and no edge of the current graph is
  listed twice.  The last section shows what happens outside these conditions.
\<close>

section \<open>The converged graph\<close>

definition converge_params :: "json_map \<Rightarrow> json_map \<Rightarrow> json_map" where
  "converge_params target_params current_params =
     fold (\<lambda>(k, v) m. if bt_get current_params k \<noteq> Some v then bt_insert k v m else m)
       target_params current_params"

definition converge_node :: "graph_node \<Rightarrow> graph_node \<Rightarrow> graph_node" where
  "converge_node n existing = existing\<lparr>
     gn_params := (case (gn_params n, gn_params existing) of
        (JObject t, JObject c) \<Rightarrow> JObject (converge_params t c) | _ \<Rightarrow> gn_params existing),
     gn_pos := (if pos_eq (gn_pos existing) (gn_pos n) then gn_pos existing else gn_pos n),
     gn_semantics := gn_semantics n\<rparr>"

definition same_types :: "workflow_graph \<Rightarrow> workflow_graph \<Rightarrow> bool" where
  "same_types current target \<longleftrightarrow> (\<forall>i n e. bt_get (wg_nodes target) i = Some n \<longrightarrow>
     bt_get (wg_nodes current) i = Some e \<longrightarrow> gn_node_type e = gn_node_type n)"

definition params_distinct :: "graph_node \<Rightarrow> bool" where
  "params_distinct n \<longleftrightarrow> (\<forall>m. gn_params n = JObject m \<longrightarrow> distinct (map fst m))"

lemma converge_params_lookup:
  assumes "distinct (map fst t)"
  shows "bt_get (converge_params t c) k = (case bt_get t k of None \<Rightarrow> bt_get c k | Some v \<Rightarrow> Some v)"
proof -
  have "bt_get (fold (\<lambda>(k, v) m. if bt_get c k \<noteq> Some v then bt_insert k v m else m) t m) k =
      (case bt_get t k of None \<Rightarrow> bt_get m k | Some v \<Rightarrow> Some v)"
    if "\<forall>k\<in>fst ` set t. bt_get m k = bt_get c k" for m
    using that assms
  proof (induction t arbitrary: m)
    case (Cons kv t)
    obtain k' v where kv: "kv = (k', v)" by (cases kv)
    let ?m = "if bt_get c k' \<noteq> Some v then bt_insert k' v m else m"
    have "bt_get t k' = None"
      using Cons.prems(2) by (auto simp: kv map_of_eq_None_iff)
    moreover have "\<forall>k\<in>fst ` set t. bt_get ?m k = bt_get c k"
      using Cons.prems by (auto simp: kv)
    ultimately show ?case
      using Cons.IH [of ?m] Cons.prems by (auto simp: kv split: option.splits)
  qed simp
  then show ?thesis by (simp add: converge_params_def)
qed

section \<open>The four phases\<close>

lemma apply_remove_edges:
  assumes "distinct es" "set es \<subseteq> set (wg_edges g)"
  shows "apply_ops reg g (map RemoveEdge es) =
     Inr (g\<lparr>wg_edges := filter (\<lambda>e. e \<notin> set es) (wg_edges g)\<rparr>)"
  using assms
proof (induction es arbitrary: g)
  case (Cons e es)
  let ?g = "g\<lparr>wg_edges := filter (\<lambda>x. x \<noteq> e) (wg_edges g)\<rparr>"
  have "length (filter (\<lambda>x. x \<noteq> e) (wg_edges g)) \<noteq> length (wg_edges g)"
    using Cons.prems(2) length_filter_less [of e "wg_edges g" "\<lambda>x. x \<noteq> e"] by auto
  then have "apply_op_in_place reg (RemoveEdge e) g = Inr ?g" by (simp add: Let_def)
  moreover have "set es \<subseteq> set (wg_edges ?g)" using Cons.prems by auto
  moreover have "filter (\<lambda>x. x \<notin> set es) (filter (\<lambda>x. x \<noteq> e) (wg_edges g)) =
      filter (\<lambda>x. x \<notin> set (e # es)) (wg_edges g)"
    by (auto intro: filter_cong)
  ultimately show ?case using Cons.IH [of ?g] Cons.prems(1) by simp
qed simp

lemma filter_keys_not:
  "bt_remove i m = filter (\<lambda>p. fst p \<noteq> i) m"
  unfolding bt_remove_def by (rule filter_cong) auto

lemma apply_remove_nodes:
  assumes "distinct is" "set is \<subseteq> dom (bt_get (wg_nodes g))"
    and "\<forall>e\<in>set (wg_edges g). edge_source e \<notin> set is \<and> edge_target e \<notin> set is"
  shows "apply_ops reg g (map RemoveNode is) =
     Inr (g\<lparr>wg_nodes := filter (\<lambda>p. fst p \<notin> set is) (wg_nodes g)\<rparr>)"
  using assms
proof (induction "is" arbitrary: g)
  case (Cons i "is")
  let ?g = "g\<lparr>wg_nodes := bt_remove i (wg_nodes g)\<rparr>"
  have edges: "filter (\<lambda>e. edge_source e \<noteq> i \<and> edge_target e \<noteq> i) (wg_edges g) = wg_edges g"
    using Cons.prems(3) by (auto simp: filter_id_conv)
  have "bt_contains (wg_nodes g) i"
    using Cons.prems(2) by (auto simp: btree_simps)
  then have step: "apply_op_in_place reg (RemoveNode i) g = Inr ?g"
    by (simp add: edges)
  have "set is \<subseteq> dom (bt_get (wg_nodes ?g))"
    using Cons.prems(1,2) by auto
  moreover have "\<forall>e\<in>set (wg_edges ?g). edge_source e \<notin> set is \<and> edge_target e \<notin> set is"
    using Cons.prems(3) by simp
  moreover have "filter (\<lambda>p. fst p \<notin> set is) (bt_remove i (wg_nodes g)) =
      filter (\<lambda>p. fst p \<notin> set (i # is)) (wg_nodes g)"
    by (auto simp: filter_keys_not intro: filter_cong)
  ultimately show ?case
    using Cons.IH [of ?g] Cons.prems(1)
    by (simp only: list.map apply_ops_simps step res_bind_simps) simp
qed simp

lemma apply_add_edges:
  "apply_ops reg g (map AddEdge es) = Inr (g\<lparr>wg_edges := wg_edges g @ es\<rparr>)"
  by (induction es arbitrary: g) simp_all

text \<open>A kept node: its parameters, then its position, then its semantics.  Each run changes one node
  and nothing else.\<close>

definition one_node_set :: "workflow_graph \<Rightarrow> string \<Rightarrow> graph_node \<Rightarrow> workflow_graph \<Rightarrow> bool" where
  "one_node_set g i n g' \<longleftrightarrow>
     bt_get (wg_nodes g') = (bt_get (wg_nodes g))(i \<mapsto> n) \<and> wg_edges g' = wg_edges g \<and>
     wg_schema_version g' = wg_schema_version g \<and> wg_catalog_revision g' = wg_catalog_revision g"

lemma one_node_set_refl: "bt_get (wg_nodes g) i = Some n \<Longrightarrow> one_node_set g i n g"
  by (auto simp: one_node_set_def)

lemma one_node_set_trans:
  "one_node_set g i n g' \<Longrightarrow> one_node_set g' i n' g'' \<Longrightarrow> one_node_set g i n' g''"
  by (auto simp: one_node_set_def)

lemma one_node_set_get: "one_node_set g i n g' \<Longrightarrow> bt_get (wg_nodes g') i = Some n"
  by (simp add: one_node_set_def)

lemma one_node_set_modify:
  "bt_get (wg_nodes g) i = Some n \<Longrightarrow>
     one_node_set g i (f n) (g\<lparr>wg_nodes := bt_modify i f (wg_nodes g)\<rparr>)"
  by (simp add: one_node_set_def map_of_bt_modify)

definition set_param_op :: "string \<Rightarrow> json_map \<Rightarrow> string \<times> json \<Rightarrow> proposal_op option" where
  "set_param_op i c = (\<lambda>(k, v). if bt_get c k \<noteq> Some v then Some (SetParam i k (bt_get c k) v) else None)"

lemma map_filter_Cons:
  "List.map_filter f (x # xs) =
     (case f x of None \<Rightarrow> List.map_filter f xs | Some y \<Rightarrow> y # List.map_filter f xs)"
  by (simp add: List.map_filter_def split: option.split)

lemma apply_set_params:
  assumes "bt_get (wg_nodes g) i = Some n" "gn_params n = JObject m"
    and "\<forall>k\<in>fst ` set t. bt_get m k = bt_get c k" "distinct (map fst t)"
  shows "\<exists>g'. apply_ops reg g (List.map_filter (set_param_op i c) t) = Inr g' \<and>
     one_node_set g i (n\<lparr>gn_params := JObject
       (fold (\<lambda>(k, v) m. if bt_get c k \<noteq> Some v then bt_insert k v m else m) t m)\<rparr>) g'"
  using assms
proof (induction t arbitrary: g n m)
  case Nil
  then have "n\<lparr>gn_params := JObject m\<rparr> = n" by simp
  then show ?case using Nil by (simp add: List.map_filter_def one_node_set_refl)
next
  case (Cons kv t)
  obtain k v where kv: "kv = (k, v)" by (cases kv)
  show ?case
  proof (cases "bt_get c k = Some v")
    case True
    then show ?thesis
      using Cons.IH [OF Cons.prems(1,2)] Cons.prems(3,4)
      by (simp add: kv map_filter_Cons set_param_op_def)
  next
    case False
    let ?n = "n\<lparr>gn_params := JObject (bt_insert k v m)\<rparr>"
    let ?g = "g\<lparr>wg_nodes := bt_modify i (\<lambda>n. n\<lparr>gn_params := JObject (bt_insert k v m)\<rparr>) (wg_nodes g)\<rparr>"
    have step: "apply_op_in_place reg (SetParam i k (bt_get c k) v) g = Inr ?g"
      using Cons.prems by (simp add: kv set_param_def)
    have set1: "one_node_set g i ?n ?g"
      using one_node_set_modify [OF Cons.prems(1)] .
    have "\<forall>k'\<in>fst ` set t. bt_get (bt_insert k v m) k' = bt_get c k'"
      using Cons.prems(3,4) by (auto simp: kv)
    from Cons.IH [OF one_node_set_get [OF set1] _ this] Cons.prems(4)
    obtain g' where g': "apply_ops reg ?g (List.map_filter (set_param_op i c) t) = Inr g'"
      "one_node_set ?g i (?n\<lparr>gn_params := JObject
         (fold (\<lambda>(k, v) m. if bt_get c k \<noteq> Some v then bt_insert k v m else m) t (bt_insert k v m))\<rparr>) g'"
      by (auto simp: kv)
    have "apply_ops reg g (List.map_filter (set_param_op i c) (kv # t)) = Inr g'"
      using False step g'(1) by (simp add: kv map_filter_Cons set_param_op_def)
    moreover have "one_node_set g i (n\<lparr>gn_params := JObject
       (fold (\<lambda>(k, v) m. if bt_get c k \<noteq> Some v then bt_insert k v m else m) (kv # t) m)\<rparr>) g'"
      using one_node_set_trans [OF set1 g'(2)] False by (simp add: kv)
    ultimately show ?thesis by blast
  qed
qed

lemma apply_diff_params:
  assumes "bt_get (wg_nodes g) i = Some e" "params_distinct n"
  shows "\<exists>g'. apply_ops reg g (diff_params i (gn_params n) (gn_params e)) = Inr g' \<and>
     one_node_set g i (e\<lparr>gn_params := (case (gn_params n, gn_params e) of
        (JObject t, JObject c) \<Rightarrow> JObject (converge_params t c) | _ \<Rightarrow> gn_params e)\<rparr>) g'"
proof (cases "(\<exists>t. gn_params n = JObject t) \<and> (\<exists>c. gn_params e = JObject c)")
  case True
  then obtain t c where tc: "gn_params n = JObject t" "gn_params e = JObject c" by blast
  have "distinct (map fst t)" using assms(2) tc(1) by (simp add: params_distinct_def)
  from apply_set_params [OF assms(1) tc(2), of t c reg, OF _ this] show ?thesis
    by (simp add: tc diff_params_def converge_params_def set_param_op_def)
next
  case False
  then have "diff_params i (gn_params n) (gn_params e) = []"
    by (cases "gn_params n"; cases "gn_params e") (simp_all add: diff_params_def)
  moreover have "(case (gn_params n, gn_params e) of
      (JObject t, JObject c) \<Rightarrow> JObject (converge_params t c) | _ \<Rightarrow> gn_params e) = gn_params e"
    using False by (cases "gn_params n"; cases "gn_params e") simp_all
  ultimately show ?thesis
    using one_node_set_refl [OF assms(1)] by simp
qed

lemma apply_node_ops:
  assumes "bt_get (wg_nodes g) i = Some e"
  shows "\<exists>g'. apply_ops reg g (if b then [] else [MoveNode i p]) = Inr g' \<and>
       one_node_set g i (e\<lparr>gn_pos := if b then gn_pos e else p\<rparr>) g'"
    and "\<exists>g'. apply_ops reg g (if gn_semantics e = s then [] else [SetSemantics i s]) = Inr g' \<and>
       one_node_set g i (e\<lparr>gn_semantics := s\<rparr>) g'"
proof -
  have c: "bt_contains (wg_nodes g) i" using assms by (auto simp: btree_simps)
  show "\<exists>g'. apply_ops reg g (if b then [] else [MoveNode i p]) = Inr g' \<and>
       one_node_set g i (e\<lparr>gn_pos := if b then gn_pos e else p\<rparr>) g'"
    using c one_node_set_refl [OF assms] one_node_set_modify [OF assms, of "\<lambda>n. n\<lparr>gn_pos := p\<rparr>"]
    by (simp add: update_node_def)
  show "\<exists>g'. apply_ops reg g (if gn_semantics e = s then [] else [SetSemantics i s]) = Inr g' \<and>
       one_node_set g i (e\<lparr>gn_semantics := s\<rparr>) g'"
  proof (cases "gn_semantics e = s")
    case True
    then show ?thesis using one_node_set_refl [OF assms] by (cases e) auto
  next
    case False
    then show ?thesis
      using c one_node_set_modify [OF assms, of "\<lambda>n. n\<lparr>gn_semantics := s\<rparr>"]
      by (simp add: update_node_def)
  qed
qed

lemma apply_diff_kept:
  assumes "bt_get (wg_nodes g) i = Some e" "bt_get (wg_nodes current) i = Some e"
    and "gn_node_type e = gn_node_type n" "params_distinct n"
  shows "\<exists>g'. apply_ops reg g (diff_node current (i, n)) = Inr g' \<and>
     one_node_set g i (converge_node n e) g'"
proof -
  define e1 where "e1 = e\<lparr>gn_params := (case (gn_params n, gn_params e) of
        (JObject t, JObject c) \<Rightarrow> JObject (converge_params t c) | _ \<Rightarrow> gn_params e)\<rparr>"
  define b where "b = pos_eq (gn_pos e) (gn_pos n)"
  define e2 where "e2 = e1\<lparr>gn_pos := if b then gn_pos e1 else gn_pos n\<rparr>"
  have same: "gn_pos e1 = gn_pos e" "gn_semantics e2 = gn_semantics e" "gn_params e2 = gn_params e1"
    by (simp_all add: e1_def e2_def)
  have final: "e2\<lparr>gn_semantics := gn_semantics n\<rparr> = converge_node n e"
    by (simp add: e2_def e1_def b_def converge_node_def)
  obtain g1 where g1: "apply_ops reg g (diff_params i (gn_params n) (gn_params e)) = Inr g1"
    "one_node_set g i e1 g1"
    using apply_diff_params [OF assms(1,4)] unfolding e1_def by blast
  obtain g2 where g2: "apply_ops reg g1 (if b then [] else [MoveNode i (gn_pos n)]) = Inr g2"
    "one_node_set g1 i e2 g2"
    using apply_node_ops(1) [OF one_node_set_get [OF g1(2)]] unfolding e2_def by blast
  obtain g3 where g3: "apply_ops reg g2 (if gn_semantics e2 = gn_semantics n then []
      else [SetSemantics i (gn_semantics n)]) = Inr g3"
    "one_node_set g2 i (converge_node n e) g3"
    using apply_node_ops(2) [OF one_node_set_get [OF g2(2)]] unfolding final [symmetric] by blast
  have "apply_ops reg g (diff_node current (i, n)) = Inr g3"
    using assms(2,3) g1(1) g2(1) g3(1)
    by (simp add: diff_node_def apply_ops_append same flip: b_def del: apply_ops_simps)
  moreover have "one_node_set g i (converge_node n e) g3"
    by (rule one_node_set_trans [OF one_node_set_trans [OF g1(2) g2(2)] g3(2)])
  ultimately show ?thesis by blast
qed

text \<open>All nodes of the target, one after the other.\<close>

lemma apply_diff_nodes:
  assumes "distinct (map fst ps)" "\<forall>(i, n)\<in>set ps. params_distinct n"
    and "\<forall>(i, n)\<in>set ps. bt_get (wg_nodes g) i = bt_get (wg_nodes current) i"
    and "\<forall>(i, n)\<in>set ps. \<forall>e. bt_get (wg_nodes current) i = Some e \<longrightarrow> gn_node_type e = gn_node_type n"
  shows "\<exists>g'. apply_ops reg g (concat (map (diff_node current) ps)) = Inr g' \<and>
     wg_edges g' = wg_edges g \<and>
     (\<forall>i. bt_get (wg_nodes g') i = (case bt_get ps i of
        None \<Rightarrow> bt_get (wg_nodes g) i
      | Some n \<Rightarrow> Some (case bt_get (wg_nodes current) i of None \<Rightarrow> n | Some e \<Rightarrow> converge_node n e)))"
  using assms
proof (induction ps arbitrary: g)
  case (Cons p ps)
  obtain i n where p: "p = (i, n)" by (cases p)
  let ?n = "case bt_get (wg_nodes current) i of None \<Rightarrow> n | Some e \<Rightarrow> converge_node n e"
  have "\<exists>g1. apply_ops reg g (diff_node current (i, n)) = Inr g1 \<and> one_node_set g i ?n g1"
  proof (cases "bt_get (wg_nodes current) i")
    case None
    then have "\<not> bt_contains (wg_nodes g) i" using Cons.prems(3) by (auto simp: p btree_simps)
    then show ?thesis using None by (simp add: diff_node_def one_node_set_def)
  next
    case (Some e)
    then show ?thesis
      using apply_diff_kept [of g i e current n reg] Cons.prems(2-4) by (simp add: p)
  qed
  then obtain g1 where g1: "apply_ops reg g (diff_node current (i, n)) = Inr g1" "one_node_set g i ?n g1"
    by blast
  have i: "i \<notin> fst ` set ps" using Cons.prems(1) by (simp add: p)
  have "\<forall>(j, m)\<in>set ps. bt_get (wg_nodes g1) j = bt_get (wg_nodes current) j"
  proof (intro ballI, clarify)
    fix j m
    assume j: "(j, m) \<in> set ps"
    then have "j \<noteq> i" using i by force
    then show "bt_get (wg_nodes g1) j = bt_get (wg_nodes current) j"
      using Cons.prems(3) g1(2) j by (auto simp: one_node_set_def)
  qed
  from Cons.IH [OF _ _ this] Cons.prems(1,2,4)
  obtain g' where g': "apply_ops reg g1 (concat (map (diff_node current) ps)) = Inr g'"
    "wg_edges g' = wg_edges g1"
    "\<And>j. bt_get (wg_nodes g') j = (case bt_get ps j of
        None \<Rightarrow> bt_get (wg_nodes g1) j
      | Some n \<Rightarrow> Some (case bt_get (wg_nodes current) j of None \<Rightarrow> n | Some e \<Rightarrow> converge_node n e))"
    by auto
  have "apply_ops reg g (concat (map (diff_node current) (p # ps))) = Inr g'"
    using g1(1) g'(1) by (simp add: p apply_ops_append del: apply_ops_simps)
  moreover have "wg_edges g' = wg_edges g"
    using g'(2) g1(2) by (simp add: one_node_set_def)
  moreover have "bt_get ps i = None" using i by (simp add: map_of_eq_None_iff)
  then have "\<forall>j. bt_get (wg_nodes g') j = (case bt_get (p # ps) j of
        None \<Rightarrow> bt_get (wg_nodes g) j
      | Some n \<Rightarrow> Some (case bt_get (wg_nodes current) j of None \<Rightarrow> n | Some e \<Rightarrow> converge_node n e))"
    using g'(3) g1(2) by (auto simp: p one_node_set_def split: option.splits)
  ultimately show ?case by blast
qed simp

lemma set_edges_missing: "set (edges_missing_in a b) = set (wg_edges a) - set (wg_edges b)"
  by (auto simp: edges_missing_in_def)

lemma diff_converges_aux:
  assumes wf: "bt_wf (wg_nodes current)" "bt_wf (wg_nodes target)"
    and ends: "endpoints_ok target" and dup: "distinct (wg_edges current)"
    and params: "\<forall>(i, n)\<in>set (wg_nodes target). params_distinct n"
    and types: "same_types current target"
  shows "\<exists>g. apply_ops reg current (diff current target) = Inr g \<and>
     (\<forall>i. bt_get (wg_nodes g) i = map_option (\<lambda>n.
        case bt_get (wg_nodes current) i of None \<Rightarrow> n | Some e \<Rightarrow> converge_node n e)
        (bt_get (wg_nodes target) i)) \<and>
     wg_edges g = filter (\<lambda>e. e \<in> set (wg_edges target)) (wg_edges current) @ edges_missing_in target current"
proof -
  let ?gone = "filter (\<lambda>i. \<not> bt_contains (wg_nodes target) i) (bt_keys (wg_nodes current))"
  define g1 where "g1 = current\<lparr>wg_edges := filter (\<lambda>e. e \<in> set (wg_edges target)) (wg_edges current)\<rparr>"
  define g2 where "g2 = g1\<lparr>wg_nodes := filter (\<lambda>p. fst p \<notin> set ?gone) (wg_nodes g1)\<rparr>"
  have "distinct (edges_missing_in current target)" using dup by (simp add: edges_missing_in_def)
  moreover have "filter (\<lambda>e. e \<notin> set (edges_missing_in current target)) (wg_edges current) =
      filter (\<lambda>e. e \<in> set (wg_edges target)) (wg_edges current)"
    by (auto simp: set_edges_missing intro: filter_cong)
  ultimately have s1: "apply_ops reg current (map RemoveEdge (edges_missing_in current target)) = Inr g1"
    by (subst apply_remove_edges) (auto simp: set_edges_missing g1_def)
  have gone: "set ?gone = dom (bt_get (wg_nodes current)) - dom (bt_get (wg_nodes target))"
    using bt_keys_set [of "wg_nodes current"] by (auto simp: btree_simps)
  have "apply_ops reg g1 (map RemoveNode ?gone) = Inr g2"
    unfolding g2_def
  proof (rule apply_remove_nodes)
    show "distinct ?gone" using btm.distinct_keys [OF wf(1)] by simp
    show "set ?gone \<subseteq> dom (bt_get (wg_nodes g1))" unfolding gone by (simp add: g1_def)
    show "\<forall>e\<in>set (wg_edges g1). edge_source e \<notin> set ?gone \<and> edge_target e \<notin> set ?gone"
      using ends unfolding gone endpoints_ok_def g1_def by auto
  qed
  note s2 = this
  have get2: "bt_get (wg_nodes g2) i =
      (if i \<in> dom (bt_get (wg_nodes target)) then bt_get (wg_nodes current) i else None)" for i
  proof -
    have out: "bt_get (filter (\<lambda>p. fst p \<notin> A) m) i = (if i \<in> A then None else bt_get m i)"
      for A and m :: "(string, graph_node) btree_map"
      by (induction m) auto
    have "wg_nodes g2 = filter (\<lambda>p. fst p \<notin> dom (bt_get (wg_nodes current)) - dom (bt_get (wg_nodes target)))
        (wg_nodes current)"
      unfolding g2_def gone by (simp add: g1_def)
    then show ?thesis by (simp only: out) auto
  qed
  have "\<forall>(i, n)\<in>set (wg_nodes target). bt_get (wg_nodes g2) i = bt_get (wg_nodes current) i"
    unfolding get2 by (auto simp: bt_wf_map_of [OF wf(2)])
  moreover have "\<forall>(i, n)\<in>set (wg_nodes target). \<forall>e. bt_get (wg_nodes current) i = Some e \<longrightarrow>
      gn_node_type e = gn_node_type n"
    using types bt_wf_map_of [OF wf(2)] unfolding same_types_def by blast
  ultimately have "\<exists>g3. apply_ops reg g2 (concat (map (diff_node current) (wg_nodes target))) = Inr g3 \<and>
     wg_edges g3 = wg_edges g2 \<and>
     (\<forall>i. bt_get (wg_nodes g3) i = (case bt_get (wg_nodes target) i of
        None \<Rightarrow> bt_get (wg_nodes g2) i
      | Some n \<Rightarrow> Some (case bt_get (wg_nodes current) i of None \<Rightarrow> n | Some e \<Rightarrow> converge_node n e)))"
    by (rule apply_diff_nodes [OF bt_wf_distinct [OF wf(2)] params])
  then obtain g3 where s3: "apply_ops reg g2 (concat (map (diff_node current) (wg_nodes target))) = Inr g3"
    "wg_edges g3 = wg_edges g2"
    "\<And>i. bt_get (wg_nodes g3) i = (case bt_get (wg_nodes target) i of
        None \<Rightarrow> bt_get (wg_nodes g2) i
      | Some n \<Rightarrow> Some (case bt_get (wg_nodes current) i of None \<Rightarrow> n | Some e \<Rightarrow> converge_node n e))"
    by blast
  let ?g = "g3\<lparr>wg_edges := wg_edges g3 @ edges_missing_in target current\<rparr>"
  have "apply_ops reg current (diff current target) = Inr ?g"
    by (simp add: diff_def apply_ops_append s1 s2 s3(1) apply_add_edges del: apply_ops_simps)
  moreover have "bt_get (wg_nodes ?g) i = map_option (\<lambda>n.
        case bt_get (wg_nodes current) i of None \<Rightarrow> n | Some e \<Rightarrow> converge_node n e)
        (bt_get (wg_nodes target) i)" for i
    by (cases "bt_get (wg_nodes target) i") (auto simp: s3(3) get2)
  moreover have "wg_edges g2 = filter (\<lambda>e. e \<in> set (wg_edges target)) (wg_edges current)"
    by (simp add: g2_def g1_def)
  ultimately show ?thesis using s3(2) by auto
qed

section \<open>Properties\<close>

text \<open>A kept node \<open>e\<close> converged to the compiled node \<open>n\<close>: its parameters are overridden by the compiled
  ones, title and size stay.\<close>

definition kept_converged :: "graph_node \<Rightarrow> graph_node \<Rightarrow> graph_node \<Rightarrow> bool" where
  "kept_converged n e n' \<longleftrightarrow>
     gn_node_type n' = gn_node_type n \<and> gn_semantics n' = gn_semantics n \<and>
     gn_title n' = gn_title e \<and> gn_size n' = gn_size e \<and>
     (gn_pos n' = gn_pos n \<or> pos_eq (gn_pos n') (gn_pos n)) \<and>
     (\<forall>t c. gn_params n = JObject t \<and> gn_params e = JObject c \<longrightarrow>
        (\<exists>m. gn_params n' = JObject m \<and> bt_get m = bt_get c ++ bt_get t))"

lemma converge_node_kept:
  assumes "params_distinct n" "gn_node_type e = gn_node_type n"
  shows "kept_converged n e (converge_node n e)"
proof -
  have "bt_get (converge_params t c) = bt_get c ++ bt_get t" if "gn_params n = JObject t" for t c
    using assms(1) that
    by (auto simp: params_distinct_def converge_params_lookup map_add_def fun_eq_iff)
  then show ?thesis
    using assms(2) by (auto simp: kept_converged_def converge_node_def)
qed

text \<open>C6: applying the difference to the current graph succeeds and converges to the target: the
  nodes are exactly the target's, new ones as compiled, kept ones with every compiled parameter,
  the compiled position and the compiled semantics (a parameter the target does not mention keeps
  its value), and the edges are exactly the target's.  Asked: no kept node changes its type, no
  edge of the current graph is listed twice, and the target is well formed.\<close>

theorem diff_converges:
  assumes "bt_wf (wg_nodes current)" "bt_wf (wg_nodes target)"
    and "endpoints_ok target" "distinct (wg_edges current)"
    and "\<forall>(i, n)\<in>set (wg_nodes target). params_distinct n"
    and "same_types current target"
  shows "\<exists>g. apply_ops reg current (diff current target) = Inr g \<and>
     dom (bt_get (wg_nodes g)) = dom (bt_get (wg_nodes target)) \<and>
     set (wg_edges g) = set (wg_edges target) \<and>
     (\<forall>i n. bt_get (wg_nodes target) i = Some n \<longrightarrow>
        (case bt_get (wg_nodes current) i of
           None \<Rightarrow> bt_get (wg_nodes g) i = Some n
         | Some e \<Rightarrow> \<exists>n'. bt_get (wg_nodes g) i = Some n' \<and> kept_converged n e n'))"
proof -
  obtain g where g: "apply_ops reg current (diff current target) = Inr g"
    "\<And>i. bt_get (wg_nodes g) i = map_option (\<lambda>n.
        case bt_get (wg_nodes current) i of None \<Rightarrow> n | Some e \<Rightarrow> converge_node n e)
        (bt_get (wg_nodes target) i)"
    "wg_edges g = filter (\<lambda>e. e \<in> set (wg_edges target)) (wg_edges current) @ edges_missing_in target current"
    using diff_converges_aux [OF assms] by blast
  have doms: "dom (bt_get (wg_nodes g)) = dom (bt_get (wg_nodes target))"
    by (auto simp: dom_def g(2))
  have edges: "set (wg_edges g) = set (wg_edges target)"
    by (auto simp: g(3) set_edges_missing)
  have nodes: "case bt_get (wg_nodes current) i of
           None \<Rightarrow> bt_get (wg_nodes g) i = Some n
         | Some e \<Rightarrow> \<exists>n'. bt_get (wg_nodes g) i = Some n' \<and> kept_converged n e n'"
    if n: "bt_get (wg_nodes target) i = Some n" for i n
  proof (cases "bt_get (wg_nodes current) i")
    case None
    then show ?thesis by (simp add: g(2) n)
  next
    case (Some e)
    have "params_distinct n" using assms(5) map_of_SomeD [OF n] by auto
    moreover have "gn_node_type e = gn_node_type n"
      using assms(6) n Some unfolding same_types_def by blast
    ultimately show ?thesis
      using Some converge_node_kept by (simp add: g(2) n)
  qed
  show ?thesis
    by (intro exI [of _ g] conjI allI impI g(1) doms edges nodes)
qed

lemma diff_converges_witness:
  "\<exists>g. apply_ops compile_registry empty_graph (diff empty_graph sample_target) = Inr g \<and>
     dom (bt_get (wg_nodes g)) = {''s1'', ''s2''} \<and> wg_edges sample_target = [built_edge]"
proof -
  have ends: "endpoints_ok sample_target"
    by (simp add: endpoints_ok_def sample_target_def built_edge_def sample_edge_def)
  have params: "\<forall>(i, n)\<in>set (wg_nodes sample_target). params_distinct n"
    by (simp add: sample_target_def params_distinct_def placed_stage_node_def built_stage_node_def)
  have wf: "bt_wf (wg_nodes sample_target)" by (simp add: sample_target_def)
  have "same_types empty_graph sample_target" by (simp add: same_types_def empty_graph_def)
  from diff_converges [OF _ wf ends _ params this, of compile_registry]
  obtain g where "apply_ops compile_registry empty_graph (diff empty_graph sample_target) = Inr g"
    "dom (bt_get (wg_nodes g)) = dom (bt_get (wg_nodes sample_target))"
    by (auto simp: empty_graph_def)
  then show ?thesis by (auto simp: sample_target_def)
qed

section \<open>Outside the conditions\<close>


definition doubled_graph :: workflow_graph where
  "doubled_graph = sample_graph\<lparr>wg_edges :=
     [sample_edge ''b'' ''out'' ''a'' ''in'' ''image'', sample_edge ''b'' ''out'' ''a'' ''in'' ''image'']\<rparr>"


text \<open>An edge listed twice in the current graph (validation allows it on a fan-in input) and
  absent from the target yields two removals; the first takes both copies, the second fails.\<close>

lemma diff_fails_on_doubled_edge:
  "apply_ops reg doubled_graph (diff doubled_graph (doubled_graph\<lparr>wg_edges := []\<rparr>)) =
     Inl (GE_MissingEdge (sample_edge ''b'' ''out'' ''a'' ''in'' ''image''))"
  by (simp add: diff_def edges_missing_in_def doubled_graph_def sample_service_defs bt_keys_def
      bt_contains_def diff_node_def diff_params_def List.map_filter_def pos_eq_def)

end
