(* ===== verification/Transition.thy ===== *)
theory Transition
  imports Prelude
begin

text \<open>
  The two contracts the stateful components share, as locales.  \<open>invariant_system\<close>: a step
  relation keeps an invariant, so every reachable state has it.  \<open>ranked_system\<close>: every step of
  a state with the invariant lowers a rank, so runs are bounded and end.  Both are interpreted on
  the step relations of the run store, of the provider tasks and of the executor.
\<close>

section \<open>Invariants of reachable states\<close>

locale invariant_system =
  fixes step :: "'s \<Rightarrow> 's \<Rightarrow> bool" and inv :: "'s \<Rightarrow> bool"
  assumes step_inv: "inv s \<Longrightarrow> step s t \<Longrightarrow> inv t"
begin

lemma steps_inv: "step\<^sup>*\<^sup>* s t \<Longrightarrow> inv s \<Longrightarrow> inv t"
  by (induction rule: rtranclp_induct) (auto intro: step_inv)

lemma power_inv: "(step ^^ n) s t \<Longrightarrow> inv s \<Longrightarrow> inv t"
  using steps_inv by (metis rtranclp_power)

end

section \<open>Runs that end\<close>

locale ranked_system = invariant_system +
  fixes rank :: "'s \<Rightarrow> nat"
  assumes step_rank: "inv s \<Longrightarrow> step s t \<Longrightarrow> rank t < rank s"
begin

lemma run_bounded: "(step ^^ n) s t \<Longrightarrow> inv s \<Longrightarrow> n + rank t \<le> rank s"
proof (induction n arbitrary: t)
  case 0
  then show ?case by simp
next
  case (Suc n)
  then obtain u where u: "(step ^^ n) s u" "step u t" by auto
  from step_rank [OF power_inv [OF u(1) Suc.prems(2)] u(2)] Suc.IH [OF u(1) Suc.prems(2)]
  show ?case by simp
qed

text \<open>Every run can be continued to a state in which no step is possible.\<close>

lemma run_ends: "inv s \<Longrightarrow> \<exists>t. step\<^sup>*\<^sup>* s t \<and> (\<forall>u. \<not> step t u)"
proof (induction "rank s" arbitrary: s rule: less_induct)
  case less
  show ?case
  proof (cases "\<exists>u. step s u")
    case True
    then obtain u where u: "step s u" by blast
    from less.hyps [OF step_rank [OF less.prems u] step_inv [OF less.prems u]] u show ?thesis
      by (meson converse_rtranclp_into_rtranclp)
  next
    case False
    then show ?thesis by blast
  qed
qed

lemma no_infinite_run:
  assumes "inv (f 0)" "\<And>i. step (f i) (f (Suc i))"
  shows False
proof -
  have "inv (f i) \<and> rank (f i) + i \<le> rank (f 0)" for i
    using assms step_inv step_rank by (induction i) (auto, fastforce)
  from this [of "Suc (rank (f 0))"] show False by simp
qed

end

end
