(* ===== verification/Run_Types.thy ===== *)
theory Run_Types
  imports Json Strings
begin

text \<open>
  Types the run store and the run engine share: the status enumerations of crates/run/src/lib.rs
  with the text they are stored as, the rows of the tables crates/store reads and writes, and
  \<open>StoreError\<close>.  A row is the record of the same name in the code plus, where the struct leaves
  columns out, the remaining columns of its table (crates/store/migrations).

  Time: \<open>current_timestamp\<close> and \<open>datetime('now', '+n seconds')\<close> are texts of fixed width
  with a resolution of one second, so the order SQLite compares is the order of the seconds; a
  timestamp is that number.
\<close>

section \<open>Statuses\<close>

datatype run_status = Queued | Estimating | WaitingConfirmation | Running | Succeeded | Failed | Interrupted

fun run_status_as_str :: "run_status \<Rightarrow> string" where
  "run_status_as_str Queued = ''queued''"
| "run_status_as_str Estimating = ''estimating''"
| "run_status_as_str WaitingConfirmation = ''waiting_confirmation''"
| "run_status_as_str Running = ''running''"
| "run_status_as_str Succeeded = ''succeeded''"
| "run_status_as_str Failed = ''failed''"
| "run_status_as_str Interrupted = ''interrupted''"

datatype run_step_state = StepQueued | StepRunning | StepSucceeded | StepFailed | StepSkipped

fun run_step_state_as_str :: "run_step_state \<Rightarrow> string" where
  "run_step_state_as_str StepQueued = ''queued''"
| "run_step_state_as_str StepRunning = ''running''"
| "run_step_state_as_str StepSucceeded = ''succeeded''"
| "run_step_state_as_str StepFailed = ''failed''"
| "run_step_state_as_str StepSkipped = ''skipped''"

text \<open>The CHECK constraints of the status columns, and the status lists of the WHERE clauses.\<close>

abbreviation run_status_check :: "string \<Rightarrow> bool" where
  "run_status_check s \<equiv> s \<in> {''queued'', ''estimating'', ''waiting_confirmation'', ''running'',
     ''succeeded'', ''failed'', ''interrupted''}"

abbreviation step_state_check :: "string \<Rightarrow> bool" where
  "step_state_check s \<equiv> s \<in> {''queued'', ''running'', ''succeeded'', ''failed'', ''skipped''}"

abbreviation trigger_check :: "string \<Rightarrow> bool" where
  "trigger_check s \<equiv> s \<in> {''manual'', ''agent'', ''sweep''}"

definition active_status :: "string \<Rightarrow> bool" where
  "active_status s \<longleftrightarrow> s = ''queued'' \<or> s = ''estimating'' \<or> s = ''running''"

definition terminal_status :: "string \<Rightarrow> bool" where
  "terminal_status s \<longleftrightarrow> s = ''succeeded'' \<or> s = ''failed'' \<or> s = ''interrupted''"

definition terminal_step_state :: "string \<Rightarrow> bool" where
  "terminal_step_state s \<longleftrightarrow> s = ''succeeded'' \<or> s = ''failed'' \<or> s = ''skipped''"

lemma active_not_terminal: "active_status s \<Longrightarrow> \<not> terminal_status s"
  by (auto simp: active_status_def terminal_status_def)

lemma run_status_stored: "run_status_check (run_status_as_str s)"
  by (cases s) simp_all

lemma run_status_as_str_inj: "run_status_as_str s = run_status_as_str t \<longleftrightarrow> s = t"
  by (cases s; cases t) simp_all

lemma run_step_state_stored: "step_state_check (run_step_state_as_str s)"
  by (cases s) simp_all

section \<open>Rows\<close>

type_synonym timestamp = int

record run_record =
  rr_id :: string
  rr_workspace_id :: string
  rr_version_id :: string
  rr_group_id :: "string option"
  rr_label :: string
  rr_trigger :: string
  rr_plan_json :: "string option"
  rr_estimate_json :: "string option"
  rr_status :: string
  rr_error_json :: "string option"
  rr_started_at :: "timestamp option"
  rr_ended_at :: "timestamp option"
  rr_created_at :: timestamp
  rr_parent_run_id :: "string option"
  rr_attempt :: i64
  rr_force_rerun :: bool

record new_run =
  nr_workspace_id :: string
  nr_version_id :: string
  nr_group_id :: "string option"
  nr_label :: string
  nr_trigger :: string
  nr_plan_json :: "string option"
  nr_estimate_json :: "string option"
  nr_status :: string

record run_step_record =
  rs_id :: string
  rs_run_id :: string
  rs_node_id :: string
  rs_node_type :: string
  rs_provider :: "string option"
  rs_state :: string
  rs_progress :: "f64 option"
  rs_cost_estimate_json :: "string option"
  rs_cost_actual_json :: "string option"
  rs_error_json :: "string option"
  rs_metadata_json :: "string option"
  rs_started_at :: "timestamp option"
  rs_ended_at :: "timestamp option"

record new_run_step =
  ns_run_id :: string
  ns_node_id :: string
  ns_node_type :: string
  ns_provider :: "string option"
  ns_state :: string

record run_event_record =
  re_id :: string
  re_run_id :: string
  re_seq :: int
  re_ev :: string
  re_data_json :: string
  re_created_at :: timestamp

record artifact_record =
  ar_id :: string
  ar_workspace_id :: string
  ar_run_id :: "string option"
  ar_run_step_id :: "string option"
  ar_node_id :: "string option"
  ar_kind :: string
  ar_storage_uri :: string
  ar_sha256 :: "string option"
  ar_mime :: "string option"
  ar_width :: "i64 option"
  ar_height :: "i64 option"
  ar_duration_ms :: "i64 option"
  ar_selected :: bool
  ar_meta_json :: "string option"
  ar_created_at :: timestamp
  ar_review_state :: string

record new_artifact =
  na_workspace_id :: string
  na_run_id :: "string option"
  na_run_step_id :: "string option"
  na_node_id :: "string option"
  na_kind :: string
  na_storage_uri :: string
  na_sha256 :: "string option"
  na_mime :: "string option"
  na_width :: "i64 option"
  na_height :: "i64 option"
  na_duration_ms :: "i64 option"
  na_selected :: bool
  na_meta_json :: "string option"

text \<open>A ledger row carries the column \<open>operation_key\<close> the struct does not read.\<close>

record cost_ledger_record =
  cl_id :: string
  cl_workspace_id :: string
  cl_run_id :: "string option"
  cl_run_step_id :: "string option"
  cl_provider :: string
  cl_amount :: f64
  cl_currency :: string
  cl_estimated :: bool
  cl_operation_key :: "string option"
  cl_created_at :: timestamp

record new_cost_ledger =
  nc_workspace_id :: string
  nc_run_id :: "string option"
  nc_run_step_id :: "string option"
  nc_provider :: string
  nc_amount :: f64
  nc_currency :: string
  nc_estimated :: bool

record run_failure_continuation_record =
  fc_run_id :: string
  fc_state :: string
  fc_retry_key :: "string option"
  fc_child_run_id :: "string option"
  fc_reason_code :: "string option"
  fc_created_at :: timestamp
  fc_updated_at :: timestamp

record run_terminalization_record =
  tz_run_id :: string
  tz_desired_status :: string
  tz_state :: string
  tz_error_json :: "string option"
  tz_owner_id :: "string option"
  tz_lease_expires_at :: "timestamp option"
  tz_created_at :: timestamp
  tz_updated_at :: timestamp
  tz_completed_at :: "timestamp option"

record reject_retry_row =
  jr_parent_run_id :: string
  jr_child_run_id :: string
  jr_retry_key :: string
  jr_created_at :: timestamp

record run_step_output_record =
  so_run_step_id :: string
  so_port :: string
  so_artifact_id :: string
  so_created_at :: timestamp

record run_recovery_lease_record =
  rl_run_id :: string
  rl_owner_id :: string
  rl_lease_expires_at :: timestamp
  rl_updated_at :: timestamp

record run_execution_intent_record =
  ei_run_id :: string
  ei_plan_fingerprint :: string
  ei_estimate_fingerprint :: string
  ei_cost_decision :: string
  ei_created_at :: timestamp

record provider_task_record =
  pt_id :: string
  pt_run_id :: string
  pt_run_step_id :: string
  pt_provider :: string
  pt_dispatch_origin :: string
  pt_recovery_scope_fingerprint :: string
  pt_operation_key :: string
  pt_state :: string
  pt_dispatch_owner_id :: "string option"
  pt_dispatch_lease_expires_at :: "timestamp option"
  pt_dispatch_deadline_at :: "timestamp option"
  pt_provider_task_id :: "string option"
  pt_status_url :: "string option"
  pt_result_url :: "string option"
  pt_terminal_outcome :: "string option"
  pt_result_spool_path :: "string option"
  pt_result_fingerprint :: "string option"
  pt_materialization_deadline_at :: "timestamp option"
  pt_materialization_attempts :: int
  pt_materialization_next_retry_at :: "timestamp option"
  pt_last_error_code :: "string option"
  pt_recovery_deadline_at :: "timestamp option"
  pt_created_at :: timestamp
  pt_updated_at :: timestamp
  pt_ended_at :: "timestamp option"

record version_record =
  vr_id :: string
  vr_workspace_id :: string
  vr_idx :: int
  vr_label :: string
  vr_source :: string
  vr_graph_path :: string
  vr_graph_hash :: string
  vr_parent_id :: "string option"
  vr_semantics_json :: "string option"
  vr_created_at :: timestamp

section \<open>Errors\<close>

datatype sqlx_error = RowNotFound | ConstraintViolation

datatype store_error =
    SE_Sqlx sqlx_error
  | SE_Migration
  | SE_VersionConflict string string "string option"
  | SE_VersionParentMismatch string string "string option"
  | SE_PendingProposalConflict string
  | SE_RunVersionMismatch string string "string option"
  | SE_WorkspaceBusy string string
  | SE_ProposalStateConflict string string "string option"
  | SE_ProposalWorkspaceMismatch string string
  | SE_ProposalBaseMismatch string string string
  | SE_CanvasCommentStateMissing string
  | SE_CanvasCommentInvariant string string
  | SE_StatementInvariant string nat nat
  | SE_OperationIdConflict string string
  | SE_WorkspaceConnectorConflict string "string option" "string option"
  | SE_SchemaMigrationCleanup string string
  | SE_RecoveryInvariant string string
  | SE_AgentContractObservationInvariant string
  | SE_ImageProcessingJobStateConflict string string string

definition is_not_found :: "store_error \<Rightarrow> bool" where
  "is_not_found e \<longleftrightarrow> e = SE_Sqlx RowNotFound"

end
