(* ===== verification/Run_Db.thy ===== *)
theory Run_Db
  imports Run_Types "HOL-Library.Product_Lexorder"
begin

text \<open>
  The database of crates/store as a value: one list of rows per table, in \<open>rowid\<close> order, and
  the statements the operations are built from.  An operation returns \<open>Inl\<close> of its error, and
  then its transaction is rolled back and the database is the one before, or \<open>Inr\<close> of the new
  database and its value.  Writers are serialised by SQLite (\<open>BEGIN IMMEDIATE\<close>, or the lock
  upgrade of a single statement), so one operation is one step.

  A constraint of the schema (CHECK, UNIQUE, primary and foreign keys, enabled in
  \<open>connect_pool\<close>) that a statement would break is the error \<open>ConstraintViolation\<close>.  The
  identifiers of \<open>new_id\<close> and the clock are arguments; nothing is assumed of them.
\<close>

record db =
  db_workspaces :: "string list"
  db_versions :: "version_record list"
  db_runs :: "run_record list"
  db_steps :: "run_step_record list"
  db_events :: "run_event_record list"
  db_artifacts :: "artifact_record list"
  db_ledger :: "cost_ledger_record list"
  db_tasks :: "provider_task_record list"
  db_outputs :: "run_step_output_record list"
  db_leases :: "run_recovery_lease_record list"
  db_intents :: "run_execution_intent_record list"
  db_terminalizations :: "run_terminalization_record list"
  db_continuations :: "run_failure_continuation_record list"
  db_reject_retries :: "reject_retry_row list"

type_synonym 'a store_result = "store_error + db \<times> 'a"

section \<open>Statements\<close>

text \<open>\<open>fetch_one\<close> and \<open>fetch_optional\<close> of a query without ORDER BY: the first row.\<close>

definition fetch_optional :: "('r \<Rightarrow> bool) \<Rightarrow> 'r list \<Rightarrow> 'r option" where
  "fetch_optional P t = List.find P t"

definition fetch_one :: "('r \<Rightarrow> bool) \<Rightarrow> 'r list \<Rightarrow> store_error + 'r" where
  "fetch_one P t = ok_or (fetch_optional P t) (SE_Sqlx RowNotFound)"

definition row_exists :: "('r \<Rightarrow> bool) \<Rightarrow> 'r list \<Rightarrow> bool" where
  "row_exists P t = list_ex P t"

definition sql_update ::
  "('r \<Rightarrow> bool) \<Rightarrow> ('r \<Rightarrow> bool) \<Rightarrow> ('r \<Rightarrow> 'r) \<Rightarrow> 'r list \<Rightarrow> store_error + 'r list \<times> nat" where
  "sql_update check P f t =
     (if list_all (\<lambda>r. P r \<longrightarrow> check (f r)) t
      then Inr (map (\<lambda>r. if P r then f r else r) t, length (filter P t))
      else Inl (SE_Sqlx ConstraintViolation))"

definition sql_insert :: "bool \<Rightarrow> 'r \<Rightarrow> 'r list \<Rightarrow> store_error + 'r list" where
  "sql_insert check r t = (if check then Inr (t @ [r]) else Inl (SE_Sqlx ConstraintViolation))"

text \<open>\<open>INSERT OR IGNORE\<close> skips a row that breaks a UNIQUE, NOT NULL or CHECK constraint; a
  foreign key is still an error.\<close>

definition insert_or_ignore :: "bool \<Rightarrow> bool \<Rightarrow> 'r \<Rightarrow> 'r list \<Rightarrow> store_error + 'r list" where
  "insert_or_ignore check foreign_key r t =
     (if \<not> check then Inr t
      else if foreign_key then Inr (t @ [r]) else Inl (SE_Sqlx ConstraintViolation))"

definition foreign :: "('r \<Rightarrow> 'k) \<Rightarrow> 'k option \<Rightarrow> 'r list \<Rightarrow> bool" where
  "foreign key x t = (case x of None \<Rightarrow> True | Some i \<Rightarrow> row_exists (\<lambda>r. key r = i) t)"

definition returning :: "('d \<Rightarrow> store_error + 'a) \<Rightarrow> 'd \<Rightarrow> store_error + 'd \<times> 'a" where
  "returning q db = res_bind (q db) (\<lambda>x. Inr (db, x))"

lemma fetch_optional_Some: "fetch_optional P t = Some r \<Longrightarrow> r \<in> set t \<and> P r"
  by (simp add: fetch_optional_def find_Some_iff_mem)

lemma fetch_optional_None: "fetch_optional P t = None \<longleftrightarrow> (\<forall>r\<in>set t. \<not> P r)"
  by (auto simp: fetch_optional_def find_None_iff)

lemma fetch_one_Inr: "fetch_one P t = Inr r \<Longrightarrow> r \<in> set t \<and> P r"
  by (simp add: fetch_one_def result_simps fetch_optional_Some)

lemma fetch_one_Inl: "fetch_one P t = Inl e \<longleftrightarrow> (\<forall>r\<in>set t. \<not> P r) \<and> e = SE_Sqlx RowNotFound"
  by (simp add: fetch_one_def result_simps fetch_optional_None)

lemma row_exists_iff [simp]: "row_exists P t \<longleftrightarrow> (\<exists>r\<in>set t. P r)"
  by (simp add: row_exists_def list_ex_iff)

lemma sql_update_Inr: "sql_update check P f t = Inr (t', n) \<longleftrightarrow>
    (\<forall>r\<in>set t. P r \<longrightarrow> check (f r)) \<and> t' = map (\<lambda>r. if P r then f r else r) t \<and>
    n = length (filter P t)"
  by (auto simp: sql_update_def list_all_iff)

lemma sql_update_hit:
  assumes "sql_update check P f t = Inr (t', n)" "n \<noteq> 0"
  shows "\<exists>r\<in>set t. P r \<and> f r \<in> set t'"
proof -
  from assms obtain r where "r \<in> set t" "P r" by (auto simp: sql_update_Inr filter_empty_conv)
  with assms(1) show ?thesis by (auto simp: sql_update_Inr)
qed

lemma sql_insert_Inr: "sql_insert check r t = Inr t' \<longleftrightarrow> check \<and> t' = t @ [r]"
  by (auto simp: sql_insert_def)

lemma insert_or_ignore_Inr: "insert_or_ignore check fk r t = Inr t' \<longleftrightarrow>
    t' = (if check then t @ [r] else t) \<and> (check \<longrightarrow> fk)"
  by (auto simp: insert_or_ignore_def)

lemma returning_Inr: "returning q db = Inr (db', x) \<longleftrightarrow> q db = Inr x \<and> db' = db"
  by (auto simp: returning_def result_simps)

lemmas sql_simps = result_simps sql_update_Inr sql_insert_Inr insert_or_ignore_Inr returning_Inr

section \<open>Keyed rows\<close>

text \<open>A table with a unique key: at most one row has a given key, and a statement that keeps the
  keys updates that row alone.  One instance per table.\<close>

locale keyed_table =
  fixes key :: "'r \<Rightarrow> 'k"
begin

definition keyed :: "'r list \<Rightarrow> bool" where
  "keyed t \<longleftrightarrow> distinct (map key t)"

lemma keyed_unique: "keyed t \<Longrightarrow> r \<in> set t \<Longrightarrow> r' \<in> set t \<Longrightarrow> key r = key r' \<Longrightarrow> r = r'"
  unfolding keyed_def distinct_map by (auto dest: inj_onD)

lemma fetch_keyed: "keyed t \<Longrightarrow> r \<in> set t \<Longrightarrow> fetch_one (\<lambda>x. key x = key r) t = Inr r"
proof (cases "fetch_one (\<lambda>x. key x = key r) t")
  case (Inr x)
  assume "keyed t" "r \<in> set t"
  with fetch_one_Inr [OF Inr] keyed_unique have "x = r" by blast
  with Inr show ?thesis by simp
qed (auto simp: fetch_one_Inl)

lemma keyed_map: "(\<And>r. r \<in> set t \<Longrightarrow> key (f r) = key r) \<Longrightarrow> keyed (map f t) = keyed t"
proof -
  assume "\<And>r. r \<in> set t \<Longrightarrow> key (f r) = key r"
  then have "map (key \<circ> f) t = map key t" by simp
  then show ?thesis by (simp only: keyed_def map_map)
qed

lemma keyed_snoc: "keyed (t @ [r]) \<longleftrightarrow> keyed t \<and> key r \<notin> key ` set t"
  by (auto simp: keyed_def)

lemma keyed_count: "keyed t \<Longrightarrow> (length (filter (\<lambda>x. key x = k \<and> P x) t) \<noteq> 0) =
    (\<exists>r\<in>set t. key r = k \<and> P r)"
  by (auto simp: filter_empty_conv)

end

interpretation runs_table: keyed_table rr_id .
interpretation steps_table: keyed_table rs_id .
interpretation tasks_table: keyed_table pt_id .
interpretation continuations_table: keyed_table fc_run_id .
interpretation terminalizations_table: keyed_table tz_run_id .
interpretation reject_table: keyed_table jr_parent_run_id .

end
