(* ===== verification/Run_Store.thy ===== *)
theory Run_Store
  imports Run_Db
begin

text \<open>
  Runs, their steps, events, artifacts and ledger (crates/store/src/run_records.rs), the creation
  and the claim of runs (run_claim.rs), and the start-up cleanup (run_cleanup.rs).
\<close>

section \<open>Runs\<close>

definition store_run :: "string \<Rightarrow> db \<Rightarrow> store_error + run_record" where
  "store_run run_id db = fetch_one (\<lambda>r. rr_id r = run_id) (db_runs db)"

text \<open>\<open>ORDER BY created_at DESC, id DESC LIMIT 1\<close> is the last row of the ascending order.\<close>

definition newest_run :: "run_record list \<Rightarrow> run_record option" where
  "newest_run rs = (let t = sort_key (\<lambda>r. (rr_created_at r, rr_id r)) rs
                    in if t = [] then None else Some (last t))"

definition latest_workspace_run :: "string \<Rightarrow> db \<Rightarrow> run_record option" where
  "latest_workspace_run ws db = newest_run (filter (\<lambda>r. rr_workspace_id r = ws) (db_runs db))"

definition latest_failed_workspace_run :: "string \<Rightarrow> db \<Rightarrow> run_record option" where
  "latest_failed_workspace_run ws db =
     newest_run (filter (\<lambda>r. rr_workspace_id r = ws \<and> rr_status r = ''failed'') (db_runs db))"

definition runs_for_group :: "string \<Rightarrow> db \<Rightarrow> run_record list" where
  "runs_for_group group_id db = sort_key (\<lambda>r. (rr_created_at r, rr_id r))
     (filter (\<lambda>r. rr_group_id r = Some group_id) (db_runs db))"

definition active_workspace_runs :: "string \<Rightarrow> db \<Rightarrow> run_record list" where
  "active_workspace_runs ws db = sort_key (\<lambda>r. (rr_created_at r, rr_id r))
     (filter (\<lambda>r. rr_workspace_id r = ws \<and> active_status (rr_status r)) (db_runs db))"

definition restart_active_runs :: "db \<Rightarrow> run_record list" where
  "restart_active_runs db = sort_key (\<lambda>r. (rr_created_at r, rr_id r))
     (filter (\<lambda>r. active_status (rr_status r)) (db_runs db))"

text \<open>The busy condition of the three admission queries: an active run of the workspace that does
  not share the group.  (\<open>? IS NULL OR group_id IS NULL OR group_id <> ?\<close>.)\<close>

definition blocks :: "string \<Rightarrow> string option \<Rightarrow> run_record \<Rightarrow> bool" where
  "blocks ws group_id r \<longleftrightarrow> rr_workspace_id r = ws \<and> active_status (rr_status r) \<and>
     (group_id = None \<or> rr_group_id r = None \<or> rr_group_id r \<noteq> group_id)"

definition insert_run :: "run_record \<Rightarrow> db \<Rightarrow> store_error + db" where
  "insert_run r db = res_bind
     (sql_insert (\<not> row_exists (\<lambda>x. rr_id x = rr_id r) (db_runs db) \<and>
        trigger_check (rr_trigger r) \<and> run_status_check (rr_status r) \<and>
        rr_workspace_id r \<in> set (db_workspaces db) \<and>
        row_exists (\<lambda>v. vr_id v = rr_version_id r) (db_versions db) \<and>
        foreign rr_id (rr_parent_run_id r) (db_runs db)) r (db_runs db))
     (\<lambda>t. Inr (db\<lparr>db_runs := t\<rparr>))"

definition create_run :: "string \<Rightarrow> timestamp \<Rightarrow> new_run \<Rightarrow> db \<Rightarrow> run_record store_result" where
  "create_run new_id now input db =
     (let actual = map_option vr_workspace_id
            (fetch_optional (\<lambda>v. vr_id v = nr_version_id input) (db_versions db))
      in if actual \<noteq> Some (nr_workspace_id input)
         then Inl (SE_RunVersionMismatch (nr_workspace_id input) (nr_version_id input) actual)
         else case (if active_status (nr_status input)
                    then fetch_optional (blocks (nr_workspace_id input) (nr_group_id input)) (db_runs db)
                    else None) of
           Some other \<Rightarrow> Inl (SE_WorkspaceBusy (nr_workspace_id input) (rr_id other))
         | None \<Rightarrow> res_bind (insert_run
             \<lparr>rr_id = new_id, rr_workspace_id = nr_workspace_id input,
              rr_version_id = nr_version_id input, rr_group_id = nr_group_id input,
              rr_label = nr_label input, rr_trigger = nr_trigger input,
              rr_plan_json = nr_plan_json input, rr_estimate_json = nr_estimate_json input,
              rr_status = nr_status input, rr_error_json = None, rr_started_at = None,
              rr_ended_at = None, rr_created_at = now, rr_parent_run_id = None, rr_attempt = 0,
              rr_force_rerun = False\<rparr> db) (returning (store_run new_id)))"

definition claim_run_if_workspace_idle ::
  "timestamp \<Rightarrow> string \<Rightarrow> string \<Rightarrow> string \<Rightarrow> string \<Rightarrow> string option \<Rightarrow> db \<Rightarrow>
   run_record option store_result" where
  "claim_run_if_workspace_idle now run_id expected_status next_status ws group_id db =
     res_bind (sql_update (\<lambda>r. run_status_check (rr_status r))
       (\<lambda>r. rr_id r = run_id \<and> rr_status r = expected_status \<and>
          \<not> row_exists (\<lambda>other. rr_id other \<noteq> run_id \<and> blocks ws group_id other) (db_runs db))
       (\<lambda>r. r\<lparr>rr_status := next_status,
          rr_started_at := (if next_status = ''running'' \<and> rr_started_at r = None then Some now
                            else rr_started_at r)\<rparr>)
       (db_runs db)) (\<lambda>(t, n).
     if n = 0 then Inr (db, None)
     else res_bind (returning (store_run run_id) (db\<lparr>db_runs := t\<rparr>)) (\<lambda>(db, r). Inr (db, Some r)))"

definition set_run_force_rerun :: "string \<Rightarrow> bool \<Rightarrow> db \<Rightarrow> run_record store_result" where
  "set_run_force_rerun run_id force_rerun db =
     res_bind (sql_update (\<lambda>_. True) (\<lambda>r. rr_id r = run_id)
       (\<lambda>r. r\<lparr>rr_force_rerun := force_rerun\<rparr>) (db_runs db)) (\<lambda>(t, n).
     returning (store_run run_id) (db\<lparr>db_runs := t\<rparr>))"

text \<open>The SET clause of the two status updates.\<close>

definition set_status :: "timestamp \<Rightarrow> string \<Rightarrow> string option \<Rightarrow> run_record \<Rightarrow> run_record" where
  "set_status now status error_json r = r\<lparr>rr_status := status, rr_error_json := error_json,
     rr_started_at := (if status = ''running'' \<and> rr_started_at r = None then Some now
                       else rr_started_at r),
     rr_ended_at := (if terminal_status status then Some now else rr_ended_at r)\<rparr>"

definition update_run_status ::
  "timestamp \<Rightarrow> string \<Rightarrow> string \<Rightarrow> string option \<Rightarrow> db \<Rightarrow> run_record store_result" where
  "update_run_status now run_id status error_json db =
     res_bind (sql_update (\<lambda>r. run_status_check (rr_status r))
       (\<lambda>r. rr_id r = run_id \<and> (\<not> terminal_status (rr_status r) \<or> rr_status r = status))
       (set_status now status error_json) (db_runs db)) (\<lambda>(t, n).
     if n = 0
     then Inl (SE_RecoveryInvariant ''update_run_status''
       (''run '' @ bq run_id @ '' rejected a late transition to '' @ bq status))
     else returning (store_run run_id) (db\<lparr>db_runs := t\<rparr>))"

definition update_run_status_if_current ::
  "timestamp \<Rightarrow> string \<Rightarrow> string \<Rightarrow> string \<Rightarrow> string option \<Rightarrow> db \<Rightarrow> run_record option store_result" where
  "update_run_status_if_current now run_id expected_status next_status error_json db =
     (case fetch_optional (\<lambda>r. rr_id r = run_id) (db_runs db) of
        None \<Rightarrow> Inr (db, None)
      | Some current \<Rightarrow>
          if rr_status current \<noteq> expected_status then Inr (db, None)
          else case (if active_status next_status
                     then fetch_optional (\<lambda>r. rr_id r \<noteq> run_id \<and>
                            blocks (rr_workspace_id current) (rr_group_id current) r) (db_runs db)
                     else None) of
            Some other \<Rightarrow> Inl (SE_WorkspaceBusy (rr_workspace_id current) (rr_id other))
          | None \<Rightarrow> res_bind (sql_update (\<lambda>r. run_status_check (rr_status r))
              (\<lambda>r. rr_id r = run_id \<and> rr_status r = expected_status)
              (set_status now next_status error_json) (db_runs db)) (\<lambda>(t, n).
              if n = 0 then Inr (db, None)
              else res_bind (returning (store_run run_id) (db\<lparr>db_runs := t\<rparr>))
                     (\<lambda>(db, r). Inr (db, Some r))))"

definition update_run_estimate_and_status ::
  "string \<Rightarrow> string option \<Rightarrow> string \<Rightarrow> db \<Rightarrow> run_record store_result" where
  "update_run_estimate_and_status run_id estimate_json status db =
     res_bind (sql_update (\<lambda>r. run_status_check (rr_status r))
       (\<lambda>r. rr_id r = run_id \<and> \<not> terminal_status (rr_status r))
       (\<lambda>r. r\<lparr>rr_estimate_json := estimate_json, rr_status := status\<rparr>) (db_runs db)) (\<lambda>(t, n).
     if n = 0
     then Inl (SE_RecoveryInvariant ''update_run_estimate_and_status''
       (''run '' @ bq run_id @ '' rejected a late estimate transition to '' @ bq status))
     else returning (store_run run_id) (db\<lparr>db_runs := t\<rparr>))"

section \<open>Steps\<close>

definition run_step :: "string \<Rightarrow> db \<Rightarrow> store_error + run_step_record" where
  "run_step step_id db = fetch_one (\<lambda>s. rs_id s = step_id) (db_steps db)"

definition run_steps :: "string \<Rightarrow> db \<Rightarrow> run_step_record list" where
  "run_steps run_id db = filter (\<lambda>s. rs_run_id s = run_id) (db_steps db)"

definition create_run_step :: "string \<Rightarrow> new_run_step \<Rightarrow> db \<Rightarrow> run_step_record store_result" where
  "create_run_step new_id input db =
     res_bind (sql_insert (\<not> row_exists (\<lambda>s. rs_id s = new_id) (db_steps db) \<and>
         step_state_check (ns_state input) \<and>
         row_exists (\<lambda>r. rr_id r = ns_run_id input) (db_runs db))
       \<lparr>rs_id = new_id, rs_run_id = ns_run_id input, rs_node_id = ns_node_id input,
        rs_node_type = ns_node_type input, rs_provider = ns_provider input, rs_state = ns_state input,
        rs_progress = None, rs_cost_estimate_json = None, rs_cost_actual_json = None,
        rs_error_json = None, rs_metadata_json = None, rs_started_at = None, rs_ended_at = None\<rparr>
       (db_steps db)) (\<lambda>t. returning (run_step new_id) (db\<lparr>db_steps := t\<rparr>))"

definition update_run_step_state ::
  "timestamp \<Rightarrow> string \<Rightarrow> string \<Rightarrow> f64 option \<Rightarrow> string option \<Rightarrow> string option \<Rightarrow> db \<Rightarrow>
   run_step_record store_result" where
  "update_run_step_state now step_id state progress cost_actual_json error_json db =
     res_bind (sql_update (\<lambda>s. step_state_check (rs_state s))
       (\<lambda>s. rs_id s = step_id \<and> (\<not> terminal_step_state (rs_state s) \<or> rs_state s = state))
       (\<lambda>s. s\<lparr>rs_state := state, rs_progress := progress, rs_cost_actual_json := cost_actual_json,
          rs_error_json := error_json,
          rs_started_at := (if state = ''running'' \<and> rs_started_at s = None then Some now
                            else rs_started_at s),
          rs_ended_at := (if terminal_step_state state then Some now else rs_ended_at s)\<rparr>)
       (db_steps db)) (\<lambda>(t, n).
     if n = 0
     then Inl (SE_RecoveryInvariant ''update_run_step_state''
       (''run step '' @ bq step_id @ '' rejected a late transition to '' @ bq state))
     else returning (run_step step_id) (db\<lparr>db_steps := t\<rparr>))"

definition mark_run_step_cached_succeeded ::
  "timestamp \<Rightarrow> string \<Rightarrow> string \<Rightarrow> db \<Rightarrow> run_step_record store_result" where
  "mark_run_step_cached_succeeded now step_id metadata_json db =
     res_bind (sql_update (\<lambda>s. step_state_check (rs_state s))
       (\<lambda>s. rs_id s = step_id \<and> rs_state s = ''succeeded'')
       (\<lambda>s. s\<lparr>rs_state := ''succeeded'', rs_progress := Some (Fin 1), rs_cost_actual_json := None,
          rs_error_json := None, rs_metadata_json := Some metadata_json,
          rs_started_at := (if rs_started_at s = None then Some now else rs_started_at s),
          rs_ended_at := Some now\<rparr>) (db_steps db)) (\<lambda>(t, n).
     if n \<noteq> 1
     then Inl (SE_RecoveryInvariant ''mark_run_step_cached_succeeded''
       (''run step '' @ bq step_id @
        '' must be durably succeeded before cache metadata is applied''))
     else returning (run_step step_id) (db\<lparr>db_steps := t\<rparr>))"

definition update_run_step_cost_estimate ::
  "string \<Rightarrow> string option \<Rightarrow> db \<Rightarrow> run_step_record store_result" where
  "update_run_step_cost_estimate step_id cost_estimate_json db =
     res_bind (sql_update (\<lambda>_. True) (\<lambda>s. rs_id s = step_id)
       (\<lambda>s. s\<lparr>rs_cost_estimate_json := cost_estimate_json\<rparr>) (db_steps db)) (\<lambda>(t, n).
     returning (run_step step_id) (db\<lparr>db_steps := t\<rparr>))"

section \<open>Events\<close>

text \<open>\<open>COALESCE(MAX(seq), 0) + 1\<close>.\<close>

definition next_seq :: "string \<Rightarrow> run_event_record list \<Rightarrow> int" where
  "next_seq run_id es =
     (let seqs = map re_seq (filter (\<lambda>e. re_run_id e = run_id) es)
      in (if seqs = [] then 0 else foldr max seqs (hd seqs)) + 1)"

definition run_event :: "string \<Rightarrow> db \<Rightarrow> store_error + run_event_record" where
  "run_event event_id db = fetch_one (\<lambda>e. re_id e = event_id) (db_events db)"

definition run_events :: "string \<Rightarrow> db \<Rightarrow> run_event_record list" where
  "run_events run_id db = sort_key re_seq (filter (\<lambda>e. re_run_id e = run_id) (db_events db))"

definition insert_event :: "string \<Rightarrow> timestamp \<Rightarrow> string \<Rightarrow> string \<Rightarrow> string \<Rightarrow> db \<Rightarrow> store_error + db" where
  "insert_event new_id now run_id ev data_json db =
     (let seq = next_seq run_id (db_events db) in
      res_bind (sql_insert (\<not> row_exists (\<lambda>e. re_id e = new_id) (db_events db) \<and>
         row_exists (\<lambda>r. rr_id r = run_id) (db_runs db) \<and>
         \<not> row_exists (\<lambda>e. re_run_id e = run_id \<and> re_seq e = seq) (db_events db))
       \<lparr>re_id = new_id, re_run_id = run_id, re_seq = seq, re_ev = ev, re_data_json = data_json,
        re_created_at = now\<rparr> (db_events db)) (\<lambda>t. Inr (db\<lparr>db_events := t\<rparr>)))"

definition append_run_event ::
  "string \<Rightarrow> timestamp \<Rightarrow> string \<Rightarrow> string \<Rightarrow> string \<Rightarrow> db \<Rightarrow> run_event_record store_result" where
  "append_run_event new_id now run_id ev data_json db =
     res_bind (insert_event new_id now run_id ev data_json db) (returning (run_event new_id))"

section \<open>Artifacts\<close>

abbreviation review_state_check :: "string \<Rightarrow> bool" where
  "review_state_check s \<equiv> s \<in> {''pending'', ''accepted'', ''rejected''}"

definition artifact :: "string \<Rightarrow> db \<Rightarrow> store_error + artifact_record" where
  "artifact artifact_id db = fetch_one (\<lambda>a. ar_id a = artifact_id) (db_artifacts db)"

definition artifact_identity_error :: "string \<Rightarrow> store_error" where
  "artifact_identity_error message = SE_RecoveryInvariant ''create_artifact'' message"

definition validate_artifact_identity :: "new_artifact \<Rightarrow> db \<Rightarrow> store_error + unit" where
  "validate_artifact_identity input db =
     (if na_run_step_id input \<noteq> None \<and> na_run_id input = None
      then Inl (artifact_identity_error ''a run step cannot be referenced without its run'')
      else if (case na_run_id input of None \<Rightarrow> False | Some run_id \<Rightarrow>
          \<not> row_exists (\<lambda>r. rr_id r = run_id \<and> rr_workspace_id r = na_workspace_id input) (db_runs db))
      then Inl (artifact_identity_error ''run does not belong to the artifact workspace'')
      else if (case na_run_step_id input of None \<Rightarrow> False | Some step_id \<Rightarrow>
          \<not> row_exists (\<lambda>s. rs_id s = step_id \<and> Some (rs_run_id s) = na_run_id input \<and>
               row_exists (\<lambda>r. rr_id r = rs_run_id s \<and> rr_workspace_id r = na_workspace_id input)
                 (db_runs db)) (db_steps db))
      then Inl (artifact_identity_error ''run step does not belong to the artifact run and workspace'')
      else Inr ())"

definition create_artifact :: "string \<Rightarrow> timestamp \<Rightarrow> new_artifact \<Rightarrow> db \<Rightarrow> artifact_record store_result" where
  "create_artifact new_id now input db =
     res_bind (validate_artifact_identity input db) (\<lambda>_.
     res_bind (sql_insert (\<not> row_exists (\<lambda>a. ar_id a = new_id) (db_artifacts db) \<and>
         na_workspace_id input \<in> set (db_workspaces db) \<and>
         foreign rr_id (na_run_id input) (db_runs db) \<and>
         foreign rs_id (na_run_step_id input) (db_steps db))
       \<lparr>ar_id = new_id, ar_workspace_id = na_workspace_id input, ar_run_id = na_run_id input,
        ar_run_step_id = na_run_step_id input, ar_node_id = na_node_id input, ar_kind = na_kind input,
        ar_storage_uri = na_storage_uri input, ar_sha256 = na_sha256 input, ar_mime = na_mime input,
        ar_width = na_width input, ar_height = na_height input, ar_duration_ms = na_duration_ms input,
        ar_selected = na_selected input, ar_meta_json = na_meta_json input, ar_created_at = now,
        ar_review_state = ''pending''\<rparr> (db_artifacts db)) (\<lambda>t.
     returning (artifact new_id) (db\<lparr>db_artifacts := t\<rparr>)))"

definition update_artifact_selected :: "string \<Rightarrow> bool \<Rightarrow> db \<Rightarrow> artifact_record store_result" where
  "update_artifact_selected artifact_id selected db =
     res_bind (sql_update (\<lambda>_. True) (\<lambda>a. ar_id a = artifact_id)
       (\<lambda>a. a\<lparr>ar_selected := selected\<rparr>) (db_artifacts db)) (\<lambda>(t, n).
     returning (artifact artifact_id) (db\<lparr>db_artifacts := t\<rparr>))"

definition set_artifact_review_state ::
  "string \<Rightarrow> string list \<Rightarrow> string \<Rightarrow> db \<Rightarrow> artifact_record option store_result" where
  "set_artifact_review_state artifact_id expected_from next_state db =
     res_bind (sql_update (\<lambda>a. review_state_check (ar_review_state a))
       (\<lambda>a. ar_id a = artifact_id \<and> ar_review_state a \<in> set expected_from)
       (\<lambda>a. a\<lparr>ar_review_state := next_state\<rparr>) (db_artifacts db)) (\<lambda>(t, n).
     if n = 0 then Inr (db, None)
     else res_bind (returning (artifact artifact_id) (db\<lparr>db_artifacts := t\<rparr>))
            (\<lambda>(db, a). Inr (db, Some a)))"

definition select_run_artifact :: "string \<Rightarrow> db \<Rightarrow> artifact_record store_result" where
  "select_run_artifact artifact_id db =
     res_bind (artifact artifact_id db) (\<lambda>a.
     case ar_run_id a of
       None \<Rightarrow> update_artifact_selected artifact_id True db
     | Some run_id \<Rightarrow>
         res_bind (sql_update (\<lambda>_. True) (\<lambda>a. ar_run_id a = Some run_id)
           (\<lambda>a. a\<lparr>ar_selected := (ar_id a = artifact_id)\<rparr>) (db_artifacts db)) (\<lambda>(t, n).
         returning (artifact artifact_id) (db\<lparr>db_artifacts := t\<rparr>)))"

definition select_group_artifact :: "string \<Rightarrow> string \<Rightarrow> db \<Rightarrow> artifact_record store_result" where
  "select_group_artifact artifact_id group_id db =
     res_bind (sql_update (\<lambda>_. True)
       (\<lambda>a. row_exists (\<lambda>r. ar_run_id a = Some (rr_id r) \<and> rr_group_id r = Some group_id) (db_runs db))
       (\<lambda>a. a\<lparr>ar_selected := (ar_id a = artifact_id)\<rparr>) (db_artifacts db)) (\<lambda>(t, n).
     returning (artifact artifact_id) (db\<lparr>db_artifacts := t\<rparr>))"

definition run_artifacts :: "string \<Rightarrow> db \<Rightarrow> artifact_record list" where
  "run_artifacts run_id db = sort_key (\<lambda>a. (ar_created_at a, ar_id a))
     (filter (\<lambda>a. ar_run_id a = Some run_id) (db_artifacts db))"

definition run_step_artifacts :: "string \<Rightarrow> db \<Rightarrow> artifact_record list" where
  "run_step_artifacts step_id db = sort_key (\<lambda>a. (ar_created_at a, ar_id a))
     (filter (\<lambda>a. ar_run_step_id a = Some step_id) (db_artifacts db))"

section \<open>The cost ledger\<close>

text \<open>CHECK (amount >= 0) on a NOT NULL column; a NaN is bound as NULL.\<close>

abbreviation amount_check :: "f64 \<Rightarrow> bool" where
  "amount_check a \<equiv> fp_le (Fin 0) a"

definition cost_ledger :: "string \<Rightarrow> db \<Rightarrow> store_error + cost_ledger_record" where
  "cost_ledger cost_id db = fetch_one (\<lambda>c. cl_id c = cost_id) (db_ledger db)"

definition cost_ledger_for_run :: "string \<Rightarrow> db \<Rightarrow> cost_ledger_record list" where
  "cost_ledger_for_run run_id db = sort_key (\<lambda>c. (cl_created_at c, cl_id c))
     (filter (\<lambda>c. cl_run_id c = Some run_id) (db_ledger db))"

definition ledger_row :: "string \<Rightarrow> timestamp \<Rightarrow> string option \<Rightarrow> new_cost_ledger \<Rightarrow> cost_ledger_record" where
  "ledger_row new_id now operation_key input =
     \<lparr>cl_id = new_id, cl_workspace_id = nc_workspace_id input, cl_run_id = nc_run_id input,
      cl_run_step_id = nc_run_step_id input, cl_provider = nc_provider input,
      cl_amount = nc_amount input, cl_currency = nc_currency input, cl_estimated = nc_estimated input,
      cl_operation_key = operation_key, cl_created_at = now\<rparr>"

definition ledger_foreign :: "new_cost_ledger \<Rightarrow> db \<Rightarrow> bool" where
  "ledger_foreign input db \<longleftrightarrow> nc_workspace_id input \<in> set (db_workspaces db) \<and>
     foreign rr_id (nc_run_id input) (db_runs db) \<and> foreign rs_id (nc_run_step_id input) (db_steps db)"

definition create_cost_ledger ::
  "string \<Rightarrow> timestamp \<Rightarrow> new_cost_ledger \<Rightarrow> db \<Rightarrow> cost_ledger_record store_result" where
  "create_cost_ledger new_id now input db =
     res_bind (sql_insert (\<not> row_exists (\<lambda>c. cl_id c = new_id) (db_ledger db) \<and>
         amount_check (nc_amount input) \<and> ledger_foreign input db)
       (ledger_row new_id now None input) (db_ledger db)) (\<lambda>t.
     returning (cost_ledger new_id) (db\<lparr>db_ledger := t\<rparr>))"

text \<open>\<open>create_cost_ledger_once\<close> (cost_ledger_idempotency.rs): the operation key is unique, and a
  second use must carry the same data.\<close>

definition same_cost :: "cost_ledger_record \<Rightarrow> new_cost_ledger \<Rightarrow> bool" where
  "same_cost c input \<longleftrightarrow> cl_workspace_id c = nc_workspace_id input \<and> cl_run_id c = nc_run_id input \<and>
     cl_run_step_id c = nc_run_step_id input \<and> cl_provider c = nc_provider input \<and>
     fp_eq (cl_amount c) (nc_amount input) \<and> cl_currency c = nc_currency input \<and>
     cl_estimated c = nc_estimated input"

definition insert_ledger_once ::
  "string \<Rightarrow> timestamp \<Rightarrow> string \<Rightarrow> new_cost_ledger \<Rightarrow> db \<Rightarrow> store_error + db" where
  "insert_ledger_once new_id now operation_key input db =
     res_bind (insert_or_ignore (\<not> row_exists (\<lambda>c. cl_id c = new_id) (db_ledger db) \<and>
         \<not> row_exists (\<lambda>c. cl_operation_key c = Some operation_key) (db_ledger db) \<and>
         amount_check (nc_amount input)) (ledger_foreign input db)
       (ledger_row new_id now (Some operation_key) input) (db_ledger db))
     (\<lambda>t. Inr (db\<lparr>db_ledger := t\<rparr>))"

definition create_cost_ledger_once ::
  "string \<Rightarrow> timestamp \<Rightarrow> string \<Rightarrow> new_cost_ledger \<Rightarrow> db \<Rightarrow> cost_ledger_record store_result" where
  "create_cost_ledger_once new_id now operation_key input db =
     res_bind (insert_ledger_once new_id now operation_key input db) (\<lambda>db.
     res_bind (fetch_one (\<lambda>c. cl_operation_key c = Some operation_key) (db_ledger db)) (\<lambda>c.
     if \<not> same_cost c input
     then Inl (SE_RecoveryInvariant ''create_cost_ledger_once''
       (''cost operation '' @ bq operation_key @ '' was reused with different data''))
     else returning (cost_ledger (cl_id c)) db))"

section \<open>Start-up cleanup\<close>

text \<open>The loop over the stale runs, in one transaction.\<close>

definition interrupt_one :: "timestamp \<Rightarrow> string \<Rightarrow> db \<times> run_record list \<Rightarrow> store_error + db \<times> run_record list" where
  "interrupt_one now run_id s = (case s of (db, interrupted) \<Rightarrow>
     res_bind (sql_update (\<lambda>r. run_status_check (rr_status r))
       (\<lambda>r. rr_id r = run_id \<and> active_status (rr_status r))
       (\<lambda>r. r\<lparr>rr_status := ''interrupted'', rr_ended_at := Some now\<rparr>) (db_runs db)) (\<lambda>(runs, _).
     res_bind (sql_update (\<lambda>s. step_state_check (rs_state s))
       (\<lambda>s. rs_run_id s = run_id \<and> (rs_state s = ''queued'' \<or> rs_state s = ''running''))
       (\<lambda>s. s\<lparr>rs_state := ''skipped'', rs_ended_at := Some now\<rparr>) (db_steps db)) (\<lambda>(steps, _).
     let db = db\<lparr>db_runs := runs, db_steps := steps\<rparr> in
     res_bind (store_run run_id db) (\<lambda>r. Inr (db, interrupted @ [r])))))"

definition interrupt_stale_active_runs :: "timestamp \<Rightarrow> db \<Rightarrow> run_record list store_result" where
  "interrupt_stale_active_runs now db =
     fold_res (interrupt_one now) (map rr_id (restart_active_runs db)) (db, [])"

end
