(* ===== verification/Run_Table.thy ===== *)
theory Run_Table
  imports Transition Run_Store
begin

text \<open>
  The contract of the table \<open>runs\<close>: what any operation may do to it.  A row is appended with a
  new id, and when it is active no run of its workspace stands in the way; or the rows with one
  id are rewritten, keeping their identity, keeping a terminal status, and becoming active only
  when they were active or when no other run of their workspace stands in the way.  The
  operations are shown to be such steps in \<open>Store_System\<close>; the invariants are proved here, of
  the contract.
\<close>

section \<open>Steps of the table\<close>

definition same_run :: "run_record \<Rightarrow> run_record \<Rightarrow> bool" where
  "same_run r r' \<longleftrightarrow> rr_id r' = rr_id r \<and> rr_workspace_id r' = rr_workspace_id r \<and>
     rr_version_id r' = rr_version_id r \<and> rr_group_id r' = rr_group_id r \<and>
     rr_trigger r' = rr_trigger r \<and> rr_parent_run_id r' = rr_parent_run_id r \<and>
     rr_attempt r' = rr_attempt r"

definition run_legal :: "run_record \<Rightarrow> bool" where
  "run_legal r \<longleftrightarrow> run_status_check (rr_status r) \<and> trigger_check (rr_trigger r)"

text \<open>No run of the workspace other than \<open>i\<close> stands in the way of a run of the group.\<close>

definition admitted :: "run_record list \<Rightarrow> string \<Rightarrow> string \<Rightarrow> string option \<Rightarrow> bool" where
  "admitted rs i ws g \<longleftrightarrow> (\<forall>r\<in>set rs. rr_id r \<noteq> i \<longrightarrow> \<not> blocks ws g r)"

definition run_change :: "run_record list \<Rightarrow> run_record \<Rightarrow> run_record \<Rightarrow> bool" where
  "run_change rs r r' \<longleftrightarrow> same_run r r' \<and> run_status_check (rr_status r') \<and>
     (terminal_status (rr_status r) \<longrightarrow> rr_status r' = rr_status r) \<and>
     (active_status (rr_status r') \<longrightarrow> active_status (rr_status r) \<or>
        admitted rs (rr_id r) (rr_workspace_id r) (rr_group_id r))"

inductive runs_step :: "run_record list \<Rightarrow> run_record list \<Rightarrow> bool" where
  run_inserted: "\<lbrakk>rr_id r \<notin> rr_id ` set rs; run_legal r;
      active_status (rr_status r) \<Longrightarrow> admitted rs (rr_id r) (rr_workspace_id r) (rr_group_id r)\<rbrakk>
    \<Longrightarrow> runs_step rs (rs @ [r])"
| run_changed: "\<lbrakk>\<And>r. r \<in> set rs \<Longrightarrow> rr_id r = i \<Longrightarrow> P r \<Longrightarrow> run_change rs r (f r)\<rbrakk>
    \<Longrightarrow> runs_step rs (map (\<lambda>r. if rr_id r = i \<and> P r then f r else r) rs)"

section \<open>One active run per workspace and group\<close>

definition compatible :: "run_record \<Rightarrow> run_record \<Rightarrow> bool" where
  "compatible r r' \<longleftrightarrow> (rr_id r \<noteq> rr_id r' \<and> active_status (rr_status r) \<and>
     active_status (rr_status r') \<and> rr_workspace_id r = rr_workspace_id r' \<longrightarrow>
     rr_group_id r \<noteq> None \<and> rr_group_id r = rr_group_id r')"

definition runs_exclusive :: "run_record list \<Rightarrow> bool" where
  "runs_exclusive rs \<longleftrightarrow> (\<forall>r\<in>set rs. \<forall>r'\<in>set rs. compatible r r')"

lemma compatible_sym: "compatible r r' \<Longrightarrow> compatible r' r"
  unfolding compatible_def by metis

lemma compatible_refl [simp]: "compatible r r"
  by (simp add: compatible_def)

definition runs_ok :: "run_record list \<Rightarrow> bool" where
  "runs_ok rs \<longleftrightarrow> distinct (map rr_id rs) \<and> (\<forall>r\<in>set rs. run_legal r) \<and> runs_exclusive rs"

lemma admitted_pair:
  assumes "admitted rs i ws g" "r \<in> set rs" "rr_id r \<noteq> i" "active_status (rr_status r)"
    "rr_workspace_id r = ws"
  shows "g \<noteq> None \<and> rr_group_id r = g"
  using assms by (auto simp: admitted_def blocks_def)

lemma run_change_frame:
  assumes "run_change rs r r'"
  shows "rr_id r' = rr_id r" "rr_workspace_id r' = rr_workspace_id r" "rr_group_id r' = rr_group_id r"
    "run_legal r \<Longrightarrow> run_legal r'"
  using assms by (auto simp: run_change_def same_run_def run_legal_def)

lemma runs_step_exclusive: "runs_step rs rs' \<Longrightarrow> runs_exclusive rs \<Longrightarrow> runs_exclusive rs'"
proof (induction rule: runs_step.induct)
  case (run_inserted r rs)
  have new: "compatible r x" if "x \<in> set rs" for x
    using admitted_pair [OF run_inserted(3) that] that by (auto simp: compatible_def)
  then show ?case
    using run_inserted.prems compatible_sym by (auto simp: runs_exclusive_def)
next
  case (run_changed rs i P f)
  define g where "g = (\<lambda>r. if rr_id r = i \<and> P r then f r else r)"
  have frame: "rr_id (g r) = rr_id r" "rr_workspace_id (g r) = rr_workspace_id r"
    "rr_group_id (g r) = rr_group_id r" if "r \<in> set rs" for r
    using run_change_frame [OF run_changed(1) [OF that]] by (auto simp: g_def)
  have act: "active_status (rr_status r) \<or> rr_id r = i \<and> admitted rs i (rr_workspace_id r) (rr_group_id r)"
    if "r \<in> set rs" "active_status (rr_status (g r))" for r
    using run_changed(1) [OF that(1)] that(2) by (auto simp: g_def run_change_def split: if_splits)
  have grouped: "rr_group_id r \<noteq> None \<and> rr_group_id r = rr_group_id r'"
    if r: "r \<in> set rs" "r' \<in> set rs" "rr_id r \<noteq> rr_id r'" "rr_workspace_id r = rr_workspace_id r'"
      and a: "active_status (rr_status (g r))" "active_status (rr_status (g r'))" for r r'
  proof -
    consider "active_status (rr_status r)" "active_status (rr_status r')"
      | "rr_id r = i" "admitted rs i (rr_workspace_id r) (rr_group_id r)" "active_status (rr_status r')"
      | "rr_id r' = i" "admitted rs i (rr_workspace_id r') (rr_group_id r')" "active_status (rr_status r)"
      using act [OF r(1) a(1)] act [OF r(2) a(2)] r(3) by metis
    then show ?thesis
    proof cases
      case 1
      then show ?thesis using run_changed.prems r unfolding runs_exclusive_def compatible_def by blast
    next
      case 2
      then show ?thesis using admitted_pair [OF 2(2) r(2) _ 2(3)] r by auto
    next
      case 3
      then show ?thesis using admitted_pair [OF 3(2) r(1) _ 3(3)] r by auto
    qed
  qed
  have "compatible (g r) (g r')" if "r \<in> set rs" "r' \<in> set rs" for r r'
    using grouped [OF that] unfolding compatible_def frame [OF that(1)] frame [OF that(2)] by blast
  then show ?case by (simp add: runs_exclusive_def flip: g_def)
qed

lemma runs_step_ids: "runs_step rs rs' \<Longrightarrow> distinct (map rr_id rs) \<Longrightarrow> distinct (map rr_id rs')"
proof (induction rule: runs_step.induct)
  case (run_inserted r rs)
  then show ?case by simp
next
  case (run_changed rs i P f)
  have "map rr_id (map (\<lambda>r. if rr_id r = i \<and> P r then f r else r) rs) = map rr_id rs"
    using run_change_frame(1) [OF run_changed(1)] by auto
  then show ?case using run_changed.prems by (simp only:)
qed

lemma runs_step_legal:
  "runs_step rs rs' \<Longrightarrow> (\<forall>r\<in>set rs. run_legal r) \<Longrightarrow> (\<forall>r\<in>set rs'. run_legal r)"
  by (induction rule: runs_step.induct) (auto dest: run_change_frame(4))

lemma runs_step_ok: "runs_step rs rs' \<Longrightarrow> runs_ok rs \<Longrightarrow> runs_ok rs'"
  using runs_step_exclusive runs_step_ids runs_step_legal unfolding runs_ok_def by blast

interpretation runs_system: invariant_system runs_step runs_ok
  by unfold_locales (rule runs_step_ok)

section \<open>What a run keeps\<close>

text \<open>No step deletes a run or changes its identity, and a terminal status stays.\<close>

definition run_follows :: "run_record \<Rightarrow> run_record \<Rightarrow> bool" where
  "run_follows r r' \<longleftrightarrow> same_run r r' \<and> (terminal_status (rr_status r) \<longrightarrow> rr_status r' = rr_status r)"

lemma run_follows_refl [simp]: "run_follows r r"
  by (simp add: run_follows_def same_run_def)

lemma run_follows_trans: "run_follows a b \<Longrightarrow> run_follows b c \<Longrightarrow> run_follows a c"
  by (auto simp: run_follows_def same_run_def)

lemma runs_step_follows:
  "runs_step rs rs' \<Longrightarrow> r \<in> set rs \<Longrightarrow> \<exists>r'\<in>set rs'. run_follows r r'"
proof (induction rule: runs_step.induct)
  case (run_inserted x rs)
  then show ?case by (auto intro!: bexI [of _ r])
next
  case (run_changed rs i P f)
  show ?case
  proof (cases "rr_id r = i \<and> P r")
    case True
    with run_changed have "run_change rs r (f r)" by blast
    then have "run_follows r (f r)" by (simp add: run_change_def run_follows_def)
    with True run_changed.prems show ?thesis by (auto intro!: bexI [of _ "f r"] image_eqI [of _ _ r])
  next
    case False
    with run_changed.prems show ?thesis by (auto intro!: bexI [of _ r] image_eqI [of _ _ r])
  qed
qed

lemma runs_steps_follow:
  "runs_step\<^sup>*\<^sup>* rs rs' \<Longrightarrow> r \<in> set rs \<Longrightarrow> \<exists>r'\<in>set rs'. run_follows r r'"
proof (induction rule: rtranclp_induct)
  case base
  then show ?case by (auto intro: bexI [of _ r])
next
  case (step a b)
  then obtain r' where r': "r' \<in> set a" "run_follows r r'" by blast
  from runs_step_follows [OF step(2) r'(1)] show ?case
    using run_follows_trans [OF r'(2)] by blast
qed

end
