(* ===== verification/Recovery_Store.thy ===== *)
theory Recovery_Store
  imports Run_Store
begin

text \<open>
  Retries and failure recovery: crates/store/src/retry_records.rs, run_recovery_records.rs and
  recovery_lease_records.rs.  \<open>datetime('now', '+n seconds')\<close> is \<open>now + n\<close> (the callers
  pass constants of at most an hour, far inside SQLite's calendar).  \<open>parent.attempt + 1\<close> is
  64-bit arithmetic that wraps, as in a release build.  A loop that inserts rows takes the
  identifier of its k-th row as \<open>cost_ids k\<close>.
\<close>

section \<open>Retry runs\<close>

definition retry_trigger :: "run_record \<Rightarrow> string" where
  "retry_trigger parent = (if rr_trigger parent = ''sweep'' then ''agent'' else rr_trigger parent)"

definition retry_row :: "string \<Rightarrow> timestamp \<Rightarrow> bool \<Rightarrow> run_record \<Rightarrow> run_record" where
  "retry_row new_id now force_rerun parent =
     \<lparr>rr_id = new_id, rr_workspace_id = rr_workspace_id parent, rr_version_id = rr_version_id parent,
      rr_group_id = None, rr_label = rr_label parent, rr_trigger = retry_trigger parent,
      rr_plan_json = rr_plan_json parent, rr_estimate_json = rr_estimate_json parent,
      rr_status = ''waiting_confirmation'', rr_error_json = None, rr_started_at = None,
      rr_ended_at = None, rr_created_at = now, rr_parent_run_id = Some (rr_id parent),
      rr_attempt = rr_attempt parent + 1, rr_force_rerun = force_rerun\<rparr>"

definition estimates_of :: "string \<Rightarrow> db \<Rightarrow> cost_ledger_record list" where
  "estimates_of run_id db = sort_key (\<lambda>c. (cl_created_at c, cl_id c))
     (filter (\<lambda>c. cl_run_id c = Some run_id \<and> cl_estimated c) (db_ledger db))"

definition estimate_copy :: "string \<Rightarrow> cost_ledger_record \<Rightarrow> new_cost_ledger" where
  "estimate_copy child_id c =
     \<lparr>nc_workspace_id = cl_workspace_id c, nc_run_id = Some child_id, nc_run_step_id = None,
      nc_provider = cl_provider c, nc_amount = cl_amount c, nc_currency = cl_currency c,
      nc_estimated = True\<rparr>"

definition copy_estimates ::
  "(nat \<Rightarrow> string) \<Rightarrow> timestamp \<Rightarrow> string \<Rightarrow> cost_ledger_record list \<Rightarrow> db \<Rightarrow> store_error + db" where
  "copy_estimates cost_ids now child_id cs db =
     fold_res (\<lambda>(k, c) db.
         let input = estimate_copy child_id c in
         res_bind (sql_insert (\<not> row_exists (\<lambda>x. cl_id x = cost_ids k) (db_ledger db) \<and>
             amount_check (nc_amount input) \<and> ledger_foreign input db)
           (ledger_row (cost_ids k) now None input) (db_ledger db)) (\<lambda>t. Inr (db\<lparr>db_ledger := t\<rparr>)))
       (zip [0..<length cs] cs) db"

definition copy_estimates_once ::
  "string \<Rightarrow> (nat \<Rightarrow> string) \<Rightarrow> timestamp \<Rightarrow> string \<Rightarrow> cost_ledger_record list \<Rightarrow> db \<Rightarrow> store_error + db" where
  "copy_estimates_once key cost_ids now child_id cs db =
     fold_res (\<lambda>(k, c). insert_ledger_once (cost_ids k) now (key @ '':'' @ child_id @ '':'' @ cl_id c)
         (estimate_copy child_id c))
       (zip [0..<length cs] cs) db"

definition create_retry_run ::
  "string \<Rightarrow> (nat \<Rightarrow> string) \<Rightarrow> timestamp \<Rightarrow> string \<Rightarrow> bool \<Rightarrow> db \<Rightarrow> run_record store_result" where
  "create_retry_run new_id cost_ids now parent_run_id force_rerun db =
     res_bind (store_run parent_run_id db) (\<lambda>parent.
     res_bind (insert_run (retry_row new_id now force_rerun parent) db) (\<lambda>db.
     res_bind (copy_estimates cost_ids now new_id (estimates_of (rr_id parent) db) db)
       (returning (store_run new_id))))"

definition insert_reject_retry :: "timestamp \<Rightarrow> string \<Rightarrow> string \<Rightarrow> db \<Rightarrow> store_error + db" where
  "insert_reject_retry now parent_run_id child_id db =
     res_bind (sql_insert
         (\<not> row_exists (\<lambda>j. jr_parent_run_id j = parent_run_id) (db_reject_retries db) \<and>
          \<not> row_exists (\<lambda>j. jr_child_run_id j = child_id) (db_reject_retries db) \<and>
          \<not> row_exists (\<lambda>j. jr_retry_key j = ''reject:'' @ parent_run_id) (db_reject_retries db) \<and>
          row_exists (\<lambda>r. rr_id r = parent_run_id) (db_runs db) \<and>
          row_exists (\<lambda>r. rr_id r = child_id) (db_runs db))
       \<lparr>jr_parent_run_id = parent_run_id, jr_child_run_id = child_id,
        jr_retry_key = ''reject:'' @ parent_run_id, jr_created_at = now\<rparr> (db_reject_retries db))
     (\<lambda>t. Inr (db\<lparr>db_reject_retries := t\<rparr>))"

definition create_reject_retry_run_once ::
  "string \<Rightarrow> (nat \<Rightarrow> string) \<Rightarrow> timestamp \<Rightarrow> string \<Rightarrow> db \<Rightarrow> (run_record \<times> bool) store_result" where
  "create_reject_retry_run_once new_id cost_ids now parent_run_id db =
     (case fetch_optional (\<lambda>j. jr_parent_run_id j = parent_run_id) (db_reject_retries db) of
        Some j \<Rightarrow> res_bind (store_run (jr_child_run_id j) db) (\<lambda>child. Inr (db, (child, False)))
      | None \<Rightarrow>
          res_bind (store_run parent_run_id db) (\<lambda>parent.
          res_bind (insert_run (retry_row new_id now True parent) db) (\<lambda>db.
          res_bind (copy_estimates_once ''reject-retry-estimate'' cost_ids now new_id
                      (estimates_of (rr_id parent) db) db) (\<lambda>db.
          res_bind (insert_reject_retry now parent_run_id new_id db) (\<lambda>db.
          res_bind (store_run new_id db) (\<lambda>child. Inr (db, (child, True))))))))"

section \<open>Failure continuations\<close>

definition failure_continuation :: "string \<Rightarrow> db \<Rightarrow> run_failure_continuation_record option" where
  "failure_continuation run_id db = fetch_optional (\<lambda>c. fc_run_id c = run_id) (db_continuations db)"

definition pending_failure_continuations :: "db \<Rightarrow> run_failure_continuation_record list" where
  "pending_failure_continuations db = sort_key (\<lambda>c. (fc_created_at c, fc_run_id c))
     (filter (\<lambda>c. fc_state c = ''pending'' \<or> fc_state c = ''retry_created'') (db_continuations db))"

text \<open>The UNIQUE and foreign key constraints of \<open>child_run_id\<close>.\<close>

definition child_check :: "db \<Rightarrow> run_failure_continuation_record \<Rightarrow> bool" where
  "child_check db c \<longleftrightarrow> (case fc_child_run_id c of None \<Rightarrow> True | Some child \<Rightarrow>
     row_exists (\<lambda>r. rr_id r = child) (db_runs db) \<and>
     \<not> row_exists (\<lambda>x. fc_run_id x \<noteq> fc_run_id c \<and> fc_child_run_id x = Some child) (db_continuations db))"

definition mark_failure_retry_created ::
  "timestamp \<Rightarrow> string \<Rightarrow> string \<Rightarrow> db \<Rightarrow> run_failure_continuation_record option store_result" where
  "mark_failure_retry_created now run_id child_run_id db =
     res_bind (sql_update (child_check db)
       (\<lambda>c. fc_run_id c = run_id \<and> fc_state c = ''pending'')
       (\<lambda>c. c\<lparr>fc_state := ''retry_created'', fc_child_run_id := Some child_run_id,
          fc_updated_at := now\<rparr>) (db_continuations db)) (\<lambda>(t, n).
     let db = db\<lparr>db_continuations := t\<rparr> in Inr (db, failure_continuation run_id db))"

definition complete_failure_continuation ::
  "timestamp \<Rightarrow> string \<Rightarrow> bool \<Rightarrow> db \<Rightarrow> run_failure_continuation_record option store_result" where
  "complete_failure_continuation now run_id exhausted db =
     res_bind (sql_update (\<lambda>_. True)
       (\<lambda>c. fc_run_id c = run_id \<and> (fc_state c = ''pending'' \<or> fc_state c = ''retry_created''))
       (\<lambda>c. c\<lparr>fc_state := (if exhausted then ''exhausted'' else ''completed''), fc_updated_at := now\<rparr>)
       (db_continuations db)) (\<lambda>(t, n).
     if n = 0 then Inr (db, None)
     else let db = db\<lparr>db_continuations := t\<rparr> in Inr (db, failure_continuation run_id db))"

definition insert_run_or_ignore :: "run_record \<Rightarrow> db \<Rightarrow> store_error + db" where
  "insert_run_or_ignore r db = res_bind
     (insert_or_ignore (\<not> row_exists (\<lambda>x. rr_id x = rr_id r) (db_runs db) \<and>
        trigger_check (rr_trigger r) \<and> run_status_check (rr_status r))
       (rr_workspace_id r \<in> set (db_workspaces db) \<and>
        row_exists (\<lambda>v. vr_id v = rr_version_id r) (db_versions db) \<and>
        foreign rr_id (rr_parent_run_id r) (db_runs db)) r (db_runs db))
     (\<lambda>t. Inr (db\<lparr>db_runs := t\<rparr>))"

definition create_retry_run_once ::
  "string \<Rightarrow> (nat \<Rightarrow> string) \<Rightarrow> timestamp \<Rightarrow> string \<Rightarrow> bool \<Rightarrow> db \<Rightarrow> run_record store_result" where
  "create_retry_run_once new_id cost_ids now parent_run_id force_rerun db =
     (let op = ''create_retry_run_once'' in
      case failure_continuation parent_run_id db of
        None \<Rightarrow> Inl (SE_RecoveryInvariant op
          (''run '' @ bq parent_run_id @ '' has no durable continuation''))
      | Some continuation \<Rightarrow>
     (case fc_child_run_id continuation of
        Some child_run_id \<Rightarrow> returning (store_run child_run_id) db
      | None \<Rightarrow>
          if fc_state continuation \<noteq> ''pending''
          then Inl (SE_RecoveryInvariant op
            (''run '' @ bq parent_run_id @ '' continuation is '' @ bq (fc_state continuation) @
             '' without a child''))
          else
          res_bind (store_run parent_run_id db) (\<lambda>parent.
          res_bind (insert_run_or_ignore (retry_row new_id now force_rerun parent) db) (\<lambda>db.
          res_bind (copy_estimates_once ''retry-estimate'' cost_ids now new_id
                      (estimates_of (rr_id parent) db) db) (\<lambda>db.
          res_bind (sql_update (child_check db)
            (\<lambda>c. fc_run_id c = parent_run_id \<and> fc_state c = ''pending'' \<and> fc_child_run_id c = None)
            (\<lambda>c. c\<lparr>fc_state := ''retry_created'', fc_child_run_id := Some new_id, fc_updated_at := now\<rparr>)
            (db_continuations db)) (\<lambda>(t, n).
          if n \<noteq> 1
          then Inl (SE_RecoveryInvariant op (''run '' @ bq parent_run_id @ '' retry linkage lost''))
          else returning (store_run new_id) (db\<lparr>db_continuations := t\<rparr>)))))))"

section \<open>Terminalization\<close>

definition lease_live :: "timestamp \<Rightarrow> timestamp option \<Rightarrow> bool" where
  "lease_live now lease = (case lease of None \<Rightarrow> False | Some t \<Rightarrow> now < t)"

definition lease_expired :: "timestamp \<Rightarrow> timestamp option \<Rightarrow> bool" where
  "lease_expired now lease = (case lease of None \<Rightarrow> False | Some t \<Rightarrow> t \<le> now)"

definition renew_run_terminalization_lease ::
  "timestamp \<Rightarrow> string \<Rightarrow> string \<Rightarrow> int \<Rightarrow> db \<Rightarrow> bool store_result" where
  "renew_run_terminalization_lease now run_id owner_id lease_seconds db =
     (if lease_seconds \<le> 0
      then Inl (SE_RecoveryInvariant ''renew_run_terminalization_lease'' ''lease must be positive'')
      else res_bind (sql_update (\<lambda>_. True)
        (\<lambda>w. tz_run_id w = run_id \<and> tz_state w = ''settling'' \<and> tz_owner_id w = Some owner_id \<and>
           lease_live now (tz_lease_expires_at w))
        (\<lambda>w. w\<lparr>tz_lease_expires_at := Some (now + lease_seconds), tz_updated_at := now\<rparr>)
        (db_terminalizations db)) (\<lambda>(t, n). Inr (db\<lparr>db_terminalizations := t\<rparr>, n = 1)))"

definition claim_run_terminalization ::
  "timestamp \<Rightarrow> string \<Rightarrow> string \<Rightarrow> int \<Rightarrow> db \<Rightarrow> bool store_result" where
  "claim_run_terminalization now run_id owner_id lease_seconds db =
     (if lease_seconds \<le> 0
      then Inl (SE_RecoveryInvariant ''claim_run_terminalization'' ''lease must be positive'')
      else res_bind (sql_update (\<lambda>_. True)
        (\<lambda>w. tz_run_id w = run_id \<and> tz_state w = ''settling'' \<and>
           (tz_owner_id w = None \<or> tz_owner_id w = Some owner_id \<or>
            lease_expired now (tz_lease_expires_at w)))
        (\<lambda>w. w\<lparr>tz_owner_id := Some owner_id, tz_lease_expires_at := Some (now + lease_seconds),
           tz_updated_at := now\<rparr>)
        (db_terminalizations db)) (\<lambda>(t, n). Inr (db\<lparr>db_terminalizations := t\<rparr>, n = 1)))"

text \<open>The INSERT with ON CONFLICT of \<open>request_run_terminalization\<close> and
  \<open>finalize_provider_task_failure\<close>: an interruption overrides a failure, and a completed
  work item is left alone.\<close>

definition merge_terminalization ::
  "timestamp \<Rightarrow> string \<Rightarrow> string option \<Rightarrow> run_terminalization_record \<Rightarrow> run_terminalization_record" where
  "merge_terminalization now desired_status error_json w =
     w\<lparr>tz_desired_status := (if desired_status = ''interrupted'' then ''interrupted''
                            else tz_desired_status w),
       tz_error_json := (if desired_status = ''interrupted'' \<or> tz_desired_status w = ''interrupted''
                         then None
                         else case tz_error_json w of None \<Rightarrow> error_json | Some e \<Rightarrow> Some e),
       tz_updated_at := now\<rparr>"

definition upsert_terminalization ::
  "timestamp \<Rightarrow> string \<Rightarrow> string \<Rightarrow> string option \<Rightarrow> db \<Rightarrow> store_error + db" where
  "upsert_terminalization now run_id desired_status error_json db =
     (if row_exists (\<lambda>w. tz_run_id w = run_id) (db_terminalizations db)
      then res_bind (sql_update (\<lambda>w. tz_desired_status w \<in> {''failed'', ''interrupted''})
             (\<lambda>w. tz_run_id w = run_id \<and> tz_state w = ''settling'')
             (merge_terminalization now desired_status error_json) (db_terminalizations db))
             (\<lambda>(t, n). Inr (db\<lparr>db_terminalizations := t\<rparr>))
      else res_bind (sql_insert (desired_status \<in> {''failed'', ''interrupted''} \<and>
               row_exists (\<lambda>r. rr_id r = run_id) (db_runs db))
             \<lparr>tz_run_id = run_id, tz_desired_status = desired_status, tz_state = ''settling'',
              tz_error_json = error_json, tz_owner_id = None, tz_lease_expires_at = None,
              tz_created_at = now, tz_updated_at = now, tz_completed_at = None\<rparr>
             (db_terminalizations db)) (\<lambda>t. Inr (db\<lparr>db_terminalizations := t\<rparr>)))"

definition run_terminalization :: "string \<Rightarrow> db \<Rightarrow> run_terminalization_record option" where
  "run_terminalization run_id db = fetch_optional (\<lambda>w. tz_run_id w = run_id) (db_terminalizations db)"

definition request_run_terminalization ::
  "timestamp \<Rightarrow> string \<Rightarrow> string \<Rightarrow> string option \<Rightarrow> db \<Rightarrow> run_terminalization_record store_result" where
  "request_run_terminalization now run_id desired_status error_json db =
     (if desired_status \<notin> {''failed'', ''interrupted''}
      then Inl (SE_RecoveryInvariant ''request_run_terminalization''
        (''unsupported desired status '' @ bq desired_status))
      else res_bind (upsert_terminalization now run_id desired_status error_json db)
        (returning (\<lambda>db. fetch_one (\<lambda>w. tz_run_id w = run_id) (db_terminalizations db))))"

definition pending_run_terminalizations :: "db \<Rightarrow> run_terminalization_record list" where
  "pending_run_terminalizations db = sort_key (\<lambda>w. (tz_created_at w, tz_run_id w))
     (filter (\<lambda>w. tz_state w = ''settling'') (db_terminalizations db))"

text \<open>\<open>complete_run_terminalization\<close>: every early return rolls back.\<close>

definition open_task_state :: "string \<Rightarrow> bool" where
  "open_task_state s \<longleftrightarrow> s = ''dispatching'' \<or> s = ''active'' \<or> s = ''result_ready''"

definition insert_continuation :: "timestamp \<Rightarrow> string \<Rightarrow> db \<Rightarrow> store_error + db" where
  "insert_continuation now run_id db =
     res_bind (insert_or_ignore (\<not> row_exists (\<lambda>c. fc_run_id c = run_id) (db_continuations db) \<and>
         \<not> row_exists (\<lambda>c. fc_retry_key c = Some (''retry:'' @ run_id)) (db_continuations db))
         (row_exists (\<lambda>r. rr_id r = run_id) (db_runs db))
       \<lparr>fc_run_id = run_id, fc_state = ''pending'', fc_retry_key = Some (''retry:'' @ run_id),
        fc_child_run_id = None, fc_reason_code = None, fc_created_at = now, fc_updated_at = now\<rparr>
       (db_continuations db)) (\<lambda>t. Inr (db\<lparr>db_continuations := t\<rparr>))"

definition settle_run ::
  "string \<Rightarrow> timestamp \<Rightarrow> string \<Rightarrow> string \<Rightarrow> run_terminalization_record \<Rightarrow> db \<Rightarrow>
   run_record option store_result" where
  "settle_run new_id now run_id owner_id work db =
     res_bind (sql_update (\<lambda>s. step_state_check (rs_state s))
       (\<lambda>s. rs_run_id s = run_id \<and> (rs_state s = ''queued'' \<or> rs_state s = ''running''))
       (\<lambda>s. s\<lparr>rs_state := ''skipped'', rs_ended_at := Some now\<rparr>) (db_steps db)) (\<lambda>(steps, _).
     res_bind (sql_update (\<lambda>r. run_status_check (rr_status r))
       (\<lambda>r. rr_id r = run_id \<and> active_status (rr_status r))
       (\<lambda>r. r\<lparr>rr_status := tz_desired_status work, rr_error_json := tz_error_json work,
          rr_ended_at := Some now\<rparr>) (db_runs db)) (\<lambda>(runs, n).
     if n \<noteq> 1 then Inr (db, None)
     else
     res_bind (let db = db\<lparr>db_steps := steps, db_runs := runs\<rparr> in
       if tz_desired_status work = ''failed'' then insert_continuation now run_id db else Inr db) (\<lambda>db.
     res_bind (insert_event new_id now run_id (''run.'' @ tz_desired_status work)
       (case tz_error_json work of None \<Rightarrow> ''{}'' | Some e \<Rightarrow> e) db) (\<lambda>db.
     res_bind (sql_update (\<lambda>_. True)
       (\<lambda>w. tz_run_id w = run_id \<and> tz_state w = ''settling'' \<and> tz_owner_id w = Some owner_id)
       (\<lambda>w. w\<lparr>tz_state := ''completed'', tz_completed_at := Some now, tz_updated_at := now\<rparr>)
       (db_terminalizations db)) (\<lambda>(t, _).
     res_bind (returning (store_run run_id) (db\<lparr>db_terminalizations := t\<rparr>))
       (\<lambda>(db, r). Inr (db, Some r)))))))"

definition complete_run_terminalization ::
  "string \<Rightarrow> timestamp \<Rightarrow> string \<Rightarrow> string \<Rightarrow> db \<Rightarrow> run_record option store_result" where
  "complete_run_terminalization new_id now run_id owner_id db =
     (let owned = (\<lambda>w. tz_run_id w = run_id \<and> tz_state w = ''settling'' \<and>
            tz_owner_id w = Some owner_id \<and> lease_live now (tz_lease_expires_at w))
      in case fetch_optional owned (db_terminalizations db) of
        None \<Rightarrow> Inr (db, None)
      | Some work \<Rightarrow>
          if row_exists (\<lambda>p. pt_run_id p = run_id \<and> open_task_state (pt_state p)) (db_tasks db)
          then Inr (db, None)
          else settle_run new_id now run_id owner_id work db)"

section \<open>Recovery leases\<close>

definition run_recovery_lease :: "timestamp \<Rightarrow> string \<Rightarrow> db \<Rightarrow> run_recovery_lease_record option" where
  "run_recovery_lease now run_id db =
     fetch_optional (\<lambda>l. rl_run_id l = run_id \<and> now < rl_lease_expires_at l) (db_leases db)"

definition renew_run_recovery_lease ::
  "timestamp \<Rightarrow> string \<Rightarrow> string \<Rightarrow> int \<Rightarrow> db \<Rightarrow> bool store_result" where
  "renew_run_recovery_lease now run_id owner_id lease_seconds db =
     (if lease_seconds \<le> 0
      then Inl (SE_RecoveryInvariant ''renew_run_recovery_lease'' ''lease must be positive'')
      else res_bind (sql_update (\<lambda>_. True)
        (\<lambda>l. rl_run_id l = run_id \<and> rl_owner_id l = owner_id \<and> now < rl_lease_expires_at l)
        (\<lambda>l. l\<lparr>rl_lease_expires_at := now + lease_seconds, rl_updated_at := now\<rparr>)
        (db_leases db)) (\<lambda>(t, n). Inr (db\<lparr>db_leases := t\<rparr>, n = 1)))"

definition release_run_recovery_lease :: "string \<Rightarrow> string \<Rightarrow> db \<Rightarrow> bool store_result" where
  "release_run_recovery_lease run_id owner_id db =
     (let gone = filter (\<lambda>l. rl_run_id l = run_id \<and> rl_owner_id l = owner_id) (db_leases db)
      in Inr (db\<lparr>db_leases := filter (\<lambda>l. \<not> (rl_run_id l = run_id \<and> rl_owner_id l = owner_id))
                 (db_leases db)\<rparr>, length gone = 1))"

end
