(* ===== verification/Task_Store.thy ===== *)
theory Task_Store
  imports Recovery_Store
begin

text \<open>
  Durable provider tasks and the step finalizers: crates/store/src/provider_task_records.rs and
  step_finalizer_records.rs.  A task moves from \<open>dispatching\<close> over \<open>active\<close> to
  \<open>result_ready\<close> and into one of three terminal states.
\<close>

section \<open>Reading tasks\<close>

definition positive_duration :: "int \<Rightarrow> string \<Rightarrow> store_error + int" where
  "positive_duration seconds label =
     (if seconds \<le> 0
      then Inl (SE_RecoveryInvariant ''positive_duration'' (label @ '' must be positive''))
      else Inr seconds)"

definition provider_task :: "string \<Rightarrow> db \<Rightarrow> store_error + provider_task_record" where
  "provider_task task_id db = fetch_one (\<lambda>p. pt_id p = task_id) (db_tasks db)"

definition provider_task_for_step :: "string \<Rightarrow> db \<Rightarrow> provider_task_record option" where
  "provider_task_for_step step_id db = fetch_optional (\<lambda>p. pt_run_step_id p = step_id) (db_tasks db)"

definition provider_tasks_for_run :: "string \<Rightarrow> db \<Rightarrow> provider_task_record list" where
  "provider_tasks_for_run run_id db = sort_key (\<lambda>p. (pt_created_at p, pt_id p))
     (filter (\<lambda>p. pt_run_id p = run_id) (db_tasks db))"

definition active_provider_tasks :: "db \<Rightarrow> provider_task_record list" where
  "active_provider_tasks db = sort_key (\<lambda>p. (pt_created_at p, pt_id p))
     (filter (\<lambda>p. open_task_state (pt_state p)) (db_tasks db))"

record provider_task_timing =
  tt_dispatch_owner_live :: bool
  tt_recovery_expired :: bool
  tt_materialization_expired :: bool
  tt_materialization_due :: bool

definition timing_of :: "timestamp \<Rightarrow> provider_task_record \<Rightarrow> provider_task_timing" where
  "timing_of now p =
     \<lparr>tt_dispatch_owner_live = (pt_state p = ''dispatching'' \<and> lease_live now (pt_dispatch_lease_expires_at p)),
      tt_recovery_expired = (pt_state p = ''active'' \<and> lease_expired now (pt_recovery_deadline_at p)),
      tt_materialization_expired = (pt_state p = ''result_ready'' \<and>
         lease_expired now (pt_materialization_deadline_at p)),
      tt_materialization_due = (pt_state p = ''result_ready'' \<and>
         lease_expired now (pt_materialization_next_retry_at p))\<rparr>"

definition provider_task_timing_of :: "timestamp \<Rightarrow> string \<Rightarrow> db \<Rightarrow> store_error + provider_task_timing" where
  "provider_task_timing_of now task_id db =
     res_bind (provider_task task_id db) (\<lambda>p. Inr (timing_of now p))"

section \<open>Transitions\<close>

record new_provider_task =
  np_run_id :: string
  np_run_step_id :: string
  np_provider :: string
  np_dispatch_origin :: string
  np_recovery_scope_fingerprint :: string
  np_operation_key :: string
  np_dispatch_owner_id :: string
  np_dispatch_lease_seconds :: int
  np_dispatch_deadline_seconds :: int

definition same_task_identity :: "provider_task_record \<Rightarrow> new_provider_task \<Rightarrow> bool" where
  "same_task_identity p input \<longleftrightarrow> pt_run_id p = np_run_id input \<and> pt_provider p = np_provider input \<and>
     pt_dispatch_origin p = np_dispatch_origin input \<and>
     pt_recovery_scope_fingerprint p = np_recovery_scope_fingerprint input \<and>
     pt_operation_key p = np_operation_key input"

definition new_task_row :: "string \<Rightarrow> timestamp \<Rightarrow> int \<Rightarrow> int \<Rightarrow> new_provider_task \<Rightarrow> provider_task_record" where
  "new_task_row new_id now lease deadline input =
     \<lparr>pt_id = new_id, pt_run_id = np_run_id input, pt_run_step_id = np_run_step_id input,
      pt_provider = np_provider input, pt_dispatch_origin = np_dispatch_origin input,
      pt_recovery_scope_fingerprint = np_recovery_scope_fingerprint input,
      pt_operation_key = np_operation_key input, pt_state = ''dispatching'',
      pt_dispatch_owner_id = Some (np_dispatch_owner_id input),
      pt_dispatch_lease_expires_at = Some (now + lease),
      pt_dispatch_deadline_at = Some (now + deadline), pt_provider_task_id = None,
      pt_status_url = None, pt_result_url = None, pt_terminal_outcome = None,
      pt_result_spool_path = None, pt_result_fingerprint = None,
      pt_materialization_deadline_at = None, pt_materialization_attempts = 0,
      pt_materialization_next_retry_at = None, pt_last_error_code = None,
      pt_recovery_deadline_at = None, pt_created_at = now, pt_updated_at = now, pt_ended_at = None\<rparr>"

definition insert_or_read_provider_task ::
  "string \<Rightarrow> timestamp \<Rightarrow> new_provider_task \<Rightarrow> db \<Rightarrow> provider_task_record store_result" where
  "insert_or_read_provider_task new_id now input db =
     res_bind (positive_duration (np_dispatch_lease_seconds input) ''dispatch lease'') (\<lambda>lease.
     res_bind (positive_duration (np_dispatch_deadline_seconds input) ''dispatch deadline'') (\<lambda>deadline.
     res_bind (insert_or_ignore
         (\<not> row_exists (\<lambda>p. pt_id p = new_id \<or> pt_run_step_id p = np_run_step_id input \<or>
             pt_operation_key p = np_operation_key input) (db_tasks db))
         (row_exists (\<lambda>r. rr_id r = np_run_id input) (db_runs db) \<and>
          row_exists (\<lambda>s. rs_id s = np_run_step_id input) (db_steps db))
         (new_task_row new_id now lease deadline input) (db_tasks db)) (\<lambda>t.
     let db = db\<lparr>db_tasks := t\<rparr> in
     res_bind (ok_or (provider_task_for_step (np_run_step_id input) db)
       (SE_RecoveryInvariant ''insert_or_read_provider_task''
          (''step '' @ bq (np_run_step_id input) @ '' provider task disappeared after insert''))) (\<lambda>p.
     if \<not> same_task_identity p input
     then Inl (SE_RecoveryInvariant ''insert_or_read_provider_task''
       (''step '' @ bq (np_run_step_id input) @
        '' already has a provider task with different immutable identity''))
     else Inr (db, p)))))"

definition renew_dispatch_owner :: "timestamp \<Rightarrow> string \<Rightarrow> string \<Rightarrow> int \<Rightarrow> db \<Rightarrow> bool store_result" where
  "renew_dispatch_owner now task_id owner_id lease_seconds db =
     res_bind (positive_duration lease_seconds ''dispatch lease'') (\<lambda>lease.
     res_bind (sql_update (\<lambda>_. True)
       (\<lambda>p. pt_id p = task_id \<and> pt_state p = ''dispatching'' \<and> pt_dispatch_owner_id p = Some owner_id \<and>
          lease_live now (pt_dispatch_deadline_at p))
       (\<lambda>p. p\<lparr>pt_dispatch_lease_expires_at := Some (now + lease), pt_updated_at := now\<rparr>)
       (db_tasks db)) (\<lambda>(t, n). Inr (db\<lparr>db_tasks := t\<rparr>, n = 1)))"

record provider_task_handle_update =
  th_task_id :: string
  th_dispatch_owner_id :: string
  th_provider_task_id :: string
  th_status_url :: "string option"
  th_result_url :: "string option"
  th_recovery_deadline_seconds :: int

definition task_after :: "string \<Rightarrow> db \<Rightarrow> nat \<Rightarrow> db \<Rightarrow> provider_task_record option store_result" where
  "task_after task_id old n new =
     (if n = 0 then Inr (old, None)
      else res_bind (returning (provider_task task_id) new) (\<lambda>(db, p). Inr (db, Some p)))"

definition activate_provider_task ::
  "timestamp \<Rightarrow> provider_task_handle_update \<Rightarrow> db \<Rightarrow> provider_task_record option store_result" where
  "activate_provider_task now input db =
     res_bind (positive_duration (th_recovery_deadline_seconds input) ''recovery deadline'') (\<lambda>deadline.
     res_bind (sql_update (\<lambda>_. True)
       (\<lambda>p. pt_id p = th_task_id input \<and> pt_state p = ''dispatching'' \<and>
          pt_dispatch_owner_id p = Some (th_dispatch_owner_id input))
       (\<lambda>p. p\<lparr>pt_state := ''active'', pt_provider_task_id := Some (th_provider_task_id input),
          pt_status_url := th_status_url input, pt_result_url := th_result_url input,
          pt_recovery_deadline_at := Some (now + deadline), pt_dispatch_lease_expires_at := None,
          pt_updated_at := now\<rparr>) (db_tasks db)) (\<lambda>(t, n).
     task_after (th_task_id input) db n (db\<lparr>db_tasks := t\<rparr>)))"

record provider_task_result =
  tr_task_id :: string
  tr_dispatch_owner_id :: "string option"
  tr_terminal_outcome :: string
  tr_result_spool_path :: string
  tr_result_fingerprint :: string
  tr_materialization_deadline_seconds :: int
  tr_workspace_id :: string
  tr_provider :: string
  tr_amount :: f64
  tr_currency :: string
  tr_estimated :: bool

definition actual_cost :: "provider_task_record \<Rightarrow> provider_task_result \<Rightarrow> new_cost_ledger" where
  "actual_cost p input =
     \<lparr>nc_workspace_id = tr_workspace_id input, nc_run_id = Some (pt_run_id p),
      nc_run_step_id = Some (pt_run_step_id p), nc_provider = tr_provider input,
      nc_amount = tr_amount input, nc_currency = tr_currency input, nc_estimated = tr_estimated input\<rparr>"

definition insert_actual_cost_once ::
  "string \<Rightarrow> timestamp \<Rightarrow> provider_task_record \<Rightarrow> provider_task_result \<Rightarrow> db \<Rightarrow> store_error + db" where
  "insert_actual_cost_once new_id now p input db =
     (let operation_key = ''actual:'' @ pt_run_step_id p in
      res_bind (insert_ledger_once new_id now operation_key (actual_cost p input) db) (\<lambda>db.
      res_bind (fetch_one (\<lambda>c. cl_operation_key c = Some operation_key) (db_ledger db)) (\<lambda>c.
      if same_cost c (actual_cost p input) then Inr db
      else Inl (SE_RecoveryInvariant ''insert_actual_cost_once''
        (''actual cost operation '' @ bq operation_key @ '' was reused with different data'')))))"

definition mark_provider_task_result_ready ::
  "string \<Rightarrow> timestamp \<Rightarrow> provider_task_result \<Rightarrow> db \<Rightarrow> provider_task_record option store_result" where
  "mark_provider_task_result_ready new_id now input db =
     (if \<not> fp_is_finite (tr_amount input) \<or> fp_lt (tr_amount input) (Fin 0)
      then Inl (SE_RecoveryInvariant ''mark_provider_task_result_ready''
        ''actual cost must be finite and non-negative'')
      else
      res_bind (positive_duration (tr_materialization_deadline_seconds input) ''materialization deadline'')
        (\<lambda>deadline.
      res_bind (sql_update (\<lambda>_. True)
        (\<lambda>p. pt_id p = tr_task_id input \<and>
           (pt_state p = ''active'' \<or>
            pt_state p = ''dispatching'' \<and> tr_dispatch_owner_id input \<noteq> None \<and>
              pt_dispatch_owner_id p = tr_dispatch_owner_id input))
        (\<lambda>p. p\<lparr>pt_state := ''result_ready'', pt_terminal_outcome := Some (tr_terminal_outcome input),
           pt_result_spool_path := Some (tr_result_spool_path input),
           pt_result_fingerprint := Some (tr_result_fingerprint input),
           pt_materialization_deadline_at := Some (now + deadline), pt_materialization_attempts := 0,
           pt_materialization_next_retry_at := Some now, pt_dispatch_lease_expires_at := None,
           pt_updated_at := now\<rparr>) (db_tasks db)) (\<lambda>(t, n).
      if n \<noteq> 1 then Inr (db, None)
      else
      res_bind (provider_task (tr_task_id input) (db\<lparr>db_tasks := t\<rparr>)) (\<lambda>p.
      res_bind (insert_actual_cost_once new_id now p input (db\<lparr>db_tasks := t\<rparr>)) (\<lambda>db.
      res_bind (provider_task (tr_task_id input) db) (\<lambda>p. Inr (db, Some p)))))))"

definition record_materialization_failure ::
  "timestamp \<Rightarrow> string \<Rightarrow> int \<Rightarrow> string \<Rightarrow> db \<Rightarrow> provider_task_record option store_result" where
  "record_materialization_failure now task_id retry_after_seconds error_code db =
     res_bind (positive_duration retry_after_seconds ''materialization retry'') (\<lambda>retry.
     res_bind (sql_update (\<lambda>_. True)
       (\<lambda>p. pt_id p = task_id \<and> pt_state p = ''result_ready'' \<and>
          lease_live now (pt_materialization_deadline_at p))
       (\<lambda>p. p\<lparr>pt_materialization_attempts := pt_materialization_attempts p + 1,
          pt_materialization_next_retry_at := Some (now + retry), pt_last_error_code := Some error_code,
          pt_updated_at := now\<rparr>) (db_tasks db)) (\<lambda>(t, n).
     task_after task_id db n (db\<lparr>db_tasks := t\<rparr>)))"

definition transition_provider_task ::
  "timestamp \<Rightarrow> string \<Rightarrow> string \<Rightarrow> string \<Rightarrow> string option \<Rightarrow> db \<Rightarrow> provider_task_record option store_result" where
  "transition_provider_task now task_id expected_state next_state error_code db =
     res_bind (sql_update (\<lambda>_. True) (\<lambda>p. pt_id p = task_id \<and> pt_state p = expected_state)
       (\<lambda>p. p\<lparr>pt_state := next_state, pt_last_error_code := error_code, pt_ended_at := Some now,
          pt_updated_at := now\<rparr>) (db_tasks db)) (\<lambda>(t, n).
     task_after task_id db n (db\<lparr>db_tasks := t\<rparr>))"

definition complete_provider_task ::
  "timestamp \<Rightarrow> string \<Rightarrow> string \<Rightarrow> string option \<Rightarrow> db \<Rightarrow> provider_task_record option store_result" where
  "complete_provider_task now task_id expected_state error_code =
     transition_provider_task now task_id expected_state ''completed'' error_code"

definition cancel_provider_task ::
  "timestamp \<Rightarrow> string \<Rightarrow> string option \<Rightarrow> db \<Rightarrow> provider_task_record option store_result" where
  "cancel_provider_task now task_id error_code =
     transition_provider_task now task_id ''active'' ''cancelled'' error_code"

definition abandon_provider_task ::
  "timestamp \<Rightarrow> string \<Rightarrow> string \<Rightarrow> string \<Rightarrow> db \<Rightarrow> provider_task_record option store_result" where
  "abandon_provider_task now task_id expected_state error_code db =
     (if expected_state = ''result_ready''
      then Inl (SE_RecoveryInvariant ''abandon_provider_task''
        ''result_ready tasks are provider-completed'')
      else transition_provider_task now task_id expected_state ''abandoned'' (Some error_code) db)"

section \<open>Step outputs\<close>

definition insert_output :: "timestamp \<Rightarrow> string \<Rightarrow> string \<Rightarrow> string \<Rightarrow> db \<Rightarrow> store_error + db" where
  "insert_output now step_id port artifact_id db =
     res_bind (insert_or_ignore
         (\<not> row_exists (\<lambda>x. so_run_step_id x = step_id \<and> so_port x = port) (db_outputs db) \<and>
          \<not> row_exists (\<lambda>x. so_artifact_id x = artifact_id) (db_outputs db))
         (row_exists (\<lambda>s. rs_id s = step_id) (db_steps db) \<and>
          row_exists (\<lambda>a. ar_id a = artifact_id) (db_artifacts db))
       \<lparr>so_run_step_id = step_id, so_port = port, so_artifact_id = artifact_id, so_created_at = now\<rparr>
       (db_outputs db)) (\<lambda>t. Inr (db\<lparr>db_outputs := t\<rparr>))"

definition output_of :: "string \<Rightarrow> string \<Rightarrow> db \<Rightarrow> store_error + run_step_output_record" where
  "output_of step_id port db =
     fetch_one (\<lambda>x. so_run_step_id x = step_id \<and> so_port x = port) (db_outputs db)"

definition link_output :: "string \<Rightarrow> timestamp \<Rightarrow> string \<Rightarrow> string \<Rightarrow> string \<Rightarrow> db \<Rightarrow> store_error + db" where
  "link_output op now step_id port artifact_id db =
     res_bind (insert_output now step_id port artifact_id db) (\<lambda>db.
     res_bind (output_of step_id port db) (\<lambda>x.
     if so_artifact_id x \<noteq> artifact_id
     then Inl (SE_RecoveryInvariant op
       (''step '' @ bq step_id @ '' port '' @ bq port @ '' already maps to another artifact''))
     else Inr db))"

definition link_run_step_output ::
  "timestamp \<Rightarrow> string \<Rightarrow> string \<Rightarrow> string \<Rightarrow> db \<Rightarrow> run_step_output_record store_result" where
  "link_run_step_output now step_id port artifact_id db =
     res_bind (link_output ''link_run_step_output'' now step_id port artifact_id db)
       (returning (output_of step_id port))"

text \<open>\<open>ORDER BY step.rowid, output.port\<close>.\<close>

definition run_step_outputs :: "string \<Rightarrow> db \<Rightarrow> run_step_output_record list" where
  "run_step_outputs run_id db =
     concat (map (\<lambda>s. sort_key so_port (filter (\<lambda>x. so_run_step_id x = rs_id s) (db_outputs db)))
       (run_steps run_id db))"

section \<open>Recovery leases and execution intents\<close>

definition claim_run_recovery_lease ::
  "timestamp \<Rightarrow> string \<Rightarrow> string \<Rightarrow> int \<Rightarrow> db \<Rightarrow> run_recovery_lease_record option store_result" where
  "claim_run_recovery_lease now run_id owner_id lease_seconds db =
     res_bind (positive_duration lease_seconds ''run recovery lease'') (\<lambda>lease.
     let active = row_exists (\<lambda>r. rr_id r = run_id \<and> active_status (rr_status r)) (db_runs db);
         held = row_exists (\<lambda>l. rl_run_id l = run_id) (db_leases db);
         leases = (if \<not> active then db_leases db
           else if held
           then map (\<lambda>l. if rl_run_id l = run_id \<and> (rl_owner_id l = owner_id \<or> rl_lease_expires_at l \<le> now)
                  then l\<lparr>rl_owner_id := owner_id, rl_lease_expires_at := now + lease, rl_updated_at := now\<rparr>
                  else l) (db_leases db)
           else db_leases db @ [\<lparr>rl_run_id = run_id, rl_owner_id = owner_id,
                  rl_lease_expires_at = now + lease, rl_updated_at = now\<rparr>])
     in Inr (db\<lparr>db_leases := leases\<rparr>,
          fetch_optional (\<lambda>l. rl_run_id l = run_id \<and> rl_owner_id l = owner_id \<and>
            now < rl_lease_expires_at l) leases))"

definition run_execution_intent :: "string \<Rightarrow> db \<Rightarrow> run_execution_intent_record option" where
  "run_execution_intent run_id db = fetch_optional (\<lambda>i. ei_run_id i = run_id) (db_intents db)"

definition create_or_read_execution_intent ::
  "timestamp \<Rightarrow> string \<Rightarrow> string \<Rightarrow> string \<Rightarrow> string \<Rightarrow> db \<Rightarrow> run_execution_intent_record store_result" where
  "create_or_read_execution_intent now run_id plan_fingerprint estimate_fingerprint cost_decision db =
     res_bind (insert_or_ignore (\<not> row_exists (\<lambda>i. ei_run_id i = run_id) (db_intents db))
         (row_exists (\<lambda>r. rr_id r = run_id) (db_runs db))
       \<lparr>ei_run_id = run_id, ei_plan_fingerprint = plan_fingerprint,
        ei_estimate_fingerprint = estimate_fingerprint, ei_cost_decision = cost_decision,
        ei_created_at = now\<rparr> (db_intents db)) (\<lambda>t.
     res_bind (fetch_one (\<lambda>i. ei_run_id i = run_id) t) (\<lambda>i.
     if ei_plan_fingerprint i \<noteq> plan_fingerprint \<or> ei_estimate_fingerprint i \<noteq> estimate_fingerprint \<or>
        ei_cost_decision i \<noteq> cost_decision
     then Inl (SE_RecoveryInvariant ''create_or_read_execution_intent''
       (''run '' @ bq run_id @ '' execution intent changed''))
     else Inr (db\<lparr>db_intents := t\<rparr>, i)))"

section \<open>Step finalizers\<close>

definition task_delivered :: "string option \<Rightarrow> db \<Rightarrow> store_error + bool" where
  "task_delivered task_id db = (case task_id of None \<Rightarrow> Inr True | Some t \<Rightarrow>
     res_bind (provider_task t db) (\<lambda>p.
       Inr (pt_state p = ''result_ready'' \<or> pt_state p = ''completed'')))"

definition link_outputs :: "timestamp \<Rightarrow> string \<Rightarrow> (string \<times> string) list \<Rightarrow> db \<Rightarrow> store_error + db" where
  "link_outputs now step_id =
     fold_res (\<lambda>(port, artifact_id). link_output ''finalize_run_step_success'' now step_id port artifact_id)"

definition succeed_step ::
  "timestamp \<Rightarrow> string \<Rightarrow> string option \<Rightarrow> db \<Rightarrow> store_error + run_step_record list \<times> nat" where
  "succeed_step now step_id cost_actual_json db =
     sql_update (\<lambda>s. step_state_check (rs_state s))
       (\<lambda>s. rs_id s = step_id \<and>
          (rs_state s = ''queued'' \<or> rs_state s = ''running'' \<or> rs_state s = ''succeeded''))
       (\<lambda>s. s\<lparr>rs_state := ''succeeded'', rs_progress := Some (Fin 1),
          rs_cost_actual_json := cost_actual_json, rs_error_json := None,
          rs_started_at := (if rs_started_at s = None then Some now else rs_started_at s),
          rs_ended_at := Some now\<rparr>) (db_steps db)"

definition complete_delivered_task ::
  "timestamp \<Rightarrow> string option \<Rightarrow> db \<Rightarrow> store_error + provider_task_record list \<times> nat" where
  "complete_delivered_task now task_id db = (case task_id of None \<Rightarrow> Inr (db_tasks db, 0) | Some t \<Rightarrow>
     sql_update (\<lambda>_. True) (\<lambda>p. pt_id p = t \<and> pt_state p = ''result_ready'')
       (\<lambda>p. p\<lparr>pt_state := ''completed'', pt_dispatch_owner_id := None,
          pt_dispatch_lease_expires_at := None,
          pt_ended_at := (if pt_ended_at p = None then Some now else pt_ended_at p),
          pt_updated_at := now\<rparr>) (db_tasks db))"

definition finalize_run_step_success ::
  "timestamp \<Rightarrow> string \<Rightarrow> string option \<Rightarrow> string option \<Rightarrow> (string \<times> string) list \<Rightarrow> db \<Rightarrow> bool store_result" where
  "finalize_run_step_success now step_id task_id cost_actual_json outputs db =
     res_bind (task_delivered task_id db) (\<lambda>ready.
     if \<not> ready then Inr (db, False)
     else
     res_bind (link_outputs now step_id outputs db) (\<lambda>linked.
     res_bind (succeed_step now step_id cost_actual_json linked) (\<lambda>(steps, n).
     if n \<noteq> 1 then Inr (db, False)
     else
     res_bind (complete_delivered_task now task_id linked) (\<lambda>(tasks, _).
     Inr (linked\<lparr>db_steps := steps, db_tasks := tasks\<rparr>, True)))))"

record provider_task_failure_finalization =
  ff_provider_task_id :: string
  ff_expected_task_state :: string
  ff_terminal_task_state :: string
  ff_error_code :: string
  ff_desired_run_status :: string
  ff_error_json :: "string option"
  ff_required_expired_foreign_owner :: "string option"

definition owner_guard :: "timestamp \<Rightarrow> string option \<Rightarrow> provider_task_record \<Rightarrow> bool" where
  "owner_guard now required p = (case required of None \<Rightarrow> True | Some o' \<Rightarrow>
     pt_dispatch_owner_id p \<noteq> None \<and> pt_dispatch_owner_id p \<noteq> Some o' \<and>
     lease_expired now (pt_dispatch_lease_expires_at p))"

definition fail_task :: "timestamp \<Rightarrow> provider_task_failure_finalization \<Rightarrow> provider_task_record \<Rightarrow> db \<Rightarrow>
   store_error + db option" where
  "fail_task now input p db =
     (if pt_state p \<noteq> ff_terminal_task_state input
      then if pt_state p \<noteq> ff_expected_task_state input then Inr None
        else res_bind (sql_update (\<lambda>_. True)
          (\<lambda>q. pt_id q = ff_provider_task_id input \<and> pt_state q = ff_expected_task_state input)
          (\<lambda>q. q\<lparr>pt_state := ff_terminal_task_state input, pt_last_error_code := Some (ff_error_code input),
             pt_dispatch_owner_id := None, pt_dispatch_lease_expires_at := None,
             pt_ended_at := Some now, pt_updated_at := now\<rparr>) (db_tasks db)) (\<lambda>(t, n).
          Inr (if n \<noteq> 1 then None else Some (db\<lparr>db_tasks := t\<rparr>)))
      else if pt_last_error_code p \<noteq> Some (ff_error_code input) then Inr None
      else Inr (Some db))"

definition fail_step :: "timestamp \<Rightarrow> string \<Rightarrow> string option \<Rightarrow> db \<Rightarrow> store_error + run_step_record list \<times> nat" where
  "fail_step now step_id error_json db =
     sql_update (\<lambda>s. step_state_check (rs_state s))
       (\<lambda>s. rs_id s = step_id \<and>
          (rs_state s = ''queued'' \<or> rs_state s = ''running'' \<or> rs_state s = ''failed''))
       (\<lambda>s. s\<lparr>rs_state := ''failed'', rs_progress := Some (Fin 1), rs_error_json := error_json,
          rs_started_at := (if rs_started_at s = None then Some now else rs_started_at s),
          rs_ended_at := Some now\<rparr>) (db_steps db)"

definition finalize_provider_task_failure ::
  "timestamp \<Rightarrow> provider_task_failure_finalization \<Rightarrow> db \<Rightarrow> bool store_result" where
  "finalize_provider_task_failure now input db =
     (if ff_terminal_task_state input \<notin> {''completed'', ''cancelled'', ''abandoned''} \<or>
         ff_desired_run_status input \<notin> {''failed'', ''interrupted''}
      then Inl (SE_RecoveryInvariant ''finalize_provider_task_failure''
        ''unsupported provider or run terminal state'')
      else
      res_bind (provider_task (ff_provider_task_id input) db) (\<lambda>p.
      if \<not> owner_guard now (ff_required_expired_foreign_owner input) p then Inr (db, False)
      else
      res_bind (fail_task now input p db) (\<lambda>failed.
      case failed of
        None \<Rightarrow> Inr (db, False)
      | Some db' \<Rightarrow>
          res_bind (fail_step now (pt_run_step_id p) (ff_error_json input) db') (\<lambda>(steps, n).
          if n \<noteq> 1 then Inr (db, False)
          else
          res_bind (upsert_terminalization now (pt_run_id p) (ff_desired_run_status input)
              (ff_error_json input) (db'\<lparr>db_steps := steps\<rparr>)) (\<lambda>db''. Inr (db'', True))))))"

end
