(* ===== verification/Row_Table.thy ===== *)
theory Row_Table
  imports Transition Task_Store
begin

text \<open>
  The contract of the other tables, stated once as a locale: rows are appended with a new key and
  rewritten by changes that a transitive relation describes, and never deleted.  The lemmas say
  that keys stay unique, rows stay legal, and every row is followed by a row it may change into.
  Instances: run steps, provider tasks, failure continuations, terminalization work items, and
  the numbered events of a run.
\<close>

locale row_table = keyed_table key for key :: "'r \<Rightarrow> 'k" +
  fixes legal :: "'r \<Rightarrow> bool" and change :: "'r \<Rightarrow> 'r \<Rightarrow> bool"
  assumes change_key: "change r r' \<Longrightarrow> key r' = key r"
    and change_legal: "change r r' \<Longrightarrow> legal r \<Longrightarrow> legal r'"
    and change_refl: "change r r"
    and change_trans: "change r r' \<Longrightarrow> change r' r'' \<Longrightarrow> change r r''"
begin

inductive table_step :: "'r list \<Rightarrow> 'r list \<Rightarrow> bool" where
  inserted: "key r \<notin> key ` set t \<Longrightarrow> legal r \<Longrightarrow> table_step t (t @ [r])"
| changed: "(\<And>r. r \<in> set t \<Longrightarrow> P r \<Longrightarrow> legal r \<Longrightarrow> change r (f r)) \<Longrightarrow>
     table_step t (map (\<lambda>r. if P r then f r else r) t)"

definition table_ok :: "'r list \<Rightarrow> bool" where
  "table_ok t \<longleftrightarrow> keyed t \<and> (\<forall>r\<in>set t. legal r)"

lemma table_step_ok: "table_step t t' \<Longrightarrow> table_ok t \<Longrightarrow> table_ok t'"
proof (induction rule: table_step.induct)
  case (inserted r t)
  then show ?case by (auto simp: table_ok_def keyed_snoc)
next
  case (changed t P f)
  then have c: "change r (f r)" if "r \<in> set t" "P r" for r
    using that by (auto simp: table_ok_def)
  then have "keyed (map (\<lambda>r. if P r then f r else r) t) = keyed t"
    by (intro keyed_map) (auto dest: change_key)
  moreover have "\<forall>r\<in>set t. legal (if P r then f r else r)"
    using changed.prems c change_legal by (auto simp: table_ok_def)
  ultimately show ?case using changed.prems unfolding table_ok_def set_map ball_simps by simp
qed

lemma table_step_follows:
  "table_step t t' \<Longrightarrow> table_ok t \<Longrightarrow> r \<in> set t \<Longrightarrow> \<exists>r'\<in>set t'. change r r'"
proof (induction rule: table_step.induct)
  case (inserted x t)
  then show ?case using change_refl by auto
next
  case (changed t P f)
  then have "change r (if P r then f r else r)"
    using change_refl by (auto simp: table_ok_def)
  moreover have "(if P r then f r else r) \<in> set (map (\<lambda>r. if P r then f r else r) t)"
    unfolding set_map using changed.prems(2) by (rule image_eqI [OF refl])
  ultimately show ?case by blast
qed

end

sublocale row_table \<subseteq> invariant_system table_step table_ok
  by unfold_locales (rule table_step_ok)

context row_table
begin

lemma table_steps_follow:
  "table_step\<^sup>*\<^sup>* t t' \<Longrightarrow> table_ok t \<Longrightarrow> r \<in> set t \<Longrightarrow> \<exists>r'\<in>set t'. change r r'"
proof (induction rule: rtranclp_induct)
  case base
  then show ?case using change_refl by blast
next
  case (step a b)
  then obtain r' where r': "r' \<in> set a" "change r r'" by blast
  from table_step_follows [OF step(2) steps_inv [OF step(1,4)] r'(1)] show ?case
    using change_trans [OF r'(2)] by blast
qed

lemma find_append: "List.find Q t = Some r \<Longrightarrow> List.find Q (t @ xs) = Some r"
  by (induction t) (auto split: if_splits)

text \<open>The first row with a value in a column that changes keep stays the first one.\<close>

lemma table_step_first:
  assumes "table_step t t'" "table_ok t" "List.find (\<lambda>r. g r = k) t = Some r"
    and column: "\<And>r r'. change r r' \<Longrightarrow> g r' = g r"
  shows "\<exists>r'. List.find (\<lambda>r. g r = k) t' = Some r' \<and> change r r'"
  using assms(1-3)
proof (induction arbitrary: r rule: table_step.induct)
  case (inserted x t)
  from find_append [OF inserted.prems(2)] show ?case
    by (intro exI [of _ r] conjI change_refl)
next
  case (changed t P f)
  let ?f = "\<lambda>r. if P r then f r else r"
  have c: "change x (?f x)" if "x \<in> set t" for x
    using changed.hyps changed.prems(1) that change_refl by (auto simp: table_ok_def)
  then have "\<forall>x\<in>set t. g (?f x) = g x" using column by blast
  then have "List.find (\<lambda>r. g r = k) (map ?f t) = map_option ?f (List.find (\<lambda>r. g r = k) t)"
    by (induction t) auto
  with changed.prems(2) c find_Some_iff_mem [OF changed.prems(2)] show ?case by auto
qed

lemma table_steps_first:
  assumes "table_step\<^sup>*\<^sup>* t t'" "table_ok t" "List.find (\<lambda>r. g r = k) t = Some r"
    and column: "\<And>r r'. change r r' \<Longrightarrow> g r' = g r"
  shows "\<exists>r'. List.find (\<lambda>r. g r = k) t' = Some r' \<and> change r r'"
  using assms(1-3)
proof (induction rule: rtranclp_induct)
  case base
  then show ?case using change_refl by blast
next
  case (step a b)
  then obtain r' where r': "List.find (\<lambda>r. g r = k) a = Some r'" "change r r'" by blast
  have "\<exists>r''. List.find (\<lambda>r. g r = k) b = Some r'' \<and> change r' r''"
    by (rule table_step_first [OF step(2) steps_inv [OF step(1,4)] r'(1)]) (rule column)
  then show ?case using change_trans [OF r'(2)] by blast
qed

lemma table_steps_keyed: "table_step\<^sup>*\<^sup>* t t' \<Longrightarrow> table_ok t \<Longrightarrow> keyed t'"
  using steps_inv by (auto simp: table_ok_def)

lemma insert_or_ignore_step:
  assumes "insert_or_ignore check fk r t = Inr t'"
    and "check \<Longrightarrow> key r \<notin> key ` set t" and "check \<Longrightarrow> legal r"
  shows "table_step\<^sup>*\<^sup>* t t'"
  using assms inserted [of r t] by (auto simp: insert_or_ignore_Inr split: if_splits)

lemma sql_insert_step:
  assumes "sql_insert check r t = Inr t'"
    and "check \<Longrightarrow> key r \<notin> key ` set t" and "check \<Longrightarrow> legal r"
  shows "table_step\<^sup>*\<^sup>* t t'"
  using assms inserted [of r t] by (auto simp: sql_insert_Inr)

lemma sql_update_step:
  assumes "sql_update check P f t = Inr (t', n)"
    and "\<And>r. r \<in> set t \<Longrightarrow> P r \<Longrightarrow> legal r \<Longrightarrow> check (f r) \<Longrightarrow> change r (f r)"
  shows "table_step\<^sup>*\<^sup>* t t'"
  using assms changed [of t P f] by (auto simp: sql_update_Inr)

end

section \<open>Run steps\<close>

definition step_legal :: "run_step_record \<Rightarrow> bool" where
  "step_legal s \<longleftrightarrow> step_state_check (rs_state s)"

definition step_change :: "run_step_record \<Rightarrow> run_step_record \<Rightarrow> bool" where
  "step_change s s' \<longleftrightarrow> rs_id s' = rs_id s \<and> rs_run_id s' = rs_run_id s \<and>
     rs_node_id s' = rs_node_id s \<and> rs_node_type s' = rs_node_type s \<and>
     (step_legal s \<longrightarrow> step_legal s') \<and>
     (terminal_step_state (rs_state s) \<longrightarrow> rs_state s' = rs_state s)"

interpretation steps: row_table rs_id step_legal step_change
  by unfold_locales (auto simp: step_change_def)

section \<open>Provider tasks\<close>

definition task_state_check :: "string \<Rightarrow> bool" where
  "task_state_check s \<longleftrightarrow> open_task_state s \<or> s = ''completed'' \<or> s = ''cancelled'' \<or> s = ''abandoned''"

definition task_rank :: "string \<Rightarrow> nat" where
  "task_rank s = (if s = ''dispatching'' then 0 else if s = ''active'' then 1
     else if s = ''result_ready'' then 2 else 3)"

definition task_legal :: "provider_task_record \<Rightarrow> bool" where
  "task_legal p \<longleftrightarrow> task_state_check (pt_state p) \<and> 0 \<le> pt_materialization_attempts p"

definition task_change :: "provider_task_record \<Rightarrow> provider_task_record \<Rightarrow> bool" where
  "task_change p p' \<longleftrightarrow> pt_id p' = pt_id p \<and> pt_run_id p' = pt_run_id p \<and>
     pt_run_step_id p' = pt_run_step_id p \<and> pt_provider p' = pt_provider p \<and>
     pt_operation_key p' = pt_operation_key p \<and> (task_legal p \<longrightarrow> task_legal p') \<and>
     task_rank (pt_state p) \<le> task_rank (pt_state p') \<and>
     (\<not> open_task_state (pt_state p) \<longrightarrow> pt_state p' = pt_state p) \<and>
     (pt_dispatch_owner_id p' = pt_dispatch_owner_id p \<or> pt_dispatch_owner_id p' = None)"

interpretation tasks: row_table pt_id task_legal task_change
  by unfold_locales (auto simp: task_change_def)

section \<open>Artifacts\<close>

text \<open>Only the selection and the review of an artifact change.\<close>

definition artifact_change :: "artifact_record \<Rightarrow> artifact_record \<Rightarrow> bool" where
  "artifact_change a a' \<longleftrightarrow> ar_id a' = ar_id a \<and> ar_workspace_id a' = ar_workspace_id a \<and>
     ar_run_id a' = ar_run_id a \<and> ar_run_step_id a' = ar_run_step_id a \<and> ar_node_id a' = ar_node_id a \<and>
     ar_kind a' = ar_kind a \<and> ar_storage_uri a' = ar_storage_uri a \<and> ar_sha256 a' = ar_sha256 a \<and>
     ar_mime a' = ar_mime a \<and> ar_width a' = ar_width a \<and> ar_height a' = ar_height a \<and>
     ar_duration_ms a' = ar_duration_ms a \<and> ar_meta_json a' = ar_meta_json a \<and>
     ar_created_at a' = ar_created_at a"

lemma artifact_changeI [intro]:
  "artifact_change a a" "artifact_change a (a\<lparr>ar_selected := b\<rparr>)" "artifact_change a (a\<lparr>ar_review_state := s\<rparr>)"
  by (simp_all add: artifact_change_def)

interpretation artifacts: row_table ar_id "\<lambda>_. True" artifact_change
  by unfold_locales (auto simp: artifact_change_def)

section \<open>Continuations and terminalizations\<close>

definition continuation_legal :: "run_failure_continuation_record \<Rightarrow> bool" where
  "continuation_legal c \<longleftrightarrow> (fc_state c = ''pending'' \<longrightarrow> fc_child_run_id c = None) \<and>
     fc_state c \<in> {''pending'', ''retry_created'', ''exhausted'', ''completed''} \<and>
     fc_retry_key c = Some (''retry:'' @ fc_run_id c)"

definition continuation_change ::
  "run_failure_continuation_record \<Rightarrow> run_failure_continuation_record \<Rightarrow> bool" where
  "continuation_change c c' \<longleftrightarrow> fc_run_id c' = fc_run_id c \<and>
     (continuation_legal c \<longrightarrow> continuation_legal c') \<and>
     (fc_child_run_id c \<noteq> None \<longrightarrow> fc_child_run_id c' = fc_child_run_id c) \<and>
     (fc_state c' = ''pending'' \<longrightarrow> fc_state c = ''pending'')"

interpretation continuations: row_table fc_run_id continuation_legal continuation_change
  by unfold_locales (auto simp: continuation_change_def)

definition terminalization_legal :: "run_terminalization_record \<Rightarrow> bool" where
  "terminalization_legal w \<longleftrightarrow> tz_desired_status w \<in> {''failed'', ''interrupted''} \<and>
     tz_state w \<in> {''settling'', ''completed''}"

definition terminalization_change ::
  "run_terminalization_record \<Rightarrow> run_terminalization_record \<Rightarrow> bool" where
  "terminalization_change w w' \<longleftrightarrow> tz_run_id w' = tz_run_id w \<and>
     (terminalization_legal w \<longrightarrow> terminalization_legal w') \<and>
     (tz_desired_status w = ''interrupted'' \<longrightarrow> tz_desired_status w' = ''interrupted'') \<and>
     (tz_state w = ''completed'' \<longrightarrow> tz_state w' = ''completed'' \<and> tz_desired_status w' = tz_desired_status w)"

interpretation terminalizations: row_table tz_run_id terminalization_legal terminalization_change
  by unfold_locales (auto simp: terminalization_change_def)

end
