(* ===== verification/Store_Contract.thy ===== *)
theory Store_Contract
  imports Run_Table Row_Table
begin

text \<open>
  \<open>store_contract\<close> is the abstract specification of a store operation: what it may do to each
  table.  Every operation of \<open>Run_Store\<close>, \<open>Recovery_Store\<close> and \<open>Task_Store\<close> is shown to
  implement it, with the preconditions the call sites in crates/run establish.
\<close>

section \<open>The contract of an operation\<close>

text \<open>Events are appended with the next number of their run.\<close>

inductive events_step :: "run_event_record list \<Rightarrow> run_event_record list \<Rightarrow> bool" where
  event_appended: "re_seq e = next_seq (re_run_id e) es \<Longrightarrow> events_step es (es @ [e])"

text \<open>An output is written once, together with the success of its step.\<close>

definition output_settled :: "run_step_record list \<Rightarrow> run_step_output_record \<Rightarrow> bool" where
  "output_settled steps x \<longleftrightarrow> (\<exists>s\<in>set steps. rs_id s = so_run_step_id x \<and> rs_state s = ''succeeded'')"

definition output_key :: "run_step_output_record \<Rightarrow> string \<times> string" where
  "output_key x = (so_run_step_id x, so_port x)"

definition outputs_step :: "db \<Rightarrow> db \<Rightarrow> bool" where
  "outputs_step d d' \<longleftrightarrow> (\<exists>xs. db_outputs d' = db_outputs d @ xs \<and>
     (\<forall>x\<in>set xs. output_settled (db_steps d') x) \<and>
     (distinct (map output_key (db_outputs d)) \<longrightarrow> distinct (map output_key (db_outputs d'))))"

definition store_contract :: "db \<Rightarrow> db \<Rightarrow> bool" where
  "store_contract d d' \<longleftrightarrow>
     runs_step\<^sup>*\<^sup>* (db_runs d) (db_runs d') \<and>
     steps.table_step\<^sup>*\<^sup>* (db_steps d) (db_steps d') \<and>
     tasks.table_step\<^sup>*\<^sup>* (db_tasks d) (db_tasks d') \<and>
     continuations.table_step\<^sup>*\<^sup>* (db_continuations d) (db_continuations d') \<and>
     terminalizations.table_step\<^sup>*\<^sup>* (db_terminalizations d) (db_terminalizations d') \<and>
     events_step\<^sup>*\<^sup>* (db_events d) (db_events d') \<and>
     artifacts.table_step\<^sup>*\<^sup>* (db_artifacts d) (db_artifacts d') \<and>
     outputs_step d d'"

lemma outputs_same: "db_outputs d' = db_outputs d \<Longrightarrow> outputs_step d d'"
  by (simp add: outputs_step_def)

lemma contract_refl [simp]: "store_contract d d"
  by (simp add: store_contract_def outputs_same)

lemma contract_runs:
  "runs_step\<^sup>*\<^sup>* (db_runs d) t \<Longrightarrow> store_contract d (d\<lparr>db_runs := t\<rparr>)"
  by (simp add: store_contract_def outputs_same)

lemma contract_steps:
  "steps.table_step\<^sup>*\<^sup>* (db_steps d) t \<Longrightarrow> store_contract d (d\<lparr>db_steps := t\<rparr>)"
  by (simp add: store_contract_def outputs_same)

lemma contract_tasks:
  "tasks.table_step\<^sup>*\<^sup>* (db_tasks d) t \<Longrightarrow> store_contract d (d\<lparr>db_tasks := t\<rparr>)"
  by (simp add: store_contract_def outputs_same)

lemma contract_continuations:
  "continuations.table_step\<^sup>*\<^sup>* (db_continuations d) t \<Longrightarrow> store_contract d (d\<lparr>db_continuations := t\<rparr>)"
  by (simp add: store_contract_def outputs_same)

lemma contract_terminalizations:
  "terminalizations.table_step\<^sup>*\<^sup>* (db_terminalizations d) t \<Longrightarrow>
   store_contract d (d\<lparr>db_terminalizations := t\<rparr>)"
  by (simp add: store_contract_def outputs_same)

lemma contract_events:
  "events_step\<^sup>*\<^sup>* (db_events d) t \<Longrightarrow> store_contract d (d\<lparr>db_events := t\<rparr>)"
  by (simp add: store_contract_def outputs_same)

lemma contract_artifacts:
  "artifacts.table_step\<^sup>*\<^sup>* (db_artifacts d) t \<Longrightarrow> store_contract d (d\<lparr>db_artifacts := t\<rparr>)"
  by (simp add: store_contract_def outputs_same)

lemma contract_other [simp]:
  "store_contract d (d\<lparr>db_ledger := l\<rparr>)"
  "store_contract d (d\<lparr>db_leases := ls\<rparr>)" "store_contract d (d\<lparr>db_intents := is\<rparr>)"
  "store_contract d (d\<lparr>db_reject_retries := js\<rparr>)"
  by (simp_all add: store_contract_def outputs_same)

section \<open>Operations on runs\<close>

lemma insert_run_Inr:
  assumes "insert_run r db = Inr db'"
  shows "db' = db\<lparr>db_runs := db_runs db @ [r]\<rparr>" "rr_id r \<notin> rr_id ` set (db_runs db)" "run_legal r"
  using assms by (auto simp: insert_run_def sql_simps run_legal_def)

lemma insert_run_step:
  assumes "insert_run r db = Inr db'"
    and "active_status (rr_status r) \<Longrightarrow> admitted (db_runs db) (rr_id r) (rr_workspace_id r) (rr_group_id r)"
  shows "runs_step\<^sup>*\<^sup>* (db_runs db) (db_runs db')"
  using insert_run_Inr [OF assms(1)] run_inserted [of r "db_runs db"] assms(2) by auto

lemma create_run_contract:
  assumes "create_run new_id now input db = Inr (db', r)"
  shows "store_contract db db'"
proof -
  define row where "row =
     \<lparr>rr_id = new_id, rr_workspace_id = nr_workspace_id input,
      rr_version_id = nr_version_id input, rr_group_id = nr_group_id input,
      rr_label = nr_label input, rr_trigger = nr_trigger input,
      rr_plan_json = nr_plan_json input, rr_estimate_json = nr_estimate_json input,
      rr_status = nr_status input, rr_error_json = None, rr_started_at = None,
      rr_ended_at = None, rr_created_at = now, rr_parent_run_id = None, rr_attempt = (0::i64),
      rr_force_rerun = False\<rparr>"
  have ins: "insert_run row db = Inr db'"
    and free: "active_status (rr_status row) \<Longrightarrow> \<forall>x\<in>set (db_runs db).
       \<not> blocks (rr_workspace_id row) (rr_group_id row) x"
    using assms by (auto simp: create_run_def Let_def result_simps returning_Inr fetch_optional_None
        row_def [symmetric] split: if_splits option.splits) (auto simp: row_def)
  have "runs_step\<^sup>*\<^sup>* (db_runs db) (db_runs db')"
    using insert_run_step [OF ins] free by (auto simp: admitted_def)
  with insert_run_Inr(1) [OF ins] show ?thesis
    using contract_runs [of db "db_runs db @ [row]"] by simp
qed

text \<open>An update of the rows of one run.\<close>

lemma sql_update_runs:
  assumes "sql_update check P f (db_runs db) = Inr (t, n)"
    and "\<And>r. r \<in> set (db_runs db) \<Longrightarrow> P r \<Longrightarrow> rr_id r = i"
    and "\<And>r. r \<in> set (db_runs db) \<Longrightarrow> P r \<Longrightarrow> check (f r) \<Longrightarrow> run_change (db_runs db) r (f r)"
  shows "runs_step\<^sup>*\<^sup>* (db_runs db) t"
proof -
  have "t = map (\<lambda>r. if rr_id r = i \<and> P r then f r else r) (db_runs db)"
    using assms(1,2) by (auto simp: sql_update_Inr)
  moreover have "check (f r)" if "r \<in> set (db_runs db)" "P r" for r
    using assms(1) that by (simp add: sql_update_Inr)
  ultimately show ?thesis using run_changed [of "db_runs db" i P f] assms(3) by auto
qed

lemma claim_run_contract:
  assumes "claim_run_if_workspace_idle now run_id expected_status next_status ws group_id db = Inr (db', x)"
    and "\<And>r. r \<in> set (db_runs db) \<Longrightarrow> rr_id r = run_id \<Longrightarrow> rr_workspace_id r = ws \<and> rr_group_id r = group_id"
    and "\<not> terminal_status expected_status"
  shows "store_contract db db'"
proof -
  obtain t n where u: "sql_update (\<lambda>r. run_status_check (rr_status r))
       (\<lambda>r. rr_id r = run_id \<and> rr_status r = expected_status \<and>
          \<not> row_exists (\<lambda>other. rr_id other \<noteq> run_id \<and> blocks ws group_id other) (db_runs db))
       (\<lambda>r. r\<lparr>rr_status := next_status,
          rr_started_at := (if next_status = ''running'' \<and> rr_started_at r = None then Some now
                            else rr_started_at r)\<rparr>) (db_runs db) = Inr (t, n)"
    and db': "db' = db \<or> db' = db\<lparr>db_runs := t\<rparr>"
    using assms(1) by (auto simp: claim_run_if_workspace_idle_def result_simps returning_Inr
        split: if_splits)
  have "runs_step\<^sup>*\<^sup>* (db_runs db) t"
    by (rule sql_update_runs [OF u]) (use assms(2,3) in \<open>auto simp: run_change_def same_run_def admitted_def\<close>)
  with db' show ?thesis using contract_runs by auto
qed

lemma set_run_force_rerun_contract:
  assumes "set_run_force_rerun run_id force_rerun db = Inr (db', x)"
    and "\<forall>r\<in>set (db_runs db). run_legal r"
  shows "store_contract db db'"
proof -
  obtain t n where u: "sql_update (\<lambda>_. True) (\<lambda>r. rr_id r = run_id)
       (\<lambda>r. r\<lparr>rr_force_rerun := force_rerun\<rparr>) (db_runs db) = Inr (t, n)"
    and db': "db' = db\<lparr>db_runs := t\<rparr>"
    using assms by (auto simp: set_run_force_rerun_def result_simps returning_Inr)
  have "runs_step\<^sup>*\<^sup>* (db_runs db) t"
    by (rule sql_update_runs [OF u]) (use assms(2) in \<open>auto simp: run_change_def same_run_def run_legal_def\<close>)
  with db' show ?thesis using contract_runs by auto
qed

text \<open>The ungated updates may promote a run only when it is active already: their callers hold it.\<close>

lemma update_run_status_contract:
  assumes "update_run_status now run_id status error_json db = Inr (db', x)"
    and "\<And>r. r \<in> set (db_runs db) \<Longrightarrow> rr_id r = run_id \<Longrightarrow> active_status status \<Longrightarrow> active_status (rr_status r)"
  shows "store_contract db db'"
proof -
  obtain t n where u: "sql_update (\<lambda>r. run_status_check (rr_status r))
       (\<lambda>r. rr_id r = run_id \<and> (\<not> terminal_status (rr_status r) \<or> rr_status r = status))
       (set_status now status error_json) (db_runs db) = Inr (t, n)"
    and db': "db' = db\<lparr>db_runs := t\<rparr>"
    using assms(1) by (auto simp: update_run_status_def result_simps returning_Inr split: if_splits)
  have "runs_step\<^sup>*\<^sup>* (db_runs db) t"
    by (rule sql_update_runs [OF u])
       (use assms(2) in \<open>auto simp: run_change_def same_run_def set_status_def\<close>)
  with db' show ?thesis using contract_runs by auto
qed

lemma update_run_status_if_current_contract:
  assumes "update_run_status_if_current now run_id expected_status next_status error_json db = Inr (db', x)"
    and ids: "distinct (map rr_id (db_runs db))" and "\<not> terminal_status expected_status"
  shows "store_contract db db'"
proof (cases "db' = db")
  case False
  obtain current t n where cur: "fetch_optional (\<lambda>r. rr_id r = run_id) (db_runs db) = Some current"
    and free: "active_status next_status \<Longrightarrow> \<forall>r\<in>set (db_runs db).
       \<not> (rr_id r \<noteq> run_id \<and> blocks (rr_workspace_id current) (rr_group_id current) r)"
    and u: "sql_update (\<lambda>r. run_status_check (rr_status r))
       (\<lambda>r. rr_id r = run_id \<and> rr_status r = expected_status)
       (set_status now next_status error_json) (db_runs db) = Inr (t, n)"
    and db': "db' = db\<lparr>db_runs := t\<rparr>"
    using assms(1) False by (auto simp: update_run_status_if_current_def result_simps returning_Inr
        fetch_optional_None split: if_splits option.splits)
  have same: "r = current" if "r \<in> set (db_runs db)" "rr_id r = run_id" for r
    using fetch_optional_Some [OF cur] that ids runs_table.keyed_unique [of "db_runs db" r current]
    by (simp add: runs_table.keyed_def)
  have "runs_step\<^sup>*\<^sup>* (db_runs db) t"
  proof (rule sql_update_runs [OF u])
    fix r assume r: "r \<in> set (db_runs db)" "rr_id r = run_id \<and> rr_status r = expected_status"
    then show "run_change (db_runs db) r (set_status now next_status error_json r)"
      if "run_status_check (rr_status (set_status now next_status error_json r))"
      using same [OF r(1)] free assms(3) that
      by (auto simp: run_change_def same_run_def set_status_def admitted_def)
  qed auto
  with db' show ?thesis using contract_runs by auto
qed simp

lemma update_run_estimate_contract:
  assumes "update_run_estimate_and_status run_id estimate_json status db = Inr (db', x)"
    and "\<And>r. r \<in> set (db_runs db) \<Longrightarrow> rr_id r = run_id \<Longrightarrow> active_status status \<Longrightarrow> active_status (rr_status r)"
  shows "store_contract db db'"
proof -
  obtain t n where u: "sql_update (\<lambda>r. run_status_check (rr_status r))
       (\<lambda>r. rr_id r = run_id \<and> \<not> terminal_status (rr_status r))
       (\<lambda>r. r\<lparr>rr_estimate_json := estimate_json, rr_status := status\<rparr>) (db_runs db) = Inr (t, n)"
    and db': "db' = db\<lparr>db_runs := t\<rparr>"
    using assms(1) by (auto simp: update_run_estimate_and_status_def result_simps returning_Inr
        split: if_splits)
  have "runs_step\<^sup>*\<^sup>* (db_runs db) t"
    by (rule sql_update_runs [OF u]) (use assms(2) in \<open>auto simp: run_change_def same_run_def\<close>)
  with db' show ?thesis using contract_runs by auto
qed

section \<open>Operations on steps, events and artifacts\<close>

lemma create_run_step_contract:
  "create_run_step new_id input db = Inr (db', x) \<Longrightarrow> store_contract db db'"
  by (auto simp: create_run_step_def result_simps returning_Inr step_legal_def
      intro!: contract_steps elim!: steps.sql_insert_step)

lemma update_run_step_state_contract:
  "update_run_step_state now step_id state progress cost_actual_json error_json db = Inr (db', x) \<Longrightarrow>
   store_contract db db'"
  by (auto simp: update_run_step_state_def result_simps returning_Inr step_change_def step_legal_def
      intro!: contract_steps elim!: steps.sql_update_step split: if_splits)

lemma mark_run_step_cached_succeeded_contract:
  "mark_run_step_cached_succeeded now step_id metadata_json db = Inr (db', x) \<Longrightarrow> store_contract db db'"
  by (auto simp: mark_run_step_cached_succeeded_def result_simps returning_Inr step_change_def
      step_legal_def intro!: contract_steps elim!: steps.sql_update_step split: if_splits)

lemma update_run_step_cost_estimate_contract:
  "update_run_step_cost_estimate step_id cost_estimate_json db = Inr (db', x) \<Longrightarrow> store_contract db db'"
  by (auto simp: update_run_step_cost_estimate_def result_simps returning_Inr step_change_def
      step_legal_def intro!: contract_steps elim!: steps.sql_update_step split: if_splits)

lemma insert_event_Inr:
  assumes "insert_event new_id now run_id ev data_json db = Inr db'"
  shows "events_step\<^sup>*\<^sup>* (db_events db) (db_events db')" "db' = db\<lparr>db_events := db_events db'\<rparr>"
  using assms by (auto simp: insert_event_def sql_simps Let_def intro!: r_into_rtranclp event_appended)

lemma append_run_event_contract:
  assumes "append_run_event new_id now run_id ev data_json db = Inr (db', x)"
  shows "store_contract db db'"
proof -
  from assms have ins: "insert_event new_id now run_id ev data_json db = Inr db'"
    by (auto simp: append_run_event_def result_simps returning_Inr)
  from contract_events [OF insert_event_Inr(1) [OF ins]]
  show ?thesis by (simp flip: insert_event_Inr(2) [OF ins])
qed

lemma artifact_contracts:
  "create_artifact new_id now na db = Inr (db', x) \<Longrightarrow> store_contract db db'"
  "update_artifact_selected artifact_id selected db = Inr (db', x) \<Longrightarrow> store_contract db db'"
  "set_artifact_review_state artifact_id expected_from next_state db = Inr (db', y) \<Longrightarrow> store_contract db db'"
  "select_run_artifact artifact_id db = Inr (db', x) \<Longrightarrow> store_contract db db'"
  "select_group_artifact artifact_id group_id db = Inr (db', x) \<Longrightarrow> store_contract db db'"
proof -
  have update: "store_contract db (db\<lparr>db_artifacts := t\<rparr>)"
    if "sql_update check P f (db_artifacts db) = Inr (t, n)" "\<And>a. artifact_change a (f a)" for check P f t n
    by (rule contract_artifacts) (rule artifacts.sql_update_step [OF that(1)], rule that(2))
  have insert: "store_contract db (db\<lparr>db_artifacts := t\<rparr>)"
    if "sql_insert check a (db_artifacts db) = Inr t" "check \<Longrightarrow> \<not> row_exists (\<lambda>x. ar_id x = ar_id a) (db_artifacts db)"
    for check a t
    by (rule contract_artifacts) (rule artifacts.sql_insert_step [OF that(1)], use that(2) in auto)
  show "create_artifact new_id now na db = Inr (db', x) \<Longrightarrow> store_contract db db'"
    by (auto simp: create_artifact_def res_bind_Inr returning_Inr intro!: insert)
  show selected: "update_artifact_selected artifact_id selected db = Inr (db', x) \<Longrightarrow> store_contract db db'" for selected
    by (auto simp: update_artifact_selected_def res_bind_Inr returning_Inr intro!: update)
  show "set_artifact_review_state artifact_id expected_from next_state db = Inr (db', y) \<Longrightarrow> store_contract db db'"
    by (auto simp: set_artifact_review_state_def res_bind_Inr returning_Inr intro!: update split: if_splits)
  show "select_run_artifact artifact_id db = Inr (db', x) \<Longrightarrow> store_contract db db'"
    by (auto simp: select_run_artifact_def res_bind_Inr returning_Inr intro!: update intro: selected split: option.splits)
  show "select_group_artifact artifact_id group_id db = Inr (db', x) \<Longrightarrow> store_contract db db'"
    by (auto simp: select_group_artifact_def res_bind_Inr returning_Inr intro!: update)
qed

lemma insert_ledger_once_Inr:
  "insert_ledger_once new_id now operation_key input db = Inr db' \<Longrightarrow> \<exists>t. db' = db\<lparr>db_ledger := t\<rparr>"
  by (auto simp: insert_ledger_once_def result_simps)

lemma ledger_contracts:
  "create_cost_ledger new_id now nc db = Inr (db', x) \<Longrightarrow> store_contract db db'"
  "create_cost_ledger_once new_id now operation_key nc db = Inr (db', x) \<Longrightarrow> store_contract db db'"
  by (auto simp: create_cost_ledger_def create_cost_ledger_once_def result_simps returning_Inr
      dest!: insert_ledger_once_Inr split: if_splits)

section \<open>Cleanup, retries and continuations\<close>

lemma interrupt_one_tables:
  assumes "interrupt_one now run_id (db, done) = Inr (db', done')"
  shows "runs_step\<^sup>*\<^sup>* (db_runs db) (db_runs db') \<and>
     steps.table_step\<^sup>*\<^sup>* (db_steps db) (db_steps db') \<and>
     db' = db\<lparr>db_runs := db_runs db', db_steps := db_steps db'\<rparr>"
proof -
  obtain runs n ss m where u: "sql_update (\<lambda>r. run_status_check (rr_status r))
       (\<lambda>r. rr_id r = run_id \<and> active_status (rr_status r))
       (\<lambda>r. r\<lparr>rr_status := ''interrupted'', rr_ended_at := Some now\<rparr>) (db_runs db) = Inr (runs, n)"
    and v: "sql_update (\<lambda>s. step_state_check (rs_state s))
       (\<lambda>s. rs_run_id s = run_id \<and> (rs_state s = ''queued'' \<or> rs_state s = ''running''))
       (\<lambda>s. s\<lparr>rs_state := ''skipped'', rs_ended_at := Some now\<rparr>) (db_steps db) = Inr (ss, m)"
    and db': "db' = db\<lparr>db_runs := runs, db_steps := ss\<rparr>"
    using assms by (auto simp: interrupt_one_def result_simps Let_def)
  have "runs_step\<^sup>*\<^sup>* (db_runs db) runs"
    by (rule sql_update_runs [OF u])
       (auto simp: run_change_def same_run_def active_status_def terminal_status_def)
  moreover have "steps.table_step\<^sup>*\<^sup>* (db_steps db) ss"
    by (rule steps.sql_update_step [OF v]) (auto simp: step_change_def step_legal_def terminal_step_state_def)
  ultimately show ?thesis by (simp add: db')
qed

lemma interrupt_stale_contract:
  assumes "interrupt_stale_active_runs now db = Inr (db', x)"
  shows "store_contract db db'"
proof -
  define P where "P = (\<lambda>s :: db \<times> run_record list. runs_step\<^sup>*\<^sup>* (db_runs db) (db_runs (fst s)) \<and>
     steps.table_step\<^sup>*\<^sup>* (db_steps db) (db_steps (fst s)) \<and>
     fst s = db\<lparr>db_runs := db_runs (fst s), db_steps := db_steps (fst s)\<rparr>)"
  have "P (db', x)"
  proof (rule fold_res_invariant [OF assms [unfolded interrupt_stale_active_runs_def]])
    show "P (db, [])" by (simp add: P_def)
    fix i :: string and s s'
    assume "P s" and i: "interrupt_one now i s = Inr s'"
    obtain d d' xs xs' where s: "s = (d, xs)" "s' = (d', xs')" by (cases s, cases s')
    note tables = interrupt_one_tables [OF i [unfolded s]]
    from \<open>P s\<close> have d: "runs_step\<^sup>*\<^sup>* (db_runs db) (db_runs d)"
      "steps.table_step\<^sup>*\<^sup>* (db_steps db) (db_steps d)"
      "d = db\<lparr>db_runs := db_runs d, db_steps := db_steps d\<rparr>"
      by (simp_all add: P_def s)
    from tables have "d' = d\<lparr>db_runs := db_runs d', db_steps := db_steps d'\<rparr>" by blast
    with d(3) have "d' = db\<lparr>db_runs := db_runs d', db_steps := db_steps d'\<rparr>"
      by (metis db.update_convs(3,4) db.surjective)
    then show "P s'"
      using tables d by (auto simp: P_def s intro: rtranclp_trans)
  qed
  then have t: "runs_step\<^sup>*\<^sup>* (db_runs db) (db_runs db')" "steps.table_step\<^sup>*\<^sup>* (db_steps db) (db_steps db')"
    and "db' = db\<lparr>db_runs := db_runs db', db_steps := db_steps db'\<rparr>"
    by (simp_all add: P_def)
  moreover have "store_contract db (db\<lparr>db_runs := db_runs db', db_steps := db_steps db'\<rparr>)"
    using t by (simp add: store_contract_def outputs_same)
  ultimately show ?thesis by simp
qed

text \<open>A retry run waits for confirmation, so nothing stands in its way.\<close>

lemma retry_row_inactive [simp]: "\<not> active_status (rr_status (retry_row new_id now force_rerun parent))"
  by (simp add: retry_row_def active_status_def)

lemma insert_retry_step:
  assumes "insert_run (retry_row new_id now force_rerun parent) db = Inr db'"
  shows "runs_step\<^sup>*\<^sup>* (db_runs db) (db_runs db')"
  by (rule insert_run_step [OF assms]) simp

lemma copy_estimates_frame:
  "copy_estimates cost_ids now child_id cs db = Inr db' \<Longrightarrow> \<exists>t. db' = db\<lparr>db_ledger := t\<rparr>"
  unfolding copy_estimates_def
  by (erule fold_res_invariant [where P = "\<lambda>d. \<exists>t. d = db\<lparr>db_ledger := t\<rparr>"])
     (auto simp: result_simps Let_def intro: exI [of _ "db_ledger db"])

lemma copy_estimates_once_frame:
  "copy_estimates_once key cost_ids now child_id cs db = Inr db' \<Longrightarrow> \<exists>t. db' = db\<lparr>db_ledger := t\<rparr>"
  unfolding copy_estimates_once_def
  by (erule fold_res_invariant [where P = "\<lambda>d. \<exists>t. d = db\<lparr>db_ledger := t\<rparr>"])
     (auto dest!: insert_ledger_once_Inr intro: exI [of _ "db_ledger db"])

lemma create_retry_run_contract:
  assumes "create_retry_run new_id cost_ids now parent_run_id force_rerun db = Inr (db', x)"
  shows "store_contract db db'"
proof -
  obtain parent d t where ins: "insert_run (retry_row new_id now force_rerun parent) db = Inr d"
    and d': "db' = d\<lparr>db_ledger := t\<rparr>"
    using assms by (auto simp: create_retry_run_def result_simps returning_Inr dest!: copy_estimates_frame)
  show ?thesis
    using insert_retry_step [OF ins] insert_run_Inr(1) [OF ins]
    by (simp add: d' store_contract_def outputs_same)
qed

lemma create_reject_retry_contract:
  assumes "create_reject_retry_run_once new_id cost_ids now parent_run_id db = Inr (db', x)"
  shows "store_contract db db'"
proof (cases "fetch_optional (\<lambda>j. jr_parent_run_id j = parent_run_id) (db_reject_retries db)")
  case None
  then obtain parent d e where ins: "insert_run (retry_row new_id now True parent) db = Inr d"
    and copies: "copy_estimates_once ''reject-retry-estimate'' cost_ids now new_id
                   (estimates_of (rr_id parent) d) d = Inr e"
    and link: "insert_reject_retry now parent_run_id new_id e = Inr db'"
    using assms by (auto simp: create_reject_retry_run_once_def result_simps)
  obtain t where "e = d\<lparr>db_ledger := t\<rparr>" using copy_estimates_once_frame [OF copies] by blast
  moreover obtain j where "db' = e\<lparr>db_reject_retries := j\<rparr>"
    using link by (auto simp: insert_reject_retry_def result_simps)
  ultimately show ?thesis
    using insert_retry_step [OF ins] insert_run_Inr(1) [OF ins]
    by (simp add: store_contract_def outputs_same)
next
  case (Some j)
  with assms have "db' = db" by (auto simp: create_reject_retry_run_once_def result_simps)
  then show ?thesis by simp
qed

lemma mark_failure_retry_created_contract:
  assumes "mark_failure_retry_created now run_id child_run_id db = Inr (db', x)"
  shows "store_contract db db'"
proof -
  obtain t n where u: "sql_update (child_check db)
       (\<lambda>c. fc_run_id c = run_id \<and> fc_state c = ''pending'')
       (\<lambda>c. c\<lparr>fc_state := ''retry_created'', fc_child_run_id := Some child_run_id,
          fc_updated_at := now\<rparr>) (db_continuations db) = Inr (t, n)"
    and "db' = db\<lparr>db_continuations := t\<rparr>"
    using assms by (auto simp: mark_failure_retry_created_def res_bind_Inr Let_def)
  moreover have "continuations.table_step\<^sup>*\<^sup>* (db_continuations db) t"
    by (rule continuations.sql_update_step [OF u])
       (auto simp: continuation_change_def continuation_legal_def)
  ultimately show ?thesis using contract_continuations by simp
qed

lemma complete_failure_continuation_contract:
  assumes "complete_failure_continuation now run_id exhausted db = Inr (db', x)"
  shows "store_contract db db'"
proof -
  obtain t n where u: "sql_update (\<lambda>_. True)
       (\<lambda>c. fc_run_id c = run_id \<and> (fc_state c = ''pending'' \<or> fc_state c = ''retry_created''))
       (\<lambda>c. c\<lparr>fc_state := (if exhausted then ''exhausted'' else ''completed''), fc_updated_at := now\<rparr>)
       (db_continuations db) = Inr (t, n)"
    and "db' = db \<or> db' = db\<lparr>db_continuations := t\<rparr>"
    using assms by (auto simp: complete_failure_continuation_def res_bind_Inr Let_def split: if_splits)
  moreover have "continuations.table_step\<^sup>*\<^sup>* (db_continuations db) t"
    by (rule continuations.sql_update_step [OF u])
       (auto simp: continuation_change_def continuation_legal_def)
  ultimately show ?thesis using contract_continuations by auto
qed

lemma insert_retry_or_ignore_step:
  assumes "insert_run_or_ignore (retry_row new_id now force_rerun parent) db = Inr db'"
  shows "\<exists>t. db' = db\<lparr>db_runs := t\<rparr> \<and> runs_step\<^sup>*\<^sup>* (db_runs db) t"
proof -
  define r where "r = retry_row new_id now force_rerun parent"
  have r: "\<not> active_status (rr_status r)" by (simp add: r_def)
  obtain check fk t where t: "insert_or_ignore check fk r (db_runs db) = Inr t"
    and legal: "check \<Longrightarrow> rr_id r \<notin> rr_id ` set (db_runs db) \<and> run_legal r"
    and db': "db' = db\<lparr>db_runs := t\<rparr>"
  proof -
    from assms [unfolded insert_run_or_ignore_def, folded r_def, unfolded res_bind_Inr]
    obtain t where t: "insert_or_ignore (\<not> row_exists (\<lambda>x. rr_id x = rr_id r) (db_runs db) \<and>
        trigger_check (rr_trigger r) \<and> run_status_check (rr_status r))
       (rr_workspace_id r \<in> set (db_workspaces db) \<and>
        row_exists (\<lambda>v. vr_id v = rr_version_id r) (db_versions db) \<and>
        foreign rr_id (rr_parent_run_id r) (db_runs db)) r (db_runs db) = Inr t"
      "db' = db\<lparr>db_runs := t\<rparr>" by blast
    show ?thesis by (rule that [OF t(1) _ t(2)]) (auto simp: run_legal_def)
  qed
  have "t = db_runs db \<or> t = db_runs db @ [r] \<and> check"
    using t by (auto simp: insert_or_ignore_Inr)
  then have "runs_step\<^sup>*\<^sup>* (db_runs db) t"
    using run_inserted [of r "db_runs db"] legal r by blast
  with db' show ?thesis by blast
qed

lemma create_retry_run_once_contract:
  assumes "create_retry_run_once new_id cost_ids now parent_run_id force_rerun db = Inr (db', x)"
  shows "store_contract db db'"
proof (cases "db' = db")
  case False
  obtain c where c: "failure_continuation parent_run_id db = Some c"
    using assms by (auto simp: create_retry_run_once_def Let_def split: option.splits)
  have none: "fc_child_run_id c = None" and pending: "fc_state c = ''pending''"
    using assms False c by (auto simp: create_retry_run_once_def Let_def returning_Inr split: option.splits if_splits)
  obtain parent d e t n where
    ins: "insert_run_or_ignore (retry_row new_id now force_rerun parent) db = Inr d"
    and copies: "copy_estimates_once ''retry-estimate'' cost_ids now new_id (estimates_of (rr_id parent) d) d = Inr e"
    and u: "sql_update (child_check e)
            (\<lambda>c. fc_run_id c = parent_run_id \<and> fc_state c = ''pending'' \<and> fc_child_run_id c = None)
            (\<lambda>c. c\<lparr>fc_state := ''retry_created'', fc_child_run_id := Some new_id, fc_updated_at := now\<rparr>)
            (db_continuations e) = Inr (t, n)"
    and db': "db' = e\<lparr>db_continuations := t\<rparr>"
    using assms by (auto simp: create_retry_run_once_def Let_def c none pending res_bind_Inr returning_Inr
        split: if_splits)
  obtain l rs where e: "e = db\<lparr>db_runs := rs, db_ledger := l\<rparr>"
    and rs: "runs_step\<^sup>*\<^sup>* (db_runs db) rs"
    using copy_estimates_once_frame [OF copies] insert_retry_or_ignore_step [OF ins] by auto
  have "continuations.table_step\<^sup>*\<^sup>* (db_continuations db) t"
    by (rule continuations.sql_update_step [OF u [unfolded e, simplified]])
       (auto simp: continuation_change_def continuation_legal_def)
  with rs show ?thesis by (simp add: db' e store_contract_def outputs_same)
qed simp

section \<open>Terminalization\<close>

lemma renew_terminalization_contract:
  assumes "renew_run_terminalization_lease now run_id owner_id lease_seconds db = Inr (db', x)"
  shows "store_contract db db'"
proof -
  obtain t n where u: "sql_update (\<lambda>_. True)
        (\<lambda>w. tz_run_id w = run_id \<and> tz_state w = ''settling'' \<and> tz_owner_id w = Some owner_id \<and>
           lease_live now (tz_lease_expires_at w))
        (\<lambda>w. w\<lparr>tz_lease_expires_at := Some (now + lease_seconds), tz_updated_at := now\<rparr>)
        (db_terminalizations db) = Inr (t, n)" and "db' = db\<lparr>db_terminalizations := t\<rparr>"
    using assms by (auto simp: renew_run_terminalization_lease_def res_bind_Inr split: if_splits)
  moreover have "terminalizations.table_step\<^sup>*\<^sup>* (db_terminalizations db) t"
    by (rule terminalizations.sql_update_step [OF u])
       (auto simp: terminalization_change_def terminalization_legal_def)
  ultimately show ?thesis using contract_terminalizations by simp
qed

lemma claim_terminalization_contract:
  assumes "claim_run_terminalization now run_id owner_id lease_seconds db = Inr (db', x)"
  shows "store_contract db db'"
proof -
  obtain t n where u: "sql_update (\<lambda>_. True)
        (\<lambda>w. tz_run_id w = run_id \<and> tz_state w = ''settling'' \<and>
           (tz_owner_id w = None \<or> tz_owner_id w = Some owner_id \<or>
            lease_expired now (tz_lease_expires_at w)))
        (\<lambda>w. w\<lparr>tz_owner_id := Some owner_id, tz_lease_expires_at := Some (now + lease_seconds),
           tz_updated_at := now\<rparr>)
        (db_terminalizations db) = Inr (t, n)" and "db' = db\<lparr>db_terminalizations := t\<rparr>"
    using assms by (auto simp: claim_run_terminalization_def res_bind_Inr split: if_splits)
  moreover have "terminalizations.table_step\<^sup>*\<^sup>* (db_terminalizations db) t"
    by (rule terminalizations.sql_update_step [OF u])
       (auto simp: terminalization_change_def terminalization_legal_def)
  ultimately show ?thesis using contract_terminalizations by simp
qed

lemma upsert_terminalization_step:
  assumes "upsert_terminalization now run_id desired_status error_json db = Inr db'"
  shows "\<exists>t. db' = db\<lparr>db_terminalizations := t\<rparr> \<and>
     terminalizations.table_step\<^sup>*\<^sup>* (db_terminalizations db) t"
proof (cases "row_exists (\<lambda>w. tz_run_id w = run_id) (db_terminalizations db)")
  case True
  then obtain t n where u: "sql_update (\<lambda>w. tz_desired_status w \<in> {''failed'', ''interrupted''})
             (\<lambda>w. tz_run_id w = run_id \<and> tz_state w = ''settling'')
             (merge_terminalization now desired_status error_json) (db_terminalizations db) = Inr (t, n)"
    and "db' = db\<lparr>db_terminalizations := t\<rparr>"
    using assms by (auto simp: upsert_terminalization_def res_bind_Inr)
  moreover have "terminalizations.table_step\<^sup>*\<^sup>* (db_terminalizations db) t"
    by (rule terminalizations.sql_update_step [OF u])
       (auto simp: terminalization_change_def terminalization_legal_def merge_terminalization_def)
  ultimately show ?thesis by blast
next
  case False
  define w where "w = \<lparr>tz_run_id = run_id, tz_desired_status = desired_status, tz_state = ''settling'',
              tz_error_json = error_json, tz_owner_id = None, tz_lease_expires_at = None,
              tz_created_at = now, tz_updated_at = now, tz_completed_at = None\<rparr>"
  from False obtain t where u: "sql_insert (desired_status \<in> {''failed'', ''interrupted''} \<and>
               row_exists (\<lambda>r. rr_id r = run_id) (db_runs db)) w (db_terminalizations db) = Inr t"
    and db': "db' = db\<lparr>db_terminalizations := t\<rparr>"
    using assms by (auto simp: upsert_terminalization_def res_bind_Inr w_def)
  have "terminalizations.table_step\<^sup>*\<^sup>* (db_terminalizations db) t"
    by (rule terminalizations.sql_insert_step [OF u])
       (use False in \<open>auto simp: w_def terminalization_legal_def\<close>)
  with db' show ?thesis by blast
qed

lemma request_terminalization_contract:
  assumes "request_run_terminalization now run_id desired_status error_json db = Inr (db', x)"
  shows "store_contract db db'"
proof -
  have "upsert_terminalization now run_id desired_status error_json db = Inr db'"
    using assms by (auto simp: request_run_terminalization_def res_bind_Inr returning_Inr split: if_splits)
  from upsert_terminalization_step [OF this] show ?thesis using contract_terminalizations by auto
qed

lemma insert_continuation_step:
  assumes "insert_continuation now run_id db = Inr db'"
  shows "\<exists>t. db' = db\<lparr>db_continuations := t\<rparr> \<and>
     continuations.table_step\<^sup>*\<^sup>* (db_continuations db) t"
proof -
  define c where "c = \<lparr>fc_run_id = run_id, fc_state = ''pending'', fc_retry_key = Some (''retry:'' @ run_id),
        fc_child_run_id = None, fc_reason_code = None, fc_created_at = now, fc_updated_at = now\<rparr>"
  obtain t where u: "insert_or_ignore (\<not> row_exists (\<lambda>c. fc_run_id c = run_id) (db_continuations db) \<and>
         \<not> row_exists (\<lambda>c. fc_retry_key c = Some (''retry:'' @ run_id)) (db_continuations db))
         (row_exists (\<lambda>r. rr_id r = run_id) (db_runs db)) c (db_continuations db) = Inr t"
    and db': "db' = db\<lparr>db_continuations := t\<rparr>"
    using assms by (auto simp: insert_continuation_def res_bind_Inr c_def)
  have "continuations.table_step\<^sup>*\<^sup>* (db_continuations db) t"
    by (rule continuations.insert_or_ignore_step [OF u]) (auto simp: c_def continuation_legal_def)
  with db' show ?thesis by blast
qed

lemma settle_run_contract:
  assumes "settle_run new_id now run_id owner_id work db = Inr (db', x)"
  shows "store_contract db db'"
proof (cases "db' = db")
  case False
  obtain ss m runs n d e t k where
    v: "sql_update (\<lambda>s. step_state_check (rs_state s))
       (\<lambda>s. rs_run_id s = run_id \<and> (rs_state s = ''queued'' \<or> rs_state s = ''running''))
       (\<lambda>s. s\<lparr>rs_state := ''skipped'', rs_ended_at := Some now\<rparr>) (db_steps db) = Inr (ss, m)"
    and u: "sql_update (\<lambda>r. run_status_check (rr_status r))
       (\<lambda>r. rr_id r = run_id \<and> active_status (rr_status r))
       (\<lambda>r. r\<lparr>rr_status := tz_desired_status work, rr_error_json := tz_error_json work,
          rr_ended_at := Some now\<rparr>) (db_runs db) = Inr (runs, n)"
    and d: "(let db = db\<lparr>db_steps := ss, db_runs := runs\<rparr> in
       if tz_desired_status work = ''failed'' then insert_continuation now run_id db else Inr db) = Inr d"
    and e: "insert_event new_id now run_id (''run.'' @ tz_desired_status work)
       (case tz_error_json work of None \<Rightarrow> ''{}'' | Some e \<Rightarrow> e) d = Inr e"
    and w: "sql_update (\<lambda>_. True)
       (\<lambda>w. tz_run_id w = run_id \<and> tz_state w = ''settling'' \<and> tz_owner_id w = Some owner_id)
       (\<lambda>w. w\<lparr>tz_state := ''completed'', tz_completed_at := Some now, tz_updated_at := now\<rparr>)
       (db_terminalizations e) = Inr (t, k)"
    and db': "db' = e\<lparr>db_terminalizations := t\<rparr>"
    using assms False by (auto simp: settle_run_def res_bind_Inr returning_Inr split: if_splits)
  obtain cs where cs: "d = db\<lparr>db_steps := ss, db_runs := runs, db_continuations := cs\<rparr>"
    "continuations.table_step\<^sup>*\<^sup>* (db_continuations db) cs"
  proof (cases "tz_desired_status work = ''failed''")
    case True
    with d have "insert_continuation now run_id (db\<lparr>db_steps := ss, db_runs := runs\<rparr>) = Inr d"
      by (simp add: Let_def)
    from insert_continuation_step [OF this] that show ?thesis by auto
  next
    case False
    with d have "d = db\<lparr>db_steps := ss, db_runs := runs, db_continuations := db_continuations db\<rparr>"
      by (auto simp: Let_def)
    from that [OF this] show ?thesis by simp
  qed
  obtain es where es: "e = d\<lparr>db_events := es\<rparr>" "events_step\<^sup>*\<^sup>* (db_events d) es"
    using insert_event_Inr [OF e] by metis
  have "runs_step\<^sup>*\<^sup>* (db_runs db) runs"
    by (rule sql_update_runs [OF u]) (auto simp: run_change_def same_run_def dest: active_not_terminal)
  moreover have "steps.table_step\<^sup>*\<^sup>* (db_steps db) ss"
    by (rule steps.sql_update_step [OF v]) (auto simp: step_change_def step_legal_def terminal_step_state_def)
  moreover have "terminalizations.table_step\<^sup>*\<^sup>* (db_terminalizations db) t"
    by (rule terminalizations.sql_update_step [OF w [unfolded es cs, simplified]])
       (auto simp: terminalization_change_def terminalization_legal_def)
  ultimately show ?thesis
    using cs(2) es(2) by (simp add: db' es(1) cs(1) store_contract_def outputs_same)
qed simp

lemma complete_terminalization_contract:
  assumes "complete_run_terminalization new_id now run_id owner_id db = Inr (db', x)"
  shows "store_contract db db'"
  using assms settle_run_contract
  by (auto simp: complete_run_terminalization_def Let_def split: option.splits if_splits)

lemma lease_contracts:
  "renew_run_recovery_lease now run_id owner_id lease_seconds db = Inr (db', x) \<Longrightarrow> store_contract db db'"
  "release_run_recovery_lease run_id owner_id db = Inr (db', x) \<Longrightarrow> store_contract db db'"
  "claim_run_recovery_lease now run_id owner_id lease_seconds db = Inr (db', y) \<Longrightarrow> store_contract db db'"
  by (auto simp: renew_run_recovery_lease_def release_run_recovery_lease_def claim_run_recovery_lease_def
      res_bind_Inr Let_def split: if_splits)

section \<open>Provider tasks\<close>

lemma update_task_contract:
  assumes "sql_update (\<lambda>_. True) P f (db_tasks db) = Inr (t, n)"
    and "\<And>p. P p \<Longrightarrow> task_legal p \<Longrightarrow> task_change p (f p)"
  shows "store_contract db (db\<lparr>db_tasks := t\<rparr>)"
  by (rule contract_tasks) (rule tasks.sql_update_step [OF assms(1)], rule assms(2))

lemma task_after_Inr:
  "task_after task_id old n new = Inr (db', x) \<Longrightarrow> db' = old \<or> db' = new"
  by (auto simp: task_after_def res_bind_Inr returning_Inr split: if_splits)

lemma insert_task_contract:
  assumes "insert_or_read_provider_task new_id now input db = Inr (db', x)"
  shows "store_contract db db'"
proof -
  obtain lease deadline t where u: "insert_or_ignore
         (\<not> row_exists (\<lambda>p. pt_id p = new_id \<or> pt_run_step_id p = np_run_step_id input \<or>
             pt_operation_key p = np_operation_key input) (db_tasks db))
         (row_exists (\<lambda>r. rr_id r = np_run_id input) (db_runs db) \<and>
          row_exists (\<lambda>s. rs_id s = np_run_step_id input) (db_steps db))
         (new_task_row new_id now lease deadline input) (db_tasks db) = Inr t"
    and db': "db' = db\<lparr>db_tasks := t\<rparr>"
    using assms by (auto simp: insert_or_read_provider_task_def res_bind_Inr Let_def split: if_splits)
  have "tasks.table_step\<^sup>*\<^sup>* (db_tasks db) t"
    by (rule tasks.insert_or_ignore_step [OF u])
       (auto simp: new_task_row_def task_legal_def task_state_check_def open_task_state_def)
  with db' show ?thesis using contract_tasks by simp
qed

lemmas task_defs = task_change_def task_legal_def task_state_check_def open_task_state_def task_rank_def

lemma renew_dispatch_contract:
  assumes "renew_dispatch_owner now task_id owner_id lease_seconds db = Inr (db', x)"
  shows "store_contract db db'"
proof -
  obtain lease t n where u: "sql_update (\<lambda>_. True)
       (\<lambda>p. pt_id p = task_id \<and> pt_state p = ''dispatching'' \<and> pt_dispatch_owner_id p = Some owner_id \<and>
          lease_live now (pt_dispatch_deadline_at p))
       (\<lambda>p. p\<lparr>pt_dispatch_lease_expires_at := Some (now + lease), pt_updated_at := now\<rparr>)
       (db_tasks db) = Inr (t, n)" and db': "db' = db\<lparr>db_tasks := t\<rparr>"
    using assms by (auto simp: renew_dispatch_owner_def res_bind_Inr)
  show ?thesis unfolding db' by (rule update_task_contract [OF u]) (simp add: task_defs)
qed

lemma activate_task_contract:
  assumes "activate_provider_task now input db = Inr (db', x)"
  shows "store_contract db db'"
proof -
  obtain deadline t n where u: "sql_update (\<lambda>_. True)
       (\<lambda>p. pt_id p = th_task_id input \<and> pt_state p = ''dispatching'' \<and>
          pt_dispatch_owner_id p = Some (th_dispatch_owner_id input))
       (\<lambda>p. p\<lparr>pt_state := ''active'', pt_provider_task_id := Some (th_provider_task_id input),
          pt_status_url := th_status_url input, pt_result_url := th_result_url input,
          pt_recovery_deadline_at := Some (now + deadline), pt_dispatch_lease_expires_at := None,
          pt_updated_at := now\<rparr>) (db_tasks db) = Inr (t, n)"
    and "db' = db \<or> db' = db\<lparr>db_tasks := t\<rparr>"
    using assms by (auto simp: activate_provider_task_def res_bind_Inr dest: task_after_Inr)
  moreover have "store_contract db (db\<lparr>db_tasks := t\<rparr>)"
    by (rule update_task_contract [OF u]) (simp add: task_defs)
  ultimately show ?thesis by auto
qed

lemma record_materialization_failure_contract:
  assumes "record_materialization_failure now task_id retry_after_seconds error_code db = Inr (db', x)"
  shows "store_contract db db'"
proof -
  obtain retry t n where u: "sql_update (\<lambda>_. True)
       (\<lambda>p. pt_id p = task_id \<and> pt_state p = ''result_ready'' \<and>
          lease_live now (pt_materialization_deadline_at p))
       (\<lambda>p. p\<lparr>pt_materialization_attempts := pt_materialization_attempts p + 1,
          pt_materialization_next_retry_at := Some (now + retry), pt_last_error_code := Some error_code,
          pt_updated_at := now\<rparr>) (db_tasks db) = Inr (t, n)"
    and "db' = db \<or> db' = db\<lparr>db_tasks := t\<rparr>"
    using assms by (auto simp: record_materialization_failure_def res_bind_Inr dest: task_after_Inr)
  moreover have "store_contract db (db\<lparr>db_tasks := t\<rparr>)"
    by (rule update_task_contract [OF u]) (simp add: task_defs)
  ultimately show ?thesis by auto
qed

text \<open>A plain transition leaves an open state for a terminal one.\<close>

lemma transition_task_contract:
  assumes "transition_provider_task now task_id expected_state next_state error_code db = Inr (db', x)"
    and "open_task_state expected_state" "task_state_check next_state" "\<not> open_task_state next_state"
  shows "store_contract db db'"
proof -
  obtain t n where u: "sql_update (\<lambda>_. True) (\<lambda>p. pt_id p = task_id \<and> pt_state p = expected_state)
       (\<lambda>p. p\<lparr>pt_state := next_state, pt_last_error_code := error_code, pt_ended_at := Some now,
          pt_updated_at := now\<rparr>) (db_tasks db) = Inr (t, n)"
    and "db' = db \<or> db' = db\<lparr>db_tasks := t\<rparr>"
    using assms(1) by (auto simp: transition_provider_task_def res_bind_Inr dest: task_after_Inr)
  moreover have "store_contract db (db\<lparr>db_tasks := t\<rparr>)"
    by (rule update_task_contract [OF u])
       (use assms(2-4) in \<open>auto simp: task_change_def task_legal_def task_rank_def open_task_state_def\<close>)
  ultimately show ?thesis by auto
qed

lemma complete_task_contract:
  "complete_provider_task now task_id expected_state error_code db = Inr (db', x) \<Longrightarrow>
   open_task_state expected_state \<Longrightarrow> store_contract db db'"
  unfolding complete_provider_task_def
  by (erule transition_task_contract) (simp_all add: task_state_check_def open_task_state_def)

lemma cancel_task_contract:
  "cancel_provider_task now task_id error_code db = Inr (db', x) \<Longrightarrow> store_contract db db'"
  unfolding cancel_provider_task_def
  by (erule transition_task_contract) (simp_all add: task_state_check_def open_task_state_def)

lemma abandon_task_contract:
  assumes "abandon_provider_task now task_id expected_state error_code db = Inr (db', x)"
    and "open_task_state expected_state"
  shows "store_contract db db'"
proof -
  have "transition_provider_task now task_id expected_state ''abandoned'' (Some error_code) db = Inr (db', x)"
    using assms(1) by (simp add: abandon_provider_task_def split: if_splits)
  from transition_task_contract [OF this assms(2)] show ?thesis
    by (simp add: task_state_check_def open_task_state_def)
qed

lemma result_ready_contract:
  assumes "mark_provider_task_result_ready new_id now input db = Inr (db', x)"
  shows "store_contract db db'"
proof (cases "db' = db")
  case False
  obtain deadline t n p where u: "sql_update (\<lambda>_. True)
        (\<lambda>p. pt_id p = tr_task_id input \<and>
           (pt_state p = ''active'' \<or>
            pt_state p = ''dispatching'' \<and> tr_dispatch_owner_id input \<noteq> None \<and>
              pt_dispatch_owner_id p = tr_dispatch_owner_id input))
        (\<lambda>p. p\<lparr>pt_state := ''result_ready'', pt_terminal_outcome := Some (tr_terminal_outcome input),
           pt_result_spool_path := Some (tr_result_spool_path input),
           pt_result_fingerprint := Some (tr_result_fingerprint input),
           pt_materialization_deadline_at := Some (now + deadline), pt_materialization_attempts := 0,
           pt_materialization_next_retry_at := Some now, pt_dispatch_lease_expires_at := None,
           pt_updated_at := now\<rparr>) (db_tasks db) = Inr (t, n)"
    and ins: "insert_actual_cost_once new_id now p input (db\<lparr>db_tasks := t\<rparr>) = Inr db'"
    using assms False by (auto simp: mark_provider_task_result_ready_def res_bind_Inr split: if_splits)
  obtain l where "db' = db\<lparr>db_tasks := t, db_ledger := l\<rparr>"
    using ins by (auto simp: insert_actual_cost_once_def res_bind_Inr Let_def
        dest!: insert_ledger_once_Inr split: if_splits)
  moreover have "store_contract db (db\<lparr>db_tasks := t\<rparr>)"
    by (rule update_task_contract [OF u]) (auto simp: task_defs)
  ultimately show ?thesis by (simp add: store_contract_def outputs_step_def)
qed simp

lemma create_intent_contract:
  "create_or_read_execution_intent now run_id pf ef cd db = Inr (db', x) \<Longrightarrow> store_contract db db'"
  by (auto simp: create_or_read_execution_intent_def res_bind_Inr split: if_splits)

section \<open>Step finalizers\<close>

lemma link_output_Inr:
  assumes "link_output op now step_id port artifact_id db = Inr db'"
  shows "\<exists>xs. db' = db\<lparr>db_outputs := db_outputs db @ xs\<rparr> \<and> (\<forall>x\<in>set xs. so_run_step_id x = step_id) \<and>
     (distinct (map output_key (db_outputs db)) \<longrightarrow> distinct (map output_key (db_outputs db @ xs)))"
proof -
  define x where "x = \<lparr>so_run_step_id = step_id, so_port = port, so_artifact_id = artifact_id, so_created_at = now\<rparr>"
  obtain t where t: "insert_or_ignore
         (\<not> row_exists (\<lambda>x. so_run_step_id x = step_id \<and> so_port x = port) (db_outputs db) \<and>
          \<not> row_exists (\<lambda>x. so_artifact_id x = artifact_id) (db_outputs db))
         (row_exists (\<lambda>s. rs_id s = step_id) (db_steps db) \<and>
          row_exists (\<lambda>a. ar_id a = artifact_id) (db_artifacts db)) x (db_outputs db) = Inr t"
    and db': "db' = db\<lparr>db_outputs := t\<rparr>"
    using assms by (auto simp: link_output_def insert_output_def res_bind_Inr x_def split: if_splits)
  consider "t = db_outputs db" | "t = db_outputs db @ [x]"
      "\<not> row_exists (\<lambda>x. so_run_step_id x = step_id \<and> so_port x = port) (db_outputs db)"
    using t by (auto simp: insert_or_ignore_Inr split: if_splits)
  then show ?thesis
  proof cases
    case 1
    then show ?thesis using db' by (intro exI [of _ "[]"]) simp
  next
    case 2
    then show ?thesis using db' by (intro exI [of _ "[x]"]) (auto simp: x_def output_key_def)
  qed
qed

lemma link_outputs_Inr:
  assumes "fold_res (\<lambda>(port, artifact_id). link_output op now step_id port artifact_id) outputs db = Inr db'"
  shows "\<exists>xs. db' = db\<lparr>db_outputs := db_outputs db @ xs\<rparr> \<and> (\<forall>x\<in>set xs. so_run_step_id x = step_id) \<and>
     (distinct (map output_key (db_outputs db)) \<longrightarrow> distinct (map output_key (db_outputs db @ xs)))"
  using assms
proof (induction outputs arbitrary: db)
  case Nil
  then show ?case by (intro exI [of _ "[]"]) simp
next
  case (Cons o' outputs)
  obtain port a where o': "o' = (port, a)" by (cases o')
  from Cons.prems obtain d where d: "link_output op now step_id port a db = Inr d"
    "fold_res (\<lambda>(port, artifact_id). link_output op now step_id port artifact_id) outputs d = Inr db'"
    by (auto simp: o' split: sum.splits)
  from link_output_Inr [OF d(1)] obtain xs where
    "d = db\<lparr>db_outputs := db_outputs db @ xs\<rparr>" "\<forall>x\<in>set xs. so_run_step_id x = step_id"
    "distinct (map output_key (db_outputs db)) \<longrightarrow> distinct (map output_key (db_outputs db @ xs))"
    by blast
  moreover from Cons.IH [OF d(2)] obtain ys where
    "db' = d\<lparr>db_outputs := db_outputs d @ ys\<rparr>" "\<forall>x\<in>set ys. so_run_step_id x = step_id"
    "distinct (map output_key (db_outputs d)) \<longrightarrow> distinct (map output_key (db_outputs d @ ys))"
    by blast
  ultimately show ?case by (intro exI [of _ "xs @ ys"]) auto
qed

lemma finalize_success_Inr:
  assumes "finalize_run_step_success now step_id task_id cost_actual_json outputs db = Inr (db', True)"
  obtains linked ss ts m where
    "link_outputs now step_id outputs db = Inr linked"
    "succeed_step now step_id cost_actual_json linked = Inr (ss, 1)"
    "complete_delivered_task now task_id linked = Inr (ts, m)"
    "db' = linked\<lparr>db_steps := ss, db_tasks := ts\<rparr>"
  using assms by (auto simp: finalize_run_step_success_def res_bind_Inr split: if_splits)

lemma succeed_step_step:
  assumes "succeed_step now step_id cost_actual_json db = Inr (ss, n)"
  shows "steps.table_step\<^sup>*\<^sup>* (db_steps db) ss"
  by (rule steps.sql_update_step [OF assms [unfolded succeed_step_def]])
     (auto simp: step_change_def step_legal_def terminal_step_state_def)

lemma succeed_step_hit:
  assumes "succeed_step now step_id cost_actual_json db = Inr (ss, n)" "n \<noteq> 0"
  shows "\<exists>s\<in>set ss. rs_id s = step_id \<and> rs_state s = ''succeeded''"
  using sql_update_hit [OF assms(1) [unfolded succeed_step_def] assms(2)]
  by (auto intro: bexI [rotated])

lemma complete_delivered_task_step:
  assumes "complete_delivered_task now task_id db = Inr (ts, m)"
  shows "tasks.table_step\<^sup>*\<^sup>* (db_tasks db) ts"
proof (cases task_id)
  case None
  then show ?thesis using assms by (simp add: complete_delivered_task_def)
next
  case (Some t)
  from assms [unfolded complete_delivered_task_def Some option.case] show ?thesis
    by (rule tasks.sql_update_step) (auto simp: task_defs)
qed

lemma finalize_success_contract:
  assumes "finalize_run_step_success now step_id task_id cost_actual_json outputs db = Inr (db', True)"
  shows "store_contract db db'"
proof -
  from assms obtain linked ss ts m where l: "link_outputs now step_id outputs db = Inr linked"
    and u: "succeed_step now step_id cost_actual_json linked = Inr (ss, 1)"
    and v: "complete_delivered_task now task_id linked = Inr (ts, m)"
    and db': "db' = linked\<lparr>db_steps := ss, db_tasks := ts\<rparr>"
    by (rule finalize_success_Inr)
  from link_outputs_Inr [OF l [unfolded link_outputs_def]] obtain xs where
    xs: "linked = db\<lparr>db_outputs := db_outputs db @ xs\<rparr>" "\<forall>x\<in>set xs. so_run_step_id x = step_id"
    "distinct (map output_key (db_outputs db)) \<longrightarrow> distinct (map output_key (db_outputs db @ xs))"
    by blast
  have "\<exists>s\<in>set ss. rs_id s = step_id \<and> rs_state s = ''succeeded''"
    by (rule succeed_step_hit [OF u]) simp
  then have "outputs_step db db'"
    using xs(2,3) by (auto simp: outputs_step_def db' xs(1) output_settled_def)
  then show ?thesis
    using succeed_step_step [OF u] complete_delivered_task_step [OF v]
    by (simp add: db' xs(1) store_contract_def)
qed

lemma finalize_success_False:
  "finalize_run_step_success now step_id task_id cost_actual_json outputs db = Inr (db', False) \<Longrightarrow> db' = db"
  unfolding finalize_run_step_success_def by (auto simp: res_bind_Inr split: if_splits)

lemma fail_task_step:
  assumes "fail_task now input p db = Inr (Some db')"
    and "ff_terminal_task_state input \<in> {''completed'', ''cancelled'', ''abandoned''}"
    and "open_task_state (ff_expected_task_state input)"
  shows "\<exists>t. db' = db\<lparr>db_tasks := t\<rparr> \<and> tasks.table_step\<^sup>*\<^sup>* (db_tasks db) t"
proof (cases "pt_state p = ff_terminal_task_state input")
  case True
  with assms(1) have "db' = db" by (auto simp: fail_task_def split: if_splits)
  then show ?thesis by (intro exI [of _ "db_tasks db"]) simp
next
  case False
  with assms(1) obtain t n where u: "sql_update (\<lambda>_. True)
          (\<lambda>q. pt_id q = ff_provider_task_id input \<and> pt_state q = ff_expected_task_state input)
          (\<lambda>q. q\<lparr>pt_state := ff_terminal_task_state input, pt_last_error_code := Some (ff_error_code input),
             pt_dispatch_owner_id := None, pt_dispatch_lease_expires_at := None,
             pt_ended_at := Some now, pt_updated_at := now\<rparr>) (db_tasks db) = Inr (t, n)"
    and db': "db' = db\<lparr>db_tasks := t\<rparr>"
    by (auto simp: fail_task_def res_bind_Inr split: if_splits)
  have "tasks.table_step\<^sup>*\<^sup>* (db_tasks db) t"
    by (rule tasks.sql_update_step [OF u]) (use assms(2,3) in \<open>auto simp: task_defs\<close>)
  with db' show ?thesis by blast
qed

lemma finalize_failure_contract:
  assumes "finalize_provider_task_failure now input db = Inr (db', x)"
    and "open_task_state (ff_expected_task_state input)"
  shows "store_contract db db'"
proof (cases "db' = db")
  case False
  obtain p d ss n where trm: "ff_terminal_task_state input \<in> {''completed'', ''cancelled'', ''abandoned''}"
    and d: "fail_task now input p db = Inr (Some d)"
    and ss: "fail_step now (pt_run_step_id p) (ff_error_json input) d = Inr (ss, n)"
    and up: "upsert_terminalization now (pt_run_id p) (ff_desired_run_status input)
              (ff_error_json input) (d\<lparr>db_steps := ss\<rparr>) = Inr db'"
    using assms(1) False unfolding finalize_provider_task_failure_def
    by (auto simp: res_bind_Inr split: if_splits option.splits)
  obtain t where t: "d = db\<lparr>db_tasks := t\<rparr>" "tasks.table_step\<^sup>*\<^sup>* (db_tasks db) t"
    using fail_task_step [OF d trm assms(2)] by blast
  obtain w where w: "db' = d\<lparr>db_steps := ss, db_terminalizations := w\<rparr>"
    "terminalizations.table_step\<^sup>*\<^sup>* (db_terminalizations db) w"
    using upsert_terminalization_step [OF up] by (auto simp: t(1))
  have "steps.table_step\<^sup>*\<^sup>* (db_steps db) ss"
    by (rule steps.sql_update_step [OF ss [unfolded fail_step_def t(1), simplified]])
       (auto simp: step_change_def step_legal_def terminal_step_state_def)
  with t(2) w(2) show ?thesis by (simp add: w(1) t(1) store_contract_def outputs_same)
qed simp

end
