(* ===== verification/Numbering.thy ===== *)
theory Numbering
  imports Transition
begin

text \<open>
  Rows numbered within a group by \<open>COALESCE(MAX(n), 0) + 1\<close> at insertion: if rows are only
  appended, the rows of a group carry 1, 2, 3, ... in order.  Instances: the events of a run, the
  versions of a workspace.
\<close>

lemma foldr_max_ge: "(m::int) \<le> foldr max xs m"
  by (induction xs) auto

lemma max_upto: "0 < n \<Longrightarrow> foldr max [1..int n] (1::int) = int n"
proof (induction n)
  case (Suc n)
  have start: "foldr max xs (1 + int n) = max (foldr max xs 1) (1 + int n)" for xs
    by (induction xs) (auto simp: max.assoc)
  have split: "[1..1 + int n] = [1..int n] @ [1 + int n]" by (simp add: upto_rec2)
  have "foldr max [1..int n] (1::int) \<le> int (Suc n)"
    using Suc.IH by (cases "n = 0") auto
  then show ?case by (simp add: split start)
qed simp

locale numbered_rows =
  fixes grp :: "'r \<Rightarrow> 'g" and num :: "'r \<Rightarrow> int"
begin

definition rows_of :: "'g \<Rightarrow> 'r list \<Rightarrow> 'r list" where
  "rows_of i t = filter (\<lambda>r. grp r = i) t"

definition numbered :: "'r list \<Rightarrow> bool" where
  "numbered t \<longleftrightarrow> (\<forall>i. map num (rows_of i t) = [1..int (length (rows_of i t))])"

definition next_number :: "'g \<Rightarrow> 'r list \<Rightarrow> int" where
  "next_number i t = (let ns = map num (rows_of i t)
     in (if ns = [] then 0 else foldr max ns (hd ns)) + 1)"

inductive numbered_step :: "'r list \<Rightarrow> 'r list \<Rightarrow> bool" where
  appended: "num r = next_number (grp r) t \<Longrightarrow> numbered_step t (t @ [r])"

lemma next_number_numbered:
  assumes "numbered t"
  shows "next_number i t = int (length (rows_of i t)) + 1"
proof (cases "rows_of i t = []")
  case False
  let ?n = "length (rows_of i t)"
  from False have pos: "0 < ?n" by simp
  then have "1 \<le> int ?n" by linarith
  then have hd1: "hd [1..int ?n] = 1" by (simp only: upto_rec1 list.sel)
  have ns: "map num (rows_of i t) = [1..int ?n]" using assms by (simp add: numbered_def)
  show ?thesis
    using False pos hd1 by (simp add: next_number_def Let_def ns max_upto del: length_greater_0_conv)
qed (simp add: next_number_def)

lemma rows_of_snoc: "rows_of i (t @ [r]) = rows_of i t @ (if grp r = i then [r] else [])"
  by (simp add: rows_of_def)

lemma numbered_step_numbered: "numbered_step t t' \<Longrightarrow> numbered t \<Longrightarrow> numbered t'"
proof (induction rule: numbered_step.induct)
  case (appended r t)
  then have "num r = int (length (rows_of (grp r) t)) + 1" by (simp add: next_number_numbered)
  with appended(2) show ?case
    unfolding numbered_def by (auto simp: rows_of_snoc upto_rec2 add.commute)
qed

lemma numbered_nth:
  assumes "numbered t" "k < length (rows_of i t)"
  shows "num (rows_of i t ! k) = int k + 1"
proof -
  have "map num (rows_of i t) ! k = [1..int (length (rows_of i t))] ! k"
    using assms(1) by (simp add: numbered_def)
  with assms(2) show ?thesis by (simp add: nth_upto)
qed

text \<open>Numbers identify the rows of a group.\<close>

lemma numbered_last_greatest:
  assumes "numbered t" "r \<in> set t"
  shows "num r \<le> num (last (rows_of (grp r) t))"
proof -
  let ?rs = "rows_of (grp r) t"
  from assms(2) have "r \<in> set ?rs" by (simp add: rows_of_def)
  then obtain k where k: "k < length ?rs" "?rs ! k = r" by (auto simp: in_set_conv_nth)
  then have "?rs \<noteq> []" by auto
  then have "num (last ?rs) = int (length ?rs - 1) + 1"
    using numbered_nth [OF assms(1), of "length ?rs - 1" "grp r"] by (simp add: last_conv_nth)
  with k numbered_nth [OF assms(1) k(1)] show ?thesis by simp
qed

end

sublocale numbered_rows \<subseteq> numbering: invariant_system numbered_step numbered
  by unfold_locales (rule numbered_step_numbered)

end
