(* ===== verification/Store_System.thy ===== *)
theory Store_System
  imports Store_Contract Numbering
begin

text \<open>
  The run store as a transition system: \<open>store_step\<close> has one rule per operation, with what its
  call sites in crates/run guarantee as the premise, and one rule for the workspaces and versions
  other parts of the store write.  The properties hold in every database reachable from an empty
  one.
\<close>

section \<open>Steps\<close>

inductive store_step :: "db \<Rightarrow> db \<Rightarrow> bool" where
  environment: "store_step db (db\<lparr>db_workspaces := ws, db_versions := vs\<rparr>)"
| create_run: "create_run new_id now nr db = Inr (db', r) \<Longrightarrow> store_step db db'"
| claim: "\<lbrakk>claim_run_if_workspace_idle now (rr_id r) expected next_status (rr_workspace_id r)
      (rr_group_id r) db = Inr (db', x); r \<in> set (db_runs db); \<not> terminal_status expected\<rbrakk>
    \<Longrightarrow> store_step db db'"
| force_rerun: "set_run_force_rerun run_id b db = Inr (db', r) \<Longrightarrow> store_step db db'"
| status: "\<lbrakk>update_run_status now run_id st error_json db = Inr (db', r);
      active_status st \<Longrightarrow> \<forall>r\<in>set (db_runs db). rr_id r = run_id \<longrightarrow> active_status (rr_status r)\<rbrakk>
    \<Longrightarrow> store_step db db'"
| status_if_current: "\<lbrakk>update_run_status_if_current now run_id expected st error_json db = Inr (db', x);
      \<not> terminal_status expected\<rbrakk> \<Longrightarrow> store_step db db'"
| estimate: "\<lbrakk>update_run_estimate_and_status run_id estimate_json st db = Inr (db', r);
      active_status st \<Longrightarrow> \<forall>r\<in>set (db_runs db). rr_id r = run_id \<longrightarrow> active_status (rr_status r)\<rbrakk>
    \<Longrightarrow> store_step db db'"
| create_step: "create_run_step new_id ns db = Inr (db', s) \<Longrightarrow> store_step db db'"
| step_state: "update_run_step_state now step_id st progress cost error_json db = Inr (db', s)
    \<Longrightarrow> store_step db db'"
| step_cached: "mark_run_step_cached_succeeded now step_id metadata db = Inr (db', s) \<Longrightarrow> store_step db db'"
| step_estimate: "update_run_step_cost_estimate step_id estimate_json db = Inr (db', s)
    \<Longrightarrow> store_step db db'"
| event: "append_run_event new_id now run_id ev data db = Inr (db', e) \<Longrightarrow> store_step db db'"
| artifact_created: "create_artifact new_id now na db = Inr (db', a) \<Longrightarrow> store_step db db'"
| artifact_selected: "update_artifact_selected artifact_id b db = Inr (db', a) \<Longrightarrow> store_step db db'"
| artifact_reviewed: "set_artifact_review_state artifact_id expected_from st db = Inr (db', y)
    \<Longrightarrow> store_step db db'"
| run_artifact: "select_run_artifact artifact_id db = Inr (db', a) \<Longrightarrow> store_step db db'"
| group_artifact: "select_group_artifact artifact_id group_id db = Inr (db', a) \<Longrightarrow> store_step db db'"
| ledger: "create_cost_ledger new_id now nc db = Inr (db', c) \<Longrightarrow> store_step db db'"
| ledger_once: "create_cost_ledger_once new_id now key nc db = Inr (db', c) \<Longrightarrow> store_step db db'"
| stale: "interrupt_stale_active_runs now db = Inr (db', rs) \<Longrightarrow> store_step db db'"
| retry: "create_retry_run new_id cost_ids now parent b db = Inr (db', r) \<Longrightarrow> store_step db db'"
| reject_retry: "create_reject_retry_run_once new_id cost_ids now parent db = Inr (db', z)
    \<Longrightarrow> store_step db db'"
| retry_once: "create_retry_run_once new_id cost_ids now parent b db = Inr (db', r) \<Longrightarrow> store_step db db'"
| retry_created: "mark_failure_retry_created now run_id child db = Inr (db', c') \<Longrightarrow> store_step db db'"
| continuation_completed: "complete_failure_continuation now run_id b db = Inr (db', c')
    \<Longrightarrow> store_step db db'"
| terminalization_requested: "request_run_terminalization now run_id st error_json db = Inr (db', w)
    \<Longrightarrow> store_step db db'"
| terminalization_claimed: "claim_run_terminalization now run_id owner lease db = Inr (db', b)
    \<Longrightarrow> store_step db db'"
| terminalization_renewed: "renew_run_terminalization_lease now run_id owner lease db = Inr (db', b)
    \<Longrightarrow> store_step db db'"
| terminalization_completed: "complete_run_terminalization new_id now run_id owner db = Inr (db', x)
    \<Longrightarrow> store_step db db'"
| lease_claimed: "claim_run_recovery_lease now run_id owner lease db = Inr (db', l) \<Longrightarrow> store_step db db'"
| lease_renewed: "renew_run_recovery_lease now run_id owner lease db = Inr (db', b) \<Longrightarrow> store_step db db'"
| lease_released: "release_run_recovery_lease run_id owner db = Inr (db', b) \<Longrightarrow> store_step db db'"
| intent: "create_or_read_execution_intent now run_id pf ef cd db = Inr (db', i) \<Longrightarrow> store_step db db'"
| task_inserted: "insert_or_read_provider_task new_id now np db = Inr (db', p) \<Longrightarrow> store_step db db'"
| task_renewed: "renew_dispatch_owner now task_id owner lease db = Inr (db', b) \<Longrightarrow> store_step db db'"
| task_activated: "activate_provider_task now th db = Inr (db', p') \<Longrightarrow> store_step db db'"
| task_ready: "mark_provider_task_result_ready new_id now tr db = Inr (db', p') \<Longrightarrow> store_step db db'"
| task_retried: "record_materialization_failure now task_id after_seconds code db = Inr (db', p')
    \<Longrightarrow> store_step db db'"
| task_completed: "\<lbrakk>complete_provider_task now task_id expected code' db = Inr (db', p');
      open_task_state expected\<rbrakk> \<Longrightarrow> store_step db db'"
| task_cancelled: "cancel_provider_task now task_id code' db = Inr (db', p') \<Longrightarrow> store_step db db'"
| task_abandoned: "\<lbrakk>abandon_provider_task now task_id expected code db = Inr (db', p');
      open_task_state expected\<rbrakk> \<Longrightarrow> store_step db db'"
| step_succeeded: "finalize_run_step_success now step_id task cost outputs db = Inr (db', b)
    \<Longrightarrow> store_step db db'"
| task_failed: "\<lbrakk>finalize_provider_task_failure now ff db = Inr (db', b);
      open_task_state (ff_expected_task_state ff)\<rbrakk> \<Longrightarrow> store_step db db'"

definition initial_db :: db where
  "initial_db = \<lparr>db_workspaces = [], db_versions = [], db_runs = [], db_steps = [], db_events = [],
     db_artifacts = [], db_ledger = [], db_tasks = [], db_outputs = [], db_leases = [],
     db_intents = [], db_terminalizations = [], db_continuations = [], db_reject_retries = []\<rparr>"

section \<open>The invariant\<close>

definition events_numbered :: "run_event_record list \<Rightarrow> bool" where
  "events_numbered es \<longleftrightarrow> (\<forall>i. map re_seq (filter (\<lambda>e. re_run_id e = i) es) =
     [1..int (length (filter (\<lambda>e. re_run_id e = i) es))])"

definition db_ok :: "db \<Rightarrow> bool" where
  "db_ok db \<longleftrightarrow> runs_ok (db_runs db) \<and> steps.table_ok (db_steps db) \<and> tasks.table_ok (db_tasks db) \<and>
     continuations.table_ok (db_continuations db) \<and> terminalizations.table_ok (db_terminalizations db) \<and>
     artifacts.table_ok (db_artifacts db) \<and>
     events_numbered (db_events db) \<and> (\<forall>x\<in>set (db_outputs db). output_settled (db_steps db) x) \<and>
     distinct (map output_key (db_outputs db))"

lemma db_ok_initial: "db_ok initial_db"
  by (simp add: db_ok_def initial_db_def runs_ok_def runs_exclusive_def steps.table_ok_def
      steps_table.keyed_def tasks.table_ok_def tasks_table.keyed_def continuations.table_ok_def
      continuations_table.keyed_def terminalizations.table_ok_def terminalizations_table.keyed_def
      artifacts.table_ok_def artifacts.keyed_def events_numbered_def)

interpretation event_rows: numbered_rows re_run_id re_seq .

lemma events_numbered_rows: "events_numbered es \<longleftrightarrow> event_rows.numbered es"
  by (simp add: events_numbered_def event_rows.numbered_def event_rows.rows_of_def)

lemma next_seq_rows: "next_seq i es = event_rows.next_number i es"
  by (simp add: next_seq_def event_rows.next_number_def event_rows.rows_of_def)

lemma events_step_numbered: "events_step es es' \<Longrightarrow> events_numbered es \<Longrightarrow> events_numbered es'"
  unfolding events_numbered_rows
  by (induction rule: events_step.induct)
    (auto simp: next_seq_rows intro: event_rows.numbered_step_numbered event_rows.appended)

interpretation events: invariant_system events_step events_numbered
  by unfold_locales (rule events_step_numbered)

lemma output_settled_kept:
  assumes "steps.table_step\<^sup>*\<^sup>* ss ss'" "steps.table_ok ss" "output_settled ss x"
  shows "output_settled ss' x"
proof -
  from assms(3) obtain s where s: "s \<in> set ss" "rs_id s = so_run_step_id x" "rs_state s = ''succeeded''"
    by (auto simp: output_settled_def)
  from steps.table_steps_follow [OF assms(1,2) s(1)] obtain s' where "s' \<in> set ss'" "step_change s s'"
    by blast
  with s show ?thesis
    by (auto simp: output_settled_def step_change_def terminal_step_state_def intro!: bexI [of _ s'])
qed

lemma contract_ok: "store_contract d d' \<Longrightarrow> db_ok d \<Longrightarrow> db_ok d'"
  unfolding store_contract_def db_ok_def outputs_step_def
  using runs_system.steps_inv steps.steps_inv tasks.steps_inv continuations.steps_inv
    terminalizations.steps_inv events.steps_inv artifacts.steps_inv output_settled_kept [of "db_steps d" "db_steps d'"]
  by (auto simp: ball_Un)

section \<open>Every operation implements the contract\<close>

lemmas operation_contracts =
  create_run_contract update_run_status_contract update_run_estimate_contract
  create_run_step_contract update_run_step_state_contract mark_run_step_cached_succeeded_contract
  update_run_step_cost_estimate_contract append_run_event_contract artifact_contracts ledger_contracts
  interrupt_stale_contract create_retry_run_contract create_reject_retry_contract
  create_retry_run_once_contract mark_failure_retry_created_contract complete_failure_continuation_contract
  request_terminalization_contract claim_terminalization_contract renew_terminalization_contract
  complete_terminalization_contract lease_contracts create_intent_contract insert_task_contract
  renew_dispatch_contract activate_task_contract result_ready_contract
  record_materialization_failure_contract complete_task_contract cancel_task_contract
  abandon_task_contract finalize_failure_contract

lemma store_step_contract:
  assumes "store_step db db'" "db_ok db"
  shows "store_contract db db'"
  using assms
proof (cases rule: store_step.cases)
  case (environment ws vs)
  then show ?thesis by (simp add: store_contract_def outputs_same)
next
  case (claim now r expected next_status x)
  have "r' = r" if "r' \<in> set (db_runs db)" "rr_id r' = rr_id r" for r'
    using claim(2) that assms(2) runs_table.keyed_unique [of "db_runs db" r' r]
    by (simp add: db_ok_def runs_ok_def runs_table.keyed_def)
  then show ?thesis by (intro claim_run_contract [OF claim(1) _ claim(3)]) auto
next
  case (force_rerun run_id b r)
  then show ?thesis
    using set_run_force_rerun_contract assms(2) by (auto simp: db_ok_def runs_ok_def)
next
  case (status_if_current now run_id expected st error_json x)
  then show ?thesis
    using update_run_status_if_current_contract assms(2) by (auto simp: db_ok_def runs_ok_def)
next
  case (status now run_id st error_json r)
  then show ?thesis using update_run_status_contract by blast
next
  case (estimate run_id estimate_json st r)
  then show ?thesis using update_run_estimate_contract by blast
next
  case (step_succeeded now step_id task cost outputs b)
  then show ?thesis
    using finalize_success_contract [of now step_id task cost outputs db db']
      finalize_success_False [of now step_id task cost outputs db db'] by (cases b) auto
qed (erule operation_contracts; assumption)+

interpretation store: invariant_system store_step db_ok
  by unfold_locales (use store_step_contract contract_ok in blast)

lemma reachable_ok: "store_step\<^sup>*\<^sup>* initial_db db \<Longrightarrow> db_ok db"
  using store.steps_inv db_ok_initial by blast

end
