(* ===== verification/Store_Properties.thy ===== *)
theory Store_Properties
  imports Store_System
begin

text \<open>
  What every history of the run store keeps: the contract along a sequence of operations, the
  properties of reachable databases, and a concrete history the witnesses use: a run that fails
  is settled, and its retry is created once.
\<close>

section \<open>The contract along a history\<close>

lemma outputs_step_trans:
  assumes "outputs_step a b" "outputs_step b c" "steps.table_step\<^sup>*\<^sup>* (db_steps b) (db_steps c)"
    "steps.table_ok (db_steps b)"
  shows "outputs_step a c"
proof -
  from assms(1,2) obtain xs ys where
    "db_outputs b = db_outputs a @ xs" "\<forall>x\<in>set xs. output_settled (db_steps b) x"
    "db_outputs c = db_outputs b @ ys" "\<forall>x\<in>set ys. output_settled (db_steps c) x"
    by (auto simp: outputs_step_def)
  with assms show ?thesis
    using output_settled_kept [OF assms(3,4)] unfolding outputs_step_def
    by (intro exI [of _ "xs @ ys"]) auto
qed

lemma store_contract_trans:
  "store_contract a b \<Longrightarrow> store_contract b c \<Longrightarrow> db_ok b \<Longrightarrow> store_contract a c"
  unfolding store_contract_def
  by (meson rtranclp_trans outputs_step_trans db_ok_def)

lemma store_steps_contract: "store_step\<^sup>*\<^sup>* a b \<Longrightarrow> db_ok a \<Longrightarrow> store_contract a b"
proof (induction rule: rtranclp_induct)
  case (step b c)
  then show ?case
    using store_contract_trans store_step_contract store.steps_inv by blast
qed simp

lemma db_okD:
  assumes "db_ok db"
  shows "steps.table_ok (db_steps db)" "tasks.table_ok (db_tasks db)"
    "continuations.table_ok (db_continuations db)" "terminalizations.table_ok (db_terminalizations db)"
    "runs_table.keyed (db_runs db)" "continuations_table.keyed (db_continuations db)"
    "terminalizations_table.keyed (db_terminalizations db)" "runs_exclusive (db_runs db)"
    "artifacts.table_ok (db_artifacts db)"
  using assms by (simp_all add: db_ok_def runs_ok_def runs_table.keyed_def
      continuations.table_ok_def terminalizations.table_ok_def)

lemma store_steps_follow:
  assumes "store_step\<^sup>*\<^sup>* a b" "db_ok a"
  shows "r \<in> set (db_runs a) \<Longrightarrow> \<exists>r'\<in>set (db_runs b). run_follows r r'"
    and "s \<in> set (db_steps a) \<Longrightarrow> \<exists>s'\<in>set (db_steps b). step_change s s'"
    and "p \<in> set (db_tasks a) \<Longrightarrow> \<exists>p'\<in>set (db_tasks b). task_change p p'"
    and "c \<in> set (db_continuations a) \<Longrightarrow> \<exists>c'\<in>set (db_continuations b). continuation_change c c'"
    and "w \<in> set (db_terminalizations a) \<Longrightarrow>
      \<exists>w'\<in>set (db_terminalizations b). terminalization_change w w'"
    and "x \<in> set (db_artifacts a) \<Longrightarrow> \<exists>x'\<in>set (db_artifacts b). artifact_change x x'"
    and "\<exists>xs. db_outputs b = db_outputs a @ xs"
  using store_steps_contract [OF assms] db_okD [OF assms(2)] runs_steps_follow
    steps.table_steps_follow tasks.table_steps_follow continuations.table_steps_follow
    terminalizations.table_steps_follow artifacts.table_steps_follow
  unfolding store_contract_def outputs_step_def by blast+

lemma fetch_unique:
  assumes "\<And>y. y \<in> set t \<Longrightarrow> P y \<Longrightarrow> y = x" "x \<in> set t" "P x"
  shows "fetch_optional P t = Some x"
proof (cases "fetch_optional P t")
  case None
  with assms(2,3) show ?thesis unfolding fetch_optional_None by blast
next
  case (Some y)
  with fetch_optional_Some [OF Some] assms(1) show ?thesis by blast
qed

lemma fetch_key:
  assumes "keyed_table.keyed key t" "r \<in> set t"
  shows "fetch_optional (\<lambda>x. key x = key r) t = Some r"
  by (rule fetch_unique) (use assms keyed_table.keyed_unique [OF assms(1)] in blast)+

lemma fetch_run: "db_ok db \<Longrightarrow> r \<in> set (db_runs db) \<Longrightarrow> store_run (rr_id r) db = Inr r"
  unfolding store_run_def by (rule runs_table.fetch_keyed [OF db_okD(5)])

lemma fetch_continuation:
  "db_ok db \<Longrightarrow> c \<in> set (db_continuations db) \<Longrightarrow> failure_continuation (fc_run_id c) db = Some c"
  unfolding failure_continuation_def by (rule fetch_key [OF db_okD(6)])

lemma fetch_terminalization:
  "db_ok db \<Longrightarrow> w \<in> set (db_terminalizations db) \<Longrightarrow> run_terminalization (tz_run_id w) db = Some w"
  unfolding run_terminalization_def by (rule fetch_key [OF db_okD(7)])

section \<open>Retries are created once\<close>

lemma store_run_Inr: "store_run i db = Inr r \<Longrightarrow> r \<in> set (db_runs db) \<and> rr_id r = i"
  unfolding store_run_def by (rule fetch_one_Inr)

lemma create_retry_run_once_linked:
  assumes "create_retry_run_once new_id cost_ids now parent b db = Inr (db', r)"
  shows "r \<in> set (db_runs db') \<and>
    (\<exists>c\<in>set (db_continuations db'). fc_run_id c = parent \<and> fc_child_run_id c = Some (rr_id r))"
proof -
  obtain c where c: "failure_continuation parent db = Some c"
    using assms by (auto simp: create_retry_run_once_def Let_def split: option.splits)
  from fetch_optional_Some [OF c [unfolded failure_continuation_def]]
  have c': "c \<in> set (db_continuations db)" "fc_run_id c = parent" by auto
  show ?thesis
  proof (cases "fc_child_run_id c")
    case (Some k)
    with assms c have "store_run k db = Inr r" "db' = db"
      by (auto simp: create_retry_run_once_def Let_def returning_Inr)
    with c' Some show ?thesis using store_run_Inr by blast
  next
    case None
    with assms c obtain d t where u: "sql_update (child_check d)
            (\<lambda>c. fc_run_id c = parent \<and> fc_state c = ''pending'' \<and> fc_child_run_id c = None)
            (\<lambda>c. c\<lparr>fc_state := ''retry_created'', fc_child_run_id := Some new_id, fc_updated_at := now\<rparr>)
            (db_continuations d) = Inr (t, 1)"
      and run: "store_run new_id (d\<lparr>db_continuations := t\<rparr>) = Inr r"
      and db': "db' = d\<lparr>db_continuations := t\<rparr>"
      by (auto simp: create_retry_run_once_def Let_def returning_Inr res_bind_Inr split: if_splits)
    from sql_update_hit [OF u] obtain c2 where "c2 \<in> set t" "fc_run_id c2 = parent"
      "fc_child_run_id c2 = Some new_id" by auto
    with store_run_Inr [OF run] show ?thesis by (auto simp: db')
  qed
qed

lemma retry_once_repeats:
  assumes "db_ok db" "c \<in> set (db_continuations db)" "fc_child_run_id c = Some (rr_id r)"
    "r \<in> set (db_runs db)"
  shows "create_retry_run_once new_id cost_ids now (fc_run_id c) b db = Inr (db, r)"
  using fetch_continuation [OF assms(1,2)] fetch_run [OF assms(1,4)] assms(3)
  by (simp add: create_retry_run_once_def Let_def returning_def res_bind_def)

section \<open>Settling a run\<close>

lemma insert_continuation_exists:
  assumes "insert_continuation now i db = Inr db'" "\<forall>c\<in>set (db_continuations db). continuation_legal c"
  shows "\<exists>c\<in>set (db_continuations db'). fc_run_id c = i"
  using assms by (auto simp: insert_continuation_def sql_simps continuation_legal_def split: if_splits)

lemma settle_run_Some:
  assumes "settle_run new_id now i owner work db = Inr (db', Some r)"
  obtains ss m runs where
    "sql_update (\<lambda>s. step_state_check (rs_state s))
       (\<lambda>s. rs_run_id s = i \<and> (rs_state s = ''queued'' \<or> rs_state s = ''running''))
       (\<lambda>s. s\<lparr>rs_state := ''skipped'', rs_ended_at := Some now\<rparr>) (db_steps db) = Inr (ss, m)"
    "sql_update (\<lambda>r. run_status_check (rr_status r)) (\<lambda>r. rr_id r = i \<and> active_status (rr_status r))
       (\<lambda>r. r\<lparr>rr_status := tz_desired_status work, rr_error_json := tz_error_json work,
          rr_ended_at := Some now\<rparr>) (db_runs db) = Inr (runs, 1)"
    "db_steps db' = ss" "db_runs db' = runs" "db_tasks db' = db_tasks db" "store_run i db' = Inr r"
    "tz_desired_status work = ''failed'' \<and> (\<forall>c\<in>set (db_continuations db). continuation_legal c) \<longrightarrow>
       (\<exists>c\<in>set (db_continuations db'). fc_run_id c = i)"
proof -
  obtain ss m runs d e t k where *:
    "sql_update (\<lambda>s. step_state_check (rs_state s))
       (\<lambda>s. rs_run_id s = i \<and> (rs_state s = ''queued'' \<or> rs_state s = ''running''))
       (\<lambda>s. s\<lparr>rs_state := ''skipped'', rs_ended_at := Some now\<rparr>) (db_steps db) = Inr (ss, m)"
    "sql_update (\<lambda>r. run_status_check (rr_status r)) (\<lambda>r. rr_id r = i \<and> active_status (rr_status r))
       (\<lambda>r. r\<lparr>rr_status := tz_desired_status work, rr_error_json := tz_error_json work,
          rr_ended_at := Some now\<rparr>) (db_runs db) = Inr (runs, 1)"
    and d: "(let db = db\<lparr>db_steps := ss, db_runs := runs\<rparr> in
       if tz_desired_status work = ''failed'' then insert_continuation now i db else Inr db) = Inr d"
    and e: "insert_event new_id now i (''run.'' @ tz_desired_status work)
       (case tz_error_json work of None \<Rightarrow> ''{}'' | Some e \<Rightarrow> e) d = Inr e"
    and db': "db' = e\<lparr>db_terminalizations := t\<rparr>" "store_run i (e\<lparr>db_terminalizations := t\<rparr>) = Inr r"
    using assms by (auto simp: settle_run_def res_bind_Inr returning_Inr split: if_splits)
  obtain cs where cs: "d = db\<lparr>db_steps := ss, db_runs := runs, db_continuations := cs\<rparr>"
  proof (cases "tz_desired_status work = ''failed''")
    case True
    with d have "insert_continuation now i (db\<lparr>db_steps := ss, db_runs := runs\<rparr>) = Inr d"
      by (simp add: Let_def)
    from insert_continuation_step [OF this] that show ?thesis by auto
  next
    case False
    with d have "d = db\<lparr>db_steps := ss, db_runs := runs, db_continuations := db_continuations db\<rparr>"
      by (auto simp: Let_def)
    from that [OF this] show ?thesis .
  qed
  have "\<exists>c\<in>set cs. fc_run_id c = i"
    if "tz_desired_status work = ''failed''" "\<forall>c\<in>set (db_continuations db). continuation_legal c"
    using insert_continuation_exists [of now i "db\<lparr>db_steps := ss, db_runs := runs\<rparr>" d] d that
    by (simp add: Let_def cs)
  moreover obtain es where "e = d\<lparr>db_events := es\<rparr>" using insert_event_Inr [OF e] by metis
  ultimately show ?thesis using that [OF *] db' by (simp add: cs)
qed

lemma request_interrupted:
  assumes "request_run_terminalization now i ''interrupted'' error_json db = Inr (db', w)"
    and "tz_state w = ''settling''"
  shows "w \<in> set (db_terminalizations db')" "tz_run_id w = i" "tz_desired_status w = ''interrupted''"
proof -
  from assms(1) have u: "upsert_terminalization now i ''interrupted'' error_json db = Inr db'"
    and w: "fetch_one (\<lambda>w. tz_run_id w = i) (db_terminalizations db') = Inr w"
    by (auto simp: request_run_terminalization_def res_bind_Inr returning_Inr)
  from fetch_one_Inr [OF w] show w': "w \<in> set (db_terminalizations db')" "tz_run_id w = i" by auto
  show "tz_desired_status w = ''interrupted''"
  proof (cases "row_exists (\<lambda>w. tz_run_id w = i) (db_terminalizations db)")
    case True
    with u obtain t n where t: "sql_update (\<lambda>w. tz_desired_status w \<in> {''failed'', ''interrupted''})
             (\<lambda>w. tz_run_id w = i \<and> tz_state w = ''settling'')
             (merge_terminalization now ''interrupted'' error_json) (db_terminalizations db) = Inr (t, n)"
      and "db' = db\<lparr>db_terminalizations := t\<rparr>"
      unfolding upsert_terminalization_def by (auto simp: res_bind_Inr simp del: row_exists_iff)
    with w'(1) have "w \<in> (\<lambda>w. if tz_run_id w = i \<and> tz_state w = ''settling''
        then merge_terminalization now ''interrupted'' error_json w else w) ` set (db_terminalizations db)"
      by (simp add: sql_update_Inr)
    then obtain w0 where "w = (if tz_run_id w0 = i \<and> tz_state w0 = ''settling''
        then merge_terminalization now ''interrupted'' error_json w0 else w0)" ..
    with w'(2) assms(2) show ?thesis by (simp add: merge_terminalization_def split: if_splits)
  next
    case False
    with u obtain x where "db_terminalizations db' = db_terminalizations db @ [x]"
      "tz_desired_status x = ''interrupted''"
      unfolding upsert_terminalization_def
      by (auto simp: res_bind_Inr sql_insert_Inr simp del: row_exists_iff)
    with w' False show ?thesis by auto
  qed
qed

lemma complete_run_terminalization_Some:
  assumes "complete_run_terminalization new_id now i owner db = Inr (db', Some r)"
  obtains work where "work \<in> set (db_terminalizations db)" "tz_run_id work = i" "tz_owner_id work = Some owner"
    "tz_state work = ''settling''"
    "\<forall>p\<in>set (db_tasks db). pt_run_id p = i \<longrightarrow> \<not> open_task_state (pt_state p)"
    "settle_run new_id now i owner work db = Inr (db', Some r)"
proof -
  obtain work where w: "fetch_optional (\<lambda>w. tz_run_id w = i \<and> tz_state w = ''settling'' \<and>
      tz_owner_id w = Some owner \<and> lease_live now (tz_lease_expires_at w)) (db_terminalizations db) = Some work"
    and t: "\<not> row_exists (\<lambda>p. pt_run_id p = i \<and> open_task_state (pt_state p)) (db_tasks db)"
    and s: "settle_run new_id now i owner work db = Inr (db', Some r)"
    using assms unfolding complete_run_terminalization_def Let_def
    by (auto split: option.splits if_splits simp del: row_exists_iff)
  show ?thesis using fetch_optional_Some [OF w] t s by (intro that [of work]) auto
qed

lemma settled:
  assumes "db_ok db" "complete_run_terminalization new_id now i owner db = Inr (db', Some r)"
  shows "\<exists>work\<in>set (db_terminalizations db). tz_run_id work = i \<and> tz_owner_id work = Some owner \<and>
      tz_state work = ''settling'' \<and> rr_status r = tz_desired_status work"
    and "rr_id r = i" "r \<in> set (db_runs db')"
    and "\<forall>s\<in>set (db_steps db'). rs_run_id s = i \<longrightarrow> terminal_step_state (rs_state s)"
    and "\<forall>p\<in>set (db_tasks db'). pt_run_id p = i \<longrightarrow> \<not> open_task_state (pt_state p)"
    and "rr_status r = ''failed'' \<longrightarrow> (\<exists>c\<in>set (db_continuations db'). fc_run_id c = i)"
proof -
  obtain work where w: "work \<in> set (db_terminalizations db)" "tz_run_id work = i"
    "tz_owner_id work = Some owner" "tz_state work = ''settling''"
    "\<forall>p\<in>set (db_tasks db). pt_run_id p = i \<longrightarrow> \<not> open_task_state (pt_state p)"
    "settle_run new_id now i owner work db = Inr (db', Some r)"
    by (rule complete_run_terminalization_Some [OF assms(2)])
  obtain ss m runs where v: "sql_update (\<lambda>s. step_state_check (rs_state s))
       (\<lambda>s. rs_run_id s = i \<and> (rs_state s = ''queued'' \<or> rs_state s = ''running''))
       (\<lambda>s. s\<lparr>rs_state := ''skipped'', rs_ended_at := Some now\<rparr>) (db_steps db) = Inr (ss, m)"
    and u: "sql_update (\<lambda>r. run_status_check (rr_status r)) (\<lambda>r. rr_id r = i \<and> active_status (rr_status r))
       (\<lambda>r. r\<lparr>rr_status := tz_desired_status work, rr_error_json := tz_error_json work,
          rr_ended_at := Some now\<rparr>) (db_runs db) = Inr (runs, 1)"
    and f: "db_steps db' = ss" "db_runs db' = runs" "db_tasks db' = db_tasks db" "store_run i db' = Inr r"
    and c: "tz_desired_status work = ''failed'' \<and> (\<forall>c\<in>set (db_continuations db). continuation_legal c) \<longrightarrow>
       (\<exists>c\<in>set (db_continuations db'). fc_run_id c = i)"
    by (rule settle_run_Some [OF w(6)], rule that) blast+
  have ok: "db_ok db'"
    using contract_ok complete_terminalization_contract assms by blast
  show r: "rr_id r = i" "r \<in> set (db_runs db')"
    using store_run_Inr [OF f(4)] by auto
  obtain r' where r': "r' \<in> set (db_runs db')" "rr_id r' = i" "rr_status r' = tz_desired_status work"
    using sql_update_hit [OF u] f(2) by auto
  have "r = r'"
    by (rule runs_table.keyed_unique [OF db_okD(5) [OF ok] r(2) r'(1)]) (simp only: r(1) r'(2))
  with r'(3) have s: "rr_status r = tz_desired_status work" by simp
  with w show "\<exists>work\<in>set (db_terminalizations db). tz_run_id work = i \<and> tz_owner_id work = Some owner \<and>
      tz_state work = ''settling'' \<and> rr_status r = tz_desired_status work" by blast
  show "rr_status r = ''failed'' \<longrightarrow> (\<exists>c\<in>set (db_continuations db'). fc_run_id c = i)"
    using c s db_okD(3) [OF assms(1)] by (simp add: continuations.table_ok_def)
  show "\<forall>p\<in>set (db_tasks db'). pt_run_id p = i \<longrightarrow> \<not> open_task_state (pt_state p)"
    using w(5) f(3) by simp
  show "\<forall>s\<in>set (db_steps db'). rs_run_id s = i \<longrightarrow> terminal_step_state (rs_state s)"
  proof (intro ballI impI)
    fix s assume s: "s \<in> set (db_steps db')" "rs_run_id s = i"
    then have "s \<in> (\<lambda>s. if rs_run_id s = i \<and> (rs_state s = ''queued'' \<or> rs_state s = ''running'')
        then s\<lparr>rs_state := ''skipped'', rs_ended_at := Some now\<rparr> else s) ` set (db_steps db)"
      using v f(1) by (simp add: sql_update_Inr)
    then obtain s0 where s0: "s0 \<in> set (db_steps db)" "s = (if rs_run_id s0 = i \<and>
        (rs_state s0 = ''queued'' \<or> rs_state s0 = ''running'')
        then s0\<lparr>rs_state := ''skipped'', rs_ended_at := Some now\<rparr> else s0)" by (rule imageE)
    have "step_legal s0" using db_okD(1) [OF assms(1)] s0(1) by (simp add: steps.table_ok_def)
    with s0(2) s(2) show "terminal_step_state (rs_state s)"
      by (auto simp: terminal_step_state_def step_legal_def split: if_splits)
  qed
qed

section \<open>A history\<close>

text \<open>A run with one step is created, asked to end with status \<open>st\<close>, claimed by an owner and
  settled; \<open>demo_retried\<close> is the database after its retry.\<close>

definition db_after :: "'a store_result \<Rightarrow> db" where
  "db_after x = (case x of Inl _ \<Rightarrow> initial_db | Inr (db, _) \<Rightarrow> db)"

definition demo_version :: version_record where
  "demo_version = \<lparr>vr_id = ''v'', vr_workspace_id = ''w'', vr_idx = 0, vr_label = ''one'',
     vr_source = ''manual'', vr_graph_path = ''g.json'', vr_graph_hash = ''h'', vr_parent_id = None,
     vr_semantics_json = None, vr_created_at = 0\<rparr>"

definition demo_run :: "string option \<Rightarrow> new_run" where
  "demo_run grp = \<lparr>nr_workspace_id = ''w'', nr_version_id = ''v'', nr_group_id = grp,
     nr_label = ''run'', nr_trigger = ''manual'', nr_plan_json = None, nr_estimate_json = None,
     nr_status = ''queued''\<rparr>"

definition demo_base :: db where
  "demo_base = initial_db\<lparr>db_workspaces := [''w''], db_versions := [demo_version]\<rparr>"

definition demo_queued :: "string option \<Rightarrow> db" where
  "demo_queued grp = db_after (create_run ''r'' 1 (demo_run grp) demo_base)"

definition demo_started :: db where
  "demo_started = db_after (create_run_step ''s''
     \<lparr>ns_run_id = ''r'', ns_node_id = ''n'', ns_node_type = ''model_call'', ns_provider = None,
      ns_state = ''queued''\<rparr> (demo_queued None))"

definition demo_requested :: "string \<Rightarrow> db" where
  "demo_requested st = db_after (request_run_terminalization 2 ''r'' st None demo_started)"

definition demo_claimed :: "string \<Rightarrow> db" where
  "demo_claimed st = db_after (claim_run_terminalization 3 ''r'' ''o'' 60 (demo_requested st))"

definition demo_settled :: "string \<Rightarrow> db" where
  "demo_settled st = db_after (complete_run_terminalization ''e'' 4 ''r'' ''o'' (demo_claimed st))"

definition demo_retried :: db where
  "demo_retried = db_after (create_retry_run_once ''r2'' (\<lambda>_. ''c'') 5 ''r'' False (demo_settled ''failed''))"

definition demo_group :: db where
  "demo_group = db_after (create_run ''q'' 2 (demo_run (Some ''g'')) (demo_queued (Some ''g'')))"

definition succeeded_value :: "'a store_result \<Rightarrow> 'a option" where
  "succeeded_value x = (case x of Inl _ \<Rightarrow> None | Inr (_, y) \<Rightarrow> Some y)"

lemma succeeded_value_Some: "succeeded_value x = Some y \<longleftrightarrow> x = Inr (db_after x, y)"
  by (auto simp: succeeded_value_def db_after_def split: sum.splits)



lemma demo_base_step: "store_step\<^sup>*\<^sup>* initial_db demo_base"
  unfolding demo_base_def by (rule r_into_rtranclp) (rule environment)

lemma extend:
  assumes "store_step\<^sup>*\<^sup>* a b" "succeeded_value x \<noteq> None" "\<And>d y. x = Inr (d, y) \<Longrightarrow> store_step b d"
  shows "store_step\<^sup>*\<^sup>* a (db_after x)"
  using assms succeeded_value_Some [of x] by (metis not_None_eq rtranclp.rtrancl_into_rtrancl)

lemma demo_queued_reachable: "store_step\<^sup>*\<^sup>* initial_db (demo_queued None)"
    "store_step\<^sup>*\<^sup>* initial_db (demo_queued (Some ''g''))"
  unfolding demo_queued_def
  by (rule extend [OF demo_base_step], code_simp, erule store_step.create_run)+

lemma demo_group_reachable: "store_step\<^sup>*\<^sup>* initial_db demo_group"
  unfolding demo_group_def
  by (rule extend [OF demo_queued_reachable(2)], code_simp, erule store_step.create_run)

lemma demo_started_reachable: "store_step\<^sup>*\<^sup>* initial_db demo_started"
  unfolding demo_started_def
  by (rule extend [OF demo_queued_reachable(1)], code_simp, erule store_step.create_step)

lemma demo_claimed_steps: "store_step\<^sup>*\<^sup>* (demo_requested ''failed'') (demo_claimed ''failed'')"
    "store_step\<^sup>*\<^sup>* (demo_requested ''interrupted'') (demo_claimed ''interrupted'')"
  unfolding demo_claimed_def
  by (rule extend [OF rtranclp.rtrancl_refl], code_simp, erule store_step.terminalization_claimed)+

lemma demo_claimed_reachable: "store_step\<^sup>*\<^sup>* initial_db (demo_claimed ''failed'')"
proof -
  have "store_step\<^sup>*\<^sup>* initial_db (demo_requested ''failed'')" unfolding demo_requested_def
    by (rule extend [OF demo_started_reachable], code_simp, erule store_step.terminalization_requested)
  with demo_claimed_steps(1) show ?thesis by (rule rtranclp_trans [rotated])
qed

lemma demo_settled_step: "store_step\<^sup>*\<^sup>* (demo_claimed ''failed'') (demo_settled ''failed'')"
  unfolding demo_settled_def
  by (rule extend [OF rtranclp.rtrancl_refl], code_simp, erule store_step.terminalization_completed)

lemma demo_settles: "succeeded_value (complete_run_terminalization ''e'' 4 ''r'' ''o'' (demo_claimed ''failed'')) =
    Some (Some (hd (db_runs (demo_settled ''failed''))))"
  by code_simp

lemma demo_interrupts:
  "succeeded_value (complete_run_terminalization ''e'' 4 ''r'' ''o'' (demo_claimed ''interrupted'')) =
    Some (Some (hd (db_runs (demo_settled ''interrupted''))))"
  "succeeded_value (request_run_terminalization 2 ''r'' ''interrupted'' None demo_started) =
    Some (hd (db_terminalizations (demo_requested ''interrupted'')))"
  "tz_state (hd (db_terminalizations (demo_requested ''interrupted''))) = ''settling''"
  by code_simp+

lemma demo_retries: "succeeded_value (create_retry_run_once ''r2'' (\<lambda>_. ''c'') 5 ''r'' False
    (demo_settled ''failed'')) = Some (last (db_runs demo_retried))"
  by code_simp

lemma demo_settled_reachable: "store_step\<^sup>*\<^sup>* initial_db (demo_settled ''failed'')"
  using demo_claimed_reachable demo_settled_step by (rule rtranclp_trans)



section \<open>Properties\<close>

text \<open>
  C12: admission.  In every database the store can reach, two different active runs of one
  workspace belong to the same group: a run outside a sweep is alone in its workspace.
\<close>

theorem workspace_exclusive:
  assumes "store_step\<^sup>*\<^sup>* initial_db db" "r \<in> set (db_runs db)" "r' \<in> set (db_runs db)"
    and "rr_id r \<noteq> rr_id r'" "rr_workspace_id r = rr_workspace_id r'"
    and "active_status (rr_status r)" "active_status (rr_status r')"
  shows "rr_group_id r \<noteq> None \<and> rr_group_id r' = rr_group_id r"
  using db_okD(8) [OF reachable_ok [OF assms(1)]] assms(2-)
  unfolding runs_exclusive_def compatible_def by metis

lemma workspace_exclusive_witness:
  "rr_group_id (db_runs demo_group ! 0) \<noteq> None \<and>
   rr_group_id (db_runs demo_group ! 1) = rr_group_id (db_runs demo_group ! 0)"
  by (rule workspace_exclusive [OF demo_group_reachable]) code_simp+

text \<open>
  C13: terminal states are final.  No sequence of operations removes a run, a step or a provider
  task, changes its identity, or takes it out of a terminal state; a provider task only moves
  forward.
\<close>

theorem terminal_states_final:
  assumes "store_step\<^sup>*\<^sup>* initial_db db" "store_step\<^sup>*\<^sup>* db db'"
  shows "(\<forall>r\<in>set (db_runs db). \<exists>r'\<in>set (db_runs db'). same_run r r' \<and>
      (terminal_status (rr_status r) \<longrightarrow> rr_status r' = rr_status r)) \<and>
    (\<forall>s\<in>set (db_steps db). \<exists>s'\<in>set (db_steps db'). rs_id s' = rs_id s \<and> rs_run_id s' = rs_run_id s \<and>
      (terminal_step_state (rs_state s) \<longrightarrow> rs_state s' = rs_state s)) \<and>
    (\<forall>p\<in>set (db_tasks db). \<exists>p'\<in>set (db_tasks db'). pt_id p' = pt_id p \<and>
      task_rank (pt_state p) \<le> task_rank (pt_state p') \<and>
      (\<not> open_task_state (pt_state p) \<longrightarrow> pt_state p' = pt_state p))"
  using store_steps_follow(1-3) [OF assms(2) reachable_ok [OF assms(1)]]
  unfolding run_follows_def step_change_def task_change_def by (intro conjI ballI) meson+

lemma terminal_states_final_witness:
  "\<exists>r'\<in>set (db_runs (demo_settled ''failed'')). same_run (hd (db_runs (demo_claimed ''failed''))) r'"
proof -
  have "hd (db_runs (demo_claimed ''failed'')) \<in> set (db_runs (demo_claimed ''failed''))" by code_simp
  with terminal_states_final [OF demo_claimed_reachable demo_settled_step] show ?thesis by blast
qed

text \<open>
  the events of a run, in the order the store reads them, are numbered 1, 2, 3 and so on
  without a gap.
\<close>

theorem run_events_numbered:
  assumes "store_step\<^sup>*\<^sup>* initial_db db"
  shows "map re_seq (run_events i db) = [1..int (length (run_events i db))]"
proof -
  have "map re_seq (filter (\<lambda>e. re_run_id e = i) (db_events db)) =
      [1..int (length (filter (\<lambda>e. re_run_id e = i) (db_events db)))]"
    using reachable_ok [OF assms] by (simp add: db_ok_def events_numbered_def)
  moreover from this have "sorted (map re_seq (filter (\<lambda>e. re_run_id e = i) (db_events db)))"
    by simp
  ultimately show ?thesis by (simp add: run_events_def sort_key_id_if_sorted)
qed

lemma run_events_numbered_witness:
  "map re_seq (run_events ''r'' (demo_settled ''failed'')) =
   [1..int (length (run_events ''r'' (demo_settled ''failed'')))]"
  by (rule run_events_numbered [OF demo_settled_reachable])

text \<open>
  C15: a failed run is retried once.  Whatever happens after the retry of a run was created,
  asking for it again returns the same run and changes nothing, with any new identifiers.
\<close>

theorem retry_created_once:
  assumes "store_step\<^sup>*\<^sup>* initial_db db"
    and "create_retry_run_once new_id cost_ids now parent b db = Inr (db1, r)"
    and "store_step\<^sup>*\<^sup>* db1 db2"
  shows "\<exists>r2. create_retry_run_once new_id2 cost_ids2 now2 parent b2 db2 = Inr (db2, r2) \<and>
    run_follows r r2"
proof -
  have ok: "db_ok db1" "db_ok db2"
    using store.step_inv [OF reachable_ok [OF assms(1)] store_step.retry_once [OF assms(2)]]
      store.steps_inv [OF assms(3)] by blast+
  obtain c where c: "c \<in> set (db_continuations db1)" "fc_run_id c = parent"
    "fc_child_run_id c = Some (rr_id r)" and r: "r \<in> set (db_runs db1)"
    using create_retry_run_once_linked [OF assms(2)] by blast
  from store_steps_follow(4) [OF assms(3) ok(1) c(1)] obtain c2 where
    c2: "c2 \<in> set (db_continuations db2)" "continuation_change c c2" by blast
  from store_steps_follow(1) [OF assms(3) ok(1) r] obtain r2 where
    r2: "r2 \<in> set (db_runs db2)" "run_follows r r2" by blast
  have "fc_child_run_id c2 = Some (rr_id r2)" "fc_run_id c2 = parent"
    using c c2(2) r2(2) by (auto simp: continuation_change_def run_follows_def same_run_def)
  with retry_once_repeats [OF ok(2) c2(1) _ r2(1)] r2(2) show ?thesis by blast
qed

lemma retry_created_once_witness:
  "\<exists>r2. create_retry_run_once ''x'' (\<lambda>_. ''y'') 9 ''r'' True demo_retried = Inr (demo_retried, r2)"
proof -
  have "create_retry_run_once ''r2'' (\<lambda>_. ''c'') 5 ''r'' False (demo_settled ''failed'') =
      Inr (demo_retried, last (db_runs demo_retried))"
    using demo_retries unfolding succeeded_value_Some demo_retried_def .
  from retry_created_once [OF demo_settled_reachable this rtranclp.rtrancl_refl] show ?thesis by blast
qed



text \<open>
  C14: an interruption wins.  Once the settlement of a run is open with an interruption requested,
  the settlement that completes it, whatever was requested in between, leaves the run
  interrupted.
\<close>

theorem interruption_wins:
  assumes "store_step\<^sup>*\<^sup>* initial_db db"
    and "request_run_terminalization now i ''interrupted'' error_json db = Inr (db1, w)"
    and "tz_state w = ''settling''" "store_step\<^sup>*\<^sup>* db1 db2"
    and "complete_run_terminalization new_id now2 i owner db2 = Inr (db3, Some r)"
  shows "rr_id r = i \<and> rr_status r = ''interrupted''"
proof -
  have ok: "db_ok db1" "db_ok db2"
    using store.step_inv [OF reachable_ok [OF assms(1)] store_step.terminalization_requested [OF assms(2)]]
      store.steps_inv [OF assms(4)] by blast+
  have w: "w \<in> set (db_terminalizations db1)" "tz_run_id w = i" "tz_desired_status w = ''interrupted''"
    using request_interrupted [OF assms(2,3)] by auto
  from store_steps_follow(5) [OF assms(4) ok(1) w(1)] obtain w2 where
    w2: "w2 \<in> set (db_terminalizations db2)" "tz_run_id w2 = i" "tz_desired_status w2 = ''interrupted''"
    using w by (auto simp: terminalization_change_def)
  obtain work where "work \<in> set (db_terminalizations db2)" "tz_run_id work = i"
    "rr_status r = tz_desired_status work"
    using settled(1) [OF ok(2) assms(5)] by blast
  moreover from this have "w2 = work"
    by (intro terminalizations_table.keyed_unique [OF db_okD(7) [OF ok(2)] w2(1)]) (simp_all only: w2(2))
  ultimately show ?thesis using w2(3) settled(2) [OF ok(2) assms(5)] by simp
qed

lemma interruption_wins_witness:
  "rr_id (hd (db_runs (demo_settled ''interrupted''))) = ''r'' \<and>
   rr_status (hd (db_runs (demo_settled ''interrupted''))) = ''interrupted''"
  by (rule interruption_wins [OF demo_started_reachable
        demo_interrupts(2) [unfolded succeeded_value_Some, folded demo_requested_def]
        demo_interrupts(3) demo_claimed_steps(2) demo_interrupts(1) [unfolded succeeded_value_Some]])

text \<open>
  C16: settlement is complete.  When a run is settled, it ends with the status its work item asks
  for, by the owner of the lease, and no step of it is left open, no provider task is left in
  flight, and a failed run has its continuation.
\<close>

theorem settlement_complete:
  assumes "store_step\<^sup>*\<^sup>* initial_db db"
    and "complete_run_terminalization new_id now i owner db = Inr (db', Some r)"
  shows "(\<exists>work\<in>set (db_terminalizations db). tz_run_id work = i \<and> tz_owner_id work = Some owner \<and>
       rr_status r = tz_desired_status work) \<and> rr_id r = i \<and> terminal_status (rr_status r) \<and>
     (\<forall>s\<in>set (db_steps db'). rs_run_id s = i \<longrightarrow> terminal_step_state (rs_state s)) \<and>
     (\<forall>p\<in>set (db_tasks db'). pt_run_id p = i \<longrightarrow> \<not> open_task_state (pt_state p)) \<and>
     (rr_status r = ''failed'' \<longrightarrow> (\<exists>c\<in>set (db_continuations db'). fc_run_id c = i))"
proof -
  note s = settled [OF reachable_ok [OF assms(1)] assms(2)]
  have "terminal_status (rr_status r)"
    using s(1) db_okD(4) [OF reachable_ok [OF assms(1)]]
    by (auto simp: terminalizations.table_ok_def terminalization_legal_def terminal_status_def)
  with s show ?thesis by blast
qed

lemma settlement_complete_witness:
  "rr_id (hd (db_runs (demo_settled ''failed''))) = ''r'' \<and>
   (\<exists>c\<in>set (db_continuations (demo_settled ''failed'')). fc_run_id c = ''r'')"
proof -
  have "rr_status (hd (db_runs (demo_settled ''failed''))) = ''failed''" by code_simp
  with settlement_complete [OF demo_claimed_reachable demo_settles [unfolded succeeded_value_Some]]
  show ?thesis unfolding demo_settled_def by blast
qed



end
