(* ===== verification/Gateway.thy ===== *)
theory Gateway
  imports Json Strings
begin

text \<open>
  The interface of the provider gateway (crates/gateway/src/lib.rs and runtime_provider.rs):
  requests, cost estimates, errors, and the filter every message passes before it is shown to a
  user.  The HTTP clients behind the trait \<open>Provider\<close> are not modelled.
\<close>

section \<open>Requests and estimates\<close>

record artifact_ref =
  af_artifact_id :: string
  af_storage_uri :: string

record cost_estimate =
  ce_amount :: f64
  ce_currency :: string
  ce_estimated :: bool
  ce_unknown :: bool

record provider_request =
  pr_provider :: string
  pr_capability :: string
  pr_node_id :: string
  pr_run_id :: string
  pr_inputs :: "(string, artifact_ref) btree_map"
  pr_input_texts :: "(string, string) btree_map"
  pr_params :: json
  pr_resolved_model_id :: "string option"
  pr_operation_id :: "string option"

datatype artifact_kind = KindText | KindImage | KindVideo | KindJson

section \<open>Messages that may be shown\<close>

definition unsafe_parts :: "string list" where
  "unsafe_parts = [''://'', ''/Users/'', [CHR 0x5C] @ ''Users'' @ [CHR 0x5C], ''file://'']"

definition unsafe_words :: "string list" where
  "unsafe_words = [''bearer '', ''authorization'', ''api_key'', ''apikey'', ''token'', ''secret'',
     ''password'', ''signed_url'', ''signedurl'', ''sk-'']"

definition is_safe_provider_message :: "string \<Rightarrow> bool" where
  "is_safe_provider_message s \<longleftrightarrow>
     list_all (\<lambda>p. \<not> contains s p) unsafe_parts \<and>
     list_all (\<lambda>p. \<not> contains (to_ascii_lowercase s) p) unsafe_words"

definition safe_provider_message :: "string \<Rightarrow> string" where
  "safe_provider_message s =
     (if is_safe_provider_message s then s else ''provider message was redacted'')"

definition is_safe_provider_id :: "string \<Rightarrow> bool" where
  "is_safe_provider_id s = (case s of [] \<Rightarrow> False | c # _ \<Rightarrow>
     length s \<le> 64 \<and> (is_ascii_lowercase c \<or> is_ascii_uppercase c \<or> is_ascii_digit c) \<and>
     list_all (\<lambda>c. is_ascii_lowercase c \<or> is_ascii_digit c \<or> c = CHR ''-'' \<or> c = CHR ''_'' \<or>
       c = CHR ''.'') s)"

definition sanitize_provider_id :: "string \<Rightarrow> string" where
  "sanitize_provider_id i = (let trimmed = trim i in
     if is_safe_provider_id trimmed \<and> is_safe_provider_message trimmed then trimmed else ''invalid'')"

lemma safe_message_safe: "is_safe_provider_message (safe_provider_message s)"
proof -
  have "is_safe_provider_message ''provider message was redacted''" by code_simp
  then show ?thesis by (simp add: safe_provider_message_def)
qed

section \<open>Errors\<close>

datatype provider_error =
    WrongProvider string string
  | UnsupportedCapability string
  | CancelUnsupported string
  | RecoveryUnsupported string
  | ProviderUnavailable string string
  | InvalidRequest string
  | InvalidResponse string
  | RequestRejected string
  | RequestFailed string
  | ModelUnresolved string

fun provider_error_display :: "provider_error \<Rightarrow> string" where
  "provider_error_display (WrongProvider expected actual) =
     ''wrong provider: expected '' @ bq expected @ '', got '' @ bq actual"
| "provider_error_display (UnsupportedCapability capability) =
     ''unsupported provider capability: '' @ capability"
| "provider_error_display (CancelUnsupported task) =
     ''provider does not support cancelling remote task: '' @ task"
| "provider_error_display (RecoveryUnsupported provider) =
     ''provider '' @ bq provider @ '' does not support task recovery''"
| "provider_error_display (ProviderUnavailable provider reason) =
     ''runtime provider '' @ bq provider @ '' is unavailable: '' @ reason"
| "provider_error_display (ModelUnresolved capability) =
     ''no resolved model binding for capability '' @ bq capability @
     ''; run preflight must resolve implementations before invoke''"
| "provider_error_display (InvalidRequest m) = ''invalid provider request: '' @ safe_provider_message m"
| "provider_error_display (InvalidResponse m) = ''invalid provider response: '' @ safe_provider_message m"
| "provider_error_display (RequestRejected m) = ''provider rejected request: '' @ safe_provider_message m"
| "provider_error_display (RequestFailed m) = ''provider request failed: '' @ safe_provider_message m"

datatype provider_dispatch_failure_kind = NotSubmitted | Rejected | OutcomeUnknown

fun classify_dispatch :: "provider_error \<Rightarrow> provider_dispatch_failure_kind" where
  "classify_dispatch (RequestRejected _) = Rejected"
| "classify_dispatch (InvalidResponse _) = OutcomeUnknown"
| "classify_dispatch (RequestFailed _) = OutcomeUnknown"
| "classify_dispatch _ = NotSubmitted"

section \<open>Inputs of a request\<close>

definition non_empty :: "string \<Rightarrow> string option" where
  "non_empty s = (if s = [] then None else Some s)"

definition wired_or_param_string ::
  "provider_request \<Rightarrow> string \<Rightarrow> string \<Rightarrow> provider_error + string" where
  "wired_or_param_string req input_port param_key =
     (case Option.bind (bt_get (pr_input_texts req) input_port) (\<lambda>s. non_empty (trim s)) of
        Some text \<Rightarrow> Inr text
      | None \<Rightarrow> ok_or
          (Option.bind (Option.bind (json_get (pr_params req) param_key) as_str) (\<lambda>s. non_empty (trim s)))
          (InvalidRequest (''missing wired input '' @ bq input_port @ '' and string param '' @ bq param_key)))"

end
