(* ===== verification/Run_Error.thy ===== *)
theory Run_Error
  imports Gateway Graph Run_Types
begin

text \<open>
  \<open>RunError\<close> (crates/run/src/error.rs) and the messages of \<open>StoreError\<close>
  (crates/store/src/lib.rs).  The texts of the errors of sqlx, of its migrator and of serde are
  external: the first two are the arguments \<open>sqlx\<close> and \<open>migrate\<close>, the third is the
  argument of the constructor.
\<close>

section \<open>Store errors\<close>

definition debug_option :: "string option \<Rightarrow> string" where
  "debug_option x = (case x of None \<Rightarrow> ''None'' | Some s \<Rightarrow> ''Some('' @ debug_str s @ '')'')"

definition bq_debug :: "string option \<Rightarrow> string" where
  "bq_debug x = bq (debug_option x)"

fun store_error_display :: "(sqlx_error \<Rightarrow> string) \<Rightarrow> string \<Rightarrow> store_error \<Rightarrow> string" where
  "store_error_display sqlx migrate (SE_Sqlx err) = ''sqlite store error: '' @ sqlx err"
| "store_error_display sqlx migrate SE_Migration = ''sqlite migration error: '' @ migrate"
| "store_error_display sqlx migrate (SE_VersionConflict ws expected actual) =
     ''workspace '' @ bq ws @ '' expected current version '' @ bq expected @ '' but found '' @ bq_debug actual"
| "store_error_display sqlx migrate (SE_VersionParentMismatch ws expected actual) =
     ''workspace '' @ bq ws @ '' expected new version parent '' @ bq expected @ '' but received '' @
     bq_debug actual"
| "store_error_display sqlx migrate (SE_PendingProposalConflict ws) =
     ''workspace '' @ bq ws @ '' has a pending proposal''"
| "store_error_display sqlx migrate (SE_RunVersionMismatch ws version actual) =
     ''run workspace '' @ bq ws @ '' cannot use version '' @ bq version @ '' from workspace '' @
     bq_debug actual"
| "store_error_display sqlx migrate (SE_ProposalStateConflict proposal expected actual) =
     ''proposal '' @ bq proposal @ '' expected state '' @ bq expected @ '' but found '' @ bq_debug actual"
| "store_error_display sqlx migrate (SE_WorkspaceBusy ws active) =
     ''workspace '' @ bq ws @ '' already has active run '' @ bq active"
| "store_error_display sqlx migrate (SE_ProposalWorkspaceMismatch proposal ws) =
     ''proposal '' @ bq proposal @ '' was not found in workspace '' @ bq ws"
| "store_error_display sqlx migrate (SE_ProposalBaseMismatch proposal expected actual) =
     ''proposal '' @ bq proposal @ '' expected base version '' @ bq expected @ '' but found '' @ bq actual"
| "store_error_display sqlx migrate (SE_CanvasCommentStateMissing ws) =
     ''canvas comments were not initialized for workspace '' @ bq ws"
| "store_error_display sqlx migrate (SE_CanvasCommentInvariant ws message) =
     ''canvas comments for workspace '' @ bq ws @ '' violated an invariant: '' @ message"
| "store_error_display sqlx migrate (SE_StatementInvariant op expected actual) =
     ''store operation '' @ bq op @ '' expected '' @ show_nat expected @ '' changed row(s), found '' @
     show_nat actual"
| "store_error_display sqlx migrate (SE_OperationIdConflict ws op) =
     ''workspace '' @ bq ws @ '' operation '' @ bq op @ '' was already used with different input''"
| "store_error_display sqlx migrate (SE_WorkspaceConnectorConflict ws expected actual) =
     ''workspace '' @ bq ws @ '' expected migration connector '' @ bq_debug expected @ '' but found '' @
     bq_debug actual"
| "store_error_display sqlx migrate (SE_SchemaMigrationCleanup migration cleanup) =
     ''version schema migration failed: '' @ migration @ ''; restoring foreign keys also failed: '' @ cleanup"
| "store_error_display sqlx migrate (SE_RecoveryInvariant op message) =
     ''recovery operation '' @ bq op @ '' violated an invariant: '' @ message"
| "store_error_display sqlx migrate (SE_AgentContractObservationInvariant code) =
     ''agent contract observation invariant failed: '' @ code"
| "store_error_display sqlx migrate (SE_ImageProcessingJobStateConflict job actual requested) =
     ''image processing job '' @ bq job @ '' cannot move from '' @ bq actual @ '' to '' @ bq requested"

section \<open>Run errors\<close>

datatype run_error =
    RE_Graph graph_error
  | RE_Provider provider_error
  | RE_Store store_error
  | RE_Json string
  | RE_ArtifactPersistence string
  | RE_InvalidConfiguration string
  | RE_InvalidRunStatus string string string
  | RE_InvalidSweepPlan string
  | RE_ResolutionFailed string string string
  | RE_MixedCostCurrency string string
  | RE_Interrupted string
  | RE_NoExecutableSteps
  | RE_MissingInput string string
  | RE_MissingParam string string
  | RE_RunNotActive string
  | RE_RunClaimContention string
  | RE_WorkspaceBusy string string
  | RE_UnsupportedBuiltin string
  | RE_TaskJoin string

fun run_error_display :: "(store_error \<Rightarrow> string) \<Rightarrow> run_error \<Rightarrow> string" where
  "run_error_display st (RE_Graph err) = graph_error_display err"
| "run_error_display st (RE_Provider err) = provider_error_display err"
| "run_error_display st (RE_Store err) = st err"
| "run_error_display st (RE_Json err) = err"
| "run_error_display st (RE_ArtifactPersistence m) = ''artifact persistence failed: '' @ m"
| "run_error_display st (RE_InvalidConfiguration m) = ''invalid configuration: '' @ m"
| "run_error_display st (RE_InvalidRunStatus run expected actual) =
     ''run '' @ bq run @ '' expected status '' @ bq expected @ '' but found '' @ bq actual"
| "run_error_display st (RE_InvalidSweepPlan m) = ''invalid sweep plan: '' @ m"
| "run_error_display st (RE_ResolutionFailed node code m) =
     ''implementation resolution failed for node '' @ bq node @ '' ['' @ code @ '']: '' @ m"
| "run_error_display st (RE_MixedCostCurrency expected actual) =
     ''mixed cost currencies are unsupported: '' @ bq expected @ '' and '' @ bq actual"
| "run_error_display st (RE_Interrupted run) = ''run was interrupted: '' @ run"
| "run_error_display st RE_NoExecutableSteps = ''workflow has no executable steps''"
| "run_error_display st (RE_MissingInput node port) =
     ''missing resolved input '' @ bq port @ '' for node '' @ bq node"
| "run_error_display st (RE_MissingParam node param) =
     ''missing builtin param '' @ bq param @ '' for node '' @ bq node"
| "run_error_display st (RE_RunNotActive run) = ''run is not active: '' @ run"
| "run_error_display st (RE_RunClaimContention run) = ''run '' @ bq run @
     '' lost a concurrent claim for its workspace; retry the confirmation''"
| "run_error_display st (RE_WorkspaceBusy ws active) =
     ''workspace '' @ bq ws @ '' already has active run '' @ bq active"
| "run_error_display st (RE_UnsupportedBuiltin node_type) = ''unsupported builtin node type: '' @ node_type"
| "run_error_display st (RE_TaskJoin m) = ''run step task failed to join: '' @ m"

text \<open>\<open>public_message\<close>: the last branch is never reached with a store error.\<close>

definition public_message :: "run_error \<Rightarrow> string" where
  "public_message e = (case e of
     RE_Provider err \<Rightarrow> provider_error_display err
   | RE_Store _ \<Rightarrow> ''run persistence failed''
   | RE_Json _ \<Rightarrow> ''run data could not be decoded''
   | RE_ArtifactPersistence _ \<Rightarrow> ''artifact materialization failed''
   | RE_TaskJoin _ \<Rightarrow> ''run step worker stopped unexpectedly''
   | _ \<Rightarrow> run_error_display (\<lambda>_. '''') e)"

text \<open>\<open>From<StoreError> for RunError\<close>.\<close>

definition run_error_of_store :: "store_error \<Rightarrow> run_error" where
  "run_error_of_store e = (case e of
     SE_WorkspaceBusy ws active \<Rightarrow> RE_WorkspaceBusy ws active
   | _ \<Rightarrow> RE_Store e)"

end
