(* ===== verification/Run_Policy.thy ===== *)
theory Run_Policy
  imports Run_Error
begin

text \<open>
  The cost gate and the limits of automatic runs: run_policy.rs, \<open>CostSummary\<close> and
  \<open>validate_sweep_plan\<close> of cost_gate.rs, \<open>normalize_max_parallel_steps\<close> of lib.rs
  (crates/run/src).  An environment variable is \<open>NotPresent\<close>, \<open>NotUnicode\<close> or its text;
  \<open>str::parse\<close> for \<open>u32\<close> and \<open>f64\<close> is written out.
\<close>

section \<open>Parsing numbers\<close>

datatype env_var = NotPresent | NotUnicode | Present string

definition digit_value :: "char \<Rightarrow> nat" where
  "digit_value c = byte c - 48"

definition digits_value :: "string \<Rightarrow> nat" where
  "digits_value s = foldl (\<lambda>n c. 10 * n + digit_value c) 0 s"

definition is_digits :: "string \<Rightarrow> bool" where
  "is_digits s \<longleftrightarrow> s \<noteq> [] \<and> list_all is_ascii_digit s"

text \<open>\<open>u32::from_str\<close>: an optional plus sign and decimal digits within the range.\<close>

definition parse_u32 :: "string \<Rightarrow> u32 option" where
  "parse_u32 s = (let ds = (case s of c # t \<Rightarrow> if c = CHR ''+'' then t else s | [] \<Rightarrow> s) in
     if is_digits ds \<and> digits_value ds < 2 ^ 32 then Some (of_nat (digits_value ds)) else None)"

text \<open>\<open>f64::from_str\<close>: a sign; then \<open>inf\<close>, \<open>infinity\<close> or \<open>nan\<close> in any case, or
  digits with an optional point and an optional exponent.\<close>

definition parse_exponent :: "string \<Rightarrow> int option" where
  "parse_exponent s = (case s of [] \<Rightarrow> Some 0
     | c # t \<Rightarrow> if to_lowercase c \<noteq> CHR ''e'' then None
         else let (neg, ds) = (case t of CHR ''-'' # u \<Rightarrow> (True, u) | CHR ''+'' # u \<Rightarrow> (False, u) | _ \<Rightarrow> (False, t))
              in if is_digits ds then Some (if neg then - int (digits_value ds) else int (digits_value ds))
                 else None)"

definition power10 :: "int \<Rightarrow> rat" where
  "power10 k = (if 0 \<le> k then 10 ^ nat k else 1 / 10 ^ nat (- k))"

definition parse_decimal :: "string \<Rightarrow> rat option" where
  "parse_decimal s =
     (let whole = takeWhile is_ascii_digit s; rest = dropWhile is_ascii_digit s;
          (frac, tail) = (case rest of CHR ''.'' # t \<Rightarrow> (takeWhile is_ascii_digit t, dropWhile is_ascii_digit t)
                          | _ \<Rightarrow> ([], rest))
      in if whole = [] \<and> frac = [] then None
         else map_option (\<lambda>e. of_nat (digits_value (whole @ frac)) * power10 (e - int (length frac)))
                (parse_exponent tail))"

definition parse_f64 :: "string \<Rightarrow> f64 option" where
  "parse_f64 s =
     (let (neg, t) = (case s of CHR ''-'' # t \<Rightarrow> (True, t) | CHR ''+'' # t \<Rightarrow> (False, t) | _ \<Rightarrow> (False, s));
          magnitude = (if to_ascii_lowercase t = ''inf'' \<or> to_ascii_lowercase t = ''infinity'' then Some PosInf
            else if to_ascii_lowercase t = ''nan'' then Some NaN
            else map_option f64_round (parse_decimal t))
      in map_option (\<lambda>x. if neg then fp_neg x else x) magnitude)"

section \<open>Cost summaries\<close>

record cost_summary =
  cs_amount :: f64
  cs_currency :: string
  cs_estimated :: bool
  cs_unknown :: bool

definition cost_zero :: cost_summary where
  "cost_zero = \<lparr>cs_amount = Fin 0, cs_currency = ''USD'', cs_estimated = True, cs_unknown = False\<rparr>"

definition cost_from_estimate :: "cost_estimate \<Rightarrow> cost_summary" where
  "cost_from_estimate e = \<lparr>cs_amount = ce_amount e, cs_currency = ce_currency e,
     cs_estimated = ce_estimated e, cs_unknown = ce_unknown e\<rparr>"

definition cost_add :: "cost_summary \<Rightarrow> cost_summary \<Rightarrow> run_error + cost_summary" where
  "cost_add self cost =
     (let currency = (if fp_eq (cs_amount self) (Fin 0) then cs_currency cost else cs_currency self)
      in if currency \<noteq> cs_currency cost then Inl (RE_MixedCostCurrency currency (cs_currency cost))
         else Inr \<lparr>cs_amount = f64_add (cs_amount self) (cs_amount cost), cs_currency = currency,
                cs_estimated = (cs_estimated self \<and> cs_estimated cost),
                cs_unknown = (cs_unknown self \<or> cs_unknown cost)\<rparr>)"

text \<open>The accumulation of \<open>estimate_created_run\<close>.\<close>

definition cost_total :: "cost_estimate list \<Rightarrow> run_error + cost_summary" where
  "cost_total es = fold_res (\<lambda>e total. cost_add total (cost_from_estimate e)) es cost_zero"

section \<open>Limits\<close>

definition threshold_error :: run_error where
  "threshold_error = RE_InvalidConfiguration
     (''HELIXFLOW_AGENT_RUN_CONFIRMATION_THRESHOLD_USD must be a finite non-negative number'')"

definition parse_run_confirmation_threshold_usd :: "string option \<Rightarrow> run_error + f64" where
  "parse_run_confirmation_threshold_usd raw = (case raw of None \<Rightarrow> Inr (Fin 0)
     | Some s \<Rightarrow> res_bind (ok_or (parse_f64 s) threshold_error) (\<lambda>value.
         if \<not> fp_is_finite value \<or> fp_lt value (Fin 0) then Inl threshold_error else Inr value))"

definition run_confirmation_threshold_usd :: "env_var \<Rightarrow> run_error + f64" where
  "run_confirmation_threshold_usd v = (case v of
     Present s \<Rightarrow> parse_run_confirmation_threshold_usd (Some s)
   | NotPresent \<Rightarrow> parse_run_confirmation_threshold_usd None
   | NotUnicode \<Rightarrow> Inl (RE_InvalidConfiguration
       ''HELIXFLOW_AGENT_RUN_CONFIRMATION_THRESHOLD_USD must be valid UTF-8''))"

definition run_requires_confirmation :: "env_var \<Rightarrow> cost_summary \<Rightarrow> run_error + bool" where
  "run_requires_confirmation v cost =
     (if cs_unknown cost \<or> \<not> fp_is_finite (cs_amount cost) \<or> fp_lt (cs_amount cost) (Fin 0) then Inr True
      else if cs_currency cost \<noteq> ''USD'' then Inr (fp_lt (Fin 0) (cs_amount cost))
      else res_bind (run_confirmation_threshold_usd v) (\<lambda>t. Inr (fp_lt t (cs_amount cost))))"

definition max_automatic_run_retries :: u32 where
  "max_automatic_run_retries = 10"

definition retry_limit_error :: run_error where
  "retry_limit_error = RE_InvalidConfiguration
     ''HELIXFLOW_RUN_MAX_RETRIES must be an integer from 0 to 10''"

definition parse_max_run_retries :: "string option \<Rightarrow> run_error + u32" where
  "parse_max_run_retries raw = (case raw of None \<Rightarrow> Inr 1
     | Some s \<Rightarrow> res_bind (ok_or (parse_u32 s) retry_limit_error) (\<lambda>value.
         if max_automatic_run_retries < value then Inl retry_limit_error else Inr value))"

definition max_run_retries :: "env_var \<Rightarrow> run_error + u32" where
  "max_run_retries v = (case v of Present s \<Rightarrow> parse_max_run_retries (Some s)
     | NotPresent \<Rightarrow> parse_max_run_retries None | NotUnicode \<Rightarrow> Inl retry_limit_error)"

text \<open>\<open>attempt < 0 || attempt as u32 >= max_run_retries()?\<close> of \<open>prepare_retry\<close>.\<close>

definition retries_exhausted :: "env_var \<Rightarrow> i64 \<Rightarrow> run_error + bool" where
  "retries_exhausted v attempt =
     (if attempt <s 0 then Inr True
      else res_bind (max_run_retries v) (\<lambda>m. Inr (m \<le> (ucast attempt :: u32))))"

definition normalize_max_parallel_steps :: "nat \<Rightarrow> nat" where
  "normalize_max_parallel_steps n = max n 1"

record sweep_variant =
  sv_label :: string
  sv_graph :: workflow_graph

record sweep_plan =
  sp_workspace_id :: string
  sp_version_id :: string
  sp_label :: string
  sp_provider :: string
  sp_variants :: "sweep_variant list"

definition validate_sweep_plan :: "sweep_plan \<Rightarrow> run_error + unit" where
  "validate_sweep_plan plan =
     (if length (sp_variants plan) < 2
      then Inl (RE_InvalidSweepPlan ''sweep must contain at least two variants'')
      else if list_ex (\<lambda>v. trim (sv_label v) = []) (sp_variants plan)
      then Inl (RE_InvalidSweepPlan ''sweep variants must have labels'')
      else Inr ())"

section \<open>Lemmas\<close>

lemma cost_add_Inr:
  "cost_add a b = Inr c \<Longrightarrow> cs_amount c = f64_add (cs_amount a) (cs_amount b) \<and>
     cs_unknown c = (cs_unknown a \<or> cs_unknown b) \<and> cs_currency c = cs_currency b"
  by (auto simp: cost_add_def Let_def split: if_splits)

lemma cost_total_snoc: "cost_total (es @ [e]) = res_bind (cost_total es) (\<lambda>t. cost_add t (cost_from_estimate e))"
  by (auto simp: cost_total_def fold_res_append res_bind_def split: sum.splits)

lemma cost_total_Inr:
  "cost_total es = Inr t \<Longrightarrow> cs_unknown t = (\<exists>e\<in>set es. ce_unknown e) \<and>
     cs_amount t = foldl (\<lambda>a e. f64_add a (ce_amount e)) (Fin 0) es \<and>
     cs_currency t = (if es = [] then ''USD'' else ce_currency (last es))"
proof (induction es arbitrary: t rule: rev_induct)
  case Nil
  then show ?case by (auto simp: cost_total_def cost_zero_def)
next
  case (snoc e es)
  then obtain u where "cost_total es = Inr u" "cost_add u (cost_from_estimate e) = Inr t"
    by (auto simp: cost_total_snoc res_bind_Inr)
  with snoc.IH cost_add_Inr show ?case by (fastforce simp: cost_from_estimate_def)
qed

lemma threshold_Inr:
  "run_confirmation_threshold_usd v = Inr t \<Longrightarrow> \<exists>q. t = Fin q \<and> 0 \<le> q"
  by (cases t) (auto simp: run_confirmation_threshold_usd_def parse_run_confirmation_threshold_usd_def
      result_simps split: env_var.splits option.splits if_splits)

lemma unattended_cost:
  assumes "run_requires_confirmation v cost = Inr False"
  shows "\<not> cs_unknown cost \<and> (\<exists>q. cs_amount cost = Fin q \<and> 0 \<le> q \<and>
    (if cs_currency cost = ''USD'' then \<exists>th. run_confirmation_threshold_usd v = Inr (Fin th) \<and> q \<le> th
     else q = 0))"
  using assms threshold_Inr [of v]
  by (cases "cs_amount cost") (fastforce simp: run_requires_confirmation_def res_bind_Inr split: if_splits)+

lemma max_run_retries_bound: "max_run_retries v = Inr m \<Longrightarrow> m \<le> 10"
  by (auto simp: max_run_retries_def parse_max_run_retries_def max_automatic_run_retries_def
      result_simps not_less split: env_var.splits option.splits if_splits)

end
