(* ===== verification/Run_Resolution.thy ===== *)
theory Run_Resolution
  imports Run_Error Run_Db Semantics
begin

text \<open>
  The resolution a run freezes into its plan (crates/run/src/resolved.rs): every step that calls
  a model is resolved against the catalog and the connector that executes the run.  The catalog
  is an argument (\<open>builtin_catalog\<close> in the code), \<open>serde_json::from_str\<close> for the stored
  semantics is the argument \<open>parse\<close>.
\<close>

definition requested_pin :: "node_semantics_entry option \<Rightarrow> (string \<times> string) option" where
  "requested_pin semantics = (case semantics of None \<Rightarrow> None
     | Some entry \<Rightarrow> (case ns_implementation entry of Pinned m b \<Rightarrow> Some (m, b) | Policy _ _ \<Rightarrow> None))"

definition pin_mismatch :: "(string \<times> string) option \<Rightarrow> resolved_implementation \<Rightarrow> bool" where
  "pin_mismatch pin r = (case pin of None \<Rightarrow> False
     | Some (m, b) \<Rightarrow> ri_resolved_model_id r \<noteq> m \<or> ri_binding_id r \<noteq> b)"

definition pin_mismatch_error :: "(string \<times> string) option \<Rightarrow> resolved_implementation \<Rightarrow> string \<times> string" where
  "pin_mismatch_error pin r = (case pin of None \<Rightarrow> ('''', '''')
     | Some (m, b) \<Rightarrow> (''PINNED_MODEL_MISMATCH'',
         ''pinned '' @ bq m @ '' via '' @ bq b @ '' but resolution produced '' @
         bq (ri_resolved_model_id r) @ '' via '' @ bq (ri_binding_id r)))"

definition resolve_step_binding ::
  "catalog_snapshot \<Rightarrow> string \<Rightarrow> string \<Rightarrow> node_semantics_entry option \<Rightarrow>
   string \<times> string + resolved_step_binding" where
  "resolve_step_binding c capability connector_id semantics =
     (let pin = requested_pin semantics in
      res_bind (map_err (\<lambda>err. (resolve_error_code err, resolve_error_display err))
        (resolve c \<lparr>rq_capability_id = capability, rq_requested_model = map_option fst pin,
           rq_connector_preference = Some connector_id\<rparr> [(connector_id, True)])) (\<lambda>r.
      if pin_mismatch pin r then Inl (pin_mismatch_error pin r)
      else case ri_target r of
          ApiConnector resolved_connector operation_id \<Rightarrow>
            Inr \<lparr>rb_capability_id = capability, rb_requested_model_id = ri_requested_model_id r,
                 rb_resolved_model_id = ri_resolved_model_id r, rb_binding_id = ri_binding_id r,
                 rb_binding_revision = ri_binding_revision r, rb_connector_id = resolved_connector,
                 rb_operation_id = operation_id\<rparr>
        | WorkflowTemplate _ _ _ \<Rightarrow> Inl (''BINDING_UNAVAILABLE'',
            ''binding '' @ bq (ri_binding_id r) @ '' has no API connector target'')))"

definition version_semantics ::
  "(string \<Rightarrow> run_error + (string, node_semantics_entry) btree_map) \<Rightarrow> workflow_graph \<Rightarrow> string \<Rightarrow> db \<Rightarrow>
   run_error + (string, node_semantics_entry) btree_map option" where
  "version_semantics parse g version_id db =
     (let embedded = collected_semantics g in
      if embedded \<noteq> [] then Inr (Some embedded)
      else res_bind (map_err run_error_of_store (fetch_one (\<lambda>v. vr_id v = version_id) (db_versions db)))
        (\<lambda>v. case vr_semantics_json v of None \<Rightarrow> Inr None | Some raw \<Rightarrow> res_bind (parse raw) (\<lambda>s. Inr (Some s))))"

definition attach_step ::
  "catalog_snapshot \<Rightarrow> string \<Rightarrow> (string, node_semantics_entry) btree_map option \<Rightarrow> execution_step \<Rightarrow>
   run_error + execution_step" where
  "attach_step c connector_id semantics step = (case es_capability step of
     None \<Rightarrow> Inr step
   | Some capability \<Rightarrow>
       res_bind (map_err (\<lambda>(code, message). RE_ResolutionFailed (es_node_id step) code message)
         (resolve_step_binding c capability connector_id
           (Option.bind semantics (\<lambda>m. bt_get m (es_node_id step)))))
       (\<lambda>r. Inr (step\<lparr>es_resolved := Some r\<rparr>)))"

definition attach_resolved_bindings ::
  "catalog_snapshot \<Rightarrow> string \<Rightarrow> (string, node_semantics_entry) btree_map option \<Rightarrow> execution_plan \<Rightarrow>
   run_error + execution_plan" where
  "attach_resolved_bindings c connector_id semantics plan =
     (if catalog_connector c connector_id = None then Inr plan
      else res_bind (fold_res (\<lambda>step steps. res_bind (attach_step c connector_id semantics step)
             (\<lambda>step'. Inr (steps @ [step']))) (ep_steps plan) []) (\<lambda>steps.
        Inr (plan\<lparr>ep_steps := steps, ep_catalog_revision := Some (cs_catalog_revision c)\<rparr>)))"

definition json_string_option :: "string option \<Rightarrow> json" where
  "json_string_option x = (case x of None \<Rightarrow> JNull | Some s \<Rightarrow> JString s)"

definition resolved_implementations_event :: "execution_plan \<Rightarrow> json option" where
  "resolved_implementations_event plan =
     (let steps = List.map_filter (\<lambda>step. map_option (\<lambda>r. json_object
            [(''nodeId'', JString (es_node_id step)), (''capabilityId'', JString (rb_capability_id r)),
             (''requestedModelId'', json_string_option (rb_requested_model_id r)),
             (''resolvedModelId'', JString (rb_resolved_model_id r)),
             (''bindingId'', JString (rb_binding_id r)),
             (''bindingRevision'', JString (rb_binding_revision r)),
             (''connectorId'', JString (rb_connector_id r)),
             (''operationId'', JString (rb_operation_id r))]) (es_resolved step)) (ep_steps plan)
      in if steps = [] then None
         else Some (json_object [(''catalogRevision'', json_string_option (ep_catalog_revision plan)),
                                 (''steps'', JArray steps)]))"

section \<open>What a resolution guarantees\<close>

text \<open>The frozen binding of a capability on a connector: an enabled binding of the catalog, for
  the capability, on that connector, and the pinned one if the node pins one.\<close>

definition frozen_ok ::
  "catalog_snapshot \<Rightarrow> string \<Rightarrow> string \<Rightarrow> node_semantics_entry option \<Rightarrow> resolved_step_binding \<Rightarrow> bool" where
  "frozen_ok c capability connector_id semantics r \<longleftrightarrow>
     rb_capability_id r = capability \<and> rb_connector_id r = connector_id \<and>
     (\<exists>b\<in>set (cs_bindings c). cb_binding_id b = rb_binding_id r \<and> cb_capability_id b = capability \<and>
        cb_model_id b = rb_resolved_model_id r \<and> cb_availability b = BindingEnabled \<and>
        cb_implementation b = ApiConnector connector_id (rb_operation_id r)) \<and>
     (\<forall>m b. requested_pin semantics = Some (m, b) \<longrightarrow>
        rb_resolved_model_id r = m \<and> rb_binding_id r = b)"

lemma binding_availableD:
  "binding_available c b av \<Longrightarrow> cb_availability b = BindingEnabled \<and>
     (\<exists>k op. cb_implementation b = ApiConnector k op)"
  by (auto simp: binding_available_def split: if_splits implementation_target.splits)

lemma resolve_step_binding_ok:
  assumes "resolve_step_binding c capability connector_id semantics = Inr r"
  shows "frozen_ok c capability connector_id semantics r"
proof -
  obtain i op where i: "resolve c \<lparr>rq_capability_id = capability,
        rq_requested_model = map_option fst (requested_pin semantics),
        rq_connector_preference = Some connector_id\<rparr> [(connector_id, True)] = Inr i"
    "\<not> pin_mismatch (requested_pin semantics) i"
    and t: "ri_target i = ApiConnector (rb_connector_id r) op" "rb_operation_id r = op"
    and r: "rb_capability_id r = capability" "rb_resolved_model_id r = ri_resolved_model_id i"
      "rb_binding_id r = ri_binding_id i"
    using assms by (auto simp: resolve_step_binding_def Let_def result_simps
        split: if_splits implementation_target.splits)
  obtain b req where b: "i = resolved capability req b" "b \<in> set (cs_bindings c)"
    "cb_capability_id b = capability" "binding_available c b [(connector_id, True)]"
    "binding_connector b = Some connector_id"
    using resolve_ok [OF i(1)] by auto
  from b(4) t(1) have "cb_implementation b = ApiConnector (rb_connector_id r) op"
    by (simp add: b(1) resolved_def)
  moreover from this b(5) have "rb_connector_id r = connector_id"
    by (simp add: binding_connector_def)
  ultimately show ?thesis
    using b i(2) t(2) r binding_availableD [OF b(4)]
    by (auto simp: frozen_ok_def resolved_def pin_mismatch_def)
qed

text \<open>A step after attachment.\<close>

definition step_frozen ::
  "catalog_snapshot \<Rightarrow> string \<Rightarrow> (string, node_semantics_entry) btree_map option \<Rightarrow>
   execution_step \<Rightarrow> execution_step \<Rightarrow> bool" where
  "step_frozen c connector_id semantics step step' \<longleftrightarrow>
     step' = step\<lparr>es_resolved := es_resolved step'\<rparr> \<and>
     (case es_capability step of None \<Rightarrow> step' = step
      | Some capability \<Rightarrow> \<exists>r. es_resolved step' = Some r \<and>
          frozen_ok c capability connector_id (Option.bind semantics (\<lambda>m. bt_get m (es_node_id step))) r)"

lemma attach_step_ok:
  "attach_step c connector_id semantics step = Inr step' \<Longrightarrow> step_frozen c connector_id semantics step step'"
  by (auto simp: attach_step_def step_frozen_def result_simps resolve_step_binding_ok split: option.splits)

lemma attach_steps_ok:
  "fold_res (\<lambda>step steps. res_bind (attach_step c k s step) (\<lambda>step'. Inr (steps @ [step']))) xs acc = Inr ys
   \<Longrightarrow> \<exists>zs. ys = acc @ zs \<and> list_all2 (step_frozen c k s) xs zs"
proof (induction xs arbitrary: acc)
  case (Cons x xs)
  then obtain x' where x': "attach_step c k s x = Inr x'"
    and rest: "fold_res (\<lambda>step steps. res_bind (attach_step c k s step) (\<lambda>step'. Inr (steps @ [step'])))
      xs (acc @ [x']) = Inr ys"
    by (cases "attach_step c k s x") auto
  from Cons.IH [OF rest] attach_step_ok [OF x'] show ?case by auto
qed simp

lemma attach_ok:
  assumes "attach_resolved_bindings c k s plan = Inr plan'" "catalog_connector c k \<noteq> None"
  shows "list_all2 (step_frozen c k s) (ep_steps plan) (ep_steps plan') \<and>
    ep_version_id plan' = ep_version_id plan \<and> ep_catalog_revision plan' = Some (cs_catalog_revision c)"
  using assms attach_steps_ok by (fastforce simp: attach_resolved_bindings_def res_bind_Inr)

end
