(* ===== verification/Run_Service.thy ===== *)
theory Run_Service
  imports Run_Policy Run_Resolution Task_Store
begin

text \<open>
  The state of a \<open>RunService\<close> (crates/run/src/lib.rs) and the calls every component of the run
  engine makes.  A service operation is a function from the service state to the state after it
  and its result; an error keeps the effects made before it, since only a store operation is a
  transaction.

  \<open>run_env\<close> collects what the code takes from outside: identifiers and the clock (of the n-th
  access to shared state), serde_json and SHA-256, the environment variables, the catalog and the
  provider.  Other parties share the store and the interrupt handles: before every access they may
  change the database (\<open>env_other\<close>) and request interrupts (\<open>env_requests\<close>), so a property proved
  for every \<open>run_env\<close> holds under every interleaving.
\<close>

section \<open>State\<close>

record run_env =
  env_other :: "nat \<Rightarrow> db \<Rightarrow> db"
  env_requests :: "nat \<Rightarrow> nat list"
  env_new_id :: "nat \<Rightarrow> nat \<Rightarrow> string"
  env_now :: "nat \<Rightarrow> timestamp"
  env_json :: "json \<Rightarrow> string"
  env_plan_text :: "execution_plan \<Rightarrow> string"
  env_plan_parse :: "string \<Rightarrow> run_error + execution_plan"
  env_cost_text :: "cost_summary \<Rightarrow> string"
  env_cost_parse :: "string \<Rightarrow> run_error + cost_summary"
  env_estimate_text :: "cost_estimate \<Rightarrow> string"
  env_estimate_parse :: "string \<Rightarrow> run_error + cost_estimate"
  env_semantics_parse :: "string \<Rightarrow> run_error + (string, node_semantics_entry) btree_map"
  env_digest :: "string \<Rightarrow> string"
  env_threshold :: env_var
  env_max_retries :: env_var
  env_registry :: node_registry
  env_catalog :: catalog_snapshot
  env_cancelled :: "nat \<Rightarrow> bool"
  env_cancel_confirmed :: "nat \<Rightarrow> provider_task_record \<Rightarrow> bool"
  env_notice :: "nat \<Rightarrow> run_error option"
  env_event_parse :: "string \<Rightarrow> run_error + json"
  env_estimate :: "provider_request \<Rightarrow> provider_error + cost_estimate"

record run_event_envelope =
  ee_workspace_id :: string
  ee_run_id :: string
  ee_seq :: int
  ee_server_time :: timestamp
  ee_ev :: string
  ee_data :: json

text \<open>An interrupt handle (\<open>Arc\<close>) is a number; \<open>sv_requested\<close> holds the handles whose flag is
  set.  \<open>sv_spawned\<close> lists the background tasks handed to the runtime (\<open>tokio::spawn\<close>): a run that
  executes with self-healing, a manual run, a confirmed sweep.\<close>

datatype background_task =
    SelfHealTask run_record execution_plan nat
  | ManualTask run_record execution_plan nat bool
  | SweepTask string "string list" string

record svc =
  sv_db :: db
  sv_tick :: nat
  sv_published :: "run_event_envelope list"
  sv_interrupts :: "(string, nat) btree_map"
  sv_handles :: nat
  sv_requested :: "nat list"
  sv_spawned :: "background_task list"

type_synonym 'a run_m = "svc \<Rightarrow> svc \<times> (run_error + 'a)"

section \<open>Sequencing\<close>

definition rm_bind :: "'a run_m \<Rightarrow> ('a \<Rightarrow> 'b run_m) \<Rightarrow> 'b run_m" where
  "rm_bind m f s = (case m s of (s', Inl e) \<Rightarrow> (s', Inl e) | (s', Inr x) \<Rightarrow> f x s')"

definition rm_ok :: "'a \<Rightarrow> 'a run_m" where
  "rm_ok x s = (s, Inr x)"

definition rm_err :: "run_error \<Rightarrow> 'a run_m" where
  "rm_err e s = (s, Inl e)"

definition rm_lift :: "run_error + 'a \<Rightarrow> 'a run_m" where
  "rm_lift r s = (s, r)"

text \<open>\<open>match m { Ok(x) => ok x, Err(e) => err e }\<close>.\<close>

definition rm_match :: "'a run_m \<Rightarrow> (run_error \<Rightarrow> 'b run_m) \<Rightarrow> ('a \<Rightarrow> 'b run_m) \<Rightarrow> 'b run_m" where
  "rm_match m err ok s = (case m s of (s', Inl e) \<Rightarrow> err e s' | (s', Inr x) \<Rightarrow> ok x s')"

fun rm_each :: "('a \<Rightarrow> unit run_m) \<Rightarrow> 'a list \<Rightarrow> unit run_m" where
  "rm_each f [] = rm_ok ()"
| "rm_each f (x # xs) = rm_bind (f x) (\<lambda>_. rm_each f xs)"

fun rm_map :: "('a \<Rightarrow> 'b run_m) \<Rightarrow> 'a list \<Rightarrow> 'b list run_m" where
  "rm_map f [] = rm_ok []"
| "rm_map f (x # xs) = rm_bind (f x) (\<lambda>y. rm_bind (rm_map f xs) (\<lambda>ys. rm_ok (y # ys)))"

fun rm_fold :: "('a \<Rightarrow> 's \<Rightarrow> 's run_m) \<Rightarrow> 'a list \<Rightarrow> 's \<Rightarrow> 's run_m" where
  "rm_fold f [] st = rm_ok st"
| "rm_fold f (x # xs) st = rm_bind (f x st) (rm_fold f xs)"

text \<open>What other parties did since the last access.\<close>

definition others :: "run_env \<Rightarrow> svc \<Rightarrow> svc" where
  "others env s = s\<lparr>sv_db := env_other env (sv_tick s) (sv_db s), sv_tick := Suc (sv_tick s),
     sv_requested := env_requests env (sv_tick s) @ sv_requested s\<rparr>"

text \<open>A store operation: it gets the identifiers and the time of this call.\<close>

definition call :: "run_env \<Rightarrow> ((nat \<Rightarrow> string) \<Rightarrow> timestamp \<Rightarrow> db \<Rightarrow> 'a store_result) \<Rightarrow> 'a run_m" where
  "call env op s = (let s' = others env s in
     case op (env_new_id env (sv_tick s)) (env_now env (sv_tick s)) (sv_db s') of
       Inl e \<Rightarrow> (s', Inl (run_error_of_store e))
     | Inr (db, x) \<Rightarrow> (s'\<lparr>sv_db := db\<rparr>, Inr x))"

definition query :: "run_env \<Rightarrow> (db \<Rightarrow> store_error + 'a) \<Rightarrow> 'a run_m" where
  "query env q s = (let s' = others env s in (s', map_err run_error_of_store (q (sv_db s'))))"

definition read :: "run_env \<Rightarrow> (db \<Rightarrow> 'a) \<Rightarrow> 'a run_m" where
  "read env q s = (let s' = others env s in (s', Inr (q (sv_db s'))))"

section \<open>Events and interrupts\<close>

definition publish :: "run_event_envelope \<Rightarrow> unit run_m" where
  "publish e s = (s\<lparr>sv_published := sv_published s @ [e]\<rparr>, Inr ())"

definition emit :: "run_env \<Rightarrow> string \<Rightarrow> string \<Rightarrow> string \<Rightarrow> json \<Rightarrow> unit run_m" where
  "emit env workspace_id run_id ev data =
     rm_bind (call env (\<lambda>ids now. append_run_event (ids 0) now run_id ev (env_json env data))) (\<lambda>event.
     publish \<lparr>ee_workspace_id = workspace_id, ee_run_id = re_run_id event, ee_seq = re_seq event,
       ee_server_time = re_created_at event, ee_ev = re_ev event, ee_data = data\<rparr>)"

definition new_interrupt :: "nat run_m" where
  "new_interrupt s = (s\<lparr>sv_handles := Suc (sv_handles s)\<rparr>, Inr (sv_handles s))"

definition insert_interrupt :: "string \<Rightarrow> nat \<Rightarrow> unit run_m" where
  "insert_interrupt run_id h s = (s\<lparr>sv_interrupts := bt_insert run_id h (sv_interrupts s)\<rparr>, Inr ())"

definition remove_interrupt :: "string \<Rightarrow> unit run_m" where
  "remove_interrupt run_id s = (s\<lparr>sv_interrupts := bt_remove run_id (sv_interrupts s)\<rparr>, Inr ())"

definition request_interrupt :: "nat \<Rightarrow> unit run_m" where
  "request_interrupt h s = (s\<lparr>sv_requested := h # sv_requested s\<rparr>, Inr ())"

definition is_requested :: "run_env \<Rightarrow> nat \<Rightarrow> bool run_m" where
  "is_requested env h s = (let s' = others env s in (s', Inr (h \<in> set (sv_requested s'))))"

text \<open>\<open>tokio::select!\<close> against \<open>RunInterrupt::cancelled\<close>: when the handle is requested, either
  branch may win.\<close>

definition cancelled :: "run_env \<Rightarrow> nat \<Rightarrow> bool run_m" where
  "cancelled env h s = (let s' = others env s in
     (s', Inr (h \<in> set (sv_requested s') \<and> env_cancelled env (sv_tick s))))"

definition spawn_task :: "background_task \<Rightarrow> unit run_m" where
  "spawn_task t s = (s\<lparr>sv_spawned := sv_spawned s @ [t]\<rparr>, Inr ())"

section \<open>Shared operations\<close>

definition ensure_workspace_not_busy :: "run_env \<Rightarrow> string \<Rightarrow> string option \<Rightarrow> string option \<Rightarrow> unit run_m" where
  "ensure_workspace_not_busy env workspace_id group_id exclude_run_id =
     rm_bind (read env (active_workspace_runs workspace_id)) (\<lambda>runs.
     case List.find (\<lambda>r. Some (rr_id r) \<noteq> exclude_run_id \<and>
         \<not> (group_id \<noteq> None \<and> rr_group_id r = group_id)) runs of
       None \<Rightarrow> rm_ok ()
     | Some r \<Rightarrow> rm_err (RE_WorkspaceBusy workspace_id (rr_id r)))"

definition ensure_run_steps :: "run_env \<Rightarrow> string \<Rightarrow> execution_plan \<Rightarrow> run_step_record list run_m" where
  "ensure_run_steps env run_id plan =
     rm_bind (read env (run_steps run_id)) (\<lambda>existing.
     if existing \<noteq> [] then rm_ok existing
     else rm_map (\<lambda>step. call env (\<lambda>ids now. create_run_step (ids 0)
       \<lparr>ns_run_id = run_id, ns_node_id = es_node_id step, ns_node_type = es_node_type step,
        ns_provider = es_provider step, ns_state = run_step_state_as_str StepQueued\<rparr>)) (ep_steps plan))"

definition skip_step :: "run_env \<Rightarrow> string \<Rightarrow> string \<Rightarrow> run_step_record \<Rightarrow> unit run_m" where
  "skip_step env workspace_id run_id step =
     rm_bind (call env (\<lambda>ids now. update_run_step_state now (rs_id step)
       (run_step_state_as_str StepSkipped) None None None)) (\<lambda>_.
     emit env workspace_id run_id ''node.state'' (json_object
       [(''node_id'', JString (rs_node_id step)), (''node_type'', JString (rs_node_type step)),
        (''state'', JString (run_step_state_as_str StepSkipped))]))"

definition skip_steps :: "run_env \<Rightarrow> string \<Rightarrow> string \<Rightarrow> run_step_record list \<Rightarrow> unit run_m" where
  "skip_steps env workspace_id run_id = rm_each (skip_step env workspace_id run_id)"

definition emit_node_state ::
  "run_env \<Rightarrow> string \<Rightarrow> string \<Rightarrow> execution_step \<Rightarrow> run_step_state \<Rightarrow> string option \<Rightarrow> unit run_m" where
  "emit_node_state env workspace_id run_id step state err =
     emit env workspace_id run_id ''node.state'' (json_object
       ([(''node_id'', JString (es_node_id step)), (''node_type'', JString (es_node_type step)),
         (''provider'', json_string_option (es_provider step)),
         (''state'', JString (run_step_state_as_str state))] @
        (case err of None \<Rightarrow> [] | Some e \<Rightarrow> [(''error'', JString e)])))"

text \<open>\<open>json!({ "error": message })\<close> as text.\<close>

definition error_text :: "run_env \<Rightarrow> string \<Rightarrow> string" where
  "error_text env message = env_json env (json_object [(''error'', JString message)])"

record run_outcome =
  ro_run :: run_record
  ro_steps :: "run_step_record list"
  ro_artifacts :: "artifact_record list"

definition outcome :: "run_env \<Rightarrow> string \<Rightarrow> run_outcome run_m" where
  "outcome env run_id = rm_bind (query env (store_run run_id)) (\<lambda>r.
     rm_bind (read env (run_steps run_id)) (\<lambda>ss.
     rm_bind (read env (run_artifacts run_id)) (\<lambda>xs.
     rm_ok \<lparr>ro_run = r, ro_steps = ss, ro_artifacts = xs\<rparr>)))"

section \<open>Lemmas\<close>

named_theorems rm_simps

lemma rm_bind_Inr [rm_simps]:
  "rm_bind m f s = (s', Inr y) \<longleftrightarrow> (\<exists>t x. m s = (t, Inr x) \<and> f x t = (s', Inr y))"
  by (auto simp: rm_bind_def split: prod.splits sum.splits)

lemma rm_ok_apply [simp]: "rm_ok x s = (s, Inr x)"
  by (simp add: rm_ok_def)

lemma rm_err_apply [simp]: "rm_err e s = (s, Inl e)"
  by (simp add: rm_err_def)

lemma rm_lift_apply [simp]: "rm_lift r s = (s, r)"
  by (simp add: rm_lift_def)

lemma read_apply [simp]: "read env q s = (others env s, Inr (q (sv_db (others env s))))"
  by (simp add: read_def Let_def)

lemma is_requested_apply [simp]:
  "is_requested env h s = (others env s, Inr (h \<in> set (sv_requested (others env s))))"
  by (simp add: is_requested_def Let_def)

end
