(* ===== verification/Step_Dag.thy ===== *)
theory Step_Dag
  imports Run_Error Btree
begin

text \<open>
  The dependency graph of a plan (crates/run/src/step_dag.rs): for every step the number of
  distinct steps it reads from, and the steps that read from it.  A source that no step of the
  plan produces is an error.
\<close>

record step_dag =
  dg_upstream_counts :: "nat list"
  dg_downstream :: "nat list list"

definition by_node :: "execution_step list \<Rightarrow> (string, nat) btree_map" where
  "by_node steps = fold (\<lambda>(index, step). bt_insert (es_node_id step) index)
     (enumerate 0 steps) []"

type_synonym dag_sets = "nat btree_set list \<times> nat btree_set list"

definition add_source :: "(string, nat) btree_map \<Rightarrow> nat \<Rightarrow> string \<times> string \<Rightarrow> dag_sets \<Rightarrow> run_error + dag_sets" where
  "add_source nodes index source sets = (case bt_get nodes (fst source) of
     None \<Rightarrow> Inl (RE_MissingInput (fst source) (snd source))
   | Some source_index \<Rightarrow> (case sets of (upstream, downstream) \<Rightarrow>
       Inr (upstream[index := bs_insert source_index (upstream ! index)],
            downstream[source_index := bs_insert index (downstream ! source_index)])))"

definition step_sources :: "execution_step \<Rightarrow> (string \<times> string) list" where
  "step_sources step = concat (map snd (es_inputs step))"

definition add_step :: "(string, nat) btree_map \<Rightarrow> nat \<times> execution_step \<Rightarrow> dag_sets \<Rightarrow> run_error + dag_sets" where
  "add_step nodes p = fold_res (add_source nodes (fst p)) (step_sources (snd p))"

definition dag_from_plan :: "execution_plan \<Rightarrow> run_error + step_dag" where
  "dag_from_plan plan = (let steps = ep_steps plan; n = length steps in
     res_bind (fold_res (add_step (by_node steps)) (enumerate 0 steps) (replicate n [], replicate n []))
       (\<lambda>(upstream, downstream). Inr \<lparr>dg_upstream_counts = map length upstream,
          dg_downstream = downstream\<rparr>))"

section \<open>What the graph says\<close>

text \<open>The steps the step \<open>i\<close> reads from.\<close>

definition upstream_of :: "execution_plan \<Rightarrow> nat \<Rightarrow> nat set" where
  "upstream_of plan i =
     {j. \<exists>src\<in>set (step_sources (ep_steps plan ! i)). bt_get (by_node (ep_steps plan)) (fst src) = Some j}"

text \<open>The sets recorded so far are those of the edges \<open>E\<close> (reader, source).\<close>

definition dag_rel :: "nat \<Rightarrow> (nat \<times> nat) set \<Rightarrow> dag_sets \<Rightarrow> bool" where
  "dag_rel n E s \<longleftrightarrow> length (fst s) = n \<and> length (snd s) = n \<and>
     (\<forall>i<n. sorted_wrt (<) (fst s ! i) \<and> set (fst s ! i) = {j. (i, j) \<in> E}) \<and>
     (\<forall>j<n. sorted_wrt (<) (snd s ! j) \<and> set (snd s ! j) = {i. (i, j) \<in> E})"

lemma bt_get_fold_insert:
  "bt_get (fold (\<lambda>(k, x). bt_insert (f x) k) xs m) a = Some v \<Longrightarrow>
     bt_get m a = Some v \<or> (\<exists>x. (v, x) \<in> set xs \<and> f x = a)"
proof (induction xs arbitrary: m)
  case (Cons p xs)
  obtain i x where p: "p = (i, x)" by (cases p)
  with Cons.IH [of "bt_insert (f x) i m"] Cons.prems
  have "bt_get (bt_insert (f x) i m) a = Some v \<or> (\<exists>x. (v, x) \<in> set xs \<and> f x = a)" by simp
  then show ?case by (cases "f x = a") (auto simp: p)
qed simp

lemma set_enumerate_0: "set (enumerate 0 xs) = (\<lambda>i. (i, xs ! i)) ` {..<length xs}"
  by (auto simp: in_set_enumerate_eq)

lemma by_node_index:
  "bt_get (by_node steps) a = Some i \<Longrightarrow> i < length steps \<and> es_node_id (steps ! i) = a"
  using bt_get_fold_insert [of es_node_id "enumerate 0 steps" "[]" a i]
  by (auto simp: by_node_def in_set_enumerate_eq)

lemma add_source_rel:
  assumes "dag_rel n E s" "i < n" "add_source nodes i src s = Inr s'" "\<And>a j. bt_get nodes a = Some j \<Longrightarrow> j < n"
  shows "\<exists>j. bt_get nodes (fst src) = Some j \<and> dag_rel n (insert (i, j) E) s'"
proof -
  obtain up down where s: "s = (up, down)" by (cases s)
  from assms(3) obtain j where j: "bt_get nodes (fst src) = Some j"
    "s' = (up[i := bs_insert j (up ! i)], down[j := bs_insert i (down ! j)])"
    by (auto simp: add_source_def s split: option.splits)
  with assms(1,2) assms(4) [OF j(1)] show ?thesis
    by (auto simp: dag_rel_def s nth_list_update)
qed

definition edges_into :: "(string, nat) btree_map \<Rightarrow> nat \<Rightarrow> (string \<times> string) list \<Rightarrow> (nat \<times> nat) set" where
  "edges_into nodes i srcs = {(i, j) |j. \<exists>src\<in>set srcs. bt_get nodes (fst src) = Some j}"

lemma fold_sources_rel:
  assumes "fold_res (add_source nodes i) srcs s = Inr s'" "dag_rel n E s" "i < n"
    and b: "\<And>a j. bt_get nodes a = Some j \<Longrightarrow> j < n"
  shows "(\<forall>src\<in>set srcs. bt_get nodes (fst src) \<noteq> None) \<and> dag_rel n (E \<union> edges_into nodes i srcs) s'"
  using assms(1,2)
proof (induction srcs arbitrary: s E)
  case (Cons src srcs)
  then obtain t where t: "add_source nodes i src s = Inr t" "fold_res (add_source nodes i) srcs t = Inr s'"
    by (auto split: sum.splits)
  obtain j where j: "bt_get nodes (fst src) = Some j" "dag_rel n (insert (i, j) E) t"
    using add_source_rel [OF Cons.prems(2) assms(3) t(1)] b by blast
  have "insert (i, j) E \<union> edges_into nodes i srcs = E \<union> edges_into nodes i (src # srcs)"
    using j(1) by (auto simp: edges_into_def)
  with Cons.IH [OF t(2) j(2)] j(1) show ?case by simp
qed (simp add: edges_into_def)

definition edges_of :: "(string, nat) btree_map \<Rightarrow> (nat \<times> execution_step) list \<Rightarrow> (nat \<times> nat) set" where
  "edges_of nodes ps = (\<Union>p\<in>set ps. edges_into nodes (fst p) (step_sources (snd p)))"

lemma fold_steps_rel:
  assumes "fold_res (add_step nodes) ps s = Inr s'" "dag_rel n E s" "\<forall>p\<in>set ps. fst p < n"
    and b: "\<And>a j. bt_get nodes a = Some j \<Longrightarrow> j < n"
  shows "(\<forall>p\<in>set ps. \<forall>src\<in>set (step_sources (snd p)). bt_get nodes (fst src) \<noteq> None) \<and>
    dag_rel n (E \<union> edges_of nodes ps) s'"
  using assms(1-3)
proof (induction ps arbitrary: s E)
  case (Cons p ps)
  then obtain t where t: "add_step nodes p s = Inr t" "fold_res (add_step nodes) ps t = Inr s'"
    by (auto split: sum.splits)
  have p: "\<forall>src\<in>set (step_sources (snd p)). bt_get nodes (fst src) \<noteq> None"
    "dag_rel n (E \<union> edges_into nodes (fst p) (step_sources (snd p))) t"
    using fold_sources_rel [OF t(1) [unfolded add_step_def] Cons.prems(2)] Cons.prems(3) b by simp_all
  with Cons.IH [OF t(2) p(2)] Cons.prems(3) show ?case by (simp add: edges_of_def Un_assoc)
qed (simp add: edges_of_def)

lemma dag_from_plan_ok:
  assumes "dag_from_plan plan = Inr d"
  defines "n \<equiv> length (ep_steps plan)"
  shows "length (dg_upstream_counts d) = n" "length (dg_downstream d) = n"
    and "i < n \<Longrightarrow> dg_upstream_counts d ! i = card (upstream_of plan i)"
    and "j < n \<Longrightarrow> distinct (dg_downstream d ! j) \<and> set (dg_downstream d ! j) = {i. i < n \<and> j \<in> upstream_of plan i}"
    and "i < n \<Longrightarrow> src \<in> set (step_sources (ep_steps plan ! i)) \<Longrightarrow>
      \<exists>j\<in>upstream_of plan i. bt_get (by_node (ep_steps plan)) (fst src) = Some j"
proof -
  let ?nodes = "by_node (ep_steps plan)"
  define E where "E = {(i, j). i < n \<and> j \<in> upstream_of plan i}"
  obtain s where f: "fold_res (add_step ?nodes) (enumerate 0 (ep_steps plan)) (replicate n [], replicate n []) = Inr s"
    and d: "d = \<lparr>dg_upstream_counts = map length (fst s), dg_downstream = snd s\<rparr>"
    using assms(1) by (auto simp: dag_from_plan_def Let_def res_bind_Inr n_def)
  have start: "dag_rel n {} (replicate n [], replicate n [])" by (simp add: dag_rel_def)
  have "edges_of ?nodes (enumerate 0 (ep_steps plan)) = E"
    unfolding E_def edges_of_def edges_into_def upstream_of_def set_enumerate_0 n_def by auto
  with fold_steps_rel [OF f start] by_node_index [of "ep_steps plan"]
  have r: "\<forall>p\<in>set (enumerate 0 (ep_steps plan)). \<forall>src\<in>set (step_sources (snd p)). bt_get ?nodes (fst src) \<noteq> None"
    "dag_rel n E s"
    by (simp_all add: in_set_enumerate_eq n_def)
  show "length (dg_upstream_counts d) = n" "length (dg_downstream d) = n"
    using r(2) by (simp_all add: dag_rel_def d)
  show "dg_upstream_counts d ! i = card (upstream_of plan i)" if "i < n"
  proof -
    from r(2) that have "sorted_wrt (<) (fst s ! i)" "set (fst s ! i) = upstream_of plan i"
      by (auto simp: dag_rel_def E_def)
    then have "distinct (fst s ! i)" "set (fst s ! i) = upstream_of plan i"
      by (auto simp: strict_sorted_iff)
    then have "length (fst s ! i) = card (upstream_of plan i)" by (metis distinct_card)
    with r(2) that show ?thesis by (simp add: d dag_rel_def)
  qed
  show "distinct (dg_downstream d ! j) \<and> set (dg_downstream d ! j) = {i. i < n \<and> j \<in> upstream_of plan i}"
    if "j < n"
    using r(2) that by (auto simp: dag_rel_def d E_def strict_sorted_iff)
  show "\<exists>j\<in>upstream_of plan i. bt_get ?nodes (fst src) = Some j"
    if "i < n" "src \<in> set (step_sources (ep_steps plan ! i))"
  proof -
    have "(i, ep_steps plan ! i) \<in> set (enumerate 0 (ep_steps plan))"
      using that(1) by (simp add: in_set_enumerate_eq n_def)
    with r(1) that(2) have "bt_get ?nodes (fst src) \<noteq> None" by fastforce
    then obtain j where "bt_get ?nodes (fst src) = Some j" by blast
    with that(2) show ?thesis by (auto simp: upstream_of_def)
  qed
qed

lemma upstream_of_bound: "j \<in> upstream_of plan i \<Longrightarrow> j < length (ep_steps plan)"
  using by_node_index by (auto simp: upstream_of_def)

lemma finite_upstream_of [simp]: "finite (upstream_of plan i)"
  by (rule finite_subset [of _ "{..<length (ep_steps plan)}"]) (auto dest: upstream_of_bound)

end
