(* ===== verification/Executor.thy ===== *)
theory Executor
  imports Run_Service Step_Dag Transition Store_Properties
begin

text \<open>
  The scheduling loop of a run: \<open>execute_created_run_inner\<close> of crates/run/src/executor.rs.
  The local variables are \<open>loop_state\<close>; the tasks of the \<open>JoinSet\<close> are the indices of the
  running steps, and \<open>ls_spawned\<close> is the list of tasks handed to it, with their inputs.  What a
  task does to the database, and everything other parties do while the loop waits, is the
  environment: any sequence of store operations.
\<close>

section \<open>State\<close>

record step_output =
  sx_port :: string
  sx_artifact :: artifact_ref

datatype step_execution = ExecutionSucceeded "step_output list" | ExecutionInterrupted

datatype joined = Joined nat "run_error + step_execution" | JoinLost nat string

type_synonym output_map = "(string \<times> string, artifact_ref) btree_map"
type_synonym input_map = "(string, artifact_ref) btree_map"

record loop_state =
  ls_outputs :: output_map
  ls_remaining :: "nat list"
  ls_started :: "bool list"
  ls_finished :: "bool list"
  ls_skipped :: "bool list"
  ls_ready :: "nat list"
  ls_running :: "nat list"
  ls_spawned :: "(nat \<times> input_map) list"
  ls_first_error :: "(run_error \<times> string) option"
  ls_interrupted :: bool

record exec_ctx =
  xc_workspace_id :: string
  xc_run_id :: string
  xc_plan :: execution_plan
  xc_steps :: "run_step_record list"
  xc_dag :: step_dag
  xc_max_parallel :: nat
  xc_interrupt :: nat

section \<open>Inputs\<close>

definition resolve_source ::
  "output_map \<Rightarrow> string \<Rightarrow> nat \<times> string \<times> string \<Rightarrow> input_map \<Rightarrow> run_error + input_map" where
  "resolve_source outputs port p inputs = (case p of (index, source) \<Rightarrow>
     res_bind (ok_or (bt_get outputs source) (RE_MissingInput (fst source) (snd source))) (\<lambda>artifact.
       Inr (bt_insert (if index = 0 then port else port @ ''#'' @ show_nat index) artifact inputs)))"

definition resolve_inputs ::
  "(string, (string \<times> string) list) btree_map \<Rightarrow> output_map \<Rightarrow> run_error + input_map" where
  "resolve_inputs input_edges outputs =
     fold_res (\<lambda>(port, sources). fold_res (resolve_source outputs port) (enumerate 0 sources)) input_edges []"

section \<open>Skipping\<close>

definition skip_index ::
  "run_env \<Rightarrow> exec_ctx \<Rightarrow> (loop_state \<Rightarrow> nat \<Rightarrow> bool) \<Rightarrow> nat \<Rightarrow> loop_state \<Rightarrow> loop_state run_m" where
  "skip_index env ctx wanted i l =
     (if wanted l i \<and> \<not> ls_skipped l ! i
      then rm_bind (skip_step env (xc_workspace_id ctx) (xc_run_id ctx) (xc_steps ctx ! i))
        (\<lambda>_. rm_ok (l\<lparr>ls_skipped := (ls_skipped l)[i := True]\<rparr>))
      else rm_ok l)"

definition skip_unstarted_steps :: "run_env \<Rightarrow> exec_ctx \<Rightarrow> loop_state \<Rightarrow> loop_state run_m" where
  "skip_unstarted_steps env ctx = rm_fold
     (skip_index env ctx (\<lambda>l i. \<not> ls_started l ! i \<and> \<not> ls_finished l ! i)) [0..<length (xc_steps ctx)]"

definition skip_unfinished_steps :: "run_env \<Rightarrow> exec_ctx \<Rightarrow> loop_state \<Rightarrow> loop_state run_m" where
  "skip_unfinished_steps env ctx = rm_fold
     (skip_index env ctx (\<lambda>l i. \<not> ls_finished l ! i)) [0..<length (xc_steps ctx)]"

section \<open>One iteration\<close>

text \<open>The inner \<open>while\<close> loop, on the queue of ready steps.\<close>

fun spawn_ready :: "exec_ctx \<Rightarrow> nat list \<Rightarrow> loop_state \<Rightarrow> run_error + loop_state" where
  "spawn_ready ctx [] l = Inr (l\<lparr>ls_ready := []\<rparr>)"
| "spawn_ready ctx (index # ready) l =
     (if \<not> length (ls_running l) < xc_max_parallel ctx then Inr (l\<lparr>ls_ready := index # ready\<rparr>)
      else if ls_started l ! index \<or> ls_skipped l ! index then spawn_ready ctx ready l
      else res_bind (resolve_inputs (es_inputs (ep_steps (xc_plan ctx) ! index)) (ls_outputs l)) (\<lambda>inputs.
        spawn_ready ctx ready (l\<lparr>ls_started := (ls_started l)[index := True],
          ls_running := ls_running l @ [index], ls_spawned := ls_spawned l @ [(index, inputs)]\<rparr>)))"

text \<open>From the top of the loop to the test of completion.\<close>

definition note_interrupt :: "bool \<Rightarrow> loop_state \<Rightarrow> loop_state" where
  "note_interrupt requested l =
     (if requested \<and> ls_first_error l = None then l\<lparr>ls_interrupted := True\<rparr> else l)"

definition loop_top :: "run_env \<Rightarrow> exec_ctx \<Rightarrow> loop_state \<Rightarrow> loop_state run_m" where
  "loop_top env ctx l =
     rm_bind (is_requested env (xc_interrupt ctx)) (\<lambda>requested.
     let l = note_interrupt requested l in
     if ls_first_error l \<noteq> None \<or> ls_interrupted l then skip_unstarted_steps env ctx l
     else rm_lift (spawn_ready ctx (ls_ready l) l))"

definition all_settled :: "loop_state \<Rightarrow> bool" where
  "all_settled l \<longleftrightarrow> list_all (\<lambda>(f, s). f \<or> s) (zip (ls_finished l) (ls_skipped l))"

text \<open>The steps that a finished step may make ready.\<close>

definition release :: "nat \<Rightarrow> loop_state \<Rightarrow> loop_state" where
  "release i l = (let r = (ls_remaining l)[i := ls_remaining l ! i - 1]
     in l\<lparr>ls_remaining := r, ls_ready := (if r ! i = 0 then ls_ready l @ [i] else ls_ready l)\<rparr>)"

definition add_outputs :: "string \<Rightarrow> step_output list \<Rightarrow> output_map \<Rightarrow> output_map" where
  "add_outputs node_id outs m = fold (\<lambda>x. bt_insert (node_id, sx_port x) (sx_artifact x)) outs m"

definition join_succeeded :: "exec_ctx \<Rightarrow> nat \<Rightarrow> step_output list \<Rightarrow> loop_state \<Rightarrow> loop_state" where
  "join_succeeded ctx i outs l =
     (let l = l\<lparr>ls_outputs := add_outputs (es_node_id (ep_steps (xc_plan ctx) ! i)) outs (ls_outputs l)\<rparr>
      in if ls_first_error l = None \<and> \<not> ls_interrupted l
         then fold release (dg_downstream (xc_dag ctx) ! i) l else l)"

definition join_failed :: "run_env \<Rightarrow> exec_ctx \<Rightarrow> nat \<Rightarrow> run_error \<Rightarrow> loop_state \<Rightarrow> loop_state run_m" where
  "join_failed env ctx i err l =
     (if ls_first_error l \<noteq> None then rm_ok l
      else let message = public_message err; error_json = error_text env message in
        rm_bind (call env (\<lambda>ids now. update_run_step_state now (rs_id (xc_steps ctx ! i))
          (run_step_state_as_str StepFailed) (Some (Fin 1)) None (Some error_json))) (\<lambda>_.
        rm_bind (emit_node_state env (xc_workspace_id ctx) (xc_run_id ctx) (ep_steps (xc_plan ctx) ! i)
          StepFailed (Some message)) (\<lambda>_.
        rm_bind (request_interrupt (xc_interrupt ctx)) (\<lambda>_.
        rm_ok (l\<lparr>ls_first_error := Some (err, error_json)\<rparr>)))))"

definition join_interrupted :: "run_env \<Rightarrow> exec_ctx \<Rightarrow> nat \<Rightarrow> loop_state \<Rightarrow> loop_state run_m" where
  "join_interrupted env ctx i l =
     rm_bind (request_interrupt (xc_interrupt ctx)) (\<lambda>_.
     rm_bind (skip_step env (xc_workspace_id ctx) (xc_run_id ctx) (xc_steps ctx ! i)) (\<lambda>_.
     rm_ok (l\<lparr>ls_interrupted := True, ls_skipped := (ls_skipped l)[i := True]\<rparr>)))"

definition join_lost :: "run_env \<Rightarrow> exec_ctx \<Rightarrow> string \<Rightarrow> loop_state \<Rightarrow> loop_state run_m" where
  "join_lost env ctx message l =
     (if ls_first_error l \<noteq> None then rm_ok l
      else let err = RE_TaskJoin message; error_json = error_text env (public_message err) in
        rm_bind (request_interrupt (xc_interrupt ctx)) (\<lambda>_.
        skip_unfinished_steps env ctx (l\<lparr>ls_first_error := Some (err, error_json)\<rparr>)))"

definition loop_join :: "run_env \<Rightarrow> exec_ctx \<Rightarrow> joined \<Rightarrow> loop_state \<Rightarrow> loop_state run_m" where
  "loop_join env ctx x l = (case x of
     JoinLost i message \<Rightarrow> join_lost env ctx message (l\<lparr>ls_running := remove1 i (ls_running l)\<rparr>)
   | Joined i result \<Rightarrow>
       let l = l\<lparr>ls_running := remove1 i (ls_running l), ls_finished := (ls_finished l)[i := True]\<rparr> in
       (case result of
          Inl err \<Rightarrow> join_failed env ctx i err l
        | Inr ExecutionInterrupted \<Rightarrow> join_interrupted env ctx i l
        | Inr (ExecutionSucceeded outs) \<Rightarrow> rm_ok (join_succeeded ctx i outs l)))"

section \<open>The start of the loop\<close>

definition find_index :: "('a \<Rightarrow> bool) \<Rightarrow> 'a list \<Rightarrow> nat option" where
  "find_index P xs = List.find (\<lambda>i. P (xs ! i)) [0..<length xs]"

definition resume_output ::
  "run_env \<Rightarrow> run_step_record list \<Rightarrow> run_step_output_record \<Rightarrow> loop_state \<Rightarrow> loop_state run_m" where
  "resume_output env steps x l = (case find_index (\<lambda>s. rs_id s = so_run_step_id x) steps of
     None \<Rightarrow> rm_ok l
   | Some i \<Rightarrow> rm_bind (query env (artifact (so_artifact_id x))) (\<lambda>a.
       rm_ok (l\<lparr>ls_outputs := bt_insert (rs_node_id (steps ! i), so_port x)
           \<lparr>af_artifact_id = ar_id a, af_storage_uri = ar_storage_uri a\<rparr> (ls_outputs l),
         ls_started := (ls_started l)[i := True]\<rparr>)))"

definition resume_finished :: "exec_ctx \<Rightarrow> nat \<Rightarrow> loop_state \<Rightarrow> loop_state" where
  "resume_finished ctx i l =
     (if rs_state (xc_steps ctx ! i) = run_step_state_as_str StepSucceeded
      then l\<lparr>ls_started := (ls_started l)[i := True], ls_finished := (ls_finished l)[i := True],
        ls_remaining := fold (\<lambda>k r. r[k := r ! k - 1]) (dg_downstream (xc_dag ctx) ! i) (ls_remaining l)\<rparr>
      else l)"

definition empty_loop :: "exec_ctx \<Rightarrow> loop_state" where
  "empty_loop ctx = (let n = length (ep_steps (xc_plan ctx)) in
     \<lparr>ls_outputs = [], ls_remaining = dg_upstream_counts (xc_dag ctx), ls_started = replicate n False,
      ls_finished = replicate n False, ls_skipped = replicate n False, ls_ready = [], ls_running = [],
      ls_spawned = [], ls_first_error = None, ls_interrupted = False\<rparr>)"

definition initial_ready :: "loop_state \<Rightarrow> nat list" where
  "initial_ready l = filter (\<lambda>i. ls_remaining l ! i = 0 \<and> \<not> ls_finished l ! i \<and> \<not> ls_skipped l ! i)
     [0..<length (ls_remaining l)]"

definition initial_loop :: "run_env \<Rightarrow> exec_ctx \<Rightarrow> loop_state run_m" where
  "initial_loop env ctx =
     rm_bind (read env (run_step_outputs (xc_run_id ctx))) (\<lambda>outputs.
     rm_bind (rm_fold (resume_output env (xc_steps ctx)) outputs (empty_loop ctx)) (\<lambda>l.
     let l = fold (resume_finished ctx) [0..<length (xc_steps ctx)] l
     in rm_ok (l\<lparr>ls_ready := initial_ready l\<rparr>)))"

section \<open>Runs of the loop\<close>

datatype exec_state =
    AtTop loop_state svc
  | Waiting loop_state svc
  | Ended loop_state svc
  | Aborted run_error svc

text \<open>What other parties do: store operations, new events and handles, interrupt requests.\<close>

definition svc_change :: "svc \<Rightarrow> svc \<Rightarrow> bool" where
  "svc_change s s' \<longleftrightarrow> store_step\<^sup>*\<^sup>* (sv_db s) (sv_db s') \<and> set (sv_requested s) \<subseteq> set (sv_requested s')"

inductive exec_step :: "run_env \<Rightarrow> exec_ctx \<Rightarrow> exec_state \<Rightarrow> exec_state \<Rightarrow> bool" for env ctx where
  top_error: "\<lbrakk>svc_change s t; loop_top env ctx l t = (s', Inl err)\<rbrakk>
    \<Longrightarrow> exec_step env ctx (AtTop l s) (Aborted err s')"
| top_done: "\<lbrakk>svc_change s t; loop_top env ctx l t = (s', Inr l'); all_settled l' \<or> ls_running l' = []\<rbrakk>
    \<Longrightarrow> exec_step env ctx (AtTop l s) (Ended l' s')"
| top_wait: "\<lbrakk>svc_change s t; loop_top env ctx l t = (s', Inr l'); \<not> all_settled l'; ls_running l' \<noteq> []\<rbrakk>
    \<Longrightarrow> exec_step env ctx (AtTop l s) (Waiting l' s')"
| join: "\<lbrakk>svc_change s t; i \<in> set (ls_running l); loop_join env ctx (Joined i r) l t = (s', Inr l')\<rbrakk>
    \<Longrightarrow> exec_step env ctx (Waiting l s) (AtTop l' s')"
| join_error: "\<lbrakk>svc_change s t; i \<in> set (ls_running l); loop_join env ctx (Joined i r) l t = (s', Inl err)\<rbrakk>
    \<Longrightarrow> exec_step env ctx (Waiting l s) (Aborted err s')"
| lost: "\<lbrakk>svc_change s t; i \<in> set (ls_running l); loop_join env ctx (JoinLost i m) l t = (s', Inr l')\<rbrakk>
    \<Longrightarrow> exec_step env ctx (Waiting l s) (AtTop l' s')"
| lost_error: "\<lbrakk>svc_change s t; i \<in> set (ls_running l); loop_join env ctx (JoinLost i m) l t = (s', Inl err)\<rbrakk>
    \<Longrightarrow> exec_step env ctx (Waiting l s) (Aborted err s')"

end
