(* ===== verification/Settlement.thy ===== *)
theory Settlement
  imports Run_Service
begin

text \<open>
  Ending a run that is active: crates/run/src/terminal_settlement.rs, recovery_notice.rs and
  interrupt_run of lib.rs.  The wish is recorded in the store, one party claims the settlement, its
  provider tasks are cancelled, abandoned or completed, and the run takes its terminal status.
  The two polling loops are bounded by fuel, one unit for each round of polling; the code polls
  without end.  Whether the provider confirms a cancellation in time is \<open>env_cancel_confirmed\<close>;
  the insertion of the chat message (a table that is not modelled) is \<open>env_notice\<close>.
\<close>

section \<open>Notices\<close>

text \<open>The message in UTF-8: the remote task may keep running and incur costs.\<close>

definition risk_message :: string where
  "risk_message = map (char_of :: nat \<Rightarrow> char)
     [0xE8, 0xBF, 0x9C, 0xE7, 0xAB, 0xAF, 0xE4, 0xBB, 0xBB, 0xE5, 0x8A, 0xA1, 0xE7, 0xBB, 0x88,
      0xE6, 0x80, 0x81, 0xE6, 0x97, 0xA0, 0xE6, 0xB3, 0x95, 0xE7, 0xA1, 0xAE, 0xE8, 0xAE, 0xA4,
      0xEF, 0xBC, 0x8C, 0xE5, 0x8F, 0xAF, 0xE8, 0x83, 0xBD, 0xE7, 0xBB, 0xA7, 0xE7, 0xBB, 0xAD,
      0xE4, 0xBA, 0xA7, 0xE7, 0x94, 0x9F, 0xE8, 0xB4, 0xB9, 0xE7, 0x94, 0xA8, 0xE3, 0x80, 0x82]"

definition create_notice :: "run_env \<Rightarrow> unit run_m" where
  "create_notice env s = (others env s, case env_notice env (sv_tick s) of None \<Rightarrow> Inr () | Some e \<Rightarrow> Inl e)"

definition persist_billing_risk :: "run_env \<Rightarrow> string \<Rightarrow> string \<Rightarrow> string \<Rightarrow> string \<Rightarrow> unit run_m" where
  "persist_billing_risk env workspace_id run_id provider reason_code =
     rm_bind (create_notice env) (\<lambda>_.
     emit env workspace_id run_id ''run.recovery_abandoned'' (json_object
       [(''provider'', JString provider), (''reason_code'', JString reason_code),
        (''message'', JString risk_message)]))"

section \<open>Provider tasks of the run\<close>

record durable_provider_task =
  du_provider :: string
  du_provider_task_id :: string
  du_dispatch_origin :: string
  du_recovery_scope_fingerprint :: string
  du_status_url :: "string option"
  du_result_url :: "string option"

definition durable_task :: "provider_task_record \<Rightarrow> run_error + durable_provider_task" where
  "durable_task task = res_bind (ok_or (pt_provider_task_id task)
       (RE_ArtifactPersistence ''active provider task is missing identity'')) (\<lambda>i.
     Inr \<lparr>du_provider = pt_provider task, du_provider_task_id = i, du_dispatch_origin = pt_dispatch_origin task,
       du_recovery_scope_fingerprint = pt_recovery_scope_fingerprint task,
       du_status_url = pt_status_url task, du_result_url = pt_result_url task\<rparr>)"

text \<open>\<open>cancel_durable\<close> under a timeout: true if the provider confirmed in time.\<close>

definition cancel_confirmed :: "run_env \<Rightarrow> provider_task_record \<Rightarrow> bool run_m" where
  "cancel_confirmed env task s = (others env s, Inr (env_cancel_confirmed env (sv_tick s) task))"

definition settle_active :: "run_env \<Rightarrow> string \<Rightarrow> string \<Rightarrow> provider_task_record \<Rightarrow> bool run_m" where
  "settle_active env workspace_id run_id task =
     rm_bind (rm_lift (durable_task task)) (\<lambda>_.
     rm_bind (cancel_confirmed env task) (\<lambda>confirmed.
     if confirmed then
       rm_bind (call env (\<lambda>ids now. cancel_provider_task now (pt_id task) None)) (\<lambda>_.
       rm_bind (emit env workspace_id run_id ''run.recovery_cancelled''
         (json_object [(''provider'', JString (pt_provider task))])) (\<lambda>_. rm_ok False))
     else
       rm_bind (call env (\<lambda>ids now. abandon_provider_task now (pt_id task) ''active''
         ''REMOTE_CANCEL_UNCONFIRMED'')) (\<lambda>_.
       rm_bind (persist_billing_risk env workspace_id run_id (pt_provider task) ''cancel_unconfirmed'')
         (\<lambda>_. rm_ok False))))"

definition task_timing :: "run_env \<Rightarrow> string \<Rightarrow> provider_task_timing run_m" where
  "task_timing env task_id s = (let s' = others env s in
     (s', map_err run_error_of_store (provider_task_timing_of (env_now env (sv_tick s)) task_id (sv_db s'))))"

definition settle_dispatching :: "run_env \<Rightarrow> string \<Rightarrow> string \<Rightarrow> provider_task_record \<Rightarrow> bool run_m" where
  "settle_dispatching env workspace_id run_id task =
     rm_bind (task_timing env (pt_id task)) (\<lambda>timing.
     if tt_dispatch_owner_live timing then rm_ok True
     else
       rm_bind (call env (\<lambda>ids now. abandon_provider_task now (pt_id task) ''dispatching''
         ''DISPATCH_OWNER_STOPPED'')) (\<lambda>_.
       rm_bind (persist_billing_risk env workspace_id run_id (pt_provider task) ''dispatch_unknown'')
         (\<lambda>_. rm_ok False)))"

definition complete_ready :: "run_env \<Rightarrow> provider_task_record \<Rightarrow> string \<Rightarrow> bool run_m" where
  "complete_ready env task code =
     rm_bind (call env (\<lambda>ids now. complete_provider_task now (pt_id task) ''result_ready'' (Some code)))
       (\<lambda>_. rm_ok False)"

definition settle_result_ready :: "run_env \<Rightarrow> string \<Rightarrow> string \<Rightarrow> provider_task_record \<Rightarrow> bool run_m" where
  "settle_result_ready env run_id desired_status task =
     rm_bind (read env (run_terminalization run_id)) (\<lambda>work.
     if (case work of None \<Rightarrow> desired_status | Some w \<Rightarrow> tz_desired_status w) = ''interrupted''
     then complete_ready env task ''ARTIFACT_MATERIALIZATION_INTERRUPTED''
     else rm_bind (task_timing env (pt_id task)) (\<lambda>timing.
       if tt_materialization_expired timing
       then complete_ready env task ''ARTIFACT_MATERIALIZATION_DEADLINE''
       else rm_ok True))"

text \<open>True: the task has an owner that is still at work.\<close>

definition settle_task :: "run_env \<Rightarrow> string \<Rightarrow> string \<Rightarrow> string \<Rightarrow> provider_task_record \<Rightarrow> bool run_m" where
  "settle_task env workspace_id run_id desired_status task =
     (if pt_state task = ''active'' then settle_active env workspace_id run_id task
      else if pt_state task = ''dispatching'' then settle_dispatching env workspace_id run_id task
      else if pt_state task = ''result_ready'' then settle_result_ready env run_id desired_status task
      else rm_ok False)"

definition settle_tasks :: "run_env \<Rightarrow> string \<Rightarrow> string \<Rightarrow> string \<Rightarrow> provider_task_record list \<Rightarrow> bool run_m" where
  "settle_tasks env workspace_id run_id desired_status tasks =
     rm_fold (\<lambda>task wait. rm_bind (settle_task env workspace_id run_id desired_status task)
       (\<lambda>w. rm_ok (wait \<or> w))) tasks False"

section \<open>The settlement\<close>

datatype polled = Claimed | NotActive | StillPolling

fun claim_settlement :: "run_env \<Rightarrow> string \<Rightarrow> string \<Rightarrow> nat \<Rightarrow> polled run_m" where
  "claim_settlement env run_id owner_id 0 = rm_ok StillPolling"
| "claim_settlement env run_id owner_id (Suc fuel) =
     rm_bind (call env (\<lambda>ids now. claim_run_terminalization now run_id owner_id 60)) (\<lambda>claimed.
     if claimed then rm_ok Claimed
     else rm_bind (query env (store_run run_id)) (\<lambda>run.
       if \<not> active_status (rr_status run) then rm_ok NotActive
       else claim_settlement env run_id owner_id fuel))"

fun drain_tasks :: "run_env \<Rightarrow> string \<Rightarrow> string \<Rightarrow> string \<Rightarrow> string \<Rightarrow> nat \<Rightarrow> polled run_m" where
  "drain_tasks env workspace_id run_id desired_status owner_id 0 = rm_ok StillPolling"
| "drain_tasks env workspace_id run_id desired_status owner_id (Suc fuel) =
     rm_bind (call env (\<lambda>ids now. renew_run_terminalization_lease now run_id owner_id 60)) (\<lambda>renewed.
     if \<not> renewed then rm_ok NotActive
     else rm_bind (read env (provider_tasks_for_run run_id)) (\<lambda>tasks.
       rm_bind (settle_tasks env workspace_id run_id desired_status tasks) (\<lambda>wait.
       if wait then drain_tasks env workspace_id run_id desired_status owner_id fuel
       else rm_ok Claimed)))"

text \<open>The event of the terminal status, written by the store, is sent to the subscribers.\<close>

definition publish_terminal :: "run_env \<Rightarrow> string \<Rightarrow> string \<Rightarrow> run_record \<Rightarrow> unit run_m" where
  "publish_terminal env workspace_id run_id run =
     rm_bind (read env (run_events run_id)) (\<lambda>events.
     case List.find (\<lambda>e. re_ev e = ''run.'' @ rr_status run) (rev events) of
       None \<Rightarrow> rm_ok ()
     | Some e \<Rightarrow> rm_bind (rm_lift (env_event_parse env (re_data_json e))) (\<lambda>data.
         publish \<lparr>ee_workspace_id = workspace_id, ee_run_id = re_run_id e, ee_seq = re_seq e,
           ee_server_time = re_created_at e, ee_ev = re_ev e, ee_data = data\<rparr>))"

text \<open>\<open>StillPolling\<close> is a settlement that ran out of fuel; otherwise it returned.\<close>

definition request_and_settle_terminal ::
  "run_env \<Rightarrow> nat \<Rightarrow> string \<Rightarrow> string \<Rightarrow> string \<Rightarrow> string option \<Rightarrow> polled run_m" where
  "request_and_settle_terminal env fuel workspace_id run_id desired_status error_json =
     rm_bind (call env (\<lambda>ids now. request_run_terminalization now run_id desired_status error_json)) (\<lambda>_.
     rm_bind (\<lambda>s. (others env s, Inr (''settler-'' @ env_new_id env (sv_tick s) 0))) (\<lambda>owner_id.
     rm_bind (claim_settlement env run_id owner_id fuel) (\<lambda>c.
     if c \<noteq> Claimed then rm_ok c else
     rm_bind (drain_tasks env workspace_id run_id desired_status owner_id fuel) (\<lambda>d.
     if d \<noteq> Claimed then rm_ok d else
     rm_bind (call env (\<lambda>ids now. complete_run_terminalization (ids 0) now run_id owner_id)) (\<lambda>settled.
     case settled of
       None \<Rightarrow> rm_ok Claimed
     | Some run \<Rightarrow> rm_bind (publish_terminal env workspace_id run_id run) (\<lambda>_. rm_ok Claimed))))))"

text \<open>A settlement that fails is only logged.\<close>

definition fail_active_run_after_error :: "run_env \<Rightarrow> nat \<Rightarrow> string \<Rightarrow> string \<Rightarrow> run_error \<Rightarrow> unit run_m" where
  "fail_active_run_after_error env fuel workspace_id run_id err =
     rm_match (request_and_settle_terminal env fuel workspace_id run_id (run_status_as_str Failed)
         (Some (error_text env (public_message err))))
       (\<lambda>_. rm_ok ()) (\<lambda>_. rm_ok ())"

definition request_by_id :: "string \<Rightarrow> unit run_m" where
  "request_by_id run_id s = (case bt_get (sv_interrupts s) run_id of
     None \<Rightarrow> (s, Inr ()) | Some h \<Rightarrow> request_interrupt h s)"

definition interrupt_run :: "run_env \<Rightarrow> nat \<Rightarrow> string \<Rightarrow> polled run_m" where
  "interrupt_run env fuel run_id =
     rm_bind (request_by_id run_id) (\<lambda>_.
     rm_bind (query env (store_run run_id)) (\<lambda>run.
     if \<not> active_status (rr_status run) then rm_err (RE_RunNotActive run_id)
     else request_and_settle_terminal env fuel (rr_workspace_id run) run_id (run_status_as_str Interrupted) None))"

end
