(* ===== verification/Cost_Gate.thy ===== *)
theory Cost_Gate
  imports Run_Service Graph_Service
begin

text \<open>
  The cost gate of the run engine: crates/run/src/cost_gate.rs, start_manual_run of background.rs,
  and ensure_execution_intent of provider_recovery.rs.  A run is compiled, resolved, created and
  estimated; it starts at once only if the estimate needs no confirmation, otherwise it waits in
  \<open>waiting_confirmation\<close> until it is claimed.
\<close>

section \<open>Requests and results\<close>

record agent_run_request =
  gr_workspace_id :: string
  gr_version_id :: string
  gr_group_id :: "string option"
  gr_label :: string
  gr_provider :: string
  gr_graph :: workflow_graph

record manual_run_request =
  mr_workspace_id :: string
  mr_version_id :: string
  mr_group_id :: "string option"
  mr_label :: string
  mr_provider :: string
  mr_graph :: workflow_graph
  mr_force_rerun :: bool

record pending_run =
  pn_run :: run_record
  pn_steps :: "run_step_record list"
  pn_estimate :: cost_summary
  pn_ledger :: "cost_ledger_record list"

record pending_sweep =
  pw_group_id :: string
  pw_runs :: "pending_run list"
  pw_estimate :: cost_summary

text \<open>\<open>CostSummary\<close> as a JSON value: a float that is not finite becomes null.\<close>

definition json_of_f64 :: "f64 \<Rightarrow> json" where
  "json_of_f64 x = (case x of Fin q \<Rightarrow> JNumber (Float q) | _ \<Rightarrow> JNull)"

definition cost_json :: "cost_summary \<Rightarrow> json" where
  "cost_json c = json_object [(''amount'', json_of_f64 (cs_amount c)), (''currency'', JString (cs_currency c)),
     (''estimated'', JBool (cs_estimated c)), (''unknown'', JBool (cs_unknown c))]"

section \<open>The plan of a request\<close>

definition query_run :: "run_env \<Rightarrow> (db \<Rightarrow> run_error + 'a) \<Rightarrow> 'a run_m" where
  "query_run env q s = (let s' = others env s in (s', q (sv_db s')))"

definition frozen_plan :: "run_env \<Rightarrow> workflow_graph \<Rightarrow> string \<Rightarrow> string \<Rightarrow> execution_plan run_m" where
  "frozen_plan env g version_id provider =
     rm_bind (rm_lift (map_err RE_Graph (compile_plan (env_registry env) g version_id provider))) (\<lambda>plan.
     rm_bind (query_run env (version_semantics (env_semantics_parse env) g version_id)) (\<lambda>semantics.
     rm_lift (attach_resolved_bindings (env_catalog env) provider semantics plan)))"

section \<open>Estimates\<close>

definition estimate_request :: "string \<Rightarrow> execution_step \<Rightarrow> string \<Rightarrow> string \<Rightarrow> provider_request" where
  "estimate_request run_id step provider capability =
     \<lparr>pr_provider = provider, pr_capability = capability, pr_node_id = es_node_id step, pr_run_id = run_id,
      pr_inputs = [], pr_input_texts = [], pr_params = es_params step,
      pr_resolved_model_id = map_option rb_resolved_model_id (es_resolved step),
      pr_operation_id = map_option rb_operation_id (es_resolved step)\<rparr>"

definition record_estimate :: "run_env \<Rightarrow> string \<Rightarrow> string \<Rightarrow> string \<Rightarrow> string \<Rightarrow> cost_estimate \<Rightarrow> unit run_m" where
  "record_estimate env workspace_id run_id step_id provider e =
     rm_bind (call env (\<lambda>ids now. update_run_step_cost_estimate step_id (Some (env_estimate_text env e)))) (\<lambda>_.
     rm_bind (call env (\<lambda>ids now. create_cost_ledger_once (ids 0) now (''estimate:'' @ step_id)
       \<lparr>nc_workspace_id = workspace_id, nc_run_id = Some run_id, nc_run_step_id = Some step_id,
        nc_provider = provider, nc_amount = ce_amount e, nc_currency = ce_currency e, nc_estimated = True\<rparr>)) (\<lambda>_.
     rm_ok ()))"

definition estimate_step ::
  "run_env \<Rightarrow> string \<Rightarrow> string \<Rightarrow> nat \<Rightarrow> execution_step \<times> run_step_record \<Rightarrow> cost_summary \<Rightarrow> cost_summary run_m" where
  "estimate_step env workspace_id run_id interrupt p acc = (case p of (step, record) \<Rightarrow>
     rm_bind (is_requested env interrupt) (\<lambda>requested.
     if requested then rm_err (RE_Interrupted run_id)
     else case (es_provider step, es_capability step) of
       (Some provider, Some capability) \<Rightarrow>
         rm_bind (cancelled env interrupt) (\<lambda>c.
         if c then rm_err (RE_Interrupted run_id)
         else rm_bind (rm_lift (map_err RE_Provider
             (env_estimate env (estimate_request run_id step provider capability)))) (\<lambda>e.
         rm_bind (record_estimate env workspace_id run_id (rs_id record) provider e) (\<lambda>_.
         rm_lift (cost_add acc (cost_from_estimate e)))))
     | _ \<Rightarrow> rm_ok acc))"

definition estimate_created_run ::
  "run_env \<Rightarrow> string \<Rightarrow> string \<Rightarrow> execution_step list \<Rightarrow> run_step_record list \<Rightarrow> nat \<Rightarrow> cost_summary run_m" where
  "estimate_created_run env workspace_id run_id plan_steps records interrupt =
     rm_fold (estimate_step env workspace_id run_id interrupt) (zip plan_steps records) cost_zero"

section \<open>Preparing a run\<close>

definition finish_failed :: "run_env \<Rightarrow> string \<Rightarrow> string \<Rightarrow> run_error \<Rightarrow> (string \<times> json) list \<Rightarrow> unit run_m" where
  "finish_failed env workspace_id run_id err extra =
     (let message = public_message err in
      rm_bind (call env (\<lambda>ids now. update_run_status now run_id (run_status_as_str Failed)
        (Some (error_text env message)))) (\<lambda>_.
      emit env workspace_id run_id ''run.failed'' (json_object ((''error'', JString message) # extra))))"

definition request_confirmed_run ::
  "run_env \<Rightarrow> string \<Rightarrow> agent_run_request \<Rightarrow> bool \<Rightarrow> bool \<Rightarrow> pending_run run_m" where
  "request_confirmed_run env trigger req emit_requested force_rerun =
     rm_bind (ensure_workspace_not_busy env (gr_workspace_id req) (gr_group_id req) None) (\<lambda>_.
     rm_bind (frozen_plan env (gr_graph req) (gr_version_id req) (gr_provider req)) (\<lambda>plan.
     rm_bind (call env (\<lambda>ids now. create_run (ids 0) now
       \<lparr>nr_workspace_id = gr_workspace_id req, nr_version_id = gr_version_id req,
        nr_group_id = gr_group_id req, nr_label = gr_label req, nr_trigger = trigger,
        nr_plan_json = Some (env_plan_text env plan), nr_estimate_json = None,
        nr_status = run_status_as_str Estimating\<rparr>)) (\<lambda>run.
     rm_bind (if force_rerun then call env (\<lambda>ids now. set_run_force_rerun (rr_id run) True) else rm_ok run) (\<lambda>run.
     rm_bind (ensure_run_steps env (rr_id run) plan) (\<lambda>steps.
     rm_bind new_interrupt (\<lambda>interrupt.
     rm_bind (insert_interrupt (rr_id run) interrupt) (\<lambda>_.
     rm_match (estimate_created_run env (gr_workspace_id req) (rr_id run) (ep_steps plan) steps interrupt)
       (\<lambda>err. case err of
          RE_Interrupted _ \<Rightarrow>
            rm_bind (skip_steps env (gr_workspace_id req) (rr_id run) steps) (\<lambda>_.
            rm_bind (call env (\<lambda>ids now. update_run_status now (rr_id run) (run_status_as_str Interrupted) None)) (\<lambda>_.
            rm_bind (emit env (gr_workspace_id req) (rr_id run) ''run.interrupted''
              (json_object [(''phase'', JString ''estimate'')])) (\<lambda>_.
            rm_bind (remove_interrupt (rr_id run)) (\<lambda>_. rm_err (RE_Interrupted (rr_id run))))))
        | _ \<Rightarrow>
            rm_bind (finish_failed env (gr_workspace_id req) (rr_id run) err
              [(''phase'', JString ''estimate'')]) (\<lambda>_.
            rm_bind (remove_interrupt (rr_id run)) (\<lambda>_. rm_err err)))
       (\<lambda>estimate.
     rm_bind (call env (\<lambda>ids now. update_run_estimate_and_status (rr_id run)
       (Some (env_cost_text env estimate)) (run_status_as_str WaitingConfirmation))) (\<lambda>run.
     rm_bind (emit env (gr_workspace_id req) (rr_id run) ''run.estimate.updated''
       (json_object [(''estimate'', cost_json estimate)])) (\<lambda>_.
     rm_bind (if emit_requested
       then emit env (gr_workspace_id req) (rr_id run) ''run.requested''
         (json_object [(''trigger'', JString trigger), (''estimate'', cost_json estimate),
           (''requires_confirmation'', JBool True)])
       else rm_ok ()) (\<lambda>_.
     rm_bind (remove_interrupt (rr_id run)) (\<lambda>_.
     rm_bind (read env (run_steps (rr_id run))) (\<lambda>steps.
     rm_bind (read env (cost_ledger_for_run (rr_id run))) (\<lambda>ledger.
     rm_ok \<lparr>pn_run = run, pn_steps = steps, pn_estimate = estimate, pn_ledger = ledger\<rparr>))))))))))))))"

definition request_agent_run :: "run_env \<Rightarrow> agent_run_request \<Rightarrow> pending_run run_m" where
  "request_agent_run env req = request_confirmed_run env ''agent'' req True False"

definition prepare_agent_run :: "run_env \<Rightarrow> agent_run_request \<Rightarrow> pending_run run_m" where
  "prepare_agent_run env req = request_confirmed_run env ''agent'' req False False"

definition prepare_manual_run :: "run_env \<Rightarrow> manual_run_request \<Rightarrow> pending_run run_m" where
  "prepare_manual_run env req =
     rm_bind (frozen_plan env (mr_graph req) (mr_version_id req) (mr_provider req)) (\<lambda>plan.
     if ep_steps plan = [] then rm_err RE_NoExecutableSteps
     else request_confirmed_run env ''manual''
       \<lparr>gr_workspace_id = mr_workspace_id req, gr_version_id = mr_version_id req,
        gr_group_id = mr_group_id req, gr_label = mr_label req, gr_provider = mr_provider req,
        gr_graph = mr_graph req\<rparr> False (mr_force_rerun req))"

definition announce_run_requested :: "run_env \<Rightarrow> pending_run \<Rightarrow> bool \<Rightarrow> unit run_m" where
  "announce_run_requested env pending requires_confirmation =
     emit env (rr_workspace_id (pn_run pending)) (rr_id (pn_run pending)) ''run.requested''
       (json_object [(''trigger'', JString (rr_trigger (pn_run pending))),
         (''estimate'', cost_json (pn_estimate pending)),
         (''requires_confirmation'', JBool requires_confirmation)])"

section \<open>Starting, holding and claiming a run\<close>

definition outcome_of :: "run_record \<Rightarrow> run_step_record list \<Rightarrow> run_outcome" where
  "outcome_of run steps = \<lparr>ro_run = run, ro_steps = steps, ro_artifacts = []\<rparr>"

definition start_manual_run :: "run_env \<Rightarrow> manual_run_request \<Rightarrow> run_outcome run_m" where
  "start_manual_run env req =
     rm_bind (frozen_plan env (mr_graph req) (mr_version_id req) (mr_provider req)) (\<lambda>plan.
     if ep_steps plan = [] then rm_err RE_NoExecutableSteps else
     rm_bind (ensure_workspace_not_busy env (mr_workspace_id req) (mr_group_id req) None) (\<lambda>_.
     rm_bind (call env (\<lambda>ids now. create_run (ids 0) now
       \<lparr>nr_workspace_id = mr_workspace_id req, nr_version_id = mr_version_id req,
        nr_group_id = mr_group_id req, nr_label = mr_label req, nr_trigger = ''manual'',
        nr_plan_json = Some (env_plan_text env plan), nr_estimate_json = None,
        nr_status = run_status_as_str Queued\<rparr>)) (\<lambda>run.
     rm_bind (if mr_force_rerun req
       then rm_bind (call env (\<lambda>ids now. set_run_force_rerun (rr_id run) True)) (\<lambda>_. rm_ok ())
       else rm_ok ()) (\<lambda>_.
     rm_bind (ensure_run_steps env (rr_id run) plan) (\<lambda>steps.
     rm_bind new_interrupt (\<lambda>interrupt.
     rm_bind (insert_interrupt (rr_id run) interrupt) (\<lambda>_.
     rm_match (estimate_created_run env (mr_workspace_id req) (rr_id run) (ep_steps plan) steps interrupt)
       (\<lambda>err. rm_bind (remove_interrupt (rr_id run)) (\<lambda>_.
          rm_bind (finish_failed env (mr_workspace_id req) (rr_id run) err
            [(''phase'', JString ''estimate'')]) (\<lambda>_. rm_err err)))
       (\<lambda>estimate.
     rm_bind (rm_lift (run_requires_confirmation (env_threshold env) estimate)) (\<lambda>confirm.
     if confirm then
       rm_bind (remove_interrupt (rr_id run)) (\<lambda>_.
       rm_bind (call env (\<lambda>ids now. update_run_estimate_and_status (rr_id run)
         (Some (env_cost_text env estimate)) (run_status_as_str WaitingConfirmation))) (\<lambda>run.
       rm_bind (emit env (mr_workspace_id req) (rr_id run) ''run.requested''
         (json_object [(''trigger'', JString ''manual''), (''estimate'', cost_json estimate),
           (''requires_confirmation'', JBool True)])) (\<lambda>_.
       rm_bind (read env (run_steps (rr_id run))) (\<lambda>steps. rm_ok (outcome_of run steps)))))
     else
       rm_bind (call env (\<lambda>ids now. update_run_estimate_and_status (rr_id run)
         (Some (env_cost_text env estimate)) (run_status_as_str Queued))) (\<lambda>run.
       rm_bind (read env (run_steps (rr_id run))) (\<lambda>steps.
       rm_bind (spawn_task (ManualTask run plan interrupt (mr_force_rerun req))) (\<lambda>_.
       rm_ok (outcome_of run steps)))))))))))))"

definition hold_run :: "run_env \<Rightarrow> string \<Rightarrow> run_outcome run_m" where
  "hold_run env run_id =
     rm_bind (query env (store_run run_id)) (\<lambda>run.
     let expected = run_status_as_str WaitingConfirmation in
     if rr_status run \<noteq> expected then rm_err (RE_InvalidRunStatus (rr_id run) expected (rr_status run))
     else rm_bind (call env (\<lambda>ids now. update_run_status_if_current now run_id expected
       (run_status_as_str Interrupted) None)) (\<lambda>updated. case updated of
       None \<Rightarrow> rm_bind (query env (store_run run_id)) (\<lambda>current.
         rm_err (RE_InvalidRunStatus (rr_id current) expected (rr_status current)))
     | Some run \<Rightarrow>
         rm_bind (emit env (rr_workspace_id run) (rr_id run) ''run.interrupted'' (json_object [])) (\<lambda>_.
         outcome env (rr_id run))))"

definition plan_of_run :: "run_env \<Rightarrow> run_record \<Rightarrow> run_error + execution_plan" where
  "plan_of_run env run = res_bind (ok_or (rr_plan_json run) (RE_InvalidSweepPlan ''run has no execution plan''))
     (env_plan_parse env)"

definition ensure_execution_intent ::
  "run_env \<Rightarrow> string \<Rightarrow> execution_plan \<Rightarrow> string option \<Rightarrow> unit run_m" where
  "ensure_execution_intent env run_id plan estimate_json =
     rm_bind (call env (\<lambda>ids now. create_or_read_execution_intent now run_id
       (''sha256:'' @ env_digest env (env_plan_text env plan))
       (''sha256:'' @ env_digest env (case estimate_json of None \<Rightarrow> '''' | Some s \<Rightarrow> s)) ''approved''))
       (\<lambda>_. rm_ok ())"

definition claim_rejection :: "run_env \<Rightarrow> string \<Rightarrow> run_error run_m" where
  "claim_rejection env run_id =
     rm_bind (query env (store_run run_id)) (\<lambda>current.
     let expected = run_status_as_str WaitingConfirmation in
     if rr_status current \<noteq> expected
     then rm_ok (RE_InvalidRunStatus (rr_id current) expected (rr_status current))
     else rm_match (ensure_workspace_not_busy env (rr_workspace_id current) (rr_group_id current)
         (Some (rr_id current)))
       rm_ok (\<lambda>_. rm_ok (RE_RunClaimContention (rr_id current))))"

definition claim_waiting_run :: "run_env \<Rightarrow> string \<Rightarrow> run_record \<Rightarrow> run_record option run_m" where
  "claim_waiting_run env run_id run = call env (\<lambda>ids now. claim_run_if_workspace_idle now run_id
     (run_status_as_str WaitingConfirmation) (run_status_as_str Running) (rr_workspace_id run) (rr_group_id run))"

definition claim_run_for_confirmation :: "run_env \<Rightarrow> string \<Rightarrow> (run_record \<times> execution_plan) run_m" where
  "claim_run_for_confirmation env run_id =
     rm_bind (query env (store_run run_id)) (\<lambda>run.
     let expected = run_status_as_str WaitingConfirmation in
     if rr_status run \<noteq> expected then rm_err (RE_InvalidRunStatus (rr_id run) expected (rr_status run))
     else rm_bind (rm_lift (plan_of_run env run)) (\<lambda>plan.
     rm_bind (ensure_execution_intent env (rr_id run) plan (rr_estimate_json run)) (\<lambda>_.
     rm_bind (claim_waiting_run env run_id run) (\<lambda>claimed. case claimed of
       None \<Rightarrow> rm_bind (claim_rejection env run_id) rm_err
     | Some run \<Rightarrow> rm_ok (run, plan)))))"

definition claim_run_for_background :: "run_env \<Rightarrow> string \<Rightarrow> (run_record \<times> execution_plan \<times> nat) run_m" where
  "claim_run_for_background env run_id =
     rm_bind (query env (store_run run_id)) (\<lambda>run.
     rm_bind (ensure_workspace_not_busy env (rr_workspace_id run) (rr_group_id run) (Some (rr_id run))) (\<lambda>_.
     let expected = run_status_as_str WaitingConfirmation in
     if rr_status run \<noteq> expected then rm_err (RE_InvalidRunStatus (rr_id run) expected (rr_status run))
     else rm_bind (rm_lift (plan_of_run env run)) (\<lambda>plan.
     rm_bind (ensure_execution_intent env (rr_id run) plan (rr_estimate_json run)) (\<lambda>_.
     rm_bind new_interrupt (\<lambda>interrupt.
     rm_bind (insert_interrupt (rr_id run) interrupt) (\<lambda>_.
     rm_bind (claim_waiting_run env run_id run) (\<lambda>claimed. case claimed of
       None \<Rightarrow> rm_bind (remove_interrupt run_id) (\<lambda>_. rm_bind (claim_rejection env run_id) rm_err)
     | Some run \<Rightarrow> rm_ok (run, plan, interrupt))))))))"

definition start_confirmed_run :: "run_env \<Rightarrow> string \<Rightarrow> run_outcome run_m" where
  "start_confirmed_run env run_id =
     rm_bind (claim_run_for_background env run_id) (\<lambda>(run, plan, interrupt).
     rm_match (ensure_run_steps env (rr_id run) plan)
       (\<lambda>err. rm_bind (remove_interrupt (rr_id run)) (\<lambda>_.
          rm_bind (finish_failed env (rr_workspace_id run) (rr_id run) err []) (\<lambda>_. rm_err err)))
       (\<lambda>steps. rm_bind (spawn_task (SelfHealTask run plan interrupt)) (\<lambda>_.
          rm_ok (outcome_of run steps))))"

section \<open>Sweeps\<close>

text \<open>Between the labels stands the middle dot (U+00B7, two bytes in UTF-8).\<close>

definition sweep_label :: "string \<Rightarrow> string \<Rightarrow> string" where
  "sweep_label plan variant = plan @ '' '' @ [CHR 0xC2, CHR 0xB7] @ '' '' @ variant"

definition fresh_id :: "run_env \<Rightarrow> string run_m" where
  "fresh_id env s = (others env s, Inr (env_new_id env (sv_tick s) 0))"

definition prepare_variant ::
  "run_env \<Rightarrow> sweep_plan \<Rightarrow> string \<Rightarrow> sweep_variant \<Rightarrow> pending_run list \<times> cost_summary \<Rightarrow>
   (pending_run list \<times> cost_summary) run_m" where
  "prepare_variant env plan group_id variant acc = (case acc of (runs, amount) \<Rightarrow>
     rm_bind (request_confirmed_run env ''sweep''
       \<lparr>gr_workspace_id = sp_workspace_id plan, gr_version_id = sp_version_id plan, gr_group_id = Some group_id,
        gr_label = sweep_label (sp_label plan) (sv_label variant), gr_provider = sp_provider plan,
        gr_graph = sv_graph variant\<rparr> False False) (\<lambda>pending.
     rm_bind (rm_lift (cost_add amount (pn_estimate pending))) (\<lambda>amount. rm_ok (runs @ [pending], amount))))"

definition prepare_sweep_plan :: "run_env \<Rightarrow> sweep_plan \<Rightarrow> pending_sweep run_m" where
  "prepare_sweep_plan env plan =
     rm_bind (rm_lift (validate_sweep_plan plan)) (\<lambda>_.
     rm_bind (fresh_id env) (\<lambda>fresh. let group_id = ''sweep_'' @ fresh in
     rm_bind (rm_fold (prepare_variant env plan group_id) (sp_variants plan) ([], cost_zero)) (\<lambda>(runs, amount).
     rm_ok \<lparr>pw_group_id = group_id, pw_runs = runs, pw_estimate = amount\<rparr>)))"

definition request_sweep_plan :: "run_env \<Rightarrow> sweep_plan \<Rightarrow> pending_sweep run_m" where
  "request_sweep_plan env plan =
     rm_bind (prepare_sweep_plan env plan) (\<lambda>pending.
     rm_bind (rm_each (\<lambda>run. announce_run_requested env run True) (pw_runs pending)) (\<lambda>_. rm_ok pending))"

definition check_sweep_run ::
  "run_env \<Rightarrow> string \<Rightarrow> string option \<times> run_record list \<Rightarrow> (string option \<times> run_record list) run_m" where
  "check_sweep_run env run_id acc = (case acc of (group_id, runs) \<Rightarrow>
     rm_bind (query env (store_run run_id)) (\<lambda>run.
     let expected = run_status_as_str WaitingConfirmation in
     if rr_trigger run \<noteq> ''sweep''
     then rm_err (RE_InvalidSweepPlan ''all confirmed runs must be sweep-triggered'')
     else if rr_status run \<noteq> expected
     then rm_err (RE_InvalidRunStatus (rr_id run) expected (rr_status run))
     else rm_bind (rm_lift (ok_or (rr_group_id run)
       (RE_InvalidSweepPlan ''sweep runs must share a group id''))) (\<lambda>run_group_id.
     case group_id of
       None \<Rightarrow> rm_ok (Some run_group_id, runs @ [run])
     | Some existing \<Rightarrow>
         if run_group_id \<noteq> existing
         then rm_err (RE_InvalidSweepPlan ''sweep run group ids do not match'')
         else rm_ok (group_id, runs @ [run]))))"

definition validate_sweep_confirmation :: "run_env \<Rightarrow> string list \<Rightarrow> string \<Rightarrow> (string \<times> run_record list) run_m" where
  "validate_sweep_confirmation env run_ids recommended_run_id =
     (if run_ids = [] then rm_err (RE_InvalidSweepPlan ''sweep must include at least one run'')
      else if \<not> list_ex (\<lambda>i. i = recommended_run_id) run_ids
      then rm_err (RE_InvalidSweepPlan ''recommended run must be part of the sweep'')
      else if \<not> distinct run_ids then rm_err (RE_InvalidSweepPlan ''sweep run ids must be unique'')
      else rm_bind (rm_fold (check_sweep_run env) run_ids (None, [])) (\<lambda>(group_id, runs).
        rm_bind (rm_lift (ok_or group_id (RE_InvalidSweepPlan ''sweep runs must share a group id'')))
          (\<lambda>group_id. rm_ok (group_id, runs))))"

end
