(* ===== verification/Self_Heal.thy ===== *)
theory Self_Heal
  imports Cost_Gate
begin

text \<open>
  Automatic continuation of runs: crates/run/src/self_heal.rs (retries of failed and rejected
  runs), restart_policy.rs (which queued runs may resume after a restart), cost_recording.rs, and
  the sweeps of cost_gate.rs and sweep_background.rs.  Executing a run is the argument
  \<open>execute\<close> (\<open>execute_created_run\<close>: run, workspace, plan, interrupt handle, force flag), which
  theory Executor models as a step relation.
\<close>

type_synonym executor = "run_record \<Rightarrow> string \<Rightarrow> execution_plan \<Rightarrow> nat \<Rightarrow> bool \<Rightarrow> run_outcome run_m"

section \<open>Estimates of a run\<close>

definition stored_estimate :: "run_env \<Rightarrow> run_record \<Rightarrow> run_error + cost_summary option" where
  "stored_estimate env run = (case rr_estimate_json run of None \<Rightarrow> Inr None
     | Some text \<Rightarrow> res_bind (env_cost_parse env text) (\<lambda>c. Inr (Some c)))"

definition start_confirmed_run_within_budget :: "run_env \<Rightarrow> string \<Rightarrow> bool run_m" where
  "start_confirmed_run_within_budget env run_id =
     rm_bind (query env (store_run run_id)) (\<lambda>run.
     rm_bind (rm_lift (stored_estimate env run)) (\<lambda>estimate.
     rm_bind (case estimate of
         Some e \<Rightarrow> rm_bind (rm_lift (run_requires_confirmation (env_threshold env) e)) (\<lambda>b. rm_ok (\<not> b))
       | None \<Rightarrow> rm_ok False) (\<lambda>within_budget.
     if within_budget then rm_bind (start_confirmed_run env run_id) (\<lambda>_. rm_ok within_budget)
     else rm_ok within_budget)))"

section \<open>Retries\<close>

definition cost_option_json :: "cost_summary option \<Rightarrow> json" where
  "cost_option_json c = (case c of None \<Rightarrow> JNull | Some c \<Rightarrow> cost_json c)"

text \<open>A failure to record the event is only logged.\<close>

definition emit_retry_failure :: "run_env \<Rightarrow> string \<Rightarrow> string \<Rightarrow> run_error \<Rightarrow> unit run_m" where
  "emit_retry_failure env workspace_id run_id err =
     rm_match (emit env workspace_id run_id ''run.retry_failed''
         (json_object [(''error'', JString (public_message err))]))
       (\<lambda>_. rm_ok ()) rm_ok"

fun concurrent_reject_retry_start_lost :: "run_error \<Rightarrow> bool" where
  "concurrent_reject_retry_start_lost (RE_InvalidRunStatus _ _ _) = True"
| "concurrent_reject_retry_start_lost (RE_RunClaimContention _) = True"
| "concurrent_reject_retry_start_lost _ = False"

definition retry_event :: "run_record \<Rightarrow> bool \<Rightarrow> string option \<Rightarrow> (string \<times> json) list \<Rightarrow> json" where
  "retry_event child requires_confirmation previous_error extra = json_object
     ([(''child_run_id'', JString (rr_id child)), (''attempt'', json_of_i64 (sint (rr_attempt child))),
       (''requires_confirmation'', JBool requires_confirmation),
       (''previous_error'', json_string_option previous_error)] @ extra)"

definition retry_rejected_run :: "run_env \<Rightarrow> string \<Rightarrow> run_record run_m" where
  "retry_rejected_run env parent_run_id =
     rm_bind (query env (store_run parent_run_id)) (\<lambda>parent.
     if active_status (rr_status parent)
     then rm_err (RE_InvalidRunStatus (rr_id parent) ''terminal'' (rr_status parent)) else
     rm_bind (rm_lift (stored_estimate env parent)) (\<lambda>estimate.
     rm_bind (case estimate of
         Some e \<Rightarrow> rm_lift (run_requires_confirmation (env_threshold env) e)
       | None \<Rightarrow> rm_ok True) (\<lambda>requires_confirmation.
     rm_bind (call env (\<lambda>ids now. create_reject_retry_run_once (ids 0) (ids \<circ> Suc) now parent_run_id)) (\<lambda>(child, created).
     rm_bind (if created then
         rm_bind (emit env (rr_workspace_id parent) (rr_id parent) ''run.retry''
           (retry_event child requires_confirmation (rr_error_json parent)
             [(''reason'', JString ''output_rejected'')])) (\<lambda>_.
         if requires_confirmation
         then emit env (rr_workspace_id child) (rr_id child) ''run.retry_pending''
           (json_object [(''parent_run_id'', JString (rr_id parent)), (''estimate'', cost_option_json estimate),
             (''reason'', JString ''output_rejected'')])
         else rm_ok ())
       else rm_ok ()) (\<lambda>_.
     rm_bind (if \<not> requires_confirmation \<and> rr_status child = run_status_as_str WaitingConfirmation then
         rm_match (start_confirmed_run env (rr_id child))
           (\<lambda>err. if concurrent_reject_retry_start_lost err then rm_ok ()
              else rm_bind (emit_retry_failure env (rr_workspace_id child) (rr_id child) err) (\<lambda>_. rm_err err))
           (\<lambda>_. rm_ok ())
       else rm_ok ()) (\<lambda>_.
     query env (store_run (rr_id child))))))))"

datatype retry_decision = Continue run_record execution_plan nat | Pending | Exhausted | Stop

definition prepare_retry :: "run_env \<Rightarrow> string \<Rightarrow> string \<Rightarrow> i64 \<Rightarrow> retry_decision run_m" where
  "prepare_retry env workspace_id run_id attempt =
     rm_bind (query env (store_run run_id)) (\<lambda>run.
     if rr_status run \<noteq> run_status_as_str Failed then rm_ok Stop else
     rm_bind (rm_lift (retries_exhausted (env_max_retries env) attempt)) (\<lambda>exhausted.
     if exhausted then
       rm_bind (call env (\<lambda>ids now. complete_failure_continuation now run_id True)) (\<lambda>_. rm_ok Exhausted)
     else case rr_estimate_json run of
       None \<Rightarrow> rm_bind (call env (\<lambda>ids now. complete_failure_continuation now run_id False)) (\<lambda>_. rm_ok Stop)
     | Some estimate_json \<Rightarrow>
     rm_bind (rm_lift (env_cost_parse env estimate_json)) (\<lambda>estimate.
     rm_bind (rm_lift (run_requires_confirmation (env_threshold env) estimate)) (\<lambda>requires_confirmation.
     rm_bind (call env (\<lambda>ids now. create_retry_run_once (ids 0) (ids \<circ> Suc) now run_id False)) (\<lambda>child.
     rm_bind (emit env workspace_id run_id ''run.retry''
       (retry_event child requires_confirmation (rr_error_json run) [])) (\<lambda>_.
     if requires_confirmation then
       rm_bind (emit env workspace_id (rr_id child) ''run.retry_pending''
         (json_object [(''parent_run_id'', JString run_id), (''estimate'', cost_json estimate)])) (\<lambda>_.
       rm_bind (call env (\<lambda>ids now. complete_failure_continuation now run_id False)) (\<lambda>_. rm_ok Pending))
     else
       rm_bind (claim_run_for_background env (rr_id child)) (\<lambda>(child_run, child_plan, child_interrupt).
       rm_bind (ensure_run_steps env (rr_id child_run) child_plan) (\<lambda>_.
       rm_bind (call env (\<lambda>ids now. complete_failure_continuation now run_id False)) (\<lambda>_.
       rm_ok (Continue child_run child_plan child_interrupt))))))))))"

text \<open>One iteration of \<open>run_with_self_heal\<close>: execute the run, then decide; \<open>Continue\<close> is the
  run of the next iteration, every other decision ends the loop.\<close>

definition heal_iteration :: "run_env \<Rightarrow> executor \<Rightarrow> run_record \<Rightarrow> execution_plan \<Rightarrow> nat \<Rightarrow> retry_decision run_m" where
  "heal_iteration env execute run plan interrupt =
     (let workspace_id = rr_workspace_id run in
      rm_bind (rm_match (execute run workspace_id plan interrupt (rr_force_rerun run))
          (\<lambda>_. rm_ok ()) (\<lambda>_. rm_ok ())) (\<lambda>_.
      rm_bind (remove_interrupt (rr_id run)) (\<lambda>_.
      rm_match (prepare_retry env workspace_id (rr_id run) (rr_attempt run))
        (\<lambda>err. rm_bind (emit_retry_failure env workspace_id (rr_id run) err) (\<lambda>_. rm_ok Stop)) rm_ok)))"

section \<open>Restart\<close>

text \<open>A queued run may resume after a restart only with the plan and estimate that were approved,
  with no provider task yet, and with an estimate for every provider step.\<close>

definition intent_matches :: "run_env \<Rightarrow> run_execution_intent_record \<Rightarrow> execution_plan \<Rightarrow> run_record \<Rightarrow> bool" where
  "intent_matches env intent plan run \<longleftrightarrow>
     ei_plan_fingerprint intent = ''sha256:'' @ env_digest env (env_plan_text env plan) \<and>
     ei_estimate_fingerprint intent =
       ''sha256:'' @ env_digest env (case rr_estimate_json run of None \<Rightarrow> '''' | Some s \<Rightarrow> s) \<and>
     ei_cost_decision intent = ''approved''"

definition estimated_step_ids :: "cost_ledger_record list \<Rightarrow> string btree_set" where
  "estimated_step_ids costs = bs_from_list (List.map_filter cl_run_step_id (filter cl_estimated costs))"

definition estimates_complete ::
  "execution_plan \<Rightarrow> string btree_set \<Rightarrow> run_step_record list \<Rightarrow> bool" where
  "estimates_complete plan estimated steps =
     (let provider_steps = filter (\<lambda>s. es_provider s \<noteq> None) (ep_steps plan) in
      list_all (\<lambda>p. case List.find (\<lambda>s. rs_node_id s = es_node_id p) steps of
         None \<Rightarrow> False | Some s \<Rightarrow> list_ex (\<lambda>i. i = rs_id s) estimated) provider_steps \<and>
      length provider_steps = length estimated)"

definition restart_intent_is_complete :: "run_env \<Rightarrow> run_record \<Rightarrow> bool run_m" where
  "restart_intent_is_complete env run =
     rm_bind (read env (run_execution_intent (rr_id run))) (\<lambda>intent. case intent of
       None \<Rightarrow> rm_ok False
     | Some intent \<Rightarrow> (case rr_plan_json run of
         None \<Rightarrow> rm_ok False
       | Some plan_json \<Rightarrow>
         rm_bind (rm_lift (env_plan_parse env plan_json)) (\<lambda>plan.
         if \<not> intent_matches env intent plan run then rm_ok False else
         rm_bind (read env (provider_tasks_for_run (rr_id run))) (\<lambda>tasks.
         if tasks \<noteq> [] then rm_ok False else
         rm_bind (read env (cost_ledger_for_run (rr_id run))) (\<lambda>costs.
         rm_bind (read env (run_steps (rr_id run))) (\<lambda>steps.
         rm_ok (estimates_complete plan (estimated_step_ids costs) steps)))))))"

definition claim_restart_queued_run :: "run_env \<Rightarrow> run_record \<Rightarrow> bool run_m" where
  "claim_restart_queued_run env run =
     rm_bind (restart_intent_is_complete env run) (\<lambda>complete.
     if \<not> complete then rm_ok False else
     rm_bind (call env (\<lambda>ids now. claim_run_if_workspace_idle now (rr_id run) ''queued'' ''running''
       (rr_workspace_id run) (rr_group_id run))) (\<lambda>claimed. rm_ok (claimed \<noteq> None)))"

definition resume_retry_created :: "run_env \<Rightarrow> run_failure_continuation_record \<Rightarrow> unit run_m" where
  "resume_retry_created env continuation =
     rm_bind (case fc_child_run_id continuation of
         None \<Rightarrow> rm_ok ()
       | Some child_run_id \<Rightarrow>
           rm_bind (query env (store_run child_run_id)) (\<lambda>child.
           if rr_status child = ''waiting_confirmation''
           then rm_bind (start_confirmed_run_within_budget env child_run_id) (\<lambda>_. rm_ok ())
           else rm_ok ())) (\<lambda>_.
     rm_bind (call env (\<lambda>ids now. complete_failure_continuation now (fc_run_id continuation) False))
       (\<lambda>_. rm_ok ()))"

section \<open>Actual costs\<close>

definition record_actual_cost :: "run_env \<Rightarrow> run_record \<Rightarrow> run_step_record \<Rightarrow> unit run_m" where
  "record_actual_cost env run step = (case (rs_provider step, rs_cost_actual_json step) of
     (Some provider, Some actual_json) \<Rightarrow>
       rm_bind (read env (provider_task_for_step (rs_id step))) (\<lambda>task.
       if task \<noteq> None then rm_ok () else
       rm_bind (rm_lift (env_estimate_parse env actual_json)) (\<lambda>cost.
       rm_bind (call env (\<lambda>ids now. create_cost_ledger_once (ids 0) now (''actual:'' @ rs_id step)
         \<lparr>nc_workspace_id = rr_workspace_id run, nc_run_id = Some (rr_id run), nc_run_step_id = Some (rs_id step),
          nc_provider = provider, nc_amount = ce_amount cost, nc_currency = ce_currency cost,
          nc_estimated = ce_estimated cost\<rparr>)) (\<lambda>_. rm_ok ())))
   | _ \<Rightarrow> rm_ok ())"

definition record_actual_costs :: "run_env \<Rightarrow> run_outcome \<Rightarrow> unit run_m" where
  "record_actual_costs env out = rm_each (record_actual_cost env (ro_run out)) (ro_steps out)"

end
