(* ===== verification/Run_Execution.thy ===== *)
theory Run_Execution
  imports Executor Settlement Self_Heal
begin

text \<open>
  The two ends of \<open>execute_created_run_inner\<close> (crates/run/src/executor.rs) around the
  scheduling loop: \<open>begin_run\<close> creates the steps, records the approved intent and marks the run as
  running; \<open>finish_run\<close> books the actual costs and records the terminal status.
\<close>

section \<open>Before the loop\<close>

definition emit_resolved :: "run_env \<Rightarrow> string \<Rightarrow> string \<Rightarrow> execution_plan \<Rightarrow> unit run_m" where
  "emit_resolved env workspace_id run_id plan = (case resolved_implementations_event plan of
     None \<Rightarrow> rm_ok ()
   | Some data \<Rightarrow> emit env workspace_id run_id ''run.resolved_implementations'' data)"

definition begin_run ::
  "run_env \<Rightarrow> nat \<Rightarrow> run_record \<Rightarrow> string \<Rightarrow> execution_plan \<Rightarrow> nat \<Rightarrow> exec_ctx run_m" where
  "begin_run env max_parallel run workspace_id plan interrupt =
     rm_bind (ensure_run_steps env (rr_id run) plan) (\<lambda>steps.
     rm_bind (rm_lift (dag_from_plan plan)) (\<lambda>dag.
     rm_bind (ensure_execution_intent env (rr_id run) plan (rr_estimate_json run)) (\<lambda>_.
     rm_bind (call env (\<lambda>ids now. update_run_status now (rr_id run) (run_status_as_str Running) None)) (\<lambda>_.
     rm_bind (emit env workspace_id (rr_id run) ''run.started''
       (json_object [(''version_id'', JString (ep_version_id plan))])) (\<lambda>_.
     rm_bind (emit_resolved env workspace_id (rr_id run) plan) (\<lambda>_.
     rm_ok \<lparr>xc_workspace_id = workspace_id, xc_run_id = rr_id run, xc_plan = plan, xc_steps = steps,
       xc_dag = dag, xc_max_parallel = max_parallel, xc_interrupt = interrupt\<rparr>))))))"

section \<open>After the loop\<close>

text \<open>\<open>None\<close> is a settlement that is still polling when its fuel is used up.\<close>

definition book_costs :: "run_env \<Rightarrow> exec_ctx \<Rightarrow> unit run_m" where
  "book_costs env ctx = rm_bind (outcome env (xc_run_id ctx)) (record_actual_costs env)"

definition cost_error_text :: "run_env \<Rightarrow> run_error \<Rightarrow> string" where
  "cost_error_text env err = env_json env (json_object
     [(''error'', JString (public_message err)), (''phase'', JString ''actual_cost_ledger'')])"

definition settle_with :: "run_env \<Rightarrow> nat \<Rightarrow> exec_ctx \<Rightarrow> run_status \<Rightarrow> string option \<Rightarrow> polled run_m" where
  "settle_with env fuel ctx st error_json = request_and_settle_terminal env fuel (xc_workspace_id ctx)
     (xc_run_id ctx) (run_status_as_str st) error_json"

definition returned :: "polled \<Rightarrow> 'a run_m \<Rightarrow> 'a option run_m" where
  "returned p m = (if p = StillPolling then rm_ok None else rm_bind m (\<lambda>x. rm_ok (Some x)))"

definition record_success :: "run_env \<Rightarrow> exec_ctx \<Rightarrow> run_outcome option run_m" where
  "record_success env ctx =
     rm_bind (call env (\<lambda>ids now. update_run_status now (xc_run_id ctx) (run_status_as_str Succeeded) None)) (\<lambda>_.
     rm_bind (emit env (xc_workspace_id ctx) (xc_run_id ctx) ''run.succeeded'' (json_object [])) (\<lambda>_.
     rm_bind (outcome env (xc_run_id ctx)) (\<lambda>out. rm_ok (Some out))))"

definition finish_run :: "run_env \<Rightarrow> nat \<Rightarrow> exec_ctx \<Rightarrow> loop_state \<Rightarrow> run_outcome option run_m" where
  "finish_run env fuel ctx l =
     rm_match (book_costs env ctx)
       (\<lambda>err. rm_bind (settle_with env fuel ctx Failed (Some (cost_error_text env err))) (\<lambda>p.
          returned p (rm_err err)))
       (\<lambda>_. case ls_first_error l of
          Some (err, error_json) \<Rightarrow>
            rm_bind (settle_with env fuel ctx Failed (Some error_json)) (\<lambda>p. returned p (rm_err err))
        | None \<Rightarrow>
            rm_bind (if ls_interrupted l then rm_ok True else is_requested env (xc_interrupt ctx)) (\<lambda>stop.
            if stop then
              rm_bind (settle_with env fuel ctx Interrupted None) (\<lambda>p.
              returned p (outcome env (xc_run_id ctx)))
            else record_success env ctx))"

end
