(* ===== verification/Sweep.thy ===== *)
theory Sweep
  imports Self_Heal
begin

text \<open>
  Confirmed sweeps: confirm_run, execute_confirmed_run and confirm_sweep_runs of
  crates/run/src/cost_gate.rs, and sweep_background.rs.  The runs of a sweep are claimed together
  and executed one after the other; when one fails or is interrupted the rest is given back.
\<close>

record sweep_outcome =
  sw_group_id :: string
  sw_runs :: "run_outcome list"
  sw_artifacts :: "artifact_record list"
  sw_recommendation :: "artifact_record option"

section \<open>Executing claimed runs\<close>

definition execute_confirmed_run :: "run_env \<Rightarrow> executor \<Rightarrow> run_record \<Rightarrow> execution_plan \<Rightarrow> run_outcome run_m" where
  "execute_confirmed_run env execute run plan =
     rm_bind new_interrupt (\<lambda>interrupt.
     rm_bind (insert_interrupt (rr_id run) interrupt) (\<lambda>_.
     let finish = (\<lambda>result. rm_bind (remove_interrupt (rr_id run)) (\<lambda>_.
       rm_bind (outcome env (rr_id run)) (\<lambda>out. result out)))
     in rm_match (execute run (rr_workspace_id run) plan interrupt (rr_force_rerun run))
          (\<lambda>err. finish (\<lambda>_. rm_err err)) (\<lambda>_. finish rm_ok)))"

definition confirm_run :: "run_env \<Rightarrow> executor \<Rightarrow> string \<Rightarrow> run_outcome run_m" where
  "confirm_run env execute run_id =
     rm_bind (claim_run_for_confirmation env run_id) (\<lambda>(run, plan). execute_confirmed_run env execute run plan)"

text \<open>One conditional change of status, and the error when it was not possible.\<close>

definition change_status :: "run_env \<Rightarrow> string \<Rightarrow> run_status \<Rightarrow> run_status \<Rightarrow> run_record option run_m" where
  "change_status env run_id expected next_status = call env (\<lambda>ids now. update_run_status_if_current now run_id
     (run_status_as_str expected) (run_status_as_str next_status) None)"

definition status_error :: "run_env \<Rightarrow> string \<Rightarrow> run_status \<Rightarrow> 'a run_m" where
  "status_error env run_id expected =
     rm_bind (query env (store_run run_id)) (\<lambda>current.
     rm_err (RE_InvalidRunStatus (rr_id current) (run_status_as_str expected) (rr_status current)))"

definition revert_claimed_run :: "run_env \<Rightarrow> string \<Rightarrow> unit run_m" where
  "revert_claimed_run env run_id =
     rm_bind (change_status env run_id Running WaitingConfirmation) (\<lambda>r. case r of
       None \<Rightarrow> status_error env run_id Running | Some _ \<Rightarrow> rm_ok ())"

definition revert_claimed_runs :: "run_env \<Rightarrow> string list \<Rightarrow> unit run_m" where
  "revert_claimed_runs env = rm_each (revert_claimed_run env)"

definition interrupt_claimed_run :: "run_env \<Rightarrow> string \<Rightarrow> unit run_m" where
  "interrupt_claimed_run env run_id =
     rm_bind (change_status env run_id Running Interrupted) (\<lambda>r. case r of
       None \<Rightarrow> status_error env run_id Running
     | Some run \<Rightarrow> emit env (rr_workspace_id run) (rr_id run) ''run.interrupted'' (json_object []))"

definition interrupt_claimed_runs :: "run_env \<Rightarrow> string list \<Rightarrow> unit run_m" where
  "interrupt_claimed_runs env = rm_each (interrupt_claimed_run env)"

fun claim_sweep_runs :: "run_env \<Rightarrow> run_record list \<Rightarrow> string list \<Rightarrow> string list run_m" where
  "claim_sweep_runs env [] claimed = rm_ok claimed"
| "claim_sweep_runs env (run # runs) claimed =
     rm_match (change_status env (rr_id run) WaitingConfirmation Running)
       (\<lambda>err. rm_bind (revert_claimed_runs env claimed) (\<lambda>_. rm_err err))
       (\<lambda>r. case r of
          Some c \<Rightarrow> claim_sweep_runs env runs (claimed @ [rr_id c])
        | None \<Rightarrow> rm_bind (revert_claimed_runs env claimed) (\<lambda>_.
            status_error env (rr_id run) WaitingConfirmation))"

fun execute_claimed_runs :: "run_env \<Rightarrow> executor \<Rightarrow> string list \<Rightarrow> run_outcome list \<Rightarrow> run_outcome list run_m" where
  "execute_claimed_runs env execute [] outs = rm_ok outs"
| "execute_claimed_runs env execute (run_id # rest) outs =
     rm_bind (query env (store_run run_id)) (\<lambda>run.
     rm_bind (rm_lift (plan_of_run env run)) (\<lambda>plan.
     rm_match (execute_confirmed_run env execute run plan)
       (\<lambda>err. rm_bind (revert_claimed_runs env rest) (\<lambda>_. rm_err err))
       (\<lambda>out. if rr_status (ro_run out) = run_status_as_str Interrupted
          then rm_bind (interrupt_claimed_runs env rest) (\<lambda>_. rm_ok (outs @ [out]))
          else execute_claimed_runs env execute rest (outs @ [out]))))"

text \<open>The recommended artifact: of the recommended run, else the last selected one of a sweep that
  was interrupted.\<close>

definition outcome_interrupted :: "run_outcome list \<Rightarrow> bool" where
  "outcome_interrupted outs = list_ex (\<lambda>out. rr_status (ro_run out) = run_status_as_str Interrupted) outs"

definition find_recommendation :: "string \<Rightarrow> bool \<Rightarrow> artifact_record list \<Rightarrow> artifact_record option" where
  "find_recommendation recommended_run_id interrupted artifacts =
     (case List.find (\<lambda>a. ar_run_id a = Some recommended_run_id \<and> ar_selected a) artifacts of
        Some a \<Rightarrow> Some a
      | None \<Rightarrow> if interrupted then List.find ar_selected (rev artifacts) else None)"

definition select_only :: "run_env \<Rightarrow> string option \<Rightarrow> artifact_record list \<Rightarrow> artifact_record list run_m" where
  "select_only env selected_id = rm_map (\<lambda>a.
     call env (\<lambda>ids now. update_artifact_selected (ar_id a) (selected_id = Some (ar_id a))))"

definition fetch_selected :: "run_env \<Rightarrow> string option \<Rightarrow> artifact_record option run_m" where
  "fetch_selected env selected_id = (case selected_id of None \<Rightarrow> rm_ok None
     | Some i \<Rightarrow> rm_bind (query env (artifact i)) (\<lambda>a. rm_ok (Some a)))"

definition confirm_sweep_runs :: "run_env \<Rightarrow> executor \<Rightarrow> string list \<Rightarrow> string \<Rightarrow> sweep_outcome run_m" where
  "confirm_sweep_runs env execute run_ids recommended_run_id =
     rm_bind (validate_sweep_confirmation env run_ids recommended_run_id) (\<lambda>(group_id, runs).
     rm_bind (claim_sweep_runs env runs []) (\<lambda>claimed.
     rm_bind (execute_claimed_runs env execute claimed []) (\<lambda>outs.
     let artifacts = concat (map ro_artifacts outs);
         interrupted = outcome_interrupted outs;
         recommendation = find_recommendation recommended_run_id interrupted artifacts
     in if recommendation = None \<and> \<not> interrupted
        then rm_err (RE_InvalidSweepPlan ''recommended run did not produce an output artifact'')
        else
          rm_bind (select_only env (map_option ar_id recommendation) artifacts) (\<lambda>refreshed.
          rm_bind (fetch_selected env (map_option ar_id recommendation)) (\<lambda>recommendation.
          rm_ok \<lparr>sw_group_id = group_id, sw_runs = outs, sw_artifacts = refreshed,
            sw_recommendation = recommendation\<rparr>)))))"

section \<open>Sweeps in the background\<close>

definition rollback_queued_run :: "run_env \<Rightarrow> run_record \<Rightarrow> unit run_m" where
  "rollback_queued_run env run =
     rm_bind (change_status env (rr_id run) Queued WaitingConfirmation) (\<lambda>_. remove_interrupt (rr_id run))"

definition rollback_queued_sweep_runs :: "run_env \<Rightarrow> run_record list \<Rightarrow> unit run_m" where
  "rollback_queued_sweep_runs env = rm_each (rollback_queued_run env)"

fun queue_sweep_runs :: "run_env \<Rightarrow> run_record list \<Rightarrow> run_record list \<Rightarrow> run_record list run_m" where
  "queue_sweep_runs env [] claimed = rm_ok claimed"
| "queue_sweep_runs env (run # runs) claimed =
     rm_bind new_interrupt (\<lambda>interrupt.
     rm_bind (insert_interrupt (rr_id run) interrupt) (\<lambda>_.
     rm_match (change_status env (rr_id run) WaitingConfirmation Queued)
       (\<lambda>err. rm_bind (remove_interrupt (rr_id run)) (\<lambda>_.
          rm_bind (rollback_queued_sweep_runs env claimed) (\<lambda>_. rm_err err)))
       (\<lambda>r. case r of
          Some queued \<Rightarrow> queue_sweep_runs env runs (claimed @ [queued])
        | None \<Rightarrow> rm_bind (remove_interrupt (rr_id run)) (\<lambda>_.
            rm_bind (rollback_queued_sweep_runs env claimed) (\<lambda>_.
            status_error env (rr_id run) WaitingConfirmation)))))"

definition start_confirmed_sweep :: "run_env \<Rightarrow> string list \<Rightarrow> string \<Rightarrow> sweep_outcome run_m" where
  "start_confirmed_sweep env run_ids recommended_run_id =
     rm_bind (validate_sweep_confirmation env run_ids recommended_run_id) (\<lambda>(group_id, runs).
     rm_bind (queue_sweep_runs env runs []) (\<lambda>claimed.
     rm_bind (rm_map (\<lambda>run. outcome env (rr_id run)) claimed) (\<lambda>outs.
     rm_bind (spawn_task (SweepTask group_id (map rr_id claimed) recommended_run_id)) (\<lambda>_.
     rm_ok \<lparr>sw_group_id = group_id, sw_runs = outs, sw_artifacts = [], sw_recommendation = None\<rparr>))))"

definition interrupt_queued_run :: "run_env \<Rightarrow> string \<Rightarrow> unit run_m" where
  "interrupt_queued_run env run_id =
     rm_bind (change_status env run_id Queued Interrupted) (\<lambda>r. case r of
       None \<Rightarrow> remove_interrupt run_id
     | Some run \<Rightarrow>
         rm_bind (read env (run_steps (rr_id run))) (\<lambda>steps.
         rm_bind (skip_steps env (rr_workspace_id run) (rr_id run) steps) (\<lambda>_.
         rm_bind (emit env (rr_workspace_id run) (rr_id run) ''run.interrupted''
           (json_object [(''reason'', JString ''sweep_stopped'')])) (\<lambda>_.
         remove_interrupt run_id))))"

definition interrupt_queued_sweep_runs :: "run_env \<Rightarrow> string list \<Rightarrow> unit run_m" where
  "interrupt_queued_sweep_runs env = rm_each (interrupt_queued_run env)"

definition interrupt_for_background_run :: "string \<Rightarrow> nat run_m" where
  "interrupt_for_background_run run_id s = (s, ok_or (bt_get (sv_interrupts s) run_id) (RE_RunNotActive run_id))"

definition all_succeeded :: "run_outcome list \<Rightarrow> bool" where
  "all_succeeded outs = list_all (\<lambda>out. rr_status (ro_run out) = run_status_as_str Succeeded) outs"

definition finalize_sweep_outcome :: "run_env \<Rightarrow> string \<Rightarrow> string list \<Rightarrow> string \<Rightarrow> sweep_outcome run_m" where
  "finalize_sweep_outcome env group_id run_ids recommended_run_id =
     rm_bind (rm_map (outcome env) run_ids) (\<lambda>outs.
     let artifacts = concat (map ro_artifacts outs);
         selected_id = map_option ar_id (List.find (\<lambda>a. all_succeeded outs \<and>
           ar_run_id a = Some recommended_run_id \<and> ar_selected a) artifacts)
     in if all_succeeded outs \<and> selected_id = None
        then rm_err (RE_InvalidSweepPlan ''recommended run did not produce an output artifact'')
        else
          rm_bind (select_only env selected_id artifacts) (\<lambda>refreshed.
          rm_bind (fetch_selected env selected_id) (\<lambda>recommendation.
          rm_bind (case Option.bind recommendation ar_run_id of
              None \<Rightarrow> rm_ok ()
            | Some run_id \<Rightarrow> rm_bind (query env (store_run run_id)) (\<lambda>run.
                emit env (rr_workspace_id run) run_id ''run.succeeded''
                  (json_object [(''sweep_finalized'', JBool True)]))) (\<lambda>_.
          rm_ok \<lparr>sw_group_id = group_id, sw_runs = outs, sw_artifacts = refreshed,
            sw_recommendation = recommendation\<rparr>))))"

text \<open>\<open>heal\<close> is \<open>continue_self_heal_from_failed\<close>, for the recommended run only.\<close>

fun execute_queued_runs ::
  "run_env \<Rightarrow> executor \<Rightarrow> (run_record \<Rightarrow> unit run_m) \<Rightarrow> string \<Rightarrow> string list \<Rightarrow> unit run_m" where
  "execute_queued_runs env execute heal recommended_run_id [] = rm_ok ()"
| "execute_queued_runs env execute heal recommended_run_id (run_id # rest) =
     rm_bind (change_status env run_id Queued Running) (\<lambda>r. case r of
       None \<Rightarrow> rm_bind (query env (store_run run_id)) (\<lambda>current.
         if rr_status current = run_status_as_str Interrupted
         then interrupt_queued_sweep_runs env rest
         else rm_err (RE_InvalidRunStatus (rr_id current) (run_status_as_str Queued) (rr_status current)))
     | Some run \<Rightarrow>
         rm_bind (rm_lift (plan_of_run env run)) (\<lambda>plan.
         rm_bind (interrupt_for_background_run (rr_id run)) (\<lambda>interrupt.
         rm_bind (rm_match (execute run (rr_workspace_id run) plan interrupt (rr_force_rerun run))
           (\<lambda>_. rm_ok True) (\<lambda>_. rm_ok False)) (\<lambda>failed.
         rm_bind (remove_interrupt (rr_id run)) (\<lambda>_.
         rm_bind (outcome env (rr_id run)) (\<lambda>out.
         if failed then
           rm_bind (if rr_id run = recommended_run_id then heal run else rm_ok ()) (\<lambda>_.
           interrupt_queued_sweep_runs env rest)
         else if rr_status (ro_run out) = run_status_as_str Interrupted
         then interrupt_queued_sweep_runs env rest
         else execute_queued_runs env execute heal recommended_run_id rest))))))"

definition execute_started_sweep ::
  "run_env \<Rightarrow> executor \<Rightarrow> (run_record \<Rightarrow> unit run_m) \<Rightarrow> string \<Rightarrow> string list \<Rightarrow> string \<Rightarrow> sweep_outcome run_m" where
  "execute_started_sweep env execute heal group_id run_ids recommended_run_id =
     rm_bind (execute_queued_runs env execute heal recommended_run_id run_ids) (\<lambda>_.
     finalize_sweep_outcome env group_id run_ids recommended_run_id)"

end
