(* ===== verification/Service_Contract.thy ===== *)
theory Service_Contract
  imports Run_Execution Sweep
begin

text \<open>
  The service keeps the contract of the store: whatever an operation does to the database, other
  parties included, is a sequence of store operations called the way the model of the store
  demands, so every invariant of the store holds through the service.  \<open>follows K m\<close> says this
  of the program \<open>m\<close>, started where \<open>K\<close> holds of the database; \<open>K\<close> is what the operation
  learnt from an earlier read and later store operations preserve.
\<close>

section \<open>The judgement\<close>

definition env_ok :: "run_env \<Rightarrow> bool" where
  "env_ok env \<longleftrightarrow> (\<forall>n d. store_step\<^sup>*\<^sup>* d (env_other env n d))"

definition lasting :: "(db \<Rightarrow> bool) \<Rightarrow> bool" where
  "lasting K \<longleftrightarrow> (\<forall>d d'. db_ok d \<longrightarrow> store_step\<^sup>*\<^sup>* d d' \<longrightarrow> K d \<longrightarrow> K d')"

definition follows :: "(db \<Rightarrow> bool) \<Rightarrow> 'a run_m \<Rightarrow> bool" where
  "follows K m \<longleftrightarrow> (\<forall>s s' r. db_ok (sv_db s) \<longrightarrow> K (sv_db s) \<longrightarrow> m s = (s', r) \<longrightarrow>
     store_step\<^sup>*\<^sup>* (sv_db s) (sv_db s'))"

named_theorems follows_rules

lemma steps_ok: "store_step\<^sup>*\<^sup>* d d' \<Longrightarrow> db_ok d \<Longrightarrow> db_ok d'"
  by (rule store.steps_inv)

lemma lastingD: "lasting K \<Longrightarrow> store_step\<^sup>*\<^sup>* d d' \<Longrightarrow> db_ok d \<Longrightarrow> K d \<Longrightarrow> K d'"
  by (auto simp: lasting_def)

lemma lasting_True [simp]: "lasting (\<lambda>_. True)"
  by (simp add: lasting_def)

lemma followsD: "follows K m \<Longrightarrow> m s = (s', r) \<Longrightarrow> db_ok (sv_db s) \<Longrightarrow> K (sv_db s) \<Longrightarrow>
    store_step\<^sup>*\<^sup>* (sv_db s) (sv_db s')"
  by (auto simp: follows_def)

lemma follows_seq:
  assumes "lasting K" "follows K m" "m s = (t, r)" "db_ok (sv_db s)" "K (sv_db s)"
  shows "store_step\<^sup>*\<^sup>* (sv_db s) (sv_db t) \<and> db_ok (sv_db t) \<and> K (sv_db t)"
  using assms followsD steps_ok lastingD by metis

lemma follows_bind [follows_rules]:
  assumes K: "lasting K" and m: "follows K m" and f: "\<And>x. follows K (f x)"
  shows "follows K (rm_bind m f)"
  unfolding follows_def
proof (intro allI impI)
  fix s s' r
  assume s: "db_ok (sv_db s)" "K (sv_db s)" "rm_bind m f s = (s', r)"
  obtain t q where t: "m s = (t, q)" by fastforce
  note mid = follows_seq [OF K m t s(1,2)]
  show "store_step\<^sup>*\<^sup>* (sv_db s) (sv_db s')"
  proof (cases q)
    case (Inl e)
    with s(3) t mid show ?thesis by (simp add: rm_bind_def)
  next
    case (Inr x)
    with s(3) t have "f x t = (s', r)" by (simp add: rm_bind_def)
    from followsD [OF f this] mid show ?thesis by (blast intro: rtranclp_trans)
  qed
qed

lemma follows_match [follows_rules]:
  assumes K: "lasting K" and m: "follows K m" and "\<And>e. follows K (err e)" "\<And>x. follows K (ok x)"
  shows "follows K (rm_match m err ok)"
  unfolding follows_def
proof (intro allI impI)
  fix s s' r
  assume s: "db_ok (sv_db s)" "K (sv_db s)" "rm_match m err ok s = (s', r)"
  obtain t q where t: "m s = (t, q)" by fastforce
  note mid = follows_seq [OF K m t s(1,2)]
  have "store_step\<^sup>*\<^sup>* (sv_db t) (sv_db s')"
    using s(3) t mid followsD [OF assms(3)] followsD [OF assms(4)]
    by (cases q) (auto simp: rm_match_def)
  with mid show "store_step\<^sup>*\<^sup>* (sv_db s) (sv_db s')" by (blast intro: rtranclp_trans)
qed

lemma follows_pure [follows_rules]:
  "follows K (rm_ok x)" "follows K (rm_err e)" "follows K (rm_lift q)" "follows K (publish ev)"
  "follows K new_interrupt" "follows K (insert_interrupt i h)" "follows K (remove_interrupt i)"
  "follows K (request_interrupt h)" "follows K (spawn_task task)" "follows K (interrupt_for_background_run i)"
  "follows K (request_by_id i)"
  by (auto simp: follows_def publish_def new_interrupt_def insert_interrupt_def remove_interrupt_def
      request_interrupt_def spawn_task_def interrupt_for_background_run_def request_by_id_def split: option.splits)

lemma others_steps: "env_ok env \<Longrightarrow> store_step\<^sup>*\<^sup>* (sv_db s) (sv_db (others env s))"
  by (simp add: env_ok_def others_def)

lemma follows_access [follows_rules]:
  assumes "env_ok env"
  shows "follows K (query env q)" "follows K (read env q')" "follows K (query_run env q'')"
    "follows K (is_requested env h)" "follows K (cancelled env h)" "follows K (fresh_id env)"
    "follows K (create_notice env)" "follows K (cancel_confirmed env tsk)" "follows K (task_timing env i)"
    "follows K (\<lambda>s. (others env s, g s))"
  using others_steps [OF assms]
  by (auto simp: follows_def query_def read_def query_run_def is_requested_def cancelled_def fresh_id_def
      create_notice_def cancel_confirmed_def task_timing_def Let_def split: option.splits)

lemma follows_call:
  assumes "env_ok env" "lasting K"
    "\<And>ids now d d' x. op ids now d = Inr (d', x) \<Longrightarrow> db_ok d \<Longrightarrow> K d \<Longrightarrow> store_step d d'"
  shows "follows K (call env op)"
  unfolding follows_def
proof (intro allI impI)
  fix s s' r
  assume s: "db_ok (sv_db s)" "K (sv_db s)" "call env op s = (s', r)"
  note o = others_steps [OF assms(1), of s]
  have ok: "db_ok (sv_db (others env s))" "K (sv_db (others env s))"
    using o s(1,2) steps_ok lastingD [OF assms(2)] by blast+
  show "store_step\<^sup>*\<^sup>* (sv_db s) (sv_db s')"
  proof (cases "op (env_new_id env (sv_tick s)) (env_now env (sv_tick s)) (sv_db (others env s))")
    case (Inl e)
    with s(3) o show ?thesis by (auto simp: call_def Let_def)
  next
    case (Inr p)
    obtain d x where p: "p = (d, x)" by (cases p)
    with Inr s(3) have "sv_db s' = d" by (auto simp: call_def Let_def)
    with assms(3) [OF Inr [unfolded p] ok] o show ?thesis by (auto intro: rtranclp.rtrancl_into_rtrancl)
  qed
qed

lemma follows_each [follows_rules]:
  "lasting K \<Longrightarrow> (\<And>x. follows K (f x)) \<Longrightarrow> follows K (rm_each f xs)"
  by (induction xs) (auto intro!: follows_rules)

lemma follows_map [follows_rules]:
  "lasting K \<Longrightarrow> (\<And>x. follows K (f x)) \<Longrightarrow> follows K (rm_map f xs)"
  by (induction xs) (auto intro!: follows_rules)

lemma follows_fold [follows_rules]:
  "lasting K \<Longrightarrow> (\<And>x st. follows K (f x st)) \<Longrightarrow> follows K (rm_fold f xs st)"
  by (induction xs arbitrary: st) (auto intro!: follows_rules)

lemma follows_cases [follows_rules]:
  "(b \<Longrightarrow> follows K m) \<Longrightarrow> (\<not> b \<Longrightarrow> follows K n) \<Longrightarrow> follows K (if b then m else n)"
  "follows K e \<Longrightarrow> (\<And>x. follows K (f x)) \<Longrightarrow> follows K (case_option e f o')"
  "(\<And>x y. follows K (g x y)) \<Longrightarrow> follows K (case_prod g p)"
  by (auto split: option.splits prod.splits)

section \<open>Calls of the store\<close>

lemma follows_calls [follows_rules]:
  assumes "env_ok env" "lasting K"
  shows "follows K (call env (\<lambda>ids now. create_run (ids 0) now nr))"
    "follows K (call env (\<lambda>ids now. set_run_force_rerun i b))"
    "follows K (call env (\<lambda>ids now. create_run_step (ids 0) ns))"
    "follows K (call env (\<lambda>ids now. update_run_step_state now i st progress cost err))"
    "follows K (call env (\<lambda>ids now. update_run_step_cost_estimate i est))"
    "follows K (call env (\<lambda>ids now. append_run_event (ids 0) now i ev data))"
    "follows K (call env (\<lambda>ids now. update_artifact_selected i b))"
    "follows K (call env (\<lambda>ids now. create_cost_ledger_once (ids 0) now key nc))"
    "follows K (call env (\<lambda>ids now. create_reject_retry_run_once (ids 0) (ids \<circ> Suc) now i))"
    "follows K (call env (\<lambda>ids now. create_retry_run_once (ids 0) (ids \<circ> Suc) now i b))"
    "follows K (call env (\<lambda>ids now. complete_failure_continuation now i b))"
    "follows K (call env (\<lambda>ids now. request_run_terminalization now i st err))"
    "follows K (call env (\<lambda>ids now. claim_run_terminalization now i owner lease))"
    "follows K (call env (\<lambda>ids now. renew_run_terminalization_lease now i owner lease))"
    "follows K (call env (\<lambda>ids now. complete_run_terminalization (ids 0) now i owner))"
    "follows K (call env (\<lambda>ids now. create_or_read_execution_intent now i pf ef cd))"
    "follows K (call env (\<lambda>ids now. cancel_provider_task now i code))"
  by (rule follows_call [OF assms], erule store_step.intros)+

lemma follows_guarded_calls [follows_rules]:
  assumes "env_ok env" "lasting K"
  shows "\<not> active_status st \<Longrightarrow> follows K (call env (\<lambda>ids now. update_run_status now i st err))"
    and "\<not> active_status st \<Longrightarrow> follows K (call env (\<lambda>ids now. update_run_estimate_and_status i est st))"
    and "\<not> terminal_status e \<Longrightarrow> follows K (call env (\<lambda>ids now. update_run_status_if_current now i e st err))"
    and "open_task_state e \<Longrightarrow> follows K (call env (\<lambda>ids now. abandon_provider_task now i e code'))"
    and "open_task_state e \<Longrightarrow> follows K (call env (\<lambda>ids now. complete_provider_task now i e code))"
  by (rule follows_call [OF assms], (erule store_step.intros; simp))+

lemmas status_texts = active_status_def terminal_status_def open_task_state_def

section \<open>Shared operations\<close>

lemma follows_emit [follows_rules]:
  assumes "env_ok env" "lasting K"
  shows "follows K (emit env ws i ev data)" "follows K (skip_step env ws i st)" "follows K (skip_steps env ws i sts)"
    "follows K (ensure_workspace_not_busy env ws g x)" "follows K (ensure_run_steps env i plan)"
    "follows K (outcome env i)" "follows K (frozen_plan env gr i ws)"
    "follows K (record_estimate env ws i j provider e)" "follows K (ensure_execution_intent env i plan est)"
    "follows K (finish_failed env ws i err extra)" "follows K (claim_rejection env i)"
    "follows K (emit_retry_failure env ws i err)" "follows K (restart_intent_is_complete env run)"
  using assms
  by (auto simp: emit_def skip_step_def skip_steps_def ensure_workspace_not_busy_def ensure_run_steps_def
      outcome_def frozen_plan_def record_estimate_def ensure_execution_intent_def finish_failed_def Let_def
      claim_rejection_def emit_retry_failure_def restart_intent_is_complete_def status_texts
      intro!: follows_rules)

section \<open>Claims\<close>

text \<open>A run that was read is still there, whatever its status became.\<close>

definition known :: "run_record \<Rightarrow> db \<Rightarrow> bool" where
  "known r d \<longleftrightarrow> (\<exists>r'\<in>set (db_runs d). same_run r r')"

lemma lasting_known [simp]: "lasting (known r)"
  unfolding lasting_def
proof (intro allI impI)
  fix d d' assume d: "db_ok d" "store_step\<^sup>*\<^sup>* d d'" "known r d"
  then obtain r1 where r1: "r1 \<in> set (db_runs d)" "same_run r r1" by (auto simp: known_def)
  from store_steps_follow(1) [OF d(2,1) r1(1)] obtain r2 where "r2 \<in> set (db_runs d')" "run_follows r1 r2"
    by blast
  with r1(2) show "known r d'" by (auto simp: known_def run_follows_def same_run_def)
qed

lemma follows_claim [follows_rules]:
  assumes "env_ok env" "\<not> terminal_status e"
  shows "follows (known r) (call env (\<lambda>ids now. claim_run_if_workspace_idle now (rr_id r) e st
    (rr_workspace_id r) (rr_group_id r)))"
proof (rule follows_call [OF assms(1)])
  fix ids :: "nat \<Rightarrow> string" and now d d' x
  assume c: "claim_run_if_workspace_idle now (rr_id r) e st (rr_workspace_id r) (rr_group_id r) d = Inr (d', x)"
    and "known r d"
  then obtain r' where r': "r' \<in> set (db_runs d)" "same_run r r'" by (auto simp: known_def)
  then have "rr_id r = rr_id r'" "rr_workspace_id r = rr_workspace_id r'" "rr_group_id r = rr_group_id r'"
    by (simp_all add: same_run_def)
  with c r'(1) assms(2) show "store_step d d'" by (auto intro: store_step.claim)
qed simp

lemma follows_query_run:
  assumes env: "env_ok env" and K: "lasting K" and f: "\<And>r. rr_id r = i \<Longrightarrow> follows (known r) (f r)"
  shows "follows K (rm_bind (query env (store_run i)) f)"
  unfolding follows_def
proof (intro allI impI)
  fix s s' r
  assume s: "db_ok (sv_db s)" "K (sv_db s)" "rm_bind (query env (store_run i)) f s = (s', r)"
  note o = others_steps [OF env, of s]
  show "store_step\<^sup>*\<^sup>* (sv_db s) (sv_db s')"
  proof (cases "store_run i (sv_db (others env s))")
    case (Inl e)
    with s(3) o show ?thesis by (auto simp: rm_bind_def query_def Let_def)
  next
    case (Inr run)
    then have run: "run \<in> set (db_runs (sv_db (others env s)))" "rr_id run = i"
      using fetch_one_Inr unfolding store_run_def by fast+
    then have "known run (sv_db (others env s))" by (auto simp: known_def same_run_def)
    moreover have "f run (others env s) = (s', r)"
      using s(3) Inr by (simp add: rm_bind_def query_def Let_def)
    ultimately have "store_step\<^sup>*\<^sup>* (sv_db (others env s)) (sv_db s')"
      using followsD [OF f [OF run(2)]] steps_ok [OF o s(1)] by blast
    with o show ?thesis by (rule rtranclp_trans)
  qed
qed

lemma follows_claiming [follows_rules]:
  assumes "env_ok env" "lasting K"
  shows "follows K (claim_run_for_confirmation env i)" "follows K (claim_run_for_background env i)"
  unfolding claim_run_for_confirmation_def claim_run_for_background_def Let_def
  by (rule follows_query_run [OF assms];
      use assms(1) in \<open>auto simp: claim_waiting_run_def status_texts intro!: follows_rules\<close>)+

lemma follows_restart [follows_rules]:
  assumes "env_ok env"
  shows "follows (known r) (claim_restart_queued_run env r)"
  using assms by (auto simp: claim_restart_queued_run_def status_texts intro!: follows_rules)

section \<open>Operations of the service\<close>

lemma follows_estimates [follows_rules]:
  assumes "env_ok env" "lasting K"
  shows "follows K (estimate_created_run env ws i plan_steps records h)"
  using assms by (auto simp: estimate_created_run_def estimate_step_def intro!: follows_rules split: prod.splits)

lemma follows_error_cases [follows_rules]:
  "(\<And>x. follows K (f x)) \<Longrightarrow> (\<And>e. follows K (g e)) \<Longrightarrow>
     follows K (case e of RE_Interrupted x \<Rightarrow> f x | _ \<Rightarrow> g e)"
  by (cases e) auto

lemma follows_request [follows_rules]:
  assumes "env_ok env" "lasting K"
  shows "follows K (request_confirmed_run env trigger req b c)"
  using assms unfolding request_confirmed_run_def
  by (auto simp: status_texts intro!: follows_rules split: run_error.splits)

lemma follows_gate [follows_rules]:
  assumes "env_ok env" "lasting K"
  shows "follows K (request_agent_run env req)" "follows K (prepare_agent_run env req)"
    "follows K (prepare_manual_run env mreq)" "follows K (announce_run_requested env pending b)"
    "follows K (hold_run env i)" "follows K (start_confirmed_run env i)"
    "follows K (start_confirmed_run_within_budget env i)"
    "follows K (prepare_sweep_plan env plan)" "follows K (request_sweep_plan env plan)"
    "follows K (validate_sweep_confirmation env is j)"
  using assms
  by (auto simp: request_agent_run_def prepare_agent_run_def prepare_manual_run_def announce_run_requested_def
      hold_run_def start_confirmed_run_def start_confirmed_run_within_budget_def prepare_sweep_plan_def
      prepare_variant_def request_sweep_plan_def validate_sweep_confirmation_def check_sweep_run_def
      status_texts Let_def intro!: follows_rules split: prod.splits)

lemma follows_retries [follows_rules]:
  assumes "env_ok env" "lasting K"
  shows "follows K (retry_rejected_run env i)" "follows K (prepare_retry env ws i attempt)"
    "follows K (resume_retry_created env c)" "follows K (record_actual_costs env out)"
  using assms
  by (auto simp: retry_rejected_run_def prepare_retry_def resume_retry_created_def record_actual_costs_def
      record_actual_cost_def Let_def intro!: follows_rules split: prod.splits option.splits)

lemma follows_settle_task [follows_rules]:
  assumes "env_ok env" "lasting K"
  shows "follows K (settle_task env ws i st task)"
  using assms
  by (auto simp: settle_task_def settle_active_def settle_dispatching_def settle_result_ready_def
      complete_ready_def persist_billing_risk_def status_texts intro!: follows_rules)

lemma follows_polling [follows_rules]:
  assumes "env_ok env" "lasting K"
  shows "follows K (claim_settlement env i owner fuel)"
    "follows K (drain_tasks env ws i st owner fuel)"
  by (induction fuel) (use assms in \<open>auto simp: settle_tasks_def intro!: follows_rules\<close>)

lemma follows_settlement [follows_rules]:
  assumes "env_ok env" "lasting K"
  shows "follows K (request_and_settle_terminal env fuel ws i st err)" "follows K (interrupt_run env fuel i)"
    "follows K (fail_active_run_after_error env fuel ws i e)"
  using assms
  by (auto simp: request_and_settle_terminal_def interrupt_run_def fail_active_run_after_error_def
      publish_terminal_def intro!: follows_rules split: option.splits)

text \<open>Status changes of sweeps, and the operations that execute runs, for every way to execute one
  that follows the store itself.\<close>

definition execute_ok :: "executor \<Rightarrow> bool" where
  "execute_ok execute \<longleftrightarrow> (\<forall>run ws plan h b. follows (\<lambda>_. True) (execute run ws plan h b))"

lemma follows_execute: "execute_ok execute \<Longrightarrow> follows K (execute run ws plan h b)"
  unfolding execute_ok_def follows_def by blast

lemma follows_status [follows_rules]:
  assumes "env_ok env" "lasting K"
  shows "expected \<in> {Queued, WaitingConfirmation, Running} \<Longrightarrow> follows K (change_status env i expected st)"
    and "follows K (status_error env i expected)"
  using assms by (auto simp: change_status_def status_error_def status_texts intro!: follows_rules)

lemma follows_sweep_parts [follows_rules]:
  assumes "env_ok env" "lasting K"
  shows "follows K (revert_claimed_runs env is)" "follows K (interrupt_claimed_runs env is)"
    "follows K (rollback_queued_sweep_runs env runs)" "follows K (interrupt_queued_sweep_runs env is)"
    "follows K (select_only env sel as)" "follows K (fetch_selected env sel)"
  using assms
  by (auto simp: revert_claimed_runs_def revert_claimed_run_def interrupt_claimed_runs_def interrupt_claimed_run_def
      rollback_queued_sweep_runs_def rollback_queued_run_def interrupt_queued_sweep_runs_def
      interrupt_queued_run_def select_only_def fetch_selected_def intro!: follows_rules split: option.splits)

lemma follows_claim_sweep [follows_rules]:
  assumes "env_ok env" "lasting K"
  shows "follows K (claim_sweep_runs env runs is)" "follows K (queue_sweep_runs env runs claimed)"
proof -
  show "follows K (claim_sweep_runs env runs is)"
    by (induction runs arbitrary: "is") (use assms in \<open>auto intro!: follows_rules split: option.splits\<close>)
  show "follows K (queue_sweep_runs env runs claimed)"
    by (induction runs arbitrary: claimed) (use assms in \<open>auto intro!: follows_rules split: option.splits\<close>)
qed

lemma follows_executing [follows_rules]:
  assumes "env_ok env" "lasting K" "execute_ok execute"
  shows "follows K (execute_confirmed_run env execute run plan)" "follows K (confirm_run env execute i)"
    "follows K (heal_iteration env execute run plan h)"
  using assms follows_execute [OF assms(3)]
  by (auto simp: execute_confirmed_run_def confirm_run_def heal_iteration_def Let_def
      simp del: rm_ok_apply rm_err_apply intro!: follows_rules split: prod.splits)

lemma follows_execute_claimed [follows_rules]:
  assumes "env_ok env" "lasting K" "execute_ok execute"
  shows "follows K (execute_claimed_runs env execute is outs)"
  by (induction "is" arbitrary: outs) (use assms in \<open>auto simp del: rm_ok_apply rm_err_apply
      intro!: follows_rules split: option.splits\<close>)

lemma follows_execute_queued [follows_rules]:
  assumes "env_ok env" "lasting K" "execute_ok execute" "\<And>run. follows K (heal run)"
  shows "follows K (execute_queued_runs env execute heal j is)"
  by (induction "is") (use assms follows_execute [OF assms(3)] in \<open>auto simp del: rm_ok_apply rm_err_apply
      intro!: follows_rules split: option.splits\<close>)

lemma follows_sweeps [follows_rules]:
  assumes "env_ok env" "lasting K"
  shows "follows K (start_confirmed_sweep env is j)" "follows K (finalize_sweep_outcome env g is j)"
    "execute_ok execute \<Longrightarrow> follows K (confirm_sweep_runs env execute is j)"
    "execute_ok execute \<Longrightarrow> (\<And>run. follows K (heal run)) \<Longrightarrow>
      follows K (execute_started_sweep env execute heal g is j)"
  using assms
  by (auto simp: start_confirmed_sweep_def finalize_sweep_outcome_def confirm_sweep_runs_def
      execute_started_sweep_def Let_def intro!: follows_rules split: prod.splits option.splits)

lemma follows_finish [follows_rules]:
  assumes "env_ok env" "lasting K"
  shows "follows K (finish_run env fuel ctx l)"
  using assms
  by (auto simp: finish_run_def book_costs_def settle_with_def returned_def record_success_def status_texts
      intro!: follows_rules split: prod.splits option.splits)

end
