(* ===== verification/Service_Gate.thy ===== *)
theory Service_Gate
  imports Service_Contract
begin

text \<open>
  What may start without the user: a background task is only spawned for a run whose cost is
  known, finite and within the configured threshold.  \<open>silent m\<close> says that \<open>m\<close> spawns nothing.
\<close>

section \<open>Programs that spawn nothing\<close>

definition silent :: "'a run_m \<Rightarrow> bool" where
  "silent m \<longleftrightarrow> (\<forall>s. sv_spawned (fst (m s)) = sv_spawned s)"

named_theorems silent_rules

lemma silentD: "silent m \<Longrightarrow> m s = (s', r) \<Longrightarrow> sv_spawned s' = sv_spawned s"
  by (auto simp: silent_def dest: spec [of _ s])

lemma silent_bind [silent_rules]:
  assumes "silent m" "\<And>x. silent (f x)"
  shows "silent (rm_bind m f)"
  unfolding silent_def
proof
  fix s
  obtain t q where t: "m s = (t, q)" by fastforce
  with silentD [OF assms(1) t] assms(2) show "sv_spawned (fst (rm_bind m f s)) = sv_spawned s"
    by (cases q) (auto simp: rm_bind_def silent_def)
qed

lemma silent_match [silent_rules]:
  assumes "silent m" "\<And>e. silent (err e)" "\<And>x. silent (ok x)"
  shows "silent (rm_match m err ok)"
  unfolding silent_def
proof
  fix s
  obtain t q where t: "m s = (t, q)" by fastforce
  with silentD [OF assms(1) t] assms(2,3) show "sv_spawned (fst (rm_match m err ok s)) = sv_spawned s"
    by (cases q) (auto simp: rm_match_def silent_def)
qed

lemma others_spawned [simp]: "sv_spawned (others env s) = sv_spawned s"
  by (simp add: others_def)

lemma silent_access [silent_rules]:
  "silent (rm_ok x)" "silent (rm_err e)" "silent (rm_lift q)" "silent (publish ev)" "silent new_interrupt"
  "silent (insert_interrupt i h)" "silent (remove_interrupt i)" "silent (request_interrupt h)"
  "silent (query env qq)" "silent (read env qr)" "silent (query_run env qu)" "silent (is_requested env h)"
  "silent (cancelled env h)" "silent (call env op)"
  by (auto simp: silent_def publish_def new_interrupt_def insert_interrupt_def remove_interrupt_def
      request_interrupt_def query_def read_def query_run_def is_requested_def cancelled_def call_def Let_def
      split: sum.splits)

lemma silent_fold [silent_rules]:
  "(\<And>x. silent (f x)) \<Longrightarrow> silent (rm_each f xs)" "(\<And>x. silent (g x)) \<Longrightarrow> silent (rm_map g ys)"
  "(\<And>x st. silent (h x st)) \<Longrightarrow> silent (rm_fold h zs st)"
proof -
  show "silent (rm_each f xs)" if "\<And>x. silent (f x)" using that by (induction xs) (auto intro!: silent_rules)
  show "silent (rm_map g ys)" if "\<And>x. silent (g x)" using that by (induction ys) (auto intro!: silent_rules)
  show "silent (rm_fold h zs st)" if "\<And>x st. silent (h x st)"
    using that by (induction zs arbitrary: st) (auto intro!: silent_rules)
qed

lemma silent_cases [silent_rules]:
  "(b \<Longrightarrow> silent m) \<Longrightarrow> (\<not> b \<Longrightarrow> silent n) \<Longrightarrow> silent (if b then m else n)"
  "silent e \<Longrightarrow> (\<And>x. silent (f x)) \<Longrightarrow> silent (case_option e f o')"
  "(\<And>x y. silent (g x y)) \<Longrightarrow> silent (case_prod g p)"
  by (auto split: option.splits prod.splits)

lemma silent_parts [silent_rules]:
  "silent (emit env ws i ev data)" "silent (ensure_workspace_not_busy env ws gr x)"
  "silent (ensure_run_steps env i plan)" "silent (frozen_plan env wg i ws)"
  "silent (record_estimate env ws i j provider e)" "silent (ensure_execution_intent env i plan est)"
  "silent (finish_failed env ws i err extra)" "silent (claim_rejection env i)"
  "silent (emit_retry_failure env ws i err)" "silent (claim_run_for_background env i)"
  by (auto simp: emit_def ensure_workspace_not_busy_def ensure_run_steps_def frozen_plan_def record_estimate_def
      ensure_execution_intent_def finish_failed_def Let_def claim_rejection_def emit_retry_failure_def
      claim_run_for_background_def claim_waiting_run_def intro!: silent_rules)

lemma silent_estimates [silent_rules]: "silent (estimate_created_run env ws i plan_steps records h)"
  by (auto simp: estimate_created_run_def estimate_step_def intro!: silent_rules split: prod.splits)

section \<open>Affordable runs\<close>

definition affordable :: "run_env \<Rightarrow> cost_summary \<Rightarrow> bool" where
  "affordable env c \<longleftrightarrow> \<not> cs_unknown c \<and> (\<exists>q. cs_amount c = Fin q \<and> 0 \<le> q \<and>
     (if cs_currency c = ''USD''
      then \<exists>th. run_confirmation_threshold_usd (env_threshold env) = Inr (Fin th) \<and> q \<le> th else q = 0))"

lemma affordable: "run_requires_confirmation (env_threshold env) c = Inr False \<Longrightarrow> affordable env c"
  using unattended_cost unfolding affordable_def by blast

text \<open>The provider requests of a plan, and a total of the estimates they got.\<close>

definition paid_requests :: "string \<Rightarrow> execution_step list \<Rightarrow> provider_request list" where
  "paid_requests run_id steps = List.map_filter (\<lambda>step. case (es_provider step, es_capability step) of
     (Some p, Some c) \<Rightarrow> Some (estimate_request run_id step p c) | _ \<Rightarrow> None) steps"

definition estimated_total :: "run_env \<Rightarrow> string \<Rightarrow> execution_step list \<Rightarrow> cost_summary \<Rightarrow> bool" where
  "estimated_total env run_id steps t \<longleftrightarrow>
     (\<exists>es. map (env_estimate env) (paid_requests run_id steps) = map Inr es \<and> cost_total es = Inr t)"

lemma estimate_step_ok:
  assumes "estimate_step env ws i h (step, rec) t s = (s', Inr t')"
  shows "(paid_requests i [step] = [] \<and> t' = t) \<or>
    (\<exists>rq e. paid_requests i [step] = [rq] \<and> env_estimate env rq = Inr e \<and> cost_add t (cost_from_estimate e) = Inr t')"
  using assms
  by (auto simp: estimate_step_def paid_requests_def map_filter_def rm_simps map_err_def
      split: option.splits if_splits sum.splits)

lemma estimate_fold_ok:
  assumes "rm_fold (estimate_step env ws i h) ps t s = (s', Inr t')"
  shows "\<exists>es. map (env_estimate env) (paid_requests i (map fst ps)) = map Inr es \<and>
    fold_res (\<lambda>e t. cost_add t (cost_from_estimate e)) es t = Inr t'"
  using assms
proof (induction ps arbitrary: t s)
  case Nil
  then show ?case by (simp add: paid_requests_def map_filter_def)
next
  case (Cons p ps)
  obtain step rec where p: "p = (step, rec)" by (cases p)
  obtain u s1 where u: "estimate_step env ws i h (step, rec) t s = (s1, Inr u)"
    "rm_fold (estimate_step env ws i h) ps u s1 = (s', Inr t')"
    using Cons.prems by (auto simp: p rm_simps)
  obtain es where es: "map (env_estimate env) (paid_requests i (map fst ps)) = map Inr es"
    "fold_res (\<lambda>e t. cost_add t (cost_from_estimate e)) es u = Inr t'"
    using Cons.IH [OF u(2)] by blast
  have split: "paid_requests i (map fst (p # ps)) = paid_requests i [step] @ paid_requests i (map fst ps)"
    by (simp add: paid_requests_def map_filter_def p split: option.splits)
  from estimate_step_ok [OF u(1)] show ?case
  proof (elim disjE exE conjE)
    assume "paid_requests i [step] = []" "u = t"
    with es split show ?thesis by auto
  next
    fix rq e assume "paid_requests i [step] = [rq]" "env_estimate env rq = Inr e"
      "cost_add t (cost_from_estimate e) = Inr u"
    with es split show ?thesis by (intro exI [of _ "e # es"]) simp
  qed
qed

lemma estimate_created_run_ok:
  assumes "estimate_created_run env ws i steps records h s = (s', Inr t)" "length steps = length records"
  shows "estimated_total env i steps t"
  using estimate_fold_ok [of env ws i h "zip steps records" cost_zero s s' t] assms
  by (simp add: estimate_created_run_def estimated_total_def cost_total_def)

section \<open>What a program spawns\<close>

text \<open>\<open>spawns P m s\<close>: started in \<open>s\<close>, the program spawns nothing or one task that satisfies \<open>P\<close>.
  The rule for a sequence hands on how its first part ended.\<close>

definition spawns :: "(background_task \<Rightarrow> bool) \<Rightarrow> 'a run_m \<Rightarrow> svc \<Rightarrow> bool" where
  "spawns P m s \<longleftrightarrow> sv_spawned (fst (m s)) = sv_spawned s \<or>
     (\<exists>t. P t \<and> sv_spawned (fst (m s)) = sv_spawned s @ [t])"

lemma spawns_silent: "silent m \<Longrightarrow> spawns P m s"
  by (simp add: spawns_def silent_def)

lemma spawns_bind:
  assumes "silent m" "\<And>t x. m s = (t, Inr x) \<Longrightarrow> spawns P (f x) t"
  shows "spawns P (rm_bind m f) s"
proof -
  obtain t q where t: "m s = (t, q)" by fastforce
  with silentD [OF assms(1) t] assms(2) show ?thesis
    by (cases q) (auto simp: rm_bind_def spawns_def)
qed

lemma spawns_match:
  assumes "silent m" "\<And>e. silent (err e)" "\<And>t x. m s = (t, Inr x) \<Longrightarrow> spawns P (ok x) t"
  shows "spawns P (rm_match m err ok) s"
proof -
  obtain t q where t: "m s = (t, q)" by fastforce
  with silentD [OF assms(1) t] assms(2,3) show ?thesis
    by (cases q) (auto simp: rm_match_def spawns_def silent_def)
qed

lemma spawns_task_then:
  "P t \<Longrightarrow> (\<And>x. silent (f x)) \<Longrightarrow> spawns P (rm_bind (spawn_task t) f) s"
  by (auto simp: spawns_def spawn_task_def rm_bind_def silent_def)

text \<open>A part that may spawn, followed by one that does not.\<close>

lemma spawns_then_silent:
  assumes "spawns P m s" "\<And>x. silent (f x)"
  shows "spawns P (rm_bind m f) s" "(\<And>e. silent (err e)) \<Longrightarrow> spawns P (rm_match m err f) s"
proof -
  obtain t q where t: "m s = (t, q)" by fastforce
  with assms show "spawns P (rm_bind m f) s" "(\<And>e. silent (err e)) \<Longrightarrow> spawns P (rm_match m err f) s"
    by (cases q; force simp: rm_bind_def rm_match_def spawns_def silent_def)+
qed

lemma spawns_if:
  "(b \<Longrightarrow> spawns P m s) \<Longrightarrow> (\<not> b \<Longrightarrow> spawns P n s) \<Longrightarrow> spawns P (if b then m else n) s"
  by simp

lemma spawnsD:
  "spawns P m s \<Longrightarrow> m s = (s', r) \<Longrightarrow> sv_spawned s' \<noteq> sv_spawned s \<Longrightarrow>
    \<exists>t. P t \<and> sv_spawned s' = sv_spawned s @ [t]"
  by (auto simp: spawns_def)

text \<open>The same with the invariant of the store carried along.\<close>

lemma spawns_bind_ok:
  assumes "db_ok (sv_db s)" "silent m" "follows (\<lambda>_. True) m"
    "\<And>t x. m s = (t, Inr x) \<Longrightarrow> db_ok (sv_db t) \<Longrightarrow> spawns P (f x) t"
  shows "spawns P (rm_bind m f) s"
  using assms(2)
proof (rule spawns_bind)
  fix t x assume "m s = (t, Inr x)"
  with follows_seq [OF lasting_True assms(3) this assms(1)] assms(4) show "spawns P (f x) t" by blast
qed

lemma spawns_match_ok:
  assumes "db_ok (sv_db s)" "silent m" "follows (\<lambda>_. True) m" "\<And>e. silent (err e)"
    "\<And>t x. m s = (t, Inr x) \<Longrightarrow> db_ok (sv_db t) \<Longrightarrow> spawns P (ok x) t"
  shows "spawns P (rm_match m err ok) s"
  using assms(2,4)
proof (rule spawns_match)
  fix t x assume "m s = (t, Inr x)"
  with follows_seq [OF lasting_True assms(3) this assms(1)] assms(5) show "spawns P (ok x) t" by blast
qed

section \<open>Created runs\<close>

lemma call_Inr: "call env op s = (t, Inr x) \<longleftrightarrow> (\<exists>d. op (env_new_id env (sv_tick s)) (env_now env (sv_tick s))
    (sv_db (others env s)) = Inr (d, x) \<and> t = (others env s)\<lparr>sv_db := d\<rparr>)"
  by (auto simp: call_def Let_def split: sum.splits)

lemma create_run_Inr:
  "create_run i now nr d = Inr (d', r) \<Longrightarrow> rr_id r = i \<and> db_steps d' = db_steps d"
  using fetch_one_Inr
  by (fastforce simp: create_run_def Let_def insert_run_def store_run_def sql_simps split: if_splits option.splits)

lemma force_rerun_Inr: "set_run_force_rerun i b d = Inr (d', r) \<Longrightarrow> rr_id r = i \<and> db_steps d' = db_steps d"
  using fetch_one_Inr by (fastforce simp: set_run_force_rerun_def store_run_def sql_simps)

lemma estimate_Inr:
  assumes "update_run_estimate_and_status i est st d = Inr (d', r)" "db_ok d"
  shows "rr_id r = i \<and> rr_estimate_json r = est \<and> rr_status r = st"
proof -
  define f :: "run_record \<Rightarrow> run_record" where "f = (\<lambda>r. r\<lparr>rr_estimate_json := est, rr_status := st\<rparr>)"
  define P :: "run_record \<Rightarrow> bool" where "P = (\<lambda>r. rr_id r = i \<and> \<not> terminal_status (rr_status r))"
  obtain t n where t: "sql_update (\<lambda>r. run_status_check (rr_status r)) P f (db_runs d) = Inr (t, n)" "n \<noteq> 0"
    "store_run i (d\<lparr>db_runs := t\<rparr>) = Inr r"
    using assms(1) by (auto simp: update_run_estimate_and_status_def f_def P_def returning_Inr result_simps split: if_splits)
  obtain q where q: "q \<in> set (db_runs d)" "P q" "f q \<in> set t" using sql_update_hit [OF t(1,2)] by blast
  have "map rr_id t = map rr_id (db_runs d)"
    using t(1) by (auto simp: sql_update_Inr f_def)
  then have "distinct (map rr_id t)"
    using assms(2) by (simp add: db_ok_def runs_ok_def runs_table.keyed_def)
  moreover have "r \<in> set t" "rr_id r = i" using t(3) fetch_one_Inr by (fastforce simp: store_run_def)+
  moreover have "rr_id (f q) = i" using q(2) by (simp add: f_def P_def)
  ultimately have "r = f q" using q(3) by (auto simp: distinct_map dest: inj_onD)
  then show ?thesis using q(2) by (simp add: f_def P_def)
qed

text \<open>The identifiers a service hands out are new: no step belongs to them, and nobody else adds or
  removes steps of theirs.\<close>

definition private_ids :: "run_env \<Rightarrow> db \<Rightarrow> bool" where
  "private_ids env d \<longleftrightarrow> (\<forall>k. let i = env_new_id env k 0 in run_steps i d = [] \<and>
     (\<forall>n d'. length (run_steps i (env_other env n d')) = length (run_steps i d')))"

lemma private_others: "private_ids env (sv_db s) \<Longrightarrow> private_ids env (sv_db (others env s))"
proof -
  assume p: "private_ids env (sv_db s)"
  have "run_steps (env_new_id env k 0) (env_other env n (sv_db s)) = []" for k n
  proof -
    have "length (run_steps (env_new_id env k 0) (env_other env n (sv_db s))) = length (run_steps (env_new_id env k 0) (sv_db s))"
      using p by (simp add: private_ids_def Let_def)
    moreover have "run_steps (env_new_id env k 0) (sv_db s) = []" using p by (simp add: private_ids_def Let_def)
    ultimately show ?thesis by simp
  qed
  with p show ?thesis by (simp add: private_ids_def others_def Let_def)
qed

lemma private_steps: "private_ids env d \<Longrightarrow> db_steps d' = db_steps d \<Longrightarrow> private_ids env d'"
  by (simp add: private_ids_def run_steps_def)

lemma frozen_plan_Inr: "frozen_plan env gr v p s = (t, Inr plan) \<Longrightarrow> t = others env s"
  by (auto simp: frozen_plan_def rm_simps query_run_def Let_def)

lemma not_busy_Inr: "ensure_workspace_not_busy env ws gr x s = (t, Inr u) \<Longrightarrow> t = others env s"
  by (auto simp: ensure_workspace_not_busy_def rm_simps split: option.splits)

lemma rm_map_length: "rm_map f xs s = (t, Inr ys) \<Longrightarrow> length ys = length xs"
  by (induction xs arbitrary: s t ys) (auto simp: rm_simps)

lemma created_steps_complete:
  assumes "private_ids env (sv_db s)" "ensure_run_steps env (env_new_id env k 0) plan s = (t, Inr steps)"
  shows "length (ep_steps plan) = length steps"
  using assms(2) private_others [OF assms(1)]
  by (auto simp: ensure_run_steps_def rm_simps private_ids_def Let_def dest: rm_map_length)

end
