(* ===== verification/Executor_Loop.thy ===== *)
theory Executor_Loop
  imports Executor
begin

text \<open>
  Invariants of the scheduling loop.  \<open>C\<close> is the set of steps whose success the counters have
  seen; a step waits for the sources outside \<open>C\<close>.  While no step failed and no interrupt was
  noticed (\<open>live\<close>), every step is finished, running, ready or still waiting.
\<close>

abbreviation step_count :: "exec_ctx \<Rightarrow> nat" where
  "step_count ctx \<equiv> length (ep_steps (xc_plan ctx))"

abbreviation sources_of :: "exec_ctx \<Rightarrow> nat \<Rightarrow> nat set" where
  "sources_of ctx \<equiv> upstream_of (xc_plan ctx)"

definition ctx_ok :: "exec_ctx \<Rightarrow> bool" where
  "ctx_ok ctx \<longleftrightarrow> dag_from_plan (xc_plan ctx) = Inr (xc_dag ctx) \<and>
     length (xc_steps ctx) = step_count ctx \<and> 0 < xc_max_parallel ctx"

definition live :: "loop_state \<Rightarrow> bool" where
  "live l \<longleftrightarrow> ls_first_error l = None \<and> \<not> ls_interrupted l"

section \<open>The invariant\<close>

definition found_succeeded :: "exec_ctx \<Rightarrow> nat \<Rightarrow> bool" where
  "found_succeeded ctx i \<longleftrightarrow> rs_state (xc_steps ctx ! i) = run_step_state_as_str StepSucceeded"

definition loop_shape :: "exec_ctx \<Rightarrow> loop_state \<Rightarrow> bool" where
  "loop_shape ctx l \<longleftrightarrow> length (ls_remaining l) = step_count ctx \<and> length (ls_started l) = step_count ctx \<and>
     length (ls_finished l) = step_count ctx \<and> length (ls_skipped l) = step_count ctx \<and>
     set (ls_running l) \<subseteq> {..< step_count ctx} \<and> set (ls_ready l) \<subseteq> {..< step_count ctx} \<and>
     distinct (ls_running l) \<and> length (ls_running l) \<le> xc_max_parallel ctx \<and>
     (\<forall>i\<in>set (ls_running l). ls_started l ! i \<and> \<not> ls_finished l ! i) \<and>
     (\<forall>i < step_count ctx. ls_finished l ! i \<longrightarrow> ls_started l ! i)"

definition loop_counts :: "exec_ctx \<Rightarrow> nat set \<Rightarrow> loop_state \<Rightarrow> bool" where
  "loop_counts ctx C l \<longleftrightarrow> C \<subseteq> {i. i < step_count ctx \<and> ls_finished l ! i} \<and>
     (\<forall>i < step_count ctx. ls_remaining l ! i = card (sources_of ctx i - C)) \<and>
     (\<forall>i\<in>set (ls_ready l). sources_of ctx i \<subseteq> C)"

definition loop_spawns :: "exec_ctx \<Rightarrow> nat set \<Rightarrow> loop_state \<Rightarrow> bool" where
  "loop_spawns ctx C l \<longleftrightarrow> distinct (map fst (ls_spawned l)) \<and>
     (\<forall>i\<in>fst ` set (ls_spawned l). i < step_count ctx \<and> ls_started l ! i \<and> sources_of ctx i \<subseteq> C) \<and>
     (\<forall>k < step_count ctx. found_succeeded ctx k \<longrightarrow> ls_started l ! k \<and> k \<notin> fst ` set (ls_spawned l))"

definition loop_live :: "exec_ctx \<Rightarrow> nat set \<Rightarrow> loop_state \<Rightarrow> bool" where
  "loop_live ctx C l \<longleftrightarrow> (live l \<longrightarrow> (\<forall>i < step_count ctx.
     \<not> ls_skipped l ! i \<and> (ls_started l ! i \<longrightarrow> ls_finished l ! i \<or> i \<in> set (ls_running l)) \<and>
     (ls_finished l ! i \<longrightarrow> i \<in> C) \<and>
     (sources_of ctx i \<subseteq> C \<and> \<not> ls_started l ! i \<longrightarrow> i \<in> set (ls_ready l))))"

definition loop_inv :: "exec_ctx \<Rightarrow> nat set \<Rightarrow> loop_state \<Rightarrow> bool" where
  "loop_inv ctx C l \<longleftrightarrow> loop_shape ctx l \<and> loop_counts ctx C l \<and> loop_spawns ctx C l \<and> loop_live ctx C l"

lemmas loop_defs = loop_shape_def loop_counts_def loop_spawns_def loop_live_def

section \<open>Spawning\<close>

lemma spawn_ready_inv:
  assumes "spawn_ready ctx rs l = Inr l'" "loop_inv ctx C (l\<lparr>ls_ready := rs\<rparr>)" "live l"
  shows "loop_inv ctx C l' \<and> live l' \<and> (ls_ready l' = [] \<or> xc_max_parallel ctx \<le> length (ls_running l'))"
  using assms
proof (induction ctx rs l rule: spawn_ready.induct)
  case (1 ctx l)
  then show ?case by (auto simp: live_def)
next
  case (2 ctx i rs l)
  let ?full = "\<not> length (ls_running l) < xc_max_parallel ctx"
  let ?stale = "ls_started l ! i \<or> ls_skipped l ! i"
  consider "?full" | "\<not> ?full" "?stale" | "\<not> ?full" "\<not> ?stale" by blast
  then show ?case
  proof cases
    case 1
    with 2(3,4,5) show ?thesis by (auto simp: live_def)
  next
    case c: 2
    then have "spawn_ready ctx rs l = Inr l'" using 2(3) by simp
    moreover have "loop_inv ctx C (l\<lparr>ls_ready := rs\<rparr>)"
      using 2(4,5) c(2) by (auto simp: loop_inv_def loop_defs live_def)
    ultimately show ?thesis using 2(1) [OF _ c(2) _ _ 2(5)] c(1) by blast
  next
    case c: 3
    then obtain inputs where inputs: "resolve_inputs (es_inputs (ep_steps (xc_plan ctx) ! i)) (ls_outputs l) = Inr inputs"
      and rest: "spawn_ready ctx rs (l\<lparr>ls_started := (ls_started l)[i := True],
          ls_running := ls_running l @ [i], ls_spawned := ls_spawned l @ [(i, inputs)]\<rparr>) = Inr l'"
      using 2(3) by (auto simp: res_bind_Inr)
    let ?m = "l\<lparr>ls_started := (ls_started l)[i := True],
          ls_running := ls_running l @ [i], ls_spawned := ls_spawned l @ [(i, inputs)]\<rparr>"
    have i: "i < step_count ctx" "i \<notin> set (ls_running l)" "i \<notin> fst ` set (ls_spawned l)"
      "sources_of ctx i \<subseteq> C" "\<not> ls_finished l ! i"
      using 2(4,5) c(2) by (auto simp: loop_inv_def loop_defs live_def)
    have "loop_shape ctx (?m\<lparr>ls_ready := rs\<rparr>)" "loop_counts ctx C (?m\<lparr>ls_ready := rs\<rparr>)"
      "loop_spawns ctx C (?m\<lparr>ls_ready := rs\<rparr>)" "loop_live ctx C (?m\<lparr>ls_ready := rs\<rparr>)"
      using 2(4,5) c i
      by (auto simp: loop_inv_def loop_defs live_def nth_list_update)
    then have "loop_inv ctx C (?m\<lparr>ls_ready := rs\<rparr>)" by (simp add: loop_inv_def)
    moreover have "live ?m" using 2(5) by (simp add: live_def)
    ultimately show ?thesis using 2(2) [OF _ c(2) rest] c(1) by simp
  qed
qed

section \<open>Skipping\<close>

lemma skip_index_frame:
  assumes "skip_index env ctx w i l s = (s', Inr l')"
  shows "\<exists>sk. l' = l\<lparr>ls_skipped := sk\<rparr> \<and> length sk = length (ls_skipped l)"
proof (cases "w l i \<and> \<not> ls_skipped l ! i")
  case True
  with assms show ?thesis by (fastforce simp: skip_index_def rm_simps)
next
  case False
  with assms have "l' = l\<lparr>ls_skipped := ls_skipped l\<rparr>" by (auto simp: skip_index_def)
  then show ?thesis by blast
qed

lemma skip_fold_frame:
  "rm_fold (skip_index env ctx w) is l s = (s', Inr l') \<Longrightarrow>
     \<exists>sk. l' = l\<lparr>ls_skipped := sk\<rparr> \<and> length sk = length (ls_skipped l)"
proof (induction "is" arbitrary: l s)
  case Nil
  then have "l' = l\<lparr>ls_skipped := ls_skipped l\<rparr>" by simp
  then show ?case by blast
next
  case (Cons i "is")
  then obtain t m where m: "skip_index env ctx w i l s = (t, Inr m)"
    "rm_fold (skip_index env ctx w) is m t = (s', Inr l')" by (auto simp: rm_simps)
  obtain sk where "m = l\<lparr>ls_skipped := sk\<rparr>" "length sk = length (ls_skipped l)"
    using skip_index_frame [OF m(1)] by blast
  with Cons.IH [OF m(2)] show ?case by auto
qed

lemma skipped_inv:
  "loop_inv ctx C l \<Longrightarrow> \<not> live l \<Longrightarrow> length sk = length (ls_skipped l) \<Longrightarrow> loop_inv ctx C (l\<lparr>ls_skipped := sk\<rparr>)"
  by (auto simp: loop_inv_def loop_defs live_def)

text \<open>What is left to do: the tasks to start, and the tasks to join.\<close>

definition unstarted :: "exec_ctx \<Rightarrow> loop_state \<Rightarrow> nat" where
  "unstarted ctx l = card {i. i < step_count ctx \<and> \<not> ls_started l ! i}"

definition work_left :: "exec_ctx \<Rightarrow> loop_state \<Rightarrow> nat" where
  "work_left ctx l = 2 * unstarted ctx l + length (ls_running l)"

lemma unstarted_cong [simp]:
  "unstarted ctx (l\<lparr>ls_skipped := sk\<rparr>) = unstarted ctx l" "unstarted ctx (l\<lparr>ls_ready := rs\<rparr>) = unstarted ctx l"
  "unstarted ctx (l\<lparr>ls_running := js\<rparr>) = unstarted ctx l" "unstarted ctx (l\<lparr>ls_spawned := sp\<rparr>) = unstarted ctx l"
  "unstarted ctx (l\<lparr>ls_interrupted := b\<rparr>) = unstarted ctx l"
  by (simp_all add: unstarted_def)

lemma unstarted_start:
  assumes "i < step_count ctx" "\<not> ls_started l ! i" "length (ls_started l) = step_count ctx"
  shows "Suc (unstarted ctx (l\<lparr>ls_started := (ls_started l)[i := True]\<rparr>)) = unstarted ctx l"
proof -
  have "{k. k < step_count ctx \<and> \<not> ls_started l ! k} =
      insert i {k. k < step_count ctx \<and> \<not> (ls_started l)[i := True] ! k}"
    using assms by (auto simp: nth_list_update split: if_splits)
  then show ?thesis using assms by (simp add: unstarted_def)
qed

lemma spawn_ready_work:
  assumes "spawn_ready ctx rs l = Inr l'" "length (ls_started l) = step_count ctx" "set rs \<subseteq> {..< step_count ctx}"
  shows "work_left ctx l' \<le> work_left ctx l"
  using assms
proof (induction ctx rs l rule: spawn_ready.induct)
  case (1 ctx l)
  then show ?case by (auto simp: work_left_def)
next
  case (2 ctx i rs l)
  show ?case
  proof (cases "length (ls_running l) < xc_max_parallel ctx \<and> \<not> (ls_started l ! i \<or> ls_skipped l ! i)")
    case True
    with 2(3) obtain inputs where
      inputs: "resolve_inputs (es_inputs (ep_steps (xc_plan ctx) ! i)) (ls_outputs l) = Inr inputs" and
      rest: "spawn_ready ctx rs (l\<lparr>ls_started := (ls_started l)[i := True],
          ls_running := ls_running l @ [i], ls_spawned := ls_spawned l @ [(i, inputs)]\<rparr>) = Inr l'"
      by (auto simp: res_bind_Inr)
    have "Suc (unstarted ctx (l\<lparr>ls_started := (ls_started l)[i := True]\<rparr>)) = unstarted ctx l"
      using unstarted_start True 2(4,5) by simp
    then show ?thesis using 2(2) [OF _ _ rest] True 2(4,5) by (simp add: work_left_def unstarted_def)
  next
    case False
    then show ?thesis using 2(1,3,4,5) by (auto simp: work_left_def split: if_splits)
  qed
qed

lemma loop_top_ok:
  assumes "loop_top env ctx l s = (s', Inr l')" "loop_inv ctx C l"
  shows "loop_inv ctx C l' \<and> work_left ctx l' \<le> work_left ctx l \<and>
    (live l' \<longrightarrow> ls_ready l' = [] \<or> xc_max_parallel ctx \<le> length (ls_running l'))"
proof -
  let ?m = "note_interrupt (xc_interrupt ctx \<in> set (sv_requested (others env s))) l"
  have m: "loop_inv ctx C ?m" "work_left ctx ?m = work_left ctx l"
    using assms(2) by (auto simp: note_interrupt_def loop_inv_def loop_defs live_def work_left_def)
  show ?thesis
  proof (cases "live ?m")
    case True
    then have sp: "spawn_ready ctx (ls_ready ?m) ?m = Inr l'"
      using assms(1) by (auto simp: loop_top_def rm_bind_def live_def Let_def)
    have "work_left ctx l' \<le> work_left ctx ?m"
      using spawn_ready_work [OF sp] m(1) by (simp add: loop_inv_def loop_shape_def)
    with spawn_ready_inv [OF sp _ True] m show ?thesis by simp
  next
    case False
    then obtain sk where "l' = ?m\<lparr>ls_skipped := sk\<rparr>" "length sk = length (ls_skipped ?m)"
      using assms(1) skip_fold_frame
      by (fastforce simp: loop_top_def rm_bind_def live_def Let_def skip_unstarted_steps_def)
    moreover from this have "work_left ctx l' = work_left ctx ?m" by (simp add: work_left_def)
    moreover have "\<not> live l'" using False calculation(1) by (simp add: live_def)
    ultimately show ?thesis using skipped_inv [OF m(1) False] m(2) by simp
  qed
qed

section \<open>Joining\<close>

lemma fold_release:
  assumes "distinct ds" "set ds \<subseteq> {..< length (ls_remaining l)}"
  shows "\<exists>r. fold release ds l = l\<lparr>ls_remaining := r,
      ls_ready := ls_ready l @ filter (\<lambda>k. ls_remaining l ! k - 1 = 0) ds\<rparr> \<and>
    length r = length (ls_remaining l) \<and>
    (\<forall>k < length (ls_remaining l). r ! k = (if k \<in> set ds then ls_remaining l ! k - 1 else ls_remaining l ! k))"
  using assms
proof (induction ds arbitrary: l)
  case Nil
  show ?case by (intro exI [of _ "ls_remaining l"]) simp
next
  case (Cons i ds)
  define R where "R = (ls_remaining l)[i := ls_remaining l ! i - 1]"
  let ?ready = "\<lambda>k. ls_remaining l ! k - 1 = 0"
  have R: "length R = length (ls_remaining l)"
    "\<forall>k < length (ls_remaining l). R ! k = (if k = i then ls_remaining l ! i - 1 else ls_remaining l ! k)"
    using Cons.prems(2) by (simp_all add: R_def nth_list_update)
  let ?m = "l\<lparr>ls_remaining := R, ls_ready := ls_ready l @ filter ?ready [i]\<rparr>"
  have m: "release i l = ?m" using R(2) Cons.prems(2) by (simp add: release_def Let_def R_def)
  have f: "filter (\<lambda>k. R ! k - 1 = 0) ds = filter ?ready ds"
  proof (rule filter_cong [OF refl])
    fix k assume "k \<in> set ds"
    with Cons.prems R(2) have "R ! k = ls_remaining l ! k" by auto
    then show "(R ! k - 1 = 0) = (ls_remaining l ! k - 1 = 0)" by simp
  qed
  have app: "filter ?ready (i # ds) = filter ?ready [i] @ filter ?ready ds" by simp
  obtain r where r: "fold release ds ?m = l\<lparr>ls_remaining := r,
      ls_ready := ls_ready l @ filter ?ready (i # ds)\<rparr>"
    "length r = length (ls_remaining l)"
    "\<forall>k < length (ls_remaining l). r ! k = (if k \<in> set ds then R ! k - 1 else R ! k)"
    using Cons.IH [of ?m] Cons.prems R(1) f unfolding app by (auto simp del: filter.simps)
  have "r ! k = (if k \<in> set (i # ds) then ls_remaining l ! k - 1 else ls_remaining l ! k)"
    if "k < length (ls_remaining l)" for k
    using r(3) R(2) that Cons.prems(1) by auto
  then show ?case using r(1,2) by (intro exI [of _ r]) (simp add: m)
qed

text \<open>Leaving the set of running tasks.\<close>

definition joined_state :: "nat \<Rightarrow> loop_state \<Rightarrow> loop_state" where
  "joined_state i l = l\<lparr>ls_running := remove1 i (ls_running l), ls_finished := (ls_finished l)[i := True]\<rparr>"

lemma running_not_counted: "loop_inv ctx C l \<Longrightarrow> i \<in> set (ls_running l) \<Longrightarrow> i \<notin> C \<and> i < step_count ctx"
  by (auto simp: loop_inv_def loop_defs)

text \<open>After a failed or interrupted step the run is not live, and only the shape matters.\<close>

lemma stopped_inv:
  assumes "loop_inv ctx C l" "i \<in> set (ls_running l)"
    "fin = ls_finished l \<or> fin = (ls_finished l)[i := True]" "length sk = length (ls_skipped l)"
    "fe \<noteq> None \<or> b"
  shows "loop_inv ctx C (l\<lparr>ls_running := remove1 i (ls_running l), ls_finished := fin, ls_skipped := sk,
    ls_first_error := fe, ls_interrupted := b\<rparr>)"
proof -
  let ?l = "l\<lparr>ls_running := remove1 i (ls_running l), ls_finished := fin, ls_skipped := sk,
    ls_first_error := fe, ls_interrupted := b\<rparr>"
  have shape: "loop_shape ctx l" and counts: "loop_counts ctx C l" and spawns: "loop_spawns ctx C l"
    using assms(1) by (simp_all add: loop_inv_def)
  have "ls_started l ! k" if "k < step_count ctx" "fin ! k" for k
    using that shape assms(2,3) by (cases "k = i") (auto simp: loop_shape_def)
  then have "loop_shape ctx ?l"
    using shape assms(2-4) unfolding loop_shape_def
    by (auto simp: nth_list_update length_remove1 dest: set_remove1_subset [THEN subsetD])
  moreover have "fin ! k" if "k \<in> C" for k
    using that shape counts assms(3) by (cases "k = i") (auto simp: loop_counts_def loop_shape_def)
  then have "loop_counts ctx C ?l"
    using shape counts by (auto simp: loop_counts_def)
  moreover have "loop_spawns ctx C ?l" using spawns by (simp add: loop_spawns_def)
  moreover have "loop_live ctx C ?l" using assms(5) by (auto simp: loop_live_def live_def)
  ultimately show ?thesis by (simp add: loop_inv_def)
qed

lemma succeeded_dead_inv:
  assumes "loop_inv ctx C l" "i \<in> set (ls_running l)" "\<not> live l"
  shows "loop_inv ctx C ((joined_state i l)\<lparr>ls_outputs := m\<rparr>)"
proof -
  have "loop_inv ctx C (l\<lparr>ls_running := remove1 i (ls_running l), ls_finished := (ls_finished l)[i := True],
      ls_skipped := ls_skipped l, ls_first_error := ls_first_error l, ls_interrupted := ls_interrupted l\<rparr>)"
    using assms(3) by (intro stopped_inv [OF assms(1,2)]) (auto simp: live_def)
  then show ?thesis by (simp add: joined_state_def loop_inv_def loop_defs live_def)
qed

lemma succeeded_live_inv:
  assumes ctx: "ctx_ok ctx" and inv: "loop_inv ctx C l" and run: "i \<in> set (ls_running l)" and live: "live l"
  shows "loop_inv ctx (insert i C)
    (fold release (dg_downstream (xc_dag ctx) ! i) ((joined_state i l)\<lparr>ls_outputs := m\<rparr>))"
proof -
  let ?ds = "dg_downstream (xc_dag ctx) ! i"
  have i: "i \<notin> C" "i < step_count ctx" using running_not_counted [OF inv run] by auto
  have ds: "distinct ?ds" "set ?ds = {k. k < step_count ctx \<and> i \<in> sources_of ctx k}"
    using dag_from_plan_ok(4) [OF _ i(2)] ctx by (auto simp: ctx_ok_def)
  let ?l = "(joined_state i l)\<lparr>ls_outputs := m\<rparr>"
  have shape: "loop_shape ctx l" and counts: "loop_counts ctx C l" and spawns: "loop_spawns ctx C l"
    and lv: "loop_live ctx C l" using inv by (simp_all add: loop_inv_def)
  have rem: "ls_remaining ?l = ls_remaining l" "ls_ready ?l = ls_ready l"
    "length (ls_remaining l) = step_count ctx"
    using shape by (simp_all add: joined_state_def loop_shape_def)
  obtain r where r: "fold release ?ds ?l = ?l\<lparr>ls_remaining := r,
      ls_ready := ls_ready l @ filter (\<lambda>k. ls_remaining l ! k - 1 = 0) ?ds\<rparr>" "length r = step_count ctx"
    "\<forall>k < step_count ctx. r ! k = (if k \<in> set ?ds then ls_remaining l ! k - 1 else ls_remaining l ! k)"
    using fold_release [OF ds(1), of ?l] ds(2) unfolding rem by blast
  have card: "card (sources_of ctx k - insert i C) = card (sources_of ctx k - C) - (if k \<in> set ?ds then 1 else 0)"
    if "k < step_count ctx" for k
  proof -
    have "sources_of ctx k - insert i C = (sources_of ctx k - C) - {i}" by auto
    then show ?thesis using that i(1) ds(2) by (simp add: card_Diff_singleton_if)
  qed
  have zero: "sources_of ctx k \<subseteq> insert i C \<longleftrightarrow> card (sources_of ctx k - insert i C) = 0" for k
    by auto
  have rem_k: "r ! k = card (sources_of ctx k - insert i C)" if "k < step_count ctx" for k
    using r(3) counts card [OF that] that by (simp add: loop_counts_def)
  define new where "new = filter (\<lambda>k. ls_remaining l ! k - 1 = 0) ?ds"
  have ready: "k \<in> set new \<longleftrightarrow> k < step_count ctx \<and> i \<in> sources_of ctx k \<and> sources_of ctx k \<subseteq> insert i C" for k
  proof (cases "k < step_count ctx \<and> i \<in> sources_of ctx k")
    case True
    then have k: "k < step_count ctx" "k \<in> set ?ds" using ds(2) by blast+
    then have "ls_remaining l ! k - 1 = r ! k" using r(3) by simp
    then have "k \<in> set new \<longleftrightarrow> card (sources_of ctx k - insert i C) = 0"
      using k(2) rem_k [OF k(1)] by (simp only: new_def set_filter mem_Collect_eq simp_thms)
    with zero [of k] True show ?thesis by metis
  qed (auto simp: new_def ds(2))
  let ?m = "fold release ?ds ?l"
  note r1 = r(1) [folded new_def]
  have "loop_shape ctx ?m"
  proof -
    have "set new \<subseteq> {..< step_count ctx}" using ready by blast
    moreover have "ls_started l ! k" if "k < step_count ctx" "(ls_finished l)[i := True] ! k" for k
      using that shape run by (cases "k = i") (auto simp: loop_shape_def)
    ultimately show ?thesis
      using shape r(2) unfolding r1 by (auto simp: loop_shape_def joined_state_def nth_list_update
          length_remove1 dest: set_remove1_subset [THEN subsetD])
  qed
  moreover have "loop_counts ctx (insert i C) ?m"
  proof -
    have "(ls_finished l)[i := True] ! k" if "k \<in> insert i C" for k
      using that shape counts i by (cases "k = i") (auto simp: loop_counts_def loop_shape_def)
    then show ?thesis
      using counts i ready rem_k unfolding r1 by (auto simp: loop_counts_def joined_state_def)
  qed
  moreover have "loop_spawns ctx (insert i C) ?m"
    using spawns unfolding r1 by (auto simp: loop_spawns_def joined_state_def)
  moreover have "loop_live ctx (insert i C) ?m"
  proof -
    have "k \<in> set (ls_ready l) \<or> k \<in> set new"
      if "k < step_count ctx" "sources_of ctx k \<subseteq> insert i C" "\<not> ls_started l ! k" for k
      using lv live that unfolding ready loop_live_def by auto
    moreover have "ls_finished l ! k \<or> k = i" if "(ls_finished l)[i := True] ! k" for k
      using that by (cases "k = i") auto
    moreover have "(ls_finished l)[i := True] ! k \<or> k \<in> set (remove1 i (ls_running l))"
      if "k < step_count ctx" "ls_started l ! k" for k
      using that lv live shape by (cases "k = i") (auto simp: loop_live_def loop_shape_def in_set_remove1)
    ultimately show ?thesis
      using lv live unfolding r1 by (auto simp: loop_live_def joined_state_def live_def)
  qed
  ultimately show ?thesis by (simp add: loop_inv_def)
qed

text \<open>Every way to join keeps the invariant and lowers the work left.\<close>

definition join_good :: "exec_ctx \<Rightarrow> nat set \<Rightarrow> loop_state \<Rightarrow> loop_state \<Rightarrow> bool" where
  "join_good ctx C l l' \<longleftrightarrow> (\<exists>C'. loop_inv ctx C' l' \<and> work_left ctx l' < work_left ctx l)"

lemma joined_work:
  assumes "i \<in> set (ls_running l)" "ls_started l' = ls_started l" "ls_running l' = remove1 i (ls_running l)"
  shows "work_left ctx l' < work_left ctx l"
proof -
  have "length (remove1 i (ls_running l)) < length (ls_running l)"
    using assms(1) length_pos_if_in_set [OF assms(1)] by (simp add: length_remove1)
  with assms(2,3) show ?thesis by (simp add: work_left_def unstarted_def)
qed

lemma fold_release_frame:
  "ls_started (fold release ds l) = ls_started l \<and> ls_running (fold release ds l) = ls_running l"
  by (induction ds arbitrary: l) (auto simp: release_def Let_def)

lemma join_succeeded_good:
  assumes "ctx_ok ctx" "loop_inv ctx C l" "i \<in> set (ls_running l)"
  shows "join_good ctx C l (join_succeeded ctx i outs (joined_state i l))"
proof -
  define m where "m = add_outputs (es_node_id (ep_steps (xc_plan ctx) ! i)) outs (ls_outputs (joined_state i l))"
  have eq: "join_succeeded ctx i outs (joined_state i l) =
    (if live l then fold release (dg_downstream (xc_dag ctx) ! i) ((joined_state i l)\<lparr>ls_outputs := m\<rparr>)
     else (joined_state i l)\<lparr>ls_outputs := m\<rparr>)"
    by (auto simp: join_succeeded_def Let_def live_def m_def joined_state_def)
  have "work_left ctx (join_succeeded ctx i outs (joined_state i l)) < work_left ctx l"
    by (rule joined_work [OF assms(3)]; unfold eq) (simp_all add: fold_release_frame joined_state_def)
  then show ?thesis
    unfolding join_good_def eq using succeeded_live_inv [OF assms] succeeded_dead_inv [OF assms(2,3)] by auto
qed

lemma stopped_good:
  assumes "loop_inv ctx C l" "i \<in> set (ls_running l)"
    "l' = l\<lparr>ls_running := remove1 i (ls_running l), ls_finished := fin, ls_skipped := sk,
      ls_first_error := fe, ls_interrupted := b\<rparr>"
    "fin = ls_finished l \<or> fin = (ls_finished l)[i := True]" "length sk = length (ls_skipped l)" "fe \<noteq> None \<or> b"
  shows "join_good ctx C l l'"
  unfolding join_good_def using stopped_inv [OF assms(1,2,4-6)] joined_work [OF assms(2), of l'] assms(3) by auto

lemma loop_join_good:
  assumes ctx: "ctx_ok ctx" and inv: "loop_inv ctx C l"
    and join: "loop_join env ctx x l s = (s', Inr l')"
    and run: "(case x of Joined i r \<Rightarrow> i | JoinLost i m \<Rightarrow> i) \<in> set (ls_running l)"
  shows "join_good ctx C l l'"
proof (cases x)
  case x: (Joined i r)
  have i: "i \<in> set (ls_running l)" using run x by simp
  show ?thesis
  proof (cases r)
    case (Inl err)
    then have j: "join_failed env ctx i err (joined_state i l) s = (s', Inr l')"
      using join by (simp add: x loop_join_def Let_def joined_state_def)
    show ?thesis
    proof (cases "ls_first_error l")
      case None
      with j obtain fe where "l' = (joined_state i l)\<lparr>ls_first_error := Some fe\<rparr>"
        by (auto simp: join_failed_def joined_state_def Let_def rm_simps)
      then show ?thesis
        by (intro stopped_good [OF inv i, where fin = "(ls_finished l)[i := True]" and sk = "ls_skipped l" and fe = "Some fe"
            and b = "ls_interrupted l"])
           (simp_all add: joined_state_def)
    next
      case (Some fe)
      with j have "l' = joined_state i l" by (auto simp: join_failed_def joined_state_def)
      then show ?thesis using Some
        by (intro stopped_good [OF inv i, where fin = "(ls_finished l)[i := True]" and sk = "ls_skipped l" and fe = "Some fe"
            and b = "ls_interrupted l"])
           (simp_all add: joined_state_def)
    qed
  next
    case r: (Inr e)
    show ?thesis
    proof (cases e)
      case (ExecutionSucceeded outs)
      then have "l' = join_succeeded ctx i outs (joined_state i l)"
        using join by (simp add: x r loop_join_def Let_def joined_state_def)
      then show ?thesis using join_succeeded_good [OF ctx inv i] by simp
    next
      case ExecutionInterrupted
      then have "l' = (joined_state i l)\<lparr>ls_interrupted := True, ls_skipped := (ls_skipped l)[i := True]\<rparr>"
        using join by (auto simp: x r loop_join_def Let_def joined_state_def join_interrupted_def rm_simps)
      then show ?thesis
        by (intro stopped_good [OF inv i, where fin = "(ls_finished l)[i := True]" and sk = "(ls_skipped l)[i := True]" and fe = "ls_first_error l"
            and b = True]) (simp_all add: joined_state_def)
    qed
  qed
next
  case x: (JoinLost i m)
  have i: "i \<in> set (ls_running l)" using run x by simp
  let ?l = "l\<lparr>ls_running := remove1 i (ls_running l)\<rparr>"
  show ?thesis
  proof (cases "ls_first_error l")
    case None
    with join obtain fe t where "skip_unfinished_steps env ctx (?l\<lparr>ls_first_error := Some fe\<rparr>) t = (s', Inr l')"
      by (auto simp: x loop_join_def join_lost_def Let_def rm_simps)
    then obtain sk where "l' = ?l\<lparr>ls_first_error := Some fe, ls_skipped := sk\<rparr>" "length sk = length (ls_skipped l)"
      unfolding skip_unfinished_steps_def using skip_fold_frame by fastforce
    then show ?thesis
      by (intro stopped_good [OF inv i, where fin = "ls_finished l" and sk = sk and fe = "Some fe"
            and b = "ls_interrupted l"]) simp_all
  next
    case (Some fe)
    with join have "l' = ?l" by (auto simp: x loop_join_def join_lost_def)
    then show ?thesis using Some
      by (intro stopped_good [OF inv i, where fin = "ls_finished l" and sk = "ls_skipped l" and fe = "Some fe"
            and b = "ls_interrupted l"]) simp_all
  qed
qed

end
