(* ===== verification/Executor_Properties.thy ===== *)
theory Executor_Properties
  imports Executor_Loop
begin

text \<open>
  What a run of the scheduling loop promises: it ends, a step is started once and only after the
  steps it reads from, at most \<open>max_parallel_steps\<close> steps run at a time, and a run that ends with
  no error and no interruption has finished every step.
\<close>

section \<open>The start of the loop\<close>

text \<open>The state in which the steps of \<open>D\<close> were found finished.\<close>

definition resumed :: "exec_ctx \<Rightarrow> nat set \<Rightarrow> loop_state \<Rightarrow> bool" where
  "resumed ctx D l \<longleftrightarrow> length (ls_remaining l) = step_count ctx \<and> length (ls_started l) = step_count ctx \<and>
     length (ls_finished l) = step_count ctx \<and> ls_skipped l = replicate (step_count ctx) False \<and>
     (\<forall>k < step_count ctx. (ls_finished l ! k \<longleftrightarrow> k \<in> D) \<and> ls_remaining l ! k = card (sources_of ctx k - D)) \<and>
     (\<forall>k < step_count ctx. k \<in> D \<longrightarrow> ls_started l ! k) \<and> D \<subseteq> {..< step_count ctx} \<and>
     ls_ready l = [] \<and> ls_running l = [] \<and> ls_spawned l = [] \<and> ls_first_error l = None \<and> \<not> ls_interrupted l"

lemma fold_decrement:
  assumes "distinct ds" "set ds \<subseteq> {..< length r}" "k < length (r :: nat list)"
  shows "length (fold (\<lambda>k r. r[k := r ! k - 1]) ds r) = length r \<and>
    fold (\<lambda>k r. r[k := r ! k - 1]) ds r ! k = (if k \<in> set ds then r ! k - 1 else r ! k)"
  using assms
proof (induction ds arbitrary: r)
  case (Cons i ds)
  with Cons.IH [of "r[i := r ! i - 1]"] show ?case by (cases "k = i") auto
qed simp

lemma resume_finished_step:
  assumes ctx: "ctx_ok ctx" and i: "i < step_count ctx" "i \<notin> D" and res: "resumed ctx D l"
  shows "resumed ctx (D \<union> {j. j = i \<and> found_succeeded ctx j}) (resume_finished ctx i l)"
proof (cases "found_succeeded ctx i")
  case True
  let ?ds = "dg_downstream (xc_dag ctx) ! i"
  let ?r = "fold (\<lambda>k r. r[k := r ! k - 1]) ?ds (ls_remaining l)"
  have ds: "distinct ?ds" "set ?ds = {k. k < step_count ctx \<and> i \<in> sources_of ctx k}"
    using dag_from_plan_ok(4) [OF _ i(1)] ctx by (auto simp: ctx_ok_def)
  have len: "length (ls_remaining l) = step_count ctx" using res by (simp add: resumed_def)
  have sub: "set ?ds \<subseteq> {..< length (ls_remaining l)}" unfolding ds(2) len by auto
  have r: "length ?r = step_count ctx" "?r ! k = card (sources_of ctx k - insert i D)"
    if "k < step_count ctx" for k
  proof -
    have f: "length ?r = length (ls_remaining l) \<and>
        ?r ! k = (if k \<in> set ?ds then ls_remaining l ! k - 1 else ls_remaining l ! k)"
      using that len by (intro fold_decrement [OF ds(1) sub]) simp
    have "sources_of ctx k - insert i D = (sources_of ctx k - D) - {i}" by auto
    moreover have "ls_remaining l ! k = card (sources_of ctx k - D)" using res that by (simp add: resumed_def)
    ultimately show "length ?r = step_count ctx" "?r ! k = card (sources_of ctx k - insert i D)"
      using f that i(2) ds(2) len by (simp_all add: card_Diff_singleton_if)
  qed
  have "resume_finished ctx i l = l\<lparr>ls_started := (ls_started l)[i := True],
      ls_finished := (ls_finished l)[i := True], ls_remaining := ?r\<rparr>"
    using True by (simp add: resume_finished_def found_succeeded_def)
  moreover have "D \<union> {j. j = i \<and> found_succeeded ctx j} = insert i D" using True by auto
  ultimately show ?thesis
    using res r i(1) by (auto simp: resumed_def nth_list_update)
next
  case False
  then have "D \<union> {j. j = i \<and> found_succeeded ctx j} = D" by auto
  with False res show ?thesis by (simp add: resume_finished_def found_succeeded_def)
qed

lemma resume_finished_fold:
  assumes "ctx_ok ctx" "distinct is" "set is \<subseteq> {..< step_count ctx}" "set is \<inter> D = {}" "resumed ctx D l"
  shows "resumed ctx (D \<union> {j \<in> set is. found_succeeded ctx j}) (fold (resume_finished ctx) is l)"
  using assms(2-5)
proof (induction "is" arbitrary: D l)
  case (Cons i "is")
  have "resumed ctx (D \<union> {j. j = i \<and> found_succeeded ctx j}) (resume_finished ctx i l)"
    using resume_finished_step [OF assms(1)] Cons.prems by simp
  moreover have "set is \<inter> (D \<union> {j. j = i \<and> found_succeeded ctx j}) = {}" using Cons.prems(1,3) by auto
  moreover have "D \<union> {j. j = i \<and> found_succeeded ctx j} \<union> {j \<in> set is. found_succeeded ctx j} =
      D \<union> {j \<in> set (i # is). found_succeeded ctx j}" by auto
  ultimately show ?case using Cons.IH [of "D \<union> {j. j = i \<and> found_succeeded ctx j}" "resume_finished ctx i l"]
      Cons.prems(1,2) by simp
qed simp

lemma resume_finished_started:
  "ls_started (fold (resume_finished ctx) is l) ! k \<Longrightarrow> length (ls_started l) = n \<Longrightarrow> k < n \<Longrightarrow>
     ls_started l ! k \<or> (k \<in> set is \<and> found_succeeded ctx k)"
proof (induction "is" arbitrary: l)
  case (Cons i "is")
  have "ls_started (resume_finished ctx i l) ! k \<or> k \<in> set is \<and> found_succeeded ctx k"
    using Cons.IH [of "resume_finished ctx i l"] Cons.prems by (auto simp: resume_finished_def)
  then show ?case
    by (cases "k = i") (auto simp: resume_finished_def found_succeeded_def split: if_splits)
qed simp

lemma find_index_Some: "find_index P xs = Some i \<Longrightarrow> i < length xs \<and> P (xs ! i)"
  by (auto simp: find_index_def find_Some_iff)

text \<open>The outputs found in the store mark their steps as started.\<close>

lemma resume_output_fold:
  assumes "rm_fold (resume_output env steps) xs l s = (s', Inr l')"
  shows "\<exists>m st. l' = l\<lparr>ls_outputs := m, ls_started := st\<rparr> \<and> length st = length (ls_started l) \<and>
    (\<forall>k < length (ls_started l). st ! k \<longrightarrow> ls_started l ! k \<or>
      (k < length steps \<and> (\<exists>x\<in>set xs. rs_id (steps ! k) = so_run_step_id x)))"
  using assms
proof (induction xs arbitrary: l s)
  case Nil
  then show ?case by (auto intro!: exI [of _ "ls_outputs l"] exI [of _ "ls_started l"])
next
  case (Cons x xs)
  then obtain t m where m: "resume_output env steps x l s = (t, Inr m)"
    "rm_fold (resume_output env steps) xs m t = (s', Inr l')" by (auto simp: rm_simps)
  have step: "\<exists>o' st. m = l\<lparr>ls_outputs := o', ls_started := st\<rparr> \<and> length st = length (ls_started l) \<and>
    (\<forall>k < length (ls_started l). st ! k \<longrightarrow> ls_started l ! k \<or>
      (k < length steps \<and> rs_id (steps ! k) = so_run_step_id x))"
  proof (cases "find_index (\<lambda>s. rs_id s = so_run_step_id x) steps")
    case None
    with m(1) show ?thesis
      by (auto simp: resume_output_def intro!: exI [of _ "ls_outputs l"] exI [of _ "ls_started l"])
  next
    case (Some i)
    with m(1) obtain a where "m = l\<lparr>ls_outputs := a, ls_started := (ls_started l)[i := True]\<rparr>"
      by (auto simp: resume_output_def rm_simps query_def map_err_def split: sum.splits)
    moreover have "ls_started l ! k \<or> k = i" if "(ls_started l)[i := True] ! k" for k
      using that by (cases "k = i") auto
    ultimately show ?thesis using find_index_Some [OF Some]
      by (intro exI [of _ a] exI [of _ "(ls_started l)[i := True]"]) auto
  qed
  then obtain o' st where st: "m = l\<lparr>ls_outputs := o', ls_started := st\<rparr>"
    "length st = length (ls_started l)"
    "\<forall>k < length (ls_started l). st ! k \<longrightarrow> ls_started l ! k \<or>
      (k < length steps \<and> rs_id (steps ! k) = so_run_step_id x)" by blast
  obtain o2 st2 where st2: "l' = m\<lparr>ls_outputs := o2, ls_started := st2\<rparr>"
    "length st2 = length (ls_started m)"
    "\<forall>k < length (ls_started m). st2 ! k \<longrightarrow> ls_started m ! k \<or>
      (k < length steps \<and> (\<exists>x\<in>set xs. rs_id (steps ! k) = so_run_step_id x))"
    using Cons.IH [OF m(2)] by blast
  show ?case
  proof (intro conjI exI [of _ o2] exI [of _ st2] allI impI)
    show "l' = l\<lparr>ls_outputs := o2, ls_started := st2\<rparr>" "length st2 = length (ls_started l)"
      using st(1,2) st2(1,2) by simp_all
    fix k assume "k < length (ls_started l)" "st2 ! k"
    with st2(3) st(1,2) have "st ! k \<or> (k < length steps \<and> (\<exists>x\<in>set xs. rs_id (steps ! k) = so_run_step_id x))"
      by simp
    with st(3) \<open>k < length (ls_started l)\<close>
    show "ls_started l ! k \<or> (k < length steps \<and> (\<exists>x\<in>set (x # xs). rs_id (steps ! k) = so_run_step_id x))"
      by auto
  qed
qed

text \<open>The loop starts in the service state \<open>s\<close>, after the outputs of earlier attempts were read from
  a database in which the steps of the run are those read before.\<close>

definition loop_starts :: "run_env \<Rightarrow> exec_ctx \<Rightarrow> svc \<Rightarrow> loop_state \<Rightarrow> bool" where
  "loop_starts env ctx s l \<longleftrightarrow> ctx_ok ctx \<and> (\<exists>s0. initial_loop env ctx s0 = (s, Inr l) \<and>
     store_step\<^sup>*\<^sup>* initial_db (sv_db (others env s0)) \<and>
     xc_steps ctx = run_steps (xc_run_id ctx) (sv_db (others env s0)))"

lemma output_found_succeeded:
  assumes "db_ok db" "xc_steps ctx = run_steps run_id db" "x \<in> set (run_step_outputs r db)"
    "k < length (xc_steps ctx)" "rs_id (xc_steps ctx ! k) = so_run_step_id x"
  shows "found_succeeded ctx k"
proof -
  have "x \<in> set (db_outputs db)" using assms(3) by (auto simp: run_step_outputs_def)
  then obtain st where st: "st \<in> set (db_steps db)" "rs_id st = so_run_step_id x" "rs_state st = ''succeeded''"
    using assms(1) by (auto simp: db_ok_def output_settled_def)
  have "xc_steps ctx ! k \<in> set (db_steps db)"
    using nth_mem [OF assms(4)] assms(2) by (auto simp: run_steps_def)
  then have "xc_steps ctx ! k = st"
    using db_okD(1) [OF assms(1)] st(1,2) assms(5)
    by (intro steps_table.keyed_unique [of "db_steps db"]) (simp_all add: steps.table_ok_def)
  with st(3) show ?thesis by (simp add: found_succeeded_def)
qed

lemma loop_starts_inv:
  assumes "loop_starts env ctx s l"
  shows "loop_inv ctx {j. j < step_count ctx \<and> found_succeeded ctx j} l \<and> ls_running l = [] \<and> ls_spawned l = []"
proof -
  obtain s0 where ctx: "ctx_ok ctx" and start: "initial_loop env ctx s0 = (s, Inr l)"
    and reach: "store_step\<^sup>*\<^sup>* initial_db (sv_db (others env s0))"
    and steps: "xc_steps ctx = run_steps (xc_run_id ctx) (sv_db (others env s0))"
    using assms by (auto simp: loop_starts_def)
  note ok = reachable_ok [OF reach]
  have n: "length (xc_steps ctx) = step_count ctx" using ctx by (simp add: ctx_ok_def)
  obtain l0 where l0: "rm_fold (resume_output env (xc_steps ctx))
      (run_step_outputs (xc_run_id ctx) (sv_db (others env s0))) (empty_loop ctx) (others env s0) = (s, Inr l0)"
    and l: "l = (let l = fold (resume_finished ctx) [0..< step_count ctx] l0 in l\<lparr>ls_ready := initial_ready l\<rparr>)"
    using start by (auto simp: initial_loop_def rm_simps Let_def n)
  let ?m = "fold (resume_finished ctx) [0..< step_count ctx] l0"
  let ?D = "{j. j < step_count ctx \<and> found_succeeded ctx j}"
  have started0: "found_succeeded ctx k" if "k < step_count ctx" "ls_started l0 ! k" for k
    using resume_output_fold [OF l0] that output_found_succeeded [OF ok steps]
    by (auto simp: empty_loop_def Let_def n)
  have "resumed ctx {} l0"
    using resume_output_fold [OF l0] dag_from_plan_ok [of "xc_plan ctx" "xc_dag ctx"] ctx
    by (auto simp: resumed_def empty_loop_def Let_def ctx_ok_def)
  then have m: "resumed ctx ?D ?m"
    using resume_finished_fold [OF ctx, of "[0..< step_count ctx]" "{}" l0] by (simp add: conj_commute atLeast0LessThan)
  have started: "k \<in> ?D" if "k < step_count ctx" "ls_started ?m ! k" for k
    using resume_finished_started [OF that(2) _ that(1)] started0 that(1) \<open>resumed ctx {} l0\<close>
    by (auto simp: resumed_def)
  have ready: "set (initial_ready ?m) = {k. k < step_count ctx \<and> sources_of ctx k \<subseteq> ?D \<and> \<not> ls_finished ?m ! k}"
    using m by (auto simp: initial_ready_def resumed_def)
  have "loop_shape ctx l" using m ready unfolding l by (auto simp: loop_shape_def resumed_def Let_def)
  moreover have "loop_counts ctx ?D l"
    using m ready unfolding l by (auto simp: loop_counts_def resumed_def Let_def)
  moreover have "loop_spawns ctx ?D l" using m unfolding l by (auto simp: loop_spawns_def resumed_def Let_def)
  moreover have "loop_live ctx ?D l"
    using m ready started unfolding l by (auto simp: loop_live_def resumed_def Let_def)
  ultimately show ?thesis using m unfolding l by (auto simp: loop_inv_def resumed_def Let_def)
qed

section \<open>The loop as a ranked system\<close>

definition exec_inv :: "exec_ctx \<Rightarrow> exec_state \<Rightarrow> bool" where
  "exec_inv ctx e \<longleftrightarrow> ctx_ok ctx \<and> (case e of
     AtTop l s \<Rightarrow> \<exists>C. loop_inv ctx C l
   | Waiting l s \<Rightarrow> (\<exists>C. loop_inv ctx C l) \<and> ls_running l \<noteq> []
   | Ended l s \<Rightarrow> (\<exists>C. loop_inv ctx C l) \<and> (all_settled l \<or> ls_running l = []) \<and>
       (live l \<longrightarrow> ls_ready l = [] \<or> ls_running l \<noteq> [])
   | Aborted err s \<Rightarrow> True)"

definition exec_rank :: "exec_ctx \<Rightarrow> exec_state \<Rightarrow> nat" where
  "exec_rank ctx e = (case e of AtTop l s \<Rightarrow> 2 * work_left ctx l + 2 | Waiting l s \<Rightarrow> 2 * work_left ctx l + 1
     | _ \<Rightarrow> 0)"

inductive_cases exec_step_cases [elim]:
  "exec_step env ctx (AtTop l s) e" "exec_step env ctx (Waiting l s) e"

inductive_simps exec_step_simps [simp]:
  "exec_step env ctx (Ended l s) e" "exec_step env ctx (Aborted err s) e"

lemma exec_step_ok:
  assumes "exec_inv ctx e" "exec_step env ctx e e'"
  shows "exec_inv ctx e' \<and> exec_rank ctx e' < exec_rank ctx e"
  using assms(2,1)
proof (cases rule: exec_step.cases)
  case (top_error s t l s' err)
  then show ?thesis using assms(1) by (simp add: exec_inv_def exec_rank_def)
next
  case (top_done s t l s' l')
  then obtain C where "loop_inv ctx C l" using assms(1) by (auto simp: exec_inv_def)
  from loop_top_ok [OF top_done(4) this] top_done assms(1) show ?thesis
    by (auto simp: exec_inv_def exec_rank_def ctx_ok_def)
next
  case (top_wait s t l s' l')
  then obtain C where "loop_inv ctx C l" using assms(1) by (auto simp: exec_inv_def)
  from loop_top_ok [OF top_wait(4) this] top_wait assms(1) show ?thesis
    by (auto simp: exec_inv_def exec_rank_def)
next
  case (join s t i l r s' l')
  then obtain C where "loop_inv ctx C l" "ctx_ok ctx" using assms(1) by (auto simp: exec_inv_def)
  from loop_join_good [OF this(2,1) join(5)] join assms(1) show ?thesis
    by (auto simp: exec_inv_def exec_rank_def join_good_def)
next
  case (join_error s t i l r s' err)
  then show ?thesis using assms(1) by (simp add: exec_inv_def exec_rank_def)
next
  case (lost s t i l m s' l')
  then obtain C where "loop_inv ctx C l" "ctx_ok ctx" using assms(1) by (auto simp: exec_inv_def)
  from loop_join_good [OF this(2,1) lost(5)] lost assms(1) show ?thesis
    by (auto simp: exec_inv_def exec_rank_def join_good_def)
next
  case (lost_error s t i l m s' err)
  then show ?thesis using assms(1) by (simp add: exec_inv_def exec_rank_def)
qed

interpretation executor: ranked_system "exec_step env ctx" "exec_inv ctx" "exec_rank ctx" for env ctx
  by unfold_locales (use exec_step_ok in blast)+

section \<open>Runs\<close>

lemma exec_inv_start: "loop_starts env ctx s l \<Longrightarrow> exec_inv ctx (AtTop l s)"
  using loop_starts_inv [of env ctx s l] by (auto simp: exec_inv_def loop_starts_def)

lemma unstarted_bound: "unstarted ctx l \<le> step_count ctx"
  using card_mono [of "{..< step_count ctx}" "{i. i < step_count ctx \<and> \<not> ls_started l ! i}"]
  by (auto simp: unstarted_def)

lemma exec_progress:
  assumes "exec_inv ctx e"
  shows "(\<exists>l s. e = Ended l s) \<or> (\<exists>err s. e = Aborted err s) \<or> (\<exists>e'. exec_step env ctx e e')"
proof (cases e)
  case (AtTop l s)
  obtain s' r where r: "loop_top env ctx l s = (s', r)" by fastforce
  have "svc_change s s" by (simp add: svc_change_def)
  with r have "\<exists>e'. exec_step env ctx e e'"
    unfolding AtTop by (cases r) (blast intro: exec_step.intros)+
  then show ?thesis by blast
next
  case (Waiting l s)
  with assms have "ls_running l \<noteq> []" by (simp add: exec_inv_def)
  then obtain i where i: "i \<in> set (ls_running l)" by (cases "ls_running l") auto
  obtain s' r where r: "loop_join env ctx (JoinLost i '''') l s = (s', r)" by fastforce
  have "svc_change s s" by (simp add: svc_change_def)
  with r i have "\<exists>e'. exec_step env ctx e e'"
    unfolding Waiting by (cases r) (blast intro: exec_step.intros)+
  then show ?thesis by blast
qed auto

text \<open>The sources of a step of a compiled plan are earlier steps; attaching resolved bindings
  changes neither the nodes nor the inputs.\<close>

lemma fold_push_entry_wf: "bt_wf m \<Longrightarrow> bt_wf (fold (\<lambda>e. push_entry (k e) (v e)) es m)"
  by (induction es arbitrary: m) (simp_all add: push_entry_def)

lemma step_inputs_wf: "bt_wf (step_inputs g i)"
  by (simp add: step_inputs_def fold_push_entry_wf)

lemma compile_plan_inputs_wf:
  "compile_plan reg g version provider = Inr p \<Longrightarrow> s \<in> set (ep_steps p) \<Longrightarrow> bt_wf (es_inputs s)"
  using compile_plan_steps(3) [of reg g version provider p] step_inputs_wf
  by (auto simp: list_all2_map1 list_all2_same elim!: is_plan_step_fields)

lemma compiled_upstream:
  assumes "bt_wf (wg_nodes g)" "compile_plan reg g version provider = Inr p"
    "map es_node_id (ep_steps plan) = map es_node_id (ep_steps p)"
    "map es_inputs (ep_steps plan) = map es_inputs (ep_steps p)" "i < length (ep_steps plan)"
  shows "upstream_of plan i \<subseteq> {..<i}"
proof
  fix j assume "j \<in> upstream_of plan i"
  then obtain src where src: "src \<in> set (step_sources (ep_steps plan ! i))"
    "bt_get (by_node (ep_steps plan)) (fst src) = Some j" by (auto simp: upstream_of_def)
  from by_node_index [OF src(2)] have j: "j < length (ep_steps plan)" "es_node_id (ep_steps plan ! j) = fst src"
    by auto
  have len: "length (ep_steps plan) = length (ep_steps p)" using assms(3) by (metis length_map)
  have eq: "es_inputs (ep_steps plan ! i) = es_inputs (ep_steps p ! i)"
    "\<And>k. k < length (ep_steps p) \<Longrightarrow> es_node_id (ep_steps plan ! k) = es_node_id (ep_steps p ! k)"
    using assms(3-5) len by (metis nth_map)+
  note ordered = compiled_steps_ordered [OF assms(1,2)]
  obtain port sources where ps: "(port, sources) \<in> set (es_inputs (ep_steps p ! i))" "src \<in> set sources"
    using src(1) eq(1) by (auto simp: step_sources_def)
  have "bt_wf (es_inputs (ep_steps p ! i))"
    using compile_plan_inputs_wf [OF assms(2)] assms(5) len by simp
  then have "bt_get (es_inputs (ep_steps p ! i)) port = Some sources" using ps(1) by (simp add: bt_wf_distinct)
  moreover have "ep_steps p = take i (ep_steps p) @ ep_steps p ! i # drop (Suc i) (ep_steps p)"
    using assms(5) len by (simp add: id_take_nth_drop)
  ultimately have "fst src \<in> set (map es_node_id (take i (ep_steps p)))"
    using ordered ps(2) by blast
  then obtain k where k: "k < i" "fst src = es_node_id (ep_steps p ! k)"
    using assms(5) len by (auto simp: in_set_conv_nth)
  have "map es_node_id (ep_steps p) ! j = map es_node_id (ep_steps p) ! k"
    using j k eq(2) len assms(5) by simp
  then have "j = k" using ordered j(1) k(1) len assms(5) by (subst (asm) nth_eq_iff_index_eq) auto
  with k(1) show "j \<in> {..<i}" by simp
qed

section \<open>A run of two steps\<close>

text \<open>The plan of a graph of two nodes: the second step reads the output of the first.\<close>

definition demo_step ::
  "string \<Rightarrow> string \<Rightarrow> (string, (string \<times> string) list) btree_map \<Rightarrow> execution_step" where
  "demo_step i t inputs = \<lparr>es_node_id = i, es_node_type = t, es_provider = Some ''mock'', es_capability = Some t,
     es_inputs = inputs, es_params = JObject [], es_resolved = None\<rparr>"

definition demo_plan :: execution_plan where
  "demo_plan = \<lparr>ep_schema_version = 1, ep_version_id = ''v'', ep_catalog_revision = None,
     ep_steps = [demo_step ''b'' ''image'' [], demo_step ''a'' ''text'' [(''prompt'', [(''b'', ''out'')])]]\<rparr>"

definition demo_env :: run_env where
  "demo_env = \<lparr>env_other = (\<lambda>_ d. d), env_requests = (\<lambda>_. []), env_new_id = (\<lambda>n k. ''i'' @ replicate n CHR ''x'' @ replicate k CHR ''y''), env_now = (\<lambda>_. 0), env_json = (\<lambda>_. ''j''),
     env_plan_text = (\<lambda>_. ''p''), env_plan_parse = (\<lambda>_. Inr demo_plan), env_cost_text = (\<lambda>_. ''c''),
     env_cost_parse = (\<lambda>_. Inr cost_zero), env_estimate_text = (\<lambda>_. ''e''),
     env_estimate_parse = (\<lambda>_. Inl (RE_TaskJoin '''')), env_semantics_parse = (\<lambda>_. Inr []),
     env_digest = (\<lambda>s. s), env_threshold = NotPresent, env_max_retries = NotPresent,
     env_registry = sample_registry,
     env_catalog = \<lparr>cs_catalog_revision = '''', cs_capabilities = [], cs_models = [], cs_bindings = [],
       cs_connectors = [], cs_workflow_backends = [], cs_default_bindings = []\<rparr>,
     env_cancelled = (\<lambda>_. False), env_cancel_confirmed = (\<lambda>_ _. True), env_notice = (\<lambda>_. None),
     env_event_parse = (\<lambda>_. Inr JNull), env_estimate = (\<lambda>_. Inr \<lparr>ce_amount = Fin 0, ce_currency = ''USD'', ce_estimated = True, ce_unknown = False\<rparr>)\<rparr>"

definition demo_two_steps :: db where
  "demo_two_steps = db_after (create_run_step ''s2''
     \<lparr>ns_run_id = ''r'', ns_node_id = ''a'', ns_node_type = ''text'', ns_provider = None,
      ns_state = ''queued''\<rparr> demo_started)"

definition demo_svc :: svc where
  "demo_svc = \<lparr>sv_db = demo_two_steps, sv_tick = 0, sv_published = [], sv_interrupts = [],
     sv_handles = 1, sv_requested = [], sv_spawned = []\<rparr>"

definition demo_ctx :: exec_ctx where
  "demo_ctx = \<lparr>xc_workspace_id = ''w'', xc_run_id = ''r'', xc_plan = demo_plan,
     xc_steps = run_steps ''r'' demo_two_steps,
     xc_dag = \<lparr>dg_upstream_counts = [0, 1], dg_downstream = [[1], []]\<rparr>,
     xc_max_parallel = 2, xc_interrupt = 0\<rparr>"

definition loop_after :: "svc \<times> (run_error + loop_state) \<Rightarrow> loop_state" where
  "loop_after x = (case snd x of Inl _ \<Rightarrow> empty_loop demo_ctx | Inr l \<Rightarrow> l)"

definition demo_top :: "loop_state \<Rightarrow> loop_state" where
  "demo_top l = loop_after (loop_top demo_env demo_ctx l demo_svc)"

definition demo_join :: "nat \<Rightarrow> loop_state \<Rightarrow> loop_state" where
  "demo_join i l = loop_after (loop_join demo_env demo_ctx (Joined i (Inr (ExecutionSucceeded
     [\<lparr>sx_port = ''out'', sx_artifact = \<lparr>af_artifact_id = ''a'', af_storage_uri = ''u''\<rparr>\<rparr>]))) l demo_svc)"

definition demo_start :: loop_state where
  "demo_start = loop_after (initial_loop demo_env demo_ctx demo_svc)"

definition demo_end :: loop_state where
  "demo_end = demo_top (demo_join 1 (demo_top (demo_join 0 (demo_top demo_start))))"

lemma loop_after_Inr: "x = (s, Inr (loop_after x)) \<longleftrightarrow> fst x = s \<and> is_ok (snd x)"
  by (cases x) (auto simp: loop_after_def is_ok_iff split: sum.splits)

lemma demo_tops:
  "initial_loop demo_env demo_ctx demo_svc = (others demo_env demo_svc, Inr demo_start)"
  "loop_top demo_env demo_ctx demo_start demo_svc = (others demo_env demo_svc, Inr (demo_top demo_start))"
  "loop_top demo_env demo_ctx (demo_join 0 (demo_top demo_start)) demo_svc =
     (others demo_env demo_svc, Inr (demo_top (demo_join 0 (demo_top demo_start))))"
  "loop_top demo_env demo_ctx (demo_join 1 (demo_top (demo_join 0 (demo_top demo_start)))) demo_svc =
     (others demo_env demo_svc, Inr demo_end)"
  unfolding demo_start_def demo_end_def demo_top_def loop_after_Inr by code_simp+

lemma demo_loop_states:
  "ls_running (demo_top demo_start) = [0] \<and> \<not> all_settled (demo_top demo_start)"
  "ls_running (demo_top (demo_join 0 (demo_top demo_start))) = [1] \<and>
     \<not> all_settled (demo_top (demo_join 0 (demo_top demo_start)))"
  "all_settled demo_end \<and> ls_first_error demo_end = None \<and> \<not> ls_interrupted demo_end \<and>
     map fst (ls_spawned demo_end) = [0, 1]"
  by code_simp+

lemma demo_loop_starts: "loop_starts demo_env demo_ctx (others demo_env demo_svc) demo_start"
proof -
  have "store_step\<^sup>*\<^sup>* initial_db demo_two_steps"
    unfolding demo_two_steps_def by (rule extend [OF demo_started_reachable], code_simp, erule store_step.create_step)
  moreover have "dag_from_plan demo_plan = Inr (xc_dag demo_ctx)" "length (xc_steps demo_ctx) = 2" by code_simp+
  ultimately show ?thesis
    using demo_tops(1) unfolding loop_starts_def
    by (intro conjI exI [of _ demo_svc])
       (simp_all add: ctx_ok_def others_def demo_env_def demo_ctx_def demo_svc_def demo_plan_def)
qed

lemma demo_join_succeeds:
  "loop_join demo_env demo_ctx (Joined i (Inr (ExecutionSucceeded
     [\<lparr>sx_port = ''out'', sx_artifact = \<lparr>af_artifact_id = ''a'', af_storage_uri = ''u''\<rparr>\<rparr>]))) l demo_svc =
   (demo_svc, Inr (demo_join i l))"
  by (simp add: demo_join_def loop_after_def loop_join_def Let_def)

lemma demo_loop_runs:
  "(exec_step demo_env demo_ctx ^^ 5) (AtTop demo_start (others demo_env demo_svc))
     (Ended demo_end (others demo_env demo_svc))"
proof -
  let ?s = "others demo_env demo_svc"
  have s: "svc_change ?s demo_svc" "svc_change demo_svc demo_svc"
    by (simp_all add: svc_change_def others_def demo_env_def)
  let ?l1 = "demo_top demo_start"
  let ?l2 = "demo_top (demo_join 0 ?l1)"
  have "exec_step demo_env demo_ctx (AtTop demo_start ?s) (Waiting ?l1 ?s)"
    using exec_step.top_wait [OF s(1) demo_tops(2)] demo_loop_states(1) by simp
  moreover have "exec_step demo_env demo_ctx (Waiting ?l1 ?s) (AtTop (demo_join 0 ?l1) demo_svc)"
    using exec_step.join [OF s(1) _ demo_join_succeeds] demo_loop_states(1) by simp
  moreover have "exec_step demo_env demo_ctx (AtTop (demo_join 0 ?l1) demo_svc) (Waiting ?l2 ?s)"
    using exec_step.top_wait [OF s(2) demo_tops(3)] demo_loop_states(2) by simp
  moreover have "exec_step demo_env demo_ctx (Waiting ?l2 ?s) (AtTop (demo_join 1 ?l2) demo_svc)"
    using exec_step.join [OF s(1) _ demo_join_succeeds] demo_loop_states(2) by simp
  moreover have "exec_step demo_env demo_ctx (AtTop (demo_join 1 ?l2) demo_svc) (Ended demo_end ?s)"
    using exec_step.top_done [OF s(2) demo_tops(4)] demo_loop_states(3) by simp
  ultimately show ?thesis by (auto simp: numeral_eq_Suc relcompp_apply)
qed

section \<open>The end of the loop\<close>

lemma loop_completes:
  assumes "loop_starts env ctx s l" "(exec_step env ctx)\<^sup>*\<^sup>* (AtTop l s) (Ended m t)"
    "ls_first_error m = None" "\<not> ls_interrupted m"
    "\<And>i. i < length (ep_steps (xc_plan ctx)) \<Longrightarrow> upstream_of (xc_plan ctx) i \<subseteq> {..<i}"
  shows "\<forall>i < length (ep_steps (xc_plan ctx)). ls_finished m ! i \<and> \<not> ls_skipped m ! i"
proof -
  have "exec_inv ctx (Ended m t)" using executor.steps_inv [OF assms(2)] exec_inv_start [OF assms(1)] by blast
  then obtain C where inv: "loop_inv ctx C m" "all_settled m \<or> ls_running m = []"
    "ls_ready m = [] \<or> ls_running m \<noteq> []" and live: "live m"
    using assms(3,4) by (auto simp: exec_inv_def live_def)
  then have lv: "\<not> ls_skipped m ! i" "ls_started m ! i \<Longrightarrow> ls_finished m ! i \<or> i \<in> set (ls_running m)"
    "ls_finished m ! i \<Longrightarrow> i \<in> C" "sources_of ctx i \<subseteq> C \<Longrightarrow> \<not> ls_started m ! i \<Longrightarrow> i \<in> set (ls_ready m)"
    if "i < step_count ctx" for i
    using that by (auto simp: loop_inv_def loop_live_def)
  have "ls_finished m ! i" if "i < step_count ctx" for i
  proof (cases "all_settled m")
    case True
    with inv(1) lv(1) [OF that] that show ?thesis
      by (auto simp: all_settled_def list_all_length loop_inv_def loop_shape_def)
  next
    case False
    then have idle: "ls_running m = []" "ls_ready m = []" using inv by auto
    show ?thesis using that
    proof (induction i rule: less_induct)
      case (less i)
      have "sources_of ctx i \<subseteq> C"
        using assms(5) [OF less.prems] less lv(3) by (meson lessThan_iff order.strict_trans subset_iff)
      then show ?case using lv(2,4) [OF less.prems] idle by auto
    qed
  qed
  with lv(1) show ?thesis by blast
qed

section \<open>Properties\<close>

text \<open>
  C19: the loop ends.  However the tasks behave and whatever other parties do to the store, a run of
  the loop over a plan of n steps makes at most 4 n + 2 moves, and until it has ended, or was
  aborted by a store error, it can always move on.
\<close>

theorem executor_ends:
  assumes "loop_starts env ctx s l" "(exec_step env ctx ^^ k) (AtTop l s) e"
  shows "k \<le> 4 * length (ep_steps (xc_plan ctx)) + 2 \<and>
    ((\<exists>l' s'. e = Ended l' s') \<or> (\<exists>err s'. e = Aborted err s') \<or> (\<exists>e'. exec_step env ctx e e'))"
proof -
  note inv = exec_inv_start [OF assms(1)]
  have "exec_rank ctx (AtTop l s) \<le> 4 * step_count ctx + 2"
    using loop_starts_inv [OF assms(1)] unstarted_bound [of ctx l] by (simp add: exec_rank_def work_left_def)
  with executor.run_bounded [OF assms(2) inv] exec_progress [OF executor.power_inv [OF assms(2) inv]]
  show ?thesis by simp
qed

lemma executor_ends_witness: "5 \<le> 4 * length (ep_steps (xc_plan demo_ctx)) + 2"
  using executor_ends [OF demo_loop_starts demo_loop_runs] by blast

text \<open>
  C20: a step is started at most once, never again after an earlier attempt finished it, and only when
  every step it reads from is finished; at most \<open>max_parallel_steps\<close> steps run at a time.
\<close>

theorem steps_started_in_order:
  assumes "loop_starts env ctx s l" "(exec_step env ctx)\<^sup>*\<^sup>* (AtTop l s) e"
    "e = AtTop m t \<or> e = Waiting m t \<or> e = Ended m t"
  shows "distinct (map fst (ls_spawned m)) \<and> length (ls_running m) \<le> xc_max_parallel ctx \<and>
    (\<forall>i\<in>fst ` set (ls_spawned m). \<not> found_succeeded ctx i \<and>
       (\<forall>j\<in>upstream_of (xc_plan ctx) i. ls_finished m ! j))"
proof -
  have "exec_inv ctx e" using executor.steps_inv [OF assms(2)] exec_inv_start [OF assms(1)] by blast
  then obtain C where "loop_inv ctx C m" using assms(3) by (auto simp: exec_inv_def)
  then show ?thesis unfolding loop_inv_def loop_defs by blast
qed

lemma steps_started_in_order_witness:
  "distinct (map fst (ls_spawned demo_end)) \<and> map fst (ls_spawned demo_end) = [0, 1]"
  using steps_started_in_order [OF demo_loop_starts relpowp_imp_rtranclp [OF demo_loop_runs], of demo_end "others demo_env demo_svc"]
    demo_loop_states(3) by simp

text \<open>
  C21: no step is left behind.  If every step reads from earlier steps only, as in the plans the
  compiler makes, then a loop that ends with neither an error nor an interruption has finished every
  step: it never ends, and the run is never recorded as succeeded, with steps that wait forever.
\<close>

theorem no_step_left:
  assumes "loop_starts env ctx s l" "(exec_step env ctx)\<^sup>*\<^sup>* (AtTop l s) (Ended m t)"
    "ls_first_error m = None" "\<not> ls_interrupted m"
    "\<And>i. i < length (ep_steps (xc_plan ctx)) \<Longrightarrow> upstream_of (xc_plan ctx) i \<subseteq> {..<i}"
  shows "\<forall>i < length (ep_steps (xc_plan ctx)). ls_finished m ! i \<and> \<not> ls_skipped m ! i"
  using loop_completes [OF assms] .

lemma no_step_left_witness: "ls_finished demo_end ! 0 \<and> ls_finished demo_end ! 1"
proof -
  have "upstream_of demo_plan 0 = {}" "upstream_of demo_plan 1 = {0}"
    by (auto simp: upstream_of_def step_sources_def demo_plan_def demo_step_def by_node_def)
  then have "upstream_of (xc_plan demo_ctx) i \<subseteq> {..<i}" if "i < length (ep_steps (xc_plan demo_ctx))" for i
    using that by (cases i) (auto simp: demo_ctx_def demo_plan_def less_Suc_eq)
  from no_step_left [OF demo_loop_starts relpowp_imp_rtranclp [OF demo_loop_runs] _ _ this] demo_loop_states(3)
  show ?thesis by (simp add: demo_ctx_def demo_plan_def)
qed

end
