(* ===== verification/Service_Properties.thy ===== *)
theory Service_Properties
  imports Service_Gate Executor_Properties
begin

text \<open>
  Properties of the run service as a whole: it only moves the store along its steps, and it starts
  nothing in the background whose cost is unknown or above the threshold.
\<close>

section \<open>Manual runs\<close>

definition manual_start :: "run_env \<Rightarrow> bool \<Rightarrow> background_task \<Rightarrow> bool" where
  "manual_start env force task \<longleftrightarrow> (\<exists>run plan h c. task = ManualTask run plan h force \<and>
     rr_status run = ''queued'' \<and> rr_estimate_json run = Some (env_cost_text env c) \<and>
     estimated_total env (rr_id run) (ep_steps plan) c \<and> affordable env c)"

lemma force_keeps:
  assumes "private_ids env (sv_db s)" "(if b
      then rm_bind (call env (\<lambda>ids now. set_run_force_rerun i True)) (\<lambda>_. rm_ok ()) else rm_ok ()) s = (t, Inr u)"
  shows "private_ids env (sv_db t)"
proof (cases b)
  case True
  with assms(2) obtain d r where "set_run_force_rerun i True (sv_db (others env s)) = Inr (d, r)" "sv_db t = d"
    by (auto simp: rm_simps call_Inr)
  with private_others [OF assms(1)] force_rerun_Inr show ?thesis by (blast intro: private_steps)
qed (use assms in simp)

lemma others_ok: "env_ok env \<Longrightarrow> db_ok (sv_db s) \<Longrightarrow> db_ok (sv_db (others env s))"
  using others_steps steps_ok by blast

lemma queued_run_spawns:
  assumes env: "env_ok env" and s: "db_ok (sv_db s)" and "affordable env c" "estimated_total env i (ep_steps plan) c"
  shows "spawns (manual_start env force)
    (rm_bind (call env (\<lambda>ids now. update_run_estimate_and_status i
         (Some (env_cost_text env c)) (run_status_as_str Queued))) (\<lambda>run.
       rm_bind (read env (run_steps (rr_id run))) (\<lambda>steps.
       rm_bind (spawn_task (ManualTask run plan h force)) (\<lambda>_. rm_ok (outcome_of run steps))))) s"
proof (rule spawns_bind)
  fix t run
  assume "call env (\<lambda>ids now. update_run_estimate_and_status i
         (Some (env_cost_text env c)) (run_status_as_str Queued)) s = (t, Inr run)"
  then have "rr_id run = i \<and> rr_estimate_json run = Some (env_cost_text env c) \<and> rr_status run = ''queued''"
    using estimate_Inr others_ok [OF env s] by (fastforce simp: call_Inr)
  then have start: "manual_start env force (ManualTask run plan h force)"
    using assms(3,4) by (auto simp: manual_start_def)
  show "spawns (manual_start env force) (rm_bind (read env (run_steps (rr_id run))) (\<lambda>steps.
       rm_bind (spawn_task (ManualTask run plan h force)) (\<lambda>_. rm_ok (outcome_of run steps)))) t"
    by (rule spawns_bind, rule silent_rules, rule spawns_task_then, rule start, rule silent_rules)
qed (rule silent_rules)

text \<open>From the estimate on.\<close>

lemma estimated_run_spawns:
  assumes env: "env_ok env" and s: "db_ok (sv_db s)" and steps: "length (ep_steps plan) = length steps"
    and rest: "\<And>e. silent (err e)" "\<And>c. silent (wait c)"
  shows "spawns (manual_start env force) (rm_match (estimate_created_run env ws i (ep_steps plan) steps h) err
    (\<lambda>estimate. rm_bind (rm_lift (run_requires_confirmation (env_threshold env) estimate)) (\<lambda>confirm.
     if confirm then wait estimate else
       rm_bind (call env (\<lambda>ids now. update_run_estimate_and_status i
         (Some (env_cost_text env estimate)) (run_status_as_str Queued))) (\<lambda>run.
       rm_bind (read env (run_steps (rr_id run))) (\<lambda>steps.
       rm_bind (spawn_task (ManualTask run plan h force)) (\<lambda>_. rm_ok (outcome_of run steps))))))) s"
proof (rule spawns_match_ok [OF s])
  fix t c
  assume t: "estimate_created_run env ws i (ep_steps plan) steps h s = (t, Inr c)" "db_ok (sv_db t)"
  note estimated = estimate_created_run_ok [OF t(1) steps]
  show "spawns (manual_start env force) (rm_bind (rm_lift (run_requires_confirmation (env_threshold env) c)) (\<lambda>confirm.
     if confirm then wait c else
       rm_bind (call env (\<lambda>ids now. update_run_estimate_and_status i
         (Some (env_cost_text env c)) (run_status_as_str Queued))) (\<lambda>run.
       rm_bind (read env (run_steps (rr_id run))) (\<lambda>steps.
       rm_bind (spawn_task (ManualTask run plan h force)) (\<lambda>_. rm_ok (outcome_of run steps)))))) t"
  proof (rule spawns_bind)
    fix t' confirm
    assume c: "rm_lift (run_requires_confirmation (env_threshold env) c) t = (t', Inr confirm)"
    show "spawns (manual_start env force) (if confirm then wait c else
       rm_bind (call env (\<lambda>ids now. update_run_estimate_and_status i
         (Some (env_cost_text env c)) (run_status_as_str Queued))) (\<lambda>run.
       rm_bind (read env (run_steps (rr_id run))) (\<lambda>steps.
       rm_bind (spawn_task (ManualTask run plan h force)) (\<lambda>_. rm_ok (outcome_of run steps))))) t'"
      using queued_run_spawns [OF env _ affordable estimated] c t(2) rest(2)
      by (cases confirm) (auto intro: spawns_silent)
  qed (rule silent_rules)
qed (use rest env in \<open>auto intro: silent_rules follows_rules\<close>)

lemma start_manual_run_spawns:
  assumes env: "env_ok env" and s: "db_ok (sv_db s)" "private_ids env (sv_db s)"
  shows "spawns (manual_start env (mr_force_rerun req)) (start_manual_run env req) s"
  unfolding start_manual_run_def
proof (rule spawns_bind_ok [OF s(1)], goal_cases)
  case (3 s1 plan)
  then have s1: "private_ids env (sv_db s1)" using private_others [OF s(2)] by (auto dest: frozen_plan_Inr)
  show ?case
  proof (rule spawns_if [OF spawns_silent spawns_bind_ok [OF 3(2)]], goal_cases)
    case (4 s2 u)
    then have s2: "private_ids env (sv_db s2)" using private_others [OF s1] by (auto dest: not_busy_Inr)
    show ?case
    proof (rule spawns_bind_ok [OF 4(3)], goal_cases)
      case (3 s3 run)
      then have run: "rr_id run = env_new_id env (sv_tick s2) 0" "private_ids env (sv_db s3)"
        using private_others [OF s2] by (auto simp: call_Inr dest!: create_run_Inr elim: private_steps)
      show ?case
      proof (rule spawns_bind_ok [OF 3(2)], goal_cases)
        case (3 s4 v)
        note s4 = force_keeps [OF run(2) 3(1)]
        show ?case
        proof (rule spawns_bind_ok [OF 3(2)], goal_cases)
          case (3 s5 steps)
          note steps = created_steps_complete [OF s4 3(1) [unfolded run(1)]]
          show ?case
          proof (rule spawns_bind_ok [OF 3(2)], goal_cases)
            case (3 s6 h)
            show ?case
              by (rule spawns_bind_ok [OF 3(2)], rule silent_rules, rule follows_rules,
                  rule estimated_run_spawns [OF env _ steps]) (assumption | intro silent_rules)+
          qed (rule silent_rules follows_rules)+
        qed (use env in \<open>auto intro: silent_rules follows_rules\<close>)
      qed (use env in \<open>auto intro!: silent_rules follows_rules simp del: rm_ok_apply\<close>)
    qed (use env in \<open>auto intro: silent_rules follows_rules\<close>)
  qed (use env in \<open>auto intro: silent_rules follows_rules\<close>)
qed (use env in \<open>auto intro: silent_rules follows_rules\<close>)

section \<open>Confirmed runs and retries\<close>

definition within_budget :: "run_env \<Rightarrow> string \<Rightarrow> db \<Rightarrow> bool" where
  "within_budget env i d \<longleftrightarrow> (\<exists>run text c. store_run i d = Inr run \<and> rr_estimate_json run = Some text \<and>
     env_cost_parse env text = Inr c \<and> affordable env c)"









lemma retry_bounded: "retries_exhausted v attempt = Inr False \<longleftrightarrow>
    \<not> attempt <s 0 \<and> (\<exists>m. max_run_retries v = Inr m \<and> ucast attempt < m \<and> m \<le> 10)"
  using max_run_retries_bound [of v] by (auto simp: retries_exhausted_def result_simps not_le)

lemma prepare_retry_continues:
  assumes "prepare_retry env ws i attempt s = (s', Inr (Continue run plan h))"
  shows "within_budget env i (sv_db (others env s)) \<and> retries_exhausted (env_max_retries env) attempt = Inr False"
  using assms affordable unfolding within_budget_def prepare_retry_def
  by (auto simp: rm_simps query_def Let_def map_err_def result_simps split: if_splits option.splits sum.splits)

section \<open>Frozen plans\<close>

lemma frozen_plan_steps:
  assumes "frozen_plan env g version_id provider s = (s', Inr plan)"
  obtains p where "compile_plan (env_registry env) g version_id provider = Inr p"
    "map es_node_id (ep_steps plan) = map es_node_id (ep_steps p)"
    "map es_inputs (ep_steps plan) = map es_inputs (ep_steps p)"
proof -
  from assms obtain p semantics where p: "compile_plan (env_registry env) g version_id provider = Inr p"
    "attach_resolved_bindings (env_catalog env) provider semantics p = Inr plan"
    by (auto simp: frozen_plan_def rm_simps map_err_def split: sum.splits)
  show ?thesis
  proof (cases "catalog_connector (env_catalog env) provider = None")
    case True
    with p that show ?thesis by (auto simp: attach_resolved_bindings_def)
  next
    case False
    from attach_ok [OF p(2) this] have "list_all2 (\<lambda>step step'. es_node_id step' = es_node_id step \<and>
        es_inputs step' = es_inputs step) (ep_steps p) (ep_steps plan)"
      by (auto elim!: list_all2_mono simp: step_frozen_def) (metis execution_step.ext_inject execution_step.surjective execution_step.update_convs(7))+
    then have "map es_node_id (ep_steps plan) = map es_node_id (ep_steps p) \<and>
        map es_inputs (ep_steps plan) = map es_inputs (ep_steps p)"
      by (induction rule: list_all2_induct) auto
    with p(1) that show ?thesis by blast
  qed
qed

section \<open>A run from its request to its retry\<close>

definition gate_svc :: svc where
  "gate_svc = demo_svc\<lparr>sv_db := demo_base\<rparr>"

definition gate_request :: manual_run_request where
  "gate_request = \<lparr>mr_workspace_id = ''w'', mr_version_id = ''v'', mr_group_id = None, mr_label = ''l'',
     mr_provider = ''mock'', mr_graph = sample_graph, mr_force_rerun = False\<rparr>"

definition waiting_svc :: svc where
  "waiting_svc = fst (prepare_manual_run demo_env gate_request gate_svc)"

definition started_svc :: svc where
  "started_svc = fst (start_confirmed_run demo_env ''ixxx'' waiting_svc)"

definition failed_svc :: svc where
  "failed_svc = fst (request_and_settle_terminal demo_env 2 ''w'' ''ixxx'' ''failed'' None started_svc)"

lemmas gate_svcs = gate_svc_def waiting_svc_def started_svc_def failed_svc_def

lemma demo_env_ok: "env_ok demo_env"
  by (simp add: env_ok_def demo_env_def)

lemma demo_private: "private_ids demo_env (sv_db gate_svc)"
  by (simp add: private_ids_def demo_env_def gate_svc_def demo_base_def initial_db_def run_steps_def)

lemma gate_reachable: "store_step\<^sup>*\<^sup>* initial_db (sv_db gate_svc)"
  using demo_base_step by (simp add: gate_svc_def)

lemma manual_spawned:
  "case sv_spawned (fst (start_manual_run demo_env gate_request gate_svc)) of
     [ManualTask run plan h force] \<Rightarrow> rr_id run = ''ixx'' \<and> ep_steps plan = ep_steps demo_plan | _ \<Rightarrow> False"
  by code_simp



lemma retry_continued:
  "case snd (prepare_retry demo_env ''w'' ''ixxx'' 0 failed_svc) of
     Inr (Continue run plan h) \<Rightarrow> rr_parent_run_id run = Some ''ixxx'' | _ \<Rightarrow> False"
  by code_simp

lemma demo_frozen: "frozen_plan demo_env sample_graph ''v'' ''mock'' gate_svc = (others demo_env gate_svc, Inr demo_plan)"
  by code_simp


section \<open>Properties\<close>




text \<open>
  C22: money is only spent unasked within the threshold.  If \<open>start_manual_run\<close> starts anything, it
  starts exactly the requested run, queued, with an estimate that covers every paid step of its plan;
  that estimate was stored with the run, is known, finite and not negative, and does not exceed the
  configured threshold, or is zero where its currency is not US dollars.
\<close>

theorem manual_run_gate:
  assumes "env_ok env" "store_step\<^sup>*\<^sup>* initial_db (sv_db s)" "private_ids env (sv_db s)"
    "start_manual_run env req s = (s', r)" "sv_spawned s' \<noteq> sv_spawned s"
  shows "\<exists>run plan h es c q. sv_spawned s' = sv_spawned s @ [ManualTask run plan h (mr_force_rerun req)] \<and>
    rr_status run = ''queued'' \<and> rr_estimate_json run = Some (env_cost_text env c) \<and>
    map (env_estimate env) (paid_requests (rr_id run) (ep_steps plan)) = map Inr es \<and>
    cost_total es = Inr c \<and> \<not> cs_unknown c \<and> cs_amount c = Fin q \<and> 0 \<le> q \<and>
    (if cs_currency c = ''USD''
     then \<exists>th. run_confirmation_threshold_usd (env_threshold env) = Inr (Fin th) \<and> q \<le> th else q = 0)"
proof -
  from spawnsD [OF start_manual_run_spawns [OF assms(1) reachable_ok [OF assms(2)] assms(3)] assms(4,5)]
  obtain run plan h c where "sv_spawned s' = sv_spawned s @ [ManualTask run plan h (mr_force_rerun req)]"
    "rr_status run = ''queued''" "rr_estimate_json run = Some (env_cost_text env c)"
    "estimated_total env (rr_id run) (ep_steps plan) c" "affordable env c"
    by (auto simp: manual_start_def)
  then show ?thesis unfolding affordable_def estimated_total_def by blast
qed

lemma manual_run_gate_witness:
  "\<exists>run plan h es c q. sv_spawned (fst (start_manual_run demo_env gate_request gate_svc)) = [ManualTask run plan h False] \<and>
     length es = 2 \<and> cost_total es = Inr c \<and> cs_amount c = Fin q \<and> 0 \<le> q"
proof -
  let ?s = "fst (start_manual_run demo_env gate_request gate_svc)"
  have [simp]: "sv_spawned gate_svc = []" "mr_force_rerun gate_request = False" by code_simp+
  have "sv_spawned ?s \<noteq> sv_spawned gate_svc" using manual_spawned by (auto split: list.splits)
  from manual_run_gate [OF demo_env_ok gate_reachable demo_private prod.collapse [symmetric] this]
  obtain run plan h es c q where r: "sv_spawned ?s = [ManualTask run plan h False]"
    "map (env_estimate demo_env) (paid_requests (rr_id run) (ep_steps plan)) = map Inr es"
    "cost_total es = Inr c" "cs_amount c = Fin q" "0 \<le> q" by auto
  have "length (paid_requests (rr_id run) (ep_steps plan)) = 2"
    using manual_spawned r(1) by (simp add: paid_requests_def demo_plan_def demo_step_def map_filter_def)
  with r(2) have "length es = 2" by (metis length_map)
  with r show ?thesis by blast
qed



text \<open>
  C24: self-healing is bounded in money and in number.  \<open>prepare_retry\<close> hands out a retry only if the
  stored estimate of the failed run is affordable, the attempt is not negative, and the retries made
  so far are fewer than the configured limit, which never exceeds ten.
\<close>

theorem retries_bounded:
  assumes "prepare_retry env ws i attempt s = (s', Inr (Continue run plan h))"
  shows "(\<exists>r text c. store_run i (sv_db (others env s)) = Inr r \<and> rr_estimate_json r = Some text \<and>
      env_cost_parse env text = Inr c \<and> affordable env c) \<and>
    \<not> attempt <s 0 \<and> (\<exists>m. max_run_retries (env_max_retries env) = Inr m \<and> ucast attempt < m \<and> m \<le> 10)"
  using prepare_retry_continues [OF assms] unfolding retry_bounded within_budget_def by blast

lemma retries_bounded_witness: "\<exists>m. max_run_retries (env_max_retries demo_env) = Inr m \<and> 0 < m \<and> m \<le> (10::u32)"
proof -
  obtain s' run plan h where "prepare_retry demo_env ''w'' ''ixxx'' 0 failed_svc = (s', Inr (Continue run plan h))"
    using retry_continued by (auto split: sum.splits retry_decision.splits) (metis prod.collapse)
  from retries_bounded [OF this] show ?thesis by simp
qed

text \<open>
  C26: a run whose plan went through the gate completes.  If the scheduling loop runs the frozen plan of
  a graph and ends with neither an error nor an interruption, every step of every node has finished.
\<close>

theorem frozen_run_completes:
  assumes "frozen_plan env g version_id provider s0 = (s1, Inr plan)" "bt_wf (wg_nodes g)" "xc_plan ctx = plan"
    "loop_starts env' ctx s l" "(exec_step env' ctx)\<^sup>*\<^sup>* (AtTop l s) (Ended m t)"
    "ls_first_error m = None" "\<not> ls_interrupted m"
  shows "set (map es_node_id (ep_steps plan)) = dom (bt_get (wg_nodes g)) \<and>
    (\<forall>i < length (ep_steps plan). ls_finished m ! i \<and> \<not> ls_skipped m ! i)"
proof -
  from frozen_plan_steps [OF assms(1)] obtain p where
    p: "compile_plan (env_registry env) g version_id provider = Inr p"
    "map es_node_id (ep_steps plan) = map es_node_id (ep_steps p)"
    "map es_inputs (ep_steps plan) = map es_inputs (ep_steps p)" .
  have "\<forall>i < length (ep_steps (xc_plan ctx)). ls_finished m ! i \<and> \<not> ls_skipped m ! i"
    by (rule loop_completes [OF assms(4-7)]) (use compiled_upstream [OF assms(2) p] assms(3) in simp)
  then show ?thesis using compiled_steps_ordered [OF assms(2) p(1)] p(2) assms(3) by simp
qed

lemma frozen_run_completes_witness: "ls_finished demo_end ! 0 \<and> ls_finished demo_end ! 1"
proof -
  have "xc_plan demo_ctx = demo_plan" "length (ep_steps demo_plan) = 2" by code_simp+
  with frozen_run_completes [OF demo_frozen sample_graph_wf _ demo_loop_starts
      relpowp_imp_rtranclp [OF demo_loop_runs]] demo_loop_states(3)
  show ?thesis by simp
qed

end
