(* ===== verification/Project_Db.thy ===== *)
theory Project_Db
  imports Run_Db "HOL-Library.Option_ord"
begin

text \<open>
  The tables of a project: workspaces, versions, proposals, messages, conversations, agent turns,
  contract observations, canvas comments, canvas snapshots and version migrations, with the
  constraints of crates/store/migrations.  They live in the same SQLite database as the tables of
  \<open>db\<close>; no operation of one group writes a table of the other, so each group is a state of
  its own.  Rows and inputs are the structs of the code plus the columns they leave out.
\<close>

section \<open>Workspaces and versions\<close>

record workspace_record =
  wk_id :: string
  wk_name :: string
  wk_cur_version_id :: "string option"
  wk_runtime_provider_id :: "string option"
  wk_created_at :: timestamp
  wk_updated_at :: timestamp

datatype version_source = Manual | Proposal | Restore | Migration

fun version_source_as_str :: "version_source \<Rightarrow> string" where
  "version_source_as_str Manual = ''manual''"
| "version_source_as_str Proposal = ''proposal''"
| "version_source_as_str Restore = ''restore''"
| "version_source_as_str Migration = ''migration''"

record new_version =
  nv_workspace_id :: string
  nv_label :: string
  nv_source :: version_source
  nv_graph_path :: string
  nv_graph_hash :: string
  nv_parent_id :: "string option"
  nv_semantics_json :: "string option"

section \<open>Proposals\<close>

record new_proposal =
  nl_workspace_id :: string
  nl_base_version_id :: string
  nl_kind :: string
  nl_title :: string
  nl_summary :: string
  nl_ops_path :: string
  nl_preview_graph_path :: "string option"
  nl_message_id :: "string option"

datatype proposal_resolution_state = Applied | Dismissed | Superseded | ResolutionFailed

fun resolution_as_str :: "proposal_resolution_state \<Rightarrow> string" where
  "resolution_as_str Applied = ''applied''"
| "resolution_as_str Dismissed = ''dismissed''"
| "resolution_as_str Superseded = ''superseded''"
| "resolution_as_str ResolutionFailed = ''failed''"

record proposal_record =
  pl_id :: string
  pl_workspace_id :: string
  pl_base_version_id :: string
  pl_kind :: string
  pl_title :: string
  pl_summary :: string
  pl_ops_path :: string
  pl_preview_graph_path :: "string option"
  pl_state :: string
  pl_result_version_id :: "string option"
  pl_message_id :: "string option"
  pl_created_at :: timestamp
  pl_resolved_at :: "timestamp option"

section \<open>Messages, conversations, turns\<close>

record new_message =
  nx_workspace_id :: string
  nx_role :: string
  nx_kind :: string
  nx_text :: "string option"
  nx_ref_id :: "string option"
  nx_attachment_ids_json :: "string option"
  nx_conversation_id :: "string option"
  nx_turn_id :: "string option"

record message_record =
  ms_id :: string
  ms_workspace_id :: string
  ms_role :: string
  ms_text :: "string option"
  ms_kind :: string
  ms_ref_id :: "string option"
  ms_attachment_ids_json :: "string option"
  ms_conversation_id :: "string option"
  ms_turn_id :: "string option"
  ms_created_at :: timestamp

record conversation_record =
  cv_id :: string
  cv_workspace_id :: string
  cv_title :: string
  cv_codex_thread_id :: "string option"
  cv_created_at :: timestamp
  cv_updated_at :: timestamp
  cv_archived_at :: "timestamp option"

record agent_turn_record =
  at_id :: string
  at_conversation_id :: string
  at_workspace_id :: string
  at_user_message_id :: "string option"
  at_execution_id :: "string option"
  at_codex_turn_id :: "string option"
  at_mode :: string
  at_status :: string
  at_reason_code :: "string option"
  at_started_at :: timestamp
  at_completed_at :: "timestamp option"

section \<open>Contract observations\<close>

datatype agent_contract_mode = IntentMode | LegacyMode

fun contract_mode_as_str :: "agent_contract_mode \<Rightarrow> string" where
  "contract_mode_as_str IntentMode = ''intent''"
| "contract_mode_as_str LegacyMode = ''legacy''"

datatype agent_contract_outcome = OutcomeStarted | OutcomeSuccess | OutcomeClarify | OutcomeError

fun outcome_as_str :: "agent_contract_outcome \<Rightarrow> string" where
  "outcome_as_str OutcomeStarted = ''started''"
| "outcome_as_str OutcomeSuccess = ''success''"
| "outcome_as_str OutcomeClarify = ''clarify''"
| "outcome_as_str OutcomeError = ''error''"

record observation_record =
  ob_id :: string
  ob_workspace_id :: string
  ob_user_message_id :: string
  ob_session_id :: "string option"
  ob_contract_mode :: string
  ob_outcome :: string
  ob_reason_code :: "string option"
  ob_release_id :: "string option"
  ob_build_revision :: "string option"
  ob_started_at :: timestamp
  ob_completed_at :: "timestamp option"

record new_observation =
  no_user_message :: new_message
  no_contract_mode :: agent_contract_mode
  no_release_id :: "string option"
  no_build_revision :: "string option"

record complete_observation =
  oc_observation_id :: string
  oc_workspace_id :: string
  oc_contract_mode :: agent_contract_mode
  oc_outcome :: agent_contract_outcome
  oc_reason_code :: string
  oc_session_id :: "string option"

section \<open>Canvas\<close>

record comment_state_record =
  cm_workspace_id :: string
  cm_seq :: int
  cm_comments_json :: string
  cm_migration_source :: string

record comment_operation_row =
  co_workspace_id :: string
  co_operation_id :: string
  co_operation_fingerprint :: string
  co_committed_seq :: "int option"

record canvas_snapshot_record =
  sn_workspace_id :: string
  sn_revision :: int
  sn_nodes_json :: string
  sn_viewport_json :: "string option"

section \<open>Migrations of versions\<close>

record assessment_record =
  va_id :: string
  va_workspace_id :: string
  va_source_version_id :: string
  va_source_graph_hash :: string
  va_migration_version :: string
  va_catalog_revision :: string
  va_workspace_connector_id :: string
  va_status :: string
  va_top_level_code :: "string option"
  va_reason_code_counts_json :: string
  va_created_at :: timestamp

record version_migration_record =
  vm_id :: string
  vm_workspace_id :: string
  vm_operation_id :: string
  vm_operation_fingerprint :: string
  vm_source_version_id :: string
  vm_source_graph_hash :: string
  vm_target_version_id :: string
  vm_target_graph_hash :: string
  vm_migration_version :: string
  vm_catalog_revision :: string
  vm_workspace_connector_id :: string
  vm_report_hash :: string
  vm_report_json :: string
  vm_created_at :: timestamp

section \<open>The tables\<close>

record pdb =
  pj_workspaces :: "workspace_record list"
  pj_versions :: "version_record list"
  pj_proposals :: "proposal_record list"
  pj_messages :: "message_record list"
  pj_conversations :: "conversation_record list"
  pj_turns :: "agent_turn_record list"
  pj_observations :: "observation_record list"
  pj_comment_states :: "comment_state_record list"
  pj_comment_operations :: "comment_operation_row list"
  pj_snapshots :: "canvas_snapshot_record list"
  pj_assessments :: "assessment_record list"
  pj_migrations :: "version_migration_record list"

type_synonym 'a project_result = "store_error + pdb \<times> 'a"

text \<open>\<open>ORDER BY key DESC LIMIT 1\<close>, for keys that end in the primary key.\<close>

definition newest_by :: "('r \<Rightarrow> 'k::linorder) \<Rightarrow> 'r list \<Rightarrow> 'r option" where
  "newest_by key rs = (let t = sort_key key rs in if t = [] then None else Some (last t))"

text \<open>SQLite's LIKE: the percent sign stands for any text, the underscore for one character (a
  UTF-8 sequence), and ASCII letters match without case.\<close>

fun sql_like :: "string \<Rightarrow> string \<Rightarrow> bool" where
  "sql_like [] s = (s = [])"
| "sql_like (p # ps) [] = (p = CHR 0x25 \<and> sql_like ps [])"
| "sql_like (p # ps) (c # s) =
     (if p = CHR 0x25 then sql_like ps (c # s) \<or> sql_like (p # ps) s
      else if p = CHR 0x5F then sql_like ps (dropWhile continuation_byte s)
      else to_lowercase p = to_lowercase c \<and> sql_like ps s)"

section \<open>Inserts with the constraints of each table\<close>

definition insert_workspace :: "workspace_record \<Rightarrow> pdb \<Rightarrow> store_error + pdb" where
  "insert_workspace w db = res_bind
     (sql_insert (\<not> row_exists (\<lambda>x. wk_id x = wk_id w) (pj_workspaces db)) w (pj_workspaces db))
     (\<lambda>t. Inr (db\<lparr>pj_workspaces := t\<rparr>))"

abbreviation version_source_check :: "string \<Rightarrow> bool" where
  "version_source_check s \<equiv> s \<in> {''manual'', ''proposal'', ''restore'', ''migration''}"

definition insert_version_row :: "version_record \<Rightarrow> pdb \<Rightarrow> store_error + pdb" where
  "insert_version_row v db = res_bind
     (sql_insert (\<not> row_exists (\<lambda>x. vr_id x = vr_id v) (pj_versions db) \<and>
        \<not> row_exists (\<lambda>x. vr_workspace_id x = vr_workspace_id v \<and> vr_idx x = vr_idx v) (pj_versions db) \<and>
        version_source_check (vr_source v) \<and>
        row_exists (\<lambda>w. wk_id w = vr_workspace_id v) (pj_workspaces db) \<and>
        foreign vr_id (vr_parent_id v) (pj_versions db)) v (pj_versions db))
     (\<lambda>t. Inr (db\<lparr>pj_versions := t\<rparr>))"

abbreviation proposal_state_check :: "string \<Rightarrow> bool" where
  "proposal_state_check s \<equiv>
     s \<in> {''pending'', ''applied'', ''dismissed'', ''superseded'', ''failed''}"

definition insert_proposal_row :: "proposal_record \<Rightarrow> pdb \<Rightarrow> store_error + pdb" where
  "insert_proposal_row p db = res_bind
     (sql_insert (\<not> row_exists (\<lambda>x. pl_id x = pl_id p) (pj_proposals db) \<and>
        proposal_state_check (pl_state p) \<and>
        row_exists (\<lambda>w. wk_id w = pl_workspace_id p) (pj_workspaces db) \<and>
        row_exists (\<lambda>v. vr_id v = pl_base_version_id p) (pj_versions db) \<and>
        foreign vr_id (pl_result_version_id p) (pj_versions db)) p (pj_proposals db))
     (\<lambda>t. Inr (db\<lparr>pj_proposals := t\<rparr>))"

abbreviation role_check :: "string \<Rightarrow> bool" where
  "role_check s \<equiv> s \<in> {''user'', ''agent'', ''system''}"

text \<open>The partial unique index \<open>idx_messages_recovery_risk_ref\<close>.\<close>

definition risk_notice :: "message_record \<Rightarrow> bool" where
  "risk_notice m \<longleftrightarrow> ms_kind m = ''run_failed'' \<and>
     (case ms_ref_id m of None \<Rightarrow> False | Some r \<Rightarrow> sql_like ''recovery-risk:%'' r)"

definition message_unique :: "message_record \<Rightarrow> message_record list \<Rightarrow> bool" where
  "message_unique m t \<longleftrightarrow> \<not> row_exists (\<lambda>x. ms_id x = ms_id m) t \<and>
     (risk_notice m \<longrightarrow> \<not> row_exists (\<lambda>x. risk_notice x \<and> ms_ref_id x = ms_ref_id m) t)"

definition message_foreign :: "message_record \<Rightarrow> pdb \<Rightarrow> bool" where
  "message_foreign m db \<longleftrightarrow> row_exists (\<lambda>w. wk_id w = ms_workspace_id m) (pj_workspaces db) \<and>
     foreign cv_id (ms_conversation_id m) (pj_conversations db) \<and>
     foreign at_id (ms_turn_id m) (pj_turns db)"

definition insert_message_row :: "message_record \<Rightarrow> pdb \<Rightarrow> store_error + pdb" where
  "insert_message_row m db = res_bind
     (sql_insert (message_unique m (pj_messages db) \<and> role_check (ms_role m) \<and> message_foreign m db)
        m (pj_messages db))
     (\<lambda>t. Inr (db\<lparr>pj_messages := t\<rparr>))"

definition insert_conversation_row :: "conversation_record \<Rightarrow> pdb \<Rightarrow> store_error + pdb" where
  "insert_conversation_row c db = res_bind
     (sql_insert (\<not> row_exists (\<lambda>x. cv_id x = cv_id c) (pj_conversations db) \<and>
        row_exists (\<lambda>w. wk_id w = cv_workspace_id c) (pj_workspaces db)) c (pj_conversations db))
     (\<lambda>t. Inr (db\<lparr>pj_conversations := t\<rparr>))"

definition turn_check :: "agent_turn_record \<Rightarrow> bool" where
  "turn_check a \<longleftrightarrow>
     at_status a \<in> {''running'', ''succeeded'', ''clarify'', ''error'', ''interrupted''} \<and>
     (at_status a = ''running'') = (at_completed_at a = None)"

definition turn_foreign :: "pdb \<Rightarrow> agent_turn_record \<Rightarrow> bool" where
  "turn_foreign db a \<longleftrightarrow> row_exists (\<lambda>c. cv_id c = at_conversation_id a) (pj_conversations db) \<and>
     row_exists (\<lambda>w. wk_id w = at_workspace_id a) (pj_workspaces db) \<and>
     foreign ms_id (at_user_message_id a) (pj_messages db)"

definition insert_turn_row :: "agent_turn_record \<Rightarrow> pdb \<Rightarrow> store_error + pdb" where
  "insert_turn_row a db = res_bind
     (sql_insert (\<not> row_exists (\<lambda>x. at_id x = at_id a) (pj_turns db) \<and> turn_check a \<and> turn_foreign db a)
        a (pj_turns db))
     (\<lambda>t. Inr (db\<lparr>pj_turns := t\<rparr>))"

definition observation_check :: "observation_record \<Rightarrow> bool" where
  "observation_check x \<longleftrightarrow> ob_contract_mode x \<in> {''intent'', ''legacy''} \<and>
     ob_outcome x \<in> {''started'', ''success'', ''clarify'', ''error''} \<and>
     (if ob_outcome x = ''started'' then ob_reason_code x = None \<and> ob_completed_at x = None
      else ob_reason_code x \<noteq> None \<and> ob_completed_at x \<noteq> None)"

definition insert_observation_row :: "observation_record \<Rightarrow> pdb \<Rightarrow> store_error + pdb" where
  "insert_observation_row x db = res_bind
     (sql_insert (\<not> row_exists (\<lambda>y. ob_id y = ob_id x) (pj_observations db) \<and>
        \<not> row_exists (\<lambda>y. ob_user_message_id y = ob_user_message_id x) (pj_observations db) \<and>
        observation_check x \<and>
        row_exists (\<lambda>w. wk_id w = ob_workspace_id x) (pj_workspaces db) \<and>
        row_exists (\<lambda>m. ms_id m = ob_user_message_id x) (pj_messages db)) x (pj_observations db))
     (\<lambda>t. Inr (db\<lparr>pj_observations := t\<rparr>))"

definition insert_snapshot_row :: "canvas_snapshot_record \<Rightarrow> pdb \<Rightarrow> store_error + pdb" where
  "insert_snapshot_row x db = res_bind
     (sql_insert (\<not> row_exists (\<lambda>y. sn_workspace_id y = sn_workspace_id x) (pj_snapshots db) \<and>
        0 \<le> sn_revision x \<and>
        row_exists (\<lambda>w. wk_id w = sn_workspace_id x) (pj_workspaces db)) x (pj_snapshots db))
     (\<lambda>t. Inr (db\<lparr>pj_snapshots := t\<rparr>))"

definition assessment_status_check :: "string \<Rightarrow> bool" where
  "assessment_status_check s \<longleftrightarrow>
     s \<in> {''migratable'', ''needs_resolution'', ''already_migrated'', ''failed'', ''conflict''}"

definition insert_assessment_row :: "assessment_record \<Rightarrow> pdb \<Rightarrow> store_error + pdb" where
  "insert_assessment_row a db = res_bind
     (sql_insert (\<not> row_exists (\<lambda>x. va_id x = va_id a) (pj_assessments db) \<and>
        assessment_status_check (va_status a) \<and>
        row_exists (\<lambda>w. wk_id w = va_workspace_id a) (pj_workspaces db) \<and>
        row_exists (\<lambda>v. vr_id v = va_source_version_id a) (pj_versions db)) a (pj_assessments db))
     (\<lambda>t. Inr (db\<lparr>pj_assessments := t\<rparr>))"

text \<open>The foreign keys to versions are deferred to the commit of the operation, which no
  statement that could still add the version precedes.\<close>

definition insert_migration_row :: "version_migration_record \<Rightarrow> pdb \<Rightarrow> store_error + pdb" where
  "insert_migration_row m db = res_bind
     (sql_insert (\<not> row_exists (\<lambda>x. vm_id x = vm_id m) (pj_migrations db) \<and>
        \<not> row_exists (\<lambda>x. vm_workspace_id x = vm_workspace_id m \<and>
             vm_operation_id x = vm_operation_id m) (pj_migrations db) \<and>
        row_exists (\<lambda>w. wk_id w = vm_workspace_id m) (pj_workspaces db) \<and>
        row_exists (\<lambda>v. vr_id v = vm_source_version_id m) (pj_versions db) \<and>
        row_exists (\<lambda>v. vr_id v = vm_target_version_id m) (pj_versions db)) m (pj_migrations db))
     (\<lambda>t. Inr (db\<lparr>pj_migrations := t\<rparr>))"

end
