(* ===== verification/Chat_Store.thy ===== *)
theory Chat_Store
  imports Project_Db "HOL-Library.Product_Lexorder"
begin

text \<open>
  Messages, conversations, agent turns and contract observations
  (crates/store/src/workspace_records.rs, conversation_records.rs,
  agent_contract_observation_records.rs).  An operation whose statements run outside a transaction
  is split where another writer can come between: the part after the first read has a name of its
  own and is a step of its own in the system.
\<close>

section \<open>Messages\<close>

definition message :: "string \<Rightarrow> pdb \<Rightarrow> store_error + message_record" where
  "message message_id db = fetch_one (\<lambda>m. ms_id m = message_id) (pj_messages db)"

definition message_row :: "string \<Rightarrow> timestamp \<Rightarrow> new_message \<Rightarrow> message_record" where
  "message_row new_id now input =
     \<lparr>ms_id = new_id, ms_workspace_id = nx_workspace_id input, ms_role = nx_role input,
      ms_text = nx_text input, ms_kind = nx_kind input, ms_ref_id = nx_ref_id input,
      ms_attachment_ids_json = nx_attachment_ids_json input,
      ms_conversation_id = nx_conversation_id input, ms_turn_id = nx_turn_id input,
      ms_created_at = now\<rparr>"

definition create_message :: "string \<Rightarrow> timestamp \<Rightarrow> new_message \<Rightarrow> pdb \<Rightarrow> message_record project_result" where
  "create_message new_id now input db =
     res_bind (insert_message_row (message_row new_id now input) db) (returning (message new_id))"

definition create_message_once ::
  "string \<Rightarrow> timestamp \<Rightarrow> new_message \<Rightarrow> pdb \<Rightarrow> message_record project_result" where
  "create_message_once new_id now input db =
     (case nx_ref_id input of None \<Rightarrow> create_message new_id now input db
      | Some ref_id \<Rightarrow>
          (let m = message_row new_id now input in
           res_bind (insert_or_ignore (message_unique m (pj_messages db) \<and> role_check (ms_role m))
             (message_foreign m db) m (pj_messages db)) (\<lambda>t.
           returning (\<lambda>db. fetch_one (\<lambda>m. ms_workspace_id m = nx_workspace_id input \<and>
               ms_kind m = nx_kind input \<and> ms_ref_id m = Some ref_id) (pj_messages db))
             (db\<lparr>pj_messages := t\<rparr>))))"

definition by_creation :: "message_record list \<Rightarrow> message_record list" where
  "by_creation = sort_key (\<lambda>m. (ms_created_at m, ms_id m))"

definition workspace_messages :: "string \<Rightarrow> pdb \<Rightarrow> message_record list" where
  "workspace_messages workspace_id db =
     by_creation (filter (\<lambda>m. ms_workspace_id m = workspace_id) (pj_messages db))"

definition conversation_messages :: "string \<Rightarrow> pdb \<Rightarrow> message_record list" where
  "conversation_messages conversation_id db =
     by_creation (filter (\<lambda>m. ms_conversation_id m = Some conversation_id) (pj_messages db))"

definition workspace_message_stats :: "string \<Rightarrow> pdb \<Rightarrow> int \<times> string option" where
  "workspace_message_stats workspace_id db =
     (int (length (filter (\<lambda>m. ms_workspace_id m = workspace_id \<and> ms_role m = ''user'') (pj_messages db))),
      case by_creation (filter (\<lambda>m. ms_workspace_id m = workspace_id \<and> ms_role m = ''user'' \<and>
             ms_text m \<noteq> None) (pj_messages db)) of
        [] \<Rightarrow> None
      | m # _ \<Rightarrow> ms_text m)"

text \<open>The UPDATE of \<open>updated_at\<close> that follows a write to a conversation.\<close>

definition touch_conversation :: "timestamp \<Rightarrow> string \<Rightarrow> pdb \<Rightarrow> pdb" where
  "touch_conversation now conversation_id db = db\<lparr>pj_conversations :=
     map (\<lambda>c. if cv_id c = conversation_id then c\<lparr>cv_updated_at := now\<rparr> else c) (pj_conversations db)\<rparr>"

definition assign_message_context ::
  "timestamp \<Rightarrow> string \<Rightarrow> string \<Rightarrow> string option \<Rightarrow> pdb \<Rightarrow> message_record project_result" where
  "assign_message_context now message_id conversation_id turn_id db =
     res_bind (sql_update (\<lambda>m. message_foreign m db) (\<lambda>m. ms_id m = message_id)
       (\<lambda>m. m\<lparr>ms_conversation_id := Some conversation_id, ms_turn_id := turn_id\<rparr>)
       (pj_messages db)) (\<lambda>(t, n).
     if n \<noteq> 1 then Inl (SE_StatementInvariant ''assign_message_context'' 1 n)
     else returning (message message_id) (touch_conversation now conversation_id (db\<lparr>pj_messages := t\<rparr>)))"

section \<open>Conversations\<close>

definition conversation :: "string \<Rightarrow> string \<Rightarrow> pdb \<Rightarrow> store_error + conversation_record" where
  "conversation workspace_id conversation_id db =
     fetch_one (\<lambda>c. cv_id c = conversation_id \<and> cv_workspace_id c = workspace_id \<and>
       cv_archived_at c = None) (pj_conversations db)"

text \<open>\<open>INSERT ... SELECT ... FROM workspaces\<close> inserts nothing when the workspace is
  missing.\<close>

definition create_conversation ::
  "string \<Rightarrow> timestamp \<Rightarrow> string \<Rightarrow> string \<Rightarrow> pdb \<Rightarrow> conversation_record project_result" where
  "create_conversation new_id now workspace_id title db =
     (if \<not> row_exists (\<lambda>w. wk_id w = workspace_id) (pj_workspaces db) then Inl (SE_Sqlx RowNotFound)
      else res_bind (insert_conversation_row
        \<lparr>cv_id = new_id, cv_workspace_id = workspace_id, cv_title = title, cv_codex_thread_id = None,
         cv_created_at = now, cv_updated_at = now, cv_archived_at = None\<rparr> db)
        (returning (conversation workspace_id new_id)))"

definition workspace_conversations :: "string \<Rightarrow> pdb \<Rightarrow> conversation_record list" where
  "workspace_conversations workspace_id db = rev (sort_key (\<lambda>c. (cv_updated_at c, cv_id c))
     (filter (\<lambda>c. cv_workspace_id c = workspace_id \<and> cv_archived_at c = None) (pj_conversations db)))"

text \<open>The default title in UTF-8.\<close>

definition default_title :: string where
  "default_title = map (char_of :: nat \<Rightarrow> char)
     [0xE6, 0x96, 0xB0, 0xE5, 0xAF, 0xB9, 0xE8, 0xAF, 0x9D]"

definition ensure_workspace_conversation ::
  "string \<Rightarrow> timestamp \<Rightarrow> string \<Rightarrow> pdb \<Rightarrow> conversation_record project_result" where
  "ensure_workspace_conversation new_id now workspace_id db =
     (case newest_by (\<lambda>c. (cv_updated_at c, cv_id c))
        (filter (\<lambda>c. cv_workspace_id c = workspace_id \<and> cv_archived_at c = None) (pj_conversations db)) of
        Some c \<Rightarrow> Inr (db, c)
      | None \<Rightarrow> create_conversation new_id now workspace_id default_title db)"

definition bind_thread ::
  "timestamp \<Rightarrow> string \<Rightarrow> string \<Rightarrow> string \<Rightarrow> pdb \<Rightarrow> conversation_record project_result" where
  "bind_thread now workspace_id conversation_id codex_thread_id db =
     res_bind (sql_update (\<lambda>_. True) (\<lambda>c. cv_id c = conversation_id \<and>
         cv_workspace_id c = workspace_id \<and> cv_codex_thread_id c = None)
       (\<lambda>c. c\<lparr>cv_codex_thread_id := Some codex_thread_id, cv_updated_at := now\<rparr>)
       (pj_conversations db)) (\<lambda>(t, n).
     res_bind (returning (conversation workspace_id conversation_id) (db\<lparr>pj_conversations := t\<rparr>))
       (\<lambda>(db, bound).
     if cv_codex_thread_id bound = Some codex_thread_id then Inr (db, bound)
     else Inl (SE_AgentContractObservationInvariant ''CODEX_THREAD_ID_CONFLICT'')))"

definition bind_conversation_codex_thread ::
  "timestamp \<Rightarrow> string \<Rightarrow> string \<Rightarrow> string \<Rightarrow> pdb \<Rightarrow> conversation_record project_result" where
  "bind_conversation_codex_thread now workspace_id conversation_id codex_thread_id db =
     res_bind (conversation workspace_id conversation_id db) (\<lambda>c.
     case cv_codex_thread_id c of
       Some existing \<Rightarrow>
         if existing = codex_thread_id then Inr (db, c)
         else Inl (SE_AgentContractObservationInvariant ''CODEX_THREAD_ID_CONFLICT'')
     | None \<Rightarrow> bind_thread now workspace_id conversation_id codex_thread_id db)"

section \<open>Agent turns\<close>

definition agent_turn :: "string \<Rightarrow> pdb \<Rightarrow> store_error + agent_turn_record" where
  "agent_turn turn_id db = fetch_one (\<lambda>a. at_id a = turn_id) (pj_turns db)"

definition conversation_turns :: "string \<Rightarrow> pdb \<Rightarrow> agent_turn_record list" where
  "conversation_turns conversation_id db = sort_key (\<lambda>a. (at_started_at a, at_id a))
     (filter (\<lambda>a. at_conversation_id a = conversation_id) (pj_turns db))"

definition workspace_agent_turns :: "string \<Rightarrow> pdb \<Rightarrow> agent_turn_record list" where
  "workspace_agent_turns workspace_id db = sort_key (\<lambda>a. (at_started_at a, at_id a))
     (filter (\<lambda>a. at_workspace_id a = workspace_id) (pj_turns db))"

definition start_agent_turn_with_id ::
  "timestamp \<Rightarrow> string \<Rightarrow> string \<Rightarrow> string \<Rightarrow> string \<Rightarrow> pdb \<Rightarrow> agent_turn_record project_result" where
  "start_agent_turn_with_id now turn_id workspace_id conversation_id mode db =
     (if \<not> row_exists (\<lambda>c. cv_id c = conversation_id \<and> cv_workspace_id c = workspace_id \<and>
            cv_archived_at c = None) (pj_conversations db)
      then Inl (SE_Sqlx RowNotFound)
      else res_bind (insert_turn_row
        \<lparr>at_id = turn_id, at_conversation_id = conversation_id, at_workspace_id = workspace_id,
         at_user_message_id = None, at_execution_id = None, at_codex_turn_id = None, at_mode = mode,
         at_status = ''running'', at_reason_code = None, at_started_at = now,
         at_completed_at = None\<rparr> db) (\<lambda>db.
      returning (agent_turn turn_id) (touch_conversation now conversation_id db)))"

definition attach_turn_user_message :: "string \<Rightarrow> string \<Rightarrow> pdb \<Rightarrow> unit project_result" where
  "attach_turn_user_message turn_id user_message_id db =
     res_bind (sql_update (turn_foreign db)
       (\<lambda>a. at_id a = turn_id \<and> at_status a = ''running'' \<and> at_user_message_id a = None)
       (\<lambda>a. a\<lparr>at_user_message_id := Some user_message_id\<rparr>) (pj_turns db)) (\<lambda>(t, n).
     if n \<noteq> 1 then Inl (SE_StatementInvariant ''attach_turn_user_message'' 1 n)
     else Inr (db\<lparr>pj_turns := t\<rparr>, ()))"

text \<open>The UPDATE that settles a running turn.\<close>

definition settle_turn_rows ::
  "timestamp \<Rightarrow> string \<Rightarrow> string \<Rightarrow> string option \<Rightarrow> string option \<Rightarrow> (agent_turn_record \<Rightarrow> bool) \<Rightarrow>
   pdb \<Rightarrow> store_error + agent_turn_record list \<times> nat" where
  "settle_turn_rows now turn_id status reason_code execution_id P db =
     sql_update turn_check (\<lambda>a. at_id a = turn_id \<and> P a \<and> at_status a = ''running'')
       (\<lambda>a. a\<lparr>at_status := status, at_reason_code := reason_code, at_execution_id := execution_id,
          at_completed_at := Some now\<rparr>) (pj_turns db)"

definition finalize_agent_turn ::
  "timestamp \<Rightarrow> string \<Rightarrow> string \<Rightarrow> string option \<Rightarrow> string option \<Rightarrow> pdb \<Rightarrow>
   agent_turn_record project_result" where
  "finalize_agent_turn now turn_id status reason_code execution_id db =
     (if status \<notin> {''succeeded'', ''clarify'', ''error'', ''interrupted''}
      then Inl (SE_AgentContractObservationInvariant ''INVALID_AGENT_TURN_STATUS'')
      else res_bind (settle_turn_rows now turn_id status reason_code execution_id (\<lambda>_. True) db) (\<lambda>(t, n).
      res_bind (returning (agent_turn turn_id) (db\<lparr>pj_turns := t\<rparr>)) (\<lambda>(db, turn).
      if n = 1 \<or> (at_status turn = status \<and> at_reason_code turn = reason_code \<and>
           at_execution_id turn = execution_id)
      then Inr (db, turn)
      else Inl (SE_AgentContractObservationInvariant ''AGENT_TURN_TERMINAL_CONFLICT''))))"

definition finalize_interrupted_agent_turns :: "timestamp \<Rightarrow> pdb \<Rightarrow> nat project_result" where
  "finalize_interrupted_agent_turns now db =
     res_bind (sql_update turn_check (\<lambda>a. at_status a = ''running'')
       (\<lambda>a. a\<lparr>at_status := ''interrupted'', at_reason_code := Some ''PROCESS_INTERRUPTED'',
          at_completed_at := Some now\<rparr>) (pj_turns db)) (\<lambda>(t, n). Inr (db\<lparr>pj_turns := t\<rparr>, n))"

definition attach_agent_turn_codex_identity ::
  "string \<Rightarrow> string \<Rightarrow> pdb \<Rightarrow> agent_turn_record project_result" where
  "attach_agent_turn_codex_identity turn_id codex_turn_id db =
     res_bind (sql_update (\<lambda>_. True) (\<lambda>a. at_id a = turn_id \<and> at_codex_turn_id a = None)
       (\<lambda>a. a\<lparr>at_codex_turn_id := Some codex_turn_id\<rparr>) (pj_turns db)) (\<lambda>(t, n).
     res_bind (returning (agent_turn turn_id) (db\<lparr>pj_turns := t\<rparr>)) (\<lambda>(db, turn).
     if n = 1 \<or> at_codex_turn_id turn = Some codex_turn_id then Inr (db, turn)
     else Inl (SE_AgentContractObservationInvariant ''CODEX_TURN_ID_CONFLICT'')))"

section \<open>Contract observations\<close>

definition agent_contract_observation :: "string \<Rightarrow> pdb \<Rightarrow> store_error + observation_record" where
  "agent_contract_observation observation_id db =
     fetch_one (\<lambda>x. ob_id x = observation_id) (pj_observations db)"

definition valid_identity :: "string \<Rightarrow> nat \<Rightarrow> bool" where
  "valid_identity value max_len \<longleftrightarrow> value \<noteq> [] \<and> length value \<le> max_len \<and>
     list_all (\<lambda>c. is_ascii_uppercase c \<or> is_ascii_lowercase c \<or> is_ascii_digit c \<or>
       c = CHR ''.'' \<or> c = CHR ''-'' \<or> c = CHR ''_'') value"

definition valid_stable_code :: "string \<Rightarrow> nat \<Rightarrow> bool" where
  "valid_stable_code value max_len \<longleftrightarrow> value \<noteq> [] \<and> length value \<le> max_len \<and>
     list_all (\<lambda>c. is_ascii_uppercase c \<or> is_ascii_digit c \<or> c = CHR ''_'') value"

definition validate_user_message :: "new_message \<Rightarrow> store_error + unit" where
  "validate_user_message m =
     (if nx_role m = ''user'' \<and> nx_kind m = ''text'' \<and> nx_text m \<noteq> None then Inr ()
      else Inl (SE_AgentContractObservationInvariant ''INVALID_USER_MESSAGE''))"

definition validate_completion :: "complete_observation \<Rightarrow> store_error + unit" where
  "validate_completion input =
     (if oc_outcome input = OutcomeStarted \<or> \<not> valid_stable_code (oc_reason_code input) 128 \<or>
         oc_observation_id input = [] \<or> oc_workspace_id input = []
      then Inl (SE_AgentContractObservationInvariant ''INVALID_TERMINAL_COMPLETION'')
      else Inr ())"

definition validate_optional_identity :: "string \<Rightarrow> string option \<Rightarrow> nat \<Rightarrow> store_error + unit" where
  "validate_optional_identity code value max_len =
     (if (case value of None \<Rightarrow> True | Some v \<Rightarrow> valid_identity v max_len) then Inr ()
      else Inl (SE_AgentContractObservationInvariant code))"

definition create_graph_edit_message_with_observation_id ::
  "string \<Rightarrow> timestamp \<Rightarrow> new_observation \<Rightarrow> string \<Rightarrow> pdb \<Rightarrow>
   (message_record \<times> observation_record) project_result" where
  "create_graph_edit_message_with_observation_id message_id now input observation_id db =
     res_bind (validate_user_message (no_user_message input)) (\<lambda>_.
     res_bind (validate_optional_identity ''INVALID_RELEASE_ID'' (no_release_id input) 64) (\<lambda>_.
     res_bind (validate_optional_identity ''INVALID_BUILD_REVISION'' (no_build_revision input) 128) (\<lambda>_.
     res_bind (insert_message_row (message_row message_id now (no_user_message input)) db) (\<lambda>db.
     res_bind (insert_observation_row
       \<lparr>ob_id = observation_id, ob_workspace_id = nx_workspace_id (no_user_message input),
        ob_user_message_id = message_id, ob_session_id = None,
        ob_contract_mode = contract_mode_as_str (no_contract_mode input), ob_outcome = ''started'',
        ob_reason_code = None, ob_release_id = no_release_id input,
        ob_build_revision = no_build_revision input, ob_started_at = now,
        ob_completed_at = None\<rparr> db) (\<lambda>db.
     res_bind (message message_id db) (\<lambda>m.
     res_bind (agent_contract_observation observation_id db) (\<lambda>x. Inr (db, m, x))))))))"

definition complete_observation_in_tx ::
  "timestamp \<Rightarrow> complete_observation \<Rightarrow> pdb \<Rightarrow> observation_record project_result" where
  "complete_observation_in_tx now input db =
     res_bind (validate_completion input) (\<lambda>_.
     res_bind (sql_update observation_check (\<lambda>x. ob_id x = oc_observation_id input \<and>
         ob_workspace_id x = oc_workspace_id input \<and>
         ob_contract_mode x = contract_mode_as_str (oc_contract_mode input) \<and>
         ob_outcome x = ''started'')
       (\<lambda>x. x\<lparr>ob_outcome := outcome_as_str (oc_outcome input),
          ob_reason_code := Some (oc_reason_code input), ob_session_id := oc_session_id input,
          ob_completed_at := Some now\<rparr>) (pj_observations db)) (\<lambda>(t, n).
     res_bind (returning (agent_contract_observation (oc_observation_id input))
       (db\<lparr>pj_observations := t\<rparr>)) (\<lambda>(db, existing).
     if n = 1 \<or> (ob_workspace_id existing = oc_workspace_id input \<and>
          ob_contract_mode existing = contract_mode_as_str (oc_contract_mode input) \<and>
          ob_outcome existing = outcome_as_str (oc_outcome input) \<and>
          ob_reason_code existing = Some (oc_reason_code input) \<and>
          ob_session_id existing = oc_session_id input)
     then Inr (db, existing)
     else Inl (SE_AgentContractObservationInvariant ''TERMINAL_COMPLETION_CONFLICT''))))"

definition create_clarification_and_finalize_observation ::
  "string \<Rightarrow> timestamp \<Rightarrow> new_message \<Rightarrow> complete_observation \<Rightarrow> pdb \<Rightarrow>
   (message_record \<times> observation_record) project_result" where
  "create_clarification_and_finalize_observation message_id now input completion db =
     (if nx_workspace_id input \<noteq> oc_workspace_id completion \<or> nx_role input \<noteq> ''agent'' \<or>
         nx_kind input \<noteq> ''clarify'' \<or> oc_outcome completion \<noteq> OutcomeClarify
      then Inl (SE_AgentContractObservationInvariant ''INVALID_CLARIFICATION_COMPLETION'')
      else res_bind (insert_message_row (message_row message_id now input) db) (\<lambda>db.
      res_bind (complete_observation_in_tx now completion db) (\<lambda>(db, x).
      res_bind (message message_id db) (\<lambda>m. Inr (db, m, x)))))"

definition finalize_interrupted_agent_contract_observations :: "timestamp \<Rightarrow> pdb \<Rightarrow> nat project_result" where
  "finalize_interrupted_agent_contract_observations now db =
     res_bind (sql_update observation_check (\<lambda>x. ob_outcome x = ''started'')
       (\<lambda>x. x\<lparr>ob_outcome := ''error'', ob_reason_code := Some ''PROCESS_INTERRUPTED'',
          ob_completed_at := Some now\<rparr>) (pj_observations db))
       (\<lambda>(t, n). Inr (db\<lparr>pj_observations := t\<rparr>, n))"

section \<open>Turns whose request disappeared\<close>

text \<open>The four texts shown, in UTF-8: completed, needs information, failed, interrupted.\<close>

definition recovered_success_text :: string where
  "recovered_success_text = ''Agent '' @ map (char_of :: nat \<Rightarrow> char)
     [0xE8, 0xAF, 0xB7, 0xE6, 0xB1, 0x82, 0xE5, 0xB7, 0xB2, 0xE6, 0x88, 0x90, 0xE5, 0x8A, 0x9F,
      0xE5, 0xAE, 0x8C, 0xE6, 0x88, 0x90, 0xEF, 0xBC, 0x9B, 0xE7, 0xBB, 0x88, 0xE6, 0x80, 0x81,
      0xE5, 0xB7, 0xB2, 0xE4, 0xBB, 0x8E, 0xE6, 0x8C, 0x81, 0xE4, 0xB9, 0x85, 0xE5, 0x8C, 0x96,
      0xE6, 0x89, 0xA7, 0xE8, 0xA1, 0x8C, 0xE7, 0xBB, 0x93, 0xE6, 0x9E, 0x9C, 0xE6, 0x81, 0xA2,
      0xE5, 0xA4, 0x8D, 0xE3, 0x80, 0x82]"

definition recovered_clarify_text :: string where
  "recovered_clarify_text = ''Agent '' @ map (char_of :: nat \<Rightarrow> char)
     [0xE9, 0x9C, 0x80, 0xE8, 0xA6, 0x81, 0xE8, 0xA1, 0xA5, 0xE5, 0x85, 0x85, 0xE4, 0xBF, 0xA1,
      0xE6, 0x81, 0xAF, 0xEF, 0xBC, 0x9B, 0xE8, 0xAF, 0xB7, 0xE5, 0x88, 0xB7, 0xE6, 0x96, 0xB0,
      0xE5, 0xB7, 0xA5, 0xE4, 0xBD, 0x9C, 0xE5, 0x8F, 0xB0, 0xE6, 0x9F, 0xA5, 0xE7, 0x9C, 0x8B,
      0xE5, 0xB9, 0xB6, 0xE7, 0xBB, 0xA7, 0xE7, 0xBB, 0xAD, 0xE6, 0x9C, 0xAC, 0xE8, 0xBD, 0xAE,
      0xE3, 0x80, 0x82]"

definition recovered_error_text :: string where
  "recovered_error_text = ''Agent '' @ map (char_of :: nat \<Rightarrow> char)
     [0xE8, 0xAF, 0xB7, 0xE6, 0xB1, 0x82, 0xE6, 0x89, 0xA7, 0xE8, 0xA1, 0x8C, 0xE5, 0xA4, 0xB1,
      0xE8, 0xB4, 0xA5, 0xEF, 0xBC, 0x9B, 0xE7, 0xBB, 0x88, 0xE6, 0x80, 0x81, 0xE5, 0xB7, 0xB2,
      0xE4, 0xBB, 0x8E, 0xE6, 0x8C, 0x81, 0xE4, 0xB9, 0x85, 0xE5, 0x8C, 0x96, 0xE6, 0x89, 0xA7,
      0xE8, 0xA1, 0x8C, 0xE7, 0xBB, 0x93, 0xE6, 0x9E, 0x9C, 0xE6, 0x81, 0xA2, 0xE5, 0xA4, 0x8D,
      0xE3, 0x80, 0x82]"

definition dropped_text :: string where
  "dropped_text = ''Agent '' @ map (char_of :: nat \<Rightarrow> char)
     [0xE8, 0xAF, 0xB7, 0xE6, 0xB1, 0x82, 0xE5, 0xB7, 0xB2, 0xE4, 0xB8, 0xAD, 0xE6, 0x96, 0xAD,
      0xE3, 0x80, 0x82, 0xE6, 0x9C, 0xAC, 0xE8, 0xBD, 0xAE, 0xE5, 0xB7, 0xB2, 0xE5, 0xAE, 0x89,
      0xE5, 0x85, 0xA8, 0xE7, 0xBB, 0x93, 0xE6, 0x9D, 0x9F, 0xEF, 0xBC, 0x8C, 0xE5, 0x8F, 0xAF,
      0xE4, 0xBB, 0xA5, 0xE9, 0x87, 0x8D, 0xE6, 0x96, 0xB0, 0xE5, 0x8F, 0x91, 0xE9, 0x80, 0x81,
      0xE3, 0x80, 0x82]"

text \<open>The outcome recorded for a turn: status, reason, execution, the message to add if none
  is there, and whether the observation is closed with it.  \<open>obs\<close> is the observation's
  outcome, reason and session.\<close>

definition recovered_outcome ::
  "string \<Rightarrow> store_error + string \<times> (string \<times> string)" where
  "recovered_outcome outcome =
     (if outcome = ''success'' then Inr (''succeeded'', ''agent_status'', recovered_success_text)
      else if outcome = ''clarify'' then Inr (''clarify'', ''clarify'', recovered_clarify_text)
      else if outcome = ''error'' then Inr (''error'', ''agent_error'', recovered_error_text)
      else Inl (SE_AgentContractObservationInvariant ''INVALID_DROPPED_TURN_OBSERVATION_OUTCOME''))"

definition dropped_outcome ::
  "observation_record option \<Rightarrow> message_record option \<Rightarrow>
   store_error + (string \<times> string option \<times> string option \<times> (string \<times> string) option) \<times> bool" where
  "dropped_outcome obs existing =
     (let interrupted = Inr ((''interrupted'', Some ''REQUEST_DROPPED'', None,
            Some (''agent_interrupted'', dropped_text)), True) in
      case obs of
        Some x \<Rightarrow>
          if ob_outcome x \<noteq> ''started''
          then res_bind (recovered_outcome (ob_outcome x)) (\<lambda>(status, recovery).
            Inr ((status, ob_reason_code x, ob_session_id x, Some recovery), False))
          else interrupted
      | None \<Rightarrow>
          (case existing of
             Some m \<Rightarrow>
               Inr (if ms_kind m = ''agent_error'' \<or> ms_kind m = ''run_failed''
                    then (''error'', Some ''TERMINAL_ERROR_PERSISTED'', ms_ref_id m, None)
                    else if ms_kind m = ''agent_interrupted''
                    then (''interrupted'', Some ''USER_INTERRUPTED'', ms_ref_id m, None)
                    else (''succeeded'', None, ms_ref_id m, None), False)
           | None \<Rightarrow> interrupted))"

text \<open>The started observation becomes an error.\<close>

definition close_dropped_observation ::
  "timestamp \<Rightarrow> observation_record option \<Rightarrow> pdb \<Rightarrow> store_error + pdb" where
  "close_dropped_observation now obs db =
     (case obs of None \<Rightarrow> Inr db
      | Some x \<Rightarrow>
          res_bind (sql_update observation_check (\<lambda>y. ob_id y = ob_id x \<and>
              ob_workspace_id y = ob_workspace_id x \<and> ob_outcome y = ''started'')
            (\<lambda>y. y\<lparr>ob_outcome := ''error'', ob_reason_code := Some ''REQUEST_DROPPED'',
               ob_completed_at := Some now\<rparr>) (pj_observations db)) (\<lambda>(t, n).
          if n \<noteq> 1
          then Inl (SE_AgentContractObservationInvariant ''DROPPED_TURN_OBSERVATION_CONFLICT'')
          else Inr (db\<lparr>pj_observations := t\<rparr>)))"

definition primary_message :: "string \<Rightarrow> pdb \<Rightarrow> message_record option" where
  "primary_message turn_id db = newest_by (\<lambda>m. (ms_created_at m, ms_id m))
     (filter (\<lambda>m. ms_turn_id m = Some turn_id \<and> ms_role m = ''agent'' \<and>
        \<not> sql_like ''agent_log:%'' (ms_kind m)) (pj_messages db))"

definition turn_observation :: "agent_turn_record \<Rightarrow> string option \<Rightarrow> pdb \<Rightarrow> observation_record option" where
  "turn_observation current observation_id db = Option.bind observation_id (\<lambda>i.
     fetch_optional (\<lambda>x. ob_id x = i \<and> ob_workspace_id x = at_workspace_id current) (pj_observations db))"

text \<open>The recovery message, unless the turn already has one.\<close>

definition add_recovery_message ::
  "string \<Rightarrow> timestamp \<Rightarrow> agent_turn_record \<Rightarrow> message_record option \<Rightarrow> string option \<Rightarrow>
   (string \<times> string) option \<Rightarrow> pdb \<Rightarrow> message_record option project_result" where
  "add_recovery_message message_id now current existing execution_id recovery db =
     (case (recovery, existing) of
        (Some (kind, text), None) \<Rightarrow>
          res_bind (insert_message_row (message_row message_id now
            \<lparr>nx_workspace_id = at_workspace_id current, nx_role = ''agent'', nx_kind = kind,
             nx_text = Some text, nx_ref_id = execution_id, nx_attachment_ids_json = None,
             nx_conversation_id = Some (at_conversation_id current),
             nx_turn_id = Some (at_id current)\<rparr>) db) (\<lambda>db.
          res_bind (message message_id db) (\<lambda>m. Inr (db, Some m)))
      | _ \<Rightarrow> Inr (db, None))"

definition settle_running_turn ::
  "string \<Rightarrow> timestamp \<Rightarrow> agent_turn_record \<Rightarrow> string option \<Rightarrow> pdb \<Rightarrow>
   (agent_turn_record \<times> message_record option) option project_result" where
  "settle_running_turn message_id now current observation_id db =
     (let obs = turn_observation current observation_id db;
          existing = primary_message (at_id current) db in
      res_bind (dropped_outcome obs existing) (\<lambda>((status, reason_code, execution_id, recovery), close).
      res_bind (if close then close_dropped_observation now obs db else Inr db) (\<lambda>db1.
      res_bind (add_recovery_message message_id now current existing execution_id recovery db1) (\<lambda>(db2, m).
      res_bind (settle_turn_rows now (at_id current) status reason_code execution_id (\<lambda>_. True) db2) (\<lambda>(t, n).
      if n \<noteq> 1 then Inr (db, None)
      else
      let db3 = touch_conversation now (at_conversation_id current) (db2\<lparr>pj_turns := t\<rparr>) in
      res_bind (agent_turn (at_id current) db3) (\<lambda>turn. Inr (db3, Some (turn, m))))))))"

definition settle_dropped_agent_turn ::
  "string \<Rightarrow> timestamp \<Rightarrow> string \<Rightarrow> string option \<Rightarrow> pdb \<Rightarrow>
   (agent_turn_record \<times> message_record option) option project_result" where
  "settle_dropped_agent_turn message_id now turn_id observation_id db =
     (case fetch_optional (\<lambda>a. at_id a = turn_id) (pj_turns db) of
        None \<Rightarrow> Inr (db, None)
      | Some current \<Rightarrow>
          if at_status current \<noteq> ''running'' then Inr (db, None)
          else settle_running_turn message_id now current observation_id db)"

section \<open>Evidence\<close>

text \<open>\<open>agent_contract_evidence\<close> for bounds written as \<open>current_timestamp\<close>
  writes them.\<close>

record evidence_filter =
  ev_since :: timestamp
  ev_until :: timestamp
  ev_release_id :: "string option"
  ev_build_revision :: "string option"

type_synonym evidence_key = "string \<times> string \<times> string option"

record evidence_aggregate =
  ea_groups :: "(evidence_key \<times> nat) list"
  ea_unattributed :: nat
  ea_in_flight :: nat

definition evidence_key :: "observation_record \<Rightarrow> evidence_key" where
  "evidence_key x = (ob_contract_mode x, ob_outcome x, ob_reason_code x)"

definition agent_contract_evidence :: "evidence_filter \<Rightarrow> pdb \<Rightarrow> store_error + evidence_aggregate" where
  "agent_contract_evidence f db =
     (if ev_until f \<le> ev_since f
      then Inl (SE_AgentContractObservationInvariant ''INVALID_EVIDENCE_WINDOW'')
      else
      res_bind (validate_optional_identity ''INVALID_RELEASE_ID'' (ev_release_id f) 64) (\<lambda>_.
      res_bind (validate_optional_identity ''INVALID_BUILD_REVISION'' (ev_build_revision f) 128) (\<lambda>_.
      let window = filter (\<lambda>x. ev_since f \<le> ob_started_at x \<and> ob_started_at x < ev_until f)
            (pj_observations db);
          chosen = filter (\<lambda>x. (ev_release_id f = None \<or> ob_release_id x = ev_release_id f) \<and>
            (ev_build_revision f = None \<or> ob_build_revision x = ev_build_revision f)) window;
          keys = dedup (sort (map evidence_key chosen)) in
      Inr \<lparr>ea_groups = map (\<lambda>k. (k, length (filter (\<lambda>x. evidence_key x = k) chosen))) keys,
           ea_unattributed = length (filter (\<lambda>x. ob_release_id x = None \<or> ob_build_revision x = None) window),
           ea_in_flight = length (filter (\<lambda>x. ob_outcome x = ''started'') window)\<rparr>)))"

end
