(* ===== verification/Project_Store.thy ===== *)
theory Project_Store
  imports Chat_Store
begin

text \<open>
  Workspaces, versions, proposals and version migrations (crates/store/src/version_records.rs,
  proposal_records.rs, workspace_records.rs, workspace_initialization_records.rs,
  version_migration_records.rs, version_file_reference_records.rs).  A version is only ever
  appended; the current version of a workspace moves by compare-and-swap on \<open>cur_version_id\<close>
  inside one write transaction.
\<close>

section \<open>Workspaces\<close>

definition workspace :: "string \<Rightarrow> pdb \<Rightarrow> store_error + workspace_record" where
  "workspace workspace_id db = fetch_one (\<lambda>w. wk_id w = workspace_id) (pj_workspaces db)"

definition new_workspace_row :: "string \<Rightarrow> timestamp \<Rightarrow> string \<Rightarrow> workspace_record" where
  "new_workspace_row new_id now name =
     \<lparr>wk_id = new_id, wk_name = name, wk_cur_version_id = None, wk_runtime_provider_id = None,
      wk_created_at = now, wk_updated_at = now\<rparr>"

definition initial_snapshot :: "string \<Rightarrow> canvas_snapshot_record" where
  "initial_snapshot workspace_id = \<lparr>sn_workspace_id = workspace_id, sn_revision = 0,
     sn_nodes_json = ''{}'', sn_viewport_json = None\<rparr>"

definition create_workspace :: "string \<Rightarrow> timestamp \<Rightarrow> string \<Rightarrow> pdb \<Rightarrow> workspace_record project_result" where
  "create_workspace new_id now name db =
     res_bind (insert_workspace (new_workspace_row new_id now name) db) (\<lambda>db.
     res_bind (insert_snapshot_row (initial_snapshot new_id) db) (returning (workspace new_id)))"

definition set_workspace_runtime_provider ::
  "timestamp \<Rightarrow> string \<Rightarrow> string option \<Rightarrow> pdb \<Rightarrow> workspace_record project_result" where
  "set_workspace_runtime_provider now workspace_id provider_id db =
     res_bind (sql_update (\<lambda>_. True) (\<lambda>w. wk_id w = workspace_id)
       (\<lambda>w. w\<lparr>wk_runtime_provider_id := provider_id, wk_updated_at := now\<rparr>) (pj_workspaces db)) (\<lambda>(t, n).
     returning (workspace workspace_id) (db\<lparr>pj_workspaces := t\<rparr>))"

definition workspaces :: "pdb \<Rightarrow> workspace_record list" where
  "workspaces db = rev (sort_key (\<lambda>w. (wk_updated_at w, wk_id w)) (pj_workspaces db))"

record workspace_summary =
  su_id :: string
  su_name :: string
  su_version_id :: string
  su_updated_at :: timestamp
  su_message_count :: int
  su_first_message :: "string option"

definition workspace_summaries :: "pdb \<Rightarrow> workspace_summary list" where
  "workspace_summaries db = map (\<lambda>w.
     let (count, first) = workspace_message_stats (wk_id w) db in
     \<lparr>su_id = wk_id w, su_name = wk_name w,
      su_version_id = (case wk_cur_version_id w of None \<Rightarrow> [] | Some v \<Rightarrow> v),
      su_updated_at = wk_updated_at w, su_message_count = count, su_first_message = first\<rparr>)
     (workspaces db)"

section \<open>Versions\<close>

definition version :: "string \<Rightarrow> pdb \<Rightarrow> store_error + version_record" where
  "version version_id db = fetch_one (\<lambda>v. vr_id v = version_id) (pj_versions db)"

text \<open>\<open>COALESCE(MAX(idx), 0) + 1\<close>\<close>

definition next_idx :: "string \<Rightarrow> version_record list \<Rightarrow> int" where
  "next_idx workspace_id vs =
     (let idxs = map vr_idx (filter (\<lambda>v. vr_workspace_id v = workspace_id) vs)
      in (if idxs = [] then 0 else foldr max idxs (hd idxs)) + 1)"

definition version_row :: "string \<Rightarrow> timestamp \<Rightarrow> int \<Rightarrow> new_version \<Rightarrow> version_record" where
  "version_row new_id now idx input =
     \<lparr>vr_id = new_id, vr_workspace_id = nv_workspace_id input, vr_idx = idx, vr_label = nv_label input,
      vr_source = version_source_as_str (nv_source input), vr_graph_path = nv_graph_path input,
      vr_graph_hash = nv_graph_hash input, vr_parent_id = nv_parent_id input,
      vr_semantics_json = nv_semantics_json input, vr_created_at = now\<rparr>"

definition has_pending :: "string \<Rightarrow> pdb \<Rightarrow> bool" where
  "has_pending workspace_id db =
     row_exists (\<lambda>p. pl_workspace_id p = workspace_id \<and> pl_state p = ''pending'') (pj_proposals db)"

text \<open>The compare-and-swap of the current version: \<open>P\<close> is the WHERE clause beyond the
  identifier.\<close>

definition advance_current ::
  "timestamp \<Rightarrow> string \<Rightarrow> string \<Rightarrow> (workspace_record \<Rightarrow> bool) \<Rightarrow> pdb \<Rightarrow> store_error + pdb \<times> nat" where
  "advance_current now workspace_id version_id P db =
     res_bind (sql_update (\<lambda>_. True) (\<lambda>w. wk_id w = workspace_id \<and> P w)
       (\<lambda>w. w\<lparr>wk_cur_version_id := Some version_id, wk_updated_at := now\<rparr>) (pj_workspaces db))
       (\<lambda>(t, n). Inr (db\<lparr>pj_workspaces := t\<rparr>, n))"

definition actual_version :: "string \<Rightarrow> pdb \<Rightarrow> string option" where
  "actual_version workspace_id db =
     (case fetch_optional (\<lambda>w. wk_id w = workspace_id) (pj_workspaces db) of
        None \<Rightarrow> None | Some w \<Rightarrow> wk_cur_version_id w)"

definition insert_version ::
  "string \<Rightarrow> timestamp \<Rightarrow> new_version \<Rightarrow> string option \<Rightarrow> bool \<Rightarrow> pdb \<Rightarrow> version_record project_result" where
  "insert_version version_id now input expected reject_pending db =
     (if expected \<noteq> None \<and> nv_parent_id input \<noteq> expected
      then Inl (SE_VersionParentMismatch (nv_workspace_id input) (the expected) (nv_parent_id input))
      else
      res_bind (insert_version_row
        (version_row version_id now (next_idx (nv_workspace_id input) (pj_versions db)) input) db) (\<lambda>db.
      res_bind (advance_current now (nv_workspace_id input) version_id
        (\<lambda>w. case expected of None \<Rightarrow> True
           | Some e \<Rightarrow> wk_cur_version_id w = Some e \<and>
               (reject_pending \<longrightarrow> \<not> has_pending (wk_id w) db)) db) (\<lambda>(db, n).
      if n = 0 then
        (case expected of None \<Rightarrow> Inl (SE_StatementInvariant ''advance_unconditional_version'' 1 0)
         | Some e \<Rightarrow>
             if actual_version (nv_workspace_id input) db \<noteq> Some e
             then Inl (SE_VersionConflict (nv_workspace_id input) e (actual_version (nv_workspace_id input) db))
             else if reject_pending \<and> has_pending (nv_workspace_id input) db
             then Inl (SE_PendingProposalConflict (nv_workspace_id input))
             else Inl (SE_StatementInvariant ''advance_version_after_atomic_predicate'' 1 0))
      else if n \<noteq> 1
      then Inl (SE_StatementInvariant ''advance_version_after_atomic_predicate'' 1 n)
      else returning (version version_id) db)))"

definition create_version ::
  "string \<Rightarrow> timestamp \<Rightarrow> new_version \<Rightarrow> pdb \<Rightarrow> version_record project_result" where
  "create_version version_id now input = insert_version version_id now input None False"

definition create_version_after ::
  "string \<Rightarrow> timestamp \<Rightarrow> new_version \<Rightarrow> string \<Rightarrow> pdb \<Rightarrow> version_record project_result" where
  "create_version_after version_id now input expected =
     insert_version version_id now input (Some expected) False"

definition create_version_after_without_pending_proposal ::
  "string \<Rightarrow> timestamp \<Rightarrow> new_version \<Rightarrow> string \<Rightarrow> pdb \<Rightarrow> version_record project_result" where
  "create_version_after_without_pending_proposal version_id now input expected =
     insert_version version_id now input (Some expected) True"

definition versions_for_workspace :: "string \<Rightarrow> pdb \<Rightarrow> version_record list" where
  "versions_for_workspace workspace_id db = sort_key (\<lambda>v. (vr_idx v, vr_created_at v, vr_id v))
     (filter (\<lambda>v. vr_workspace_id v = workspace_id) (pj_versions db))"

definition version_file_references :: "string \<Rightarrow> pdb \<Rightarrow> version_record list" where
  "version_file_references relative_path db = sort_key (\<lambda>v. (vr_workspace_id v, vr_idx v, vr_id v))
     (filter (\<lambda>v. vr_graph_path v = relative_path) (pj_versions db))"

record workspace_with_version =
  wv_workspace_id :: string
  wv_initial_version_id :: string
  wv_name :: string
  wv_version_label :: string
  wv_source :: version_source
  wv_graph_path :: string
  wv_graph_hash :: string

definition require_one_row :: "string \<Rightarrow> nat \<Rightarrow> store_error + unit" where
  "require_one_row op actual_rows =
     (if actual_rows = 1 then Inr () else Inl (SE_StatementInvariant op 1 actual_rows))"

definition create_workspace_with_initial_version ::
  "timestamp \<Rightarrow> workspace_with_version \<Rightarrow> pdb \<Rightarrow> (workspace_record \<times> version_record) project_result" where
  "create_workspace_with_initial_version now input db =
     res_bind (insert_workspace (new_workspace_row (wv_workspace_id input) now (wv_name input)) db) (\<lambda>db.
     res_bind (insert_snapshot_row (initial_snapshot (wv_workspace_id input)) db) (\<lambda>db.
     res_bind (insert_version_row (version_row (wv_initial_version_id input) now 1
       \<lparr>nv_workspace_id = wv_workspace_id input, nv_label = wv_version_label input,
        nv_source = wv_source input, nv_graph_path = wv_graph_path input,
        nv_graph_hash = wv_graph_hash input, nv_parent_id = None, nv_semantics_json = None\<rparr>) db) (\<lambda>db.
     res_bind (advance_current now (wv_workspace_id input) (wv_initial_version_id input)
       (\<lambda>w. wk_cur_version_id w = None) db) (\<lambda>(db, n).
     res_bind (require_one_row ''set_initial_current_version'' n) (\<lambda>_.
     res_bind (workspace (wv_workspace_id input) db) (\<lambda>w.
     res_bind (version (wv_initial_version_id input) db) (\<lambda>v. Inr (db, w, v))))))))"

section \<open>Proposals\<close>

definition proposal :: "string \<Rightarrow> pdb \<Rightarrow> store_error + proposal_record" where
  "proposal proposal_id db = fetch_one (\<lambda>p. pl_id p = proposal_id) (pj_proposals db)"

definition proposal_row ::
  "string \<Rightarrow> timestamp \<Rightarrow> new_proposal \<Rightarrow> string \<Rightarrow> string option \<Rightarrow> string option \<Rightarrow> timestamp option \<Rightarrow>
   proposal_record" where
  "proposal_row new_id now input state result_version_id message_id resolved_at =
     \<lparr>pl_id = new_id, pl_workspace_id = nl_workspace_id input,
      pl_base_version_id = nl_base_version_id input, pl_kind = nl_kind input,
      pl_title = nl_title input, pl_summary = nl_summary input, pl_ops_path = nl_ops_path input,
      pl_preview_graph_path = nl_preview_graph_path input, pl_state = state,
      pl_result_version_id = result_version_id, pl_message_id = message_id, pl_created_at = now,
      pl_resolved_at = resolved_at\<rparr>"

definition create_proposal :: "string \<Rightarrow> timestamp \<Rightarrow> new_proposal \<Rightarrow> pdb \<Rightarrow> proposal_record project_result" where
  "create_proposal new_id now input db =
     res_bind (insert_proposal_row
       (proposal_row new_id now input ''pending'' None (nl_message_id input) None) db)
       (returning (proposal new_id))"

definition workspace_proposals :: "string \<Rightarrow> pdb \<Rightarrow> proposal_record list" where
  "workspace_proposals workspace_id db = sort_key (\<lambda>p. (pl_created_at p, pl_id p))
     (filter (\<lambda>p. pl_workspace_id p = workspace_id) (pj_proposals db))"

definition latest_pending_proposal :: "string \<Rightarrow> pdb \<Rightarrow> proposal_record option" where
  "latest_pending_proposal workspace_id db = newest_by (\<lambda>p. (pl_created_at p, pl_id p))
     (filter (\<lambda>p. pl_workspace_id p = workspace_id \<and> pl_state p = ''pending'') (pj_proposals db))"

definition proposal_file_references :: "string \<Rightarrow> pdb \<Rightarrow> (string \<times> string \<times> string \<times> string option) list" where
  "proposal_file_references relative_path db =
     map (\<lambda>p. (pl_id p, pl_workspace_id p, pl_ops_path p, pl_preview_graph_path p))
       (sort_key (\<lambda>p. (pl_workspace_id p, pl_id p))
         (filter (\<lambda>p. pl_ops_path p = relative_path \<or> pl_preview_graph_path p = Some relative_path)
           (pj_proposals db)))"

definition attach_proposal_message :: "string \<Rightarrow> string \<Rightarrow> pdb \<Rightarrow> proposal_record project_result" where
  "attach_proposal_message proposal_id message_id db =
     res_bind (sql_update (\<lambda>_. True) (\<lambda>p. pl_id p = proposal_id)
       (\<lambda>p. p\<lparr>pl_message_id := Some message_id\<rparr>) (pj_proposals db)) (\<lambda>(t, n).
     returning (proposal proposal_id) (db\<lparr>pj_proposals := t\<rparr>))"

definition ensure_proposal_workspace :: "proposal_record \<Rightarrow> string \<Rightarrow> store_error + unit" where
  "ensure_proposal_workspace p workspace_id =
     (if pl_workspace_id p \<noteq> workspace_id
      then Inl (SE_ProposalWorkspaceMismatch (pl_id p) workspace_id) else Inr ())"

definition ensure_pending :: "proposal_record \<Rightarrow> store_error + unit" where
  "ensure_pending p =
     (if pl_state p \<noteq> ''pending''
      then Inl (SE_ProposalStateConflict (pl_id p) ''pending'' (Some (pl_state p))) else Inr ())"

definition ensure_version_parent :: "new_version \<Rightarrow> string \<Rightarrow> store_error + unit" where
  "ensure_version_parent v expected_parent =
     (if nv_parent_id v \<noteq> Some expected_parent
      then Inl (SE_VersionParentMismatch (nv_workspace_id v) expected_parent (nv_parent_id v))
      else Inr ())"

definition ensure_proposal_base :: "proposal_record \<Rightarrow> string \<Rightarrow> store_error + unit" where
  "ensure_proposal_base p expected_base =
     (if pl_base_version_id p \<noteq> expected_base
      then Inl (SE_ProposalBaseMismatch (pl_id p) expected_base (pl_base_version_id p)) else Inr ())"

definition mark_proposal_rows ::
  "timestamp \<Rightarrow> string \<Rightarrow> string \<Rightarrow> string \<Rightarrow> string option \<Rightarrow> pdb \<Rightarrow>
   store_error + proposal_record list \<times> nat" where
  "mark_proposal_rows now proposal_id workspace_id state result_version_id db =
     sql_update (\<lambda>p. proposal_state_check (pl_state p) \<and> foreign vr_id (pl_result_version_id p) (pj_versions db))
       (\<lambda>p. pl_id p = proposal_id \<and> pl_workspace_id p = workspace_id \<and> pl_state p = ''pending'')
       (\<lambda>p. p\<lparr>pl_state := state, pl_result_version_id := result_version_id, pl_resolved_at := Some now\<rparr>)
       (pj_proposals db)"

text \<open>\<open>resolve_proposal\<close> reads the proposal first and then writes with the condition
  repeated; the write is \<open>resolve_pending\<close>.\<close>

definition resolve_pending ::
  "timestamp \<Rightarrow> string \<Rightarrow> string \<Rightarrow> proposal_resolution_state \<Rightarrow> string option \<Rightarrow> pdb \<Rightarrow>
   proposal_record project_result" where
  "resolve_pending now proposal_id workspace_id state result_version_id db =
     res_bind (mark_proposal_rows now proposal_id workspace_id (resolution_as_str state)
       result_version_id db) (\<lambda>(t, n).
     if n \<noteq> 1
     then Inl (SE_ProposalStateConflict proposal_id ''pending''
       (case proposal proposal_id db of Inl _ \<Rightarrow> None | Inr p \<Rightarrow> Some (pl_state p)))
     else returning (proposal proposal_id) (db\<lparr>pj_proposals := t\<rparr>))"

definition resolve_proposal ::
  "timestamp \<Rightarrow> string \<Rightarrow> string \<Rightarrow> proposal_resolution_state \<Rightarrow> string option \<Rightarrow> pdb \<Rightarrow>
   proposal_record project_result" where
  "resolve_proposal now proposal_id workspace_id state result_version_id db =
     res_bind (proposal proposal_id db) (\<lambda>current.
     res_bind (ensure_proposal_workspace current workspace_id) (\<lambda>_.
     res_bind (ensure_pending current) (\<lambda>_.
     resolve_pending now proposal_id workspace_id state result_version_id db)))"

section \<open>Applying a proposal\<close>

text \<open>\<open>format!\<close> of the JSON object with the version.\<close>

definition version_ref_json :: "string \<Rightarrow> string" where
  "version_ref_json version_id =
     ''{'' @ CHR 0x22 # ''versionId'' @ CHR 0x22 # '':'' @ CHR 0x22 # version_id @ [CHR 0x22] @ ''}''"

definition applied_message ::
  "string \<Rightarrow> timestamp \<Rightarrow> string \<Rightarrow> string \<Rightarrow> string \<Rightarrow> string \<Rightarrow> (string \<times> string) option \<Rightarrow> message_record" where
  "applied_message message_id now workspace_id message_text proposal_id version_id turn_context =
     \<lparr>ms_id = message_id, ms_workspace_id = workspace_id, ms_role = ''agent'',
      ms_text = Some message_text, ms_kind = ''proposal_applied'', ms_ref_id = Some proposal_id,
      ms_attachment_ids_json = Some (version_ref_json version_id),
      ms_conversation_id = map_option fst turn_context, ms_turn_id = map_option snd turn_context,
      ms_created_at = now\<rparr>"

definition advance_checked ::
  "string \<Rightarrow> timestamp \<Rightarrow> string \<Rightarrow> string \<Rightarrow> string \<Rightarrow> pdb \<Rightarrow> store_error + pdb" where
  "advance_checked op now workspace_id version_id expected db =
     res_bind (advance_current now workspace_id version_id
       (\<lambda>w. wk_cur_version_id w = Some expected) db) (\<lambda>(db, n).
     if n = 0 \<and> actual_version workspace_id db \<noteq> Some expected
     then Inl (SE_VersionConflict workspace_id expected (actual_version workspace_id db))
     else res_bind (require_one_row op n) (\<lambda>_. Inr db))"

definition create_version_after_applying_proposal ::
  "string \<Rightarrow> string \<Rightarrow> timestamp \<Rightarrow> string \<Rightarrow> string \<Rightarrow> new_version \<Rightarrow> string \<Rightarrow> pdb \<Rightarrow>
   (version_record \<times> message_record) project_result" where
  "create_version_after_applying_proposal version_id message_id now proposal_id expected input
     message_text db =
     res_bind (ensure_version_parent input expected) (\<lambda>_.
     res_bind (proposal proposal_id db) (\<lambda>p.
     res_bind (ensure_proposal_workspace p (nv_workspace_id input)) (\<lambda>_.
     res_bind (ensure_pending p) (\<lambda>_.
     res_bind (ensure_proposal_base p expected) (\<lambda>_.
     if actual_version (nv_workspace_id input) db \<noteq> Some expected
     then Inl (SE_VersionConflict (nv_workspace_id input) expected
       (actual_version (nv_workspace_id input) db))
     else
     res_bind (insert_version_row
       (version_row version_id now (next_idx (nv_workspace_id input) (pj_versions db)) input) db) (\<lambda>db.
     res_bind (advance_checked ''advance_applied_proposal_current'' now (nv_workspace_id input)
       version_id expected db) (\<lambda>db.
     res_bind (mark_proposal_rows now proposal_id (nv_workspace_id input) ''applied''
       (Some version_id) db) (\<lambda>(t, n).
     if n = 0 \<and> map_option pl_state (fetch_optional (\<lambda>p. pl_id p = proposal_id) t) \<noteq> Some ''pending''
     then Inl (SE_ProposalStateConflict proposal_id ''pending''
       (map_option pl_state (fetch_optional (\<lambda>p. pl_id p = proposal_id) t)))
     else
     res_bind (require_one_row ''mark_applied_proposal'' n) (\<lambda>_.
     res_bind (insert_message_row (applied_message message_id now (nv_workspace_id input)
       message_text proposal_id version_id None) (db\<lparr>pj_proposals := t\<rparr>)) (\<lambda>db.
     res_bind (version version_id db) (\<lambda>v.
     res_bind (message message_id db) (\<lambda>m. Inr (db, v, m)))))))))))))"

definition finalize_applied_turn ::
  "timestamp \<Rightarrow> complete_observation option \<Rightarrow> string \<Rightarrow> string \<times> string \<Rightarrow> pdb \<Rightarrow> store_error + pdb" where
  "finalize_applied_turn now completion workspace_id = (\<lambda>(conversation_id, turn_id) db.
     res_bind (settle_turn_rows now turn_id ''succeeded'' None
       (Option.bind completion oc_session_id)
       (\<lambda>a. at_workspace_id a = workspace_id \<and> at_conversation_id a = conversation_id) db) (\<lambda>(t, n).
     res_bind (require_one_row ''finalize_auto_applied_agent_turn'' n) (\<lambda>_.
     Inr (touch_conversation now conversation_id (db\<lparr>pj_turns := t\<rparr>)))))"

definition auto_apply_proposal_version_inner ::
  "string \<Rightarrow> string \<Rightarrow> string \<Rightarrow> timestamp \<Rightarrow> new_proposal \<Rightarrow> new_version \<Rightarrow> string \<Rightarrow>
   complete_observation option \<Rightarrow> (string \<times> string) option \<Rightarrow> pdb \<Rightarrow>
   (proposal_record \<times> version_record \<times> message_record) project_result" where
  "auto_apply_proposal_version_inner proposal_id version_id message_id now np input message_text
     completion turn_context db =
     (if nl_workspace_id np \<noteq> nv_workspace_id input
      then Inl (SE_ProposalWorkspaceMismatch proposal_id (nv_workspace_id input))
      else
      res_bind (ensure_version_parent input (nl_base_version_id np)) (\<lambda>_.
      if actual_version (nv_workspace_id input) db \<noteq> Some (nl_base_version_id np)
      then Inl (SE_VersionConflict (nv_workspace_id input) (nl_base_version_id np)
        (actual_version (nv_workspace_id input) db))
      else
      res_bind (insert_version_row
        (version_row version_id now (next_idx (nv_workspace_id input) (pj_versions db)) input) db) (\<lambda>db.
      res_bind (advance_checked ''advance_auto_applied_current'' now (nv_workspace_id input)
        version_id (nl_base_version_id np) db) (\<lambda>db.
      res_bind (insert_message_row (applied_message message_id now (nl_workspace_id np) message_text
        proposal_id version_id turn_context) db) (\<lambda>db.
      res_bind (insert_proposal_row (proposal_row proposal_id now np ''applied'' (Some version_id)
        (Some message_id) (Some now)) db) (\<lambda>db.
      res_bind (case completion of None \<Rightarrow> Inr db
          | Some c \<Rightarrow> res_bind (complete_observation_in_tx now c db) (\<lambda>(db, _). Inr db)) (\<lambda>db.
      res_bind (case turn_context of None \<Rightarrow> Inr db
          | Some tc \<Rightarrow> finalize_applied_turn now completion (nl_workspace_id np) tc db) (\<lambda>db.
      res_bind (proposal proposal_id db) (\<lambda>p.
      res_bind (version version_id db) (\<lambda>v.
      res_bind (message message_id db) (\<lambda>m. Inr (db, p, v, m))))))))))))"

section \<open>Version migrations\<close>

definition version_migration_assessment :: "string \<Rightarrow> pdb \<Rightarrow> store_error + assessment_record" where
  "version_migration_assessment assessment_id db =
     fetch_one (\<lambda>a. va_id a = assessment_id) (pj_assessments db)"

text \<open>The input is the row without its identifier and time.\<close>

definition record_version_migration_assessment ::
  "string \<Rightarrow> timestamp \<Rightarrow> assessment_record \<Rightarrow> pdb \<Rightarrow> assessment_record project_result" where
  "record_version_migration_assessment new_id now input db =
     res_bind (insert_assessment_row (input\<lparr>va_id := new_id, va_created_at := now\<rparr>) db)
       (returning (version_migration_assessment new_id))"

record version_migration_input =
  am_operation_id :: string
  am_operation_fingerprint :: string
  am_source_version_id :: string
  am_source_graph_hash :: string
  am_expected_runtime_provider_id :: "string option"
  am_target_label :: string
  am_target_graph_path :: string
  am_target_graph_hash :: string
  am_target_semantics_json :: string
  am_migration_version :: string
  am_catalog_revision :: string
  am_workspace_connector_id :: string
  am_report_hash :: string
  am_report_json :: string
  am_workspace_id :: string

definition version_migration_by_operation :: "string \<Rightarrow> string \<Rightarrow> pdb \<Rightarrow> version_migration_record option" where
  "version_migration_by_operation workspace_id operation_id db =
     fetch_optional (\<lambda>m. vm_workspace_id m = workspace_id \<and> vm_operation_id m = operation_id)
       (pj_migrations db)"

definition target_version :: "version_migration_input \<Rightarrow> new_version" where
  "target_version input =
     \<lparr>nv_workspace_id = am_workspace_id input, nv_label = am_target_label input, nv_source = Migration,
      nv_graph_path = am_target_graph_path input, nv_graph_hash = am_target_graph_hash input,
      nv_parent_id = Some (am_source_version_id input),
      nv_semantics_json = Some (am_target_semantics_json input)\<rparr>"

definition migration_row ::
  "string \<Rightarrow> string \<Rightarrow> timestamp \<Rightarrow> version_migration_input \<Rightarrow> version_migration_record" where
  "migration_row migration_id target_version_id now input =
     \<lparr>vm_id = migration_id, vm_workspace_id = am_workspace_id input,
      vm_operation_id = am_operation_id input,
      vm_operation_fingerprint = am_operation_fingerprint input,
      vm_source_version_id = am_source_version_id input,
      vm_source_graph_hash = am_source_graph_hash input, vm_target_version_id = target_version_id,
      vm_target_graph_hash = am_target_graph_hash input,
      vm_migration_version = am_migration_version input,
      vm_catalog_revision = am_catalog_revision input,
      vm_workspace_connector_id = am_workspace_connector_id input,
      vm_report_hash = am_report_hash input, vm_report_json = am_report_json input,
      vm_created_at = now\<rparr>"

text \<open>Why the compare-and-swap of a migration failed.\<close>

definition migration_refused :: "version_migration_input \<Rightarrow> pdb \<Rightarrow> store_error" where
  "migration_refused input db =
     (let ws = am_workspace_id input in
      case fetch_optional (\<lambda>w. wk_id w = ws) (pj_workspaces db) of
        None \<Rightarrow> SE_VersionConflict ws (am_source_version_id input) None
      | Some w \<Rightarrow>
          if wk_cur_version_id w \<noteq> Some (am_source_version_id input)
          then SE_VersionConflict ws (am_source_version_id input) (wk_cur_version_id w)
          else if wk_runtime_provider_id w \<noteq> am_expected_runtime_provider_id input
          then SE_WorkspaceConnectorConflict ws (am_expected_runtime_provider_id input)
                 (wk_runtime_provider_id w)
          else if has_pending ws db then SE_PendingProposalConflict ws
          else SE_StatementInvariant ''apply_version_migration_atomic_predicate'' 1 0)"

definition apply_version_migration ::
  "string \<Rightarrow> string \<Rightarrow> timestamp \<Rightarrow> version_migration_input \<Rightarrow> pdb \<Rightarrow>
   (version_migration_record \<times> version_record \<times> bool) project_result" where
  "apply_version_migration target_version_id migration_id now input db =
     (case version_migration_by_operation (am_workspace_id input) (am_operation_id input) db of
        Some existing \<Rightarrow>
          if vm_operation_fingerprint existing \<noteq> am_operation_fingerprint input
          then Inl (SE_OperationIdConflict (am_workspace_id input) (am_operation_id input))
          else res_bind (version (vm_target_version_id existing) db) (\<lambda>v. Inr (db, existing, v, True))
      | None \<Rightarrow>
          res_bind (insert_version_row (version_row target_version_id now
            (next_idx (am_workspace_id input) (pj_versions db)) (target_version input)) db) (\<lambda>db.
          res_bind (advance_current now (am_workspace_id input) target_version_id
            (\<lambda>w. wk_cur_version_id w = Some (am_source_version_id input) \<and>
               wk_runtime_provider_id w = am_expected_runtime_provider_id input \<and>
               \<not> has_pending (wk_id w) db) db) (\<lambda>(db, n).
          if n \<noteq> 1 then Inl (migration_refused input db)
          else
          res_bind (insert_migration_row (migration_row migration_id target_version_id now input) db) (\<lambda>db.
          res_bind (ok_or (version_migration_by_operation (am_workspace_id input) (am_operation_id input) db)
            (SE_StatementInvariant ''read_inserted_version_migration'' 1 0)) (\<lambda>m.
          res_bind (version target_version_id db) (\<lambda>v. Inr (db, m, v, False)))))))"

end
