(* ===== verification/Canvas_Store.thy ===== *)
theory Canvas_Store
  imports Project_Store "HOL-Library.Word"
begin

text \<open>
  The comments and the snapshot of a canvas (crates/store/src/canvas_comment_records.rs,
  canvas_snapshot_records.rs).  Both are optimistic: a commit names the sequence or revision it
  was made against.  Comment operations carry an identifier and a fingerprint, so a repeated
  delivery is recognised.
\<close>

section \<open>Comments\<close>

record comment_operation =
  cc_workspace_id :: string
  cc_operation_id :: string
  cc_operation_fingerprint :: string
  cc_expected_seq :: int
  cc_comments_json :: string

datatype comment_commit_result =
    CommentApplied comment_state_record
  | CommentReplayed comment_state_record
  | CommentStale int
  | CommentOperationIdConflict int

text \<open>The index of the workspace's current version, 0 without one (the two joins of
  \<open>load_persisted_state\<close>).\<close>

definition current_idx :: "workspace_record \<Rightarrow> pdb \<Rightarrow> int" where
  "current_idx w db = (case wk_cur_version_id w of None \<Rightarrow> 0
     | Some v \<Rightarrow> (case fetch_optional (\<lambda>x. vr_id x = v) (pj_versions db) of
         None \<Rightarrow> 0 | Some x \<Rightarrow> vr_idx x))"

text \<open>The persisted row and its \<open>version_seq\<close>.\<close>

definition load_persisted_state :: "string \<Rightarrow> pdb \<Rightarrow> (comment_state_record \<times> int) option" where
  "load_persisted_state workspace_id db =
     (case (fetch_optional (\<lambda>c. cm_workspace_id c = workspace_id) (pj_comment_states db),
            fetch_optional (\<lambda>w. wk_id w = workspace_id) (pj_workspaces db)) of
        (Some c, Some w) \<Rightarrow> Some (c, current_idx w db)
      | _ \<Rightarrow> None)"

definition logical_seq :: "comment_state_record \<times> int \<Rightarrow> int" where
  "logical_seq = (\<lambda>(c, version_seq). max (cm_seq c) version_seq)"

definition into_record :: "comment_state_record \<times> int \<Rightarrow> comment_state_record" where
  "into_record = (\<lambda>(c, version_seq). c\<lparr>cm_seq := max (cm_seq c) version_seq\<rparr>)"

definition canvas_comment_state :: "string \<Rightarrow> pdb \<Rightarrow> comment_state_record option" where
  "canvas_comment_state workspace_id db = map_option into_record (load_persisted_state workspace_id db)"

definition canvas_comment_operation :: "string \<Rightarrow> string \<Rightarrow> pdb \<Rightarrow> comment_operation_row option" where
  "canvas_comment_operation workspace_id operation_id db =
     fetch_optional (\<lambda>x. co_workspace_id x = workspace_id \<and> co_operation_id x = operation_id \<and>
       co_committed_seq x \<noteq> None) (pj_comment_operations db)"

definition state_or_missing :: "string \<Rightarrow> 'a option \<Rightarrow> store_error + 'a" where
  "state_or_missing workspace_id x = ok_or x (SE_CanvasCommentStateMissing workspace_id)"

text \<open>\<open>INSERT ... SELECT ... ON CONFLICT DO NOTHING\<close>\<close>

definition insert_comment_state :: "comment_state_record \<Rightarrow> pdb \<Rightarrow> pdb" where
  "insert_comment_state input db =
     (case fetch_optional (\<lambda>w. wk_id w = cm_workspace_id input) (pj_workspaces db) of
        None \<Rightarrow> db
      | Some w \<Rightarrow>
          if row_exists (\<lambda>c. cm_workspace_id c = cm_workspace_id input) (pj_comment_states db) then db
          else db\<lparr>pj_comment_states := pj_comment_states db @
            [input\<lparr>cm_seq := (if current_idx w db < cm_seq input then cm_seq input
                             else current_idx w db)\<rparr>]\<rparr>)"

definition initialize_canvas_comment_state ::
  "comment_state_record \<Rightarrow> pdb \<Rightarrow> comment_state_record project_result" where
  "initialize_canvas_comment_state input db =
     (let ws = cm_workspace_id input in
      if cm_seq input < 0
      then Inl (SE_CanvasCommentInvariant ws ''initial sequence must not be negative'')
      else if cm_migration_source input \<notin> {''empty'', ''legacy_json''}
      then Inl (SE_CanvasCommentInvariant ws ''migration source is invalid'')
      else returning (\<lambda>db. state_or_missing ws (canvas_comment_state ws db))
        (insert_comment_state input db))"

definition i64_max :: int where
  "i64_max = 9223372036854775807"

definition checked_add_one :: "int \<Rightarrow> int option" where
  "checked_add_one n = (if n < i64_max then Some (n + 1) else None)"

definition replay_comment_operation ::
  "comment_operation \<Rightarrow> pdb \<Rightarrow> comment_commit_result project_result" where
  "replay_comment_operation input db =
     (let ws = cc_workspace_id input in
      res_bind (ok_or (canvas_comment_operation ws (cc_operation_id input) db)
        (SE_CanvasCommentInvariant ws
          (''operation '' @ bq (cc_operation_id input) @ '' exists without a committed sequence''))) (\<lambda>existing.
      res_bind (state_or_missing ws (load_persisted_state ws db)) (\<lambda>persisted.
      let state = into_record persisted in
      Inr (db, if co_operation_fingerprint existing = cc_operation_fingerprint input
               then CommentReplayed state else CommentOperationIdConflict (cm_seq state)))))"

text \<open>The transaction of a new operation; \<open>ops\<close> is the table with the operation
  inserted.  A stale operation is rolled back.\<close>

definition apply_comment_operation ::
  "comment_operation \<Rightarrow> comment_operation_row list \<Rightarrow> pdb \<Rightarrow> comment_commit_result project_result" where
  "apply_comment_operation input ops db =
     (let ws = cc_workspace_id input in
      res_bind (state_or_missing ws (load_persisted_state ws db)) (\<lambda>persisted.
      let current_seq = logical_seq persisted in
      if cc_expected_seq input \<noteq> current_seq then Inr (db, CommentStale current_seq)
      else
      res_bind (ok_or (checked_add_one current_seq)
        (SE_CanvasCommentInvariant ws ''comment sequence overflow'')) (\<lambda>next_seq.
      res_bind (sql_update (\<lambda>c. 0 \<le> cm_seq c)
        (\<lambda>c. cm_workspace_id c = ws \<and> cm_seq c = cm_seq (fst persisted))
        (\<lambda>c. c\<lparr>cm_seq := next_seq, cm_comments_json := cc_comments_json input\<rparr>)
        (pj_comment_states db)) (\<lambda>(t, n).
      if n \<noteq> 1
      then Inl (SE_CanvasCommentInvariant ws ''comment state changed inside serialized transaction'')
      else
      res_bind (sql_update (\<lambda>x. case co_committed_seq x of None \<Rightarrow> True | Some s \<Rightarrow> 0 \<le> s)
        (\<lambda>x. co_workspace_id x = ws \<and> co_operation_id x = cc_operation_id input \<and>
           co_committed_seq x = None)
        (\<lambda>x. x\<lparr>co_committed_seq := Some next_seq\<rparr>) ops) (\<lambda>(u, k).
      if k \<noteq> 1
      then Inl (SE_CanvasCommentInvariant ws ''operation record was not finalized'')
      else
      let db' = db\<lparr>pj_comment_states := t, pj_comment_operations := u\<rparr> in
      res_bind (state_or_missing ws (canvas_comment_state ws db'))
        (\<lambda>c. Inr (db', CommentApplied c)))))))"

definition commit_canvas_comment_operation ::
  "comment_operation \<Rightarrow> pdb \<Rightarrow> comment_commit_result project_result" where
  "commit_canvas_comment_operation input db =
     (if row_exists (\<lambda>x. co_workspace_id x = cc_workspace_id input \<and>
            co_operation_id x = cc_operation_id input) (pj_comment_operations db)
      then replay_comment_operation input db
      else res_bind (sql_insert (row_exists (\<lambda>w. wk_id w = cc_workspace_id input) (pj_workspaces db))
        \<lparr>co_workspace_id = cc_workspace_id input, co_operation_id = cc_operation_id input,
         co_operation_fingerprint = cc_operation_fingerprint input, co_committed_seq = None\<rparr>
        (pj_comment_operations db)) (\<lambda>ops. apply_comment_operation input ops db))"

section \<open>Snapshots\<close>

record canvas_snapshot_input =
  ck_workspace_id :: string
  ck_expected_revision :: "64 word"
  ck_nodes_json :: string
  ck_viewport_json :: "string option"

datatype snapshot_commit_result = SnapshotApplied canvas_snapshot_record | SnapshotStale int

definition canvas_snapshot :: "string \<Rightarrow> pdb \<Rightarrow> canvas_snapshot_record option" where
  "canvas_snapshot workspace_id db =
     fetch_optional (\<lambda>x. sn_workspace_id x = workspace_id) (pj_snapshots db)"

text \<open>\<open>expected_revision + 1\<close> wraps (a debug build panics there); the row then breaks
  the CHECK of \<open>revision\<close>, which SQLite tests before the conflict clause.\<close>

definition commit_canvas_snapshot ::
  "canvas_snapshot_input \<Rightarrow> pdb \<Rightarrow> snapshot_commit_result project_result" where
  "commit_canvas_snapshot input db =
     (let ws = ck_workspace_id input;
          row = \<lparr>sn_workspace_id = ws, sn_revision = sint (ck_expected_revision input + 1),
                 sn_nodes_json = ck_nodes_json input, sn_viewport_json = ck_viewport_json input\<rparr>;
          stale = Inr (db, SnapshotStale
            (case canvas_snapshot ws db of None \<Rightarrow> 0 | Some x \<Rightarrow> sn_revision x));
          read = (\<lambda>db. res_bind (fetch_one (\<lambda>x. sn_workspace_id x = ws) (pj_snapshots db))
            (\<lambda>x. Inr (db, SnapshotApplied x))) in
      if \<not> row_exists (\<lambda>w. wk_id w = ws) (pj_workspaces db) then stale
      else if sn_revision row < 0 then Inl (SE_Sqlx ConstraintViolation)
      else if row_exists (\<lambda>x. sn_workspace_id x = ws) (pj_snapshots db)
      then res_bind (sql_update (\<lambda>x. 0 \<le> sn_revision x)
        (\<lambda>x. sn_workspace_id x = ws \<and> sn_revision x = sint (ck_expected_revision input))
        (\<lambda>_. row) (pj_snapshots db)) (\<lambda>(t, n).
        if n = 0 then stale else read (db\<lparr>pj_snapshots := t\<rparr>))
      else read (db\<lparr>pj_snapshots := pj_snapshots db @ [row]\<rparr>))"

end
