(* ===== verification/Version_History.thy ===== *)
theory Version_History
  imports Row_Table Numbering Canvas_Store
begin

text \<open>
  The abstract history of versions and the abstract log of comments: what the operations of
  Project_Store and Canvas_Store may do to the tables they share.  A version is appended with the
  next number of its workspace and becomes the current one in the same step; a comment operation
  is logged with a sequence above the one before.
\<close>

context keyed_table
begin

lemma keyed_fetch:
  assumes "keyed t" "r \<in> set t" "P r" "\<And>x. P x \<Longrightarrow> key x = key r"
  shows "fetch_optional P t = Some r"
proof (cases "fetch_optional P t")
  case None
  with assms(2,3) show ?thesis unfolding fetch_optional_None by blast
next
  case (Some x)
  with fetch_optional_Some [OF Some] keyed_unique [OF assms(1)] assms(2,4) show ?thesis by auto
qed

lemma keyed_count_le: "keyed t \<Longrightarrow> length (filter (\<lambda>x. key x = k \<and> P x) t) \<le> 1"
proof -
  let ?u = "map key (filter (\<lambda>x. key x = k \<and> P x) t)"
  assume "keyed t"
  then have "distinct ?u" by (simp add: keyed_def distinct_map_filter)
  moreover have "set ?u \<subseteq> {k}" by auto
  ultimately have "length ?u \<le> card {k}" by (metis card_mono distinct_card finite.intros)
  then show ?thesis by simp
qed

end

section \<open>Versions and current versions\<close>

interpretation workspaces_table: keyed_table wk_id .
interpretation versions_table: keyed_table vr_id .
interpretation version_rows: numbered_rows vr_workspace_id vr_idx .

lemma next_idx_rows: "next_idx i vs = version_rows.next_number i vs"
  by (simp add: next_idx_def version_rows.next_number_def version_rows.rows_of_def)

definition newest_version :: "string \<Rightarrow> version_record list \<Rightarrow> string option" where
  "newest_version i vs = (let rs = version_rows.rows_of i vs in
     if rs = [] then None else Some (vr_id (last rs)))"

definition advanced :: "version_record \<Rightarrow> timestamp \<Rightarrow> workspace_record \<Rightarrow> workspace_record" where
  "advanced v now w = (if wk_id w = vr_workspace_id v
     then w\<lparr>wk_cur_version_id := Some (vr_id v), wk_updated_at := now\<rparr> else w)"

lemma advanced_simps [simp]:
  "wk_id (advanced v now w) = wk_id w"
  "wk_cur_version_id (advanced v now w) =
     (if wk_id w = vr_workspace_id v then Some (vr_id v) else wk_cur_version_id w)"
  by (simp_all add: advanced_def)

inductive history_step ::
  "workspace_record list \<times> version_record list \<Rightarrow> workspace_record list \<times> version_record list \<Rightarrow> bool" where
  workspace_added: "\<lbrakk>wk_id w \<notin> wk_id ` set ws; wk_cur_version_id w = None\<rbrakk>
    \<Longrightarrow> history_step (ws, vs) (ws @ [w], vs)"
| workspace_changed: "(\<And>w. wk_id (f w) = wk_id w \<and> wk_cur_version_id (f w) = wk_cur_version_id w)
    \<Longrightarrow> history_step (ws, vs) (map f ws, vs)"
| version_added: "\<lbrakk>vr_id v \<notin> vr_id ` set vs; vr_idx v = version_rows.next_number (vr_workspace_id v) vs;
      vr_workspace_id v \<in> wk_id ` set ws; foreign vr_id (vr_parent_id v) vs\<rbrakk>
    \<Longrightarrow> history_step (ws, vs)
      (map (advanced v now) ws, vs @ [v])"

definition history_ok :: "workspace_record list \<times> version_record list \<Rightarrow> bool" where
  "history_ok = (\<lambda>(ws, vs). workspaces_table.keyed ws \<and> versions_table.keyed vs \<and>
     version_rows.numbered vs \<and>
     (\<forall>w\<in>set ws. wk_cur_version_id w = newest_version (wk_id w) vs) \<and>
     (\<forall>v\<in>set vs. vr_workspace_id v \<in> wk_id ` set ws \<and> foreign vr_id (vr_parent_id v) vs))"

lemma foreign_append [simp]: "foreign key x t \<Longrightarrow> foreign key x (t @ u)"
  by (auto simp: foreign_def split: option.splits)

lemma newest_version_snoc:
  "newest_version i (vs @ [v]) = (if vr_workspace_id v = i then Some (vr_id v) else newest_version i vs)"
  by (simp add: newest_version_def version_rows.rows_of_snoc)

lemma newest_version_none: "i \<notin> vr_workspace_id ` set vs \<Longrightarrow> newest_version i vs = None"
  by (force simp: newest_version_def version_rows.rows_of_def filter_empty_conv)

lemma newest_version_mem:
  assumes "newest_version i vs = Some x"
  shows "\<exists>v\<in>set vs. vr_id v = x \<and> vr_workspace_id v = i"
proof -
  from assms have "version_rows.rows_of i vs \<noteq> []" and x: "x = vr_id (last (version_rows.rows_of i vs))"
    by (auto simp: newest_version_def Let_def split: if_splits)
  then have "last (version_rows.rows_of i vs) \<in> set (version_rows.rows_of i vs)" by simp
  with x show ?thesis by (auto simp: version_rows.rows_of_def)
qed

lemma history_step_ok:
  assumes "history_step s t" "history_ok s"
  shows "history_ok t"
  using assms
proof (cases rule: history_step.cases)
  case (workspace_added w ws vs)
  from assms(2) workspace_added have "wk_id w \<notin> vr_workspace_id ` set vs"
    by (auto simp: history_ok_def)
  with assms(2) workspace_added show ?thesis
    by (auto simp: history_ok_def workspaces_table.keyed_snoc newest_version_none)
next
  case (workspace_changed f ws vs)
  have ids: "wk_id ` f ` set ws = wk_id ` set ws" using workspace_changed(3) by (simp add: image_image)
  from assms(2) workspace_changed show ?thesis
    using workspaces_table.keyed_map [of ws f] ids by (simp add: history_ok_def)
next
  case (version_added v vs ws now)
  have "version_rows.numbered (vs @ [v])"
    using assms(2) version_added by (intro version_rows.numbered_step_numbered
      [OF version_rows.appended]) (auto simp: history_ok_def)
  moreover have "workspaces_table.keyed (map (advanced v now) ws)"
    using assms(2) version_added workspaces_table.keyed_map [of ws "advanced v now"]
    by (simp add: history_ok_def)
  ultimately show ?thesis
    using assms(2) version_added
    by (simp add: history_ok_def versions_table.keyed_snoc newest_version_snoc image_image)
qed

interpretation history: invariant_system history_step history_ok
  by unfold_locales (rule history_step_ok)

text \<open>Versions are only appended, and workspaces stay.\<close>

lemma history_step_grows:
  assumes "history_step s t"
  shows "(\<exists>zs. snd t = snd s @ zs) \<and> wk_id ` set (fst s) \<subseteq> wk_id ` set (fst t)"
  using assms by (cases rule: history_step.cases) (auto simp: image_image)

lemma history_grows:
  "history_step\<^sup>*\<^sup>* s t \<Longrightarrow> (\<exists>zs. snd t = snd s @ zs) \<and> wk_id ` set (fst s) \<subseteq> wk_id ` set (fst t)"
proof (induction rule: rtranclp_induct)
  case (step y z)
  from step.IH history_step_grows [OF step.hyps(2)] show ?case by fastforce
qed simp

text \<open>A version that is no longer the newest never becomes the newest again.\<close>

lemma superseded_stays:
  assumes "version_rows.numbered (vs @ zs)" "versions_table.keyed (vs @ zs)"
    and "v \<in> set vs" "vr_workspace_id v = i" "newest_version i vs \<noteq> Some (vr_id v)"
  shows "newest_version i (vs @ zs) \<noteq> Some (vr_id v)"
proof
  assume new: "newest_version i (vs @ zs) = Some (vr_id v)"
  let ?rs = "version_rows.rows_of i vs" and ?zs = "version_rows.rows_of i zs"
  have split: "version_rows.rows_of i (vs @ zs) = ?rs @ ?zs" by (simp add: version_rows.rows_of_def)
  have mem: "v \<in> set ?rs" using assms(3,4) by (simp add: version_rows.rows_of_def)
  show False
  proof (cases "?zs = []")
    case True
    then show ?thesis using new assms(5) by (simp add: newest_version_def split)
  next
    case False
    then have "vr_id (last ?zs) = vr_id v" using new by (auto simp: newest_version_def split Let_def)
    moreover have "last ?zs \<in> set zs" using last_in_set [OF False] by (simp add: version_rows.rows_of_def)
    ultimately show ?thesis using assms(2,3) by (force simp: versions_table.keyed_def)
  qed
qed

section \<open>The log of comment operations\<close>

definition operation_key :: "comment_operation_row \<Rightarrow> string \<times> string" where
  "operation_key x = (co_workspace_id x, co_operation_id x)"

interpretation comment_states_table: keyed_table cm_workspace_id .
interpretation operations_table: keyed_table operation_key .

definition operations_of :: "string \<Rightarrow> comment_operation_row list \<Rightarrow> comment_operation_row list" where
  "operations_of i xs = filter (\<lambda>x. co_workspace_id x = i) xs"

inductive comments_step ::
  "comment_state_record list \<times> comment_operation_row list \<Rightarrow>
   comment_state_record list \<times> comment_operation_row list \<Rightarrow> bool" where
  comments_initialized: "\<lbrakk>cm_workspace_id c \<notin> cm_workspace_id ` set cs; 0 \<le> cm_seq c\<rbrakk>
    \<Longrightarrow> comments_step (cs, xs) (cs @ [c], xs)"
| comments_committed: "\<lbrakk>c \<in> set cs; cm_workspace_id c = co_workspace_id x; operation_key x \<notin> operation_key ` set xs;
      co_committed_seq x = Some n; cm_seq c < n\<rbrakk>
    \<Longrightarrow> comments_step (cs, xs)
      (map (\<lambda>c. if cm_workspace_id c = co_workspace_id x
                then c\<lparr>cm_seq := n, cm_comments_json := j\<rparr> else c) cs, xs @ [x])"

definition logged_below :: "comment_state_record list \<Rightarrow> comment_operation_row \<Rightarrow> bool" where
  "logged_below cs x \<longleftrightarrow> (\<exists>c\<in>set cs. cm_workspace_id c = co_workspace_id x \<and>
     (\<exists>n. co_committed_seq x = Some n \<and> n \<le> cm_seq c))"

definition comments_ok :: "comment_state_record list \<times> comment_operation_row list \<Rightarrow> bool" where
  "comments_ok = (\<lambda>(cs, xs). comment_states_table.keyed cs \<and> operations_table.keyed xs \<and>
     (\<forall>c\<in>set cs. 0 \<le> cm_seq c) \<and> (\<forall>x\<in>set xs. logged_below cs x) \<and>
     (\<forall>i. sorted_wrt (<) (map (\<lambda>x. the (co_committed_seq x)) (operations_of i xs))))"

lemma comments_step_ok:
  assumes "comments_step s t" "comments_ok s"
  shows "comments_ok t"
  using assms
proof (cases rule: comments_step.cases)
  case (comments_initialized c cs xs)
  with assms(2) show ?thesis
    by (auto simp: comments_ok_def comment_states_table.keyed_snoc logged_below_def)
next
  case (comments_committed c cs x xs n j)
  let ?f = "\<lambda>c. if cm_workspace_id c = co_workspace_id x then c\<lparr>cm_seq := n, cm_comments_json := j\<rparr> else c"
  from assms(2) comments_committed have ok: "comment_states_table.keyed cs" "operations_table.keyed xs"
    "\<forall>c\<in>set cs. 0 \<le> cm_seq c" "\<forall>x\<in>set xs. logged_below cs x"
    "\<And>i. sorted_wrt (<) (map (\<lambda>x. the (co_committed_seq x)) (operations_of i xs))"
    by (auto simp: comments_ok_def)
  have only: "c' = c" if "c' \<in> set cs" "cm_workspace_id c' = co_workspace_id x" for c'
    using comment_states_table.keyed_unique [OF ok(1) that(1) comments_committed(3)] that(2)
      comments_committed(4) by simp
  have raised: "logged_below (map ?f cs) y" if "logged_below cs y" for y
  proof -
    from that obtain c' k where c': "c' \<in> set cs" "cm_workspace_id c' = co_workspace_id y"
      "co_committed_seq y = Some k" "k \<le> cm_seq c'" by (auto simp: logged_below_def)
    then have "?f c' \<in> set (map ?f cs)" "cm_workspace_id (?f c') = co_workspace_id y" "k \<le> cm_seq (?f c')"
      using only [of c'] comments_committed(7) by auto
    with c'(3) show ?thesis unfolding logged_below_def by blast
  qed
  have "?f c \<in> set (map ?f cs)" using comments_committed(3) by simp
  then have "logged_below (map ?f cs) x"
    using comments_committed(4,6) unfolding logged_below_def by (intro bexI [of _ "?f c"]) auto
  moreover have below: "the (co_committed_seq y) < n"
    if "y \<in> set xs" "co_workspace_id y = co_workspace_id x" for y
    using ok(4) that only comments_committed(7) by (fastforce simp: logged_below_def)
  moreover have "comment_states_table.keyed (map ?f cs)"
    using ok(1) comment_states_table.keyed_map [of cs ?f] by simp
  moreover have "\<forall>c\<in>set (map ?f cs). 0 \<le> cm_seq c"
    using ok(3) comments_committed(3,7) by force
  moreover have "sorted_wrt (<) (map (\<lambda>x. the (co_committed_seq x)) (operations_of i (xs @ [x])))" for i
    using ok(5) [of i] below comments_committed(6) by (auto simp: operations_of_def sorted_wrt_append)
  ultimately show ?thesis
    using comments_committed(1,2,5) ok(2,4) raised unfolding comments_ok_def
    by (auto simp: operations_table.keyed_snoc)
qed

interpretation comment_log: invariant_system comments_step comments_ok
  by unfold_locales (rule comments_step_ok)

lemma comments_grow: "comments_step\<^sup>*\<^sup>* s t \<Longrightarrow> set (snd s) \<subseteq> set (snd t)"
  by (induction rule: rtranclp_induct) (force elim: comments_step.cases)+

end
