(* ===== verification/Project_Contract.thy ===== *)
theory Project_Contract
  imports Version_History
begin

text \<open>
  What the operations on the tables of a project promise: every table moves along the steps of its
  contract (\<open>project_contract\<close>).  Versions with the current versions, and comment states
  with the comment operations, follow Version_History; the other tables are instances of
  \<open>row_table\<close>.
\<close>

section \<open>The tables\<close>

context row_table
begin

lemma row_inserted: "key r \<notin> key ` set t \<Longrightarrow> legal r \<Longrightarrow> table_step\<^sup>*\<^sup>* t (t @ [r])"
  by (intro r_into_rtranclp inserted)

end

definition proposal_legal :: "proposal_record \<Rightarrow> bool" where
  "proposal_legal p \<longleftrightarrow> proposal_state_check (pl_state p) \<and>
     (pl_state p = ''pending'') = (pl_resolved_at p = None)"

text \<open>What never changes of a row, and what its resolution decides.\<close>

definition proposal_core :: "proposal_record \<Rightarrow> string \<times> string \<times> string \<times> string \<times> string \<times> string \<times> string \<times> string option \<times> timestamp" where
  "proposal_core p = (pl_id p, pl_workspace_id p, pl_base_version_id p, pl_kind p, pl_title p,
     pl_summary p, pl_ops_path p, pl_preview_graph_path p, pl_created_at p)"

definition proposal_resolution :: "proposal_record \<Rightarrow> string \<times> string option \<times> timestamp option" where
  "proposal_resolution p = (pl_state p, pl_result_version_id p, pl_resolved_at p)"

definition proposal_change :: "proposal_record \<Rightarrow> proposal_record \<Rightarrow> bool" where
  "proposal_change p p' \<longleftrightarrow> proposal_core p' = proposal_core p \<and>
     (proposal_legal p \<longrightarrow> proposal_legal p') \<and>
     (pl_state p \<noteq> ''pending'' \<longrightarrow> proposal_resolution p' = proposal_resolution p)"

interpretation proposals: row_table pl_id proposal_legal proposal_change
  by unfold_locales (auto simp: proposal_change_def proposal_core_def proposal_resolution_def)

definition message_legal :: "message_record \<Rightarrow> bool" where
  "message_legal m \<longleftrightarrow> role_check (ms_role m)"

definition message_core :: "message_record \<Rightarrow> string \<times> string \<times> string \<times> string option \<times> string \<times> string option \<times>
  string option \<times> timestamp" where
  "message_core m = (ms_id m, ms_workspace_id m, ms_role m, ms_text m, ms_kind m, ms_ref_id m,
     ms_attachment_ids_json m, ms_created_at m)"

definition message_change :: "message_record \<Rightarrow> message_record \<Rightarrow> bool" where
  "message_change m m' \<longleftrightarrow> message_core m' = message_core m"

interpretation messages: row_table ms_id message_legal message_change
  by unfold_locales (auto simp: message_change_def message_core_def message_legal_def)

definition conversation_change :: "conversation_record \<Rightarrow> conversation_record \<Rightarrow> bool" where
  "conversation_change c c' \<longleftrightarrow> cv_id c' = cv_id c \<and> cv_workspace_id c' = cv_workspace_id c \<and>
     cv_title c' = cv_title c \<and> cv_created_at c' = cv_created_at c \<and>
     cv_archived_at c' = cv_archived_at c \<and>
     (cv_codex_thread_id c \<noteq> None \<longrightarrow> cv_codex_thread_id c' = cv_codex_thread_id c)"

interpretation conversations: row_table cv_id "\<lambda>_. True" conversation_change
  by unfold_locales (auto simp: conversation_change_def)

text \<open>A settled turn keeps everything but the identity the agent reports late.\<close>

definition turn_core :: "agent_turn_record \<Rightarrow> string \<times> string \<times> string \<times> string \<times> timestamp" where
  "turn_core a = (at_id a, at_conversation_id a, at_workspace_id a, at_mode a, at_started_at a)"

definition turn_outcome :: "agent_turn_record \<Rightarrow> string \<times> string option \<times> string option \<times> timestamp option" where
  "turn_outcome a = (at_status a, at_reason_code a, at_execution_id a, at_completed_at a)"

definition turn_change :: "agent_turn_record \<Rightarrow> agent_turn_record \<Rightarrow> bool" where
  "turn_change a a' \<longleftrightarrow> turn_core a' = turn_core a \<and> (turn_check a \<longrightarrow> turn_check a') \<and>
     (at_status a \<noteq> ''running'' \<longrightarrow>
        turn_outcome a' = turn_outcome a \<and> at_user_message_id a' = at_user_message_id a) \<and>
     (at_user_message_id a \<noteq> None \<longrightarrow> at_user_message_id a' = at_user_message_id a) \<and>
     (at_codex_turn_id a \<noteq> None \<longrightarrow> at_codex_turn_id a' = at_codex_turn_id a)"

interpretation turns: row_table at_id turn_check turn_change
  by unfold_locales (auto simp: turn_change_def turn_core_def turn_outcome_def)

definition observation_core :: "observation_record \<Rightarrow> string \<times> string \<times> string \<times> string \<times> string option \<times>
  string option \<times> timestamp" where
  "observation_core x = (ob_id x, ob_workspace_id x, ob_user_message_id x, ob_contract_mode x,
     ob_release_id x, ob_build_revision x, ob_started_at x)"

definition observation_outcome :: "observation_record \<Rightarrow> string \<times> string option \<times> string option \<times> timestamp option" where
  "observation_outcome x = (ob_outcome x, ob_reason_code x, ob_session_id x, ob_completed_at x)"

definition observation_change :: "observation_record \<Rightarrow> observation_record \<Rightarrow> bool" where
  "observation_change x x' \<longleftrightarrow> observation_core x' = observation_core x \<and>
     (observation_check x \<longrightarrow> observation_check x') \<and>
     (ob_outcome x \<noteq> ''started'' \<longrightarrow> observation_outcome x' = observation_outcome x)"

interpretation observations: row_table ob_id observation_check observation_change
  by unfold_locales (auto simp: observation_change_def observation_core_def observation_outcome_def)

definition snapshot_legal :: "canvas_snapshot_record \<Rightarrow> bool" where
  "snapshot_legal x \<longleftrightarrow> 0 \<le> sn_revision x"

text \<open>A snapshot changes only together with a higher revision.\<close>

definition snapshot_change :: "canvas_snapshot_record \<Rightarrow> canvas_snapshot_record \<Rightarrow> bool" where
  "snapshot_change x x' \<longleftrightarrow> sn_workspace_id x' = sn_workspace_id x \<and>
     (x' = x \<or> sn_revision x < sn_revision x')"

interpretation snapshots: row_table sn_workspace_id snapshot_legal snapshot_change
  by unfold_locales (auto simp: snapshot_change_def snapshot_legal_def)

definition migration_key :: "version_migration_record \<Rightarrow> string \<times> string" where
  "migration_key m = (vm_workspace_id m, vm_operation_id m)"

interpretation migrations: row_table migration_key "\<lambda>_. True" "(=)"
  by unfold_locales auto

interpretation assessments: row_table va_id "\<lambda>a. assessment_status_check (va_status a)" "(=)"
  by unfold_locales auto

text \<open>A migration record belongs to the version it made.\<close>

definition linked_migration :: "version_record list \<Rightarrow> version_migration_record \<Rightarrow> bool" where
  "linked_migration vs m \<longleftrightarrow> (\<exists>v\<in>set vs. vr_id v = vm_target_version_id m \<and>
     vr_workspace_id v = vm_workspace_id m \<and> vr_source v = ''migration'' \<and>
     vr_parent_id v = Some (vm_source_version_id m))"

section \<open>The contract\<close>

definition pj_history :: "pdb \<Rightarrow> workspace_record list \<times> version_record list" where
  "pj_history d = (pj_workspaces d, pj_versions d)"

definition pj_comments :: "pdb \<Rightarrow> comment_state_record list \<times> comment_operation_row list" where
  "pj_comments d = (pj_comment_states d, pj_comment_operations d)"

definition project_contract :: "pdb \<Rightarrow> pdb \<Rightarrow> bool" where
  "project_contract d d' \<longleftrightarrow>
     history_step\<^sup>*\<^sup>* (pj_history d) (pj_history d') \<and>
     comments_step\<^sup>*\<^sup>* (pj_comments d) (pj_comments d') \<and>
     proposals.table_step\<^sup>*\<^sup>* (pj_proposals d) (pj_proposals d') \<and>
     messages.table_step\<^sup>*\<^sup>* (pj_messages d) (pj_messages d') \<and>
     conversations.table_step\<^sup>*\<^sup>* (pj_conversations d) (pj_conversations d') \<and>
     turns.table_step\<^sup>*\<^sup>* (pj_turns d) (pj_turns d') \<and>
     observations.table_step\<^sup>*\<^sup>* (pj_observations d) (pj_observations d') \<and>
     snapshots.table_step\<^sup>*\<^sup>* (pj_snapshots d) (pj_snapshots d') \<and>
     assessments.table_step\<^sup>*\<^sup>* (pj_assessments d) (pj_assessments d') \<and>
     migrations.table_step\<^sup>*\<^sup>* (pj_migrations d) (pj_migrations d') \<and>
     (\<forall>m\<in>set (pj_migrations d'). m \<in> set (pj_migrations d) \<or> linked_migration (pj_versions d') m)"

definition project_ok :: "pdb \<Rightarrow> bool" where
  "project_ok d \<longleftrightarrow> history_ok (pj_history d) \<and> comments_ok (pj_comments d) \<and>
     proposals.table_ok (pj_proposals d) \<and> messages.table_ok (pj_messages d) \<and>
     conversations.table_ok (pj_conversations d) \<and> turns.table_ok (pj_turns d) \<and>
     observations.table_ok (pj_observations d) \<and> snapshots.table_ok (pj_snapshots d) \<and>
     assessments.table_ok (pj_assessments d) \<and> migrations.table_ok (pj_migrations d) \<and>
     (\<forall>m\<in>set (pj_migrations d). linked_migration (pj_versions d) m)"

lemma versions_grow: "history_step\<^sup>*\<^sup>* (pj_history d) (pj_history d') \<Longrightarrow> \<exists>zs. pj_versions d' = pj_versions d @ zs"
  using history_grows [of "pj_history d" "pj_history d'"] by (simp add: pj_history_def)

lemma linked_migration_append: "linked_migration vs m \<Longrightarrow> linked_migration (vs @ zs) m"
  by (auto simp: linked_migration_def)

lemma linked_kept: "history_step\<^sup>*\<^sup>* (pj_history d) (pj_history d') \<Longrightarrow>
    linked_migration (pj_versions d) m \<Longrightarrow> linked_migration (pj_versions d') m"
  using versions_grow linked_migration_append by metis

lemma project_contract_refl [simp]: "project_contract d d"
  by (simp add: project_contract_def)

lemma project_contract_trans:
  assumes "project_contract d e" "project_contract e f"
  shows "project_contract d f"
proof -
  have "\<forall>m\<in>set (pj_migrations f). m \<in> set (pj_migrations d) \<or> linked_migration (pj_versions f) m"
    using assms linked_kept [of e f] unfolding project_contract_def by blast
  then show ?thesis using assms unfolding project_contract_def by auto
qed

lemma contract_project_ok:
  assumes "project_contract d d'" "project_ok d"
  shows "project_ok d'"
proof -
  have "\<forall>m\<in>set (pj_migrations d'). linked_migration (pj_versions d') m"
    using assms linked_kept [of d d'] unfolding project_contract_def project_ok_def by blast
  with assms show ?thesis
    unfolding project_contract_def project_ok_def
    by (elim conjE, intro conjI)
      (assumption | erule (1) history.steps_inv comment_log.steps_inv proposals.steps_inv
        messages.steps_inv conversations.steps_inv turns.steps_inv observations.steps_inv
        snapshots.steps_inv assessments.steps_inv migrations.steps_inv)+
qed

lemmas table_defs = project_contract_def pj_history_def pj_comments_def

lemma contract_tables:
  "proposals.table_step\<^sup>*\<^sup>* (pj_proposals d) ps \<Longrightarrow> project_contract d (d\<lparr>pj_proposals := ps\<rparr>)"
  "messages.table_step\<^sup>*\<^sup>* (pj_messages d) ms \<Longrightarrow> project_contract d (d\<lparr>pj_messages := ms\<rparr>)"
  "conversations.table_step\<^sup>*\<^sup>* (pj_conversations d) cs \<Longrightarrow> project_contract d (d\<lparr>pj_conversations := cs\<rparr>)"
  "turns.table_step\<^sup>*\<^sup>* (pj_turns d) ts \<Longrightarrow> project_contract d (d\<lparr>pj_turns := ts\<rparr>)"
  "observations.table_step\<^sup>*\<^sup>* (pj_observations d) os \<Longrightarrow> project_contract d (d\<lparr>pj_observations := os\<rparr>)"
  "snapshots.table_step\<^sup>*\<^sup>* (pj_snapshots d) ss \<Longrightarrow> project_contract d (d\<lparr>pj_snapshots := ss\<rparr>)"
  "assessments.table_step\<^sup>*\<^sup>* (pj_assessments d) as \<Longrightarrow> project_contract d (d\<lparr>pj_assessments := as\<rparr>)"
  by (simp_all add: table_defs)

lemma contract_history:
  "history_step\<^sup>*\<^sup>* (pj_history d) (ws, vs) \<Longrightarrow>
   project_contract d (d\<lparr>pj_workspaces := ws, pj_versions := vs\<rparr>)"
  by (simp add: table_defs)

lemma contract_comments:
  "comments_step\<^sup>*\<^sup>* (pj_comments d) (cs, xs) \<Longrightarrow>
   project_contract d (d\<lparr>pj_comment_states := cs, pj_comment_operations := xs\<rparr>)"
  by (simp add: table_defs)

end
