(* ===== verification/Project_System.thy ===== *)
theory Project_System
  imports Project_Contract
begin

text \<open>
  Every operation on the tables of a project keeps the contract; the tables as a transition
  system, \<open>project_step\<close>, with one rule per operation; and the invariant of every
  reachable database.
\<close>

section \<open>Inserts\<close>

lemma insert_proposal_contract:
  assumes "insert_proposal_row p db = Inr db'" "proposal_legal p"
  shows "project_contract db db'"
  using assms by (auto simp: insert_proposal_row_def sql_simps
      intro!: contract_tables proposals.row_inserted)

lemma insert_message_contract:
  assumes "insert_message_row m db = Inr db'"
  shows "project_contract db db'"
  using assms by (auto simp: insert_message_row_def sql_simps message_legal_def message_unique_def
      intro!: contract_tables messages.row_inserted)

lemma insert_conversation_contract:
  assumes "insert_conversation_row c db = Inr db'"
  shows "project_contract db db'"
  using assms by (auto simp: insert_conversation_row_def sql_simps
      intro!: contract_tables conversations.row_inserted)

lemma insert_turn_contract:
  assumes "insert_turn_row a db = Inr db'"
  shows "project_contract db db'"
  using assms by (auto simp: insert_turn_row_def sql_simps
      intro!: contract_tables turns.row_inserted)

lemma insert_observation_contract:
  assumes "insert_observation_row x db = Inr db'"
  shows "project_contract db db'"
  using assms by (auto simp: insert_observation_row_def sql_simps
      intro!: contract_tables observations.row_inserted)

lemma insert_snapshot_contract:
  assumes "insert_snapshot_row x db = Inr db'"
  shows "project_contract db db'"
  using assms by (auto simp: insert_snapshot_row_def sql_simps snapshot_legal_def
      intro!: contract_tables snapshots.row_inserted)

lemma insert_assessment_contract:
  assumes "insert_assessment_row a db = Inr db'"
  shows "project_contract db db'"
  using assms by (auto simp: insert_assessment_row_def sql_simps
      intro!: contract_tables assessments.row_inserted)

lemma insert_workspace_contract:
  assumes "insert_workspace w db = Inr db'" "wk_cur_version_id w = None"
  shows "project_contract db db'"
proof -
  have "db' = db\<lparr>pj_workspaces := pj_workspaces db @ [w]\<rparr>" "wk_id w \<notin> wk_id ` set (pj_workspaces db)"
    using assms(1) by (auto simp: insert_workspace_def sql_simps)
  with contract_history [of db, OF r_into_rtranclp, of "pj_workspaces db @ [w]" "pj_versions db"]
    workspace_added [of w "pj_workspaces db" "pj_versions db"] assms(2)
  show ?thesis by (simp add: pj_history_def)
qed

section \<open>Messages and conversations\<close>

lemma create_message_contract:
  "create_message new_id now input db = Inr (db', m) \<Longrightarrow> project_contract db db'"
  by (auto simp: create_message_def result_simps returning_Inr intro: insert_message_contract)

lemma create_message_once_contract:
  assumes "create_message_once new_id now input db = Inr (db', m)"
  shows "project_contract db db'"
proof (cases "nx_ref_id input")
  case None
  with assms show ?thesis by (simp add: create_message_once_def create_message_contract)
next
  case (Some r)
  define row where "row = message_row new_id now input"
  obtain t where t: "insert_or_ignore (message_unique row (pj_messages db) \<and> role_check (ms_role row))
      (message_foreign row db) row (pj_messages db) = Inr t" and db': "db' = db\<lparr>pj_messages := t\<rparr>"
    using assms Some unfolding create_message_once_def
    by (auto simp: Let_def row_def [symmetric] res_bind_Inr returning_Inr)
  have "messages.table_step\<^sup>*\<^sup>* (pj_messages db) t"
    by (rule messages.insert_or_ignore_step [OF t]) (auto simp: message_unique_def message_legal_def)
  then show ?thesis unfolding db' by (rule contract_tables)
qed

lemma touch_conversation_contract: "project_contract db (touch_conversation now i db)"
proof -
  have "conversations.table_step (pj_conversations db)
    (map (\<lambda>c. if cv_id c = i then c\<lparr>cv_updated_at := now\<rparr> else c) (pj_conversations db))"
    by (rule conversations.table_step.changed) (simp add: conversation_change_def)
  then show ?thesis unfolding touch_conversation_def by (intro contract_tables r_into_rtranclp)
qed

lemma assign_message_context_contract:
  assumes "assign_message_context now message_id conversation_id turn_id db = Inr (db', m)"
  shows "project_contract db db'"
proof -
  obtain t n where t: "sql_update (\<lambda>m. message_foreign m db) (\<lambda>m. ms_id m = message_id)
      (\<lambda>m. m\<lparr>ms_conversation_id := Some conversation_id, ms_turn_id := turn_id\<rparr>) (pj_messages db) = Inr (t, n)"
    and db': "db' = touch_conversation now conversation_id (db\<lparr>pj_messages := t\<rparr>)"
    using assms by (auto simp: assign_message_context_def result_simps returning_Inr split: if_splits)
  from messages.sql_update_step [OF t] have "project_contract db (db\<lparr>pj_messages := t\<rparr>)"
    by (intro contract_tables) (auto simp: message_change_def message_core_def)
  then show ?thesis unfolding db' by (rule project_contract_trans [OF _ touch_conversation_contract])
qed

lemma create_conversation_contract:
  "create_conversation new_id now workspace_id title db = Inr (db', c) \<Longrightarrow> project_contract db db'"
  by (auto simp: create_conversation_def result_simps returning_Inr split: if_splits
      intro: insert_conversation_contract)

lemma ensure_conversation_contract:
  "ensure_workspace_conversation new_id now workspace_id db = Inr (db', c) \<Longrightarrow> project_contract db db'"
  by (auto simp: ensure_workspace_conversation_def split: option.splits intro: create_conversation_contract)

lemma bind_thread_contract:
  assumes "bind_thread now workspace_id conversation_id thread db = Inr (db', c)"
  shows "project_contract db db'"
proof -
  obtain t n where t: "sql_update (\<lambda>_. True) (\<lambda>c. cv_id c = conversation_id \<and>
         cv_workspace_id c = workspace_id \<and> cv_codex_thread_id c = None)
       (\<lambda>c. c\<lparr>cv_codex_thread_id := Some thread, cv_updated_at := now\<rparr>) (pj_conversations db) = Inr (t, n)"
    and db': "db' = db\<lparr>pj_conversations := t\<rparr>"
    using assms by (auto simp: bind_thread_def result_simps returning_Inr split: if_splits)
  from conversations.sql_update_step [OF t] show ?thesis
    unfolding db' by (intro contract_tables) (auto simp: conversation_change_def)
qed

lemma bind_conversation_contract:
  "bind_conversation_codex_thread now workspace_id conversation_id thread db = Inr (db', c)
    \<Longrightarrow> project_contract db db'"
  by (auto simp: bind_conversation_codex_thread_def result_simps split: option.splits if_splits
      intro: bind_thread_contract)

section \<open>Turns\<close>

lemma start_agent_turn_contract:
  assumes "start_agent_turn_with_id now turn_id workspace_id conversation_id mode db = Inr (db', a)"
  shows "project_contract db db'"
  using assms by (auto simp: start_agent_turn_with_id_def result_simps returning_Inr split: if_splits
      intro: project_contract_trans [OF insert_turn_contract touch_conversation_contract])

lemma turns_update_contract:
  assumes "sql_update check P f (pj_turns db) = Inr (t, n)"
    and "\<And>a. P a \<Longrightarrow> check (f a) \<Longrightarrow> turn_change a (f a)"
  shows "project_contract db (db\<lparr>pj_turns := t\<rparr>)"
  using turns.sql_update_step [OF assms(1)] assms(2) by (intro contract_tables) blast

lemma attach_turn_user_message_contract:
  "attach_turn_user_message turn_id message_id db = Inr (db', u) \<Longrightarrow> project_contract db db'"
  by (auto simp: attach_turn_user_message_def result_simps turn_change_def turn_core_def turn_check_def
      split: if_splits elim!: turns_update_contract)

lemma settle_turn_contract:
  "settle_turn_rows now turn_id status reason_code execution_id P db = Inr (t, n)
    \<Longrightarrow> project_contract db (db\<lparr>pj_turns := t\<rparr>)"
  unfolding settle_turn_rows_def
  by (erule turns_update_contract) (auto simp: turn_change_def turn_core_def)

lemma finalize_agent_turn_contract:
  "finalize_agent_turn now turn_id status reason_code execution_id db = Inr (db', a)
    \<Longrightarrow> project_contract db db'"
  by (auto simp: finalize_agent_turn_def result_simps returning_Inr split: if_splits
      intro: settle_turn_contract)

lemma finalize_interrupted_turns_contract:
  "finalize_interrupted_agent_turns now db = Inr (db', n) \<Longrightarrow> project_contract db db'"
  by (auto simp: finalize_interrupted_agent_turns_def result_simps turn_change_def turn_core_def
      elim!: turns_update_contract)

lemma attach_codex_identity_contract:
  "attach_agent_turn_codex_identity turn_id codex_turn_id db = Inr (db', a) \<Longrightarrow> project_contract db db'"
  by (auto simp: attach_agent_turn_codex_identity_def result_simps returning_Inr turn_change_def
      turn_core_def turn_outcome_def turn_check_def split: if_splits elim!: turns_update_contract)

section \<open>Observations\<close>

lemma observations_update_contract:
  assumes "sql_update observation_check P f (pj_observations db) = Inr (t, n)"
    and "\<And>x. P x \<Longrightarrow> ob_outcome x = ''started''" "\<And>x. observation_core (f x) = observation_core x"
  shows "project_contract db (db\<lparr>pj_observations := t\<rparr>)"
  using observations.sql_update_step [OF assms(1)] assms(2,3)
  by (intro contract_tables) (auto simp: observation_change_def)

lemma create_observation_contract:
  "create_graph_edit_message_with_observation_id message_id now input observation_id db = Inr (db', z)
    \<Longrightarrow> project_contract db db'"
  by (auto simp: create_graph_edit_message_with_observation_id_def result_simps
      intro: project_contract_trans [OF insert_message_contract insert_observation_contract])

lemma complete_observation_contract:
  "complete_observation_in_tx now input db = Inr (db', x) \<Longrightarrow> project_contract db db'"
  by (auto simp: complete_observation_in_tx_def result_simps returning_Inr observation_core_def
      split: if_splits elim!: observations_update_contract)

lemma create_clarification_contract:
  "create_clarification_and_finalize_observation message_id now input completion db = Inr (db', z)
    \<Longrightarrow> project_contract db db'"
  by (auto simp: create_clarification_and_finalize_observation_def result_simps split: if_splits
      intro: project_contract_trans [OF insert_message_contract complete_observation_contract])

lemma finalize_interrupted_observations_contract:
  "finalize_interrupted_agent_contract_observations now db = Inr (db', n) \<Longrightarrow> project_contract db db'"
  by (auto simp: finalize_interrupted_agent_contract_observations_def result_simps observation_core_def
      elim!: observations_update_contract)

lemma close_dropped_contract:
  "close_dropped_observation now obs db = Inr db' \<Longrightarrow> project_contract db db'"
  by (auto simp: close_dropped_observation_def result_simps observation_core_def
      split: option.splits if_splits elim!: observations_update_contract)

lemma add_recovery_contract:
  "add_recovery_message message_id now current existing execution_id recovery db = Inr (db', m)
    \<Longrightarrow> project_contract db db'"
  by (auto simp: add_recovery_message_def result_simps split: option.splits intro: insert_message_contract)

lemma recovered_turn_contract:
  assumes "project_contract db db1"
    and "add_recovery_message message_id now current existing execution_id recovery db1 = Inr (db2, m)"
    and "settle_turn_rows now turn_id status reason_code execution P db2 = Inr (t, n)"
  shows "project_contract db (touch_conversation now conversation_id (db2\<lparr>pj_turns := t\<rparr>))"
  using project_contract_trans [OF project_contract_trans [OF assms(1) add_recovery_contract [OF assms(2)]]
      project_contract_trans [OF settle_turn_contract [OF assms(3)] touch_conversation_contract]] .

lemma settle_running_turn_contract:
  "settle_running_turn message_id now current observation_id db = Inr (db', z)
    \<Longrightarrow> project_contract db db'"
  by (auto simp: settle_running_turn_def Let_def result_simps split: if_splits
      intro: recovered_turn_contract [OF close_dropped_contract]
        recovered_turn_contract [OF project_contract_refl])

lemma settle_dropped_contract:
  "settle_dropped_agent_turn message_id now turn_id observation_id db = Inr (db', z)
    \<Longrightarrow> project_contract db db'"
  by (auto simp: settle_dropped_agent_turn_def split: option.splits if_splits
      intro: settle_running_turn_contract)

section \<open>Versions\<close>

lemma insert_version_row_Inr:
  assumes "insert_version_row v db = Inr db'"
  shows "db' = db\<lparr>pj_versions := pj_versions db @ [v]\<rparr>" "vr_id v \<notin> vr_id ` set (pj_versions db)"
    "vr_workspace_id v \<in> wk_id ` set (pj_workspaces db)" "foreign vr_id (vr_parent_id v) (pj_versions db)"
  using assms by (force simp: insert_version_row_def sql_simps)+

lemma advance_current_Inr:
  assumes "advance_current now i version_id P db = Inr (db', n)"
    and "workspaces_table.keyed (pj_workspaces db)" "n \<noteq> 0"
  shows "n = 1" "\<exists>w\<in>set (pj_workspaces db). wk_id w = i \<and> P w"
    "db' = db\<lparr>pj_workspaces := map (\<lambda>w. if wk_id w = i
       then w\<lparr>wk_cur_version_id := Some version_id, wk_updated_at := now\<rparr> else w) (pj_workspaces db)\<rparr>"
proof -
  let ?f = "\<lambda>w. w\<lparr>wk_cur_version_id := Some version_id, wk_updated_at := now\<rparr>"
  have db': "db' = db\<lparr>pj_workspaces := map (\<lambda>w. if wk_id w = i \<and> P w then ?f w else w) (pj_workspaces db)\<rparr>"
    and n: "n = length (filter (\<lambda>w. wk_id w = i \<and> P w) (pj_workspaces db))"
    using assms(1) by (auto simp: advance_current_def sql_simps)
  from n assms(3) obtain w where w: "w \<in> set (pj_workspaces db)" "wk_id w = i" "P w"
    by (auto simp: filter_empty_conv)
  then show "\<exists>w\<in>set (pj_workspaces db). wk_id w = i \<and> P w" by blast
  show "n = 1" using workspaces_table.keyed_count_le [OF assms(2), of i P] n assms(3) by linarith
  have "P w'" if "w' \<in> set (pj_workspaces db)" "wk_id w' = i" for w'
    using workspaces_table.keyed_unique [OF assms(2) that(1) w(1)] that(2) w by simp
  then show "db' = db\<lparr>pj_workspaces := map (\<lambda>w. if wk_id w = i then ?f w else w) (pj_workspaces db)\<rparr>"
    unfolding db' by simp
qed

lemma version_added_contract:
  assumes ok: "project_ok d" and ins: "insert_version_row v d = Inr e"
    and adv: "advance_current now (vr_workspace_id v) (vr_id v) P e = Inr (d', n)" "n \<noteq> 0"
    and idx: "vr_idx v = next_idx (vr_workspace_id v) (pj_versions d)"
  shows "project_contract d d'" "n = 1"
    "d' = d\<lparr>pj_workspaces := map (advanced v now) (pj_workspaces d), pj_versions := pj_versions d @ [v]\<rparr>"
    "\<exists>w\<in>set (pj_workspaces d). wk_id w = vr_workspace_id v \<and> P w"
proof -
  note e = insert_version_row_Inr [OF ins]
  have "workspaces_table.keyed (pj_workspaces e)"
    using ok e(1) by (simp add: project_ok_def pj_history_def history_ok_def)
  note a = advance_current_Inr [OF adv(1) this adv(2)]
  show "n = 1" by (rule a(1))
  show d': "d' = d\<lparr>pj_workspaces := map (advanced v now) (pj_workspaces d), pj_versions := pj_versions d @ [v]\<rparr>"
    using a(3) by (simp add: e(1) advanced_def [abs_def])
  show "\<exists>w\<in>set (pj_workspaces d). wk_id w = vr_workspace_id v \<and> P w" using a(2) by (simp add: e(1))
  have "history_step (pj_history d) (map (advanced v now) (pj_workspaces d), pj_versions d @ [v])"
    unfolding pj_history_def by (rule version_added) (use e idx in \<open>simp_all add: next_idx_rows\<close>)
  then show "project_contract d d'" unfolding d' by (intro contract_history r_into_rtranclp)
qed

lemma version_row_simps [simp]:
  "vr_id (version_row i now n v) = i" "vr_workspace_id (version_row i now n v) = nv_workspace_id v"
  "vr_idx (version_row i now n v) = n" "vr_parent_id (version_row i now n v) = nv_parent_id v"
  "vr_source (version_row i now n v) = version_source_as_str (nv_source v)"
  by (simp_all add: version_row_def)

lemma insert_version_Inr:
  assumes "insert_version version_id now input expected reject_pending db = Inr (db', v)"
  shows "\<exists>P e. insert_version_row (version_row version_id now
        (next_idx (nv_workspace_id input) (pj_versions db)) input) db = Inr e \<and>
      advance_current now (nv_workspace_id input) version_id P e = Inr (db', 1) \<and>
      (\<forall>x. expected = Some x \<longrightarrow> nv_parent_id input = Some x \<and> (\<forall>w. P w \<longrightarrow> wk_cur_version_id w = Some x))
      \<and> version version_id db' = Inr v"
  using assms unfolding insert_version_def
  by (auto simp: result_simps returning_Inr split: if_splits option.splits)

lemma insert_version_contract:
  assumes "insert_version version_id now input expected reject_pending db = Inr (db', v)" "project_ok db"
  shows "project_contract db db'"
  using insert_version_Inr [OF assms(1)] version_added_contract(1) [OF assms(2)] by fastforce

lemmas create_version_contracts =
  insert_version_contract [where expected = None and reject_pending = False, folded create_version_def]

lemma create_workspace_contract:
  "create_workspace new_id now name db = Inr (db', w) \<Longrightarrow> project_contract db db'"
  by (auto simp: create_workspace_def result_simps returning_Inr new_workspace_row_def
      intro: project_contract_trans [OF insert_workspace_contract insert_snapshot_contract])

lemma set_runtime_provider_contract:
  assumes "set_workspace_runtime_provider now workspace_id provider_id db = Inr (db', w)"
  shows "project_contract db db'"
proof -
  let ?f = "\<lambda>w. if wk_id w = workspace_id
    then w\<lparr>wk_runtime_provider_id := provider_id, wk_updated_at := now\<rparr> else w"
  have "db' = db\<lparr>pj_workspaces := map ?f (pj_workspaces db)\<rparr>"
    using assms by (auto simp: set_workspace_runtime_provider_def sql_simps)
  moreover have "history_step (pj_history db) (map ?f (pj_workspaces db), pj_versions db)"
    unfolding pj_history_def by (rule workspace_changed) simp
  ultimately show ?thesis
    using contract_history [of db "map ?f (pj_workspaces db)" "pj_versions db"] by auto
qed

lemma create_initialized_workspace_contract:
  assumes "create_workspace_with_initial_version now input db = Inr (db', z)" "project_ok db"
  shows "project_contract db db'"
proof -
  define v where "v = version_row (wv_initial_version_id input) now 1
       \<lparr>nv_workspace_id = wv_workspace_id input, nv_label = wv_version_label input,
        nv_source = wv_source input, nv_graph_path = wv_graph_path input,
        nv_graph_hash = wv_graph_hash input, nv_parent_id = None, nv_semantics_json = None\<rparr>"
  obtain d1 d2 d3 n where
      1: "insert_workspace (new_workspace_row (wv_workspace_id input) now (wv_name input)) db = Inr d1"
    and 2: "insert_snapshot_row (initial_snapshot (wv_workspace_id input)) d1 = Inr d2"
    and 3: "insert_version_row v d2 = Inr d3"
    and 4: "advance_current now (wv_workspace_id input) (wv_initial_version_id input)
       (\<lambda>w. wk_cur_version_id w = None) d3 = Inr (db', n)" "n = 1"
    using assms(1) unfolding create_workspace_with_initial_version_def v_def
    by (auto simp: result_simps require_one_row_def split: if_splits)
  have contract: "project_contract db d2"
    by (rule project_contract_trans [OF insert_workspace_contract [OF 1] insert_snapshot_contract [OF 2]])
      (simp add: new_workspace_row_def)
  note ok = contract_project_ok [OF contract assms(2)]
  have "new_workspace_row (wv_workspace_id input) now (wv_name input) \<in> set (pj_workspaces d2)"
    using 1 2 by (auto simp: insert_workspace_def insert_snapshot_row_def sql_simps)
  with ok have "newest_version (wv_workspace_id input) (pj_versions d2) = None"
    by (force simp: project_ok_def pj_history_def history_ok_def new_workspace_row_def)
  then have "next_idx (wv_workspace_id input) (pj_versions d2) = 1"
    by (auto simp: next_idx_rows version_rows.next_number_def newest_version_def Let_def split: if_splits)
  then have "project_contract d2 db'"
    using version_added_contract(1) [OF ok 3] 4 by (simp add: v_def)
  then show ?thesis by (rule project_contract_trans [OF contract])
qed

section \<open>Proposals\<close>

lemma create_proposal_contract:
  "create_proposal new_id now input db = Inr (db', p) \<Longrightarrow> project_contract db db'"
  by (auto simp: create_proposal_def result_simps returning_Inr proposal_legal_def proposal_row_def
      intro!: insert_proposal_contract)

lemma proposals_update_contract:
  assumes "sql_update check P f (pj_proposals db) = Inr (t, n)"
    and "\<And>p. P p \<Longrightarrow> check (f p) \<Longrightarrow> proposal_change p (f p)"
  shows "project_contract db (db\<lparr>pj_proposals := t\<rparr>)"
  using proposals.sql_update_step [OF assms(1)] assms(2) by (intro contract_tables) blast

lemma attach_proposal_message_contract:
  "attach_proposal_message proposal_id message_id db = Inr (db', p) \<Longrightarrow> project_contract db db'"
  by (auto simp: attach_proposal_message_def result_simps returning_Inr proposal_change_def
      proposal_core_def proposal_resolution_def proposal_legal_def elim!: proposals_update_contract)

lemma mark_proposal_contract:
  assumes "mark_proposal_rows now proposal_id workspace_id state result_version_id db = Inr (t, n)"
    and "state \<noteq> ''pending''"
  shows "project_contract db (db\<lparr>pj_proposals := t\<rparr>)"
  using assms(1) unfolding mark_proposal_rows_def
  by (rule proposals_update_contract) (use assms(2) in
    \<open>auto simp: proposal_change_def proposal_core_def proposal_resolution_def proposal_legal_def\<close>)

lemma resolution_not_pending [simp]: "resolution_as_str s \<noteq> ''pending''"
  by (cases s) simp_all

lemma resolve_pending_contract:
  "resolve_pending now proposal_id workspace_id state result_version_id db = Inr (db', p)
    \<Longrightarrow> project_contract db db'"
  by (auto simp: resolve_pending_def result_simps returning_Inr split: if_splits
      intro: mark_proposal_contract)

lemma resolve_proposal_contract:
  "resolve_proposal now proposal_id workspace_id state result_version_id db = Inr (db', p)
    \<Longrightarrow> project_contract db db'"
  by (auto simp: resolve_proposal_def result_simps intro: resolve_pending_contract)

lemma advance_checked_Inr:
  "advance_checked op now i version_id expected db = Inr db' \<Longrightarrow>
   advance_current now i version_id (\<lambda>w. wk_cur_version_id w = Some expected) db = Inr (db', 1)"
  by (auto simp: advance_checked_def result_simps require_one_row_def split: if_splits)

lemma applied_version_contract:
  assumes "insert_version_row (version_row version_id now
      (next_idx (nv_workspace_id input) (pj_versions db)) input) db = Inr e"
    and "advance_checked op now (nv_workspace_id input) version_id expected e = Inr f" "project_ok db"
  shows "project_contract db f"
  using version_added_contract(1) [OF assms(3,1)] advance_checked_Inr [OF assms(2)] by fastforce

lemma apply_proposal_contract:
  assumes "create_version_after_applying_proposal version_id message_id now proposal_id expected input
      message_text db = Inr (db', z)" "project_ok db"
  shows "project_contract db db'"
proof -
  obtain e f t where
      1: "insert_version_row (version_row version_id now
        (next_idx (nv_workspace_id input) (pj_versions db)) input) db = Inr e"
    and 2: "advance_checked ''advance_applied_proposal_current'' now (nv_workspace_id input)
        version_id expected e = Inr f"
    and 3: "mark_proposal_rows now proposal_id (nv_workspace_id input) ''applied'' (Some version_id) f
        = Inr (t, 1)"
    and 4: "insert_message_row (applied_message message_id now (nv_workspace_id input) message_text
        proposal_id version_id None) (f\<lparr>pj_proposals := t\<rparr>) = Inr db'"
    using assms(1) unfolding create_version_after_applying_proposal_def
    by (auto simp: result_simps require_one_row_def split: if_splits)
  from applied_version_contract [OF 1 2 assms(2)] mark_proposal_contract [OF 3] insert_message_contract [OF 4]
  show ?thesis using project_contract_trans by blast
qed

lemma finalize_applied_turn_contract:
  "finalize_applied_turn now completion workspace_id tc db = Inr db' \<Longrightarrow> project_contract db db'"
  by (auto simp: finalize_applied_turn_def result_simps
      intro: project_contract_trans [OF settle_turn_contract touch_conversation_contract] split: prod.splits)

lemma auto_apply_contract:
  assumes "auto_apply_proposal_version_inner proposal_id version_id message_id now np input message_text
      completion turn_context db = Inr (db', z)" "project_ok db"
  shows "project_contract db db'"
proof -
  obtain d1 d2 d3 d4 d5 where
      1: "insert_version_row (version_row version_id now
        (next_idx (nv_workspace_id input) (pj_versions db)) input) db = Inr d1"
    and 2: "advance_checked ''advance_auto_applied_current'' now (nv_workspace_id input) version_id
        (nl_base_version_id np) d1 = Inr d2"
    and 3: "insert_message_row (applied_message message_id now (nl_workspace_id np) message_text
        proposal_id version_id turn_context) d2 = Inr d3"
    and 4: "insert_proposal_row (proposal_row proposal_id now np ''applied'' (Some version_id)
        (Some message_id) (Some now)) d3 = Inr d4"
    and 5: "(case completion of None \<Rightarrow> Inr d4
        | Some c \<Rightarrow> res_bind (complete_observation_in_tx now c d4) (\<lambda>(db, _). Inr db)) = Inr d5"
    and 6: "(case turn_context of None \<Rightarrow> Inr d5
        | Some tc \<Rightarrow> finalize_applied_turn now completion (nl_workspace_id np) tc d5) = Inr db'"
    using assms(1) unfolding auto_apply_proposal_version_inner_def
    by (auto simp: res_bind_Inr split: if_splits)
  have "project_contract d3 d4"
    using 4 by (rule insert_proposal_contract) (simp add: proposal_legal_def proposal_row_def)
  moreover have "project_contract d4 d5"
    using 5 by (auto simp: result_simps split: option.splits intro: complete_observation_contract)
  moreover have "project_contract d5 db'"
    using 6 by (auto split: option.splits intro: finalize_applied_turn_contract)
  ultimately show ?thesis
    using applied_version_contract [OF 1 2 assms(2)] insert_message_contract [OF 3]
    by (meson project_contract_trans)
qed

section \<open>Version migrations\<close>

lemma record_assessment_contract:
  "record_version_migration_assessment new_id now input db = Inr (db', a) \<Longrightarrow> project_contract db db'"
  by (auto simp: record_version_migration_assessment_def result_simps returning_Inr
      intro: insert_assessment_contract)

lemma insert_migration_contract:
  assumes "insert_migration_row m db = Inr db'" "linked_migration (pj_versions db) m"
  shows "project_contract db db'"
proof -
  have db': "db' = db\<lparr>pj_migrations := pj_migrations db @ [m]\<rparr>"
    and "migration_key m \<notin> migration_key ` set (pj_migrations db)"
    using assms(1) by (auto simp: insert_migration_row_def sql_simps migration_key_def)
  from migrations.row_inserted [OF this(2)] show ?thesis
    using assms(2) by (simp add: db' table_defs)
qed

lemma apply_migration_Inr:
  assumes "apply_version_migration target_id migration_id now input db = Inr (db', m, v, False)"
  shows "\<exists>P e f. insert_version_row (version_row target_id now
        (next_idx (am_workspace_id input) (pj_versions db)) (target_version input)) db = Inr e \<and>
      advance_current now (am_workspace_id input) target_id P e = Inr (f, 1) \<and>
      (\<forall>w. P w \<longrightarrow> wk_cur_version_id w = Some (am_source_version_id input)) \<and>
      insert_migration_row (migration_row migration_id target_id now input) f = Inr db' \<and>
      version_migration_by_operation (am_workspace_id input) (am_operation_id input) db' = Some m \<and>
      version target_id db' = Inr v"
  using assms unfolding apply_version_migration_def
  by (auto simp: result_simps split: if_splits option.splits)

lemma apply_migration_contract:
  assumes "apply_version_migration target_id migration_id now input db = Inr (db', m, v, replayed)"
    and "project_ok db"
  shows "project_contract db db'"
proof (cases replayed)
  case True
  with assms(1) have "db' = db"
    unfolding apply_version_migration_def by (auto simp: result_simps split: if_splits option.splits)
  then show ?thesis by simp
next
  case False
  then have run: "apply_version_migration target_id migration_id now input db = Inr (db', m, v, False)"
    using assms(1) by simp
  let ?v = "version_row target_id now (next_idx (am_workspace_id input) (pj_versions db)) (target_version input)"
  from apply_migration_Inr [OF run] obtain P e f where
      1: "insert_version_row ?v db = Inr e"
    and 2: "advance_current now (am_workspace_id input) target_id P e = Inr (f, 1)"
    and 3: "insert_migration_row (migration_row migration_id target_id now input) f = Inr db'"
    by blast
  have adv: "advance_current now (vr_workspace_id ?v) (vr_id ?v) P e = Inr (f, 1)"
    using 2 by (simp add: target_version_def)
  note added = version_added_contract(1,3) [OF assms(2) 1 adv]
  have "pj_versions f = pj_versions db @ [?v]" using added(2) by (simp add: target_version_def)
  then have "linked_migration (pj_versions f) (migration_row migration_id target_id now input)"
    by (simp add: linked_migration_def migration_row_def target_version_def)
  from insert_migration_contract [OF 3 this] added(1) show ?thesis
    using project_contract_trans by (simp add: target_version_def)
qed

section \<open>Canvas\<close>

lemma load_persisted_Some:
  "load_persisted_state i db = Some (c, k) \<Longrightarrow> c \<in> set (pj_comment_states db) \<and> cm_workspace_id c = i"
  by (auto simp: load_persisted_state_def dest: fetch_optional_Some split: option.splits)

lemma insert_comment_state_contract:
  assumes "0 \<le> cm_seq input"
  shows "project_contract db (insert_comment_state input db)"
proof (cases "fetch_optional (\<lambda>w. wk_id w = cm_workspace_id input) (pj_workspaces db)")
  case (Some w)
  let ?r = "input\<lparr>cm_seq := (if current_idx w db < cm_seq input then cm_seq input else current_idx w db)\<rparr>"
  show ?thesis
  proof (cases "row_exists (\<lambda>c. cm_workspace_id c = cm_workspace_id input) (pj_comment_states db)")
    case False
    then have "cm_workspace_id ?r \<notin> cm_workspace_id ` set (pj_comment_states db)" by auto
    then have "comments_step (pj_comments db) (pj_comment_states db @ [?r], pj_comment_operations db)"
      unfolding pj_comments_def by (rule comments_initialized) (use assms in simp)
    from contract_comments [OF r_into_rtranclp, OF this] False Some show ?thesis
      by (simp add: insert_comment_state_def)
  qed (use Some in \<open>simp add: insert_comment_state_def\<close>)
qed (simp add: insert_comment_state_def)

lemma initialize_comments_contract:
  "initialize_canvas_comment_state input db = Inr (db', c) \<Longrightarrow> project_contract db db'"
  by (auto simp: initialize_canvas_comment_state_def Let_def returning_Inr split: if_splits
      intro: insert_comment_state_contract)

text \<open>Only the new row of the operations is finalized.\<close>

lemma finalize_operation_row:
  assumes "sql_update chk (\<lambda>x. co_workspace_id x = co_workspace_id r \<and> co_operation_id x = co_operation_id r \<and>
      co_committed_seq x = None) (\<lambda>x. x\<lparr>co_committed_seq := Some n\<rparr>) (xs @ [r]) = Inr (u, k)"
    and "operation_key r \<notin> operation_key ` set xs" "co_committed_seq r = None"
  shows "u = xs @ [r\<lparr>co_committed_seq := Some n\<rparr>]"
proof -
  have "\<not> (co_workspace_id x = co_workspace_id r \<and> co_operation_id x = co_operation_id r)"
    if "x \<in> set xs" for x
    using assms(2) that by (metis image_eqI operation_key_def)
  with assms(1,3) show ?thesis by (auto simp: sql_update_Inr intro!: map_idI)
qed

lemma apply_comment_operation_Inr:
  assumes "apply_comment_operation input ops db = Inr (db', CommentApplied s)"
  shows "\<exists>c i n t k u l. load_persisted_state (cc_workspace_id input) db = Some (c, i) \<and>
      cc_expected_seq input = max (cm_seq c) i \<and> n = max (cm_seq c) i + 1 \<and>
      sql_update (\<lambda>c. 0 \<le> cm_seq c)
        (\<lambda>c'. cm_workspace_id c' = cc_workspace_id input \<and> cm_seq c' = cm_seq c)
        (\<lambda>c. c\<lparr>cm_seq := n, cm_comments_json := cc_comments_json input\<rparr>) (pj_comment_states db) = Inr (t, k) \<and>
      sql_update (\<lambda>x. case co_committed_seq x of None \<Rightarrow> True | Some s \<Rightarrow> 0 \<le> s)
        (\<lambda>x. co_workspace_id x = cc_workspace_id input \<and> co_operation_id x = cc_operation_id input \<and>
           co_committed_seq x = None)
        (\<lambda>x. x\<lparr>co_committed_seq := Some n\<rparr>) ops = Inr (u, l) \<and>
      db' = db\<lparr>pj_comment_states := t, pj_comment_operations := u\<rparr>"
  using assms unfolding apply_comment_operation_def Let_def
  by (auto simp: result_simps state_or_missing_def logical_seq_def checked_add_one_def split: if_splits)

definition new_operation_row :: "comment_operation \<Rightarrow> comment_operation_row" where
  "new_operation_row input =
     \<lparr>co_workspace_id = cc_workspace_id input, co_operation_id = cc_operation_id input,
      co_operation_fingerprint = cc_operation_fingerprint input, co_committed_seq = None\<rparr>"

definition committed_row :: "comment_operation \<Rightarrow> int \<Rightarrow> comment_operation_row" where
  "committed_row input n = (new_operation_row input)\<lparr>co_committed_seq := Some n\<rparr>"

lemma committed_row_simps [simp]:
  "co_workspace_id (committed_row input n) = cc_workspace_id input"
  "co_committed_seq (committed_row input n) = Some n"
  "operation_key (committed_row input n) = operation_key (new_operation_row input)"
  by (simp_all add: committed_row_def new_operation_row_def operation_key_def)

lemma commit_comment_applied:
  assumes "commit_canvas_comment_operation input db = Inr (db', CommentApplied s)" "project_ok db"
  shows "\<exists>c n. c \<in> set (pj_comment_states db) \<and> cm_workspace_id c = cc_workspace_id input \<and> cm_seq c < n \<and>
      n = cc_expected_seq input + 1 \<and>
      operation_key (new_operation_row input) \<notin> operation_key ` set (pj_comment_operations db) \<and>
      db' = db\<lparr>pj_comment_states := map (\<lambda>c. if cm_workspace_id c = cc_workspace_id input
          then c\<lparr>cm_seq := n, cm_comments_json := cc_comments_json input\<rparr> else c) (pj_comment_states db),
        pj_comment_operations := pj_comment_operations db @ [committed_row input n]\<rparr>"
proof -
  let ?r = "new_operation_row input" and ?xs = "pj_comment_operations db"
  let ?f = "\<lambda>n c. c\<lparr>cm_seq := n, cm_comments_json := cc_comments_json input\<rparr>"
  have fresh: "operation_key ?r \<notin> operation_key ` set ?xs"
    and run: "apply_comment_operation input (?xs @ [?r]) db = Inr (db', CommentApplied s)"
    using assms(1) by (auto simp: commit_canvas_comment_operation_def replay_comment_operation_def Let_def
        sql_simps new_operation_row_def operation_key_def split: if_splits)
  from apply_comment_operation_Inr [OF run] obtain c i n t k u l where
      c: "load_persisted_state (cc_workspace_id input) db = Some (c, i)"
    and n: "cc_expected_seq input = max (cm_seq c) i" "n = max (cm_seq c) i + 1"
    and t: "sql_update (\<lambda>c. 0 \<le> cm_seq c)
        (\<lambda>c'. cm_workspace_id c' = cc_workspace_id input \<and> cm_seq c' = cm_seq c) (?f n)
        (pj_comment_states db) = Inr (t, k)"
    and u: "sql_update (\<lambda>x. case co_committed_seq x of None \<Rightarrow> True | Some s \<Rightarrow> 0 \<le> s)
        (\<lambda>x. co_workspace_id x = cc_workspace_id input \<and> co_operation_id x = cc_operation_id input \<and>
           co_committed_seq x = None) (\<lambda>x. x\<lparr>co_committed_seq := Some n\<rparr>) (?xs @ [?r]) = Inr (u, l)"
    and db': "db' = db\<lparr>pj_comment_states := t, pj_comment_operations := u\<rparr>"
    by blast
  note mem = load_persisted_Some [OF c]
  have "cm_seq c' = cm_seq c" if "c' \<in> set (pj_comment_states db)" "cm_workspace_id c' = cc_workspace_id input" for c'
    using comment_states_table.keyed_unique [of "pj_comment_states db" c' c] mem that assms(2)
    by (simp add: project_ok_def pj_comments_def comments_ok_def)
  then have "t = map (\<lambda>c. if cm_workspace_id c = cc_workspace_id input then ?f n c else c) (pj_comment_states db)"
    using t by (auto simp: sql_update_Inr)
  moreover have "u = ?xs @ [committed_row input n]"
    unfolding committed_row_def
    by (rule finalize_operation_row [OF _ fresh]) (use u in \<open>simp_all add: new_operation_row_def\<close>)
  ultimately show ?thesis using mem n fresh db' by auto
qed

lemma commit_comment_unchanged:
  "commit_canvas_comment_operation input db = Inr (db', z) \<Longrightarrow> (\<And>s. z \<noteq> CommentApplied s) \<Longrightarrow> db' = db"
  by (auto simp: commit_canvas_comment_operation_def replay_comment_operation_def
      apply_comment_operation_def Let_def result_simps split: if_splits)

lemma commit_comment_contract:
  assumes "commit_canvas_comment_operation input db = Inr (db', z)" "project_ok db"
  shows "project_contract db db'"
proof (cases "\<exists>s. z = CommentApplied s")
  case True
  with commit_comment_applied assms obtain c n where
      c: "c \<in> set (pj_comment_states db)" "cm_workspace_id c = cc_workspace_id input" "cm_seq c < n"
    and new: "operation_key (new_operation_row input) \<notin> operation_key ` set (pj_comment_operations db)"
    and db': "db' = db\<lparr>pj_comment_states := map (\<lambda>c. if cm_workspace_id c = cc_workspace_id input
          then c\<lparr>cm_seq := n, cm_comments_json := cc_comments_json input\<rparr> else c) (pj_comment_states db),
        pj_comment_operations := pj_comment_operations db @ [committed_row input n]\<rparr>"
    by blast
  from comments_committed [of c _ "committed_row input n" _ n] c new show ?thesis
    unfolding db' by (intro contract_comments r_into_rtranclp) (simp add: pj_comments_def)
next
  case False
  with commit_comment_unchanged [OF assms(1)] show ?thesis by auto
qed

lemma next_revision: "0 \<le> sint (w + 1 :: 64 word) \<Longrightarrow> sint (w + 1) = sint w + 1"
proof (cases "sint w = i64_max")
  case True
  have "w = word_of_int (sint w)" by simp
  also note True
  finally have "w = word_of_int i64_max" .
  then show "0 \<le> sint (w + 1) \<Longrightarrow> ?thesis" by (simp add: i64_max_def)
next
  case False
  have "- (2 ^ 63) \<le> sint w" "sint w < 2 ^ 63"
    using sint_greater_eq [of w] sint_less [of w] by simp_all
  with False have "signed_take_bit 63 (sint w + 1) = sint w + 1"
    by (intro signed_take_bit_int_eq_self) (simp_all add: i64_max_def)
  then show ?thesis by (simp add: sint_word_ariths)
qed

lemma commit_snapshot_contract:
  assumes "commit_canvas_snapshot input db = Inr (db', z)"
  shows "project_contract db db'"
proof -
  define row where "row = \<lparr>sn_workspace_id = ck_workspace_id input,
    sn_revision = sint (ck_expected_revision input + 1), sn_nodes_json = ck_nodes_json input,
    sn_viewport_json = ck_viewport_json input\<rparr>"
  have "db' = db \<or> 0 \<le> sn_revision row \<and>
     (db' = db\<lparr>pj_snapshots := pj_snapshots db @ [row]\<rparr> \<and>
        sn_workspace_id row \<notin> sn_workspace_id ` set (pj_snapshots db) \<or>
      (\<exists>t n. sql_update (\<lambda>x. 0 \<le> sn_revision x) (\<lambda>x. sn_workspace_id x = sn_workspace_id row \<and>
          sn_revision x = sint (ck_expected_revision input)) (\<lambda>_. row) (pj_snapshots db) = Inr (t, n) \<and>
        db' = db\<lparr>pj_snapshots := t\<rparr>))"
    using assms unfolding commit_canvas_snapshot_def row_def Let_def
    by (auto simp: result_simps split: if_splits)
  then consider "db' = db"
    | "0 \<le> sn_revision row" "db' = db\<lparr>pj_snapshots := pj_snapshots db @ [row]\<rparr>"
      "sn_workspace_id row \<notin> sn_workspace_id ` set (pj_snapshots db)"
    | t n where "0 \<le> sn_revision row" "sql_update (\<lambda>x. 0 \<le> sn_revision x)
        (\<lambda>x. sn_workspace_id x = sn_workspace_id row \<and> sn_revision x = sint (ck_expected_revision input))
        (\<lambda>_. row) (pj_snapshots db) = Inr (t, n)" "db' = db\<lparr>pj_snapshots := t\<rparr>"
    by blast
  then show ?thesis
  proof cases
    case 2
    then show ?thesis by (simp add: contract_tables snapshots.row_inserted snapshot_legal_def)
  next
    case 3
    have "snapshots.table_step\<^sup>*\<^sup>* (pj_snapshots db) t"
      by (rule snapshots.sql_update_step [OF 3(2)])
        (use 3(1) next_revision [of "ck_expected_revision input"] in \<open>auto simp: snapshot_change_def row_def\<close>)
    with 3(3) show ?thesis by (simp add: contract_tables)
  qed simp
qed

section \<open>The system\<close>

text \<open>One rule per operation.  \<open>resolve_pending\<close> and \<open>bind_thread\<close> are the writes of
  operations that read first, outside a transaction: as rules of their own they may happen in a
  database other writers have changed since.\<close>

inductive project_step :: "pdb \<Rightarrow> pdb \<Rightarrow> bool" where
  workspace_created: "create_workspace new_id now name db = Inr (db', w) \<Longrightarrow> project_step db db'"
| workspace_initialized: "create_workspace_with_initial_version now init db = Inr (db', wv)
    \<Longrightarrow> project_step db db'"
| provider_set: "set_workspace_runtime_provider now workspace_id provider_id db = Inr (db', w)
    \<Longrightarrow> project_step db db'"
| version_created: "insert_version version_id now nv expected reject_pending db = Inr (db', v)
    \<Longrightarrow> project_step db db'"
| proposal_created: "create_proposal new_id now np db = Inr (db', p) \<Longrightarrow> project_step db db'"
| proposal_message: "attach_proposal_message proposal_id message_id db = Inr (db', p)
    \<Longrightarrow> project_step db db'"
| proposal_resolved: "resolve_pending now proposal_id workspace_id state result_version_id db = Inr (db', p)
    \<Longrightarrow> project_step db db'"
| proposal_applied: "create_version_after_applying_proposal version_id message_id now proposal_id expected'
      nv message_text db = Inr (db', vm) \<Longrightarrow> project_step db db'"
| proposal_auto_applied: "auto_apply_proposal_version_inner proposal_id version_id message_id now np nv
      message_text completion turn_context db = Inr (db', pvm) \<Longrightarrow> project_step db db'"
| assessment_recorded: "record_version_migration_assessment new_id now assessment db = Inr (db', a)
    \<Longrightarrow> project_step db db'"
| migration_applied: "apply_version_migration target_id migration_id now migration db = Inr (db', mvr)
    \<Longrightarrow> project_step db db'"
| message_created: "create_message new_id now nm db = Inr (db', m) \<Longrightarrow> project_step db db'"
| message_created_once: "create_message_once new_id now nm db = Inr (db', m) \<Longrightarrow> project_step db db'"
| message_assigned: "assign_message_context now message_id conversation_id turn_id db = Inr (db', m)
    \<Longrightarrow> project_step db db'"
| conversation_created: "create_conversation new_id now workspace_id title db = Inr (db', c)
    \<Longrightarrow> project_step db db'"
| thread_bound: "bind_thread now workspace_id conversation_id thread db = Inr (db', c)
    \<Longrightarrow> project_step db db'"
| turn_started: "start_agent_turn_with_id now turn_id' workspace_id conversation_id mode db = Inr (db', a')
    \<Longrightarrow> project_step db db'"
| turn_message: "attach_turn_user_message turn_id' message_id db = Inr (db', u) \<Longrightarrow> project_step db db'"
| turn_finalized: "finalize_agent_turn now turn_id' status reason_code execution_id db = Inr (db', a')
    \<Longrightarrow> project_step db db'"
| turn_dropped: "settle_dropped_agent_turn message_id now turn_id' observation_id db = Inr (db', tm)
    \<Longrightarrow> project_step db db'"
| turns_interrupted: "finalize_interrupted_agent_turns now db = Inr (db', n) \<Longrightarrow> project_step db db'"
| turn_identity: "attach_agent_turn_codex_identity turn_id' codex_turn_id db = Inr (db', a')
    \<Longrightarrow> project_step db db'"
| observation_started: "create_graph_edit_message_with_observation_id message_id now no observation_id' db
      = Inr (db', mo) \<Longrightarrow> project_step db db'"
| observation_completed: "complete_observation_in_tx now completion' db = Inr (db', x)
    \<Longrightarrow> project_step db db'"
| observation_clarified: "create_clarification_and_finalize_observation message_id now nm completion' db
      = Inr (db', mo) \<Longrightarrow> project_step db db'"
| observations_interrupted: "finalize_interrupted_agent_contract_observations now db = Inr (db', n)
    \<Longrightarrow> project_step db db'"
| comment_state_created: "initialize_canvas_comment_state input db = Inr (db', c') \<Longrightarrow> project_step db db'"
| comment_operation_committed: "commit_canvas_comment_operation operation db = Inr (db', z) \<Longrightarrow> project_step db db'"
| snapshot_committed: "commit_canvas_snapshot snapshot db = Inr (db', s) \<Longrightarrow> project_step db db'"

definition initial_project :: pdb where
  "initial_project = \<lparr>pj_workspaces = [], pj_versions = [], pj_proposals = [], pj_messages = [],
     pj_conversations = [], pj_turns = [], pj_observations = [], pj_comment_states = [],
     pj_comment_operations = [], pj_snapshots = [], pj_assessments = [], pj_migrations = []\<rparr>"

lemmas project_contracts =
  create_workspace_contract set_runtime_provider_contract create_proposal_contract
  attach_proposal_message_contract resolve_pending_contract record_assessment_contract
  create_message_contract create_message_once_contract assign_message_context_contract
  create_conversation_contract bind_thread_contract start_agent_turn_contract
  attach_turn_user_message_contract finalize_agent_turn_contract settle_dropped_contract
  finalize_interrupted_turns_contract attach_codex_identity_contract create_observation_contract
  complete_observation_contract create_clarification_contract finalize_interrupted_observations_contract
  initialize_comments_contract commit_snapshot_contract

lemmas history_contracts =
  create_initialized_workspace_contract insert_version_contract apply_proposal_contract
  auto_apply_contract commit_comment_contract

lemma project_step_contract:
  assumes "project_step db db'" "project_ok db"
  shows "project_contract db db'"
  using assms
proof (cases rule: project_step.cases)
  case (migration_applied target_id migration_id now migration mvr)
  then show ?thesis using apply_migration_contract assms(2) by (cases mvr) auto
qed (erule project_contracts history_contracts; (rule assms(2))?)+

interpretation project: invariant_system project_step project_ok
  by unfold_locales (use project_step_contract contract_project_ok in blast)

lemma project_ok_initial: "project_ok initial_project"
  by (simp add: project_ok_def initial_project_def pj_history_def pj_comments_def history_ok_def
      comments_ok_def workspaces_table.keyed_def versions_table.keyed_def version_rows.numbered_def
      version_rows.rows_of_def comment_states_table.keyed_def operations_table.keyed_def operations_of_def
      proposals.table_ok_def proposals.keyed_def messages.table_ok_def messages.keyed_def
      conversations.table_ok_def conversations.keyed_def turns.table_ok_def turns.keyed_def
      observations.table_ok_def observations.keyed_def snapshots.table_ok_def snapshots.keyed_def
      assessments.table_ok_def assessments.keyed_def migrations.table_ok_def migrations.keyed_def)

lemma project_reachable_ok: "project_step\<^sup>*\<^sup>* initial_project db \<Longrightarrow> project_ok db"
  using project.steps_inv project_ok_initial by blast

lemma project_steps_contract:
  "project_step\<^sup>*\<^sup>* d d' \<Longrightarrow> project_ok d \<Longrightarrow> project_contract d d'"
proof (induction rule: rtranclp_induct)
  case (step y z)
  then show ?case
    using project_step_contract [of y z] project.steps_inv [of d y] project_contract_trans by blast
qed simp

end
