(* ===== verification/Project_Properties.thy ===== *)
theory Project_Properties
  imports Project_System
begin

text \<open>
  What holds of the tables of a project in every database the operations can reach: the history of
  versions, compare-and-swap without lost updates, proposals resolved once, migrations and comment
  operations that can be repeated, turns settled once.  Each property has a run of the operations
  on which it is applied.
\<close>

section \<open>Facts of reachable databases\<close>

lemma project_okD:
  assumes "project_ok d"
  shows "workspaces_table.keyed (pj_workspaces d)" "versions_table.keyed (pj_versions d)"
    "version_rows.numbered (pj_versions d)" "proposals.keyed (pj_proposals d)"
    "comment_states_table.keyed (pj_comment_states d)" "operations_table.keyed (pj_comment_operations d)"
    "turns.table_ok (pj_turns d)" "turns.keyed (pj_turns d)" "observations.table_ok (pj_observations d)"
    "snapshots.table_ok (pj_snapshots d)" "snapshots.keyed (pj_snapshots d)"
    "migrations.table_ok (pj_migrations d)" "migrations.keyed (pj_migrations d)"
    "proposals.table_ok (pj_proposals d)"
  using assms by (auto simp: project_ok_def pj_history_def history_ok_def pj_comments_def comments_ok_def
      proposals.table_ok_def turns.table_ok_def snapshots.table_ok_def migrations.table_ok_def)

lemma actual_version_newest:
  assumes "project_ok d"
  shows "actual_version i d = newest_version i (pj_versions d)"
proof (cases "fetch_optional (\<lambda>w. wk_id w = i) (pj_workspaces d)")
  case None
  with assms have "i \<notin> vr_workspace_id ` set (pj_versions d)"
    by (force simp: fetch_optional_None project_ok_def pj_history_def history_ok_def)
  with None show ?thesis by (simp add: actual_version_def newest_version_none)
next
  case (Some w)
  with fetch_optional_Some [OF Some] assms show ?thesis
    by (auto simp: actual_version_def project_ok_def pj_history_def history_ok_def)
qed

text \<open>The versions of a workspace in the order of the table are sorted already.\<close>

lemma numbered_sorted: "sorted_wrt (<) [1..int n]"
  by (induction n) (auto simp: upto_rec2 sorted_wrt_append add.commute)

lemma versions_for_workspace_rows:
  assumes "project_ok d"
  shows "versions_for_workspace i d = version_rows.rows_of i (pj_versions d)"
proof -
  let ?rs = "version_rows.rows_of i (pj_versions d)"
  have "sorted_wrt (<) (map vr_idx ?rs)"
    using project_okD(3) [OF assms] numbered_sorted by (simp add: version_rows.numbered_def)
  then have "sorted_wrt (\<le>) (map (\<lambda>v. (vr_idx v, vr_created_at v, vr_id v)) ?rs)"
    unfolding sorted_wrt_map by (rule sorted_wrt_mono_rel [rotated]) (simp add: less_eq_prod_def)
  then show ?thesis
    unfolding versions_for_workspace_def version_rows.rows_of_def [symmetric]
    by (rule sort_key_id_if_sorted)
qed

lemma fetch_version: "project_ok d \<Longrightarrow> v \<in> set (pj_versions d) \<Longrightarrow> version (vr_id v) d = Inr v"
  unfolding version_def by (rule versions_table.fetch_keyed [OF project_okD(2)])

lemma version_Inr: "version i d = Inr v \<Longrightarrow> v \<in> set (pj_versions d) \<and> vr_id v = i"
  unfolding version_def by (rule fetch_one_Inr)

lemma versions_stay:
  assumes "project_step\<^sup>*\<^sup>* d d'" "project_ok d"
  obtains zs where "pj_versions d' = pj_versions d @ zs"
  using project_steps_contract [OF assms] versions_grow unfolding project_contract_def by blast

lemma version_stays:
  "project_step\<^sup>*\<^sup>* d d' \<Longrightarrow> project_ok d \<Longrightarrow> version i d = Inr v \<Longrightarrow> version i d' = Inr v"
  using version_Inr [of i d v] versions_stay [of d d'] fetch_version [of d' v] project.steps_inv [of d d']
  by (metis Un_iff set_append)

text \<open>A version replaced as the current one never is current again.\<close>

lemma never_current_again:
  assumes "project_step\<^sup>*\<^sup>* d d'" "project_ok d" "v \<in> set (pj_versions d)"
    and "actual_version (vr_workspace_id v) d \<noteq> Some (vr_id v)"
  shows "actual_version (vr_workspace_id v) d' \<noteq> Some (vr_id v)"
proof -
  note ok' = project.steps_inv [OF assms(1,2)]
  obtain zs where zs: "pj_versions d' = pj_versions d @ zs" by (rule versions_stay [OF assms(1,2)])
  show ?thesis
    using superseded_stays [of "pj_versions d" zs v] project_okD(2,3) [OF ok'] zs assms(3,4)
    by (simp add: actual_version_newest [OF ok'] actual_version_newest [OF assms(2)])
qed

section \<open>The history of versions\<close>

text \<open>C27: In every reachable database the versions of a workspace are numbered 1, 2, 3, ... in the
  order they are listed, the parent of a version exists, and the current version of the workspace is the
  last of the list (none when the list is empty): no operation leaves the pointer behind or moves it back.\<close>

theorem version_history:
  assumes "project_step\<^sup>*\<^sup>* initial_project d"
  shows "map vr_idx (versions_for_workspace i d) = [1..int (length (versions_for_workspace i d))] \<and>
     actual_version i d = (if versions_for_workspace i d = [] then None
       else Some (vr_id (last (versions_for_workspace i d)))) \<and>
     (\<forall>v\<in>set (versions_for_workspace i d). \<forall>p. vr_parent_id v = Some p \<longrightarrow> is_ok (version p d))"
proof (intro conjI ballI allI impI)
  note ok = project_reachable_ok [OF assms]
  note rows = versions_for_workspace_rows [OF ok]
  show "map vr_idx (versions_for_workspace i d) = [1..int (length (versions_for_workspace i d))]"
    using project_okD(3) [OF ok] by (simp add: rows version_rows.numbered_def)
  show "actual_version i d = (if versions_for_workspace i d = [] then None
       else Some (vr_id (last (versions_for_workspace i d))))"
    by (simp add: rows actual_version_newest [OF ok] newest_version_def Let_def)
  fix v p
  assume "v \<in> set (versions_for_workspace i d)" "vr_parent_id v = Some p"
  then obtain x where "x \<in> set (pj_versions d)" "vr_id x = p"
    using ok by (fastforce simp: versions_for_workspace_def project_ok_def pj_history_def history_ok_def
        foreign_def)
  then show "is_ok (version p d)" using fetch_version [OF ok] by auto
qed

section \<open>No lost updates\<close>

lemma cas_current:
  assumes "project_ok d" "\<exists>w\<in>set (pj_workspaces d). wk_id w = i \<and> P w"
    and "\<And>w. P w \<Longrightarrow> wk_cur_version_id w = Some e"
  shows "actual_version i d = Some e"
proof -
  from assms(2) obtain w where w: "w \<in> set (pj_workspaces d)" "wk_id w = i" "P w" by blast
  with workspaces_table.keyed_fetch [OF project_okD(1) [OF assms(1)] w(1), of "\<lambda>x. wk_id x = i"]
  show ?thesis using assms(3) by (simp add: actual_version_def)
qed

lemma insert_version_effect:
  assumes "insert_version version_id now nv expected b d = Inr (d', v)" "project_ok d"
  shows "pj_versions d' = pj_versions d @ [v]" "vr_id v = version_id"
    "vr_workspace_id v = nv_workspace_id nv" "vr_parent_id v = nv_parent_id nv"
    "vr_idx v = next_idx (nv_workspace_id nv) (pj_versions d)"
    "expected = Some e \<Longrightarrow> nv_parent_id nv = Some e \<and> actual_version (nv_workspace_id nv) d = Some e"
proof -
  let ?v = "version_row version_id now (next_idx (nv_workspace_id nv) (pj_versions d)) nv"
  from insert_version_Inr [OF assms(1)] obtain P x where
      1: "insert_version_row ?v d = Inr x"
    and 2: "advance_current now (vr_workspace_id ?v) (vr_id ?v) P x = Inr (d', 1)"
    and P: "\<And>e. expected = Some e \<Longrightarrow> nv_parent_id nv = Some e \<and> (\<forall>w. P w \<longrightarrow> wk_cur_version_id w = Some e)"
    and read: "version version_id d' = Inr v" by auto
  note added = version_added_contract [OF assms(2) 1 2 one_neq_zero]
  have versions: "pj_versions d' = pj_versions d @ [?v]" using added(3) by simp
  have "version version_id d' = Inr ?v"
    using fetch_version [of d' ?v] contract_project_ok [OF added(1) assms(2)] versions by simp
  with read have v: "v = ?v" by simp
  show "pj_versions d' = pj_versions d @ [v]" "vr_id v = version_id"
    "vr_workspace_id v = nv_workspace_id nv" "vr_parent_id v = nv_parent_id nv"
    "vr_idx v = next_idx (nv_workspace_id nv) (pj_versions d)"
    using versions by (simp_all add: v)
  show "nv_parent_id nv = Some e \<and> actual_version (nv_workspace_id nv) d = Some e" if "expected = Some e"
    using P [OF that] cas_current [OF assms(2), of "nv_workspace_id nv" P] added(4) by auto
qed

text \<open>What a workspace's current version was, when another version has been added, is refused as a
  base from then on.\<close>

lemma base_superseded:
  assumes "project_ok d" "project_step d d1" "project_step\<^sup>*\<^sup>* d1 d2"
    and "pj_versions d1 = pj_versions d @ [v]" "vr_workspace_id v = i" "actual_version i d = Some e"
  shows "actual_version i d2 \<noteq> Some e"
proof -
  note ok1 = project.step_inv [OF assms(1,2)]
  from assms(6) obtain x where x: "x \<in> set (pj_versions d)" "vr_id x = e" "vr_workspace_id x = i"
    using newest_version_mem [of i "pj_versions d" e] by (auto simp: actual_version_newest [OF assms(1)])
  have "vr_id x \<noteq> vr_id v"
    using x(1) project_okD(2) [OF ok1] unfolding assms(4) versions_table.keyed_snoc by (metis imageI)
  then have "actual_version i d1 \<noteq> Some e"
    using x(2) by (simp add: actual_version_newest [OF ok1] assms(4,5) newest_version_snoc)
  then show ?thesis
    using never_current_again [OF assms(3) ok1, of x] x assms(4) by simp
qed

lemma insert_version_based:
  assumes "insert_version version_id now nv (Some e) b d = Inr (d', v)" "project_ok d"
  shows "actual_version (nv_workspace_id nv) d = Some e"
  using insert_version_effect(6) [OF assms refl] by blast

lemma apply_proposal_based:
  "create_version_after_applying_proposal version_id message_id now proposal_id e nv message_text d = Inr z
    \<Longrightarrow> actual_version (nv_workspace_id nv) d = Some e"
  by (auto simp: create_version_after_applying_proposal_def result_simps split: if_splits)

lemma auto_apply_based:
  "auto_apply_proposal_version_inner proposal_id version_id message_id now np nv message_text c t d = Inr z
    \<Longrightarrow> actual_version (nv_workspace_id nv) d = Some (nl_base_version_id np)"
  by (auto simp: auto_apply_proposal_version_inner_def result_simps split: if_splits)

lemma apply_migration_based:
  assumes "apply_version_migration target_id migration_id now input d = Inr (d', m, v, False)" "project_ok d"
  shows "actual_version (am_workspace_id input) d = Some (am_source_version_id input)"
proof -
  let ?v = "version_row target_id now (next_idx (am_workspace_id input) (pj_versions d)) (target_version input)"
  from apply_migration_Inr [OF assms(1)] obtain P e f where
      1: "insert_version_row ?v d = Inr e"
    and 2: "advance_current now (vr_workspace_id ?v) (vr_id ?v) P e = Inr (f, 1)"
    and P: "\<And>w. P w \<Longrightarrow> wk_cur_version_id w = Some (am_source_version_id input)"
    by (auto simp: target_version_def)
  from cas_current [OF assms(2) version_added_contract(4) [OF assms(2) 1 2 one_neq_zero] P]
  show ?thesis by (simp add: target_version_def)
qed

text \<open>C28: A version written after version \<open>e\<close> extends exactly \<open>e\<close>, the current version at
  that moment, with the next number.  From then on, whatever other writers do, no operation of the four
  that take a base version (a plain write, applying a proposal, applying one automatically, a migration)
  succeeds on the base \<open>e\<close> again: no update is lost.\<close>

theorem no_lost_update:
  assumes "project_step\<^sup>*\<^sup>* initial_project d"
    and "insert_version version_id now nv (Some e) b d = Inr (d1, v)"
    and "project_step\<^sup>*\<^sup>* d1 d2"
  shows "actual_version (nv_workspace_id nv) d = Some e \<and> vr_parent_id v = Some e \<and>
     actual_version (nv_workspace_id nv) d1 = Some (vr_id v) \<and>
     vr_idx v = int (length (versions_for_workspace (nv_workspace_id nv) d)) + 1 \<and>
     (\<forall>nv'. nv_workspace_id nv' = nv_workspace_id nv \<longrightarrow>
        \<not> is_ok (insert_version version_id' now' nv' (Some e) b' d2) \<and>
        \<not> is_ok (create_version_after_applying_proposal version_id' message_id now' proposal_id e nv' text d2) \<and>
        (\<forall>np. nl_base_version_id np = e \<longrightarrow> \<not> is_ok (auto_apply_proposal_version_inner proposal_id
           version_id' message_id now' np nv' text completion turn_context d2))) \<and>
     (\<forall>mg d3 m x. am_workspace_id mg = nv_workspace_id nv \<and> am_source_version_id mg = e \<longrightarrow>
        apply_version_migration version_id' migration_id now' mg d2 \<noteq> Inr (d3, m, x, False))"
proof -
  note ok = project_reachable_ok [OF assms(1)]
  note step = project_step.version_created [OF assms(2)]
  note ok1 = project.step_inv [OF ok step]
  note effect = insert_version_effect [OF assms(2) ok]
  have base: "nv_parent_id nv = Some e" "actual_version (nv_workspace_id nv) d = Some e"
    using effect(6) by auto
  have now_current: "actual_version (nv_workspace_id nv) d1 = Some (vr_id v)"
    by (simp add: actual_version_newest [OF ok1] effect(1,3) newest_version_snoc)
  have number: "vr_idx v = int (length (versions_for_workspace (nv_workspace_id nv) d)) + 1"
    by (simp add: effect(5) next_idx_rows version_rows.next_number_numbered [OF project_okD(3) [OF ok]]
        versions_for_workspace_rows [OF ok])
  have over: "actual_version (nv_workspace_id nv) d2 \<noteq> Some e"
    by (rule base_superseded [OF ok step assms(3) effect(1,3) base(2)])
  note ok2 = project.steps_inv [OF assms(3) ok1]
  show ?thesis
    using base now_current number over effect(4) insert_version_based [OF _ ok2]
      apply_proposal_based [of _ _ _ _ _ _ _ d2] auto_apply_based [of _ _ _ _ _ _ _ _ _ d2]
      apply_migration_based [OF _ ok2]
    unfolding is_ok_iff by (auto, metis+)
qed

section \<open>Proposals\<close>

lemma fetch_proposal: "project_ok d \<Longrightarrow> p \<in> set (pj_proposals d) \<Longrightarrow> proposal (pl_id p) d = Inr p"
  unfolding proposal_def by (rule proposals.fetch_keyed [OF project_okD(4)])

lemma proposal_Inr: "proposal i d = Inr p \<Longrightarrow> p \<in> set (pj_proposals d) \<and> pl_id p = i"
  unfolding proposal_def by (rule fetch_one_Inr)

lemma proposal_follows:
  assumes "project_step\<^sup>*\<^sup>* d d'" "project_ok d" "proposal i d = Inr p"
  shows "\<exists>p'. proposal i d' = Inr p' \<and> proposal_change p p'"
proof -
  note p = proposal_Inr [OF assms(3)]
  from project_steps_contract [OF assms(1,2)] have
    "proposals.table_step\<^sup>*\<^sup>* (pj_proposals d) (pj_proposals d')" by (simp add: project_contract_def)
  from proposals.table_steps_follow [OF this project_okD(14) [OF assms(2)] conjunct1 [OF p]] obtain p' where
    p': "p' \<in> set (pj_proposals d')" "proposal_change p p'" by blast
  then have "pl_id p' = i" using p by (simp add: proposals.change_key)
  with fetch_proposal [OF project.steps_inv [OF assms(1,2)] p'(1)] p'(2) show ?thesis by auto
qed

text \<open>Nothing resolves a proposal that is not pending.\<close>

lemma resolved_refused:
  assumes "proposal i d = Inr p" "pl_state p \<noteq> ''pending''"
  shows "\<not> is_ok (resolve_proposal now i workspace_id st result d)"
    and "\<not> is_ok (create_version_after_applying_proposal version_id message_id now i e nv text d)"
  using assms by (auto simp: is_ok_iff resolve_proposal_def create_version_after_applying_proposal_def
      ensure_pending_def result_simps split: if_splits)

lemma mark_proposal_marks:
  assumes "mark_proposal_rows now i ws st result d = Inr (t, n)" "proposal i d = Inr p" "n = 1"
    and "project_ok d"
  shows "fetch_one (\<lambda>p. pl_id p = i) t = Inr (p\<lparr>pl_state := st, pl_result_version_id := result,
     pl_resolved_at := Some now\<rparr>)"
proof -
  let ?f = "\<lambda>p. p\<lparr>pl_state := st, pl_result_version_id := result, pl_resolved_at := Some now\<rparr>"
  let ?P = "\<lambda>p. pl_id p = i \<and> pl_workspace_id p = ws \<and> pl_state p = ''pending''"
  have t: "t = map (\<lambda>p. if ?P p then ?f p else p) (pj_proposals d)"
    and n: "length (filter ?P (pj_proposals d)) \<noteq> 0"
    using assms(1,3) by (auto simp: mark_proposal_rows_def sql_update_Inr)
  from n obtain q where q: "q \<in> set (pj_proposals d)" "?P q" by (auto simp: filter_empty_conv)
  with proposal_Inr [OF assms(2)] proposals.keyed_unique [OF project_okD(4) [OF assms(4)]] have "q = p" by auto
  with q have mem: "?f p \<in> set t" unfolding t set_map by (intro image_eqI [of _ _ p]) auto
  have "proposals.keyed t"
    unfolding t using project_okD(4) [OF assms(4)]
    by (subst proposals.keyed_map) auto
  from proposals.fetch_keyed [OF this mem] q(2) \<open>q = p\<close> show ?thesis by simp
qed

lemma apply_proposal_Inr:
  assumes "create_version_after_applying_proposal version_id message_id now proposal_id expected nv
      message_text d = Inr (d', v, m)" "project_ok d"
  shows "\<exists>p. proposal proposal_id d = Inr p \<and> pl_state p = ''pending'' \<and>
      pl_workspace_id p = nv_workspace_id nv \<and> pl_base_version_id p = expected \<and>
      proposal proposal_id d' = Inr (p\<lparr>pl_state := ''applied'', pl_result_version_id := Some version_id,
        pl_resolved_at := Some now\<rparr>)"
    and "pj_versions d' = pj_versions d @ [v]"
    and "v = version_row version_id now (next_idx (nv_workspace_id nv) (pj_versions d)) nv"
    and "nv_parent_id nv = Some expected" "ms_ref_id m = Some proposal_id" "message message_id d' = Inr m"
proof -
  let ?v = "version_row version_id now (next_idx (nv_workspace_id nv) (pj_versions d)) nv"
  obtain x f t p where
      p: "proposal proposal_id d = Inr p" "pl_state p = ''pending''"
        "pl_workspace_id p = nv_workspace_id nv" "pl_base_version_id p = expected"
        "nv_parent_id nv = Some expected"
    and 1: "insert_version_row ?v d = Inr x"
    and 2: "advance_checked ''advance_applied_proposal_current'' now (nv_workspace_id nv)
        version_id expected x = Inr f"
    and 3: "mark_proposal_rows now proposal_id (nv_workspace_id nv) ''applied'' (Some version_id) f
        = Inr (t, 1)"
    and 4: "insert_message_row (applied_message message_id now (nv_workspace_id nv) message_text
        proposal_id version_id None) (f\<lparr>pj_proposals := t\<rparr>) = Inr d'"
    and 5: "version version_id d' = Inr v" "message message_id d' = Inr m"
    using assms(1) unfolding create_version_after_applying_proposal_def
    by (auto simp: result_simps require_one_row_def ensure_proposal_workspace_def ensure_pending_def
        ensure_proposal_base_def ensure_version_parent_def split: if_splits)
  from 2 have adv: "advance_current now (vr_workspace_id ?v) (vr_id ?v)
      (\<lambda>w. wk_cur_version_id w = Some expected) x = Inr (f, 1)" by (simp add: advance_checked_Inr)
  note added = version_added_contract [OF assms(2) 1 adv one_neq_zero]
  have d': "d' = f\<lparr>pj_proposals := t, pj_messages := pj_messages f @ [applied_message message_id now
      (nv_workspace_id nv) message_text proposal_id version_id None]\<rparr>"
    and new: "message_id \<notin> ms_id ` set (pj_messages f)"
    using 4 by (auto simp: insert_message_row_def sql_simps message_unique_def applied_message_def)
  have f: "proposal proposal_id f = Inr p" using p(1) by (simp add: added(3) proposal_def)
  from mark_proposal_marks [OF 3 f refl contract_project_ok [OF added(1) assms(2)]] p
  show "\<exists>p. proposal proposal_id d = Inr p \<and> pl_state p = ''pending'' \<and>
      pl_workspace_id p = nv_workspace_id nv \<and> pl_base_version_id p = expected \<and>
      proposal proposal_id d' = Inr (p\<lparr>pl_state := ''applied'', pl_result_version_id := Some version_id,
        pl_resolved_at := Some now\<rparr>)" by (simp add: proposal_def d')
  have versions: "pj_versions d' = pj_versions d @ [?v]" by (simp add: d' added(3))
  have "v \<in> set (pj_versions d')" "vr_id v = version_id" using version_Inr [OF 5(1)] by auto
  with insert_version_row_Inr(2) [OF 1] show v: "v = ?v" by (force simp: versions)
  show "pj_versions d' = pj_versions d @ [v]" using versions by (simp add: v)
  show "nv_parent_id nv = Some expected" by (rule p(5))
  show "message message_id d' = Inr m" by (rule 5(2))
  then have "m \<in> set (pj_messages d')" "ms_id m = message_id" by (auto simp: message_def dest: fetch_one_Inr)
  with new have "m = applied_message message_id now (nv_workspace_id nv) message_text proposal_id
      version_id None" by (auto simp: d')
  then show "ms_ref_id m = Some proposal_id" by (simp only: applied_message_def message_record.select_convs)
qed

text \<open>C29: Applying a proposal takes a pending proposal whose base is the current version, writes one
  version on top of that base, makes it current, and records it in the proposal and in the message.
  From then on the proposal stays applied with that version and time, the version stays readable, and
  neither resolving nor applying the proposal again succeeds.\<close>

theorem proposal_applied_once:
  assumes "project_step\<^sup>*\<^sup>* initial_project d"
    and "create_version_after_applying_proposal version_id message_id now i e nv text d = Inr (d1, v, m)"
    and "project_step\<^sup>*\<^sup>* d1 d2"
  shows "\<exists>p p'. proposal i d = Inr p \<and> pl_state p = ''pending'' \<and> pl_base_version_id p = e \<and>
     actual_version (pl_workspace_id p) d = Some e \<and> actual_version (pl_workspace_id p) d1 = Some (vr_id v) \<and>
     vr_parent_id v = Some e \<and> ms_ref_id m = Some i \<and> proposal i d2 = Inr p' \<and>
     proposal_core p' = proposal_core p \<and> proposal_resolution p' = (''applied'', Some (vr_id v), Some now) \<and>
     version (vr_id v) d2 = Inr v \<and> \<not> is_ok (resolve_proposal now' i ws st result d2) \<and>
     \<not> is_ok (create_version_after_applying_proposal version_id' message_id' now' i e' nv' text' d2)"
proof -
  note ok = project_reachable_ok [OF assms(1)]
  note ok1 = project.step_inv [OF ok project_step.proposal_applied [OF assms(2)]]
  note effect = apply_proposal_Inr [OF assms(2) ok]
  from effect(1) obtain p where p: "proposal i d = Inr p" "pl_state p = ''pending''"
      "pl_workspace_id p = nv_workspace_id nv" "pl_base_version_id p = e"
    and p1: "proposal i d1 = Inr (p\<lparr>pl_state := ''applied'', pl_result_version_id := Some version_id,
        pl_resolved_at := Some now\<rparr>)" by blast
  from proposal_follows [OF assms(3) ok1 p1] obtain p' where p': "proposal i d2 = Inr p'"
      "proposal_core p' = proposal_core p" "proposal_resolution p' = (''applied'', Some version_id, Some now)"
    by (auto simp: proposal_change_def proposal_core_def proposal_resolution_def)
  then have "pl_state p' \<noteq> ''pending''" by (simp add: proposal_resolution_def)
  note refused = resolved_refused [OF p'(1) this]
  have v: "vr_id v = version_id" "vr_workspace_id v = nv_workspace_id nv" "vr_parent_id v = Some e"
    using effect(3,4) by simp_all
  have "actual_version (nv_workspace_id nv) d1 = Some (vr_id v)"
    by (simp add: actual_version_newest [OF ok1] effect(2) v newest_version_snoc)
  moreover have "version (vr_id v) d2 = Inr v"
    using version_stays [OF assms(3) ok1] fetch_version [OF ok1, of v] effect(2) by simp
  ultimately show ?thesis
    using p p' v refused effect(5) apply_proposal_based [OF assms(2)] by auto
qed

section \<open>Version migrations\<close>

lemma migration_found:
  assumes "project_ok d" "m \<in> set (pj_migrations d)"
  shows "version_migration_by_operation (vm_workspace_id m) (vm_operation_id m) d = Some m"
  unfolding version_migration_by_operation_def
  by (rule migrations.keyed_fetch [OF project_okD(13) [OF assms(1)] assms(2)]) (auto simp: migration_key_def)

lemma migration_recorded:
  assumes "apply_version_migration target_id migration_id now input d = Inr (d', m, v, r)" "project_ok d"
  shows "m \<in> set (pj_migrations d')" "vm_workspace_id m = am_workspace_id input"
    "vm_operation_id m = am_operation_id input"
    "vm_operation_fingerprint m = am_operation_fingerprint input"
    "version (vm_target_version_id m) d' = Inr v"
proof -
  have found: "version_migration_by_operation (am_workspace_id input) (am_operation_id input) d' = Some m"
    and rest: "vm_operation_fingerprint m = am_operation_fingerprint input \<and>
      version (vm_target_version_id m) d' = Inr v"
  proof (atomize (full), cases r)
    case True
    then show "version_migration_by_operation (am_workspace_id input) (am_operation_id input) d' = Some m \<and>
      vm_operation_fingerprint m = am_operation_fingerprint input \<and> version (vm_target_version_id m) d' = Inr v"
      using assms(1) unfolding apply_version_migration_def
      by (auto simp: result_simps split: if_splits option.splits)
  next
    case False
    let ?m = "migration_row migration_id target_id now input"
    from apply_migration_Inr assms(1) False obtain f where
        row: "insert_migration_row ?m f = Inr d'"
      and found: "version_migration_by_operation (am_workspace_id input) (am_operation_id input) d' = Some m"
      and read: "version target_id d' = Inr v" by (metis (full_types))
    have "?m \<in> set (pj_migrations d')" using row by (auto simp: insert_migration_row_def sql_simps)
    with migration_found [OF contract_project_ok [OF apply_migration_contract [OF assms] assms(2)] this] found
    have "m = ?m" by (simp add: migration_row_def)
    with found read show "version_migration_by_operation (am_workspace_id input) (am_operation_id input) d'
      = Some m \<and> vm_operation_fingerprint m = am_operation_fingerprint input \<and>
      version (vm_target_version_id m) d' = Inr v" by (simp add: migration_row_def)
  qed
  from found fetch_optional_Some show "m \<in> set (pj_migrations d')"
    "vm_workspace_id m = am_workspace_id input" "vm_operation_id m = am_operation_id input"
    unfolding version_migration_by_operation_def by fastforce+
  from rest show "vm_operation_fingerprint m = am_operation_fingerprint input"
    "version (vm_target_version_id m) d' = Inr v" by auto
qed

text \<open>A migration request is idempotent: once it has succeeded, the same request (operation
  identifier and fingerprint) returns the same record and the same version, marked as replayed, and changes
  nothing, in every later database; the same identifier with another fingerprint is a conflict.  The version
  returned is a migration of the recorded source.\<close>

theorem migration_idempotent:
  assumes "project_step\<^sup>*\<^sup>* initial_project d"
    and "apply_version_migration target_id migration_id now input d = Inr (d1, m, v, r)"
    and "project_step\<^sup>*\<^sup>* d1 d2"
    and "am_workspace_id input' = am_workspace_id input" "am_operation_id input' = am_operation_id input"
  shows "apply_version_migration target_id' migration_id' now' input' d2 =
       (if am_operation_fingerprint input' = am_operation_fingerprint input then Inr (d2, m, v, True)
        else Inl (SE_OperationIdConflict (am_workspace_id input) (am_operation_id input))) \<and>
     vr_source v = ''migration'' \<and> vr_parent_id v = Some (vm_source_version_id m) \<and>
     vr_workspace_id v = am_workspace_id input"
proof -
  note ok = project_reachable_ok [OF assms(1)]
  note recorded = migration_recorded [OF assms(2) ok]
  note ok1 = project.step_inv [OF ok project_step.migration_applied [OF assms(2)]]
  note ok2 = project.steps_inv [OF assms(3) ok1]
  have "migrations.table_step\<^sup>*\<^sup>* (pj_migrations d1) (pj_migrations d2)"
    using project_steps_contract [OF assms(3) ok1] by (simp add: project_contract_def)
  from migrations.table_steps_follow [OF this project_okD(12) [OF ok1] recorded(1)]
  have "m \<in> set (pj_migrations d2)" by blast
  from migration_found [OF ok2 this] have
    found: "version_migration_by_operation (am_workspace_id input) (am_operation_id input) d2 = Some m"
    by (simp add: recorded(2,3))
  have read: "version (vm_target_version_id m) d2 = Inr v" by (rule version_stays [OF assms(3) ok1 recorded(5)])
  have "linked_migration (pj_versions d1) m" using ok1 recorded(1) by (auto simp: project_ok_def)
  then obtain x where x: "x \<in> set (pj_versions d1)" "vr_id x = vm_target_version_id m"
      "vr_workspace_id x = vm_workspace_id m" "vr_source x = ''migration''"
      "vr_parent_id x = Some (vm_source_version_id m)" by (auto simp: linked_migration_def)
  with fetch_version [OF ok1 x(1)] recorded(5) have "x = v" by simp
  with x found read recorded(2,4) assms(4,5) show ?thesis by (simp add: apply_version_migration_def)
qed

section \<open>Comment operations\<close>

lemma comments_follow:
  "comments_step\<^sup>*\<^sup>* s t \<Longrightarrow> c \<in> set (fst s) \<Longrightarrow>
     \<exists>c'\<in>set (fst t). cm_workspace_id c' = cm_workspace_id c \<and> cm_seq c \<le> cm_seq c'"
  if ok: "comments_ok s"
proof (induction rule: rtranclp_induct)
  case (step y z)
  then obtain b where b: "b \<in> set (fst y)" "cm_workspace_id b = cm_workspace_id c" "cm_seq c \<le> cm_seq b"
    by blast
  have keyed: "comment_states_table.keyed (fst y)"
    using comment_log.steps_inv [OF step(1) ok] by (auto simp: comments_ok_def)
  from step(2) show ?case
  proof (cases rule: comments_step.cases)
    case (comments_initialized a cs xs)
    with b show ?thesis by auto
  next
    case (comments_committed a cs x xs n j)
    let ?f = "\<lambda>c. if cm_workspace_id c = co_workspace_id x then c\<lparr>cm_seq := n, cm_comments_json := j\<rparr> else c"
    have "b = a" if "cm_workspace_id b = co_workspace_id x"
      using comment_states_table.keyed_unique [OF keyed b(1), of a] that comments_committed by simp
    then have "cm_workspace_id (?f b) = cm_workspace_id c" "cm_seq c \<le> cm_seq (?f b)"
      using b(2,3) comments_committed(7) by auto
    moreover have "?f b \<in> set (fst z)" using b(1) comments_committed(1,2) by simp
    ultimately show ?thesis by blast
  qed
qed auto

lemma persisted_state:
  assumes "project_ok d" "c \<in> set (pj_comment_states d)" "w \<in> set (pj_workspaces d)"
    "wk_id w = cm_workspace_id c"
  shows "load_persisted_state (cm_workspace_id c) d = Some (c, current_idx w d)"
proof -
  have "fetch_optional (\<lambda>x. cm_workspace_id x = cm_workspace_id c) (pj_comment_states d) = Some c"
    by (rule comment_states_table.keyed_fetch [OF project_okD(5) [OF assms(1)] assms(2)]) auto
  moreover have "fetch_optional (\<lambda>x. wk_id x = cm_workspace_id c) (pj_workspaces d) = Some w"
    by (rule workspaces_table.keyed_fetch [OF project_okD(1) [OF assms(1)] assms(3)]) (use assms(4) in auto)
  ultimately show ?thesis by (simp add: load_persisted_state_def)
qed

lemma operation_found:
  assumes "project_ok d" "x \<in> set (pj_comment_operations d)" "co_committed_seq x = Some n"
  shows "canvas_comment_operation (co_workspace_id x) (co_operation_id x) d = Some x"
  unfolding canvas_comment_operation_def
  by (rule operations_table.keyed_fetch [OF project_okD(6) [OF assms(1)] assms(2)])
    (use assms(3) in \<open>auto simp: operation_key_def\<close>)

text \<open>A recorded operation is replayed.\<close>

lemma commit_replayed:
  assumes "project_ok d" "x \<in> set (pj_comment_operations d)" "co_committed_seq x = Some n"
    and "co_workspace_id x = cc_workspace_id input" "co_operation_id x = cc_operation_id input"
    and "load_persisted_state (cc_workspace_id input) d = Some s"
  shows "commit_canvas_comment_operation input d = Inr (d,
     if co_operation_fingerprint x = cc_operation_fingerprint input then CommentReplayed (into_record s)
     else CommentOperationIdConflict (cm_seq (into_record s)))"
  using assms operation_found [OF assms(1-3)]
  by (auto simp: commit_canvas_comment_operation_def replay_comment_operation_def Let_def
      state_or_missing_def)

lemma commit_applied_expected:
  assumes "commit_canvas_comment_operation input d = Inr (d', CommentApplied s)"
  shows "\<exists>p. load_persisted_state (cc_workspace_id input) d = Some p \<and>
     cc_expected_seq input = logical_seq p \<and> canvas_comment_state (cc_workspace_id input) d' = Some s"
  using assms by (auto simp: commit_canvas_comment_operation_def replay_comment_operation_def
      apply_comment_operation_def Let_def result_simps state_or_missing_def split: if_splits)

text \<open>The state of a canvas stays, and its stored sequence does not fall.\<close>

lemma comment_state_later:
  assumes "project_step\<^sup>*\<^sup>* d d'" "project_ok d" "load_persisted_state i d = Some (c, k)"
  shows "\<exists>c' k'. load_persisted_state i d' = Some (c', k') \<and> cm_seq c \<le> cm_seq c'"
proof -
  note ok' = project.steps_inv [OF assms(1,2)]
  note contract = project_steps_contract [OF assms(1,2)]
  note c = load_persisted_Some [OF assms(3)]
  from assms(3) obtain w where w: "w \<in> set (pj_workspaces d)" "wk_id w = i"
    by (auto simp: load_persisted_state_def dest: fetch_optional_Some split: option.splits)
  from contract have comments: "comments_step\<^sup>*\<^sup>* (pj_comments d) (pj_comments d')"
    and history: "history_step\<^sup>*\<^sup>* (pj_history d) (pj_history d')" by (auto simp: project_contract_def)
  from comments_follow [OF _ comments, of c] assms(2) c obtain c' where
      c': "c' \<in> set (pj_comment_states d')" "cm_workspace_id c' = i" "cm_seq c \<le> cm_seq c'"
    by (auto simp: pj_comments_def project_ok_def)
  have "wk_id w \<in> wk_id ` set (pj_workspaces d')"
    using history_grows [OF history] w(1) by (auto simp: pj_history_def)
  then obtain w' where "w' \<in> set (pj_workspaces d')" "wk_id w' = i" using w(2) by auto
  with persisted_state [OF ok' c'(1)] c'(2,3) show ?thesis by auto
qed

lemma operation_stays:
  "project_step\<^sup>*\<^sup>* d d' \<Longrightarrow> project_ok d \<Longrightarrow> x \<in> set (pj_comment_operations d) \<Longrightarrow>
   x \<in> set (pj_comment_operations d')"
  using project_steps_contract [of d d'] comments_grow [of "pj_comments d" "pj_comments d'"]
  by (auto simp: project_contract_def pj_comments_def)

lemma commit_applied_state:
  assumes "commit_canvas_comment_operation input d = Inr (d', CommentApplied s)" "project_ok d"
  shows "\<exists>k. load_persisted_state (cc_workspace_id input) d' = Some (s, k)"
    "cm_seq s = cc_expected_seq input + 1" "cm_comments_json s = cc_comments_json input"
    "committed_row input (cm_seq s) \<in> set (pj_comment_operations d')"
proof -
  let ?ws = "cc_workspace_id input"
  from commit_comment_applied [OF assms] obtain c n where
      c: "c \<in> set (pj_comment_states d)" "cm_workspace_id c = ?ws"
    and n: "n = cc_expected_seq input + 1"
    and d': "d' = d\<lparr>pj_comment_states := map (\<lambda>c. if cm_workspace_id c = ?ws
          then c\<lparr>cm_seq := n, cm_comments_json := cc_comments_json input\<rparr> else c) (pj_comment_states d),
        pj_comment_operations := pj_comment_operations d @ [committed_row input n]\<rparr>" by blast
  from commit_applied_expected [OF assms(1)] obtain p where
      p: "load_persisted_state ?ws d = Some p" "cc_expected_seq input = logical_seq p"
    and s: "canvas_comment_state ?ws d' = Some s" by blast
  then obtain w where w: "w \<in> set (pj_workspaces d)" "wk_id w = ?ws"
    by (auto simp: load_persisted_state_def dest: fetch_optional_Some split: option.splits)
  have pc: "p = (c, current_idx w d)" using persisted_state [OF assms(2) c(1) w(1)] w(2) c(2) p(1) by simp
  let ?c = "c\<lparr>cm_seq := n, cm_comments_json := cc_comments_json input\<rparr>"
  have mem: "?c \<in> set (pj_comment_states d')" using c by (force simp: d')
  have kept: "pj_workspaces d' = pj_workspaces d" "pj_versions d' = pj_versions d" by (simp_all add: d')
  have "current_idx w d' = current_idx w d" unfolding current_idx_def kept ..
  moreover have "project_ok d'"
    by (rule contract_project_ok [OF commit_comment_contract [OF assms] assms(2)])
  ultimately have load: "load_persisted_state ?ws d' = Some (?c, current_idx w d)"
    using persisted_state [OF _ mem, of w] w c(2) by (simp add: kept)
  with s p(2) pc n have "s = ?c" by (auto simp: into_record_def logical_seq_def canvas_comment_state_def)
  with load n show "\<exists>k. load_persisted_state ?ws d' = Some (s, k)" "cm_seq s = cc_expected_seq input + 1"
    "cm_comments_json s = cc_comments_json input" "committed_row input (cm_seq s) \<in> set (pj_comment_operations d')"
    by (auto simp: d')
qed

text \<open>C30: A comment operation is applied exactly once.  It is accepted only against the sequence the
  canvas has, and raises it by one.  In every later database the same delivery is answered as replayed with
  the state of that moment and changes nothing; its identifier with another fingerprint is a conflict; and
  no other operation made against the old sequence is accepted any more.\<close>

theorem comment_exactly_once:
  assumes "project_step\<^sup>*\<^sup>* initial_project d"
    and "commit_canvas_comment_operation input d = Inr (d1, CommentApplied s)"
    and "project_step\<^sup>*\<^sup>* d1 d2"
  shows "map_option cm_seq (canvas_comment_state (cc_workspace_id input) d) = Some (cc_expected_seq input) \<and>
     cm_seq s = cc_expected_seq input + 1 \<and> cm_comments_json s = cc_comments_json input \<and>
     (\<exists>s'. canvas_comment_state (cc_workspace_id input) d2 = Some s' \<and> cm_seq s \<le> cm_seq s' \<and>
       (\<forall>f. commit_canvas_comment_operation (input\<lparr>cc_operation_fingerprint := f\<rparr>) d2 = Inr (d2,
         if f = cc_operation_fingerprint input then CommentReplayed s'
         else CommentOperationIdConflict (cm_seq s')))) \<and>
     (\<forall>other d3 t. cc_workspace_id other = cc_workspace_id input \<and>
        cc_expected_seq other = cc_expected_seq input \<longrightarrow>
        commit_canvas_comment_operation other d2 \<noteq> Inr (d3, CommentApplied t))"
proof -
  let ?ws = "cc_workspace_id input"
  note ok = project_reachable_ok [OF assms(1)]
  note ok1 = project.step_inv [OF ok project_step.comment_operation_committed [OF assms(2)]]
  note ok2 = project.steps_inv [OF assms(3) ok1]
  note applied = commit_applied_state [OF assms(2) ok]
  from applied(1) comment_state_later [OF assms(3) ok1] obtain c k where
      later: "load_persisted_state ?ws d2 = Some (c, k)" "cm_seq s \<le> cm_seq c" by blast
  let ?s = "into_record (c, k)"
  have "commit_canvas_comment_operation (input\<lparr>cc_operation_fingerprint := f\<rparr>) d2 = Inr (d2,
      if f = cc_operation_fingerprint input then CommentReplayed ?s
      else CommentOperationIdConflict (cm_seq ?s))" for f
    using commit_replayed [OF ok2 operation_stays [OF assms(3) ok1 applied(4)],
        of "cm_seq s" "input\<lparr>cc_operation_fingerprint := f\<rparr>"] later(1)
    by (auto simp: committed_row_def new_operation_row_def)
  moreover have "commit_canvas_comment_operation other d2 \<noteq> Inr (d3, CommentApplied t)"
    if "cc_workspace_id other = ?ws" "cc_expected_seq other = cc_expected_seq input" for other d3 t
    using commit_applied_expected [of other d2 d3 t] that later applied(2) by (auto simp: logical_seq_def)
  moreover have "map_option cm_seq (canvas_comment_state ?ws d) = Some (cc_expected_seq input)"
    using commit_applied_expected [OF assms(2)]
    by (auto simp: canvas_comment_state_def into_record_def logical_seq_def)
  moreover have "canvas_comment_state ?ws d2 = Some ?s" "cm_seq s \<le> cm_seq ?s"
    using later by (auto simp: canvas_comment_state_def into_record_def)
  ultimately show ?thesis using applied(2,3) by blast
qed

section \<open>Snapshots\<close>

lemma snapshot_follows:
  assumes "project_step\<^sup>*\<^sup>* d d'" "project_ok d" "x \<in> set (pj_snapshots d)"
  shows "\<exists>x'\<in>set (pj_snapshots d'). snapshot_change x x'"
  using project_steps_contract [OF assms(1,2)] project_okD(10) [OF assms(2)] assms(3)
    snapshots.table_steps_follow unfolding project_contract_def by blast

lemma commit_snapshot_applied:
  assumes "commit_canvas_snapshot input d = Inr (d', SnapshotApplied x)" "project_ok d"
  shows "x = \<lparr>sn_workspace_id = ck_workspace_id input, sn_revision = sint (ck_expected_revision input + 1),
      sn_nodes_json = ck_nodes_json input, sn_viewport_json = ck_viewport_json input\<rparr>"
    and "0 \<le> sn_revision x" "x \<in> set (pj_snapshots d')"
    and "canvas_snapshot (ck_workspace_id input) d = None \<or>
      map_option sn_revision (canvas_snapshot (ck_workspace_id input) d) = Some (sint (ck_expected_revision input))"
proof -
  let ?ws = "ck_workspace_id input"
  define row where "row = \<lparr>sn_workspace_id = ?ws, sn_revision = sint (ck_expected_revision input + 1),
      sn_nodes_json = ck_nodes_json input, sn_viewport_json = ck_viewport_json input\<rparr>"
  let ?P = "\<lambda>y. sn_workspace_id y = ?ws \<and> sn_revision y = sint (ck_expected_revision input)"
  have read: "fetch_one (\<lambda>y. sn_workspace_id y = ?ws) (pj_snapshots d') = Inr x"
    and rev: "0 \<le> sn_revision row"
    and written: "row_exists (\<lambda>y. sn_workspace_id y = ?ws) (pj_snapshots d) \<and>
         d' = d\<lparr>pj_snapshots := map (\<lambda>y. if ?P y then row else y) (pj_snapshots d)\<rparr> \<and>
         row_exists ?P (pj_snapshots d) \<or>
       \<not> row_exists (\<lambda>y. sn_workspace_id y = ?ws) (pj_snapshots d) \<and>
         d' = d\<lparr>pj_snapshots := pj_snapshots d @ [row]\<rparr>"
    using assms(1) unfolding commit_canvas_snapshot_def row_def Let_def
    by (auto simp: result_simps sql_update_Inr filter_empty_conv split: if_splits)
  have "row \<in> set (pj_snapshots d')" using written by (auto simp: image_iff)
  then have "fetch_one (\<lambda>y. sn_workspace_id y = sn_workspace_id row) (pj_snapshots d') = Inr row"
    by (rule snapshots.fetch_keyed [OF project_okD(11)
        [OF contract_project_ok [OF commit_snapshot_contract [OF assms(1)] assms(2)]]])
  with read have x: "x = row" by (simp add: row_def)
  then show "x = \<lparr>sn_workspace_id = ?ws, sn_revision = sint (ck_expected_revision input + 1),
      sn_nodes_json = ck_nodes_json input, sn_viewport_json = ck_viewport_json input\<rparr>"
    by (simp add: row_def)
  show "0 \<le> sn_revision x" using rev x by simp
  show "x \<in> set (pj_snapshots d')" using \<open>row \<in> set (pj_snapshots d')\<close> x by simp
  show "canvas_snapshot ?ws d = None \<or>
      map_option sn_revision (canvas_snapshot ?ws d) = Some (sint (ck_expected_revision input))"
  proof (cases "canvas_snapshot ?ws d")
    case (Some y)
    then have y: "y \<in> set (pj_snapshots d)" "sn_workspace_id y = ?ws"
      by (auto simp: canvas_snapshot_def dest: fetch_optional_Some)
    with written obtain z where "z \<in> set (pj_snapshots d)" "?P z" by auto
    with snapshots.keyed_unique [OF project_okD(11) [OF assms(2)] y(1)] y(2) Some show ?thesis by auto
  qed simp
qed

text \<open>C31: Of the snapshots committed against one revision of a canvas at most one is accepted: it was
  made against the stored revision, is stored as the next one with its own content, and afterwards, whatever
  else happens, no commit that names the old revision is accepted.\<close>

theorem snapshot_no_lost_update:
  assumes "project_step\<^sup>*\<^sup>* initial_project d"
    and "commit_canvas_snapshot input d = Inr (d1, SnapshotApplied x)"
    and "project_step\<^sup>*\<^sup>* d1 d2"
    and "ck_workspace_id other = ck_workspace_id input"
    and "ck_expected_revision other = ck_expected_revision input"
  shows "(canvas_snapshot (ck_workspace_id input) d = None \<or>
       map_option sn_revision (canvas_snapshot (ck_workspace_id input) d) =
         Some (sint (ck_expected_revision input))) \<and>
     sn_revision x = sint (ck_expected_revision input) + 1 \<and> sn_nodes_json x = ck_nodes_json input \<and>
     sn_viewport_json x = ck_viewport_json input \<and>
     commit_canvas_snapshot other d2 \<noteq> Inr (d3, SnapshotApplied y)"
proof -
  note ok = project_reachable_ok [OF assms(1)]
  note ok1 = project.step_inv [OF ok project_step.snapshot_committed [OF assms(2)]]
  note ok2 = project.steps_inv [OF assms(3) ok1]
  note applied = commit_snapshot_applied [OF assms(2) ok]
  have higher: "sn_revision x = sint (ck_expected_revision input) + 1"
    using applied(1,2) next_revision [of "ck_expected_revision input"] by simp
  from snapshot_follows [OF assms(3) ok1 applied(3)] obtain z where
      z: "z \<in> set (pj_snapshots d2)" "sn_workspace_id z = ck_workspace_id input" "sn_revision x \<le> sn_revision z"
    using applied(1) by (auto simp: snapshot_change_def)
  have "canvas_snapshot (ck_workspace_id input) d2 = Some z"
    unfolding canvas_snapshot_def
    by (rule snapshots.keyed_fetch [OF project_okD(11) [OF ok2] z(1)]) (use z(2) in auto)
  then have "commit_canvas_snapshot other d2 \<noteq> Inr (d3, SnapshotApplied y)"
    using commit_snapshot_applied(4) [of other d2 d3 y] ok2 z(3) higher assms(4,5) by auto
  with applied(1,4) higher show ?thesis by simp
qed

section \<open>Turns\<close>

lemma agent_turn_Inr: "agent_turn i d = Inr a \<Longrightarrow> a \<in> set (pj_turns d) \<and> at_id a = i"
  unfolding agent_turn_def by (rule fetch_one_Inr)

lemma fetch_turn: "project_ok d \<Longrightarrow> a \<in> set (pj_turns d) \<Longrightarrow> agent_turn (at_id a) d = Inr a"
  unfolding agent_turn_def by (rule turns.fetch_keyed [OF project_okD(8)])

lemma turn_follows:
  assumes "project_step\<^sup>*\<^sup>* d d'" "project_ok d" "agent_turn i d = Inr a"
  shows "\<exists>a'. agent_turn i d' = Inr a' \<and> turn_change a a'"
proof -
  note a = agent_turn_Inr [OF assms(3)]
  from project_steps_contract [OF assms(1,2)] have "turns.table_step\<^sup>*\<^sup>* (pj_turns d) (pj_turns d')"
    by (simp add: project_contract_def)
  from turns.table_steps_follow [OF this project_okD(7) [OF assms(2)] conjunct1 [OF a]] obtain a' where
    a': "a' \<in> set (pj_turns d')" "turn_change a a'" by blast
  then have "at_id a' = i" using a by (simp add: turns.change_key)
  with fetch_turn [OF project.steps_inv [OF assms(1,2)] a'(1)] a'(2) show ?thesis by auto
qed

lemma settle_no_rows:
  assumes "project_ok d" "agent_turn i d = Inr a" "at_status a \<noteq> ''running''"
  shows "settle_turn_rows now i st rc ex P d = Inr (pj_turns d, 0)"
proof -
  have "\<not> (at_id b = i \<and> at_status b = ''running'')" if "b \<in> set (pj_turns d)" for b
    using turns.keyed_unique [OF project_okD(8) [OF assms(1)] that] agent_turn_Inr [OF assms(2)] assms(3) by auto
  then show ?thesis unfolding settle_turn_rows_def sql_update_Inr
    by (auto intro!: map_idI [symmetric])
qed

lemma finalize_settled:
  assumes "project_ok d" "agent_turn i d = Inr a" "at_status a \<noteq> ''running''"
  shows "finalize_agent_turn now i st rc ex d =
     (if st \<notin> {''succeeded'', ''clarify'', ''error'', ''interrupted''}
      then Inl (SE_AgentContractObservationInvariant ''INVALID_AGENT_TURN_STATUS'')
      else if (st, rc, ex) = (at_status a, at_reason_code a, at_execution_id a) then Inr (d, a)
      else Inl (SE_AgentContractObservationInvariant ''AGENT_TURN_TERMINAL_CONFLICT''))"
  using settle_no_rows [OF assms, of now st rc ex "\<lambda>_. True"] assms(2)
  by (auto simp: finalize_agent_turn_def returning_def)

text \<open>A turn is settled once.  In every later database a settled turn has the same status, reason,
  execution and time.  Settling it again with the same values returns it, with other values is a conflict, and
  neither changes anything; the clean-up of dropped requests leaves it alone.\<close>

theorem turns_settled_once:
  assumes "project_step\<^sup>*\<^sup>* initial_project d" "agent_turn i d = Inr a" "at_status a \<noteq> ''running''"
    and "project_step\<^sup>*\<^sup>* d d'"
  shows "\<exists>a'. agent_turn i d' = Inr a' \<and> turn_core a' = turn_core a \<and> turn_outcome a' = turn_outcome a \<and>
     finalize_agent_turn now i st rc ex d' =
       (if st \<notin> {''succeeded'', ''clarify'', ''error'', ''interrupted''}
        then Inl (SE_AgentContractObservationInvariant ''INVALID_AGENT_TURN_STATUS'')
        else if (st, rc, ex) = (at_status a, at_reason_code a, at_execution_id a) then Inr (d', a')
        else Inl (SE_AgentContractObservationInvariant ''AGENT_TURN_TERMINAL_CONFLICT'')) \<and>
     settle_dropped_agent_turn message_id now i observation_id d' = Inr (d', None)"
proof -
  note ok = project_reachable_ok [OF assms(1)]
  note ok' = project.steps_inv [OF assms(4) ok]
  from turn_follows [OF assms(4) ok assms(2)] obtain a' where
    a': "agent_turn i d' = Inr a'" "turn_change a a'" by blast
  then have same: "turn_core a' = turn_core a" "turn_outcome a' = turn_outcome a"
    using assms(3) by (auto simp: turn_change_def)
  then have "at_status a' \<noteq> ''running''" using assms(3) by (simp add: turn_outcome_def)
  moreover from this have "settle_dropped_agent_turn message_id now i observation_id d' = Inr (d', None)"
    using a'(1) by (auto simp: settle_dropped_agent_turn_def agent_turn_def fetch_one_def ok_or_def
        split: option.splits)
  ultimately show ?thesis
    using a'(1) same finalize_settled [OF ok' a'(1)] by (auto simp: turn_outcome_def)
qed

section \<open>Dropped requests\<close>

lemma newest_by_None: "newest_by key rs = None \<longleftrightarrow> rs = []"
proof -
  have "sort_key key rs = [] \<longleftrightarrow> rs = []" by (metis set_empty2 set_sort)
  then show ?thesis by (simp add: newest_by_def Let_def)
qed

lemma primary_message_None: "primary_message i d = None \<longleftrightarrow>
    (\<forall>m\<in>set (pj_messages d). ms_turn_id m = Some i \<and> ms_role m = ''agent'' \<longrightarrow>
       sql_like ''agent_log:%'' (ms_kind m))"
  by (auto simp: primary_message_def newest_by_None filter_empty_conv)

lemma recovery_kinds:
  "\<not> sql_like ''agent_log:%'' ''agent_status''" "\<not> sql_like ''agent_log:%'' ''clarify''"
  "\<not> sql_like ''agent_log:%'' ''agent_error''" "\<not> sql_like ''agent_log:%'' ''agent_interrupted''"
  by code_simp+

lemma recovered_outcome_Inr:
  assumes "recovered_outcome oc = Inr (st, kind, text)"
  shows "st \<noteq> ''running''" "\<not> sql_like ''agent_log:%'' kind"
  using assms recovery_kinds unfolding recovered_outcome_def by (auto split: if_splits simp del: sql_like.simps)

lemma dropped_outcome_Inr:
  assumes "dropped_outcome obs existing = Inr ((st, rc, ex, recovery), close)"
  shows "st \<noteq> ''running'' \<and> (existing = None \<longrightarrow> recovery \<noteq> None) \<and>
    (existing \<noteq> None \<longrightarrow> obs = None \<longrightarrow> recovery = None) \<and>
    (\<forall>kind text. recovery = Some (kind, text) \<longrightarrow> \<not> sql_like ''agent_log:%'' kind) \<and>
    (close \<or> obs = None \<or> (\<exists>x. obs = Some x \<and> ob_outcome x \<noteq> ''started''))"
proof (cases obs)
  case None
  then show ?thesis
    using assms recovery_kinds(4) unfolding dropped_outcome_def Let_def
    by (auto split: option.splits if_splits simp del: sql_like.simps)
next
  case (Some x)
  then show ?thesis
    using assms recovery_kinds(4) recovered_outcome_Inr unfolding dropped_outcome_def Let_def
    by (cases "ob_outcome x = ''started''")
      (auto simp: res_bind_Inr simp del: sql_like.simps)
qed

lemma close_dropped_Inr:
  assumes "close_dropped_observation now obs d = Inr d'"
  shows "pj_messages d' = pj_messages d" "pj_turns d' = pj_turns d" "obs = None \<Longrightarrow> d' = d"
    "\<lbrakk>obs = Some x; y \<in> set (pj_observations d'); ob_id y = ob_id x; ob_workspace_id y = ob_workspace_id x\<rbrakk>
      \<Longrightarrow> ob_outcome y \<noteq> ''started''"
  using assms by (auto simp: close_dropped_observation_def sql_simps split: option.splits if_splits)

lemma add_recovery_Inr:
  assumes "add_recovery_message message_id now a existing ex recovery d = Inr (d', m)"
  shows "pj_observations d' = pj_observations d" "pj_turns d' = pj_turns d"
    "set (pj_messages d) \<subseteq> set (pj_messages d')"
    "m = None \<longleftrightarrow> recovery = None \<or> existing \<noteq> None"
    "recovery = Some (kind, text) \<Longrightarrow> existing = None \<Longrightarrow> \<exists>x\<in>set (pj_messages d').
       ms_turn_id x = Some (at_id a) \<and> ms_role x = ''agent'' \<and> ms_kind x = kind"
  using assms by (auto simp: add_recovery_message_def insert_message_row_def sql_simps message_row_def
      split: option.splits)

lemma settle_running_Inr:
  assumes "settle_running_turn message_id now cur oid d = Inr (d', Some (a, m))"
  shows "\<exists>st rc ex recovery close d1 d2 t.
     dropped_outcome (turn_observation cur oid d) (primary_message (at_id cur) d) =
       Inr ((st, rc, ex, recovery), close) \<and>
     (if close then close_dropped_observation now (turn_observation cur oid d) d else Inr d) = Inr d1 \<and>
     add_recovery_message message_id now cur (primary_message (at_id cur) d) ex recovery d1 = Inr (d2, m) \<and>
     settle_turn_rows now (at_id cur) st rc ex (\<lambda>_. True) d2 = Inr (t, 1) \<and>
     d' = touch_conversation now (at_conversation_id cur) (d2\<lparr>pj_turns := t\<rparr>) \<and>
     agent_turn (at_id cur) d' = Inr a"
proof -
  have settled: "(if c then Inr (x, None) else y) = Inr (z, Some u) \<longleftrightarrow> \<not> c \<and> y = Inr (z, Some u)"
    for c and x z :: pdb and u and y :: "(agent_turn_record \<times> message_record option) option project_result"
    by simp
  from assms show ?thesis
    unfolding settle_running_turn_def Let_def
    by (elim res_bind_Inr [THEN iffD1, THEN exE] conjE; clarsimp simp: res_bind_Inr settled split del: if_split)
qed

lemma observation_closed:
  assumes "project_ok d" "dropped_outcome (turn_observation cur oid d) existing = Inr (z, close)"
    and "(if close then close_dropped_observation now (turn_observation cur oid d) d else Inr d) = Inr d1"
    and "oid = Some k" "x \<in> set (pj_observations d1)" "ob_id x = k" "ob_workspace_id x = at_workspace_id cur"
  shows "ob_outcome x \<noteq> ''started''"
proof (cases "turn_observation cur oid d")
  case None
  then have "d1 = d" using assms(3) close_dropped_Inr(3) by (cases close) auto
  with None assms(4-7) show ?thesis by (auto simp: turn_observation_def fetch_optional_None)
next
  case (Some y)
  then have y: "y \<in> set (pj_observations d)" "ob_id y = k" "ob_workspace_id y = at_workspace_id cur"
    using assms(4) by (auto simp: turn_observation_def dest: fetch_optional_Some)
  obtain st rc ex recovery where z: "z = (st, rc, ex, recovery)" by (cases z)
  show ?thesis
  proof (cases close)
    case True
    with assms(3) have "close_dropped_observation now (Some y) d = Inr d1" by (simp add: Some)
    from close_dropped_Inr(4) [OF this refl assms(5)] show ?thesis using assms(6,7) y by simp
  next
    case False
    with dropped_outcome_Inr [OF assms(2) [unfolded z Some]] have "ob_outcome y \<noteq> ''started''" by auto
    moreover have "observations.keyed (pj_observations d)"
      using project_okD(9) [OF assms(1)] by (simp add: observations.table_ok_def)
    moreover have "d1 = d" using assms(3) False by simp
    ultimately show ?thesis using observations.keyed_unique [of "pj_observations d" x y] assms(5,6) y by auto
  qed
qed

lemma settle_turn_rows_settles:
  assumes "settle_turn_rows now i st rc ex P d = Inr (t, n)" "st \<noteq> ''running''" "n \<noteq> 0"
    and "turns.keyed (pj_turns d)" "agent_turn i d = Inr b" "fetch_one (\<lambda>a. at_id a = i) t = Inr a"
  shows "at_status a = st" "turn_core a = turn_core b"
proof -
  let ?f = "\<lambda>a. a\<lparr>at_status := st, at_reason_code := rc, at_execution_id := ex, at_completed_at := Some now\<rparr>"
  let ?P = "\<lambda>a. at_id a = i \<and> P a \<and> at_status a = ''running''"
  have t: "t = map (\<lambda>a. if ?P a then ?f a else a) (pj_turns d)" and n: "length (filter ?P (pj_turns d)) \<noteq> 0"
    using assms(1,3) by (auto simp: settle_turn_rows_def sql_update_Inr)
  from n obtain c where c: "c \<in> set (pj_turns d)" "?P c" by (auto simp: filter_empty_conv)
  have only: "c' = c" if "c' \<in> set (pj_turns d)" "at_id c' = i" for c'
    using turns.keyed_unique [OF assms(4) that(1) c(1)] that(2) c(2) by simp
  have "b = c" using only agent_turn_Inr [OF assms(5)] by blast
  moreover have "a = ?f c"
  proof -
    from fetch_one_Inr [OF assms(6)] have a: "a \<in> set t" "at_id a = i" by auto
    from a(1) obtain c' where c': "c' \<in> set (pj_turns d)" "a = (if ?P c' then ?f c' else c')"
      unfolding t set_map by blast
    have "at_id a = at_id c'" unfolding c'(2) by simp
    with a(2) have "c' = c" by (intro only c'(1)) simp
    with c' c(2) show ?thesis by simp
  qed
  ultimately show "at_status a = st" "turn_core a = turn_core b" by (simp_all add: turn_core_def)
qed

text \<open>C32: When the request of a running turn disappears, its clean-up ends the turn: the turn is no
  longer running, a visible agent message belongs to it (one is added exactly if there was none), and the
  observation that went with the request is no longer open.\<close>

theorem dropped_turn_settled:
  assumes "project_step\<^sup>*\<^sup>* initial_project d"
    and "settle_dropped_agent_turn message_id now i oid d = Inr (d', Some (a, m))"
  shows "(\<exists>b. agent_turn i d = Inr b \<and> at_status b = ''running'' \<and> turn_core a = turn_core b) \<and>
     agent_turn i d' = Inr a \<and> at_status a \<noteq> ''running'' \<and>
     primary_message i d' \<noteq> None \<and> (m \<noteq> None \<longleftrightarrow> primary_message i d = None) \<and>
     (\<forall>k x. oid = Some k \<and> agent_contract_observation k d' = Inr x \<and>
        ob_workspace_id x = at_workspace_id a \<longrightarrow> ob_outcome x \<noteq> ''started'')"
proof -
  note ok = project_reachable_ok [OF assms(1)]
  from assms(2) obtain b where b: "fetch_optional (\<lambda>a. at_id a = i) (pj_turns d) = Some b"
      "at_status b = ''running''" and run: "settle_running_turn message_id now b oid d = Inr (d', Some (a, m))"
    by (auto simp: settle_dropped_agent_turn_def split: option.splits if_splits)
  have i: "at_id b = i" using fetch_optional_Some [OF b(1)] by simp
  have turn: "agent_turn i d = Inr b" using b(1) by (simp add: agent_turn_def fetch_one_def)
  from settle_running_Inr [OF run] i obtain st rc ex recovery close d1 d2 t where
      1: "dropped_outcome (turn_observation b oid d) (primary_message i d) = Inr ((st, rc, ex, recovery), close)"
    and 2: "(if close then close_dropped_observation now (turn_observation b oid d) d else Inr d) = Inr d1"
    and 3: "add_recovery_message message_id now b (primary_message i d) ex recovery d1 = Inr (d2, m)"
    and 4: "settle_turn_rows now i st rc ex (\<lambda>_. True) d2 = Inr (t, 1)"
    and d': "d' = touch_conversation now (at_conversation_id b) (d2\<lparr>pj_turns := t\<rparr>)"
    and a: "agent_turn i d' = Inr a" by auto
  note outcome = dropped_outcome_Inr [OF 1]
  have kept: "pj_turns d1 = pj_turns d" "pj_messages d1 = pj_messages d"
    using 2 close_dropped_Inr(1,2) by (auto split: if_splits)
  have same: "pj_turns d2 = pj_turns d" "pj_observations d' = pj_observations d1"
    "pj_messages d' = pj_messages d2"
    using add_recovery_Inr(1,2) [OF 3] kept by (simp_all add: d' touch_conversation_def)
  have settled: "at_status a = st" "turn_core a = turn_core b"
    using settle_turn_rows_settles [OF 4, of b a] outcome turn a same project_okD(8) [OF ok]
    by (simp_all add: agent_turn_def d' touch_conversation_def)
  have "primary_message i d' \<noteq> None"
  proof (cases "primary_message i d")
    case None
    then obtain kind note_text where rec: "recovery = Some (kind, note_text)" "\<not> sql_like ''agent_log:%'' kind"
      using outcome by (cases recovery) auto
    from add_recovery_Inr(5) [OF 3 rec(1) None] rec(2) show ?thesis
      unfolding primary_message_None same i by auto
  next
    case (Some x)
    then show ?thesis
      using add_recovery_Inr(3) [OF 3] kept(2) primary_message_None [of i d] primary_message_None [of i d']
      by (auto simp: same)
  qed
  moreover have "m \<noteq> None \<longleftrightarrow> primary_message i d = None"
    using add_recovery_Inr(4) [OF 3] outcome by blast
  moreover have "ob_outcome x \<noteq> ''started''"
    if "oid = Some k" "agent_contract_observation k d' = Inr x" "ob_workspace_id x = at_workspace_id a" for k x
    using observation_closed [OF ok 1 2 that(1), of x] that(2,3) settled(2) same(2)
    by (auto simp: agent_contract_observation_def turn_core_def dest: fetch_one_Inr)
  ultimately show ?thesis using turn b(2) a settled outcome by auto
qed

section \<open>A run of the operations\<close>

definition project_after :: "'a project_result \<Rightarrow> pdb" where
  "project_after x = (case x of Inl _ \<Rightarrow> initial_project | Inr (d, _) \<Rightarrow> d)"

definition project_value :: "'a project_result \<Rightarrow> 'a option" where
  "project_value x = (case x of Inl _ \<Rightarrow> None | Inr (_, y) \<Rightarrow> Some y)"

lemma project_value_Some: "project_value x = Some y \<longleftrightarrow> x = Inr (project_after x, y)"
  by (auto simp: project_value_def project_after_def split: sum.splits)

lemma extend_project:
  assumes "project_step\<^sup>*\<^sup>* a b" "project_value x \<noteq> None" "\<And>d y. x = Inr (d, y) \<Longrightarrow> project_step b d"
  shows "project_step\<^sup>*\<^sup>* a (project_after x)"
  using assms project_value_Some [of x] by (metis not_None_eq rtranclp.rtrancl_into_rtrancl)

definition demo_project :: pdb where
  "demo_project = project_after (create_workspace_with_initial_version 1
     \<lparr>wv_workspace_id = ''w'', wv_initial_version_id = ''v1'', wv_name = ''demo'', wv_version_label = ''one'',
      wv_source = Manual, wv_graph_path = ''g1'', wv_graph_hash = ''h1''\<rparr> initial_project)"

definition demo_nv :: new_version where
  "demo_nv = \<lparr>nv_workspace_id = ''w'', nv_label = ''two'', nv_source = Proposal, nv_graph_path = ''g2'',
     nv_graph_hash = ''h2'', nv_parent_id = Some ''v1'', nv_semantics_json = None\<rparr>"

abbreviation demo_write :: "version_record project_result" where
  "demo_write \<equiv> insert_version ''v2'' 2 demo_nv (Some ''v1'') True demo_project"

definition demo_proposed :: pdb where
  "demo_proposed = project_after (create_proposal ''p'' 2
     \<lparr>nl_workspace_id = ''w'', nl_base_version_id = ''v1'', nl_kind = ''graph'', nl_title = ''t'',
      nl_summary = ''s'', nl_ops_path = ''o'', nl_preview_graph_path = None, nl_message_id = None\<rparr> demo_project)"

abbreviation demo_apply :: "(version_record \<times> message_record) project_result" where
  "demo_apply \<equiv> create_version_after_applying_proposal ''v2'' ''m'' 3 ''p'' ''v1'' demo_nv ''applied'' demo_proposed"

definition demo_migration :: version_migration_input where
  "demo_migration = \<lparr>am_operation_id = ''op'', am_operation_fingerprint = ''f'', am_source_version_id = ''v1'',
     am_source_graph_hash = ''h1'', am_expected_runtime_provider_id = None, am_target_label = ''two'',
     am_target_graph_path = ''g2'', am_target_graph_hash = ''h2'', am_target_semantics_json = ''{}'',
     am_migration_version = ''1'', am_catalog_revision = ''r'', am_workspace_connector_id = ''k'',
     am_report_hash = ''x'', am_report_json = ''{}'', am_workspace_id = ''w''\<rparr>"

abbreviation demo_migrate :: "(version_migration_record \<times> version_record \<times> bool) project_result" where
  "demo_migrate \<equiv> apply_version_migration ''v2'' ''g'' 3 demo_migration demo_project"

definition demo_canvas :: pdb where
  "demo_canvas = project_after (initialize_canvas_comment_state
     \<lparr>cm_workspace_id = ''w'', cm_seq = 0, cm_comments_json = ''[]'', cm_migration_source = ''empty''\<rparr> demo_project)"

definition demo_comment :: comment_operation where
  "demo_comment = \<lparr>cc_workspace_id = ''w'', cc_operation_id = ''op'', cc_operation_fingerprint = ''f'',
     cc_expected_seq = 1, cc_comments_json = ''[1]''\<rparr>"

abbreviation demo_comment_commit :: "comment_commit_result project_result" where
  "demo_comment_commit \<equiv> commit_canvas_comment_operation demo_comment demo_canvas"

definition demo_snapshot :: canvas_snapshot_input where
  "demo_snapshot = \<lparr>ck_workspace_id = ''w'', ck_expected_revision = 0, ck_nodes_json = ''{1}'',
     ck_viewport_json = None\<rparr>"

abbreviation demo_snapshot_commit :: "snapshot_commit_result project_result" where
  "demo_snapshot_commit \<equiv> commit_canvas_snapshot demo_snapshot demo_project"

definition demo_chat :: pdb where
  "demo_chat = project_after (create_conversation ''c'' 2 ''w'' ''talk'' demo_project)"

definition demo_turn :: pdb where
  "demo_turn = project_after (start_agent_turn_with_id 3 ''t'' ''w'' ''c'' ''chat'' demo_chat)"

abbreviation demo_drop :: "(agent_turn_record \<times> message_record option) option project_result" where
  "demo_drop \<equiv> settle_dropped_agent_turn ''m'' 4 ''t'' None demo_turn"

lemma demo_project_reachable: "project_step\<^sup>*\<^sup>* initial_project demo_project"
  unfolding demo_project_def
  by (rule extend_project [OF rtranclp.rtrancl_refl], code_simp, erule project_step.workspace_initialized)

lemma demo_proposed_reachable: "project_step\<^sup>*\<^sup>* initial_project demo_proposed"
  unfolding demo_proposed_def
  by (rule extend_project [OF demo_project_reachable], code_simp, erule project_step.proposal_created)

lemma demo_canvas_reachable: "project_step\<^sup>*\<^sup>* initial_project demo_canvas"
  unfolding demo_canvas_def
  by (rule extend_project [OF demo_project_reachable], code_simp, erule project_step.comment_state_created)

lemma demo_chat_reachable: "project_step\<^sup>*\<^sup>* initial_project demo_chat"
  unfolding demo_chat_def
  by (rule extend_project [OF demo_project_reachable], code_simp, erule project_step.conversation_created)

lemma demo_turn_reachable: "project_step\<^sup>*\<^sup>* initial_project demo_turn"
  unfolding demo_turn_def
  by (rule extend_project [OF demo_chat_reachable], code_simp, erule project_step.turn_started)

text \<open>The databases and values the six operations end with.\<close>

lemma project_run: "project_value x \<noteq> None \<Longrightarrow> x = Inr (project_after x, the (project_value x))"
  by (cases x) (auto simp: project_value_def project_after_def)

definition demo_written :: pdb where "demo_written = project_after demo_write"
definition demo_applied :: pdb where "demo_applied = project_after demo_apply"
definition demo_migrated :: pdb where "demo_migrated = project_after demo_migrate"
definition demo_commented :: pdb where "demo_commented = project_after demo_comment_commit"
definition demo_snapped :: pdb where "demo_snapped = project_after demo_snapshot_commit"
definition demo_dropped :: pdb where "demo_dropped = project_after demo_drop"
definition demo_ended :: pdb where
  "demo_ended = project_after (finalize_agent_turn 4 ''t'' ''succeeded'' None None demo_turn)"

lemma demo_written_run: "\<exists>v. demo_write = Inr (demo_written, v)"
proof -
  have "project_value demo_write \<noteq> None" by code_simp
  from project_run [OF this] show ?thesis unfolding demo_written_def by blast
qed

lemma demo_applied_run: "\<exists>v m. demo_apply = Inr (demo_applied, v, m)"
proof -
  have "project_value demo_apply \<noteq> None" by code_simp
  from project_run [OF this] show ?thesis by (metis demo_applied_def surj_pair)
qed

lemma demo_migrated_run: "\<exists>m v r. demo_migrate = Inr (demo_migrated, m, v, r)"
proof -
  have "project_value demo_migrate \<noteq> None" by code_simp
  from project_run [OF this] show ?thesis by (metis demo_migrated_def surj_pair)
qed

lemma demo_commented_run: "\<exists>s. demo_comment_commit = Inr (demo_commented, CommentApplied s)"
proof -
  have "case project_value demo_comment_commit of Some (CommentApplied s) \<Rightarrow> True | _ \<Rightarrow> False" by code_simp
  then show ?thesis unfolding demo_commented_def
    by (auto simp: project_value_Some split: option.splits comment_commit_result.splits)
qed

lemma demo_snapped_run: "\<exists>x. demo_snapshot_commit = Inr (demo_snapped, SnapshotApplied x)"
proof -
  have "case project_value demo_snapshot_commit of Some (SnapshotApplied x) \<Rightarrow> True | _ \<Rightarrow> False" by code_simp
  then show ?thesis unfolding demo_snapped_def
    by (auto simp: project_value_Some split: option.splits snapshot_commit_result.splits)
qed

lemma demo_dropped_run: "\<exists>a m. demo_drop = Inr (demo_dropped, Some (a, m))"
proof -
  have "case project_value demo_drop of Some (Some z) \<Rightarrow> True | _ \<Rightarrow> False" by code_simp
  then show ?thesis unfolding demo_dropped_def
    by (auto simp: project_value_Some split: option.splits)
qed

lemma demo_ended_reachable: "project_step\<^sup>*\<^sup>* initial_project demo_ended"
  unfolding demo_ended_def
  by (rule extend_project [OF demo_turn_reachable], code_simp, erule project_step.turn_finalized)

lemma demo_ended_turn: "\<exists>a. agent_turn ''t'' demo_ended = Inr a \<and> at_status a \<noteq> ''running''"
proof -
  have "case agent_turn ''t'' demo_ended of Inr a \<Rightarrow> at_status a \<noteq> ''running'' | Inl _ \<Rightarrow> False" by code_simp
  then show ?thesis by (auto split: sum.splits)
qed

lemma version_history_witness:
  "actual_version ''w'' demo_project = Some ''v1'' \<and>
   map vr_idx (versions_for_workspace ''w'' demo_project) = [1]"
proof -
  have "length (versions_for_workspace ''w'' demo_project) = 1 \<and>
    vr_id (last (versions_for_workspace ''w'' demo_project)) = ''v1''" by code_simp
  with version_history [OF demo_project_reachable, of "''w''"] show ?thesis by auto
qed

lemma no_lost_update_witness:
  "actual_version ''w'' demo_project = Some ''v1'' \<and>
   \<not> is_ok (insert_version ''v3'' 4 demo_nv (Some ''v1'') False demo_written)"
proof -
  obtain v where run: "demo_write = Inr (demo_written, v)" using demo_written_run by blast
  have "nv_workspace_id demo_nv = ''w''" by (simp add: demo_nv_def)
  with no_lost_update [OF demo_project_reachable run rtranclp.rtrancl_refl, of "''v3''" 4 False]
  show ?thesis by metis
qed

lemma proposal_applied_once_witness:
  "\<not> is_ok (resolve_proposal 5 ''p'' ''w'' Dismissed None demo_applied)"
proof -
  obtain v m where run: "demo_apply = Inr (demo_applied, v, m)" using demo_applied_run by blast
  from proposal_applied_once [OF demo_proposed_reachable run rtranclp.rtrancl_refl] show ?thesis by blast
qed

lemma migration_idempotent_witness:
  "\<exists>m v. apply_version_migration ''v3'' ''g2'' 7 demo_migration demo_migrated =
     Inr (demo_migrated, m, v, True) \<and> vr_source v = ''migration''"
proof -
  obtain m v r where run: "demo_migrate = Inr (demo_migrated, m, v, r)" using demo_migrated_run by blast
  from migration_idempotent [OF demo_project_reachable run rtranclp.rtrancl_refl refl refl]
  show ?thesis by auto
qed

lemma comment_exactly_once_witness:
  "\<exists>s. commit_canvas_comment_operation demo_comment demo_commented =
     Inr (demo_commented, CommentReplayed s) \<and> 2 \<le> cm_seq s"
proof -
  obtain s where run: "demo_comment_commit = Inr (demo_commented, CommentApplied s)"
    using demo_commented_run by blast
  have "cc_expected_seq demo_comment = 1" by (simp add: demo_comment_def)
  with comment_exactly_once [OF demo_canvas_reachable run rtranclp.rtrancl_refl] obtain s' where
    "2 \<le> cm_seq s'" and
    again: "\<And>f. commit_canvas_comment_operation (demo_comment\<lparr>cc_operation_fingerprint := f\<rparr>) demo_commented
      = Inr (demo_commented, if f = cc_operation_fingerprint demo_comment then CommentReplayed s'
         else CommentOperationIdConflict (cm_seq s'))" by auto
  with again [of "cc_operation_fingerprint demo_comment"] show ?thesis by auto
qed

lemma snapshot_no_lost_update_witness:
  "commit_canvas_snapshot (demo_snapshot\<lparr>ck_nodes_json := ''{2}''\<rparr>) demo_snapped
     \<noteq> Inr (demo_snapped, SnapshotApplied (initial_snapshot ''w''))"
proof -
  obtain x where run: "demo_snapshot_commit = Inr (demo_snapped, SnapshotApplied x)"
    using demo_snapped_run by blast
  from snapshot_no_lost_update [OF demo_project_reachable run rtranclp.rtrancl_refl,
      of "demo_snapshot\<lparr>ck_nodes_json := ''{2}''\<rparr>"] show ?thesis by simp
qed

lemma turns_settled_once_witness:
  "settle_dropped_agent_turn ''m2'' 9 ''t'' None demo_ended = Inr (demo_ended, None)"
proof -
  obtain a where a: "agent_turn ''t'' demo_ended = Inr a" "at_status a \<noteq> ''running''"
    using demo_ended_turn by blast
  from turns_settled_once [OF demo_ended_reachable a rtranclp.rtrancl_refl] show ?thesis by blast
qed

lemma dropped_turn_settled_witness:
  "primary_message ''t'' demo_dropped \<noteq> None"
proof -
  obtain a m where run: "demo_drop = Inr (demo_dropped, Some (a, m))" using demo_dropped_run by blast
  from dropped_turn_settled [OF demo_turn_reachable run] show ?thesis by blast
qed

end
