(* ===== verification/Canvas_Edit.thy ===== *)
theory Canvas_Edit
  imports Semantics
begin

text \<open>
  The agent's way of writing to the canvas (crates/agent/src/canvas_edit.rs): a plan of typed edits is
  translated, edit by edit against the graph as it stands, into proposal operations, which are applied
  at once; the result is the list of operations and the preview graph.  The shared catalog of crate run
  is the parameter \<open>c\<close>.
\<close>

section \<open>Plans and errors\<close>

datatype canvas_edit_op =
    EditAddNode string string "string option" "(f32 \<times> f32) option" "string option" json
  | EditUpdateNode string "json option"
  | EditMoveNode string "f32 \<times> f32"
  | EditRemoveNode string
  | EditConnect string string string string
  | EditDisconnect string string string string

record canvas_edit_plan =
  xp_operations :: "canvas_edit_op list"
  xp_summary :: "string option"

datatype canvas_edit_error =
    XE_Empty
  | XE_TooManyOperations nat
  | XE_InvalidId string
  | XE_UnknownNodeType string
  | XE_UnknownNode string
  | XE_ParamsNotObject string
  | XE_MissingParam string string
  | XE_PortMismatch string string
  | XE_MissingPort string string
  | XE_Resolve string string string
  | XE_Graph string

definition edit_error_code :: "canvas_edit_error \<Rightarrow> string" where
  "edit_error_code e = (case e of
     XE_MissingParam _ _ \<Rightarrow> ''REQUIRED_INPUT_MISSING''
   | XE_Resolve _ code _ \<Rightarrow>
       if code \<in> {''BINDING_NOT_FOUND'', ''MODEL_NOT_FOUND'', ''MODEL_AMBIGUOUS'', ''BINDING_AMBIGUOUS'',
            ''BINDING_UNAVAILABLE'', ''CAPABILITY_NOT_FOUND''}
       then code else ''CANVAS_EDIT_INVALID''
   | _ \<Rightarrow> ''CANVAS_EDIT_INVALID'')"

definition is_clarify :: "canvas_edit_error \<Rightarrow> bool" where
  "is_clarify e = (case e of
     XE_MissingParam _ _ \<Rightarrow> True
   | XE_Resolve _ code _ \<Rightarrow>
       code \<in> {''BINDING_NOT_FOUND'', ''MODEL_NOT_FOUND'', ''MODEL_AMBIGUOUS'', ''BINDING_AMBIGUOUS'',
            ''BINDING_UNAVAILABLE''}
   | _ \<Rightarrow> False)"

definition max_operations :: nat where
  "max_operations = 64"

definition max_id_chars :: nat where
  "max_id_chars = 96"

fun edit_error_display :: "canvas_edit_error \<Rightarrow> string" where
  "edit_error_display XE_Empty = ''canvas edit has no operations''"
| "edit_error_display (XE_TooManyOperations count) =
     ''canvas edit has '' @ show_nat count @ '' operations; the limit is '' @ show_nat max_operations"
| "edit_error_display (XE_InvalidId i) = ''invalid canvas node id '' @ bq i"
| "edit_error_display (XE_UnknownNodeType t) = ''unknown node type '' @ bq t"
| "edit_error_display (XE_UnknownNode i) = ''unknown node '' @ bq i"
| "edit_error_display (XE_ParamsNotObject i) = ''node '' @ bq i @ '' params must be an object''"
| "edit_error_display (XE_MissingParam i p) = ''REQUIRED_INPUT_MISSING '' @ i @ ''.'' @ p"
| "edit_error_display (XE_PortMismatch a b) = ''handle type mismatch from '' @ bq a @ '' to '' @ bq b"
| "edit_error_display (XE_MissingPort i p) = ''missing handle '' @ bq p @ '' on node '' @ bq i"
| "edit_error_display (XE_Resolve i code reason) = code @ '' on '' @ bq i @ '': '' @ reason"
| "edit_error_display (XE_Graph reason) = reason"

record compiled_canvas_edit =
  xc_ops :: "proposal_op list"
  xc_preview :: workflow_graph

section \<open>Checks\<close>

definition identifier_byte :: "char \<Rightarrow> bool" where
  "identifier_byte b \<longleftrightarrow> is_ascii_uppercase b \<or> is_ascii_lowercase b \<or> is_ascii_digit b \<or>
     b = CHR ''_'' \<or> b = CHR ''-'' \<or> b = CHR ''.''"

definition is_edit_identifier :: "string \<Rightarrow> bool" where
  "is_edit_identifier value \<longleftrightarrow> value \<noteq> [] \<and> length value \<le> max_id_chars \<and>
     list_all identifier_byte value"

definition ensure_id :: "string \<Rightarrow> canvas_edit_error + unit" where
  "ensure_id i = (if is_edit_identifier i then Inr () else Inl (XE_InvalidId i))"

definition params_object :: "string \<Rightarrow> json \<Rightarrow> canvas_edit_error + json_map" where
  "params_object node_id params =
     (if is_null params then Inr [] else ok_or (as_object params) (XE_ParamsNotObject node_id))"

definition edit_registry_error :: "string \<Rightarrow> registry_error \<Rightarrow> canvas_edit_error" where
  "edit_registry_error node_id e = (case e of
     RE_MissingRequiredParam _ param \<Rightarrow> XE_MissingParam node_id param
   | RE_ParamsNotObject _ \<Rightarrow> XE_ParamsNotObject node_id
   | _ \<Rightarrow> XE_Graph (registry_error_display e))"

definition validate_edited_node :: "node_registry \<Rightarrow> string \<times> graph_node \<Rightarrow> canvas_edit_error + unit" where
  "validate_edited_node reg = (\<lambda>(node_id, n).
     map_err (edit_registry_error node_id) (validate_node_params reg (gn_node_type n) (gn_params n)))"

section \<open>Translation of one edit\<close>

definition merge_defaults :: "json \<Rightarrow> json_map \<Rightarrow> json_map" where
  "merge_defaults defaults params = (case as_object defaults of
     None \<Rightarrow> params
   | Some kvs \<Rightarrow> fold (\<lambda>(k, v) m. if bt_contains m k then m else bt_insert k v m) kvs params)"

definition requested_model_of :: "string option \<Rightarrow> json_map \<Rightarrow> string option" where
  "requested_model_of requested params =
     (case Option.bind requested (\<lambda>m. if trim m = [] then None else Some (trim m)) of
        Some m \<Rightarrow> Some m
      | None \<Rightarrow> Option.bind (bt_get params ''model'') as_str)"

definition resolve_semantics ::
  "catalog_snapshot \<Rightarrow> connector_availability \<Rightarrow> string option \<Rightarrow> string \<Rightarrow> string option \<Rightarrow> string option
   \<Rightarrow> json_map \<Rightarrow> canvas_edit_error + node_semantics_entry option \<times> json_map" where
  "resolve_semantics c av preference node_id capability_id requested_model params =
     (case capability_id of
        None \<Rightarrow> Inr (None, params)
      | Some capability \<Rightarrow>
          let request = \<lparr>rq_capability_id = capability,
                rq_requested_model = requested_model_of requested_model params,
                rq_connector_preference = preference\<rparr>;
              params = bt_remove ''model'' params in
          (case resolve c request av of
             Inl e \<Rightarrow> Inl (XE_Resolve node_id (resolve_error_code e) (resolve_error_display e))
           | Inr r \<Rightarrow>
               Inr (Some \<lparr>ns_capability_id = capability, ns_mode = capability,
                     ns_implementation = Pinned (ri_resolved_model_id r) (ri_binding_id r)\<rparr>,
                 case catalog_binding c (ri_binding_id r) of
                   None \<Rightarrow> params | Some b \<Rightarrow> merge_defaults (cb_defaults b) params)))"

definition typed_edge ::
  "node_registry \<Rightarrow> workflow_graph \<Rightarrow> string \<Rightarrow> string \<Rightarrow> string \<Rightarrow> string \<Rightarrow> canvas_edit_error + graph_edge" where
  "typed_edge reg g source source_handle target target_handle =
     res_bind (ok_or (bt_get (wg_nodes g) source) (XE_UnknownNode source)) (\<lambda>s.
     res_bind (ok_or (bt_get (wg_nodes g) target) (XE_UnknownNode target)) (\<lambda>t.
     res_bind (map_err (\<lambda>_. XE_UnknownNodeType (gn_node_type s)) (registry_definition reg (gn_node_type s))) (\<lambda>sd.
     res_bind (map_err (\<lambda>_. XE_UnknownNodeType (gn_node_type t)) (registry_definition reg (gn_node_type t))) (\<lambda>td.
     res_bind (ok_or (find_port (nd_outputs sd) source_handle) (XE_MissingPort source source_handle)) (\<lambda>output.
     res_bind (ok_or (find_port (nd_inputs td) target_handle) (XE_MissingPort target target_handle)) (\<lambda>input.
     if pd_type output \<noteq> pd_type input
     then Inl (XE_PortMismatch (source @ ''.'' @ source_handle) (target @ ''.'' @ target_handle))
     else Inr \<lparr>ge_from = (source, source_handle), ge_to = (target, target_handle),
                ge_type = port_type_label (pd_type output)\<rparr>))))))"

definition known_node :: "workflow_graph \<Rightarrow> string \<Rightarrow> canvas_edit_error + unit" where
  "known_node g i = (if bt_contains (wg_nodes g) i then Inr () else Inl (XE_UnknownNode i))"

definition node_title :: "string option \<Rightarrow> node_definition \<Rightarrow> string" where
  "node_title title d = (case title of
     Some t \<Rightarrow> if trim t \<noteq> [] then t else nd_title d
   | None \<Rightarrow> nd_title d)"

definition add_node_op ::
  "node_registry \<Rightarrow> catalog_snapshot \<Rightarrow> connector_availability \<Rightarrow> string option \<Rightarrow> string \<Rightarrow> string \<Rightarrow>
   string option \<Rightarrow> (f32 \<times> f32) option \<Rightarrow> string option \<Rightarrow> json \<Rightarrow> canvas_edit_error + proposal_op list" where
  "add_node_op reg c av preference i node_type title position model params =
     res_bind (ensure_id i) (\<lambda>_.
     res_bind (map_err (\<lambda>_. XE_UnknownNodeType node_type) (registry_definition reg node_type)) (\<lambda>d.
     res_bind (params_object i params) (\<lambda>object.
     res_bind (resolve_semantics c av preference i (nd_capability d) model object) (\<lambda>(semantics, object).
     Inr [AddNode i \<lparr>gn_node_type = node_type, gn_title = node_title title d, gn_params = JObject object,
            gn_pos = (case position of None \<Rightarrow> (Fin 0, Fin 0) | Some p \<Rightarrow> p), gn_size = None,
            gn_semantics = semantics\<rparr>]))))"

fun translate_op ::
  "node_registry \<Rightarrow> catalog_snapshot \<Rightarrow> connector_availability \<Rightarrow> string option \<Rightarrow> workflow_graph \<Rightarrow>
   canvas_edit_op \<Rightarrow> canvas_edit_error + proposal_op list" where
  "translate_op reg c av preference g (EditAddNode i node_type title position model params) =
     add_node_op reg c av preference i node_type title position model params"
| "translate_op reg c av preference g (EditUpdateNode i params) =
     res_bind (ensure_id i) (\<lambda>_. res_bind (known_node g i) (\<lambda>_.
     case params of None \<Rightarrow> Inr []
     | Some p \<Rightarrow> res_bind (params_object i p) (\<lambda>object.
         Inr (map (\<lambda>(key, v). SetParam i key None v) object))))"
| "translate_op reg c av preference g (EditMoveNode i position) =
     res_bind (ensure_id i) (\<lambda>_. res_bind (known_node g i) (\<lambda>_. Inr [MoveNode i position]))"
| "translate_op reg c av preference g (EditRemoveNode i) =
     res_bind (ensure_id i) (\<lambda>_. res_bind (known_node g i) (\<lambda>_. Inr [RemoveNode i]))"
| "translate_op reg c av preference g (EditConnect source source_handle target target_handle) =
     res_bind (ensure_id source) (\<lambda>_. res_bind (ensure_id target) (\<lambda>_.
     res_bind (typed_edge reg g source source_handle target target_handle) (\<lambda>e. Inr [AddEdge e])))"
| "translate_op reg c av preference g (EditDisconnect source source_handle target target_handle) =
     res_bind (ensure_id source) (\<lambda>_. res_bind (ensure_id target) (\<lambda>_.
     res_bind (ok_or (List.find (\<lambda>e. ge_from e = (source, source_handle) \<and>
           ge_to e = (target, target_handle)) (wg_edges g))
         (XE_Graph (''no edge from '' @ bq (source @ ''.'' @ source_handle) @ '' to '' @
           bq (target @ ''.'' @ target_handle))))
       (\<lambda>e. Inr [RemoveEdge e])))"

section \<open>Compilation of a plan\<close>

definition apply_edit_op ::
  "node_registry \<Rightarrow> proposal_op \<Rightarrow> workflow_graph \<times> proposal_op list
   \<Rightarrow> canvas_edit_error + workflow_graph \<times> proposal_op list" where
  "apply_edit_op reg op = (\<lambda>(g, ops).
     res_bind (map_err (\<lambda>e. XE_Graph (graph_error_display e)) (apply_op_in_place reg op g))
       (\<lambda>g'. Inr (g', ops @ [op])))"

definition compile_operation ::
  "node_registry \<Rightarrow> catalog_snapshot \<Rightarrow> connector_availability \<Rightarrow> string option \<Rightarrow> canvas_edit_op \<Rightarrow>
   workflow_graph \<times> proposal_op list \<Rightarrow> canvas_edit_error + workflow_graph \<times> proposal_op list" where
  "compile_operation reg c av preference operation s =
     res_bind (translate_op reg c av preference (fst s) operation) (\<lambda>next_ops.
     fold_res (apply_edit_op reg) next_ops s)"

definition compile_canvas_edit_with ::
  "node_registry \<Rightarrow> catalog_snapshot \<Rightarrow> connector_availability \<Rightarrow> string option \<Rightarrow> canvas_edit_plan \<Rightarrow>
   workflow_graph \<Rightarrow> canvas_edit_error + compiled_canvas_edit" where
  "compile_canvas_edit_with reg c av preference plan base =
     (if xp_operations plan = [] then Inl XE_Empty
      else if max_operations < length (xp_operations plan)
      then Inl (XE_TooManyOperations (length (xp_operations plan)))
      else
      res_bind (fold_res (compile_operation reg c av preference) (xp_operations plan) (base, [])) (\<lambda>(g, ops).
      res_bind (check_all (validate_edited_node reg) (wg_nodes g)) (\<lambda>_.
      Inr \<lparr>xc_ops = ops, xc_preview = g\<rparr>)))"

definition compile_canvas_edit ::
  "node_registry \<Rightarrow> catalog_snapshot \<Rightarrow> canvas_edit_plan \<Rightarrow> workflow_graph
   \<Rightarrow> canvas_edit_error + compiled_canvas_edit" where
  "compile_canvas_edit reg c = compile_canvas_edit_with reg c (all_connectors_available c) None"

section \<open>The translation gives fitting operations\<close>

lemma ensure_id_Inr [result_simps]: "ensure_id i = Inr u \<longleftrightarrow> is_edit_identifier i"
  by (simp add: ensure_id_def)

lemma known_node_Inr [result_simps]: "known_node g i = Inr u \<longleftrightarrow> i \<in> dom (bt_get (wg_nodes g))"
  by (auto simp: known_node_def btree_simps)

lemma typed_edge_Inr:
  "typed_edge reg g s sh t th = Inr e \<Longrightarrow> edge_well_typed reg g e \<and> ge_from e = (s, sh) \<and> ge_to e = (t, th)"
  by (auto simp: typed_edge_def result_simps edge_well_typed_def edge_ports_def edge_type_ok_def
      edge_type_matches_def split: if_splits)

text \<open>The entry an added node carries: none without a capability, otherwise one enabled binding of
  the capability on an available connector, the preferred one if there is a preference.\<close>

definition pinned_entry ::
  "catalog_snapshot \<Rightarrow> connector_availability \<Rightarrow> string option \<Rightarrow> string option \<Rightarrow>
   node_semantics_entry option \<Rightarrow> bool" where
  "pinned_entry c av preference capability_id entry \<longleftrightarrow>
     (case capability_id of None \<Rightarrow> entry = None
      | Some capability \<Rightarrow> \<exists>b k. b \<in> set (cs_bindings c) \<and> cb_capability_id b = capability \<and>
          entry = Some \<lparr>ns_capability_id = capability, ns_mode = capability,
            ns_implementation = Pinned (cb_model_id b) (cb_binding_id b)\<rparr> \<and>
          cb_availability b = BindingEnabled \<and> binding_connector b = Some k \<and>
          bt_get av k = Some True \<and> (\<forall>p. preference = Some p \<longrightarrow> k = p))"

definition node_pinned ::
  "node_registry \<Rightarrow> catalog_snapshot \<Rightarrow> connector_availability \<Rightarrow> string option \<Rightarrow> graph_node \<Rightarrow> bool" where
  "node_pinned reg c av preference n \<longleftrightarrow>
     (\<exists>d. bt_get (reg_definitions reg) (gn_node_type n) = Some d \<and>
        pinned_entry c av preference (nd_capability d) (gn_semantics n))"

lemma binding_available_iff:
  "binding_available c b av \<Longrightarrow> cb_availability b = BindingEnabled \<and>
     (\<exists>k. binding_connector b = Some k \<and> bt_get av k = Some True)"
  by (auto simp: binding_available_def binding_connector_def split: if_splits option.splits
      implementation_target.splits)

lemma resolve_semantics_pinned:
  assumes "resolve_semantics c av preference i capability model params = Inr (entry, params')"
  shows "pinned_entry c av preference capability entry"
proof (cases capability)
  case None
  then show ?thesis using assms by (simp add: resolve_semantics_def pinned_entry_def)
next
  case (Some k)
  then obtain r where r: "resolve c \<lparr>rq_capability_id = k, rq_requested_model = requested_model_of model params,
        rq_connector_preference = preference\<rparr> av = Inr r"
    "entry = Some \<lparr>ns_capability_id = k, ns_mode = k,
       ns_implementation = Pinned (ri_resolved_model_id r) (ri_binding_id r)\<rparr>"
    using assms by (auto simp: resolve_semantics_def Let_def split: sum.splits)
  from resolve_ok [OF r(1)] obtain b where b: "b \<in> set (cs_bindings c)" "cb_capability_id b = k"
    "binding_available c b av" "ri_resolved_model_id r = cb_model_id b" "ri_binding_id r = cb_binding_id b"
    "\<forall>x. preference = Some x \<longrightarrow> binding_connector b = Some x"
    by (auto simp: resolved_def)
  from binding_available_iff [OF b(3)] b r(2) show ?thesis
    by (fastforce simp: pinned_entry_def Some)
qed

text \<open>What a translated operation may be in the graph it was translated for.\<close>

definition edit_op_fits ::
  "node_registry \<Rightarrow> catalog_snapshot \<Rightarrow> connector_availability \<Rightarrow> string option \<Rightarrow> workflow_graph \<Rightarrow>
   proposal_op \<Rightarrow> bool" where
  "edit_op_fits reg c av preference g op = (case op of
     AddNode _ n \<Rightarrow> node_pinned reg c av preference n
   | AddEdge e \<Rightarrow> edge_well_typed reg g e
   | SetSemantics _ _ \<Rightarrow> False
   | SpawnNode _ _ _ \<Rightarrow> False
   | _ \<Rightarrow> True)"

lemma add_node_op_fits:
  assumes "add_node_op reg c av preference i t title pos model params = Inr ops"
  shows "\<forall>op\<in>set ops. edit_op_fits reg c av preference g op"
  using assms resolve_semantics_pinned
  by (fastforce simp: add_node_op_def result_simps edit_op_fits_def node_pinned_def)

lemma translate_op_fits:
  assumes "translate_op reg c av preference g x = Inr ops"
  shows "\<forall>op\<in>set ops. edit_op_fits reg c av preference g op"
    and "length ops \<le> 1 \<or> (\<forall>op\<in>set ops. \<not> adds_edge op)"
  using assms
  by (cases x; fastforce simp: result_simps edit_op_fits_def dest: typed_edge_Inr
      add_node_op_fits [of reg c av preference _ _ _ _ _ _ _ g] split: option.splits)
    (cases x; insert assms; auto simp: result_simps adds_edge_def add_node_op_def split: option.splits)

text \<open>Applying such an operation keeps edges well typed and the semantics of the nodes.\<close>

definition all_typed :: "node_registry \<Rightarrow> workflow_graph \<Rightarrow> bool" where
  "all_typed reg g \<longleftrightarrow> (\<forall>e\<in>set (wg_edges g). edge_well_typed reg g e)"

lemma edge_typed_cong:
  assumes "map_option gn_node_type (bt_get (wg_nodes g') (edge_source e)) =
      map_option gn_node_type (bt_get (wg_nodes g) (edge_source e))"
    and "map_option gn_node_type (bt_get (wg_nodes g') (edge_target e)) =
      map_option gn_node_type (bt_get (wg_nodes g) (edge_target e))"
  shows "edge_well_typed reg g' e = edge_well_typed reg g e"
proof -
  have "edge_ports reg g' e = edge_ports reg g e"
    using assms by (cases "bt_get (wg_nodes g) (edge_source e)"; cases "bt_get (wg_nodes g) (edge_target e)")
      (auto simp: edge_ports_def)
  then show ?thesis by (simp add: edge_well_typed_def)
qed

lemma fitting_op_typed:
  assumes "apply_op_in_place reg op g = Inr g'" "edit_op_fits reg c av preference g op" "all_typed reg g"
  shows "all_typed reg g'"
  unfolding all_typed_def
proof
  fix e assume e: "e \<in> set (wg_edges g')"
  have old: "edge_well_typed reg g e"
    using assms e by (cases op) (auto simp: all_typed_def edit_op_fits_def result_simps Let_def
        split: if_splits)
  note ends = edge_well_typed_ends [OF old]
  have "map_option gn_node_type (bt_get (wg_nodes g') i) = map_option gn_node_type (bt_get (wg_nodes g) i)"
    if "i = edge_source e \<or> i = edge_target e" for i
    using assms(1,2) e ends that
    by (cases op) (auto simp: edit_op_fits_def result_simps btree_simps Let_def split: if_splits)
  with old show "edge_well_typed reg g' e" using edge_typed_cong [of g' e g reg] by blast
qed

text \<open>Every node is one of the base, its type and semantics untouched, or was added with its pin.\<close>

definition kept_or_pinned ::
  "node_registry \<Rightarrow> catalog_snapshot \<Rightarrow> connector_availability \<Rightarrow> string option \<Rightarrow> workflow_graph \<Rightarrow>
   workflow_graph \<Rightarrow> bool" where
  "kept_or_pinned reg c av preference base g \<longleftrightarrow>
     (\<forall>i n. bt_get (wg_nodes g) i = Some n \<longrightarrow>
        (\<exists>n0. bt_get (wg_nodes base) i = Some n0 \<and> gn_node_type n = gn_node_type n0 \<and>
           gn_semantics n = gn_semantics n0) \<or>
        node_pinned reg c av preference n)"

lemma node_pinned_cong:
  "gn_node_type m = gn_node_type n \<Longrightarrow> gn_semantics m = gn_semantics n \<Longrightarrow>
     node_pinned reg c av preference m = node_pinned reg c av preference n"
  by (simp add: node_pinned_def)

lemma fitting_op_node:
  assumes "apply_op_in_place reg op g = Inr g'" "edit_op_fits reg c av preference g op"
    and "bt_get (wg_nodes g') i = Some n"
  shows "node_pinned reg c av preference n \<or>
     (\<exists>m. bt_get (wg_nodes g) i = Some m \<and> gn_node_type n = gn_node_type m \<and> gn_semantics n = gn_semantics m)"
  using assms
  by (cases op) (auto simp: edit_op_fits_def result_simps btree_simps Let_def split: if_splits)

lemma fitting_op_kept_or_pinned:
  assumes "apply_op_in_place reg op g = Inr g'" "edit_op_fits reg c av preference g op"
    and "kept_or_pinned reg c av preference base g"
  shows "kept_or_pinned reg c av preference base g'"
  using assms(3) fitting_op_node [OF assms(1,2)] node_pinned_cong
  unfolding kept_or_pinned_def by metis

lemma edit_op_fits_graph:
  "\<not> adds_edge op \<Longrightarrow> edit_op_fits reg c av preference g op = edit_op_fits reg c av preference g' op"
  by (cases op) (simp_all add: edit_op_fits_def adds_edge_def)

section \<open>The whole plan\<close>

lemma apply_edit_op_Inr: "apply_edit_op reg op (g, out) = Inr s \<longleftrightarrow>
    (\<exists>g'. apply_op_in_place reg op g = Inr g' \<and> s = (g', out @ [op]))"
  by (auto simp: apply_edit_op_def result_simps)

lemma fold_apply_edit:
  "fold_res (apply_edit_op reg) ops (g, out) = Inr (g', out') \<Longrightarrow>
     apply_ops reg g ops = Inr g' \<and> out' = out @ ops"
proof (induction ops arbitrary: g out)
  case (Cons op ops)
  then obtain g1 where g1: "apply_op_in_place reg op g = Inr g1"
    "fold_res (apply_edit_op reg) ops (g1, out @ [op]) = Inr (g', out')"
    by (auto simp: apply_edit_op_Inr split: sum.splits)
  from Cons.IH [OF g1(2)] g1(1) show ?case by simp
qed simp

lemma fitting_ops_invariant:
  assumes "apply_ops reg g ops = Inr g'" "\<forall>op\<in>set ops. edit_op_fits reg c av preference g op"
    and "length ops \<le> 1 \<or> (\<forall>op\<in>set ops. \<not> adds_edge op)" "P g"
    and step: "\<And>op g g'. apply_op_in_place reg op g = Inr g' \<Longrightarrow> edit_op_fits reg c av preference g op \<Longrightarrow>
      P g \<Longrightarrow> P g'"
  shows "P g'"
  using assms(1-4)
proof (induction ops arbitrary: g)
  case (Cons op ops)
  then obtain g1 where g1: "apply_op_in_place reg op g = Inr g1" "apply_ops reg g1 ops = Inr g'"
    by (auto simp: result_simps)
  have "P g1" using step [OF g1(1)] Cons.prems(2,4) by simp
  moreover have "\<forall>x\<in>set ops. edit_op_fits reg c av preference g1 x"
    using Cons.prems(2,3) edit_op_fits_graph by (metis Suc_le_mono length_Cons length_greater_0_conv
        length_pos_if_in_set less_one list.set_intros(2) not_less One_nat_def)
  ultimately show ?case using Cons.IH [OF g1(2)] Cons.prems(3) by auto
qed simp

lemma compile_operation_invariant:
  assumes "compile_operation reg c av preference x (g, out) = Inr (g', out')" "P g"
    and step: "\<And>op g g'. apply_op_in_place reg op g = Inr g' \<Longrightarrow> edit_op_fits reg c av preference g op \<Longrightarrow>
      P g \<Longrightarrow> P g'"
  shows "\<exists>ops. out' = out @ ops \<and> apply_ops reg g ops = Inr g' \<and> P g'"
proof -
  from assms(1) obtain ops where ops: "translate_op reg c av preference g x = Inr ops"
    "fold_res (apply_edit_op reg) ops (g, out) = Inr (g', out')"
    by (auto simp: compile_operation_def result_simps)
  have "P g'"
    by (rule fitting_ops_invariant [where P = P, OF _ translate_op_fits [OF ops(1)] assms(2) step])
      (use fold_apply_edit [OF ops(2)] in auto)
  with fold_apply_edit [OF ops(2)] show ?thesis by auto
qed

lemma compiled_edit:
  assumes "compile_canvas_edit_with reg c av preference plan base = Inr x" "P base"
    and op: "\<And>op g g'. apply_op_in_place reg op g = Inr g' \<Longrightarrow> edit_op_fits reg c av preference g op \<Longrightarrow>
      P g \<Longrightarrow> P g'"
  shows "apply_ops reg base (xc_ops x) = Inr (xc_preview x)" and "P (xc_preview x)"
    and "\<forall>p\<in>set (wg_nodes (xc_preview x)). validate_edited_node reg p = Inr ()"
proof -
  from assms(1) obtain g ops where run: "fold_res (compile_operation reg c av preference)
        (xp_operations plan) (base, []) = Inr (g, ops)"
    and checked: "check_all (validate_edited_node reg) (wg_nodes g) = Inr ()"
    and x: "x = \<lparr>xc_ops = ops, xc_preview = g\<rparr>"
    by (auto simp: compile_canvas_edit_with_def result_simps split: if_splits)
  let ?Q = "\<lambda>s. apply_ops reg base (snd s) = Inr (fst s) \<and> P (fst s)"
  have step: "?Q s'" if "?Q s" "compile_operation reg c av preference y s = Inr s'" for y s s'
  proof -
    have "compile_operation reg c av preference y (fst s, snd s) = Inr (fst s', snd s')" "P (fst s)"
      using that by simp_all
    from compile_operation_invariant [where P = P, OF this] op obtain more where
      "snd s' = snd s @ more" "apply_ops reg (fst s) more = Inr (fst s')" "P (fst s')" by blast
    with that(1) show ?thesis by (simp add: apply_ops_append)
  qed
  have "?Q (g, ops)"
    by (rule fold_res_invariant [where P = ?Q, OF run]) (use assms(2) in simp, erule (1) step)
  then show "apply_ops reg base (xc_ops x) = Inr (xc_preview x)" "P (xc_preview x)" by (simp_all add: x)
  show "\<forall>p\<in>set (wg_nodes (xc_preview x)). validate_edited_node reg p = Inr ()"
    using checked by (simp add: x check_all_Inr)
qed

text \<open>C33: A compiled canvas edit is exactly its operations: applied to the base graph they give the
  preview, so a proposal made of them previews the same graph.  Every node of the preview has a known type
  and parameters its schema admits, and if the edges of the base join ports of fitting types, so do those of
  the preview, whatever was added, retyped by removal, or connected on the way.\<close>

theorem canvas_edit_sound:
  assumes "compile_canvas_edit_with reg c av preference plan base = Inr x" "bt_wf (wg_nodes base)"
  shows "apply_ops reg base (xc_ops x) = Inr (xc_preview x) \<and> bt_wf (wg_nodes (xc_preview x)) \<and>
     (\<forall>i n. bt_get (wg_nodes (xc_preview x)) i = Some n \<longrightarrow>
        (\<exists>d m. bt_get (reg_definitions reg) (gn_node_type n) = Some d \<and> gn_params n = JObject m \<and>
           params_conform (nd_params_schema d) m {})) \<and>
     ((\<forall>e\<in>set (wg_edges base). edge_well_typed reg base e) \<longrightarrow>
        (\<forall>e\<in>set (wg_edges (xc_preview x)). edge_well_typed reg (xc_preview x) e)) \<and>
     (\<forall>draft p. dr_ops draft = xc_ops x \<and> preview_proposal compare reg base current draft = Inr p \<longrightarrow>
        pp_preview_graph p = xc_preview x)"
proof (intro conjI allI impI ballI)
  show ops: "apply_ops reg base (xc_ops x) = Inr (xc_preview x)"
    by (rule compiled_edit(1) [OF assms(1), where P = "\<lambda>_. True"]) simp_all
  show "bt_wf (wg_nodes (xc_preview x))" by (rule apply_ops_wf [OF ops assms(2)])
  show "\<exists>d m. bt_get (reg_definitions reg) (gn_node_type n) = Some d \<and> gn_params n = JObject m \<and>
      params_conform (nd_params_schema d) m {}" if "bt_get (wg_nodes (xc_preview x)) i = Some n" for i n
  proof -
    have "validate_edited_node reg (i, n) = Inr ()"
      using compiled_edit(3) [OF assms(1), where P = "\<lambda>_. True"] map_of_SomeD [OF that] by blast
    then show ?thesis
      by (auto simp: validate_edited_node_def validate_node_params_def validate_params_def result_simps)
  qed
  show "edge_well_typed reg (xc_preview x) e"
    if "\<forall>e\<in>set (wg_edges base). edge_well_typed reg base e" "e \<in> set (wg_edges (xc_preview x))" for e
    using compiled_edit(2) [OF assms(1), where P = "all_typed reg"] fitting_op_typed that
    unfolding all_typed_def by blast
  show "pp_preview_graph p = xc_preview x"
    if "dr_ops draft = xc_ops x \<and> preview_proposal compare reg base current draft = Inr p" for draft p
    using that ops by (auto simp: preview_proposal_def result_simps split: if_splits)
qed

text \<open>C34: The agent never chooses what runs behind a node's back.  Every node of the preview either is a
  node of the base with the same type and semantics, or was added with the semantics its type asks for: none
  if the type has no capability, otherwise a pin to an enabled binding of that capability on a connector
  that is available, and is the preferred one if a preference was given.\<close>

theorem canvas_edit_pinned:
  assumes "compile_canvas_edit_with reg c av preference plan base = Inr x"
    and "bt_get (wg_nodes (xc_preview x)) i = Some n"
  shows "(\<exists>n0. bt_get (wg_nodes base) i = Some n0 \<and> gn_node_type n = gn_node_type n0 \<and>
       gn_semantics n = gn_semantics n0) \<or>
     (\<exists>d. bt_get (reg_definitions reg) (gn_node_type n) = Some d \<and>
       (case nd_capability d of None \<Rightarrow> gn_semantics n = None
        | Some capability \<Rightarrow> \<exists>b k. b \<in> set (cs_bindings c) \<and> cb_capability_id b = capability \<and>
            gn_semantics n = Some \<lparr>ns_capability_id = capability, ns_mode = capability,
              ns_implementation = Pinned (cb_model_id b) (cb_binding_id b)\<rparr> \<and>
            cb_availability b = BindingEnabled \<and> binding_connector b = Some k \<and>
            bt_get av k = Some True \<and> (\<forall>p. preference = Some p \<longrightarrow> k = p)))"
proof -
  have "kept_or_pinned reg c av preference base (xc_preview x)"
    by (rule compiled_edit(2) [OF assms(1)])
      (auto simp: kept_or_pinned_def [of _ _ _ _ base base] intro: fitting_op_kept_or_pinned)
  with assms(2) show ?thesis
    unfolding kept_or_pinned_def node_pinned_def pinned_entry_def by blast
qed

definition sample_edit :: canvas_edit_plan where
  "sample_edit = \<lparr>xp_operations = [EditAddNode ''b'' ''text_to_image'' None None None JNull,
     EditConnect ''b'' ''out'' ''a'' ''prompt'', EditMoveNode ''a'' (Fin 1, Fin 2)], xp_summary = None\<rparr>"

lemma sample_edit_compiles:
  "\<exists>x. compile_canvas_edit_with semantic_registry sample_catalog (all_connectors_available sample_catalog) None
     sample_edit semantic_graph = Inr x \<and> bt_contains (wg_nodes (xc_preview x)) ''b''"
proof -
  have "case compile_canvas_edit_with semantic_registry sample_catalog
      (all_connectors_available sample_catalog) None sample_edit semantic_graph of
      Inr x \<Rightarrow> bt_contains (wg_nodes (xc_preview x)) ''b'' | Inl _ \<Rightarrow> False" by code_simp
  then show ?thesis by (auto split: sum.splits)
qed

lemma canvas_edit_sound_witness:
  "\<exists>x. compile_canvas_edit_with semantic_registry sample_catalog (all_connectors_available sample_catalog) None
     sample_edit semantic_graph = Inr x \<and>
     apply_ops semantic_registry semantic_graph (xc_ops x) = Inr (xc_preview x)"
proof -
  obtain x where x: "compile_canvas_edit_with semantic_registry sample_catalog
      (all_connectors_available sample_catalog) None sample_edit semantic_graph = Inr x"
    using sample_edit_compiles by blast
  have "bt_wf (wg_nodes semantic_graph)" by (simp add: semantic_graph_def)
  from canvas_edit_sound [OF x this] x show ?thesis by blast
qed

lemma canvas_edit_pinned_witness:
  "\<exists>(x :: compiled_canvas_edit) n. bt_get (wg_nodes (xc_preview x)) ''b'' = Some n \<and>
     node_pinned semantic_registry sample_catalog (all_connectors_available sample_catalog) None n"
proof -
  obtain x where x: "compile_canvas_edit_with semantic_registry sample_catalog
      (all_connectors_available sample_catalog) None sample_edit semantic_graph = Inr x"
    and "bt_contains (wg_nodes (xc_preview x)) ''b''"
    using sample_edit_compiles by blast
  then obtain n where n: "bt_get (wg_nodes (xc_preview x)) ''b'' = Some n" by (auto simp: btree_simps)
  have "bt_get (wg_nodes semantic_graph) ''b'' = None" by (simp add: semantic_graph_def)
  with canvas_edit_pinned [OF x n] have "node_pinned semantic_registry sample_catalog
      (all_connectors_available sample_catalog) None n"
    by (auto simp: node_pinned_def pinned_entry_def)
  with n show ?thesis by blast
qed

end
