(* ===== verification/Canvas_Context.thy ===== *)
theory Canvas_Context
  imports Canvas_Edit
begin

text \<open>
  What the agent is shown of a canvas (crates/agent/src/canvas_ops.rs): a compact graph bounded in nodes,
  edges and parameters, with secrets replaced, and the redaction of a whole graph.  The budget of a
  parameter tree is passed through the recursion as the code mutates it.
\<close>

section \<open>Bounds\<close>

definition max_canvas_nodes :: nat where "max_canvas_nodes = 64"
definition max_canvas_edges :: nat where "max_canvas_edges = 96"
definition max_selection_nodes :: nat where "max_selection_nodes = 64"
definition max_identifier_chars :: nat where "max_identifier_chars = 96"
definition max_title_chars :: nat where "max_title_chars = 120"
definition max_param_depth :: nat where "max_param_depth = 4"
definition max_param_items :: nat where "max_param_items = 12"
definition max_param_key_chars :: nat where "max_param_key_chars = 64"
definition max_param_text_chars :: nat where "max_param_text_chars = 768"
definition max_param_value_chars :: nat where "max_param_value_chars = 240"

lemmas canvas_limits = max_canvas_nodes_def max_canvas_edges_def max_selection_nodes_def
  max_identifier_chars_def max_title_chars_def max_param_depth_def max_param_items_def
  max_param_key_chars_def max_param_text_chars_def max_param_value_chars_def

definition is_bounded_component :: "string \<Rightarrow> nat \<Rightarrow> bool" where
  "is_bounded_component value max_chars \<longleftrightarrow> length value \<le> max_chars \<and> list_all identifier_byte value"


section \<open>Secrets\<close>

definition sensitive_key_parts :: "string list" where
  "sensitive_key_parts = [''token'', ''secret'', ''password'', ''authorization'', ''api_key'', ''apikey'',
     ''credential'', ''access_key'', ''private_key'', ''cookie'', ''url'', ''uri'', ''path'']"

definition is_sensitive_param_key :: "string \<Rightarrow> bool" where
  "is_sensitive_param_key key = list_ex (contains (to_ascii_lowercase key)) sensitive_key_parts"

definition known_prefixes :: "string list" where
  "known_prefixes = [''sk-'', ''sk_live_'', ''rk_live_'', ''ghp_'', ''gho_'', ''ghu_'', ''ghs_'', ''ghr_'',
     ''github_pat_'', ''hf_'', ''xoxb-'', ''xoxp-'', ''xoxa-'', ''xoxr-'', ''npm_'', ''pypi-'', ''aiza'',
     ''ya29.'']"

definition is_ascii_alphabetic :: "char \<Rightarrow> bool" where
  "is_ascii_alphabetic c \<longleftrightarrow> is_ascii_uppercase c \<or> is_ascii_lowercase c"

definition looks_like_credential_segment :: "string \<Rightarrow> bool" where
  "looks_like_credential_segment whole =
     (let segment = trim_matches (\<lambda>c. \<not> identifier_byte c) whole;
          lower = to_ascii_lowercase segment;
          known_prefix = list_ex (starts_with lower) known_prefixes;
          aws_access_key = (length segment = 20 \<and>
            (starts_with segment ''AKIA'' \<or> starts_with segment ''ASIA'') \<and>
            list_all (\<lambda>c. is_ascii_uppercase c \<or> is_ascii_digit c) segment);
          jwt = (starts_with lower ''eyj'' \<and> length (filter (\<lambda>c. c = CHR ''.'') segment) = 2 \<and>
            40 \<le> length segment);
          opaque_token = (32 \<le> length segment \<and> \<not> list_ex is_whitespace segment \<and>
            list_ex is_ascii_alphabetic segment \<and> list_ex is_ascii_digit segment \<and>
            list_all (\<lambda>c. identifier_byte c \<or> c = CHR ''='' \<or> c = CHR ''+'') segment)
      in known_prefix \<or> aws_access_key \<or> jwt \<or> opaque_token)"

definition is_sensitive_param_value :: "string \<Rightarrow> bool" where
  "is_sensitive_param_value value =
     (let lower = to_ascii_lowercase value in
      contains lower ''bearer '' \<or>
      list_ex (contains lower) [''api_key'', ''apikey'', ''access_key'', ''private_key'',
        ''client_secret'', ''authorization''] \<or>
      list_ex looks_like_credential_segment (split_whitespace value) \<or>
      starts_with value ''/Users/'' \<or> starts_with value ''/private/'' \<or> starts_with value ''file://'')"

definition sensitive_key :: "string option \<Rightarrow> bool" where
  "sensitive_key key = (case key of None \<Rightarrow> False | Some k \<Rightarrow> is_sensitive_param_key k)"

definition redacted :: string where "redacted = ''[redacted]''"
definition truncated :: string where "truncated = ''[truncated]''"

section \<open>Parameters within a budget\<close>

record param_budget =
  pb_items :: nat
  pb_text_chars :: nat

text \<open>The depth bound of the code makes the recursion end.\<close>

function (sequential) safe_canvas_value ::
    "string option \<Rightarrow> json \<Rightarrow> nat \<Rightarrow> param_budget \<Rightarrow> json \<times> param_budget"
  and safe_canvas_entries ::
    "(string \<times> json) list \<Rightarrow> nat \<Rightarrow> json_map \<Rightarrow> param_budget \<Rightarrow> json_map \<times> param_budget"
  and safe_canvas_items :: "json list \<Rightarrow> nat \<Rightarrow> json list \<Rightarrow> param_budget \<Rightarrow> json list \<times> param_budget" where
  "safe_canvas_value key value depth budget =
     (if max_param_depth \<le> depth \<or> pb_items budget = 0 then (JString truncated, budget)
      else
      let budget = budget\<lparr>pb_items := pb_items budget - 1\<rparr> in
      if sensitive_key key then (JString redacted, budget)
      else case value of
        JObject object \<Rightarrow>
          (case safe_canvas_entries object (Suc depth) [] budget of (projected, budget) \<Rightarrow>
            (JObject projected, budget))
      | JArray items \<Rightarrow>
          (case safe_canvas_items items (Suc depth) [] budget of (projected, budget) \<Rightarrow>
            (JArray projected, budget))
      | JString text \<Rightarrow>
          if is_sensitive_param_value text then (JString redacted, budget)
          else
            let text = take_chars (min max_param_value_chars (pb_text_chars budget)) text in
            (JString text, budget\<lparr>pb_text_chars := pb_text_chars budget - char_count text\<rparr>)
      | scalar \<Rightarrow> (scalar, budget))"
| "safe_canvas_entries [] depth projected budget = (projected, budget)"
| "safe_canvas_entries ((key, value) # object) depth projected budget =
     (if pb_items budget = 0 then (projected, budget)
      else if is_bounded_component key max_param_key_chars
      then case safe_canvas_value (Some key) value depth budget of (v, budget) \<Rightarrow>
        safe_canvas_entries object depth (bt_insert key v projected) budget
      else safe_canvas_entries object depth projected budget)"
| "safe_canvas_items [] depth projected budget = (projected, budget)"
| "safe_canvas_items (item # items) depth projected budget =
     (if pb_items budget = 0 then (projected, budget)
      else case safe_canvas_value None item depth budget of (v, budget) \<Rightarrow>
        safe_canvas_items items depth (projected @ [v]) budget)"
  by pat_completeness auto

termination
  by (relation "measures
      [\<lambda>x. case x of Inl (_, _, depth, _) \<Rightarrow> max_param_depth - depth
         | Inr (Inl (_, depth, _, _)) \<Rightarrow> max_param_depth - depth
         | Inr (Inr (_, depth, _, _)) \<Rightarrow> max_param_depth - depth,
       \<lambda>x. case x of Inl _ \<Rightarrow> 0 | Inr (Inl (object, _)) \<Rightarrow> length object
         | Inr (Inr (items, _)) \<Rightarrow> length items]") auto

definition safe_canvas_params :: "json \<Rightarrow> json" where
  "safe_canvas_params value = fst (safe_canvas_value None value 0
     \<lparr>pb_items = max_param_items, pb_text_chars = max_param_text_chars\<rparr>)"


section \<open>The compact graph and its context\<close>

record compact_canvas_node =
  kn_id :: string
  kn_node_type :: string
  kn_title :: string
  kn_params :: json
  kn_pos :: "f32 \<times> f32"

record compact_canvas_graph =
  kg_node_count :: nat
  kg_edge_count :: nat
  kg_nodes :: "compact_canvas_node list"
  kg_edges :: "graph_edge list"





record canvas_gate_state =
  gs_pending_proposal :: bool
  gs_pending_confirmation :: bool

record canvas_ops_context =
  xo_schema_version :: u32
  xo_workspace_id :: string
  xo_base_version_id :: string
  xo_graph :: compact_canvas_graph
  xo_selection :: "string list"
  xo_gates :: canvas_gate_state
  xo_preferred_model_id :: "string option"


definition with_preferred_model_id :: "string option \<Rightarrow> canvas_ops_context \<Rightarrow> canvas_ops_context" where
  "with_preferred_model_id model_id x = x\<lparr>xo_preferred_model_id :=
     Option.bind model_id (\<lambda>value. if trim value = [] then None else Some (trim value))\<rparr>"

section \<open>Redaction of a graph\<close>





section \<open>The shape of a projection\<close>

text \<open>The recursion as a relation between input and result: one rule for each way through the code.\<close>

abbreviation spend :: "param_budget \<Rightarrow> param_budget" where
  "spend b \<equiv> b\<lparr>pb_items := pb_items b - Suc 0\<rparr>"

inductive projected :: "string option \<Rightarrow> json \<Rightarrow> nat \<Rightarrow> param_budget \<Rightarrow> json \<Rightarrow> param_budget \<Rightarrow> bool"
  and projected_entries ::
    "(string \<times> json) list \<Rightarrow> nat \<Rightarrow> json_map \<Rightarrow> param_budget \<Rightarrow> json_map \<Rightarrow> param_budget \<Rightarrow> bool"
  and projected_items :: "json list \<Rightarrow> nat \<Rightarrow> json list \<Rightarrow> param_budget \<Rightarrow> json list \<Rightarrow> param_budget \<Rightarrow> bool"
where
  cut_off: "max_param_depth \<le> depth \<or> pb_items b = 0 \<Longrightarrow> projected key v depth b (JString truncated) b"
| key_hidden: "depth < max_param_depth \<Longrightarrow> 0 < pb_items b \<Longrightarrow> sensitive_key key \<Longrightarrow>
    projected key v depth b (JString redacted) (spend b)"
| object_projected: "depth < max_param_depth \<Longrightarrow> 0 < pb_items b \<Longrightarrow> \<not> sensitive_key key \<Longrightarrow>
    projected_entries m (Suc depth) [] (spend b) m' b' \<Longrightarrow> projected key (JObject m) depth b (JObject m') b'"
| array_projected: "depth < max_param_depth \<Longrightarrow> 0 < pb_items b \<Longrightarrow> \<not> sensitive_key key \<Longrightarrow>
    projected_items vs (Suc depth) [] (spend b) vs' b' \<Longrightarrow> projected key (JArray vs) depth b (JArray vs') b'"
| text_hidden: "depth < max_param_depth \<Longrightarrow> 0 < pb_items b \<Longrightarrow> \<not> sensitive_key key \<Longrightarrow>
    is_sensitive_param_value s \<Longrightarrow> projected key (JString s) depth b (JString redacted) (spend b)"
| text_shortened: "depth < max_param_depth \<Longrightarrow> 0 < pb_items b \<Longrightarrow> \<not> sensitive_key key \<Longrightarrow>
    \<not> is_sensitive_param_value s \<Longrightarrow> s' = take_chars (min max_param_value_chars (pb_text_chars b)) s \<Longrightarrow>
    projected key (JString s) depth b (JString s')
      (b\<lparr>pb_items := pb_items b - Suc 0, pb_text_chars := pb_text_chars b - char_count s'\<rparr>)"
| scalar_kept: "depth < max_param_depth \<Longrightarrow> 0 < pb_items b \<Longrightarrow> \<not> sensitive_key key \<Longrightarrow>
    v = JNull \<or> (\<exists>x. v = JBool x) \<or> (\<exists>x. v = JNumber x) \<Longrightarrow> projected key v depth b v (spend b)"
| entries_done: "projected_entries [] depth out b out b"
| entries_stop: "pb_items b = 0 \<Longrightarrow> projected_entries ((k, v) # m) depth out b out b"
| entries_next: "0 < pb_items b \<Longrightarrow> is_bounded_component k max_param_key_chars \<Longrightarrow>
    projected (Some k) v depth b v' b1 \<Longrightarrow> projected_entries m depth (bt_insert k v' out) b1 m' b' \<Longrightarrow>
    projected_entries ((k, v) # m) depth out b m' b'"
| entries_skip: "0 < pb_items b \<Longrightarrow> \<not> is_bounded_component k max_param_key_chars \<Longrightarrow>
    projected_entries m depth out b m' b' \<Longrightarrow> projected_entries ((k, v) # m) depth out b m' b'"
| items_done: "projected_items [] depth out b out b"
| items_stop: "pb_items b = 0 \<Longrightarrow> projected_items (v # vs) depth out b out b"
| items_next: "0 < pb_items b \<Longrightarrow> projected None v depth b v' b1 \<Longrightarrow>
    projected_items vs depth (out @ [v']) b1 vs' b' \<Longrightarrow> projected_items (v # vs) depth out b vs' b'"



section \<open>What a projection may contain\<close>


definition marker :: "string \<Rightarrow> bool" where
  "marker s \<longleftrightarrow> s = redacted \<or> s = truncated"






lemma redacted_not_truncated [simp]: "redacted \<noteq> truncated" "truncated \<noteq> redacted"
  by (simp_all add: redacted_def truncated_def)

lemma marker_simps [simp]: "marker redacted" "marker truncated"
  by (simp_all add: marker_def)























text \<open>C40: The bound on the number of values does not hold for the values cut off by depth: a list that lies
  three levels down is projected to a list of as many cut-off markers as it has elements, none of which is paid
  for, so the size of the projection is not bounded by the twelve values and 768 characters of the budget.\<close>

theorem cut_off_unbounded:
  "safe_canvas_params (JObject [(''a'', JObject [(''b'', JObject [(''c'', JArray vs)])])]) =
     JObject [(''a'', JObject [(''b'', JObject [(''c'', JArray (map (\<lambda>_. JString truncated) vs))])])]"
proof -
  have items: "safe_canvas_items vs (Suc (Suc (Suc (Suc 0)))) out b = (out @ map (\<lambda>_. JString truncated) vs, b)"
    if "0 < pb_items b" for out b
    using that by (induction vs arbitrary: out) (simp_all add: safe_canvas_value.simps max_param_depth_def)
  have keys: "\<not> is_sensitive_param_key ''a''" "\<not> is_sensitive_param_key ''b''" "\<not> is_sensitive_param_key ''c''"
    "is_bounded_component ''a'' 64" "is_bounded_component ''b'' 64" "is_bounded_component ''c'' 64"
    by code_simp+
  show ?thesis
    by (simp add: safe_canvas_params_def safe_canvas_value.simps [of _ "JObject _"]
        safe_canvas_value.simps [of _ "JArray _"] items keys sensitive_key_def canvas_limits Let_def)
qed

section \<open>Redaction\<close>



lemma redacted_not_sensitive [simp]: "\<not> is_sensitive_param_value redacted"
  by code_simp










end
