(* ===== verification/Turn_Mode.thy ===== *)
theory Turn_Mode
  imports Prelude
begin

text \<open>
  Turn modes of the agent, the output each must produce and the tools it is offered
  (crates/agent/src/turn_mode.rs and the dispatch of canvas_tools.rs).
\<close>

datatype turn_mode = ModeChat | ModeCreateWorkflow | ModeModifyWorkflow | ModeDebugWorkflow
  | ModeRunRequest | ModeRoute

datatype output_contract = ReplyJson | CanvasEditJson | RunRequestJson | RouteJson

datatype agent_skill = SkillChat | SkillCreateWorkflow | SkillModifyWorkflow | SkillFixError
  | SkillRunRequest | SkillSweep | SkillRoute

datatype turn_mode_source = SourceExplicit | SourceModel

record turn_classification =
  tc_mode :: turn_mode
  tc_source :: turn_mode_source

fun output_contract_of :: "turn_mode \<Rightarrow> output_contract" where
  "output_contract_of ModeChat = ReplyJson"
| "output_contract_of ModeCreateWorkflow = CanvasEditJson"
| "output_contract_of ModeModifyWorkflow = CanvasEditJson"
| "output_contract_of ModeDebugWorkflow = CanvasEditJson"
| "output_contract_of ModeRunRequest = RunRequestJson"
| "output_contract_of ModeRoute = RouteJson"

fun agent_skill_of :: "turn_mode \<Rightarrow> agent_skill" where
  "agent_skill_of ModeChat = SkillChat"
| "agent_skill_of ModeCreateWorkflow = SkillCreateWorkflow"
| "agent_skill_of ModeModifyWorkflow = SkillModifyWorkflow"
| "agent_skill_of ModeDebugWorkflow = SkillFixError"
| "agent_skill_of ModeRunRequest = SkillRunRequest"
| "agent_skill_of ModeRoute = SkillRoute"

definition uses_graph_context :: "turn_mode \<Rightarrow> bool" where
  "uses_graph_context m \<longleftrightarrow> m \<notin> {ModeChat, ModeRoute}"

definition uses_canvas_context :: "turn_mode \<Rightarrow> bool" where
  "uses_canvas_context m \<longleftrightarrow> m \<noteq> ModeRoute"

fun turn_mode_display :: "turn_mode \<Rightarrow> string" where
  "turn_mode_display ModeChat = ''chat''"
| "turn_mode_display ModeCreateWorkflow = ''create_workflow''"
| "turn_mode_display ModeModifyWorkflow = ''modify_workflow''"
| "turn_mode_display ModeDebugWorkflow = ''debug_workflow''"
| "turn_mode_display ModeRunRequest = ''run_request''"
| "turn_mode_display ModeRoute = ''route''"

fun contract_file_name :: "output_contract \<Rightarrow> string" where
  "contract_file_name ReplyJson = ''reply.json''"
| "contract_file_name CanvasEditJson = ''canvas_edit.json''"
| "contract_file_name RunRequestJson = ''run_request.json''"
| "contract_file_name RouteJson = ''route.json''"

fun contract_display :: "output_contract \<Rightarrow> string" where
  "contract_display ReplyJson = ''reply_json''"
| "contract_display CanvasEditJson = ''canvas_edit_json''"
| "contract_display RunRequestJson = ''run_request_json''"
| "contract_display RouteJson = ''route_json''"

fun skill_file_name :: "agent_skill \<Rightarrow> string" where
  "skill_file_name SkillChat = ''chat.md''"
| "skill_file_name SkillCreateWorkflow = ''create_workflow.md''"
| "skill_file_name SkillModifyWorkflow = ''modify_workflow.md''"
| "skill_file_name SkillFixError = ''fix_error.md''"
| "skill_file_name SkillRunRequest = ''run_request.md''"
| "skill_file_name SkillSweep = ''sweep.md''"
| "skill_file_name SkillRoute = ''route.md''"

definition explicit_turn_mode :: "turn_mode \<Rightarrow> turn_classification" where
  "explicit_turn_mode mode = \<lparr>tc_mode = mode, tc_source = SourceExplicit\<rparr>"

section \<open>Tools\<close>

text \<open>The names offered (namespace and tools), and the handler a call reaches; \<open>state_file\<close> says whether
  the canvas state is on disk.\<close>

definition dynamic_tools :: "bool \<Rightarrow> output_contract option \<Rightarrow> (string \<times> string list) list" where
  "dynamic_tools state_file contract =
     (if contract = Some RouteJson then [(''agent'', [''select_turn_mode''])]
      else if \<not> state_file then []
      else [(''canvas'', case contract of
          Some CanvasEditJson \<Rightarrow> [''catalog'', ''inspect'', ''edit'']
        | Some RunRequestJson \<Rightarrow> [''inspect'', ''run'', ''wait'']
        | Some ReplyJson \<Rightarrow> [''inspect'', ''submit_reply'']
        | _ \<Rightarrow> [''inspect''])])"

datatype tool_handler = HandleCatalog | HandleInspect | HandleEdit | HandleRun | HandleWait
  | HandleReply | HandleRoute | HandleUnsupported

definition dispatch_dynamic_tool ::
  "bool \<Rightarrow> string option \<Rightarrow> string option \<Rightarrow> output_contract option \<Rightarrow> tool_handler" where
  "dispatch_dynamic_tool matches_turn namespace tool contract =
     (if \<not> matches_turn then HandleUnsupported
      else if namespace = Some ''canvas'' \<and> tool = Some ''catalog'' \<and> contract = Some CanvasEditJson
      then HandleCatalog
      else if namespace = Some ''canvas'' \<and> tool = Some ''inspect'' then HandleInspect
      else if namespace = Some ''canvas'' \<and> tool = Some ''edit'' \<and> contract = Some CanvasEditJson
      then HandleEdit
      else if namespace = Some ''canvas'' \<and> tool = Some ''run'' \<and> contract = Some RunRequestJson
      then HandleRun
      else if namespace = Some ''canvas'' \<and> tool = Some ''wait'' \<and> contract = Some RunRequestJson
      then HandleWait
      else if namespace = Some ''canvas'' \<and> tool = Some ''submit_reply'' \<and> contract = Some ReplyJson
      then HandleReply
      else if namespace = Some ''agent'' \<and> tool = Some ''select_turn_mode'' \<and> contract = Some RouteJson
      then HandleRoute
      else HandleUnsupported)"

text \<open>Every tool a turn is offered is handled in that turn, and only turns that edit reach the handler
  that writes the canvas, only run requests the one that asks for a run.\<close>

lemma offered_tools_handled:
  assumes "(namespace, tools) \<in> set (dynamic_tools state_file contract)" "tool \<in> set tools"
  shows "dispatch_dynamic_tool True (Some namespace) (Some tool) contract \<noteq> HandleUnsupported"
  using assms
  by (auto simp: dynamic_tools_def dispatch_dynamic_tool_def split: if_splits option.splits
      output_contract.splits)

lemma edit_needs_edit_mode:
  assumes "dispatch_dynamic_tool matches_turn namespace tool (Some (output_contract_of mode)) = HandleEdit"
  shows "mode \<in> {ModeCreateWorkflow, ModeModifyWorkflow, ModeDebugWorkflow}"
  using assms by (cases mode) (auto simp: dispatch_dynamic_tool_def split: if_splits)

lemma run_needs_run_mode:
  assumes "dispatch_dynamic_tool matches_turn namespace tool (Some (output_contract_of mode)) = HandleRun"
  shows "mode = ModeRunRequest"
  using assms by (cases mode) (auto simp: dispatch_dynamic_tool_def split: if_splits)

end
