(* ===== verification/Artifact_Store.thy ===== *)
theory Artifact_Store
  imports Store_Properties
begin

text \<open>
  The tables around artifacts: the publish journal (crates/store/src/artifact_journal_records.rs),
  the node cache (node_cache_records.rs), uploads (upload_records.rs) and image processing jobs
  (image_processing_job_records.rs), one function per operation.  Artifacts, runs, steps, tasks
  and terminalizations are those of the run store.
\<close>

section \<open>Rows\<close>

record new_artifact_publish_journal =
  nj_operation_key :: string
  nj_run_id :: string
  nj_run_step_id :: string
  nj_staged_path :: string
  nj_content_sha256 :: string
  nj_owner_id :: string
  nj_expires_after_seconds :: int

record artifact_journal_record =
  aj_operation_key :: string
  aj_run_id :: string
  aj_run_step_id :: string
  aj_staged_path :: string
  aj_published_path :: "string option"
  aj_artifact_id :: "string option"
  aj_content_sha256 :: string
  aj_state :: string
  aj_owner_id :: string
  aj_expires_at :: timestamp
  aj_created_at :: timestamp
  aj_updated_at :: timestamp

record new_node_cache_entry =
  nn_workspace_id :: string
  nn_provider :: string
  nn_node_type :: string
  nn_node_id :: string
  nn_cache_key :: string
  nn_input_hash_json :: string
  nn_artifact_ids_json :: string

record node_cache_record =
  nh_id :: string
  nh_workspace_id :: string
  nh_provider :: string
  nh_node_type :: string
  nh_node_id :: string
  nh_cache_key :: string
  nh_input_hash_json :: string
  nh_artifact_ids_json :: string
  nh_created_at :: timestamp
  nh_last_hit_at :: "timestamp option"

record new_upload =
  nu_workspace_id :: string
  nu_filename :: string
  nu_file_path :: string
  nu_sha256 :: string
  nu_mime :: "string option"

record upload_record =
  ul_id :: string
  ul_workspace_id :: string
  ul_filename :: string
  ul_file_path :: string
  ul_sha256 :: string
  ul_mime :: "string option"
  ul_created_at :: timestamp

record new_image_job =
  ni_workspace_id :: string
  ni_source_node_id :: string
  ni_intent :: string
  ni_profile :: "string option"

record image_job_update =
  iu_status :: string
  iu_provider_task_id :: "string option"
  iu_provider :: "string option"
  iu_model :: "string option"
  iu_result_node_id :: "string option"
  iu_output_upload_id :: "string option"
  iu_error :: "string option"

record image_job_record =
  ij_id :: string
  ij_workspace_id :: string
  ij_source_node_id :: string
  ij_result_node_id :: "string option"
  ij_intent :: string
  ij_profile :: "string option"
  ij_provider_task_id :: "string option"
  ij_provider :: "string option"
  ij_model :: "string option"
  ij_output_upload_id :: "string option"
  ij_status :: string
  ij_error :: "string option"
  ij_created_at :: timestamp
  ij_updated_at :: timestamp
  ij_completed_at :: "timestamp option"

record adb =
  ad_db :: db
  ad_journal :: "artifact_journal_record list"
  ad_cache :: "node_cache_record list"
  ad_uploads :: "upload_record list"
  ad_jobs :: "image_job_record list"

type_synonym 'a artifact_result = "store_error + adb \<times> 'a"

section \<open>The publish journal\<close>

definition artifact_publish_journal :: "string \<Rightarrow> adb \<Rightarrow> store_error + artifact_journal_record" where
  "artifact_publish_journal operation_key a =
     fetch_one (\<lambda>j. aj_operation_key j = operation_key) (ad_journal a)"

definition journal_row :: "timestamp \<Rightarrow> new_artifact_publish_journal \<Rightarrow> artifact_journal_record" where
  "journal_row now input =
     \<lparr>aj_operation_key = nj_operation_key input, aj_run_id = nj_run_id input,
      aj_run_step_id = nj_run_step_id input, aj_staged_path = nj_staged_path input,
      aj_published_path = None, aj_artifact_id = None, aj_content_sha256 = nj_content_sha256 input,
      aj_state = ''staged'', aj_owner_id = nj_owner_id input,
      aj_expires_at = now + nj_expires_after_seconds input, aj_created_at = now, aj_updated_at = now\<rparr>"

definition create_or_read_artifact_publish_journal ::
  "timestamp \<Rightarrow> new_artifact_publish_journal \<Rightarrow> adb \<Rightarrow> artifact_journal_record artifact_result" where
  "create_or_read_artifact_publish_journal now input a =
     (if nj_expires_after_seconds input \<le> 0
      then Inl (SE_RecoveryInvariant ''create_or_read_artifact_publish_journal'' ''journal expiry must be positive'')
      else
      res_bind (insert_or_ignore
          (\<not> row_exists (\<lambda>j. aj_operation_key j = nj_operation_key input) (ad_journal a))
          (row_exists (\<lambda>r. rr_id r = nj_run_id input) (db_runs (ad_db a)) \<and>
           row_exists (\<lambda>s. rs_id s = nj_run_step_id input) (db_steps (ad_db a)))
          (journal_row now input) (ad_journal a)) (\<lambda>t.
      res_bind (artifact_publish_journal (nj_operation_key input) (a\<lparr>ad_journal := t\<rparr>)) (\<lambda>j.
      if aj_run_id j \<noteq> nj_run_id input \<or> aj_run_step_id j \<noteq> nj_run_step_id input \<or>
         aj_staged_path j \<noteq> nj_staged_path input \<or> aj_content_sha256 j \<noteq> nj_content_sha256 input
      then Inl (SE_RecoveryInvariant ''create_or_read_artifact_publish_journal''
        (''operation '' @ bq (nj_operation_key input) @ '' was reused with different artifact data''))
      else Inr (a\<lparr>ad_journal := t\<rparr>, j))))"

definition journal_after :: "string \<Rightarrow> nat \<Rightarrow> adb \<Rightarrow> adb \<Rightarrow> artifact_journal_record option artifact_result" where
  "journal_after operation_key n old new =
     (if n = 0 then Inr (old, None)
      else res_bind (artifact_publish_journal operation_key new) (\<lambda>j. Inr (new, Some j)))"

definition mark_artifact_published ::
  "timestamp \<Rightarrow> string \<Rightarrow> string \<Rightarrow> string \<Rightarrow> adb \<Rightarrow> artifact_journal_record option artifact_result" where
  "mark_artifact_published now operation_key owner_id published_path a =
     res_bind (sql_update (\<lambda>_. True)
       (\<lambda>j. aj_operation_key j = operation_key \<and> aj_owner_id j = owner_id \<and> aj_state j = ''staged'')
       (\<lambda>j. j\<lparr>aj_state := ''published'', aj_published_path := Some published_path, aj_updated_at := now\<rparr>)
       (ad_journal a)) (\<lambda>(t, n).
     journal_after operation_key n a (a\<lparr>ad_journal := t\<rparr>))"

definition unwrap_or_default :: "string option \<Rightarrow> string" where
  "unwrap_or_default x = (case x of None \<Rightarrow> [] | Some s \<Rightarrow> s)"

definition published_row :: "string \<Rightarrow> timestamp \<Rightarrow> string \<Rightarrow> new_artifact \<Rightarrow> artifact_record" where
  "published_row new_id now published_path input =
     \<lparr>ar_id = new_id, ar_workspace_id = na_workspace_id input, ar_run_id = na_run_id input,
      ar_run_step_id = na_run_step_id input, ar_node_id = na_node_id input, ar_kind = na_kind input,
      ar_storage_uri = published_path, ar_sha256 = na_sha256 input, ar_mime = na_mime input,
      ar_width = na_width input, ar_height = na_height input, ar_duration_ms = na_duration_ms input,
      ar_selected = na_selected input, ar_meta_json = na_meta_json input, ar_created_at = now,
      ar_review_state = ''pending''\<rparr>"

text \<open>The insertion of the artifact and the update of its journal row, in one transaction.\<close>

definition publish_staged ::
  "string \<Rightarrow> timestamp \<Rightarrow> string \<Rightarrow> string \<Rightarrow> string \<Rightarrow> new_artifact \<Rightarrow> adb \<Rightarrow> artifact_record artifact_result" where
  "publish_staged new_id now operation_key owner_id published_path input a =
     (let db = ad_db a in
      res_bind (validate_artifact_identity input db) (\<lambda>_.
      res_bind (sql_insert (\<not> row_exists (\<lambda>x. ar_id x = new_id) (db_artifacts db) \<and>
          na_workspace_id input \<in> set (db_workspaces db) \<and>
          foreign rr_id (na_run_id input) (db_runs db) \<and>
          foreign rs_id (na_run_step_id input) (db_steps db))
        (published_row new_id now published_path input) (db_artifacts db)) (\<lambda>arts.
      res_bind (sql_update (\<lambda>j. \<not> row_exists (\<lambda>k. aj_artifact_id k = Some new_id) (ad_journal a))
        (\<lambda>j. aj_operation_key j = operation_key \<and> aj_owner_id j = owner_id \<and> aj_state j = ''staged'' \<and>
           aj_artifact_id j = None)
        (\<lambda>j. j\<lparr>aj_state := ''published'', aj_published_path := Some published_path,
           aj_artifact_id := Some new_id, aj_updated_at := now\<rparr>) (ad_journal a)) (\<lambda>(t, n).
      if n \<noteq> 1
      then Inl (SE_RecoveryInvariant ''publish_artifact_from_journal'' ''artifact journal publish CAS was lost'')
      else
      let db = db\<lparr>db_artifacts := arts\<rparr> in
      res_bind (artifact new_id db) (\<lambda>x. Inr (a\<lparr>ad_db := db, ad_journal := t\<rparr>, x))))))"

definition publish_artifact_from_journal ::
  "string \<Rightarrow> timestamp \<Rightarrow> string \<Rightarrow> string \<Rightarrow> string \<Rightarrow> new_artifact \<Rightarrow> adb \<Rightarrow> artifact_record artifact_result" where
  "publish_artifact_from_journal new_id now operation_key owner_id published_path input a =
     res_bind (artifact_publish_journal operation_key a) (\<lambda>j.
     if aj_owner_id j \<noteq> owner_id
     then Inl (SE_RecoveryInvariant ''publish_artifact_from_journal'' ''artifact journal owner changed'')
     else case aj_artifact_id j of
       Some artifact_id \<Rightarrow> res_bind (artifact artifact_id (ad_db a)) (\<lambda>x. Inr (a, x))
     | None \<Rightarrow>
         if aj_state j \<noteq> ''staged'' \<or> aj_run_id j \<noteq> unwrap_or_default (na_run_id input) \<or>
            aj_run_step_id j \<noteq> unwrap_or_default (na_run_step_id input)
         then Inl (SE_RecoveryInvariant ''publish_artifact_from_journal''
           ''artifact journal does not match artifact identity'')
         else publish_staged new_id now operation_key owner_id published_path input a)"

definition mark_artifact_journal_committed ::
  "timestamp \<Rightarrow> string \<Rightarrow> string \<Rightarrow> adb \<Rightarrow> artifact_journal_record option artifact_result" where
  "mark_artifact_journal_committed now operation_key owner_id a =
     res_bind (sql_update (\<lambda>_. True)
       (\<lambda>j. aj_operation_key j = operation_key \<and> aj_owner_id j = owner_id \<and> aj_state j = ''published'')
       (\<lambda>j. j\<lparr>aj_state := ''committed'', aj_updated_at := now\<rparr>) (ad_journal a)) (\<lambda>(t, n).
     journal_after operation_key n a (a\<lparr>ad_journal := t\<rparr>))"

definition journal_open :: "artifact_journal_record \<Rightarrow> bool" where
  "journal_open j \<longleftrightarrow> aj_state j = ''staged'' \<or> aj_state j = ''published''"

definition pending_artifact_publish_journals :: "adb \<Rightarrow> artifact_journal_record list" where
  "pending_artifact_publish_journals a =
     sort_key (\<lambda>j. (aj_created_at j, aj_operation_key j)) (filter journal_open (ad_journal a))"

text \<open>Collecting expired rows: the rows that may be collected, the claim of one of them, and the
  end of the collection.  No artifact refers to a file of such a row when it is claimed.\<close>

definition path_referenced :: "artifact_journal_record \<Rightarrow> db \<Rightarrow> bool" where
  "path_referenced j db \<longleftrightarrow> row_exists (\<lambda>x. ar_storage_uri x = aj_staged_path j \<or>
     Some (ar_storage_uri x) = aj_published_path j) (db_artifacts db)"

definition collectable :: "timestamp \<Rightarrow> artifact_journal_record \<Rightarrow> bool" where
  "collectable now j \<longleftrightarrow> journal_open j \<and> aj_artifact_id j = None \<and> aj_expires_at j \<le> now"

definition claim_journal_for_gc ::
  "timestamp \<Rightarrow> string \<Rightarrow> int \<Rightarrow> string \<Rightarrow> adb \<Rightarrow> artifact_journal_record option artifact_result" where
  "claim_journal_for_gc now owner_id lease_seconds operation_key a =
     (let P = (\<lambda>j. aj_operation_key j = operation_key \<and> collectable now j \<and>
          \<not> path_referenced j (ad_db a) \<and>
          \<not> row_exists (\<lambda>p. pt_run_step_id p = aj_run_step_id j \<and> open_task_state (pt_state p)) (db_tasks (ad_db a)) \<and>
          \<not> row_exists (\<lambda>w. tz_run_id w = aj_run_id j \<and> tz_state w = ''settling'')
             (db_terminalizations (ad_db a)));
          f = (\<lambda>j. j\<lparr>aj_owner_id := owner_id, aj_expires_at := now + lease_seconds, aj_updated_at := now\<rparr>) in
      res_bind (sql_update (\<lambda>_. True) P f (ad_journal a)) (\<lambda>(t, n).
      Inr (a\<lparr>ad_journal := t\<rparr>, map_option f (fetch_optional P (ad_journal a)))))"

definition gc_candidates :: "timestamp \<Rightarrow> adb \<Rightarrow> string list" where
  "gc_candidates now a = map aj_operation_key
     (sort_key (\<lambda>j. (aj_created_at j, aj_operation_key j)) (filter (collectable now) (ad_journal a)))"

definition claim_expired_artifact_journals_for_gc ::
  "timestamp \<Rightarrow> string \<Rightarrow> int \<Rightarrow> adb \<Rightarrow> artifact_journal_record list artifact_result" where
  "claim_expired_artifact_journals_for_gc now owner_id lease_seconds a =
     (if lease_seconds \<le> 0
      then Inl (SE_RecoveryInvariant ''claim_expired_artifact_journals_for_gc'' ''GC lease must be positive'')
      else fold_res (\<lambda>key (a, claimed).
          res_bind (claim_journal_for_gc now owner_id lease_seconds key a) (\<lambda>(a, x).
          Inr (a, claimed @ (case x of None \<Rightarrow> [] | Some j \<Rightarrow> [j]))))
        (gc_candidates now a) (a, []))"

definition complete_artifact_journal_gc :: "string \<Rightarrow> string \<Rightarrow> adb \<Rightarrow> bool artifact_result" where
  "complete_artifact_journal_gc operation_key owner_id a =
     (let P = (\<lambda>j. aj_operation_key j = operation_key \<and> aj_owner_id j = owner_id \<and> journal_open j \<and>
          aj_artifact_id j = None \<and> \<not> path_referenced j (ad_db a)) in
      Inr (a\<lparr>ad_journal := filter (\<lambda>j. \<not> P j) (ad_journal a)\<rparr>, length (filter P (ad_journal a)) = 1))"

section \<open>The node cache\<close>

definition cache_key_of :: "node_cache_record \<Rightarrow> string \<times> string \<times> string \<times> string \<times> string" where
  "cache_key_of e = (nh_workspace_id e, nh_provider e, nh_node_type e, nh_node_id e, nh_cache_key e)"

definition node_cache_entry ::
  "string \<Rightarrow> string \<Rightarrow> string \<Rightarrow> string \<Rightarrow> string \<Rightarrow> adb \<Rightarrow> node_cache_record option" where
  "node_cache_entry workspace_id provider node_type node_id cache_key a =
     fetch_optional (\<lambda>e. cache_key_of e = (workspace_id, provider, node_type, node_id, cache_key)) (ad_cache a)"

text \<open>\<open>INSERT \<dots> ON CONFLICT \<dots> DO UPDATE\<close>; the identifier of an existing entry is read before.\<close>

definition upsert_node_cache_entry ::
  "string \<Rightarrow> timestamp \<Rightarrow> new_node_cache_entry \<Rightarrow> adb \<Rightarrow> node_cache_record artifact_result" where
  "upsert_node_cache_entry new_id now input a =
     (let key = (nn_workspace_id input, nn_provider input, nn_node_type input, nn_node_id input,
            nn_cache_key input) in
      res_bind (case fetch_optional (\<lambda>e. cache_key_of e = key) (ad_cache a) of
          Some e \<Rightarrow> Inr (map (\<lambda>e. if cache_key_of e = key
              then e\<lparr>nh_input_hash_json := nn_input_hash_json input,
                     nh_artifact_ids_json := nn_artifact_ids_json input, nh_last_hit_at := None\<rparr>
              else e) (ad_cache a))
        | None \<Rightarrow> sql_insert (\<not> row_exists (\<lambda>e. nh_id e = new_id) (ad_cache a) \<and>
              nn_workspace_id input \<in> set (db_workspaces (ad_db a)))
            \<lparr>nh_id = new_id, nh_workspace_id = nn_workspace_id input, nh_provider = nn_provider input,
             nh_node_type = nn_node_type input, nh_node_id = nn_node_id input,
             nh_cache_key = nn_cache_key input, nh_input_hash_json = nn_input_hash_json input,
             nh_artifact_ids_json = nn_artifact_ids_json input, nh_created_at = now, nh_last_hit_at = None\<rparr>
            (ad_cache a)) (\<lambda>t.
      res_bind (ok_or (node_cache_entry (nn_workspace_id input) (nn_provider input) (nn_node_type input)
          (nn_node_id input) (nn_cache_key input) (a\<lparr>ad_cache := t\<rparr>)) (SE_Sqlx RowNotFound)) (\<lambda>e.
      Inr (a\<lparr>ad_cache := t\<rparr>, e))))"

definition touch_node_cache_entry :: "timestamp \<Rightarrow> string \<Rightarrow> adb \<Rightarrow> node_cache_record artifact_result" where
  "touch_node_cache_entry now entry_id a =
     (let a = a\<lparr>ad_cache := map (\<lambda>e. if nh_id e = entry_id then e\<lparr>nh_last_hit_at := Some now\<rparr> else e)
            (ad_cache a)\<rparr> in
      res_bind (fetch_one (\<lambda>e. nh_id e = entry_id) (ad_cache a)) (\<lambda>e. Inr (a, e)))"

section \<open>Uploads\<close>

definition upload :: "string \<Rightarrow> adb \<Rightarrow> store_error + upload_record" where
  "upload upload_id a = fetch_one (\<lambda>u. ul_id u = upload_id) (ad_uploads a)"

definition workspace_upload :: "string \<Rightarrow> string \<Rightarrow> adb \<Rightarrow> store_error + upload_record" where
  "workspace_upload workspace_id upload_id a =
     fetch_one (\<lambda>u. ul_id u = upload_id \<and> ul_workspace_id u = workspace_id) (ad_uploads a)"

definition create_upload :: "string \<Rightarrow> timestamp \<Rightarrow> new_upload \<Rightarrow> adb \<Rightarrow> upload_record artifact_result" where
  "create_upload new_id now input a =
     res_bind (sql_insert (\<not> row_exists (\<lambda>u. ul_id u = new_id) (ad_uploads a) \<and>
         nu_workspace_id input \<in> set (db_workspaces (ad_db a)))
       \<lparr>ul_id = new_id, ul_workspace_id = nu_workspace_id input, ul_filename = nu_filename input,
        ul_file_path = nu_file_path input, ul_sha256 = nu_sha256 input, ul_mime = nu_mime input,
        ul_created_at = now\<rparr> (ad_uploads a)) (\<lambda>t.
     res_bind (upload new_id (a\<lparr>ad_uploads := t\<rparr>)) (\<lambda>u. Inr (a\<lparr>ad_uploads := t\<rparr>, u)))"

section \<open>Image processing jobs\<close>

definition job_intent_check :: "string \<Rightarrow> bool" where
  "job_intent_check s \<longleftrightarrow> s \<in> {''outpaint'', ''inpaint'', ''cutout'', ''upscale'', ''enhance''}"

definition job_status_check :: "string \<Rightarrow> bool" where
  "job_status_check s \<longleftrightarrow> s \<in> {''queued'', ''running'', ''succeeded'', ''failed'', ''interrupted''}"

definition job_terminal :: "string \<Rightarrow> bool" where
  "job_terminal s \<longleftrightarrow> s \<in> {''succeeded'', ''failed'', ''interrupted''}"

definition workspace_image_processing_job :: "string \<Rightarrow> string \<Rightarrow> adb \<Rightarrow> store_error + image_job_record" where
  "workspace_image_processing_job workspace_id job_id a =
     fetch_one (\<lambda>j. ij_id j = job_id \<and> ij_workspace_id j = workspace_id) (ad_jobs a)"

definition create_image_processing_job ::
  "string \<Rightarrow> timestamp \<Rightarrow> new_image_job \<Rightarrow> adb \<Rightarrow> image_job_record artifact_result" where
  "create_image_processing_job new_id now input a =
     res_bind (sql_insert (\<not> row_exists (\<lambda>j. ij_id j = new_id) (ad_jobs a) \<and>
         ni_workspace_id input \<in> set (db_workspaces (ad_db a)) \<and> job_intent_check (ni_intent input))
       \<lparr>ij_id = new_id, ij_workspace_id = ni_workspace_id input, ij_source_node_id = ni_source_node_id input,
        ij_result_node_id = None, ij_intent = ni_intent input, ij_profile = ni_profile input,
        ij_provider_task_id = None, ij_provider = None, ij_model = None, ij_output_upload_id = None,
        ij_status = ''queued'', ij_error = None, ij_created_at = now, ij_updated_at = now,
        ij_completed_at = None\<rparr> (ad_jobs a)) (\<lambda>t.
     res_bind (workspace_image_processing_job (ni_workspace_id input) new_id (a\<lparr>ad_jobs := t\<rparr>)) (\<lambda>j.
     Inr (a\<lparr>ad_jobs := t\<rparr>, j)))"

definition coalesce :: "'a option \<Rightarrow> 'a option \<Rightarrow> 'a option" where
  "coalesce x y = (case x of None \<Rightarrow> y | Some _ \<Rightarrow> x)"

definition job_move :: "string \<Rightarrow> string \<Rightarrow> bool" where
  "job_move from to \<longleftrightarrow>
     from = ''queued'' \<and> to \<in> {''running'', ''failed'', ''interrupted''} \<or>
     from = ''running'' \<and> to \<in> {''running'', ''succeeded'', ''failed'', ''interrupted''}"

definition update_image_processing_job ::
  "timestamp \<Rightarrow> string \<Rightarrow> string \<Rightarrow> image_job_update \<Rightarrow> adb \<Rightarrow> image_job_record artifact_result" where
  "update_image_processing_job now workspace_id job_id input a =
     (let P = (\<lambda>j. ij_id j = job_id \<and> ij_workspace_id j = workspace_id \<and> job_move (ij_status j) (iu_status input));
          f = (\<lambda>j. j\<lparr>ij_status := iu_status input,
            ij_provider_task_id := coalesce (iu_provider_task_id input) (ij_provider_task_id j),
            ij_provider := coalesce (iu_provider input) (ij_provider j),
            ij_model := coalesce (iu_model input) (ij_model j),
            ij_result_node_id := coalesce (iu_result_node_id input) (ij_result_node_id j),
            ij_output_upload_id := coalesce (iu_output_upload_id input) (ij_output_upload_id j),
            ij_error := iu_error input, ij_updated_at := now,
            ij_completed_at := (if job_terminal (iu_status input) then Some now else None)\<rparr>) in
      res_bind (sql_update (\<lambda>j. job_status_check (ij_status j) \<and> foreign ul_id (ij_output_upload_id j) (ad_uploads a))
        P f (ad_jobs a)) (\<lambda>(t, n).
      case fetch_optional P (ad_jobs a) of
        Some j \<Rightarrow> Inr (a\<lparr>ad_jobs := t\<rparr>, f j)
      | None \<Rightarrow>
          res_bind (workspace_image_processing_job workspace_id job_id a) (\<lambda>current.
          Inl (SE_ImageProcessingJobStateConflict job_id (ij_status current) (iu_status input)))))"

definition finalize_interrupted_image_processing_jobs :: "timestamp \<Rightarrow> adb \<Rightarrow> nat artifact_result" where
  "finalize_interrupted_image_processing_jobs now a =
     res_bind (sql_update (\<lambda>j. job_status_check (ij_status j))
       (\<lambda>j. ij_status j = ''queued'' \<or> ij_status j = ''running'')
       (\<lambda>j. j\<lparr>ij_status := ''interrupted'',
          ij_error := Some ''image processing job was interrupted by a server restart'',
          ij_updated_at := now, ij_completed_at := Some now\<rparr>) (ad_jobs a)) (\<lambda>(t, n).
     Inr (a\<lparr>ad_jobs := t\<rparr>, n))"

definition workspace_image_processing_jobs :: "string \<Rightarrow> adb \<Rightarrow> image_job_record list" where
  "workspace_image_processing_jobs workspace_id a =
     take 50 (rev (sort_key (\<lambda>j. (ij_created_at j, ij_id j)) (filter (\<lambda>j. ij_workspace_id j = workspace_id) (ad_jobs a))))"

definition link_image_processing_result ::
  "timestamp \<Rightarrow> string \<Rightarrow> string \<Rightarrow> string \<Rightarrow> string \<Rightarrow> adb \<Rightarrow> image_job_record artifact_result" where
  "link_image_processing_result now workspace_id job_id result_node_id output_upload_id a =
     res_bind (sql_update (\<lambda>_. True)
       (\<lambda>j. ij_id j = job_id \<and> ij_workspace_id j = workspace_id \<and> ij_status j = ''succeeded'' \<and>
          ij_output_upload_id j = Some output_upload_id)
       (\<lambda>j. j\<lparr>ij_result_node_id := Some result_node_id, ij_updated_at := now\<rparr>) (ad_jobs a)) (\<lambda>(t, n).
     if n = 0 then
       res_bind (workspace_image_processing_job workspace_id job_id a) (\<lambda>current.
       Inl (SE_ImageProcessingJobStateConflict job_id (ij_status current) ''link_result''))
     else res_bind (workspace_image_processing_job workspace_id job_id (a\<lparr>ad_jobs := t\<rparr>)) (\<lambda>j.
       Inr (a\<lparr>ad_jobs := t\<rparr>, j)))"

end
