(* ===== verification/Artifact_Properties.thy ===== *)
theory Artifact_Properties
  imports Artifact_Store
begin

text \<open>
  The artifact tables as a transition system over the steps of the run store, what every reachable
  value of them keeps, and the life of a published artifact.
\<close>

section \<open>Steps\<close>

inductive artifact_step :: "adb \<Rightarrow> adb \<Rightarrow> bool" where
  run_store: "store_step (ad_db a) db \<Longrightarrow> artifact_step a (a\<lparr>ad_db := db\<rparr>)"
| journal_created: "create_or_read_artifact_publish_journal now nj a = Inr (a', j) \<Longrightarrow> artifact_step a a'"
| journal_published: "mark_artifact_published now key owner path a = Inr (a', x) \<Longrightarrow> artifact_step a a'"
| artifact_published: "publish_artifact_from_journal new_id now key owner path na a = Inr (a', r) \<Longrightarrow>
    artifact_step a a'"
| journal_committed: "mark_artifact_journal_committed now key owner a = Inr (a', x) \<Longrightarrow> artifact_step a a'"
| journal_claimed: "claim_journal_for_gc now owner lease key a = Inr (a', x) \<Longrightarrow> artifact_step a a'"
| journal_collected: "complete_artifact_journal_gc key owner a = Inr (a', b) \<Longrightarrow> artifact_step a a'"
| cache_written: "upsert_node_cache_entry new_id now nn a = Inr (a', e) \<Longrightarrow> artifact_step a a'"
| cache_touched: "touch_node_cache_entry now i a = Inr (a', e) \<Longrightarrow> artifact_step a a'"
| uploaded: "create_upload new_id now nu a = Inr (a', u) \<Longrightarrow> artifact_step a a'"
| job_created: "create_image_processing_job new_id now ni a = Inr (a', ij) \<Longrightarrow> artifact_step a a'"
| job_updated: "update_image_processing_job now ws i iu a = Inr (a', ij) \<Longrightarrow> artifact_step a a'"
| jobs_interrupted: "finalize_interrupted_image_processing_jobs now a = Inr (a', n) \<Longrightarrow> artifact_step a a'"
| job_linked: "link_image_processing_result now ws i node up a = Inr (a', ij) \<Longrightarrow> artifact_step a a'"

definition initial_adb :: adb where
  "initial_adb = \<lparr>ad_db = initial_db, ad_journal = [], ad_cache = [], ad_uploads = [], ad_jobs = []\<rparr>"

section \<open>The invariant\<close>

interpretation journal_table: keyed_table aj_operation_key .

text \<open>A row that names an artifact was published, and the artifact is there with the row's identity.\<close>

definition journal_row_ok :: "db \<Rightarrow> artifact_journal_record \<Rightarrow> bool" where
  "journal_row_ok db j \<longleftrightarrow> aj_state j \<in> {''staged'', ''published'', ''committed''} \<and>
     (\<forall>i. aj_artifact_id j = Some i \<longrightarrow> aj_state j \<noteq> ''staged'' \<and>
        (\<exists>x\<in>set (db_artifacts db). ar_id x = i \<and> Some (ar_storage_uri x) = aj_published_path j \<and>
           unwrap_or_default (ar_run_id x) = aj_run_id j \<and> unwrap_or_default (ar_run_step_id x) = aj_run_step_id j))"

definition journal_ok :: "db \<Rightarrow> artifact_journal_record list \<Rightarrow> bool" where
  "journal_ok db t \<longleftrightarrow> journal_table.keyed t \<and> (\<forall>j\<in>set t. journal_row_ok db j) \<and>
     distinct (List.map_filter aj_artifact_id t)"

definition adb_ok :: "adb \<Rightarrow> bool" where
  "adb_ok a \<longleftrightarrow> db_ok (ad_db a) \<and> journal_ok (ad_db a) (ad_journal a)"

text \<open>What a step does to the journal: rows appended without artifact, changes that keep an artifact,
  one artifact published, and rows without artifact removed.\<close>

definition journal_change :: "artifact_journal_record \<Rightarrow> artifact_journal_record \<Rightarrow> bool" where
  "journal_change j j' \<longleftrightarrow> aj_operation_key j' = aj_operation_key j \<and> aj_run_id j' = aj_run_id j \<and>
     aj_run_step_id j' = aj_run_step_id j \<and> aj_artifact_id j' = aj_artifact_id j \<and>
     (aj_artifact_id j \<noteq> None \<longrightarrow> aj_published_path j' = aj_published_path j) \<and>
     (aj_state j' = aj_state j \<or>
      aj_state j' \<in> {''published'', ''committed''} \<and> aj_state j \<in> {''staged'', ''published''})"

inductive journal_effect :: "adb \<Rightarrow> adb \<Rightarrow> bool" where
  same: "ad_db a' = ad_db a \<Longrightarrow> ad_journal a' = ad_journal a \<Longrightarrow> journal_effect a a'"
| stored: "store_step (ad_db a) db \<Longrightarrow> journal_effect a (a\<lparr>ad_db := db\<rparr>)"
| appended: "\<lbrakk>aj_operation_key j \<notin> aj_operation_key ` set (ad_journal a); aj_artifact_id j = None;
    aj_state j = ''staged''\<rbrakk> \<Longrightarrow> journal_effect a (a\<lparr>ad_journal := ad_journal a @ [j]\<rparr>)"
| changed: "\<lbrakk>\<And>j. j \<in> set (ad_journal a) \<Longrightarrow> P j \<Longrightarrow> journal_change j (f j)\<rbrakk> \<Longrightarrow>
    journal_effect a (a\<lparr>ad_journal := map (\<lambda>j. if P j then f j else j) (ad_journal a)\<rparr>)"
| published: "\<lbrakk>j \<in> set (ad_journal a); aj_operation_key j = key; aj_state j = ''staged'';
    aj_artifact_id j = None; ar_id x \<notin> ar_id ` set (db_artifacts (ad_db a));
    unwrap_or_default (ar_run_id x) = aj_run_id j; unwrap_or_default (ar_run_step_id x) = aj_run_step_id j;
    store_contract (ad_db a) ((ad_db a)\<lparr>db_artifacts := db_artifacts (ad_db a) @ [x]\<rparr>)\<rbrakk> \<Longrightarrow>
    journal_effect a (a\<lparr>ad_db := (ad_db a)\<lparr>db_artifacts := db_artifacts (ad_db a) @ [x]\<rparr>,
      ad_journal := map (\<lambda>j. if aj_operation_key j = key
        then j\<lparr>aj_state := ''published'', aj_published_path := Some (ar_storage_uri x),
          aj_artifact_id := Some (ar_id x), aj_updated_at := now\<rparr> else j) (ad_journal a)\<rparr>)"
| removed: "(\<And>j. P j \<Longrightarrow> aj_artifact_id j = None) \<Longrightarrow>
    journal_effect a (a\<lparr>ad_journal := filter (\<lambda>j. \<not> P j) (ad_journal a)\<rparr>)"

section \<open>Every step has one of these effects\<close>

lemma artifact_same [simp]: "a\<lparr>ad_journal := ad_journal a\<rparr> = a"
  by simp

lemma journal_update_effect:
  assumes "sql_update check P f (ad_journal a) = Inr (t, n)"
    and "\<And>j. P j \<Longrightarrow> journal_change j (f j)"
  shows "journal_effect a (a\<lparr>ad_journal := t\<rparr>)"
  using changed [of a P f] assms by (simp add: sql_update_Inr)

lemma journal_after_Inr:
  "journal_after key n old new = Inr (a', x) \<Longrightarrow> a' = old \<or> a' = new"
  by (auto simp: journal_after_def res_bind_Inr split: if_splits)

lemma publish_effect:
  assumes "publish_artifact_from_journal new_id now key owner path na a = Inr (a', r)"
    and "journal_ok (ad_db a) (ad_journal a)"
  shows "journal_effect a a'"
proof -
  obtain j where j: "artifact_publish_journal key a = Inr j" "aj_owner_id j = owner"
    using assms(1) by (auto simp: publish_artifact_from_journal_def res_bind_Inr split: if_splits)
  have mem: "j \<in> set (ad_journal a)" "aj_operation_key j = key"
    using fetch_one_Inr [OF j(1) [unfolded artifact_publish_journal_def]] by auto
  show ?thesis
  proof (cases "aj_artifact_id j")
    case (Some i)
    with assms(1) j have "a' = a"
      by (auto simp: publish_artifact_from_journal_def res_bind_Inr split: if_splits)
    then show ?thesis by (intro same) simp_all
  next
    case None
    let ?x = "published_row new_id now path na"
    from None assms(1) j have staged: "aj_state j = ''staged''" "aj_run_id j = unwrap_or_default (na_run_id na)"
        "aj_run_step_id j = unwrap_or_default (na_run_step_id na)"
      and p: "publish_staged new_id now key owner path na a = Inr (a', r)"
      by (auto simp: publish_artifact_from_journal_def res_bind_Inr split: if_splits)
    from p obtain arts t where ins: "sql_insert (\<not> row_exists (\<lambda>x. ar_id x = new_id) (db_artifacts (ad_db a)) \<and>
          na_workspace_id na \<in> set (db_workspaces (ad_db a)) \<and>
          foreign rr_id (na_run_id na) (db_runs (ad_db a)) \<and>
          foreign rs_id (na_run_step_id na) (db_steps (ad_db a))) ?x (db_artifacts (ad_db a)) = Inr arts"
      and u: "sql_update (\<lambda>j. \<not> row_exists (\<lambda>k. aj_artifact_id k = Some new_id) (ad_journal a))
        (\<lambda>j. aj_operation_key j = key \<and> aj_owner_id j = owner \<and> aj_state j = ''staged'' \<and> aj_artifact_id j = None)
        (\<lambda>j. j\<lparr>aj_state := ''published'', aj_published_path := Some path,
           aj_artifact_id := Some new_id, aj_updated_at := now\<rparr>) (ad_journal a) = Inr (t, 1)"
      and a': "a' = a\<lparr>ad_db := (ad_db a)\<lparr>db_artifacts := arts\<rparr>, ad_journal := t\<rparr>"
      by (auto simp: publish_staged_def Let_def res_bind_Inr split: if_splits)
    from ins have fresh: "new_id \<notin> ar_id ` set (db_artifacts (ad_db a))" and arts: "arts = db_artifacts (ad_db a) @ [?x]"
      by (auto simp: sql_insert_Inr)
    have unique: "k = j" if "k \<in> set (ad_journal a)" "aj_operation_key k = key" for k
      using journal_table.keyed_unique [of "ad_journal a" k j] assms(2) that mem by (simp add: journal_ok_def)
    have t: "t = map (\<lambda>j. if aj_operation_key j = key
        then j\<lparr>aj_state := ''published'', aj_published_path := Some path,
          aj_artifact_id := Some new_id, aj_updated_at := now\<rparr> else j) (ad_journal a)"
      using u staged(1) None j(2) by (auto simp: sql_update_Inr dest: unique)
    have "store_contract (ad_db a) ((ad_db a)\<lparr>db_artifacts := db_artifacts (ad_db a) @ [?x]\<rparr>)"
      by (rule contract_artifacts) (rule artifacts.sql_insert_step [OF ins [unfolded arts]], auto simp: published_row_def)
    from published [OF mem staged(1) None _ _ _ this, of now] staged fresh show ?thesis
      unfolding a' t arts by (simp add: published_row_def cong: if_cong)
  qed
qed

lemma artifact_step_effect:
  assumes "artifact_step a a'" "adb_ok a"
  shows "journal_effect a a'"
  using assms
proof (cases rule: artifact_step.cases)
  case (run_store db)
  then show ?thesis by (simp add: stored)
next
  case (journal_created now nj j)
  then obtain t where i: "insert_or_ignore
        (\<not> row_exists (\<lambda>j. aj_operation_key j = nj_operation_key nj) (ad_journal a))
        (row_exists (\<lambda>r. rr_id r = nj_run_id nj) (db_runs (ad_db a)) \<and>
           row_exists (\<lambda>s. rs_id s = nj_run_step_id nj) (db_steps (ad_db a)))
        (journal_row now nj) (ad_journal a) = Inr t" and a': "a' = a\<lparr>ad_journal := t\<rparr>"
    by (auto simp: create_or_read_artifact_publish_journal_def res_bind_Inr split: if_splits)
  show ?thesis
  proof (cases "row_exists (\<lambda>j. aj_operation_key j = nj_operation_key nj) (ad_journal a)")
    case True
    with i have "t = ad_journal a" by (auto simp: insert_or_ignore_Inr)
    then show ?thesis by (intro same) (simp_all add: a')
  next
    case False
    with i have "t = ad_journal a @ [journal_row now nj]" by (auto simp: insert_or_ignore_Inr)
    then show ?thesis using False unfolding a'
      by (auto intro!: appended simp: journal_row_def)
  qed
next
  case (journal_published now key owner path x)
  then obtain t n where u: "sql_update (\<lambda>_. True)
       (\<lambda>j. aj_operation_key j = key \<and> aj_owner_id j = owner \<and> aj_state j = ''staged'')
       (\<lambda>j. j\<lparr>aj_state := ''published'', aj_published_path := Some path, aj_updated_at := now\<rparr>)
       (ad_journal a) = Inr (t, n)" and a': "a' = a \<or> a' = a\<lparr>ad_journal := t\<rparr>"
    by (auto simp: mark_artifact_published_def res_bind_Inr dest: journal_after_Inr)
  have "aj_artifact_id j = None" if "j \<in> set (ad_journal a)" "aj_state j = ''staged''" for j
    using assms(2) that by (fastforce simp: adb_ok_def journal_ok_def journal_row_ok_def)
  then have "journal_effect a (a\<lparr>ad_journal := t\<rparr>)"
    using changed [of a "\<lambda>j. aj_operation_key j = key \<and> aj_owner_id j = owner \<and> aj_state j = ''staged''"
        "\<lambda>j. j\<lparr>aj_state := ''published'', aj_published_path := Some path, aj_updated_at := now\<rparr>"] u
    by (simp add: sql_update_Inr journal_change_def)
  with a' show ?thesis using same [of a a] by auto
next
  case (artifact_published new_id now key owner path na r)
  then show ?thesis using publish_effect assms(2) by (simp add: adb_ok_def)
next
  case (journal_committed now key owner x)
  then obtain t n where u: "sql_update (\<lambda>_. True)
       (\<lambda>j. aj_operation_key j = key \<and> aj_owner_id j = owner \<and> aj_state j = ''published'')
       (\<lambda>j. j\<lparr>aj_state := ''committed'', aj_updated_at := now\<rparr>) (ad_journal a) = Inr (t, n)"
    and a': "a' = a \<or> a' = a\<lparr>ad_journal := t\<rparr>"
    by (auto simp: mark_artifact_journal_committed_def res_bind_Inr dest: journal_after_Inr)
  have "journal_effect a (a\<lparr>ad_journal := t\<rparr>)"
    by (rule journal_update_effect [OF u]) (simp add: journal_change_def)
  with a' show ?thesis using same [of a a] by auto
next
  case (journal_claimed now owner lease key x)
  then obtain t n P where u: "sql_update (\<lambda>_. True) P
       (\<lambda>j. j\<lparr>aj_owner_id := owner, aj_expires_at := now + lease, aj_updated_at := now\<rparr>) (ad_journal a) = Inr (t, n)"
    and a': "a' = a\<lparr>ad_journal := t\<rparr>"
    by (auto simp: claim_journal_for_gc_def Let_def res_bind_Inr)
  from u show ?thesis unfolding a'
    by (rule journal_update_effect) (simp add: journal_change_def)
next
  case (journal_collected key owner b)
  let ?P = "\<lambda>j. aj_operation_key j = key \<and> aj_owner_id j = owner \<and> journal_open j \<and>
     aj_artifact_id j = None \<and> \<not> path_referenced j (ad_db a)"
  from journal_collected have "a' = a\<lparr>ad_journal := filter (\<lambda>j. \<not> ?P j) (ad_journal a)\<rparr>"
    unfolding complete_artifact_journal_gc_def Let_def by (rule sum.inject(2) [THEN iffD1, THEN prod.inject [THEN iffD1], THEN conjunct1, symmetric])
  then show ?thesis using removed [of ?P a] by simp
qed (auto simp: upsert_node_cache_entry_def touch_node_cache_entry_def create_upload_def
    create_image_processing_job_def update_image_processing_job_def finalize_interrupted_image_processing_jobs_def
    link_image_processing_result_def Let_def res_bind_Inr split: if_splits option.splits intro!: same)

section \<open>The invariant is kept\<close>

lemma row_ok_kept:
  assumes "journal_row_ok db j" "\<And>x. x \<in> set (db_artifacts db) \<Longrightarrow> \<exists>x'\<in>set (db_artifacts db'). artifact_change x x'"
  shows "journal_row_ok db' j"
proof -
  have "\<exists>x\<in>set (db_artifacts db'). ar_id x = i \<and> Some (ar_storage_uri x) = aj_published_path j \<and>
      unwrap_or_default (ar_run_id x) = aj_run_id j \<and> unwrap_or_default (ar_run_step_id x) = aj_run_step_id j"
    if i: "aj_artifact_id j = Some i" for i
  proof -
    obtain x where x: "x \<in> set (db_artifacts db)" "ar_id x = i" "Some (ar_storage_uri x) = aj_published_path j"
      "unwrap_or_default (ar_run_id x) = aj_run_id j" "unwrap_or_default (ar_run_step_id x) = aj_run_step_id j"
      using assms(1) i by (auto simp: journal_row_ok_def)
    from assms(2) [OF x(1)] obtain x' where "x' \<in> set (db_artifacts db')" "artifact_change x x'" by blast
    with x(2-5) show ?thesis by (intro bexI [of _ x']) (auto simp: artifact_change_def)
  qed
  with assms(1) show ?thesis by (auto simp: journal_row_ok_def)
qed

lemma map_filter_none: "(\<And>j. j \<in> set t \<Longrightarrow> \<not> Q j \<Longrightarrow> f j = None) \<Longrightarrow> List.map_filter f (filter Q t) = List.map_filter f t"
  by (induction t) (auto simp: List.map_filter_simps split: option.splits)

lemma map_filter_map_same: "(\<And>j. j \<in> set t \<Longrightarrow> f (g j) = f j) \<Longrightarrow> List.map_filter f (map g t) = List.map_filter f t"
  by (induction t) (auto simp: List.map_filter_simps split: option.splits)

lemma map_filter_snoc: "f j = None \<Longrightarrow> List.map_filter f (t @ [j]) = List.map_filter f t"
  by (simp add: map_filter_def)

lemma in_map_filter: "i \<in> set (List.map_filter f t) \<longleftrightarrow> (\<exists>j\<in>set t. f j = Some i)"
  by (induction t) (auto simp: List.map_filter_simps split: option.splits)

lemma publish_row_distinct:
  assumes "distinct (List.map_filter f t)" "i \<notin> set (List.map_filter f t)" "distinct (map k t)"
    and "\<And>j. j \<in> set t \<Longrightarrow> k j = key \<Longrightarrow> f j = None"
    and "\<And>j. k j = key \<Longrightarrow> f (g j) = Some i"
  shows "distinct (List.map_filter f (map (\<lambda>j. if k j = key then g j else j) t)) \<and>
     set (List.map_filter f (map (\<lambda>j. if k j = key then g j else j) t)) \<subseteq> insert i (set (List.map_filter f t)) \<and>
     (key \<notin> k ` set t \<longrightarrow> i \<notin> set (List.map_filter f (map (\<lambda>j. if k j = key then g j else j) t)))"
  using assms(1-4)
proof (induction t)
  case (Cons a t)
  have IH: "distinct (List.map_filter f (map (\<lambda>j. if k j = key then g j else j) t)) \<and>
     set (List.map_filter f (map (\<lambda>j. if k j = key then g j else j) t)) \<subseteq> insert i (set (List.map_filter f t)) \<and>
     (key \<notin> k ` set t \<longrightarrow> i \<notin> set (List.map_filter f (map (\<lambda>j. if k j = key then g j else j) t)))"
    using Cons.prems by (intro Cons.IH) (auto simp: List.map_filter_simps split: option.splits)
  show ?case
  proof (cases "k a = key")
    case True
    then show ?thesis using Cons.prems IH assms(5) [OF True] by (auto simp: List.map_filter_simps)
  next
    case False
    then show ?thesis using Cons.prems IH by (auto simp: List.map_filter_simps split: option.splits)
  qed
qed (simp add: List.map_filter_simps)

lemma effect_ok:
  assumes "journal_effect a a'" "adb_ok a"
  shows "adb_ok a'"
  using assms
proof (induction rule: journal_effect.induct)
  case (same a' a)
  then show ?case by (simp add: adb_ok_def)
next
  case (stored a db)
  have r: "store_step\<^sup>*\<^sup>* (ad_db a) db" "db_ok (ad_db a)" using stored by (auto simp: adb_ok_def)
  have "db_ok db" using store.steps_inv r by blast
  moreover have "\<forall>j\<in>set (ad_journal a). journal_row_ok db j"
    using stored(2) row_ok_kept store_steps_follow(6) [OF r] by (fastforce simp: adb_ok_def journal_ok_def)
  ultimately show ?case using stored(2) by (simp add: adb_ok_def journal_ok_def)
next
  case (appended j a)
  then show ?case
    by (auto simp: adb_ok_def journal_ok_def journal_table.keyed_def journal_row_ok_def map_filter_snoc)
next
  case (changed a P f)
  let ?f = "\<lambda>j. if P j then f j else j"
  have c: "journal_change j (?f j)" if "j \<in> set (ad_journal a)" for j
    using changed(1) that by (auto simp: journal_change_def)
  have "journal_table.keyed (map ?f (ad_journal a)) = journal_table.keyed (ad_journal a)"
    by (rule journal_table.keyed_map) (use c in \<open>auto simp: journal_change_def\<close>)
  moreover have "List.map_filter aj_artifact_id (map ?f (ad_journal a)) = List.map_filter aj_artifact_id (ad_journal a)"
    by (rule map_filter_map_same) (use c in \<open>auto simp: journal_change_def\<close>)
  moreover have "journal_row_ok (ad_db a) (?f j)" if "j \<in> set (ad_journal a)" for j
    using c [OF that] changed(2) that unfolding adb_ok_def journal_ok_def
    by (auto simp: journal_change_def journal_row_ok_def)
  ultimately have "journal_ok (ad_db a) (map ?f (ad_journal a))"
    using changed(2) unfolding adb_ok_def journal_ok_def set_map ball_simps by simp
  with changed(2) show ?case by (simp add: adb_ok_def)
next
  case (published j a key x now)
  let ?db = "(ad_db a)\<lparr>db_artifacts := db_artifacts (ad_db a) @ [x]\<rparr>"
  let ?g = "\<lambda>j. j\<lparr>aj_state := ''published'', aj_published_path := Some (ar_storage_uri x),
          aj_artifact_id := Some (ar_id x), aj_updated_at := now\<rparr>"
  let ?f = "\<lambda>j. if aj_operation_key j = key then ?g j else j"
  have J: "journal_ok (ad_db a) (ad_journal a)" "db_ok (ad_db a)" using published(9) by (simp_all add: adb_ok_def)
  have unique: "k = j" if "k \<in> set (ad_journal a)" "aj_operation_key k = key" for k
    using journal_table.keyed_unique [of "ad_journal a" k j] J(1) that published(1,2) by (simp add: journal_ok_def)
  have new: "ar_id x \<notin> set (List.map_filter aj_artifact_id (ad_journal a))"
  proof
    assume "ar_id x \<in> set (List.map_filter aj_artifact_id (ad_journal a))"
    then obtain k where k: "k \<in> set (ad_journal a)" "aj_artifact_id k = Some (ar_id x)"
      unfolding in_map_filter by blast
    then have "journal_row_ok (ad_db a) k" using J(1) by (simp add: journal_ok_def)
    with k(2) obtain y where "y \<in> set (db_artifacts (ad_db a))" "ar_id y = ar_id x"
      unfolding journal_row_ok_def by blast
    then have "ar_id x \<in> ar_id ` set (db_artifacts (ad_db a))" by (metis image_eqI)
    with published(5) show False by blast
  qed
  have "db_ok ?db" using contract_ok [OF published(8) J(2)] .
  moreover have "journal_table.keyed (map ?f (ad_journal a)) = journal_table.keyed (ad_journal a)"
    by (rule journal_table.keyed_map) simp
  moreover have "distinct (List.map_filter aj_artifact_id (map ?f (ad_journal a)))"
    using publish_row_distinct [of aj_artifact_id "ad_journal a" "ar_id x" aj_operation_key key ?g] J(1) new unique published(4)
    by (auto simp: journal_ok_def journal_table.keyed_def)
  moreover have "journal_row_ok ?db (?f k)" if "k \<in> set (ad_journal a)" for k
  proof (cases "aj_operation_key k = key")
    case True
    with unique that have "k = j" by blast
    with True published(6,7) show ?thesis by (simp add: journal_row_ok_def)
  next
    case False
    with J(1) that have "journal_row_ok (ad_db a) k" by (simp add: journal_ok_def)
    with False show ?thesis by (auto simp: journal_row_ok_def)
  qed
  ultimately have "journal_ok ?db (map ?f (ad_journal a))"
    using J(1) unfolding journal_ok_def set_map ball_simps by simp
  with \<open>db_ok ?db\<close> show ?case by (simp add: adb_ok_def)
next
  case (removed P a)
  then have "List.map_filter aj_artifact_id (filter (\<lambda>j. \<not> P j) (ad_journal a)) = List.map_filter aj_artifact_id (ad_journal a)"
    by (intro map_filter_none) simp
  with removed(2) show ?case
    by (auto simp: adb_ok_def journal_ok_def journal_table.keyed_def distinct_map_filter)
qed

interpretation artifact_system: invariant_system artifact_step adb_ok
  by unfold_locales (use artifact_step_effect effect_ok in blast)

lemma adb_ok_initial: "adb_ok initial_adb"
  by (simp add: adb_ok_def journal_ok_def initial_adb_def db_ok_initial journal_table.keyed_def List.map_filter_simps)

lemma reachable_adb_ok: "artifact_step\<^sup>*\<^sup>* initial_adb a \<Longrightarrow> adb_ok a"
  using artifact_system.steps_inv adb_ok_initial by blast

section \<open>The life of a published artifact\<close>

lemma effect_keeps:
  assumes "journal_effect a a'" "adb_ok a" "j \<in> set (ad_journal a)" "aj_artifact_id j = Some i"
  shows "\<exists>j'\<in>set (ad_journal a'). aj_operation_key j' = aj_operation_key j \<and> aj_artifact_id j' = Some i \<and>
     aj_published_path j' = aj_published_path j"
  using assms
proof (induction rule: journal_effect.induct)
  case (changed a P f)
  from changed(3) have "(if P j then f j else j) \<in> set (map (\<lambda>j. if P j then f j else j) (ad_journal a))"
    unfolding set_map by (rule image_eqI [OF refl])
  moreover have "journal_change j (if P j then f j else j)"
    using changed(1) [OF changed(3)] by (auto simp: journal_change_def)
  ultimately show ?case using changed(4) by (intro bexI) (auto simp: journal_change_def)
next
  case (published j0 a key x now)
  have "aj_operation_key j \<noteq> key"
  proof
    assume "aj_operation_key j = key"
    moreover have "journal_table.keyed (ad_journal a)" using published(9) by (simp add: adb_ok_def journal_ok_def)
    ultimately have "j = j0" using journal_table.keyed_unique published(1,2,10) by metis
    with published(4,11) show False by simp
  qed
  with published(10,11) show ?case by (intro bexI [of _ j]) (auto intro: image_eqI [of _ _ j])
next
  case (removed P a)
  then have "\<not> P j" by fastforce
  with removed(3,4) show ?case by (intro bexI [of _ j]) auto
qed auto

lemma steps_keep:
  assumes "artifact_step\<^sup>*\<^sup>* a b" "adb_ok a" "j \<in> set (ad_journal a)" "aj_artifact_id j = Some i"
  shows "\<exists>j'\<in>set (ad_journal b). aj_operation_key j' = aj_operation_key j \<and> aj_artifact_id j' = Some i \<and>
     aj_published_path j' = aj_published_path j"
  using assms
proof (induction rule: rtranclp_induct)
  case (step b c)
  then obtain j' where j': "j' \<in> set (ad_journal b)" "aj_operation_key j' = aj_operation_key j"
    "aj_artifact_id j' = Some i" "aj_published_path j' = aj_published_path j" by blast
  have "adb_ok b" using artifact_system.steps_inv step(1,4) by blast
  from effect_keeps [OF artifact_step_effect [OF step(2) this] this j'(1,3)] j' show ?case by simp
qed blast

lemma map_filter_unique:
  "distinct (List.map_filter f t) \<Longrightarrow> j \<in> set t \<Longrightarrow> k \<in> set t \<Longrightarrow> f j = Some i \<Longrightarrow> f k = Some i \<Longrightarrow> j = k"
  by (induction t) (auto simp: List.map_filter_simps in_map_filter split: option.splits if_splits)

section \<open>A run of the protocol\<close>

definition adb_after :: "'a artifact_result \<Rightarrow> adb" where
  "adb_after x = (case x of Inl _ \<Rightarrow> initial_adb | Inr (a, _) \<Rightarrow> a)"

definition demo_staged :: adb where
  "demo_staged = adb_after (create_or_read_artifact_publish_journal 2
     \<lparr>nj_operation_key = ''k'', nj_run_id = ''r'', nj_run_step_id = ''s'', nj_staged_path = ''p'',
      nj_content_sha256 = ''h'', nj_owner_id = ''o'', nj_expires_after_seconds = 60\<rparr>
     (initial_adb\<lparr>ad_db := demo_started\<rparr>))"

definition demo_published :: adb where
  "demo_published = adb_after (publish_artifact_from_journal ''a'' 3 ''k'' ''o'' ''p''
     \<lparr>na_workspace_id = ''w'', na_run_id = Some ''r'', na_run_step_id = Some ''s'', na_node_id = None,
      na_kind = ''image'', na_storage_uri = ''p'', na_sha256 = Some ''h'', na_mime = None, na_width = None,
      na_height = None, na_duration_ms = None, na_selected = False, na_meta_json = None\<rparr> demo_staged)"

definition demo_committed :: adb where
  "demo_committed = adb_after (mark_artifact_journal_committed 4 ''k'' ''o'' demo_published)"

lemma artifact_extend:
  assumes "artifact_step\<^sup>*\<^sup>* a b" "\<not> isl x" "\<And>d y. x = Inr (d, y) \<Longrightarrow> artifact_step b d"
  shows "artifact_step\<^sup>*\<^sup>* a (adb_after x)"
  using assms by (cases x) (auto simp: adb_after_def intro: rtranclp.rtrancl_into_rtrancl)

lemma store_steps_lift: "store_step\<^sup>*\<^sup>* d d' \<Longrightarrow> artifact_step\<^sup>*\<^sup>* (a\<lparr>ad_db := d\<rparr>) (a\<lparr>ad_db := d'\<rparr>)"
proof (induction rule: rtranclp_induct)
  case (step d' d'')
  from step(2) have "artifact_step (a\<lparr>ad_db := d'\<rparr>) (a\<lparr>ad_db := d''\<rparr>)"
    using artifact_step.run_store [of "a\<lparr>ad_db := d'\<rparr>" d''] by simp
  with step(3) show ?case by (rule rtranclp.rtrancl_into_rtrancl)
qed blast

lemma demo_started_lifted: "artifact_step\<^sup>*\<^sup>* initial_adb (initial_adb\<lparr>ad_db := demo_started\<rparr>)"
  using store_steps_lift [OF demo_started_reachable, of initial_adb] by (simp add: initial_adb_def)

lemma demo_staged_reachable: "artifact_step\<^sup>*\<^sup>* initial_adb demo_staged"
  unfolding demo_staged_def
  by (rule artifact_extend [OF demo_started_lifted], code_simp, erule artifact_step.journal_created)

lemma demo_published_reachable: "artifact_step\<^sup>*\<^sup>* initial_adb demo_published"
  unfolding demo_published_def
  by (rule artifact_extend [OF demo_staged_reachable], code_simp, erule artifact_step.artifact_published)

lemma demo_committed_step: "artifact_step\<^sup>*\<^sup>* demo_published demo_committed"
  unfolding demo_committed_def
  by (rule artifact_extend [OF rtranclp.rtrancl_refl], code_simp, erule artifact_step.journal_committed)

lemma demo_published_row: "hd (ad_journal demo_published) \<in> set (ad_journal demo_published)"
    "aj_artifact_id (hd (ad_journal demo_published)) = Some ''a''"
    "aj_operation_key (hd (ad_journal demo_published)) = ''k''"
    "aj_published_path (hd (ad_journal demo_published)) = Some ''p''"
  by code_simp+

section \<open>Property\<close>

text \<open>C37: An artifact is published once.  From the moment a journal row names an artifact the row stays, with
  this artifact and this path, which no other row shares; the artifact stays with that path; publishing the
  operation again returns it and changes nothing; and the collection of expired rows neither claims the row
  nor removes it, in whatever order the operations of all parties follow.\<close>

theorem artifact_published_once:
  assumes "artifact_step\<^sup>*\<^sup>* initial_adb a" "j \<in> set (ad_journal a)" "aj_artifact_id j = Some i"
    and "artifact_step\<^sup>*\<^sup>* a b"
  shows "\<exists>j'\<in>set (ad_journal b). aj_operation_key j' = aj_operation_key j \<and> aj_artifact_id j' = Some i \<and>
     (\<forall>k\<in>set (ad_journal b). aj_artifact_id k = Some i \<longrightarrow> k = j') \<and>
     (\<exists>x\<in>set (db_artifacts (ad_db b)). ar_id x = i \<and> Some (ar_storage_uri x) = aj_published_path j \<and>
        (\<forall>new_id now path na. publish_artifact_from_journal new_id now (aj_operation_key j) (aj_owner_id j') path na b =
           Inr (b, x))) \<and>
     (\<forall>now owner lease. claim_journal_for_gc now owner lease (aj_operation_key j) b = Inr (b, None)) \<and>
     (\<forall>owner. complete_artifact_journal_gc (aj_operation_key j) owner b = Inr (b, False))"
proof -
  have ok: "adb_ok a" "adb_ok b" using reachable_adb_ok assms(1,4) by (blast intro: rtranclp_trans)+
  obtain j' where j': "j' \<in> set (ad_journal b)" "aj_operation_key j' = aj_operation_key j"
    "aj_artifact_id j' = Some i" "aj_published_path j' = aj_published_path j"
    using steps_keep [OF assms(4) ok(1) assms(2,3)] by blast
  have J: "journal_table.keyed (ad_journal b)" "journal_row_ok (ad_db b) j'"
    "distinct (List.map_filter aj_artifact_id (ad_journal b))"
    using ok(2) j'(1) by (simp_all add: adb_ok_def journal_ok_def)
  have only: "aj_artifact_id k = Some i" if "k \<in> set (ad_journal b)" "aj_operation_key k = aj_operation_key j" for k
    using journal_table.keyed_unique [OF J(1) that(1) j'(1)] that(2) j'(2,3) by simp
  obtain x where x: "x \<in> set (db_artifacts (ad_db b))" "ar_id x = i" "Some (ar_storage_uri x) = aj_published_path j"
    using J(2) j'(3,4) by (auto simp: journal_row_ok_def)
  have "fetch_one (\<lambda>y. ar_id y = ar_id x) (db_artifacts (ad_db b)) = Inr x"
    using artifacts.fetch_keyed [OF _ x(1)] ok(2) by (simp add: adb_ok_def db_ok_def artifacts.table_ok_def)
  moreover have "artifact_publish_journal (aj_operation_key j) b = Inr j'"
    unfolding artifact_publish_journal_def j'(2) [symmetric] by (rule journal_table.fetch_keyed [OF J(1) j'(1)])
  ultimately have p: "publish_artifact_from_journal new_id now (aj_operation_key j) (aj_owner_id j') path na b = Inr (b, x)"
    for new_id now path na
    by (simp add: publish_artifact_from_journal_def j'(3) artifact_def x(2))
  have c: "claim_journal_for_gc now owner lease (aj_operation_key j) b = Inr (b, None)" for now owner lease
  proof -
    let ?P = "\<lambda>k. aj_operation_key k = aj_operation_key j \<and> collectable now k \<and> \<not> path_referenced k (ad_db b) \<and>
          \<not> row_exists (\<lambda>p. pt_run_step_id p = aj_run_step_id k \<and> open_task_state (pt_state p)) (db_tasks (ad_db b)) \<and>
          \<not> row_exists (\<lambda>w. tz_run_id w = aj_run_id k \<and> tz_state w = ''settling'') (db_terminalizations (ad_db b))"
    let ?f = "\<lambda>j. j\<lparr>aj_owner_id := owner, aj_expires_at := now + lease, aj_updated_at := now\<rparr>"
    have none: "\<not> ?P k" if "k \<in> set (ad_journal b)" for k
      using only [OF that] by (auto simp: collectable_def)
    then have "fetch_optional ?P (ad_journal b) = None" by (simp only: fetch_optional_None) blast
    moreover have "map (\<lambda>k. if ?P k then ?f k else k) (ad_journal b) = ad_journal b"
      using none by (intro map_idI) (simp only: if_False)
    then have "sql_update (\<lambda>_. True) ?P ?f (ad_journal b) = Inr (ad_journal b, length (filter ?P (ad_journal b)))"
      by (simp add: sql_update_Inr del: row_exists_iff)
    ultimately show ?thesis
      unfolding claim_journal_for_gc_def Let_def by (simp only: res_bind_simps prod.case option.map artifact_same)
  qed
  have g: "complete_artifact_journal_gc (aj_operation_key j) owner b = Inr (b, False)" for owner
  proof -
    let ?P = "\<lambda>k. aj_operation_key k = aj_operation_key j \<and> aj_owner_id k = owner \<and> journal_open k \<and>
          aj_artifact_id k = None \<and> \<not> path_referenced k (ad_db b)"
    have "\<not> ?P k" if "k \<in> set (ad_journal b)" for k using only [OF that] by auto
    then have "filter (\<lambda>k. \<not> ?P k) (ad_journal b) = ad_journal b" "filter ?P (ad_journal b) = []"
      by (simp_all only: filter_id_conv filter_empty_conv) blast+
    then show ?thesis
      unfolding complete_artifact_journal_gc_def Let_def by (simp only: artifact_same list.size) simp
  qed
  have "k = j'" if "k \<in> set (ad_journal b)" "aj_artifact_id k = Some i" for k
    by (rule map_filter_unique [OF J(3) that(1) j'(1) that(2) j'(3)])
  then have u: "\<forall>k\<in>set (ad_journal b). aj_artifact_id k = Some i \<longrightarrow> k = j'" by blast
  show ?thesis
    by (intro bexI [OF _ j'(1)] bexI [OF _ x(1)] conjI allI) (rule j'(2) j'(3) u x(2) x(3) p c g)+
qed

theorem artifact_published_once_witness:
  "(\<exists>x\<in>set (db_artifacts (ad_db demo_committed)). ar_id x = ''a'' \<and> ar_storage_uri x = ''p'') \<and>
   claim_journal_for_gc 1000 ''g'' 60 ''k'' demo_committed = Inr (demo_committed, None)"
  using artifact_published_once [OF demo_published_reachable demo_published_row(1,2) demo_committed_step]
  unfolding demo_published_row(3,4) option.inject by blast

end
