(* ===== verification/Big_Endian.thy ===== *)
theory Big_Endian
  imports Json
begin

text \<open>
  Byte slices and big-endian integers: the part of Rust's \<open>[u8]\<close>, \<open>usize::checked_add\<close> and
  \<open>from_be_bytes\<close> the readers of media files use.  A \<open>usize\<close> is a natural number below 2^64.
\<close>

type_synonym u8 = "8 word"

definition sub_slice :: "nat \<Rightarrow> nat \<Rightarrow> 'a list \<Rightarrow> 'a list" where
  "sub_slice a b xs = take (b - a) (drop a xs)"

definition checked_add :: "nat \<Rightarrow> nat \<Rightarrow> nat option" where
  "checked_add a b = (if a + b < 2 ^ 64 then Some (a + b) else None)"

definition be_nat :: "u8 list \<Rightarrow> nat" where
  "be_nat bs = foldl (\<lambda>a b. a * 256 + unat b) 0 bs"

definition u32_from_be_bytes :: "u8 list \<Rightarrow> u32" where
  "u32_from_be_bytes bs = of_nat (be_nat bs)"

definition u64_from_be_bytes :: "u8 list \<Rightarrow> u64" where
  "u64_from_be_bytes bs = of_nat (be_nat bs)"

text \<open>The bytes of a number, most significant first.\<close>

primrec be_bytes :: "nat \<Rightarrow> nat \<Rightarrow> u8 list" where
  "be_bytes 0 x = []"
| "be_bytes (Suc n) x = be_bytes n (x div 256) @ [of_nat (x mod 256)]"

section \<open>Slices\<close>

lemma length_sub_slice [simp]: "length (sub_slice a b xs) = min (b - a) (length xs - a)"
  by (simp add: sub_slice_def min.commute)

lemma slice_drop: "a \<le> b \<Longrightarrow> sub_slice a b xs @ drop b xs = drop a xs"
  by (metis append_take_drop_id drop_drop le_add_diff_inverse2 sub_slice_def)

lemma slice_append:
  assumes "a \<le> b" "b \<le> c"
  shows "sub_slice a b xs @ sub_slice b c xs = sub_slice a c xs"
proof -
  from assms obtain i j where "b = a + i" "c = a + i + j" by (metis le_Suc_ex)
  then show ?thesis by (simp add: sub_slice_def take_add add.commute)
qed

lemma slice_of_drop: "drop a xs = ys @ zs \<Longrightarrow> sub_slice a (a + length ys) xs = ys"
  by (simp add: sub_slice_def)

lemma drop_of_drop: "drop a xs = ys @ zs \<Longrightarrow> drop (a + length ys) xs = zs"
  by (metis add.commute append_eq_conv_conj drop_drop)

section \<open>Numbers\<close>

lemma be_nat_Nil [simp]: "be_nat [] = 0"
  by (simp add: be_nat_def)

lemma be_nat_snoc [simp]: "be_nat (bs @ [b]) = be_nat bs * 256 + unat b"
  by (simp add: be_nat_def)

lemma unat_u8_less [simp]: "unat (b :: u8) < 256"
  using unsigned_less [of b] by simp

lemma be_nat_bound: "be_nat bs < 256 ^ length bs"
proof (induction bs rule: rev_induct)
  case (snoc b bs)
  have "be_nat bs * 256 + unat b < (be_nat bs + 1) * 256" by simp
  also have "\<dots> \<le> 256 ^ length bs * 256" using snoc by (intro mult_le_mono1) simp
  finally show ?case by (simp add: mult.commute)
qed simp

lemma length_be_bytes [simp]: "length (be_bytes n x) = n"
  by (induction n arbitrary: x) simp_all

lemma be_nat_be_bytes: "x < 256 ^ n \<Longrightarrow> be_nat (be_bytes n x) = x"
proof (induction n arbitrary: x)
  case (Suc n)
  from Suc.prems have "x div 256 < 256 ^ n" by (simp add: less_mult_imp_div_less mult.commute)
  then have "be_nat (be_bytes n (x div 256)) = x div 256" by (rule Suc.IH)
  moreover have "unat (of_nat (x mod 256) :: u8) = x mod 256"
    by (simp add: unat_of_nat)
  ultimately show ?case by simp
qed simp

lemma be_bytes_be_nat: "length bs = n \<Longrightarrow> be_bytes n (be_nat bs) = bs"
proof (induction bs arbitrary: n rule: rev_induct)
  case (snoc b bs)
  then obtain m where m: "n = Suc m" "length bs = m" by (cases n) auto
  have "(be_nat bs * 256 + unat b) div 256 = be_nat bs" "(be_nat bs * 256 + unat b) mod 256 = unat b"
    by simp_all
  with snoc.IH [OF m(2)] show ?case by (simp add: m(1))
qed simp

lemma be_bytes_iff: "length bs = n \<Longrightarrow> x < 256 ^ n \<Longrightarrow> bs = be_bytes n x \<longleftrightarrow> be_nat bs = x"
  using be_bytes_be_nat be_nat_be_bytes by metis

lemma unat_u32_from_be: "length bs = 4 \<Longrightarrow> unat (u32_from_be_bytes bs) = be_nat bs"
  using be_nat_bound [of bs] by (simp add: u32_from_be_bytes_def unat_of_nat)

lemma unat_u64_from_be: "length bs = 8 \<Longrightarrow> unat (u64_from_be_bytes bs) = be_nat bs"
  using be_nat_bound [of bs] by (simp add: u64_from_be_bytes_def unat_of_nat)

lemma checked_add_Some: "checked_add a b = Some c \<longleftrightarrow> c = a + b \<and> a + b < 2 ^ 64"
  by (auto simp: checked_add_def)

lemma checked_add_small: "a + b < 2 ^ 64 \<Longrightarrow> checked_add a b = Some (a + b)"
  by (simp add: checked_add_def)

end
