(* ===== verification/Png_Format.thy ===== *)
theory Png_Format
  imports Big_Endian Prelude
begin

unbundle bit_operations_syntax

text \<open>
  The check of PNG files (crates/run/src/artifacts.rs, \<open>validate_png\<close>, \<open>png_crc32\<close>): the reader
  as the loop of the code over a cursor, and the format it accepts as a declarative grammar of
  chunks.  The checksum is the bitwise CRC of the code on 32-bit words.
\<close>

section \<open>The reader\<close>

definition png_signature :: "u8 list" where
  "png_signature = [0x89, 0x50, 0x4E, 0x47, 0x0D, 0x0A, 0x1A, 0x0A]"

definition ihdr :: "u8 list" where "ihdr = [0x49, 0x48, 0x44, 0x52]"
definition idat :: "u8 list" where "idat = [0x49, 0x44, 0x41, 0x54]"
definition iend :: "u8 list" where "iend = [0x49, 0x45, 0x4E, 0x44]"

definition crc_bit :: "u32 \<Rightarrow> u32" where
  "crc_bit crc = (let mask = 0 - (crc AND 1) in drop_bit 1 crc XOR (0xEDB88320 AND mask))"

definition crc_byte :: "u8 \<Rightarrow> u32 \<Rightarrow> u32" where
  "crc_byte b crc = (crc_bit ^^ 8) (crc XOR ucast b)"

definition png_crc32 :: "u8 list \<Rightarrow> u32" where
  "png_crc32 bs = NOT (fold crc_byte bs (- 1))"

record png_state =
  pg_cursor :: nat
  pg_chunk_index :: nat
  pg_saw_idat :: bool
  pg_saw_iend :: bool

record png_chunk_span =
  ps_length :: nat
  ps_chunk_type :: "u8 list"
  ps_header_end :: nat
  ps_chunk_end :: nat

text \<open>The extent of the chunk at the cursor, with its checksum verified.\<close>

definition png_chunk_at :: "u8 list \<Rightarrow> nat \<Rightarrow> string + png_chunk_span" where
  "png_chunk_at bytes cursor =
     res_bind (ok_or (checked_add cursor 8) ''PNG chunk size overflow'') (\<lambda>header_end.
     if length bytes < header_end then Inl ''truncated PNG chunk header''
     else
     let len = unat (u32_from_be_bytes (sub_slice cursor (cursor + 4) bytes));
         chunk_type = sub_slice (cursor + 4) header_end bytes in
     res_bind (ok_or (checked_add header_end len) ''PNG chunk size overflow'') (\<lambda>data_end.
     res_bind (ok_or (checked_add data_end 4) ''PNG chunk size overflow'') (\<lambda>chunk_end.
     if length bytes < chunk_end then Inl ''truncated PNG chunk data''
     else if png_crc32 (sub_slice (cursor + 4) data_end bytes) \<noteq> u32_from_be_bytes (sub_slice data_end chunk_end bytes)
     then Inl ''PNG chunk CRC mismatch''
     else Inr \<lparr>ps_length = len, ps_chunk_type = chunk_type, ps_header_end = header_end,
                ps_chunk_end = chunk_end\<rparr>)))"

definition png_header_check :: "u8 list \<Rightarrow> nat \<Rightarrow> png_chunk_span \<Rightarrow> string + unit" where
  "png_header_check bytes chunk_index s =
     (if chunk_index = 0 then
        if ps_chunk_type s \<noteq> ihdr \<or> ps_length s \<noteq> 13
        then Inl ''first PNG chunk must be a 13-byte IHDR''
        else
          let width = u32_from_be_bytes (sub_slice (ps_header_end s) (ps_header_end s + 4) bytes);
              height = u32_from_be_bytes (sub_slice (ps_header_end s + 4) (ps_header_end s + 8) bytes) in
          if width = 0 \<or> height = 0 then Inl ''PNG dimensions must be non-zero'' else Inr ()
      else if ps_chunk_type s = ihdr then Inl ''PNG contains multiple IHDR chunks''
      else Inr ())"

definition png_step :: "u8 list \<Rightarrow> png_state \<Rightarrow> string + png_state" where
  "png_step bytes st =
     res_bind (png_chunk_at bytes (pg_cursor st)) (\<lambda>s.
     res_bind (png_header_check bytes (pg_chunk_index st) s) (\<lambda>_.
     let saw_idat = (pg_saw_idat st \<or> ps_chunk_type s = idat \<and> 0 < ps_length s);
         next_state = \<lparr>pg_cursor = ps_chunk_end s, pg_chunk_index = pg_chunk_index st + 1,
           pg_saw_idat = saw_idat, pg_saw_iend = pg_saw_iend st\<rparr> in
     if ps_chunk_type s = iend then
       if ps_length s \<noteq> 0 then Inl ''PNG IEND chunk must be empty''
       else if ps_chunk_end s \<noteq> length bytes then Inl ''PNG has trailing bytes after IEND''
       else Inr (next_state\<lparr>pg_saw_iend := True\<rparr>)
     else Inr next_state))"

lemma png_chunk_at_end:
  "png_chunk_at bytes c = Inr s \<Longrightarrow> ps_chunk_end s = c + 12 + ps_length s \<and> ps_header_end s = c + 8 \<and>
     ps_chunk_end s \<le> length bytes"
  by (auto simp: png_chunk_at_def Let_def result_simps checked_add_Some split: if_splits)

lemma png_step_cursor: "png_step bytes st = Inr st' \<Longrightarrow> pg_cursor st < pg_cursor st'"
  by (auto simp: png_step_def Let_def result_simps split: if_splits dest: png_chunk_at_end)

function png_loop :: "u8 list \<Rightarrow> png_state \<Rightarrow> string + png_state" where
  "png_loop bytes st =
     (if pg_cursor st < length bytes then
        case png_step bytes st of Inl e \<Rightarrow> Inl e | Inr st' \<Rightarrow> png_loop bytes st'
      else Inr st)"
  by pat_completeness auto

termination
  by (relation "measure (\<lambda>(bytes, st). length bytes - pg_cursor st)") (auto dest!: png_step_cursor)

definition validate_png :: "u8 list \<Rightarrow> string + unit" where
  "validate_png bytes =
     (if take (length png_signature) bytes \<noteq> png_signature then Inl ''missing PNG signature''
      else
      res_bind (png_loop bytes \<lparr>pg_cursor = length png_signature, pg_chunk_index = 0,
        pg_saw_idat = False, pg_saw_iend = False\<rparr>) (\<lambda>st.
      if \<not> pg_saw_idat st then Inl ''PNG is missing image data''
      else if \<not> pg_saw_iend st then Inl ''PNG is missing IEND''
      else Inr ()))"

declare png_loop.simps [simp del]

section \<open>The format\<close>

text \<open>A chunk is its type and its data; \<open>png_encode\<close> writes length, type, data and checksum.\<close>

type_synonym png_chunk = "u8 list \<times> u8 list"

definition png_chunk_ok :: "png_chunk \<Rightarrow> bool" where
  "png_chunk_ok c \<longleftrightarrow> length (fst c) = 4 \<and> length (snd c) < 2 ^ 32"

definition png_encode :: "png_chunk \<Rightarrow> u8 list" where
  "png_encode c = be_bytes 4 (length (snd c)) @ fst c @ snd c @
     be_bytes 4 (unat (png_crc32 (fst c @ snd c)))"

definition png_wf :: "png_chunk list \<Rightarrow> bool" where
  "png_wf cs \<longleftrightarrow> (\<exists>header body. cs = (ihdr, header) # body @ [(iend, [])] \<and> length header = 13 \<and>
     be_nat (sub_slice 0 4 header) \<noteq> 0 \<and> be_nat (sub_slice 4 8 header) \<noteq> 0 \<and>
     (\<forall>c\<in>set body. fst c \<noteq> ihdr \<and> fst c \<noteq> iend) \<and> (\<exists>d. (idat, d) \<in> set body \<and> d \<noteq> []))"

section \<open>Reading a chunk\<close>

lemma png_encode_nonempty [simp]: "png_encode c \<noteq> []"
  by (auto simp: png_encode_def dest: arg_cong [where f = length])

lemma png_chunk_at_iff:
  assumes "length bytes < 2 ^ 63" "c < length bytes"
  shows "png_chunk_at bytes c = Inr s \<longleftrightarrow> (\<exists>t d. png_chunk_ok (t, d) \<and>
     drop c bytes = png_encode (t, d) @ drop (c + 12 + length d) bytes \<and>
     s = \<lparr>ps_length = length d, ps_chunk_type = t, ps_header_end = c + 8, ps_chunk_end = c + 12 + length d\<rparr>)"
    (is "?L \<longleftrightarrow> ?R")
proof
  assume L: ?L
  define n where "n = be_nat (sub_slice c (c + 4) bytes)"
  define d where "d = sub_slice (c + 8) (c + 8 + n) bytes"
  define t where "t = sub_slice (c + 4) (c + 8) bytes"
  from L have e: "c + 12 + n \<le> length bytes"
    and crc: "png_crc32 (sub_slice (c + 4) (c + 8 + n) bytes) =
        u32_from_be_bytes (sub_slice (c + 8 + n) (c + 12 + n) bytes)"
    and s: "s = \<lparr>ps_length = n, ps_chunk_type = t, ps_header_end = c + 8, ps_chunk_end = c + 12 + n\<rparr>"
    by (auto simp: png_chunk_at_def Let_def result_simps checked_add_Some unat_u32_from_be n_def t_def
        algebra_simps split: if_splits)
  have td: "length t = 4" "length d = n" "t @ d = sub_slice (c + 4) (c + 8 + n) bytes"
    using e by (simp_all add: t_def d_def slice_append)
  have n: "n < 2 ^ 32" using be_nat_bound [of "sub_slice c (c + 4) bytes"] e by (simp add: n_def)
  have len: "sub_slice c (c + 4) bytes = be_bytes 4 n"
    using be_bytes_be_nat [of "sub_slice c (c + 4) bytes" 4] e by (simp add: n_def)
  have sum: "sub_slice (c + 8 + n) (c + 12 + n) bytes = be_bytes 4 (unat (png_crc32 (t @ d)))"
    using be_bytes_be_nat [of "sub_slice (c + 8 + n) (c + 12 + n) bytes" 4] e
    by (simp add: td(3) crc unat_u32_from_be)
  have "drop c bytes = sub_slice c (c + 4) bytes @ drop (c + 4) bytes"
    by (rule slice_drop [symmetric]) simp
  also have "drop (c + 4) bytes = t @ drop (c + 8) bytes"
    unfolding t_def by (rule slice_drop [symmetric]) simp
  also have "drop (c + 8) bytes = d @ drop (c + 8 + n) bytes"
    unfolding d_def by (rule slice_drop [symmetric]) simp
  also have "drop (c + 8 + n) bytes = sub_slice (c + 8 + n) (c + 12 + n) bytes @ drop (c + 12 + n) bytes"
    by (rule slice_drop [symmetric]) simp
  finally have "drop c bytes = png_encode (t, d) @ drop (c + 12 + n) bytes"
    by (simp add: png_encode_def len sum td(2))
  then show ?R
    using td n s by (intro exI [of _ t] exI [of _ d]) (simp add: png_chunk_ok_def)
next
  assume ?R
  then obtain t d where ok: "length t = 4" "length d < 2 ^ 32"
    and b: "drop c bytes = png_encode (t, d) @ drop (c + 12 + length d) bytes"
    and s: "s = \<lparr>ps_length = length d, ps_chunk_type = t, ps_header_end = c + 8,
        ps_chunk_end = c + 12 + length d\<rparr>"
    by (auto simp: png_chunk_ok_def)
  let ?sum = "be_bytes 4 (unat (png_crc32 (t @ d)))"
  have e: "c + 12 + length d \<le> length bytes"
    using arg_cong [OF b, of length] ok(1) assms(2) by (simp add: png_encode_def)
  have b: "drop c bytes = be_bytes 4 (length d) @ t @ d @ ?sum @ drop (c + 12 + length d) bytes"
    using b by (simp add: png_encode_def)
  have 1: "sub_slice c (c + 4) bytes = be_bytes 4 (length d)" using slice_of_drop [OF b] by simp
  have b1: "drop (c + 4) bytes = t @ d @ ?sum @ drop (c + 12 + length d) bytes"
    using drop_of_drop [OF b] by simp
  have 2: "sub_slice (c + 4) (c + 8) bytes = t" using slice_of_drop [OF b1] ok(1) by (simp add: add.commute)
  have 3: "sub_slice (c + 4) (c + 8 + length d) bytes = t @ d"
    using slice_of_drop [of "c + 4" bytes "t @ d"] b1 ok(1) by (simp add: algebra_simps)
  have "drop (c + 4 + length (t @ d)) bytes = ?sum @ drop (c + 12 + length d) bytes"
    by (rule drop_of_drop) (simp add: b1)
  then have b2: "drop (c + 8 + length d) bytes = ?sum @ drop (c + 12 + length d) bytes"
    using ok(1) by (simp add: algebra_simps)
  have 4: "sub_slice (c + 8 + length d) (c + 12 + length d) bytes = ?sum"
    using slice_of_drop [OF b2] by (simp add: algebra_simps)
  have "be_nat ?sum = unat (png_crc32 (t @ d))"
    by (rule be_nat_be_bytes) (use unsigned_less [of "png_crc32 (t @ d)"] in simp)
  then have 5: "u32_from_be_bytes ?sum = png_crc32 (t @ d)"
    by (simp add: u32_from_be_bytes_def)
  have 6: "unat (u32_from_be_bytes (be_bytes 4 (length d))) = length d"
    using ok(2) by (simp add: unat_u32_from_be be_nat_be_bytes)
  show ?L
    using e assms(1) ok 1 2 3 4 5 6
    by (simp add: png_chunk_at_def Let_def checked_add_small s algebra_simps)
qed

section \<open>The checks along the chunks\<close>

text \<open>What the loop checks, on a list of chunks: \<open>i\<close> chunks were read, the flags are those of the state.\<close>

definition first_chunk_ok :: "nat \<Rightarrow> png_chunk \<Rightarrow> bool" where
  "first_chunk_ok i c \<longleftrightarrow> (if i = 0
     then fst c = ihdr \<and> length (snd c) = 13 \<and> be_nat (sub_slice 0 4 (snd c)) \<noteq> 0 \<and>
       be_nat (sub_slice 4 8 (snd c)) \<noteq> 0
     else fst c \<noteq> ihdr)"

fun png_visit :: "nat \<Rightarrow> bool \<Rightarrow> bool \<Rightarrow> png_chunk list \<Rightarrow> bool" where
  "png_visit i a b [] \<longleftrightarrow> a \<and> b"
| "png_visit i a b (c # cs) \<longleftrightarrow> first_chunk_ok i c \<and> (fst c = iend \<longrightarrow> snd c = [] \<and> cs = []) \<and>
     png_visit (Suc i) (a \<or> fst c = idat \<and> snd c \<noteq> []) (b \<or> fst c = iend) cs"

lemma chunk_types [simp]: "ihdr \<noteq> iend" "idat \<noteq> iend" "ihdr \<noteq> idat" "iend \<noteq> ihdr" "iend \<noteq> idat" "idat \<noteq> ihdr"
  by (simp_all add: ihdr_def iend_def idat_def)

lemma png_visit_body:
  "png_visit (Suc i) a False cs \<longleftrightarrow> (\<exists>body. cs = body @ [(iend, [])] \<and>
     (\<forall>c\<in>set body. fst c \<noteq> ihdr \<and> fst c \<noteq> iend) \<and> (a \<or> (\<exists>d. (idat, d) \<in> set body \<and> d \<noteq> [])))"
proof (induction cs arbitrary: i a)
  case Nil
  then show ?case by simp
next
  case (Cons c cs)
  show ?case
  proof (cases "fst c = iend")
    case True
    have "(\<exists>body. c # cs = body @ [(iend, [])] \<and>
       (\<forall>c\<in>set body. fst c \<noteq> ihdr \<and> fst c \<noteq> iend) \<and> (a \<or> (\<exists>d. (idat, d) \<in> set body \<and> d \<noteq> []))) \<longleftrightarrow>
       c = (iend, []) \<and> cs = [] \<and> a"
      using True by (auto simp: Cons_eq_append_conv)
    with True show ?thesis by (auto simp: first_chunk_ok_def prod_eq_iff)
  next
    case False
    have "(\<exists>body. c # cs = body @ [(iend, [])] \<and>
       (\<forall>c\<in>set body. fst c \<noteq> ihdr \<and> fst c \<noteq> iend) \<and> (a \<or> (\<exists>d. (idat, d) \<in> set body \<and> d \<noteq> []))) \<longleftrightarrow>
       fst c \<noteq> ihdr \<and> (\<exists>body. cs = body @ [(iend, [])] \<and> (\<forall>c\<in>set body. fst c \<noteq> ihdr \<and> fst c \<noteq> iend) \<and>
         ((a \<or> fst c = idat \<and> snd c \<noteq> []) \<or> (\<exists>d. (idat, d) \<in> set body \<and> d \<noteq> [])))" (is "?A \<longleftrightarrow> ?B")
    proof
      assume ?A
      then show ?B using False by (auto simp: Cons_eq_append_conv)
    next
      assume ?B
      then obtain body where b: "cs = body @ [(iend, [])]" "fst c \<noteq> ihdr"
        "\<forall>c\<in>set body. fst c \<noteq> ihdr \<and> fst c \<noteq> iend"
        "a \<or> fst c = idat \<and> snd c \<noteq> [] \<or> (\<exists>d. (idat, d) \<in> set body \<and> d \<noteq> [])" by blast
      then show ?A using False by (intro exI [of _ "c # body"]) (cases c, auto)
    qed
    with False Cons.IH [of "Suc i" "a \<or> fst c = idat \<and> snd c \<noteq> []"] show ?thesis
      by (simp add: first_chunk_ok_def)
  qed
qed

lemma png_visit_wf: "png_visit 0 False False cs \<longleftrightarrow> png_wf cs"
proof (cases cs)
  case (Cons c cs')
  obtain t d where "c = (t, d)" by (cases c)
  with Cons show ?thesis
    using png_visit_body [of 0 False cs'] by (auto simp: png_wf_def first_chunk_ok_def)
qed (simp add: png_wf_def)

lemma u32_zero_iff: "length bs = 4 \<Longrightarrow> u32_from_be_bytes bs = 0 \<longleftrightarrow> be_nat bs = 0"
  using unat_u32_from_be [of bs] by (metis unat_eq_zero unsigned_0)

lemma header_check_iff:
  assumes "drop c bytes = png_encode (t, d) @ rest"  "length t = 4"
  shows "png_header_check bytes i \<lparr>ps_length = length d, ps_chunk_type = t, ps_header_end = c + 8, ps_chunk_end = e\<rparr>
     = Inr u \<longleftrightarrow> first_chunk_ok i (t, d)"
proof -
  have "drop (c + 8) bytes = d @ be_bytes 4 (unat (png_crc32 (t @ d))) @ rest"
    using drop_of_drop [of c bytes "be_bytes 4 (length d) @ t"] assms by (simp add: png_encode_def)
  then have "sub_slice (c + 8) (c + 12) bytes = sub_slice 0 4 d \<and> sub_slice (c + 12) (c + 16) bytes = sub_slice 4 8 d"
    if "length d = 13"
  proof -
    have "drop (c + 12) bytes = drop 4 (drop (c + 8) bytes)" by (simp add: add.commute)
    with \<open>drop (c + 8) bytes = _\<close> that show ?thesis by (simp add: sub_slice_def)
  qed
  then show ?thesis
    by (auto simp: png_header_check_def first_chunk_ok_def Let_def u32_zero_iff add.commute [of c])
qed

lemma png_step_iff:
  assumes "length bytes < 2 ^ 63" "pg_cursor st < length bytes"
  shows "png_step bytes st = Inr st' \<longleftrightarrow> (\<exists>t d. png_chunk_ok (t, d) \<and>
     drop (pg_cursor st) bytes = png_encode (t, d) @ drop (pg_cursor st + 12 + length d) bytes \<and>
     first_chunk_ok (pg_chunk_index st) (t, d) \<and>
     (t = iend \<longrightarrow> d = [] \<and> pg_cursor st + 12 + length d = length bytes) \<and>
     st' = \<lparr>pg_cursor = pg_cursor st + 12 + length d, pg_chunk_index = Suc (pg_chunk_index st),
       pg_saw_idat = (pg_saw_idat st \<or> t = idat \<and> d \<noteq> []), pg_saw_iend = (pg_saw_iend st \<or> t = iend)\<rparr>)"
    (is "_ \<longleftrightarrow> (\<exists>t d. ?P t d)")
proof -
  have check: "png_header_check bytes (pg_chunk_index st) \<lparr>ps_length = length d, ps_chunk_type = t,
      ps_header_end = pg_cursor st + 8, ps_chunk_end = e\<rparr> = Inr u \<longleftrightarrow> first_chunk_ok (pg_chunk_index st) (t, d)"
    if "png_chunk_ok (t, d)" "drop (pg_cursor st) bytes = png_encode (t, d) @ rest" for t d e u rest
    using header_check_iff [OF that(2)] that(1) by (simp add: png_chunk_ok_def)
  show ?thesis
  proof
    assume "png_step bytes st = Inr st'"
    then obtain s where s: "png_chunk_at bytes (pg_cursor st) = Inr s"
      and u: "png_header_check bytes (pg_chunk_index st) s = Inr ()"
      and st': "st' = \<lparr>pg_cursor = ps_chunk_end s, pg_chunk_index = Suc (pg_chunk_index st),
         pg_saw_idat = (pg_saw_idat st \<or> ps_chunk_type s = idat \<and> 0 < ps_length s),
         pg_saw_iend = (pg_saw_iend st \<or> ps_chunk_type s = iend)\<rparr>"
        "ps_chunk_type s = iend \<longrightarrow> ps_length s = 0 \<and> ps_chunk_end s = length bytes"
      by (auto simp: png_step_def Let_def result_simps split: if_splits)
    from s [unfolded png_chunk_at_iff [OF assms]] check u st' show "\<exists>t d. ?P t d" by fastforce
  next
    assume "\<exists>t d. ?P t d"
    then obtain t d where p: "?P t d" by blast
    let ?s = "\<lparr>ps_length = length d, ps_chunk_type = t, ps_header_end = pg_cursor st + 8,
        ps_chunk_end = pg_cursor st + 12 + length d\<rparr>"
    have "png_chunk_at bytes (pg_cursor st) = Inr ?s"
      using p unfolding png_chunk_at_iff [OF assms] by blast
    moreover have "png_header_check bytes (pg_chunk_index st) ?s = Inr ()" using p check by blast
    ultimately show "png_step bytes st = Inr st'" using p by (auto simp: png_step_def Let_def)
  qed
qed

lemma png_loop_iff:
  assumes "length bytes < 2 ^ 63" "pg_cursor st \<le> length bytes"
  shows "(\<exists>st'. png_loop bytes st = Inr st' \<and> pg_saw_idat st' \<and> pg_saw_iend st') \<longleftrightarrow>
     (\<exists>cs. list_all png_chunk_ok cs \<and> drop (pg_cursor st) bytes = concat (map png_encode cs) \<and>
        png_visit (pg_chunk_index st) (pg_saw_idat st) (pg_saw_iend st) cs)"
  using assms
proof (induction bytes st rule: png_loop.induct)
  case (1 bytes st)
  show ?case
  proof (cases "pg_cursor st < length bytes")
    case False
    then have "(list_all png_chunk_ok cs \<and> drop (pg_cursor st) bytes = concat (map png_encode cs) \<and>
        png_visit (pg_chunk_index st) (pg_saw_idat st) (pg_saw_iend st) cs) \<longleftrightarrow>
        cs = [] \<and> pg_saw_idat st \<and> pg_saw_iend st" for cs by (cases cs) auto
    with False show ?thesis by (simp add: png_loop.simps)
  next
    case True
    note step = png_step_iff [OF 1(2) True]
    show ?thesis
    proof
      assume "\<exists>st'. png_loop bytes st = Inr st' \<and> pg_saw_idat st' \<and> pg_saw_iend st'"
      then obtain st1 where st1: "png_step bytes st = Inr st1"
        and l: "\<exists>st'. png_loop bytes st1 = Inr st' \<and> pg_saw_idat st' \<and> pg_saw_iend st'"
        using True by (auto simp: png_loop.simps [of bytes st] split: sum.splits)
      from st1 [unfolded step] obtain t d where td: "png_chunk_ok (t, d)"
        "drop (pg_cursor st) bytes = png_encode (t, d) @ drop (pg_cursor st + 12 + length d) bytes"
        "first_chunk_ok (pg_chunk_index st) (t, d)"
        "t = iend \<longrightarrow> d = [] \<and> pg_cursor st + 12 + length d = length bytes"
        "st1 = \<lparr>pg_cursor = pg_cursor st + 12 + length d, pg_chunk_index = Suc (pg_chunk_index st),
           pg_saw_idat = (pg_saw_idat st \<or> t = idat \<and> d \<noteq> []), pg_saw_iend = (pg_saw_iend st \<or> t = iend)\<rparr>"
        by blast
      have "pg_cursor st1 \<le> length bytes"
        using arg_cong [OF td(2), of length] True td(1) by (simp add: td(5) png_encode_def png_chunk_ok_def)
      with 1(1) [OF True st1 1(2)] l obtain cs where cs: "list_all png_chunk_ok cs"
        "drop (pg_cursor st1) bytes = concat (map png_encode cs)"
        "png_visit (pg_chunk_index st1) (pg_saw_idat st1) (pg_saw_iend st1) cs" by blast
      have "cs = []" if "t = iend"
        using that td(4,5) cs(2) by (cases cs) auto
      with td cs show "\<exists>cs. list_all png_chunk_ok cs \<and> drop (pg_cursor st) bytes = concat (map png_encode cs) \<and>
          png_visit (pg_chunk_index st) (pg_saw_idat st) (pg_saw_iend st) cs"
        by (intro exI [of _ "(t, d) # cs"]) auto
    next
      assume "\<exists>cs. list_all png_chunk_ok cs \<and> drop (pg_cursor st) bytes = concat (map png_encode cs) \<and>
          png_visit (pg_chunk_index st) (pg_saw_idat st) (pg_saw_iend st) cs"
      then obtain c cs where c: "list_all png_chunk_ok (c # cs)"
        "drop (pg_cursor st) bytes = concat (map png_encode (c # cs))"
        "png_visit (pg_chunk_index st) (pg_saw_idat st) (pg_saw_iend st) (c # cs)"
        using True by (metis concat.simps(1) drop_eq_Nil2 list.exhaust list.simps(8) not_le)
      obtain t d where [simp]: "c = (t, d)" by (cases c)
      have e: "length (png_encode (t, d)) = 12 + length d" using c(1) by (simp add: png_encode_def png_chunk_ok_def)
      have rest: "drop (pg_cursor st + 12 + length d) bytes = concat (map png_encode cs)"
        using drop_of_drop [of "pg_cursor st" bytes "png_encode (t, d)"] c(2) e by (simp add: add.assoc)
      let ?st1 = "\<lparr>pg_cursor = pg_cursor st + 12 + length d, pg_chunk_index = Suc (pg_chunk_index st),
           pg_saw_idat = (pg_saw_idat st \<or> t = idat \<and> d \<noteq> []), pg_saw_iend = (pg_saw_iend st \<or> t = iend)\<rparr>"
      have le: "pg_cursor st + 12 + length d \<le> length bytes"
        using arg_cong [OF c(2), of length] e True by simp
      have "pg_cursor st + 12 + length d = length bytes" if "cs = []"
        using rest le that by simp
      then have st1: "png_step bytes st = Inr ?st1"
        unfolding step using c rest by (intro exI [of _ t] exI [of _ d]) auto
      have "\<exists>cs. list_all png_chunk_ok cs \<and> drop (pg_cursor ?st1) bytes = concat (map png_encode cs) \<and>
          png_visit (pg_chunk_index ?st1) (pg_saw_idat ?st1) (pg_saw_iend ?st1) cs"
        using c rest by auto
      moreover have "pg_cursor ?st1 \<le> length bytes" using le by simp
      ultimately have "\<exists>st'. png_loop bytes ?st1 = Inr st' \<and> pg_saw_idat st' \<and> pg_saw_iend st'"
        using 1(1) [OF True st1 1(2)] by blast
      then show "\<exists>st'. png_loop bytes st = Inr st' \<and> pg_saw_idat st' \<and> pg_saw_iend st'" using True st1 by (simp add: png_loop.simps [of bytes st])
    qed
  qed
qed

section \<open>The reader accepts exactly the format\<close>

text \<open>C38: The check of PNG files accepts exactly the well-formed ones: the signature, then chunks that carry
  their length and a correct checksum, the first a header with non-zero dimensions, one end chunk without
  data at the very end, and some image data between.  No length in a file can make it overflow or read
  outside the content.\<close>

theorem png_accepts_exactly:
  assumes "length bytes < 2 ^ 63"
  shows "validate_png bytes = Inr () \<longleftrightarrow>
     (\<exists>cs. list_all png_chunk_ok cs \<and> png_wf cs \<and> bytes = png_signature @ concat (map png_encode cs))"
proof -
  let ?st = "\<lparr>pg_cursor = length png_signature, pg_chunk_index = 0, pg_saw_idat = False, pg_saw_iend = False\<rparr>"
  have "validate_png bytes = Inr () \<longleftrightarrow> take (length png_signature) bytes = png_signature \<and>
      (\<exists>st'. png_loop bytes ?st = Inr st' \<and> pg_saw_idat st' \<and> pg_saw_iend st')"
    by (auto simp: validate_png_def result_simps split: if_splits)
  also have "\<dots> \<longleftrightarrow> take (length png_signature) bytes = png_signature \<and>
      (\<exists>cs. list_all png_chunk_ok cs \<and> drop (length png_signature) bytes = concat (map png_encode cs) \<and> png_wf cs)"
  proof -
    have "length png_signature \<le> length bytes" if "take (length png_signature) bytes = png_signature"
      using arg_cong [OF that, of length] by simp
    then show ?thesis using png_loop_iff [OF assms, of ?st] by (auto simp: png_visit_wf)
  qed
  also have "\<dots> \<longleftrightarrow> (\<exists>cs. list_all png_chunk_ok cs \<and> png_wf cs \<and> bytes = png_signature @ concat (map png_encode cs))"
    by (metis append_eq_conv_conj)
  finally show ?thesis .
qed

text \<open>A picture of one by one pixels.\<close>

definition sample_png :: "u8 list" where
  "sample_png = png_signature @ concat (map png_encode
     [(ihdr, [0, 0, 0, 1, 0, 0, 0, 1, 8, 0, 0, 0, 0]), (idat, [0x78, 0x9C]), (iend, [])])"

lemma png_accepts_exactly_witness: "validate_png sample_png = Inr ()"
proof -
  have "length sample_png < 2 ^ 63"
    by (simp add: sample_png_def png_signature_def png_encode_def ihdr_def idat_def iend_def)
  moreover have "list_all png_chunk_ok [(ihdr, [0, 0, 0, 1, 0, 0, 0, 1, 8, 0, 0, 0, 0]), (idat, [0x78, 0x9C]), (iend, [])]"
    by (simp add: png_chunk_ok_def ihdr_def idat_def iend_def)
  moreover have "png_wf [(ihdr, [0, 0, 0, 1, 0, 0, 0, 1, 8, 0, 0, 0, 0]), (idat, [0x78, 0x9C]), (iend, [])]"
    unfolding png_wf_def by (intro exI [of _ "[0, 0, 0, 1, 0, 0, 0, 1, 8, 0, 0, 0, 0]"] exI [of _ "[(idat, [0x78, 0x9C])]"])
      (simp add: sub_slice_def be_nat_def)
  ultimately show ?thesis
    using png_accepts_exactly [of sample_png] unfolding sample_png_def by blast
qed

end
