(* ===== verification/Mp4_Format.thy ===== *)
theory Mp4_Format
  imports Big_Endian Prelude
begin

text \<open>
  The check of MP4 files (crates/run/src/artifacts.rs, \<open>validate_mp4\<close> and the functions it
  calls): the reader as the loops of the code over a cursor, and the nested boxes it accepts as a
  declarative format.  On a 64-bit machine the conversions to \<open>usize\<close> cannot fail.
\<close>

section \<open>Reading a box\<close>

definition box_ftyp :: "u8 list" where "box_ftyp = [0x66, 0x74, 0x79, 0x70]"
definition box_moov :: "u8 list" where "box_moov = [0x6D, 0x6F, 0x6F, 0x76]"
definition box_mdat :: "u8 list" where "box_mdat = [0x6D, 0x64, 0x61, 0x74]"
definition box_mvhd :: "u8 list" where "box_mvhd = [0x6D, 0x76, 0x68, 0x64]"
definition box_trak :: "u8 list" where "box_trak = [0x74, 0x72, 0x61, 0x6B]"

record parsed_mp4_box =
  mb_kind :: "u8 list"
  mb_payload :: "u8 list"
  mb_end :: nat

definition mp4_extent :: "u8 list \<Rightarrow> nat \<Rightarrow> nat \<Rightarrow> u32 \<Rightarrow> string + nat \<times> nat" where
  "mp4_extent bytes offset base_header_end size32 =
     (if size32 = 0 then Inr (base_header_end, length bytes)
      else if size32 = 1 then
        res_bind (ok_or (checked_add offset 16) ''MP4 box size overflow'') (\<lambda>extended_header_end.
        if length bytes < extended_header_end then Inl ''truncated extended MP4 box header''
        else
        res_bind (ok_or (checked_add offset
            (unat (u64_from_be_bytes (sub_slice base_header_end extended_header_end bytes))))
          ''MP4 box size overflow'') (\<lambda>box_end. Inr (extended_header_end, box_end)))
      else
        res_bind (ok_or (checked_add offset (unat size32)) ''MP4 box size overflow'') (\<lambda>box_end.
        Inr (base_header_end, box_end)))"

definition parse_mp4_box :: "u8 list \<Rightarrow> nat \<Rightarrow> string + parsed_mp4_box" where
  "parse_mp4_box bytes offset =
     res_bind (ok_or (checked_add offset 8) ''MP4 box size overflow'') (\<lambda>base_header_end.
     if length bytes < base_header_end then Inl ''truncated MP4 box header''
     else
     res_bind (mp4_extent bytes offset base_header_end (u32_from_be_bytes (sub_slice offset (offset + 4) bytes)))
       (\<lambda>(header_end, box_end).
     if box_end < header_end \<or> length bytes < box_end then Inl ''MP4 box size exceeds content bounds''
     else Inr \<lparr>mb_kind = sub_slice (offset + 4) base_header_end bytes,
                mb_payload = sub_slice header_end box_end bytes, mb_end = box_end\<rparr>))"

lemma parse_mp4_box_progress:
  "parse_mp4_box bytes c = Inr b \<Longrightarrow> c < mb_end b \<and> mb_end b \<le> length bytes"
  by (auto simp: parse_mp4_box_def mp4_extent_def result_simps checked_add_Some split: if_splits)

section \<open>Reading a file\<close>

fun chunks_exact_4 :: "'a list \<Rightarrow> 'a list list" where
  "chunks_exact_4 (a # b # c # d # r) = [a, b, c, d] # chunks_exact_4 r"
| "chunks_exact_4 _ = []"

definition supported_brands :: "u8 list list" where
  "supported_brands =
     [[0x69, 0x73, 0x6F, 0x6D], [0x69, 0x73, 0x6F, 0x32], [0x61, 0x76, 0x63, 0x31],
      [0x6D, 0x70, 0x34, 0x31], [0x6D, 0x70, 0x34, 0x32], [0x71, 0x74, 0x20, 0x20]]"

definition validate_ftyp :: "u8 list \<Rightarrow> string + unit" where
  "validate_ftyp payload =
     (if length payload < 8 \<or> \<not> 4 dvd (length payload - 8) then Inl ''MP4 ftyp box has invalid length''
      else if sub_slice 0 4 payload \<notin> set supported_brands \<and>
        \<not> list_ex (\<lambda>brand. brand \<in> set supported_brands) (chunks_exact_4 (drop 8 payload))
      then Inl ''MP4 ftyp has no supported brand''
      else Inr ())"

function mp4_container_loop :: "u8 list \<Rightarrow> u8 list \<Rightarrow> nat \<Rightarrow> string + bool" where
  "mp4_container_loop bytes expected cursor =
     (if cursor < length bytes then
        case parse_mp4_box bytes cursor of
          Inl e \<Rightarrow> Inl e
        | Inr parsed \<Rightarrow>
            if mb_kind parsed = expected then Inr True
            else mp4_container_loop bytes expected (mb_end parsed)
      else Inr False)"
  by pat_completeness auto

termination
  by (relation "measure (\<lambda>(bytes, expected, cursor). length bytes - cursor)")
    (auto dest!: parse_mp4_box_progress)

definition mp4_container_has_box :: "u8 list \<Rightarrow> u8 list \<Rightarrow> string + bool" where
  "mp4_container_has_box bytes expected = mp4_container_loop bytes expected 0"

record mp4_state =
  ms_cursor :: nat
  ms_box_index :: nat
  ms_saw_ftyp :: bool
  ms_saw_moov :: bool
  ms_saw_mdat :: bool

text \<open>\<open>a || !b? || !c?\<close>: the test of a movie box stops at the first part that decides it.\<close>

definition moov_incomplete :: "u8 list \<Rightarrow> string + bool" where
  "moov_incomplete payload =
     (if payload = [] then Inr True
      else
      res_bind (mp4_container_has_box payload box_mvhd) (\<lambda>mvhd.
      if \<not> mvhd then Inr True
      else
      res_bind (mp4_container_has_box payload box_trak) (\<lambda>trak. Inr (\<not> trak))))"

definition mp4_box_step :: "parsed_mp4_box \<Rightarrow> mp4_state \<Rightarrow> string + mp4_state" where
  "mp4_box_step parsed st =
     (let next_state = st\<lparr>ms_cursor := mb_end parsed, ms_box_index := ms_box_index st + 1\<rparr> in
      if ms_box_index st = 0 \<and> mb_kind parsed \<noteq> box_ftyp then Inl ''first MP4 box must be ftyp''
      else if mb_kind parsed = box_ftyp then
        if ms_saw_ftyp st then Inl ''MP4 contains multiple ftyp boxes''
        else res_bind (validate_ftyp (mb_payload parsed)) (\<lambda>_. Inr (next_state\<lparr>ms_saw_ftyp := True\<rparr>))
      else if mb_kind parsed = box_moov then
        res_bind (moov_incomplete (mb_payload parsed)) (\<lambda>incomplete.
        if incomplete then Inl ''MP4 moov box is missing movie or track metadata''
        else Inr (next_state\<lparr>ms_saw_moov := True\<rparr>))
      else if mb_kind parsed = box_mdat then
        if mb_payload parsed = [] then Inl ''MP4 mdat box is empty''
        else Inr (next_state\<lparr>ms_saw_mdat := True\<rparr>)
      else Inr next_state)"

lemma mp4_box_step_cursor: "mp4_box_step b st = Inr st' \<Longrightarrow> ms_cursor st' = mb_end b"
  by (auto simp: mp4_box_step_def Let_def result_simps split: if_splits)

function mp4_loop :: "u8 list \<Rightarrow> mp4_state \<Rightarrow> string + mp4_state" where
  "mp4_loop bytes st =
     (if ms_cursor st < length bytes then
        case parse_mp4_box bytes (ms_cursor st) of
          Inl e \<Rightarrow> Inl e
        | Inr parsed \<Rightarrow>
            (case mp4_box_step parsed st of
               Inl e \<Rightarrow> Inl e
             | Inr st' \<Rightarrow> mp4_loop bytes st')
      else Inr st)"
  by pat_completeness auto

termination
  by (relation "measure (\<lambda>(bytes, st). length bytes - ms_cursor st)")
    (auto dest!: parse_mp4_box_progress mp4_box_step_cursor)

definition validate_mp4 :: "u8 list \<Rightarrow> string + unit" where
  "validate_mp4 bytes =
     res_bind (mp4_loop bytes \<lparr>ms_cursor = 0, ms_box_index = 0, ms_saw_ftyp = False, ms_saw_moov = False,
       ms_saw_mdat = False\<rparr>) (\<lambda>st.
     if \<not> ms_saw_ftyp st \<or> \<not> ms_saw_moov st \<or> \<not> ms_saw_mdat st
     then Inl ''MP4 is missing ftyp, moov, or mdat box''
     else Inr ())"

declare mp4_loop.simps [simp del] mp4_container_loop.simps [simp del]

section \<open>The format\<close>

text \<open>A content starts with a box of kind \<open>k\<close> and payload \<open>p\<close>, and \<open>rest\<close> follows it: the size is
  written in 32 bits, or in 64 bits, or is 0 for a box that extends to the end.\<close>

definition box_at :: "u8 list \<Rightarrow> u8 list \<Rightarrow> u8 list \<Rightarrow> u8 list \<Rightarrow> bool" where
  "box_at b k p rest \<longleftrightarrow> length k = 4 \<and>
     (8 + length p < 2 ^ 32 \<and> b = be_bytes 4 (8 + length p) @ k @ p @ rest \<or>
      b = be_bytes 4 1 @ k @ be_bytes 8 (16 + length p) @ p @ rest \<or>
      rest = [] \<and> b = be_bytes 4 0 @ k @ p)"

fun mp4_boxes :: "u8 list \<Rightarrow> (u8 list \<times> u8 list) list \<Rightarrow> u8 list \<Rightarrow> bool" where
  "mp4_boxes b [] rest \<longleftrightarrow> b = rest"
| "mp4_boxes b ((k, p) # boxes) rest \<longleftrightarrow> (\<exists>r. box_at b k p r \<and> mp4_boxes r boxes rest)"

definition contains_box :: "u8 list \<Rightarrow> u8 list \<Rightarrow> bool" where
  "contains_box b k \<longleftrightarrow> (\<exists>boxes rest. mp4_boxes b boxes rest \<and> k \<in> fst ` set boxes)"

definition ftyp_wf :: "u8 list \<Rightarrow> bool" where
  "ftyp_wf p \<longleftrightarrow> (\<exists>major minor brands. p = major @ minor @ concat brands \<and> length major = 4 \<and>
     length minor = 4 \<and> (\<forall>b\<in>set brands. length b = 4) \<and>
     (\<exists>b\<in>set (major # brands). b \<in> set supported_brands))"

definition mp4_wf :: "(u8 list \<times> u8 list) list \<Rightarrow> bool" where
  "mp4_wf boxes \<longleftrightarrow> (\<exists>p more. boxes = (box_ftyp, p) # more \<and> ftyp_wf p \<and> box_ftyp \<notin> fst ` set more \<and>
     box_moov \<in> fst ` set more \<and> box_mdat \<in> fst ` set more \<and> (box_mdat, []) \<notin> set more \<and>
     (\<forall>p. (box_moov, p) \<in> set more \<longrightarrow> contains_box p box_mvhd \<and> contains_box p box_trak))"

section \<open>Reading a box is decoding it\<close>

lemma box_at_length: "box_at b k p r \<Longrightarrow> length r + length p + 8 \<le> length b"
  by (auto simp: box_at_def)

lemma box_at_cases:
  assumes "box_at b k p r"
  obtains (compact) "8 + length p < 2 ^ 32" "b = be_bytes 4 (8 + length p) @ k @ p @ r" "length k = 4"
  | (extended) "b = be_bytes 4 1 @ k @ be_bytes 8 (16 + length p) @ p @ r" "length k = 4"
  | (to_end) "r = []" "b = be_bytes 4 0 @ k @ p" "length k = 4"
  using assms by (auto simp: box_at_def)

lemma u32_be_bytes: "n < 2 ^ 32 \<Longrightarrow> u32_from_be_bytes (be_bytes 4 n) = of_nat n"
  by (simp add: u32_from_be_bytes_def be_nat_be_bytes)

lemma unat_small_u32: "n < 2 ^ 32 \<Longrightarrow> unat (of_nat n :: u32) = n"
  by (simp add: unat_of_nat)

lemma small_u32_special:
  assumes "n < 2 ^ 32" "2 \<le> n"
  shows "(of_nat n :: u32) \<noteq> 0" "(of_nat n :: u32) \<noteq> 1"
  using unat_small_u32 [OF assms(1)] assms(2) by (metis le_numeral_extra(2) not_numeral_le_zero unsigned_0,
    metis one_le_numeral numeral_le_one_iff semiring_norm(69) unsigned_1)

lemma box_at_parse:
  assumes "length bytes < 2 ^ 63" "c \<le> length bytes" "box_at (drop c bytes) k p r"
  shows "parse_mp4_box bytes c = Inr \<lparr>mb_kind = k, mb_payload = p, mb_end = length bytes - length r\<rparr>"
proof -
  note len = box_at_length [OF assms(3)]
  have k: "sub_slice (c + 4) (c + 8) bytes = k" if "drop c bytes = h @ k @ x" "length h = 4" "length k = 4" for h x
    using slice_of_drop [OF drop_of_drop [OF that(1)]] that(2,3) by (simp add: add.commute)
  from assms(3) show ?thesis
  proof (cases rule: box_at_cases)
    case compact
    have e: "length bytes - length r = c + 8 + length p" and "c + 8 \<le> length bytes"
      using arg_cong [OF compact(2), of length] compact(3) assms(2) by auto
    moreover have "sub_slice c (c + 4) bytes = be_bytes 4 (8 + length p)"
      using slice_of_drop [OF compact(2)] by simp
    moreover have "sub_slice (c + 8) (c + 8 + length p) bytes = p"
      using slice_of_drop [of "c + 8" bytes p r] drop_of_drop [of c bytes "be_bytes 4 (8 + length p) @ k" "p @ r"]
        compact(2,3) by (simp add: add.assoc)
    moreover note unat_small_u32 [OF compact(1)] small_u32_special [OF compact(1)]
    ultimately show ?thesis
      using k [OF compact(2)] compact(1,3) assms(1) len
      by (simp add: parse_mp4_box_def mp4_extent_def checked_add_small u32_be_bytes add.assoc del: of_nat_add)
  next
    case extended
    have e: "length bytes - length r = c + 16 + length p" and "c + 16 \<le> length bytes"
      using arg_cong [OF extended(1), of length] extended(2) assms(2) by auto
    moreover have "sub_slice c (c + 4) bytes = be_bytes 4 1"
      using slice_of_drop [OF extended(1)] by simp
    moreover have d: "drop (c + 8) bytes = be_bytes 8 (16 + length p) @ p @ r"
      using drop_of_drop [of c bytes "be_bytes 4 1 @ k" "be_bytes 8 (16 + length p) @ p @ r"]
        extended by (simp add: add.assoc)
    moreover have "sub_slice (c + 8) (c + 16) bytes = be_bytes 8 (16 + length p)"
      using slice_of_drop [OF d] by (simp add: add.assoc)
    moreover have "sub_slice (c + 16) (c + 16 + length p) bytes = p"
      using slice_of_drop [of "c + 16" bytes p r] drop_of_drop [OF d] by (simp add: add.assoc)
    moreover have "unat (u64_from_be_bytes (be_bytes 8 (16 + length p))) = 16 + length p"
      using e len assms(1) by (simp add: unat_u64_from_be be_nat_be_bytes)
    ultimately show ?thesis
      using k [OF extended(1)] extended(2) assms(1) len
      by (simp add: parse_mp4_box_def mp4_extent_def checked_add_small u32_be_bytes add.assoc)
  next
    case to_end
    have e: "length bytes = c + 8 + length p"
      using arg_cong [OF to_end(2), of length] to_end(3) assms(2) by auto
    moreover have "sub_slice c (c + 4) bytes = be_bytes 4 0"
      using slice_of_drop [OF to_end(2)] by simp
    moreover have "sub_slice (c + 8) (length bytes) bytes = p"
      using drop_of_drop [of c bytes "be_bytes 4 0 @ k" p] to_end e by (simp add: sub_slice_def)
    ultimately show ?thesis
      using k [OF to_end(2)] to_end assms(1)
      by (simp add: parse_mp4_box_def mp4_extent_def checked_add_small u32_be_bytes)
  qed
qed

lemma parse_box_at:
  assumes "length bytes < 2 ^ 63" "c \<le> length bytes" "parse_mp4_box bytes c = Inr b"
  shows "box_at (drop c bytes) (mb_kind b) (mb_payload b) (drop (mb_end b) bytes)"
proof -
  let ?w = "u32_from_be_bytes (sub_slice c (c + 4) bytes)"
  from assms(3) obtain h where h: "c + 8 \<le> length bytes" "mp4_extent bytes c (c + 8) ?w = Inr (h, mb_end b)"
    "h \<le> mb_end b" "mb_end b \<le> length bytes"
    and b: "mb_kind b = sub_slice (c + 4) (c + 8) bytes" "mb_payload b = sub_slice h (mb_end b) bytes"
    by (auto simp: parse_mp4_box_def result_simps checked_add_Some split: if_splits)
  define s where "s = sub_slice c (c + 4) bytes"
  have s: "length s = 4" "?w = u32_from_be_bytes s" using h(1) by (simp_all add: s_def)
  have size: "s = be_bytes 4 (unat ?w)"
    using be_bytes_be_nat [OF s(1)] unat_u32_from_be [OF s(1)] s(2) by simp
  have head: "drop c bytes = s @ mb_kind b @ drop (c + 8) bytes"
    unfolding s_def b(1) by (simp only: append.assoc [symmetric] slice_append slice_drop le_add1 add_le_cancel_left numeral_le_iff semiring_norm order_refl)
  have tail: "sub_slice x (mb_end b) bytes @ drop (mb_end b) bytes = drop x bytes" if "x \<le> mb_end b" for x
    by (rule slice_drop [OF that])
  have k: "length (mb_kind b) = 4" using h(1) by (simp add: b(1))
  consider "?w = 0" | "?w = 1" | "?w \<noteq> 0" "?w \<noteq> 1" by blast
  then show ?thesis
  proof cases
    case 1
    with h(2) have "h = c + 8" "mb_end b = length bytes" by (simp_all add: mp4_extent_def)
    then show ?thesis using head size k tail [of "c + 8"] h(3) 1 by (simp add: box_at_def b(2))
  next
    case 2
    define x where "x = sub_slice (c + 8) (c + 16) bytes"
    from h(2) 2 have e: "h = c + 16" "c + 16 \<le> length bytes" "mb_end b = c + unat (u64_from_be_bytes x)"
      by (auto simp: mp4_extent_def result_simps checked_add_Some x_def split: if_splits)
    have x: "length x = 8" using e(2) by (simp add: x_def)
    have n: "unat (u64_from_be_bytes x) = 16 + length (mb_payload b)"
      using e h(3,4) by (simp add: b(2))
    have "x = be_bytes 8 (16 + length (mb_payload b))"
      using be_bytes_be_nat [OF x] unat_u64_from_be [OF x] n by simp
    moreover have "drop (c + 8) bytes = x @ mb_payload b @ drop (mb_end b) bytes"
      using slice_drop [of "c + 8" "c + 16" bytes] tail [OF h(3)] by (simp add: x_def b(2) e(1))
    ultimately show ?thesis using head size k 2 by (simp add: box_at_def)
  next
    case 3
    with h(2) have e: "h = c + 8" "mb_end b = c + unat ?w"
      by (auto simp: mp4_extent_def result_simps checked_add_Some split: if_splits)
    have "unat ?w = 8 + length (mb_payload b)" using e h(3,4) by (simp add: b(2))
    moreover have "unat ?w < 2 ^ 32" using unsigned_less [of ?w] by simp
    ultimately show ?thesis
      using head size k tail [OF h(3)] by (simp add: box_at_def b(2) e(1))
  qed
qed

lemma box_at_unique:
  assumes "length b < 2 ^ 63" "box_at b k p r" "box_at b k' p' r'"
  shows "k = k' \<and> p = p' \<and> r = r'"
proof -
  have "\<exists>x. b = x @ r" if "box_at b k p r" for k p r
    using that by (cases rule: box_at_cases) (metis append.assoc append_Nil2)+
  then have "r = drop (length b - length r) b" if "box_at b k p r" for k p r
    using that by (metis append_eq_conv_conj length_append diff_add_inverse2)
  from this [OF assms(2)] this [OF assms(3)]
  have "r = drop (length b - length r) b" "r' = drop (length b - length r') b" .
  moreover have "\<lparr>mb_kind = k, mb_payload = p, mb_end = length b - length r\<rparr> =
      \<lparr>mb_kind = k', mb_payload = p', mb_end = length b - length r'\<rparr>"
    using box_at_parse [of b 0 k p r] box_at_parse [of b 0 k' p' r'] assms by simp
  ultimately show ?thesis by simp
qed

section \<open>The loops\<close>

lemma box_at_parse_iff:
  assumes "length bytes < 2 ^ 63" "c \<le> length bytes"
  shows "parse_mp4_box bytes c = Inr b \<longleftrightarrow> (\<exists>k p r. box_at (drop c bytes) k p r \<and> r = drop (mb_end b) bytes \<and>
     b = \<lparr>mb_kind = k, mb_payload = p, mb_end = length bytes - length r\<rparr>)"
proof
  assume p: "parse_mp4_box bytes c = Inr b"
  have "mb_end b = length bytes - length (drop (mb_end b) bytes)" using parse_mp4_box_progress [OF p] by simp
  with parse_box_at [OF assms p] show "\<exists>k p r. box_at (drop c bytes) k p r \<and> r = drop (mb_end b) bytes \<and>
     b = \<lparr>mb_kind = k, mb_payload = p, mb_end = length bytes - length r\<rparr>"
    by (intro exI [of _ "mb_kind b"] exI [of _ "mb_payload b"] exI [of _ "drop (mb_end b) bytes"]) simp
qed (use box_at_parse [OF assms] in auto)

lemma box_at_nonempty [simp]: "\<not> box_at [] k p r"
  using box_at_length [of "[]"] by auto

lemma contains_box_unfold:
  "contains_box b k \<longleftrightarrow> (\<exists>k' p r. box_at b k' p r \<and> (k' = k \<or> contains_box r k))"
proof
  assume "contains_box b k"
  then obtain boxes rest where b: "mp4_boxes b boxes rest" "k \<in> fst ` set boxes" by (auto simp: contains_box_def)
  then obtain k' p more where [simp]: "boxes = (k', p) # more" by (cases boxes) auto
  from b obtain r where "box_at b k' p r" "mp4_boxes r more rest" "k' = k \<or> k \<in> fst ` set more" by auto
  then show "\<exists>k' p r. box_at b k' p r \<and> (k' = k \<or> contains_box r k)" unfolding contains_box_def by blast
next
  assume "\<exists>k' p r. box_at b k' p r \<and> (k' = k \<or> contains_box r k)"
  then obtain k' p r where r: "box_at b k' p r" "k' = k \<or> contains_box r k" by blast
  show "contains_box b k"
  proof (cases "k' = k")
    case True
    with r(1) show ?thesis unfolding contains_box_def by (intro exI [of _ "[(k', p)]"] exI [of _ r]) simp
  next
    case False
    with r(2) obtain boxes rest where "mp4_boxes r boxes rest" "k \<in> fst ` set boxes"
      by (auto simp: contains_box_def)
    with r(1) show ?thesis unfolding contains_box_def
      by (intro exI [of _ "(k', p) # boxes"] exI [of _ rest]) auto
  qed
qed

lemma container_loop_iff:
  assumes "length bytes < 2 ^ 63" "c \<le> length bytes"
  shows "mp4_container_loop bytes k c = Inr True \<longleftrightarrow> contains_box (drop c bytes) k"
  using assms
proof (induction bytes k c rule: mp4_container_loop.induct)
  case (1 bytes k c)
  note len = 1(2)
  show ?case
  proof (cases "c < length bytes")
    case False
    then show ?thesis
      by (simp add: mp4_container_loop.simps contains_box_unfold [of "[]"])
  next
    case True
    show ?thesis
    proof (cases "parse_mp4_box bytes c")
      case (Inl e)
      then have "\<not> box_at (drop c bytes) k' p r" for k' p r
        using box_at_parse [OF len, of c k' p r] True by auto
      then show ?thesis using True Inl contains_box_unfold [of "drop c bytes" k]
        by (simp add: mp4_container_loop.simps [of bytes k c])
    next
      case (Inr b)
      note at = parse_box_at [OF len 1(3) Inr]
      have "contains_box (drop c bytes) k \<longleftrightarrow> mb_kind b = k \<or> contains_box (drop (mb_end b) bytes) k"
        unfolding contains_box_unfold [of "drop c bytes" k]
        using at box_at_unique [of "drop c bytes"] len by (metis length_drop less_imp_diff_less)
      then show ?thesis
        using True Inr 1(1) [OF True Inr] len parse_mp4_box_progress [OF Inr]
        by (simp add: mp4_container_loop.simps [of bytes k c])
    qed
  qed
qed

lemma contains_box_Nil [simp]: "\<not> contains_box [] k"
  by (simp add: contains_box_unfold [of "[]"])

lemma moov_complete_iff:
  assumes "length p < 2 ^ 63"
  shows "moov_incomplete p = Inr False \<longleftrightarrow> contains_box p box_mvhd \<and> contains_box p box_trak"
proof -
  have h: "mp4_container_has_box p k = Inr True \<longleftrightarrow> contains_box p k" for k
    using container_loop_iff [OF assms, of 0 k] by (simp add: mp4_container_has_box_def)
  have "moov_incomplete p = Inr False \<longleftrightarrow> p \<noteq> [] \<and> mp4_container_has_box p box_mvhd = Inr True \<and>
      mp4_container_has_box p box_trak = Inr True"
    unfolding moov_incomplete_def res_bind_Inr by (auto simp: res_bind_Inr)
  then show ?thesis unfolding h by auto
qed

lemma chunks_exact_concat: "\<forall>b\<in>set bs. length b = 4 \<Longrightarrow> chunks_exact_4 (concat bs) = bs"
proof (induction bs)
  case (Cons b bs)
  from Cons.prems obtain w x y z where "b = [w, x, y, z]"
    by (auto simp: length_Suc_conv eval_nat_numeral)
  with Cons show ?case by simp
qed simp

lemma chunks_exact_all: "4 dvd length xs \<Longrightarrow> concat (chunks_exact_4 xs) = xs \<and> (\<forall>b\<in>set (chunks_exact_4 xs). length b = 4)"
proof (induction xs rule: chunks_exact_4.induct)
  case (1 a b c d r)
  have "length (a # b # c # d # r) = length r + 4" by simp
  with 1 show ?case by (simp only: dvd_add_triv_right_iff) simp
qed (auto dest: dvd_imp_le)

lemma validate_ftyp_iff: "validate_ftyp p = Inr () \<longleftrightarrow> ftyp_wf p"
proof
  assume v: "validate_ftyp p = Inr ()"
  then have p: "8 \<le> length p" "4 dvd length (drop 8 p)" by (auto simp: validate_ftyp_def split: if_splits)
  have "p = take 4 p @ take 4 (drop 4 p) @ drop 8 p"
    by (metis add_numeral_left append.assoc append_take_drop_id numeral_Bit0 numeral_code(1) take_add)
  then have "p = take 4 p @ take 4 (drop 4 p) @ concat (chunks_exact_4 (drop 8 p))"
    using chunks_exact_all [OF p(2)] by simp
  moreover have "\<exists>b\<in>set (take 4 p # chunks_exact_4 (drop 8 p)). b \<in> set supported_brands"
    using v by (auto simp: validate_ftyp_def sub_slice_def list_ex_iff split: if_splits)
  moreover have "length (take 4 p) = 4" "length (take 4 (drop 4 p)) = 4" using p(1) by simp_all
  ultimately show "ftyp_wf p" using chunks_exact_all [OF p(2)] unfolding ftyp_wf_def by blast
next
  assume "ftyp_wf p"
  then obtain major minor brands where p: "p = major @ minor @ concat brands" "length major = 4"
     "length minor = 4" "\<forall>b\<in>set brands. length b = 4" "\<exists>b\<in>set (major # brands). b \<in> set supported_brands"
    unfolding ftyp_wf_def by blast
  have "4 dvd length (concat brands)" using p(4) by (induction brands) auto
  then show "validate_ftyp p = Inr ()"
    using p(2,3,5) chunks_exact_concat [OF p(4)]
    by (auto simp: p(1) validate_ftyp_def sub_slice_def list_ex_iff)
qed

lemma box_kinds [simp]: "box_ftyp \<noteq> box_moov" "box_ftyp \<noteq> box_mdat" "box_moov \<noteq> box_mdat"
  "box_moov \<noteq> box_ftyp" "box_mdat \<noteq> box_ftyp" "box_mdat \<noteq> box_moov"
  by (simp_all add: box_ftyp_def box_moov_def box_mdat_def)

text \<open>What the loop checks, on a list of boxes: \<open>first\<close> says whether it is the first box, the flags are
  those of the state.\<close>

definition box_ok :: "bool \<Rightarrow> bool \<Rightarrow> u8 list \<times> u8 list \<Rightarrow> bool" where
  "box_ok first f = (\<lambda>(k, p). (first \<longrightarrow> k = box_ftyp) \<and> (k = box_ftyp \<longrightarrow> \<not> f \<and> ftyp_wf p) \<and>
     (k = box_moov \<longrightarrow> contains_box p box_mvhd \<and> contains_box p box_trak) \<and> (k = box_mdat \<longrightarrow> p \<noteq> []))"

fun mp4_visit :: "bool \<Rightarrow> bool \<Rightarrow> bool \<Rightarrow> bool \<Rightarrow> (u8 list \<times> u8 list) list \<Rightarrow> bool" where
  "mp4_visit first f m d [] \<longleftrightarrow> f \<and> m \<and> d"
| "mp4_visit first f m d (b # bs) \<longleftrightarrow> box_ok first f b \<and>
     mp4_visit False (f \<or> fst b = box_ftyp) (m \<or> fst b = box_moov) (d \<or> fst b = box_mdat) bs"

lemma mp4_visit_more:
  "mp4_visit False True m d bs \<longleftrightarrow> box_ftyp \<notin> fst ` set bs \<and> (m \<or> box_moov \<in> fst ` set bs) \<and>
     (d \<or> box_mdat \<in> fst ` set bs) \<and> (box_mdat, []) \<notin> set bs \<and>
     (\<forall>p. (box_moov, p) \<in> set bs \<longrightarrow> contains_box p box_mvhd \<and> contains_box p box_trak)"
proof (induction bs arbitrary: m d)
  case (Cons b bs)
  obtain k p where "b = (k, p)" by (cases b)
  with Cons show ?case by (auto simp: box_ok_def)
qed simp

lemma mp4_visit_wf: "mp4_visit True False False False boxes \<longleftrightarrow> mp4_wf boxes"
proof (cases boxes)
  case (Cons b more)
  obtain k p where "b = (k, p)" by (cases b)
  with Cons mp4_visit_more [of False False more] show ?thesis
    by (auto simp: mp4_wf_def box_ok_def)
qed (simp add: mp4_wf_def)

lemma mp4_box_step_iff:
  assumes "length (mb_payload b) < 2 ^ 63"
  shows "mp4_box_step b st = Inr st' \<longleftrightarrow>
     box_ok (ms_box_index st = 0) (ms_saw_ftyp st) (mb_kind b, mb_payload b) \<and>
     st' = st\<lparr>ms_cursor := mb_end b, ms_box_index := Suc (ms_box_index st),
       ms_saw_ftyp := (ms_saw_ftyp st \<or> mb_kind b = box_ftyp),
       ms_saw_moov := (ms_saw_moov st \<or> mb_kind b = box_moov),
       ms_saw_mdat := (ms_saw_mdat st \<or> mb_kind b = box_mdat)\<rparr>"
proof -
  have m: "(\<exists>a. moov_incomplete (mb_payload b) = Inr a \<and> (if a then Inl e else r) = Inr x) \<longleftrightarrow>
      contains_box (mb_payload b) box_mvhd \<and> contains_box (mb_payload b) box_trak \<and> r = Inr x"
    for e and r :: "string + mp4_state" and x
  proof (cases "moov_incomplete (mb_payload b)")
    case (Inl y)
    with moov_complete_iff [OF assms] show ?thesis by auto
  next
    case (Inr y)
    with moov_complete_iff [OF assms] show ?thesis by (cases y) auto
  qed
  obtain c i f mo md where st: "st = \<lparr>ms_cursor = c, ms_box_index = i, ms_saw_ftyp = f, ms_saw_moov = mo, ms_saw_mdat = md\<rparr>"
    by (cases st)
  consider (ftyp) "mb_kind b = box_ftyp" | (moov) "mb_kind b = box_moov" | (mdat) "mb_kind b = box_mdat"
    | (other) "mb_kind b \<noteq> box_ftyp" "mb_kind b \<noteq> box_moov" "mb_kind b \<noteq> box_mdat" by blast
  then show ?thesis
  proof cases
    case ftyp
    then show ?thesis by (auto simp: st mp4_box_step_def box_ok_def Let_def res_bind_Inr validate_ftyp_iff)
  next
    case moov
    then show ?thesis by (auto simp: st mp4_box_step_def box_ok_def Let_def res_bind_Inr m)
  next
    case mdat
    then show ?thesis by (auto simp: st mp4_box_step_def box_ok_def Let_def)
  next
    case other
    then show ?thesis by (auto simp: st mp4_box_step_def box_ok_def Let_def)
  qed
qed

lemma mp4_loop_iff:
  assumes "length bytes < 2 ^ 63" "ms_cursor st \<le> length bytes"
  shows "(\<exists>st'. mp4_loop bytes st = Inr st' \<and> ms_saw_ftyp st' \<and> ms_saw_moov st' \<and> ms_saw_mdat st') \<longleftrightarrow>
     (\<exists>boxes. mp4_boxes (drop (ms_cursor st) bytes) boxes [] \<and>
        mp4_visit (ms_box_index st = 0) (ms_saw_ftyp st) (ms_saw_moov st) (ms_saw_mdat st) boxes)"
  using assms
proof (induction bytes st rule: mp4_loop.induct)
  case (1 bytes st)
  note len = 1(2)
  let ?c = "ms_cursor st"
  show ?case
  proof (cases "?c < length bytes")
    case False
    then have "drop ?c bytes = []" by simp
    moreover have "mp4_boxes [] boxes [] \<longleftrightarrow> boxes = []" for boxes by (cases boxes) auto
    ultimately show ?thesis using False by (simp add: mp4_loop.simps)
  next
    case True
    have split_first: "(\<exists>boxes. mp4_boxes (drop ?c bytes) boxes [] \<and> Q boxes) \<longleftrightarrow>
        (\<exists>k p r. box_at (drop ?c bytes) k p r \<and> (\<exists>boxes. mp4_boxes r boxes [] \<and> Q ((k, p) # boxes)))" for Q
    proof
      assume "\<exists>boxes. mp4_boxes (drop ?c bytes) boxes [] \<and> Q boxes"
      then obtain boxes where b: "mp4_boxes (drop ?c bytes) boxes []" "Q boxes" by blast
      with True obtain k p more where [simp]: "boxes = (k, p) # more" by (cases boxes) auto
      from b show "\<exists>k p r. box_at (drop ?c bytes) k p r \<and> (\<exists>boxes. mp4_boxes r boxes [] \<and> Q ((k, p) # boxes))"
        by auto
    next
      assume "\<exists>k p r. box_at (drop ?c bytes) k p r \<and> (\<exists>boxes. mp4_boxes r boxes [] \<and> Q ((k, p) # boxes))"
      then obtain k p r boxes where "box_at (drop ?c bytes) k p r" "mp4_boxes r boxes []" "Q ((k, p) # boxes)" by blast
      then show "\<exists>boxes. mp4_boxes (drop ?c bytes) boxes [] \<and> Q boxes"
        by (intro exI [of _ "(k, p) # boxes"]) auto
    qed
    show ?thesis
    proof (cases "parse_mp4_box bytes ?c")
      case (Inl e)
      then have "\<not> box_at (drop ?c bytes) k p r" for k p r
        using box_at_parse [OF len, of ?c k p r] True by auto
      then show ?thesis unfolding split_first using True Inl by (simp add: mp4_loop.simps [of bytes st])
    next
      case (Inr b)
      let ?ok = "box_ok (ms_box_index st = 0) (ms_saw_ftyp st) (mb_kind b, mb_payload b)"
      let ?st1 = "st\<lparr>ms_cursor := mb_end b, ms_box_index := Suc (ms_box_index st),
         ms_saw_ftyp := (ms_saw_ftyp st \<or> mb_kind b = box_ftyp),
         ms_saw_moov := (ms_saw_moov st \<or> mb_kind b = box_moov),
         ms_saw_mdat := (ms_saw_mdat st \<or> mb_kind b = box_mdat)\<rparr>"
      note at = parse_box_at [OF len 1(3) Inr]
      have small: "length (drop ?c bytes) < 2 ^ 63" using len by (simp add: less_imp_diff_less)
      have "length (mb_payload b) < 2 ^ 63" using box_at_length [OF at] small by linarith
      note step = mp4_box_step_iff [OF this, of st]
      have "(\<exists>st'. mp4_loop bytes st = Inr st' \<and> ms_saw_ftyp st' \<and> ms_saw_moov st' \<and> ms_saw_mdat st') \<longleftrightarrow>
         ?ok \<and> (\<exists>st'. mp4_loop bytes ?st1 = Inr st' \<and> ms_saw_ftyp st' \<and> ms_saw_moov st' \<and> ms_saw_mdat st')"
      proof (cases "mp4_box_step b st")
        case (Inl e)
        with step [of ?st1] True Inr show ?thesis by (simp add: mp4_loop.simps [of bytes st])
      next
        case i: (Inr st')
        then have "?ok" "st' = ?st1" using step [of st'] by simp_all
        then show ?thesis using True Inr i by (simp add: mp4_loop.simps [of bytes st])
      qed
      also have "\<dots> \<longleftrightarrow> ?ok \<and> (\<exists>boxes. mp4_boxes (drop (mb_end b) bytes) boxes [] \<and>
          mp4_visit False (ms_saw_ftyp ?st1) (ms_saw_moov ?st1) (ms_saw_mdat ?st1) boxes)"
      proof (cases ?ok)
        case True
        then have "mp4_box_step b st = Inr ?st1" using step by simp
        from 1(1) [OF \<open>?c < length bytes\<close> Inr this len] parse_mp4_box_progress [OF Inr] show ?thesis by simp
      qed simp
      also have "\<dots> \<longleftrightarrow> (\<exists>boxes. mp4_boxes (drop ?c bytes) boxes [] \<and>
          mp4_visit (ms_box_index st = 0) (ms_saw_ftyp st) (ms_saw_moov st) (ms_saw_mdat st) boxes)"
        unfolding split_first
      proof -
        have u: "box_at (drop ?c bytes) k p r \<longleftrightarrow> k = mb_kind b \<and> p = mb_payload b \<and> r = drop (mb_end b) bytes" for k p r
          using box_at_unique [OF small at] at by blast
        show "(?ok \<and> (\<exists>boxes. mp4_boxes (drop (mb_end b) bytes) boxes [] \<and>
          mp4_visit False (ms_saw_ftyp ?st1) (ms_saw_moov ?st1) (ms_saw_mdat ?st1) boxes)) =
          (\<exists>k p r. box_at (drop ?c bytes) k p r \<and> (\<exists>boxes. mp4_boxes r boxes [] \<and>
             mp4_visit (ms_box_index st = 0) (ms_saw_ftyp st) (ms_saw_moov st) (ms_saw_mdat st) ((k, p) # boxes)))"
          by (auto simp: u)
      qed
      finally show ?thesis .
    qed
  qed
qed

section \<open>The reader accepts exactly the format\<close>

text \<open>C39: The check of MP4 files accepts exactly the contents that are a sequence of boxes, the sizes written in
  any of the three ways, of which the first and only the first is a type box with a supported brand, a movie
  box with header and track is present, and a media box is, none of them empty.  The loops end on every
  content, no size makes them overflow, leave the content or stand still.\<close>

theorem mp4_accepts_exactly:
  assumes "length bytes < 2 ^ 63"
  shows "validate_mp4 bytes = Inr () \<longleftrightarrow> (\<exists>boxes. mp4_boxes bytes boxes [] \<and> mp4_wf boxes)"
proof -
  let ?st = "\<lparr>ms_cursor = 0, ms_box_index = 0, ms_saw_ftyp = False, ms_saw_moov = False, ms_saw_mdat = False\<rparr>"
  have "validate_mp4 bytes = Inr () \<longleftrightarrow>
      (\<exists>st'. mp4_loop bytes ?st = Inr st' \<and> ms_saw_ftyp st' \<and> ms_saw_moov st' \<and> ms_saw_mdat st')"
    by (auto simp: validate_mp4_def res_bind_Inr split: if_splits)
  also have "\<dots> \<longleftrightarrow> (\<exists>boxes. mp4_boxes bytes boxes [] \<and> mp4_wf boxes)"
    using mp4_loop_iff [OF assms, of ?st] by (simp add: mp4_visit_wf)
  finally show ?thesis .
qed

text \<open>A smallest movie; the media box extends to the end.\<close>

definition sample_mp4 :: "u8 list" where
  "sample_mp4 =
     be_bytes 4 16 @ box_ftyp @ [0x69, 0x73, 0x6F, 0x6D, 0, 0, 0, 0] @
     be_bytes 4 24 @ box_moov @ (be_bytes 4 8 @ box_mvhd) @ (be_bytes 4 8 @ box_trak) @
     be_bytes 4 0 @ box_mdat @ [1]"

lemma mp4_accepts_exactly_witness: "validate_mp4 sample_mp4 = Inr ()"
proof -
  let ?moov = "be_bytes 4 8 @ box_mvhd @ be_bytes 4 8 @ box_trak"
  let ?boxes = "[(box_ftyp, [0x69, 0x73, 0x6F, 0x6D, 0, 0, 0, 0]), (box_moov, ?moov), (box_mdat, [1])]"
  have kinds: "length box_ftyp = 4" "length box_moov = 4" "length box_mdat = 4" "length box_mvhd = 4" "length box_trak = 4"
    by (simp_all add: box_ftyp_def box_moov_def box_mdat_def box_mvhd_def box_trak_def)
  have mvhd: "box_at ?moov box_mvhd [] (be_bytes 4 8 @ box_trak)" and trak: "box_at (be_bytes 4 8 @ box_trak) box_trak [] []"
    by (simp_all add: box_at_def kinds)
  have "contains_box ?moov box_mvhd" "contains_box ?moov box_trak"
    using mvhd trak contains_box_unfold by blast+
  moreover have "ftyp_wf [0x69, 0x73, 0x6F, 0x6D, 0, 0, 0, 0]"
    unfolding validate_ftyp_iff [symmetric] by code_simp
  ultimately have "mp4_wf ?boxes"
    by (auto simp: mp4_wf_def)
  moreover have "mp4_boxes sample_mp4 ?boxes []"
  proof -
    have "box_at (be_bytes 4 0 @ box_mdat @ [1]) box_mdat [1] []" by (simp add: box_at_def kinds)
    moreover have "box_at (be_bytes 4 24 @ box_moov @ ?moov @ be_bytes 4 0 @ box_mdat @ [1]) box_moov ?moov
        (be_bytes 4 0 @ box_mdat @ [1])" by (simp add: box_at_def kinds)
    moreover have "box_at sample_mp4 box_ftyp [0x69, 0x73, 0x6F, 0x6D, 0, 0, 0, 0]
        (be_bytes 4 24 @ box_moov @ ?moov @ be_bytes 4 0 @ box_mdat @ [1])"
      by (simp add: box_at_def kinds sample_mp4_def)
    ultimately show ?thesis unfolding mp4_boxes.simps by blast
  qed
  moreover have "length sample_mp4 < 2 ^ 63" by (simp add: sample_mp4_def kinds)
  ultimately show ?thesis using mp4_accepts_exactly [of sample_mp4] by blast
qed

end
